(* ===== verification/Prelude.thy ===== *)
theory Prelude
  imports Complex_Main "HOL-Library.AList"
begin

text \<open>
  Shared vocabulary of the development: JSON-like values and dictionaries (Python
  \<^verbatim>\<open>dict\<close>, JSONB columns), keyed tables (the rows of a database table), sums over selected
  rows, string formatting of integers, and the theorem collections the component theories
  extend. Nothing here mentions billing.
\<close>

named_theorems row_simps \<open>reading a table after it was written\<close>
named_theorems sum_simps \<open>sums over selected rows of a table\<close>

section \<open>Sums over selected rows\<close>

text \<open>\<open>sum(f(r) for r in rows if P(r))\<close>, the shape of every ledger aggregate.\<close>

definition sum_where :: "('r \<Rightarrow> bool) \<Rightarrow> ('r \<Rightarrow> 'v::comm_monoid_add) \<Rightarrow> 'r list \<Rightarrow> 'v" where
  "sum_where P f rows = sum_list (map f (filter P rows))"

lemma sum_where_Nil [simp, sum_simps]: "sum_where P f [] = 0"
  by (simp add: sum_where_def)

lemma sum_where_Cons [sum_simps]:
  "sum_where P f (r # rows) = (if P r then f r + sum_where P f rows else sum_where P f rows)"
  by (simp add: sum_where_def)

lemma sum_where_append [simp, sum_simps]:
  "sum_where P f (xs @ ys) = sum_where P f xs + sum_where P f ys"
  by (simp add: sum_where_def)

lemma sum_where_single [simp, sum_simps]: "sum_where P f [r] = (if P r then f r else 0)"
  by (simp add: sum_where_def)

lemma sum_where_cong:
  "(\<And>r. r \<in> set rows \<Longrightarrow> P r = Q r) \<Longrightarrow> (\<And>r. r \<in> set rows \<Longrightarrow> Q r \<Longrightarrow> f r = g r) \<Longrightarrow>
   sum_where P f rows = sum_where Q g rows"
  by (induction rows) (auto simp: sum_where_Cons)

lemma sum_where_none: "(\<And>r. r \<in> set rows \<Longrightarrow> \<not> P r) \<Longrightarrow> sum_where P f rows = 0"
  by (induction rows) (auto simp: sum_where_Cons)

lemma sum_where_filter: "sum_where P f (filter Q rows) = sum_where (\<lambda>r. P r \<and> Q r) f rows"
  by (induction rows) (auto simp: sum_where_Cons)

lemma sum_where_split:
  "sum_where P f rows = sum_where (\<lambda>r. P r \<and> Q r) f rows + sum_where (\<lambda>r. P r \<and> \<not> Q r) f rows"
  by (induction rows) (auto simp: sum_where_Cons algebra_simps)

lemma sum_where_nonneg:
  fixes f :: "'r \<Rightarrow> 'v::ordered_comm_monoid_add"
  shows "(\<And>r. r \<in> set rows \<Longrightarrow> P r \<Longrightarrow> 0 \<le> f r) \<Longrightarrow> 0 \<le> sum_where P f rows"
  by (induction rows) (auto simp: sum_where_Cons intro: add_nonneg_nonneg)

text \<open>
  A selection split by a key: when every selected row has its key in a list of distinct keys,
  the per-key sums add up to the whole.
\<close>

lemma sum_where_by_key:
  assumes "distinct ks" and "\<And>r. r \<in> set rows \<Longrightarrow> P r \<Longrightarrow> key r \<in> set ks"
  shows "(\<Sum>k\<leftarrow>ks. sum_where (\<lambda>r. P r \<and> key r = k) f rows) = sum_where P f rows"
  using assms(2)
proof (induction rows)
  case Nil
  show ?case by (induction ks) auto
next
  case (Cons r rows)
  have pick: "(\<Sum>k\<leftarrow>ks. (if P r \<and> key r = k then f r else 0)) = (if P r then f r else 0)"
    if "P r \<Longrightarrow> key r \<in> set ks"
    using assms(1) that
  proof (induction ks)
    case (Cons k ks)
    have zero: "(\<Sum>x\<leftarrow>ks. if P r \<and> key r = x then f r else 0) = 0" if "key r \<notin> set ks"
      using that by (induction ks) auto
    show ?case
    proof (cases "key r = k")
      case True
      with Cons.prems zero show ?thesis by auto
    next
      case False
      with Cons show ?thesis by auto
    qed
  qed auto
  have "(\<Sum>k\<leftarrow>ks. sum_where (\<lambda>r. P r \<and> key r = k) f (r # rows))
      = (\<Sum>k\<leftarrow>ks. (if P r \<and> key r = k then f r else 0) + sum_where (\<lambda>r. P r \<and> key r = k) f rows)"
    by (rule arg_cong [where f = sum_list]) (auto simp: sum_where_Cons)
  also have "\<dots> = (if P r then f r else 0) + sum_where P f rows"
    using Cons by (simp add: sum_list_addf pick)
  finally show ?case by (simp add: sum_where_Cons)
qed

lemma sum_where_insort: "sum_where P f (insort_key key x xs) = sum_where P f (x # xs)"
  by (induction xs) (auto simp: sum_where_Cons algebra_simps)

lemma sum_where_sort [simp]: "sum_where P f (sort_key key rows) = sum_where P f rows"
  by (induction rows) (simp_all add: sum_where_insort, simp add: sum_where_Cons)

section \<open>Keyed tables\<close>

text \<open>
  A database table is the list of its rows in insertion order; \<open>row_get\<close> is
  \<^verbatim>\<open>session.get(Model, key)\<close>, \<open>row_put\<close> is the flush of a changed row.
\<close>

definition row_get :: "('r \<Rightarrow> 'k) \<Rightarrow> 'k \<Rightarrow> 'r list \<Rightarrow> 'r option" where
  "row_get key k rows = find (\<lambda>r. key r = k) rows"

definition row_put :: "('r \<Rightarrow> 'k) \<Rightarrow> 'r \<Rightarrow> 'r list \<Rightarrow> 'r list" where
  "row_put key r rows = map (\<lambda>x. if key x = key r then r else x) rows"

lemma row_get_Nil [simp, row_simps]: "row_get key k [] = None"
  by (simp add: row_get_def)

lemma row_get_Cons [row_simps]:
  "row_get key k (r # rows) = (if key r = k then Some r else row_get key k rows)"
  by (simp add: row_get_def)

lemma row_get_append [row_simps]:
  "row_get key k (xs @ ys) = (case row_get key k xs of None \<Rightarrow> row_get key k ys | Some r \<Rightarrow> Some r)"
  by (induction xs) (auto simp: row_get_Cons)

lemma row_get_SomeD: "row_get key k rows = Some r \<Longrightarrow> key r = k \<and> r \<in> set rows"
  by (induction rows) (auto simp: row_get_Cons split: if_splits)

lemma row_get_None_iff: "row_get key k rows = None \<longleftrightarrow> k \<notin> key ` set rows"
  by (induction rows) (auto simp: row_get_Cons)

lemma row_get_put_same [simp, row_simps]:
  "row_get key (key r) rows = Some r0 \<Longrightarrow> row_get key (key r) (row_put key r rows) = Some r"
  by (induction rows) (auto simp: row_get_Cons row_put_def split: if_splits)

lemma row_get_put_other [simp, row_simps]:
  "k \<noteq> key r \<Longrightarrow> row_get key k (row_put key r rows) = row_get key k rows"
  by (induction rows) (auto simp: row_get_Cons row_put_def)

lemma keys_put [simp]: "map key (row_put key r rows) = map key rows"
  by (auto simp: row_put_def)

lemma key_image_put [simp]: "key ` set (row_put key r rows) = key ` set rows"
  by (metis keys_put list.set_map)

lemma in_set_put: "x \<in> set (row_put key r rows) \<Longrightarrow> x = r \<or> (x \<in> set rows \<and> key x \<noteq> key r)"
  by (auto simp: row_put_def split: if_splits)

lemma row_get_in_set:
  "distinct (map key rows) \<Longrightarrow> r \<in> set rows \<Longrightarrow> row_get key (key r) rows = Some r"
  by (induction rows) (auto simp: row_get_Cons)

text \<open>
  The interface every table gives to the code that uses it: \<open>get\<close> by key, \<open>put\<close> of a
  changed row, \<open>add\<close> of a row with a fresh key.
\<close>

locale keyed_store =
  fixes get :: "'k \<Rightarrow> 's \<Rightarrow> 'r option"
    and put :: "'r \<Rightarrow> 's \<Rightarrow> 's"
    and add :: "'r \<Rightarrow> 's \<Rightarrow> 's"
    and key :: "'r \<Rightarrow> 'k"
  assumes get_key: "get k s = Some r \<Longrightarrow> key r = k"
    and get_put_same: "get (key r) s = Some r0 \<Longrightarrow> get (key r) (put r s) = Some r"
    and get_put_other: "k \<noteq> key r \<Longrightarrow> get k (put r s) = get k s"
    and get_add: "get (key r) s = None \<Longrightarrow> get k (add r s) = (if k = key r then Some r else get k s)"
begin

lemma get_put:
  "get (key r) s = Some r0 \<Longrightarrow> get k (put r s) = (if k = key r then Some r else get k s)"
  by (simp add: get_put_same get_put_other)

lemma get_put_put:
  "get (key r) s = Some r0 \<Longrightarrow> key r' = key r \<Longrightarrow>
   get k (put r' (put r s)) = (if k = key r then Some r' else get k s)"
  by (metis get_put get_put_same)

lemma put_keeps_known: "get (key r) s = Some r0 \<Longrightarrow> get k s \<noteq> None \<Longrightarrow> get k (put r s) \<noteq> None"
  by (simp add: get_put)

lemma put_adds_nothing: "get (key r) s = Some r0 \<Longrightarrow> get k s = None \<Longrightarrow> get k (put r s) = None"
  by (auto simp: get_put)

lemma add_then_put:
  "get (key r) s = None \<Longrightarrow> key r' = key r \<Longrightarrow>
   get k (put r' (add r s)) = (if k = key r then Some r' else get k s)"
  by (metis get_add get_put_same get_put_other)

end

text \<open>Any list of rows is such a store.\<close>

interpretation row_list: keyed_store "row_get key" "row_put key" "\<lambda>r rows. rows @ [r]" key
  for key :: "'r \<Rightarrow> 'k"
  by unfold_locales
    (auto dest: row_get_SomeD simp: row_get_append row_get_Cons split: option.splits)

section \<open>Dictionaries and JSON values\<close>

text \<open>
  A Python \<^verbatim>\<open>dict\<close> is an association list in insertion order (\<open>AList.update\<close> keeps the
  position of a key it overwrites, as Python does); \<open>dict_get\<close> is \<^verbatim>\<open>d.get(k)\<close> and
  \<open>dict_merge a b\<close> is \<^verbatim>\<open>{**a, **b}\<close>.
\<close>

type_synonym 'v dict = "(string \<times> 'v) list"

definition dict_get :: "string \<Rightarrow> 'v dict \<Rightarrow> 'v option" where
  "dict_get k d = map_of d k"

definition dict_merge :: "'v dict \<Rightarrow> 'v dict \<Rightarrow> 'v dict" where
  "dict_merge a b = fold (\<lambda>(k, v). AList.update k v) b a"

definition dict_pop :: "string \<Rightarrow> 'v dict \<Rightarrow> 'v dict" where
  "dict_pop k d = AList.delete k d"

lemma dict_get_merge:
  "dict_get k (dict_merge a b) = (case map_of (rev b) k of None \<Rightarrow> dict_get k a | Some v \<Rightarrow> Some v)"
proof (induction b arbitrary: a)
  case Nil
  then show ?case by (simp add: dict_merge_def dict_get_def)
next
  case (Cons p b)
  obtain k' v' where p: "p = (k', v')" by (cases p)
  have "dict_get k (dict_merge a (p # b)) = dict_get k (dict_merge (AList.update k' v' a) b)"
    by (simp add: dict_merge_def p)
  also have "\<dots> = (case map_of (rev b) k of None \<Rightarrow> dict_get k (AList.update k' v' a) | Some v \<Rightarrow> Some v)"
    by (rule Cons.IH)
  finally show ?case
    by (auto simp: p dict_get_def update_conv' map_add_def split: option.splits)
qed

lemma dict_get_Nil [simp]: "dict_get k [] = None"
  by (simp add: dict_get_def)

lemma dict_get_Cons [simp]: "dict_get k ((k', v) # d) = (if k' = k then Some v else dict_get k d)"
  by (simp add: dict_get_def)

lemma dict_get_pop [simp]: "dict_get k (dict_pop k' d) = (if k = k' then None else dict_get k d)"
  by (simp add: dict_get_def dict_pop_def delete_conv')

section \<open>Showing integers\<close>

text \<open>Decimal digits of a non-negative integer, most significant first.\<close>

definition digit_char :: "int \<Rightarrow> char" where
  "digit_char d = ''0123456789'' ! nat d"

function show_int :: "int \<Rightarrow> string" where
  "show_int n = (if n < 10 then [digit_char n] else show_int (n div 10) @ [digit_char (n mod 10)])"
  by pat_completeness auto
termination
  by (relation "measure nat") auto

declare show_int.simps [simp del]

text \<open>Left padding with zeros, the \<^verbatim>\<open>04d\<close> of a format string.\<close>

definition pad_zeros :: "nat \<Rightarrow> string \<Rightarrow> string" where
  "pad_zeros w s = replicate (w - length s) CHR ''0'' @ s"

lemma length_pad_zeros: "length s \<le> w \<Longrightarrow> length (pad_zeros w s) = w"
  by (simp add: pad_zeros_def)

lemma digit_char_in: "d < 10 \<Longrightarrow> digit_char d \<in> set ''0123456789''"
  unfolding digit_char_def by (rule nth_mem) simp

lemma show_int_digits: "c \<in> set (show_int n) \<Longrightarrow> c \<in> set ''0123456789''"
proof (induction n rule: show_int.induct)
  case (1 n)
  show ?case
  proof (cases "n < 10")
    case True
    with "1.prems" have "c = digit_char n" by (subst (asm) show_int.simps) simp
    then show ?thesis using digit_char_in [OF True] by simp
  next
    case False
    with "1.prems" consider "c \<in> set (show_int (n div 10))" | "c = digit_char (n mod 10)"
      by (subst (asm) show_int.simps) auto
    then show ?thesis
    proof cases
      case 1
      with False show ?thesis by (rule "1.IH")
    next
      case 2
      moreover have "n mod 10 < 10" by simp
      ultimately show ?thesis using digit_char_in by metis
    qed
  qed
qed

lemma length_show_int: "n < 10 ^ k \<Longrightarrow> 0 < k \<Longrightarrow> length (show_int n) \<le> k"
proof (induction k arbitrary: n)
  case (Suc k)
  show ?case
  proof (cases "n < 10")
    case True
    then show ?thesis by (subst show_int.simps) simp
  next
    case False
    have small: "n div 10 < 10 ^ k" using Suc.prems by simp
    have "0 < k" using Suc.prems False by (cases k) auto
    with small have "length (show_int (n div 10)) \<le> k" by (rule Suc.IH)
    with False show ?thesis by (subst show_int.simps) simp
  qed
qed simp

end
