(* ===== verification/PyText.thy ===== *)
theory PyText
  imports Prelude
begin

text \<open>
  The string operations of Python the code uses: \<^verbatim>\<open>lower\<close>, \<^verbatim>\<open>strip\<close>, \<^verbatim>\<open>in\<close>, \<^verbatim>\<open>startswith\<close>,
  \<^verbatim>\<open>endswith\<close>, \<^verbatim>\<open>replace(pat, "")\<close> and \<^verbatim>\<open>int(text, base)\<close>. Characters are bytes; letter case,
  whitespace and digits are those of ASCII.
\<close>

definition code_of :: "char \<Rightarrow> nat" where
  "code_of c = of_char c"

definition is_digit :: "char \<Rightarrow> bool" where
  "is_digit c \<longleftrightarrow> 48 \<le> code_of c \<and> code_of c \<le> 57"

definition is_alnum :: "char \<Rightarrow> bool" where
  "is_alnum c \<longleftrightarrow> is_digit c \<or> (65 \<le> code_of c \<and> code_of c \<le> 90) \<or> (97 \<le> code_of c \<and> code_of c \<le> 122)"

text \<open>\<^verbatim>\<open>str.isspace\<close> of one character, also the regular expression \<^verbatim>\<open>\s\<close>.\<close>

definition is_space :: "char \<Rightarrow> bool" where
  "is_space c \<longleftrightarrow> (9 \<le> code_of c \<and> code_of c \<le> 13) \<or> (28 \<le> code_of c \<and> code_of c \<le> 32)"

definition lower_char :: "char \<Rightarrow> char" where
  "lower_char c = (if 65 \<le> code_of c \<and> code_of c \<le> 90 then char_of (code_of c + 32) else c)"

definition lower :: "string \<Rightarrow> string" where
  "lower s = map lower_char s"

definition strip :: "string \<Rightarrow> string" where
  "strip s = rev (dropWhile is_space (rev (dropWhile is_space s)))"

definition strip_chars :: "char list \<Rightarrow> string \<Rightarrow> string" where
  "strip_chars cs s = rev (dropWhile (\<lambda>c. c \<in> set cs) (rev (dropWhile (\<lambda>c. c \<in> set cs) s)))"

definition starts_with :: "string \<Rightarrow> string \<Rightarrow> bool" where
  "starts_with p s \<longleftrightarrow> take (length p) s = p"

definition ends_with :: "string \<Rightarrow> string \<Rightarrow> bool" where
  "ends_with p s \<longleftrightarrow> length p \<le> length s \<and> drop (length s - length p) s = p"

text \<open>\<^verbatim>\<open>p in s\<close>: the first position at which \<open>p\<close> starts.\<close>

fun contains :: "string \<Rightarrow> string \<Rightarrow> bool" where
  "contains p [] \<longleftrightarrow> p = []"
| "contains p (c # s) \<longleftrightarrow> starts_with p (c # s) \<or> contains p s"

fun remove_all :: "string \<Rightarrow> string \<Rightarrow> string" where
  "remove_all p [] = []"
| "remove_all p (c # s) =
     (if p \<noteq> [] \<and> starts_with p (c # s) then remove_all p (drop (length p - 1) s)
      else c # remove_all p s)"

declare remove_all.simps [simp del]

lemma starts_with_iff: "starts_with p s \<longleftrightarrow> (\<exists>v. s = p @ v)"
  by (metis append_eq_conv_conj append_take_drop_id starts_with_def)

lemma contains_iff: "contains p s \<longleftrightarrow> (\<exists>u v. s = u @ p @ v)"
proof (induction s)
  case (Cons c s)
  show ?case
  proof
    assume "contains p (c # s)"
    then consider "starts_with p (c # s)" | "contains p s" by auto
    then show "\<exists>u v. c # s = u @ p @ v"
    proof cases
      case 1
      then show ?thesis by (metis append_Nil starts_with_iff)
    next
      case 2
      with Cons.IH show ?thesis by (metis append_Cons)
    qed
  next
    assume "\<exists>u v. c # s = u @ p @ v"
    then obtain u v where uv: "c # s = u @ p @ v" by blast
    show "contains p (c # s)"
    proof (cases u)
      case Nil
      with uv have "starts_with p (c # s)" by (simp add: starts_with_iff)
      then show ?thesis by simp
    next
      case (Cons d u')
      with uv have "s = u' @ p @ v" by simp
      then show ?thesis using Cons.IH by auto
    qed
  qed
qed simp

lemma ends_with_iff: "ends_with p s \<longleftrightarrow> (\<exists>u. s = u @ p)"
proof
  assume e: "ends_with p s"
  have "s = take (length s - length p) s @ drop (length s - length p) s" by simp
  also have "drop (length s - length p) s = p" using e by (simp add: ends_with_def)
  finally show "\<exists>u. s = u @ p" by blast
qed (auto simp: ends_with_def)

section \<open>\<^verbatim>\<open>int(text, base)\<close>\<close>

text \<open>
  Surrounding whitespace is dropped, a sign is accepted, single underscores may separate digits,
  base 16 accepts a \<^verbatim>\<open>0x\<close> prefix; \<open>None\<close> is the ValueError.
\<close>

definition digit_value :: "char \<Rightarrow> int option" where
  "digit_value c =
     (if is_digit c then Some (int (code_of c) - 48)
      else if 97 \<le> code_of (lower_char c) \<and> code_of (lower_char c) \<le> 122
        then Some (int (code_of (lower_char c)) - 87) else None)"

fun digits_from :: "int \<Rightarrow> int \<Rightarrow> bool \<Rightarrow> string \<Rightarrow> int option" where
  "digits_from b acc need_digit [] = (if need_digit then None else Some acc)"
| "digits_from b acc need_digit (c # cs) =
     (if c = CHR ''_'' then (if need_digit then None else digits_from b acc True cs)
      else case digit_value c of None \<Rightarrow> None
      | Some d \<Rightarrow> if d < b then digits_from b (acc * b + d) False cs else None)"

definition py_int :: "int \<Rightarrow> string \<Rightarrow> int option" where
  "py_int b text =
     (let t = strip text;
          neg = starts_with ''-'' t;
          t1 = (if neg \<or> starts_with ''+'' t then tl t else t);
          hex = b = 16 \<and> starts_with ''0x'' (lower t1);
          t2 = (if hex then (if starts_with ''_'' (drop 2 t1) then drop 3 t1 else drop 2 t1) else t1)
      in map_option (\<lambda>n. if neg then - n else n) (digits_from b 0 True t2))"

text \<open>Decimal digits, as a number; on those \<open>int\<close> is the plain positional value.\<close>

definition all_digits :: "string \<Rightarrow> bool" where
  "all_digits s \<longleftrightarrow> list_all is_digit s"

fun decimal_value :: "int \<Rightarrow> string \<Rightarrow> int" where
  "decimal_value acc [] = acc"
| "decimal_value acc (c # cs) = decimal_value (acc * 10 + (int (code_of c) - 48)) cs"

lemma digit_chars:
  "is_digit c \<Longrightarrow> c \<noteq> CHR ''_''" "is_digit c \<Longrightarrow> c \<noteq> CHR ''-''" "is_digit c \<Longrightarrow> c \<noteq> CHR ''+''"
  "is_digit c \<Longrightarrow> \<not> is_space c" "is_digit c \<Longrightarrow> int (code_of c) - 48 < 10"
  by (auto simp: is_digit_def is_space_def code_of_def)

lemma digits_from_digits:
  "all_digits s \<Longrightarrow> digits_from 10 acc False s = Some (decimal_value acc s)"
  by (induction s arbitrary: acc)
    (auto simp: all_digits_def digit_value_def digit_chars)

lemma digits_from_digits_nonempty:
  "all_digits s \<Longrightarrow> s \<noteq> [] \<Longrightarrow> digits_from 10 0 True s = Some (decimal_value 0 s)"
  using digits_from_digits [of "tl s"]
  by (cases s) (auto simp: all_digits_def digit_value_def digit_chars)

lemma strip_digits: "all_digits s \<Longrightarrow> strip s = s"
proof -
  have drop: "all_digits s \<Longrightarrow> dropWhile is_space s = s" for s
    by (cases s) (auto simp: all_digits_def digit_chars)
  moreover have "all_digits (rev s) = all_digits s" by (simp add: all_digits_def)
  ultimately show "all_digits s \<Longrightarrow> strip s = s" by (simp add: strip_def)
qed

lemma py_int_digits:
  assumes "all_digits s" and "s \<noteq> []"
  shows "py_int 10 s = Some (decimal_value 0 s)"
proof -
  obtain c s' where s: "s = c # s'" using assms(2) by (cases s) auto
  have "is_digit c" using assms(1) by (simp add: s all_digits_def)
  then have "\<not> starts_with ''-'' s" "\<not> starts_with ''+'' s"
    using digit_chars(2,3) by (auto simp: starts_with_def s)
  then show ?thesis
    using strip_digits [OF assms(1)] digits_from_digits_nonempty [OF assms]
    by (simp add: py_int_def)
qed

text \<open>The digits that are shown read back as the number, so different numbers are shown differently.\<close>

lemma decimal_value_append: "decimal_value acc (s @ [c]) = decimal_value acc s * 10 + (int (code_of c) - 48)"
  by (induction s arbitrary: acc) simp_all

lemma digit_code: "0 \<le> d \<Longrightarrow> d < 10 \<Longrightarrow> int (code_of (digit_char d)) - 48 = d \<and> is_digit (digit_char d)"
proof -
  assume "0 \<le> d" "d < 10"
  then have "d = 0 \<or> d = 1 \<or> d = 2 \<or> d = 3 \<or> d = 4 \<or> d = 5 \<or> d = 6 \<or> d = 7 \<or> d = 8 \<or> d = 9" by presburger
  then show ?thesis by (elim disjE) (simp_all add: digit_char_def code_of_def is_digit_def)
qed

lemma show_int_value: "0 \<le> n \<Longrightarrow> decimal_value 0 (show_int n) = n \<and> all_digits (show_int n) \<and> show_int n \<noteq> []"
proof (induction n rule: show_int.induct)
  case (1 n)
  show ?case
  proof (cases "n < 10")
    case True
    with 1 digit_code [of n] show ?thesis by (subst (1 2 3) show_int.simps) (simp add: all_digits_def)
  next
    case False
    then have "0 \<le> n div 10" by simp
    with 1(1) [OF False] have ih: "decimal_value 0 (show_int (n div 10)) = n div 10" "all_digits (show_int (n div 10))" by auto
    have "0 \<le> n mod 10" "n mod 10 < 10" by simp_all
    with ih False digit_code [of "n mod 10"] show ?thesis
      by (subst (1 2 3) show_int.simps) (simp add: decimal_value_append all_digits_def)
  qed
qed

lemma show_int_inject: "0 \<le> m \<Longrightarrow> 0 \<le> n \<Longrightarrow> show_int m = show_int n \<longleftrightarrow> m = n"
  by (metis show_int_value)

lemma no_colon_in_int: "0 \<le> n \<Longrightarrow> CHR '':'' \<notin> set (show_int n)"
  using show_int_digits by fastforce

lemma split_at_first:
  "c \<notin> set xs \<Longrightarrow> c \<notin> set xs' \<Longrightarrow> xs @ c # ys = xs' @ c # ys' \<longleftrightarrow> xs = xs' \<and> ys = ys'"
proof (induction xs arbitrary: xs')
  case Nil
  then show ?case by (cases xs') auto
next
  case (Cons x xs)
  then show ?case by (cases xs') auto
qed

section \<open>\<^verbatim>\<open>float(text)\<close>\<close>

text \<open>
  A decimal literal with an optional sign, fraction and exponent; \<open>None\<close> is the ValueError. Digit
  separators, infinities and NaN are left out, and the value is not rounded to binary.
\<close>

definition span_digits :: "string \<Rightarrow> string \<times> string" where
  "span_digits s = (takeWhile is_digit s, dropWhile is_digit s)"

definition exponent_of :: "string \<Rightarrow> int option" where
  "exponent_of s =
     (case s of
        [] \<Rightarrow> Some 0
      | c # rest \<Rightarrow>
          if c \<noteq> CHR ''e'' \<and> c \<noteq> CHR ''E'' then None
          else (let neg = starts_with ''-'' rest;
                    digits = (if neg \<or> starts_with ''+'' rest then tl rest else rest)
                in if digits \<noteq> [] \<and> all_digits digits
                   then Some (if neg then - decimal_value 0 digits else decimal_value 0 digits)
                   else None))"

definition py_float :: "string \<Rightarrow> rat option" where
  "py_float raw =
     (let t = strip raw;
          neg = starts_with ''-'' t;
          t1 = (if neg \<or> starts_with ''+'' t then tl t else t);
          whole = fst (span_digits t1);
          t2 = snd (span_digits t1);
          frac = (if starts_with ''.'' t2 then fst (span_digits (tl t2)) else []);
          t3 = (if starts_with ''.'' t2 then snd (span_digits (tl t2)) else t2)
      in if whole = [] \<and> frac = [] then None
         else case exponent_of t3 of
                None \<Rightarrow> None
              | Some e \<Rightarrow>
                  (let m = rat_of_int (decimal_value 0 (whole @ frac)) / 10 ^ length frac;
                       x = (if 0 \<le> e then m * 10 ^ nat e else m / 10 ^ nat (- e))
                   in Some (if neg then - x else x)))"

section \<open>Hexadecimal text\<close>

text \<open>\<^verbatim>\<open>str(uuid)\<close>: 32 hexadecimal digits in groups.\<close>

definition hex_digit :: "nat \<Rightarrow> char" where
  "hex_digit n = char_of (if n < 10 then 48 + n else 87 + n)"

definition uuid_text :: "nat \<Rightarrow> string" where
  "uuid_text i =
     (let digits = (\<lambda>a b. map (\<lambda>k. hex_digit (i div 16 ^ (31 - k) mod 16)) [a..<b])
      in digits 0 8 @ ''-'' @ digits 8 12 @ ''-'' @ digits 12 16 @ ''-'' @ digits 16 20 @ ''-'' @ digits 20 32)"

end
