(* ===== verification/Decimals.thy ===== *)
theory Decimals
  imports Prelude
begin

text \<open>
  Decimal arithmetic. A Python \<^verbatim>\<open>Decimal\<close> (and a Postgres \<^verbatim>\<open>NUMERIC\<close>) is the rational
  number it denotes; sums, differences and products of the code's amounts are exact in
  Python's 28-digit context, so \<open>rat\<close> computes the same values. Rounding is explicit:
  \<^verbatim>\<open>quantize(.., rounding=ROUND_HALF_UP)\<close> and the store into a \<^verbatim>\<open>NUMERIC(p, s)\<close> column round
  ties away from zero, the default \<^verbatim>\<open>quantize\<close> and the \<^verbatim>\<open>.2f\<close> format round ties to even.
  A \<^verbatim>\<open>float\<close> that the code passes through \<^verbatim>\<open>Decimal(str(x))\<close> is the rational its shortest
  decimal text denotes.
\<close>

section \<open>Rounding to an integer\<close>

definition half_up :: "rat \<Rightarrow> int" where
  "half_up y = \<lfloor>y + 1/2\<rfloor>"

definition half_even :: "rat \<Rightarrow> int" where
  "half_even y =
     (let f = \<lfloor>y\<rfloor>; r = y - of_int f in
      if r < 1/2 then f else if r > 1/2 then f + 1 else if even f then f else f + 1)"

text \<open>\<open>p\<close> fractional digits; the sign is kept apart so that ties behave symmetrically.\<close>

definition quantize :: "(rat \<Rightarrow> int) \<Rightarrow> nat \<Rightarrow> rat \<Rightarrow> rat" where
  "quantize rnd p x =
     (let s = 10 ^ p; n = of_int (rnd (\<bar>x\<bar> * s)) / s in if x < 0 then - n else n)"

definition quantize_half_up :: "nat \<Rightarrow> rat \<Rightarrow> rat" where
  "quantize_half_up p x = quantize half_up p x"

definition quantize_half_even :: "nat \<Rightarrow> rat \<Rightarrow> rat" where
  "quantize_half_even p x = quantize half_even p x"

text \<open>The value a \<^verbatim>\<open>NUMERIC(_, p)\<close> column holds after \<open>x\<close> was written to it.\<close>

definition pg_numeric :: "nat \<Rightarrow> rat \<Rightarrow> rat" where
  "pg_numeric p x = quantize half_up p x"

text \<open>Exactly representable with \<open>p\<close> fractional digits.\<close>

definition has_scale :: "nat \<Rightarrow> rat \<Rightarrow> bool" where
  "has_scale p x \<longleftrightarrow> of_int \<lfloor>x * 10 ^ p\<rfloor> = x * 10 ^ p"

lemma has_scaleI: "x * 10 ^ p = of_int n \<Longrightarrow> has_scale p x"
  by (simp add: has_scale_def)

lemma has_scaleE: assumes "has_scale p x" obtains n where "x * 10 ^ p = of_int n"
  using assms by (metis has_scale_def)

lemma has_scale_add [intro]: "has_scale p x \<Longrightarrow> has_scale p y \<Longrightarrow> has_scale p (x + y)"
  by (metis has_scaleE has_scaleI distrib_right of_int_add)

lemma has_scale_minus [intro]: "has_scale p x \<Longrightarrow> has_scale p (- x)"
  by (metis has_scaleE has_scaleI mult_minus_left of_int_minus)

lemma has_scale_diff [intro]: "has_scale p x \<Longrightarrow> has_scale p y \<Longrightarrow> has_scale p (x - y)"
  by (metis has_scale_add has_scale_minus diff_conv_add_uminus)

lemma has_scale_0 [simp]: "has_scale p 0"
  by (simp add: has_scale_def)

lemma has_scale_of_quotient: "has_scale p (of_int n / 10 ^ p)"
  by (rule has_scaleI [where n = n]) simp

lemma has_scale_mono: "has_scale p x \<Longrightarrow> p \<le> q \<Longrightarrow> has_scale q x"
proof -
  assume scale: "has_scale p x" and le: "p \<le> q"
  from scale obtain n where n: "x * 10 ^ p = of_int n" by (rule has_scaleE)
  have "x * 10 ^ q = x * 10 ^ p * 10 ^ (q - p)"
    using le by (simp flip: power_add)
  also have "\<dots> = of_int (n * 10 ^ (q - p))" using n by simp
  finally show ?thesis by (rule has_scaleI)
qed

lemma has_scale_sum_list: "(\<And>x. x \<in> set xs \<Longrightarrow> has_scale p x) \<Longrightarrow> has_scale p (sum_list xs)"
  by (induction xs) auto

section \<open>What every rounding mode gives\<close>

locale rounding =
  fixes rnd :: "rat \<Rightarrow> int"
  assumes near: "0 \<le> y \<Longrightarrow> \<bar>of_int (rnd y) - y\<bar> \<le> 1/2"
    and exact: "rnd (of_int n) = n"
    and mono: "y \<le> z \<Longrightarrow> rnd y \<le> rnd z"
begin

lemma nonneg: "0 \<le> y \<Longrightarrow> 0 \<le> rnd y"
  using mono [of 0 y] exact [of 0] by simp

lemma quantize_scale: "has_scale p (quantize rnd p x)"
  by (auto simp: quantize_def Let_def intro: has_scale_of_quotient has_scale_minus)

lemma quantize_exact: "has_scale p x \<Longrightarrow> quantize rnd p x = x"
proof -
  assume "has_scale p x"
  then obtain n where n: "x * 10 ^ p = of_int n" by (rule has_scaleE)
  have "\<bar>x\<bar> * 10 ^ p = \<bar>x * 10 ^ p\<bar>" by (simp add: abs_mult)
  also have "\<dots> = of_int \<bar>n\<bar>" by (simp add: n)
  finally have "rnd (\<bar>x\<bar> * 10 ^ p) = \<bar>n\<bar>" by (simp only: exact)
  moreover have "of_int \<bar>n\<bar> / 10 ^ p = \<bar>x\<bar>"
    using n by (metis abs_mult abs_of_nonneg nonzero_mult_div_cancel_right of_int_abs
        power_not_zero zero_le_numeral zero_le_power zero_neq_numeral)
  ultimately have "quantize rnd p x = (if x < 0 then - \<bar>x\<bar> else \<bar>x\<bar>)"
    by (simp only: quantize_def Let_def)
  then show ?thesis by (simp add: abs_if)
qed

lemma quantize_idem: "quantize rnd p (quantize rnd p x) = quantize rnd p x"
  by (rule quantize_exact) (rule quantize_scale)

lemma quantize_error: "\<bar>quantize rnd p x - x\<bar> \<le> 1 / (2 * 10 ^ p)"
proof -
  let ?s = "10 ^ p :: rat"
  have s: "0 < ?s" by simp
  have "\<bar>of_int (rnd (\<bar>x\<bar> * ?s)) - \<bar>x\<bar> * ?s\<bar> \<le> 1/2" by (rule near) simp
  then have "\<bar>of_int (rnd (\<bar>x\<bar> * ?s)) - \<bar>x\<bar> * ?s\<bar> / ?s \<le> (1/2) / ?s"
    using s by (intro divide_right_mono) auto
  moreover have "\<bar>of_int (rnd (\<bar>x\<bar> * ?s)) - \<bar>x\<bar> * ?s\<bar> / ?s = \<bar>of_int (rnd (\<bar>x\<bar> * ?s)) / ?s - \<bar>x\<bar>\<bar>"
    using s by (simp add: abs_div_pos diff_divide_distrib)
  ultimately have "\<bar>of_int (rnd (\<bar>x\<bar> * ?s)) / ?s - \<bar>x\<bar>\<bar> \<le> 1 / (2 * ?s)" by simp
  then show ?thesis by (auto simp: quantize_def Let_def abs_if split: if_splits)
qed

lemma quantize_nonneg: "0 \<le> x \<Longrightarrow> 0 \<le> quantize rnd p x"
  by (simp add: quantize_def Let_def nonneg)

lemma quantize_mono: "0 \<le> x \<Longrightarrow> x \<le> y \<Longrightarrow> quantize rnd p x \<le> quantize rnd p y"
  by (auto simp: quantize_def Let_def intro!: divide_right_mono mono mult_right_mono)

lemma quantize_le: "0 \<le> x \<Longrightarrow> x \<le> y \<Longrightarrow> has_scale p y \<Longrightarrow> quantize rnd p x \<le> y"
  using quantize_mono [of x y p] quantize_exact [of p y] by simp

lemma quantize_ge: "0 \<le> x \<Longrightarrow> x \<le> y \<Longrightarrow> has_scale p x \<Longrightarrow> x \<le> quantize rnd p y"
  using quantize_mono [of x y p] quantize_exact [of p x] by simp

lemma quantize_minus: "x \<noteq> 0 \<Longrightarrow> quantize rnd p (- x) = - quantize rnd p x"
  by (auto simp: quantize_def Let_def)

lemma quantize_0 [simp]: "quantize rnd p 0 = 0"
  using quantize_exact [of p 0] by simp

end

interpretation half_up: rounding half_up
proof
  fix y z :: rat and n :: int
  show "\<bar>of_int (half_up y) - y\<bar> \<le> 1/2"
    using floor_correct [of "y + 1/2"] unfolding half_up_def abs_le_iff by linarith
  show "half_up (of_int n) = n"
    unfolding half_up_def by (rule floor_unique) auto
  show "half_up y \<le> half_up z" if "y \<le> z"
    using that unfolding half_up_def by (intro floor_mono) simp
qed

lemma half_even_cases:
  obtains "half_even y = \<lfloor>y\<rfloor>" "y - of_int \<lfloor>y\<rfloor> \<le> 1/2"
        | "half_even y = \<lfloor>y\<rfloor> + 1" "1/2 \<le> y - of_int \<lfloor>y\<rfloor>"
  by (cases "y - of_int \<lfloor>y\<rfloor> < 1/2"; cases "y - of_int \<lfloor>y\<rfloor> > 1/2"; cases "even \<lfloor>y\<rfloor>")
    (auto simp: half_even_def Let_def not_less)

interpretation half_even: rounding half_even
proof
  fix y z :: rat and n :: int
  show "\<bar>of_int (half_even y) - y\<bar> \<le> 1/2"
    using floor_correct [of y] by (cases y rule: half_even_cases) (auto simp: abs_le_iff)
  show "half_even (of_int n) = n" by (simp add: half_even_def)
  show "half_even y \<le> half_even z" if "y \<le> z"
  proof (cases "\<lfloor>y\<rfloor> = \<lfloor>z\<rfloor>")
    case True
    with that show ?thesis by (auto simp: half_even_def Let_def)
  next
    case False
    with that have "\<lfloor>y\<rfloor> + 1 \<le> \<lfloor>z\<rfloor>" using floor_mono [OF that] by linarith
    moreover have "half_even y \<le> \<lfloor>y\<rfloor> + 1" by (cases y rule: half_even_cases) auto
    moreover have "\<lfloor>z\<rfloor> \<le> half_even z" by (cases z rule: half_even_cases) auto
    ultimately show ?thesis by linarith
  qed
qed

lemma pg_numeric_scale [intro, simp]: "has_scale p (pg_numeric p x)"
  unfolding pg_numeric_def by (rule half_up.quantize_scale)

lemma pg_numeric_exact: "has_scale p x \<Longrightarrow> pg_numeric p x = x"
  unfolding pg_numeric_def by (rule half_up.quantize_exact)

lemma pg_numeric_idem [simp]: "pg_numeric p (pg_numeric p x) = pg_numeric p x"
  by (rule pg_numeric_exact) simp

lemma pg_numeric_nonneg: "0 \<le> x \<Longrightarrow> 0 \<le> pg_numeric p x"
  unfolding pg_numeric_def by (rule half_up.quantize_nonneg)

lemma pg_numeric_0 [simp]: "pg_numeric p 0 = 0"
  by (simp add: pg_numeric_def)

section \<open>The \<^verbatim>\<open>f\<close> format\<close>

text \<open>
  \<^verbatim>\<open>f"{x:.pf}"\<close> of a Decimal: rounded ties-to-even, exactly \<open>p\<close> fractional digits, a minus
  sign whenever \<open>x\<close> is negative (also when it rounds to zero, as Python prints \<^verbatim>\<open>-0.00\<close>).
\<close>

definition fmt_scaled :: "nat \<Rightarrow> int \<Rightarrow> string" where
  "fmt_scaled p n =
     show_int (n div 10 ^ p) @ ''.'' @ pad_zeros p (show_int (n mod 10 ^ p))"

definition fmt :: "nat \<Rightarrow> rat \<Rightarrow> string" where
  "fmt p x = (if x < 0 then ''-'' else []) @ fmt_scaled p (half_even (\<bar>x\<bar> * 10 ^ p))"

text \<open>\<^verbatim>\<open>money\<close> and \<^verbatim>\<open>ratio\<close> of budget.py round half up before formatting.\<close>

definition fmt_half_up :: "nat \<Rightarrow> rat \<Rightarrow> string" where
  "fmt_half_up p x = fmt p (quantize_half_up p x)"

end
