(* ===== verification/Plans.thy ===== *)
theory Plans
  imports Decimals
begin

text \<open>
  The plan catalogue (apps/billing-service/src/billing_service/plans.py). The Chinese labels and the
  free-text note on the heavy tasks are left out; \<open>None\<close> is an unlimited rate.
\<close>

datatype plan_code = FREE | STARTER | PRO | TEAM | ENTERPRISE

fun plan_code_value :: "plan_code \<Rightarrow> string" where
  "plan_code_value FREE = ''free''"
| "plan_code_value STARTER = ''starter''"
| "plan_code_value PRO = ''pro''"
| "plan_code_value TEAM = ''team''"
| "plan_code_value ENTERPRISE = ''enterprise''"

definition plan_codes :: "plan_code list" where
  "plan_codes = [FREE, STARTER, PRO, TEAM, ENTERPRISE]"

definition plan_code_of :: "string \<Rightarrow> plan_code option" where
  "plan_code_of s = find (\<lambda>c. plan_code_value c = s) plan_codes"

record rate_limits =
  rl_rps :: "int option"
  rl_per_minute :: "int option"
  rl_concurrent :: "int option"
  rl_custom :: bool

record plan =
  pl_code :: plan_code
  pl_label :: string
  pl_credits :: rat
  pl_limits :: rate_limits
  pl_review :: bool
  pl_external :: bool

definition PLANS :: "plan list" where
  "PLANS =
     [\<lparr>pl_code = FREE, pl_label = ''Free'', pl_credits = 0,
       pl_limits = \<lparr>rl_rps = Some 3, rl_per_minute = Some 30, rl_concurrent = Some 1, rl_custom = False\<rparr>,
       pl_review = False, pl_external = False\<rparr>,
      \<lparr>pl_code = STARTER, pl_label = ''Starter'', pl_credits = 2000,
       pl_limits = \<lparr>rl_rps = Some 5, rl_per_minute = Some 200, rl_concurrent = Some 3, rl_custom = False\<rparr>,
       pl_review = False, pl_external = True\<rparr>,
      \<lparr>pl_code = PRO, pl_label = ''Pro'', pl_credits = 10000,
       pl_limits = \<lparr>rl_rps = Some 20, rl_per_minute = Some 1000, rl_concurrent = Some 10, rl_custom = False\<rparr>,
       pl_review = False, pl_external = True\<rparr>,
      \<lparr>pl_code = TEAM, pl_label = ''Team'', pl_credits = 50000,
       pl_limits = \<lparr>rl_rps = Some 100, rl_per_minute = Some 5000, rl_concurrent = Some 30, rl_custom = False\<rparr>,
       pl_review = True, pl_external = True\<rparr>,
      \<lparr>pl_code = ENTERPRISE, pl_label = ''Enterprise'', pl_credits = 200000,
       pl_limits = \<lparr>rl_rps = None, rl_per_minute = None, rl_concurrent = None, rl_custom = True\<rparr>,
       pl_review = True, pl_external = True\<rparr>]"

text \<open>\<^verbatim>\<open>PLAN_BY_CODE[plan_code]\<close>: every code has its plan, so the lookup never fails.\<close>

definition get_plan :: "plan_code \<Rightarrow> plan" where
  "get_plan code = the (find (\<lambda>p. pl_code p = code) PLANS)"

lemma get_plan_found: "find (\<lambda>p. pl_code p = code) PLANS = Some (get_plan code)"
  by (cases code) (simp_all add: get_plan_def PLANS_def)

lemma get_plan_code [simp]: "pl_code (get_plan code) = code"
  using get_plan_found [of code] by (auto simp: find_Some_iff)

lemma plan_credits [simp]:
  "pl_credits (get_plan FREE) = 0" "pl_credits (get_plan STARTER) = 2000"
  "pl_credits (get_plan PRO) = 10000" "pl_credits (get_plan TEAM) = 50000"
  "pl_credits (get_plan ENTERPRISE) = 200000"
  by (simp_all add: get_plan_def PLANS_def)

lemma plan_credits_positive: "0 < pl_credits (get_plan code) \<longleftrightarrow> code \<noteq> FREE"
  by (cases code) simp_all

lemma plan_credits_nonneg [simp]: "0 \<le> pl_credits (get_plan code)"
  by (cases code) simp_all

lemma plan_credits_scale [simp]: "pg_numeric p (pl_credits (get_plan code)) = pl_credits (get_plan code)"
proof -
  obtain n :: int where "pl_credits (get_plan code) = of_int n"
    by (cases code) (auto intro: that [of 0] that [of 2000] that [of 10000] that [of 50000] that [of 200000])
  then have "has_scale p (pl_credits (get_plan code))" by (intro has_scaleI [where n = "n * 10 ^ p"]) simp
  then show ?thesis by (rule pg_numeric_exact)
qed

lemma plan_code_of_value [simp]: "plan_code_of (plan_code_value c) = Some c"
  by (cases c) (simp_all add: plan_code_of_def plan_codes_def)

end
