(* ===== verification/Calendar.thy ===== *)
theory Calendar
  imports Prelude "HOL-Library.Product_Lexorder"
begin

text \<open>
  UTC datetimes and the calendar arithmetic billing does with them. A datetime is its civil
  fields, as Python's is: year, month, day, and the microsecond of the day. All datetimes the
  code compares are UTC-aware, so they are ordered by their fields; \<open>to_us\<close> is the instant as
  a count of microseconds (a \<^verbatim>\<open>timedelta\<close> is a difference of those). Years beyond Python's
  9999 are not cut off here.
\<close>

datatype datetime = DateTime (dt_year: int) (dt_month: int) (dt_day: int) (dt_us: int)

section \<open>The order of datetimes\<close>

definition dt_key :: "datetime \<Rightarrow> int \<times> int \<times> int \<times> int" where
  "dt_key d = (dt_year d, dt_month d, dt_day d, dt_us d)"

lemma dt_key_inject: "dt_key a = dt_key b \<longleftrightarrow> a = b"
  by (cases a; cases b) (auto simp: dt_key_def)

instantiation datetime :: linorder
begin

definition less_eq_datetime :: "datetime \<Rightarrow> datetime \<Rightarrow> bool" where
  "less_eq_datetime a b \<longleftrightarrow> dt_key a \<le> dt_key b"

definition less_datetime :: "datetime \<Rightarrow> datetime \<Rightarrow> bool" where
  "less_datetime a b \<longleftrightarrow> dt_key a < dt_key b"

instance
  by standard (auto simp: less_eq_datetime_def less_datetime_def dt_key_inject less_le)

end

section \<open>Civil dates and ordinals\<close>

definition leap_year :: "int \<Rightarrow> bool" where
  "leap_year y \<longleftrightarrow> y mod 4 = 0 \<and> (y mod 100 \<noteq> 0 \<or> y mod 400 = 0)"

text \<open>\<^verbatim>\<open>calendar.monthrange(year, month)[1]\<close>.\<close>

definition days_in_month :: "int \<Rightarrow> int \<Rightarrow> int" where
  "days_in_month y m =
     (if m = 2 then (if leap_year y then 29 else 28)
      else if m \<in> {4, 6, 9, 11} then 30 else 31)"

definition day_us :: int where
  "day_us = 24 * 60 * 60 * 1000000"

definition valid_datetime :: "datetime \<Rightarrow> bool" where
  "valid_datetime d \<longleftrightarrow>
     1 \<le> dt_year d \<and> 1 \<le> dt_month d \<and> dt_month d \<le> 12 \<and>
     1 \<le> dt_day d \<and> dt_day d \<le> days_in_month (dt_year d) (dt_month d) \<and>
     0 \<le> dt_us d \<and> dt_us d < day_us"

definition days_before_year :: "int \<Rightarrow> int" where
  "days_before_year y = (y - 1) * 365 + (y - 1) div 4 - (y - 1) div 100 + (y - 1) div 400"

definition days_before_month :: "int \<Rightarrow> int \<Rightarrow> int" where
  "days_before_month y m = sum_list (map (days_in_month y) [1..m - 1])"

text \<open>\<^verbatim>\<open>date.toordinal()\<close>, and the instant in microseconds.\<close>

definition date_ordinal :: "datetime \<Rightarrow> int" where
  "date_ordinal d = days_before_year (dt_year d) + days_before_month (dt_year d) (dt_month d) + dt_day d"

definition to_us :: "datetime \<Rightarrow> int" where
  "to_us d = date_ordinal d * day_us + dt_us d"

lemma days_in_month_bounds: "28 \<le> days_in_month y m" "days_in_month y m \<le> 31"
  by (auto simp: days_in_month_def)

lemma days_in_month_pos [simp]: "1 \<le> days_in_month y m"
  by (auto simp: days_in_month_def)

lemma days_before_month_step:
  assumes "1 \<le> m"
  shows "days_before_month y (m + 1) = days_before_month y m + days_in_month y m"
proof -
  have "[1..m] = [1..m - 1] @ [m]" using assms by (rule upto_rec2)
  then show ?thesis by (simp add: days_before_month_def)
qed

lemma div_pred:
  fixes y n :: int
  assumes "0 < n"
  shows "y div n = (y - 1) div n + (if y mod n = 0 then 1 else 0)"
proof -
  let ?q = "y div n" and ?r = "y mod n"
  have y: "y = n * ?q + ?r" by simp
  have r: "0 \<le> ?r" "?r < n" using assms by auto
  show ?thesis
  proof (cases "?r = 0")
    case True
    have "(y - 1) div n = ?q - 1"
      by (rule int_div_pos_eq [where r = "n - 1"]) (use y True assms in \<open>auto simp: right_diff_distrib\<close>)
    with True show ?thesis by simp
  next
    case False
    have "(y - 1) div n = ?q"
      by (rule int_div_pos_eq [where r = "?r - 1"]) (use y r False in auto)
    with False show ?thesis by simp
  qed
qed

lemma days_before_year_step:
  "days_before_year (y + 1) = days_before_year y + (if leap_year y then 366 else 365)"
proof -
  have nest: "y mod 400 = 0 \<Longrightarrow> y mod 100 = 0" "y mod 100 = 0 \<Longrightarrow> y mod 4 = 0"
    using dvd_trans [of 100 400 y] dvd_trans [of 4 100 y] by (simp_all add: mod_eq_0_iff_dvd)
  have diffs: "y * 365 + a - b + c - ((y - 1) * 365 + a' - b' + c') = 365 + i - j + k"
    if "a = a' + i" "b = b' + j" "c = c' + k" for a b c a' b' c' i j k :: int
    using that by (simp add: left_diff_distrib)
  have "days_before_year (y + 1) - days_before_year y
      = 365 + (if y mod 4 = 0 then 1 else 0) - (if y mod 100 = 0 then 1 else 0)
            + (if y mod 400 = 0 then 1 else 0)"
    unfolding days_before_year_def add_diff_cancel_right'
    by (rule diffs) (rule div_pred, simp)+
  with nest show ?thesis
    by (cases "y mod 400 = 0"; cases "y mod 100 = 0"; cases "y mod 4 = 0") (simp_all add: leap_year_def)
qed

lemma days_before_month_13: "days_before_month y 13 = (if leap_year y then 366 else 365)"
  by (simp add: days_before_month_def upto_rec1 days_in_month_def)

text \<open>
  The ordinal of the day before a month starts, months counted on from year 0: every month
  starts where the one before it ends.
\<close>

definition month_offset :: "int \<Rightarrow> int" where
  "month_offset i = days_before_year (i div 12) + days_before_month (i div 12) (i mod 12 + 1)"

definition month_index :: "datetime \<Rightarrow> int" where
  "month_index d = 12 * dt_year d + (dt_month d - 1)"

definition month_length :: "int \<Rightarrow> int" where
  "month_length i = days_in_month (i div 12) (i mod 12 + 1)"

lemma div_mod_12:
  assumes "i = 12 * y + m" "0 \<le> m" "m < 12"
  shows "(i::int) div 12 = y" "i mod 12 = m"
  by (rule int_div_pos_eq [where r = m]; use assms in simp)
    (rule int_mod_pos_eq [where q = y]; use assms in simp)

lemma month_offset_step: "month_offset (i + 1) = month_offset i + month_length i"
proof -
  obtain y m where i: "i div 12 = y" "i mod 12 = m" by simp
  have m: "0 \<le> m" "m < 12" using i by auto
  have y_m: "i = 12 * y + m" using i by auto
  show ?thesis
  proof (cases "m = 11")
    case True
    with y_m have next_year: "(i + 1) div 12 = y + 1" "(i + 1) mod 12 = 0"
      by (auto intro: div_mod_12)
    have "days_before_month y 13 = days_before_month y 12 + days_in_month y 12"
      using days_before_month_step [of 12 y] by simp
    moreover have "days_before_month (y + 1) 1 = 0" by (simp add: days_before_month_def)
    ultimately show ?thesis
      using days_before_month_13 [of y] days_before_year_step [of y]
      unfolding month_offset_def month_length_def next_year i True by simp
  next
    case False
    with y_m m have same_year: "(i + 1) div 12 = y" "(i + 1) mod 12 = m + 1"
      by (auto intro: div_mod_12)
    show ?thesis
      unfolding month_offset_def month_length_def same_year i
      using days_before_month_step [of "m + 1" y] m by simp
  qed
qed

lemma month_offset_less: "i < j \<Longrightarrow> month_offset i + month_length i \<le> month_offset j"
proof (induction j rule: int_gr_induct)
  case base
  then show ?case by (simp add: month_offset_step)
next
  case (step k)
  have "0 \<le> month_length k"
    using days_in_month_bounds(1) [of "k div 12" "k mod 12 + 1"] by (simp add: month_length_def)
  with step show ?case by (simp add: month_offset_step)
qed

lemma month_index_fields:
  assumes "1 \<le> dt_month d" "dt_month d \<le> 12"
  shows "month_index d div 12 = dt_year d" "month_index d mod 12 + 1 = dt_month d"
proof -
  have i: "month_index d = 12 * dt_year d + (dt_month d - 1)" by (simp add: month_index_def)
  from assms have m: "0 \<le> dt_month d - 1" "dt_month d - 1 < 12" by auto
  show "month_index d div 12 = dt_year d" by (rule div_mod_12(1) [OF i m])
  show "month_index d mod 12 + 1 = dt_month d" using div_mod_12(2) [OF i m] by simp
qed

lemma date_ordinal_month:
  assumes "1 \<le> dt_month d" "dt_month d \<le> 12"
  shows "date_ordinal d = month_offset (month_index d) + dt_day d"
  using month_index_fields [OF assms] by (simp add: date_ordinal_def month_offset_def)

lemma valid_month_length:
  "valid_datetime d \<Longrightarrow> month_length (month_index d) = days_in_month (dt_year d) (dt_month d)"
  by (simp add: month_length_def month_index_fields valid_datetime_def)

text \<open>The order on civil fields is the order on instants.\<close>

lemma to_us_less_of_less:
  assumes va: "valid_datetime a" and vb: "valid_datetime b" and less: "a < b"
  shows "to_us a < to_us b"
proof -
  have us: "0 \<le> dt_us a" "dt_us a < day_us" "0 \<le> dt_us b" "dt_us b < day_us"
    using va vb by (auto simp: valid_datetime_def)
  have ords: "date_ordinal a = month_offset (month_index a) + dt_day a"
             "date_ordinal b = month_offset (month_index b) + dt_day b"
    using va vb by (auto simp: valid_datetime_def intro: date_ordinal_month)
  from less consider (month) "month_index a < month_index b"
    | (day) "month_index a = month_index b" "dt_day a < dt_day b"
    | (time) "month_index a = month_index b" "dt_day a = dt_day b" "dt_us a < dt_us b"
    using va vb
    by (auto simp: less_datetime_def dt_key_def month_index_def valid_datetime_def less_prod_def')
  then have "date_ordinal a < date_ordinal b \<or> date_ordinal a = date_ordinal b \<and> dt_us a < dt_us b"
  proof cases
    case month
    have "dt_day a \<le> month_length (month_index a)" "1 \<le> dt_day b"
      using va vb by (simp_all add: valid_month_length) (auto simp: valid_datetime_def)
    with month_offset_less [OF month] ords show ?thesis by linarith
  qed (use ords in auto)
  then show ?thesis
  proof
    assume "date_ordinal a < date_ordinal b"
    then have "(date_ordinal a + 1) * day_us \<le> date_ordinal b * day_us"
      by (intro mult_right_mono) (auto simp: day_us_def)
    then have "date_ordinal a * day_us + day_us \<le> date_ordinal b * day_us"
      by (simp add: distrib_right)
    with us show ?thesis by (simp add: to_us_def)
  qed (simp add: to_us_def)
qed

lemma to_us_less_iff:
  "valid_datetime a \<Longrightarrow> valid_datetime b \<Longrightarrow> to_us a < to_us b \<longleftrightarrow> a < b"
  by (metis less_irrefl less_le_trans linorder_neqE nless_le to_us_less_of_less)

lemma to_us_le_iff:
  "valid_datetime a \<Longrightarrow> valid_datetime b \<Longrightarrow> to_us a \<le> to_us b \<longleftrightarrow> a \<le> b"
  by (meson linorder_not_less to_us_less_iff)

section \<open>Timedelta arithmetic\<close>

text \<open>\<^verbatim>\<open>a - b\<close> of two datetimes, in microseconds.\<close>

definition dt_minus :: "datetime \<Rightarrow> datetime \<Rightarrow> int" where
  "dt_minus a b = to_us a - to_us b"

fun next_day :: "datetime \<Rightarrow> datetime" where
  "next_day (DateTime y m d u) =
     (if d < days_in_month y m then DateTime y m (d + 1) u
      else if m < 12 then DateTime y (m + 1) 1 u
      else DateTime (y + 1) 1 1 u)"

fun prev_day :: "datetime \<Rightarrow> datetime" where
  "prev_day (DateTime y m d u) =
     (if 1 < d then DateTime y m (d - 1) u
      else if 1 < m then DateTime y (m - 1) (days_in_month y (m - 1)) u
      else DateTime (y - 1) 12 31 u)"

text \<open>Moving by whole days, and \<^verbatim>\<open>d + timedelta(microseconds=delta)\<close>.\<close>

definition shift_days :: "int \<Rightarrow> datetime \<Rightarrow> datetime" where
  "shift_days n d = (if 0 \<le> n then (next_day ^^ nat n) d else (prev_day ^^ nat (- n)) d)"

definition dt_plus :: "datetime \<Rightarrow> int \<Rightarrow> datetime" where
  "dt_plus d delta =
     (let t = dt_us d + delta in
      shift_days (t div day_us) (DateTime (dt_year d) (dt_month d) (dt_day d) (t mod day_us)))"

definition hours :: "int \<Rightarrow> int" where
  "hours n = n * 60 * 60 * 1000000"

definition days :: "int \<Rightarrow> int" where
  "days n = n * day_us"

lemma date_ordinal_next_month:
  assumes "1 \<le> m" "m \<le> 12"
  shows "days_before_year (if m < 12 then y else y + 1)
         + days_before_month (if m < 12 then y else y + 1) (if m < 12 then m + 1 else 1)
       = days_before_year y + days_before_month y m + days_in_month y m"
proof (cases "m < 12")
  case True
  with assms show ?thesis by (simp add: days_before_month_step)
next
  case False
  with assms have "m = 12" by simp
  then show ?thesis
    using days_before_month_step [of 12 y] days_before_month_13 [of y]
    by (simp add: days_before_year_step days_before_month_def)
qed

lemma next_day_ordinal: "valid_datetime d \<Longrightarrow> date_ordinal (next_day d) = date_ordinal d + 1"
  using date_ordinal_next_month [of "dt_month d" "dt_year d"]
  by (cases d) (auto simp: valid_datetime_def date_ordinal_def split: if_splits)

lemma next_day_valid: "valid_datetime d \<Longrightarrow> valid_datetime (next_day d)"
  by (cases d) (auto simp: valid_datetime_def)

lemma next_day_us [simp]: "dt_us (next_day d) = dt_us d"
  by (cases d) auto

lemma next_days_to_us:
  "valid_datetime d \<Longrightarrow>
   valid_datetime ((next_day ^^ n) d) \<and> to_us ((next_day ^^ n) d) = to_us d + int n * day_us"
  by (induction n) (auto simp: next_day_valid next_day_ordinal to_us_def algebra_simps)

lemma dt_plus_nonneg:
  assumes v: "valid_datetime d" and nn: "0 \<le> delta"
  shows "valid_datetime (dt_plus d delta) \<and> to_us (dt_plus d delta) = to_us d + delta"
proof -
  let ?t = "dt_us d + delta"
  let ?b = "DateTime (dt_year d) (dt_month d) (dt_day d) (?t mod day_us)"
  have pos: "0 < day_us" by (simp add: day_us_def)
  have t: "0 \<le> ?t" using v nn by (auto simp: valid_datetime_def)
  have vb: "valid_datetime ?b" using v pos by (auto simp: valid_datetime_def)
  have q: "0 \<le> ?t div day_us" using t pos by (simp add: pos_imp_zdiv_nonneg_iff)
  have plus: "dt_plus d delta = (next_day ^^ nat (?t div day_us)) ?b"
    using q by (simp add: dt_plus_def shift_days_def Let_def)
  have "to_us ?b + ?t div day_us * day_us = date_ordinal d * day_us + ?t"
    by (simp add: to_us_def date_ordinal_def)
  then show ?thesis
    using next_days_to_us [OF vb, of "nat (?t div day_us)"] q by (simp add: plus to_us_def)
qed

section \<open>Calendar months\<close>

text \<open>\<^verbatim>\<open>d.replace(day=1, hour=0, minute=0, second=0, microsecond=0)\<close>.\<close>

definition month_start :: "datetime \<Rightarrow> datetime" where
  "month_start d = DateTime (dt_year d) (dt_month d) 1 0"

text \<open>Advance by one calendar month, clamping the day to the month's end (plans.py).\<close>

definition add_one_calendar_month :: "datetime \<Rightarrow> datetime" where
  "add_one_calendar_month v =
     (let month = dt_month v + 1;
          (year, month) = (if month = 13 then (dt_year v + 1, 1) else (dt_year v, month));
          day = min (dt_day v) (days_in_month year month)
      in DateTime year month day (dt_us v))"

text \<open>The start of the next month (invoices.py, for a month start).\<close>

definition next_month :: "datetime \<Rightarrow> datetime" where
  "next_month v =
     (let year = (if dt_month v = 12 then dt_year v + 1 else dt_year v);
          month = (if dt_month v = 12 then 1 else dt_month v + 1)
      in DateTime year month 1 (dt_us v))"

lemma month_start_valid: "valid_datetime d \<Longrightarrow> valid_datetime (month_start d)"
  using days_in_month_bounds(1) [of "dt_year d" "dt_month d"]
  by (auto simp: valid_datetime_def month_start_def day_us_def)

lemma add_month_valid: "valid_datetime d \<Longrightarrow> valid_datetime (add_one_calendar_month d)"
  using days_in_month_bounds(1) [of "dt_year d + 1" 1]
    days_in_month_bounds(1) [of "dt_year d" "dt_month d + 1"]
  by (auto simp: valid_datetime_def add_one_calendar_month_def Let_def)

lemma add_month_ordinal:
  assumes v: "valid_datetime d"
  shows "date_ordinal d + 28 \<le> date_ordinal (add_one_calendar_month d)"
    and "date_ordinal (add_one_calendar_month d) \<le> date_ordinal d + 31"
proof -
  let ?y = "dt_year d" and ?m = "dt_month d"
  let ?y' = "if ?m < 12 then ?y else ?y + 1" and ?m' = "if ?m < 12 then ?m + 1 else 1"
  have m: "1 \<le> ?m" "?m \<le> 12" and dd: "1 \<le> dt_day d" "dt_day d \<le> days_in_month ?y ?m"
    using v by (auto simp: valid_datetime_def)
  have next_ord: "date_ordinal (add_one_calendar_month d)
      = days_before_year ?y + days_before_month ?y ?m + days_in_month ?y ?m
        + min (dt_day d) (days_in_month ?y' ?m')"
    using date_ordinal_next_month [OF m, of ?y] m
    by (auto simp: date_ordinal_def add_one_calendar_month_def Let_def)
  have ord: "date_ordinal d = days_before_year ?y + days_before_month ?y ?m + dt_day d"
    by (simp add: date_ordinal_def)
  have b: "28 \<le> days_in_month ?y ?m" "days_in_month ?y ?m \<le> 31" "28 \<le> days_in_month ?y' ?m'"
    by (rule days_in_month_bounds)+
  show "date_ordinal d + 28 \<le> date_ordinal (add_one_calendar_month d)"
    unfolding next_ord ord using b dd by (simp add: min_def)
  show "date_ordinal (add_one_calendar_month d) \<le> date_ordinal d + 31"
    unfolding next_ord ord using b dd by (simp add: min_def)
qed

lemma dt_us_add_month [simp]: "dt_us (add_one_calendar_month d) = dt_us d"
  by (simp add: add_one_calendar_month_def Let_def split: prod.split)

lemma add_month_to_us:
  assumes "valid_datetime d"
  shows "to_us d + days 28 \<le> to_us (add_one_calendar_month d)"
    and "to_us (add_one_calendar_month d) \<le> to_us d + days 31"
proof -
  have "(date_ordinal d + 28) * day_us \<le> date_ordinal (add_one_calendar_month d) * day_us"
    using add_month_ordinal(1) [OF assms] by (intro mult_right_mono) (auto simp: day_us_def)
  then show "to_us d + days 28 \<le> to_us (add_one_calendar_month d)"
    by (simp add: to_us_def days_def distrib_right)
  have "date_ordinal (add_one_calendar_month d) * day_us \<le> (date_ordinal d + 31) * day_us"
    using add_month_ordinal(2) [OF assms] by (intro mult_right_mono) (auto simp: day_us_def)
  then show "to_us (add_one_calendar_month d) \<le> to_us d + days 31"
    by (simp add: to_us_def days_def distrib_right)
qed

text \<open>On a month start both ways of advancing agree.\<close>

lemma next_month_eq_add_month:
  "dt_day d = 1 \<Longrightarrow> next_month d = add_one_calendar_month d"
  using days_in_month_bounds(1) [of "dt_year d + 1" 1]
    days_in_month_bounds(1) [of "dt_year d" "dt_month d + 1"]
  by (auto simp: next_month_def add_one_calendar_month_def Let_def min_def)

section \<open>Loops that advance by periods\<close>

text \<open>
  Two loops of the code walk a datetime forward until it passes a limit: the refill of due
  subscriptions and the list of invoice months. What they need from the step: it stays valid
  and moves the instant forward by at least a fixed amount.
\<close>

locale period_advance =
  fixes step :: "datetime \<Rightarrow> datetime" and ok :: "datetime \<Rightarrow> bool"
  assumes ok_valid: "ok d \<Longrightarrow> valid_datetime d"
    and ok_step: "ok d \<Longrightarrow> ok (step d)"
    and step_forward: "ok d \<Longrightarrow> to_us d + days 1 \<le> to_us (step d)"
begin

lemma step_greater: "ok d \<Longrightarrow> d < step d"
  using step_forward [of d] ok_valid ok_step to_us_less_iff [of d "step d"]
  by (simp add: days_def day_us_def)

lemma iterate_ok: "ok d \<Longrightarrow> ok ((step ^^ n) d)"
  by (induction n) (auto intro: ok_step)

lemma iterate_to_us: "ok d \<Longrightarrow> to_us d + days (int n) \<le> to_us ((step ^^ n) d)"
proof (induction n)
  case (Suc n)
  with step_forward [OF iterate_ok [OF Suc.prems, of n]] show ?case
    by (simp add: days_def distrib_right)
qed (simp add: days_def)

lemma passes_limit: "ok d \<Longrightarrow> valid_datetime bound \<Longrightarrow> bound < (step ^^ nat (to_us bound - to_us d + 1)) d"
proof -
  assume d: "ok d" and bound: "valid_datetime bound"
  let ?n = "nat (to_us bound - to_us d + 1)"
  have "to_us bound < to_us d + days (int ?n)"
    by (simp add: days_def day_us_def)
  also have "\<dots> \<le> to_us ((step ^^ ?n) d)" by (rule iterate_to_us [OF d])
  finally show ?thesis using to_us_less_iff [OF bound] ok_valid [OF iterate_ok [OF d]] by simp
qed

text \<open>
  Induction for such a loop: to show that a loop over \<open>d\<close> with limit \<open>bound\<close> does something, show
  it where the guard fails and, assuming it after one step, where the guard holds.
\<close>

lemma loop_induct [consumes 2, case_names stop step]:
  assumes d: "ok d" and bound: "valid_datetime bound"
    and stop: "\<And>d s. ok d \<Longrightarrow> \<not> d \<le> bound \<Longrightarrow> P d s"
    and step: "\<And>d s. ok d \<Longrightarrow> d \<le> bound \<Longrightarrow> (\<And>s'. P (step d) s') \<Longrightarrow> P d s"
  shows "P d s"
  using d
proof (induction "nat (to_us bound + 1 - to_us d)" arbitrary: d s rule: less_induct)
  case less
  show ?case
  proof (cases "d \<le> bound")
    case True
    have "to_us d < to_us (step d)"
      using step_forward [OF less.prems] by (simp add: days_def day_us_def)
    moreover have "to_us d \<le> to_us bound"
      using True to_us_le_iff [OF ok_valid [OF less.prems] bound] by simp
    ultimately have smaller: "nat (to_us bound + 1 - to_us (step d)) < nat (to_us bound + 1 - to_us d)"
      by linarith
    show ?thesis
      by (rule step [OF less.prems True]) (rule less.hyps [OF smaller ok_step [OF less.prems]])
  qed (use less.prems stop in auto)
qed

end

interpretation add_month: period_advance add_one_calendar_month valid_datetime
proof
  fix d assume v: "valid_datetime d"
  show "valid_datetime d" by (rule v)
  show "valid_datetime (add_one_calendar_month d)" using v by (rule add_month_valid)
  show "to_us d + days 1 \<le> to_us (add_one_calendar_month d)"
    using add_month_to_us(1) [OF v] by (simp add: days_def day_us_def)
qed

definition is_month_start :: "datetime \<Rightarrow> bool" where
  "is_month_start d \<longleftrightarrow> valid_datetime d \<and> dt_day d = 1 \<and> dt_us d = 0"

interpretation month_cursor: period_advance next_month is_month_start
proof
  fix d assume m: "is_month_start d"
  then have v: "valid_datetime d" and one: "dt_day d = 1" by (auto simp: is_month_start_def)
  have step_eq: "next_month d = add_one_calendar_month d" using one by (rule next_month_eq_add_month)
  show "valid_datetime d" by (rule v)
  show "is_month_start (next_month d)"
  proof -
    have "valid_datetime (next_month d)" unfolding step_eq using v by (rule add_month_valid)
    then show ?thesis using m by (simp add: is_month_start_def next_month_def)
  qed
  show "to_us d + days 1 \<le> to_us (next_month d)"
    using add_month.step_forward [OF v] by (simp add: step_eq)
qed

end
