(* ===== verification/SagaStateMachine.thy ===== *)
theory SagaStateMachine
  imports Prelude
begin

text \<open>
  The billing Saga state machine, packages/shared-py/opticloud_shared/saga/state_machine.py:
  the seven states, the compensation names, the transition matrix, the index built from it,
  and the lookups. The lemmas say that the index is the matrix, that the terminal states are
  exactly those without a way out, that a trigger is never ambiguous, and that every run of the
  machine ends.
\<close>

datatype state = PENDING | RESERVED | CHARGED | COMPLETED | FAILED | REFUNDED | ROLLED_BACK

fun state_value :: "state \<Rightarrow> string" where
  "state_value PENDING = ''pending''"
| "state_value RESERVED = ''reserved''"
| "state_value CHARGED = ''charged''"
| "state_value COMPLETED = ''completed''"
| "state_value FAILED = ''failed''"
| "state_value REFUNDED = ''refunded''"
| "state_value ROLLED_BACK = ''rolled_back''"

definition all_states :: "state list" where
  "all_states = [PENDING, RESERVED, CHARGED, COMPLETED, FAILED, REFUNDED, ROLLED_BACK]"

text \<open>\<^verbatim>\<open>State(value)\<close>: \<open>None\<close> is the ValueError of an unknown value.\<close>

definition state_of :: "string \<Rightarrow> state option" where
  "state_of v = find (\<lambda>s. state_value s = v) all_states"

definition TERMINAL_STATES :: "state set" where
  "TERMINAL_STATES = {COMPLETED, FAILED, REFUNDED, ROLLED_BACK}"

datatype compensation = NONE | MARK_FAILED | REFUND_AUTO | RETRY_OUTBOX | ESCALATE_OPS

fun compensation_value :: "compensation \<Rightarrow> string" where
  "compensation_value NONE = ''none''"
| "compensation_value MARK_FAILED = ''mark_failed''"
| "compensation_value REFUND_AUTO = ''refund_auto''"
| "compensation_value RETRY_OUTBOX = ''retry_outbox''"
| "compensation_value ESCALATE_OPS = ''escalate_ops''"

record transition =
  from_state :: state
  to_state :: state
  trigger :: string
  timeout_ms :: int
  max_retries :: int
  compensation :: compensation
  median_latency_ms :: int

definition mk_transition ::
  "state \<Rightarrow> state \<Rightarrow> string \<Rightarrow> int \<Rightarrow> int \<Rightarrow> compensation \<Rightarrow> int \<Rightarrow> transition" where
  "mk_transition f t g tmo retries c latency =
     \<lparr>from_state = f, to_state = t, trigger = g, timeout_ms = tmo, max_retries = retries,
      compensation = c, median_latency_ms = latency\<rparr>"

definition TRANSITIONS :: "transition list" where
  "TRANSITIONS =
    [mk_transition PENDING RESERVED ''reserve'' 500 5 MARK_FAILED 5,
     mk_transition PENDING FAILED ''balance_insufficient'' 0 0 NONE 2,
     mk_transition RESERVED CHARGED ''service_success'' 2000 3 REFUND_AUTO 10,
     mk_transition RESERVED REFUNDED ''user_cancel'' 500 3 NONE 5,
     mk_transition RESERVED FAILED ''pre_charge_guard_reject'' 0 0 NONE 3,
     mk_transition CHARGED COMPLETED ''outbox_delivered'' 500 1000000 RETRY_OUTBOX 3,
     mk_transition CHARGED ROLLED_BACK ''downstream_reject_late'' 1000 1 ESCALATE_OPS 10]"

text \<open>
  \<^verbatim>\<open>_build_index\<close>: start from an empty list per state, append each transition to the list of its
  source state.
\<close>

definition build_index :: "(state \<times> transition list) list" where
  "build_index =
     foldl (\<lambda>ix t. AList.update (from_state t) (the (map_of ix (from_state t)) @ [t]) ix)
       (map (\<lambda>s. (s, [])) all_states) TRANSITIONS"

definition is_terminal :: "state \<Rightarrow> bool" where
  "is_terminal s \<longleftrightarrow> s \<in> TERMINAL_STATES"

definition valid_transitions_from :: "state \<Rightarrow> transition list" where
  "valid_transitions_from s = (case map_of build_index s of None \<Rightarrow> [] | Some ts \<Rightarrow> ts)"

definition next_states :: "state \<Rightarrow> state list" where
  "next_states s = map to_state (valid_transitions_from s)"

section \<open>The index is the matrix\<close>

lemma transition_fields [simp]:
  "from_state (mk_transition f t g a b c d) = f" "to_state (mk_transition f t g a b c d) = t"
  "trigger (mk_transition f t g a b c d) = g" "compensation (mk_transition f t g a b c d) = c"
  by (simp_all add: mk_transition_def)

lemma state_of_value [simp]: "state_of (state_value s) = Some s"
  by (cases s) (simp_all add: state_of_def all_states_def)

lemma state_value_inject [simp]: "state_value s = state_value t \<longleftrightarrow> s = t"
  by (metis option.inject state_of_value)

lemma state_of_SomeD: "state_of v = Some s \<Longrightarrow> v = state_value s"
  by (auto simp: state_of_def find_Some_iff)

text \<open>Comparing the state column with the literals the handlers use.\<close>

lemma state_value_literal [simp]:
  "state_value s = ''pending'' \<longleftrightarrow> s = PENDING"
  "state_value s = ''reserved'' \<longleftrightarrow> s = RESERVED"
  "state_value s = ''charged'' \<longleftrightarrow> s = CHARGED"
  "state_value s = ''completed'' \<longleftrightarrow> s = COMPLETED"
  "state_value s = ''failed'' \<longleftrightarrow> s = FAILED"
  "state_value s = ''refunded'' \<longleftrightarrow> s = REFUNDED"
  "state_value s = ''rolled_back'' \<longleftrightarrow> s = ROLLED_BACK"
  by (cases s; simp)+

lemma state_of_literal [simp]:
  "state_of ''pending'' = Some PENDING" "state_of ''reserved'' = Some RESERVED"
  "state_of ''charged'' = Some CHARGED" "state_of ''completed'' = Some COMPLETED"
  "state_of ''failed'' = Some FAILED" "state_of ''refunded'' = Some REFUNDED"
  "state_of ''rolled_back'' = Some ROLLED_BACK"
  by (simp_all add: state_of_def all_states_def)

lemma valid_transitions_simps:
  "valid_transitions_from PENDING =
     [mk_transition PENDING RESERVED ''reserve'' 500 5 MARK_FAILED 5,
      mk_transition PENDING FAILED ''balance_insufficient'' 0 0 NONE 2]"
  "valid_transitions_from RESERVED =
     [mk_transition RESERVED CHARGED ''service_success'' 2000 3 REFUND_AUTO 10,
      mk_transition RESERVED REFUNDED ''user_cancel'' 500 3 NONE 5,
      mk_transition RESERVED FAILED ''pre_charge_guard_reject'' 0 0 NONE 3]"
  "valid_transitions_from CHARGED =
     [mk_transition CHARGED COMPLETED ''outbox_delivered'' 500 1000000 RETRY_OUTBOX 3,
      mk_transition CHARGED ROLLED_BACK ''downstream_reject_late'' 1000 1 ESCALATE_OPS 10]"
  "valid_transitions_from COMPLETED = []" "valid_transitions_from FAILED = []"
  "valid_transitions_from REFUNDED = []" "valid_transitions_from ROLLED_BACK = []"
  by (simp_all add: valid_transitions_from_def build_index_def TRANSITIONS_def all_states_def)

lemma transitions_from_filter:
  "valid_transitions_from s = filter (\<lambda>t. from_state t = s) TRANSITIONS"
  by (cases s) (simp_all add: valid_transitions_simps TRANSITIONS_def)

lemma set_transitions_from: "t \<in> set (valid_transitions_from s) \<longleftrightarrow> t \<in> set TRANSITIONS \<and> from_state t = s"
  by (simp add: transitions_from_filter)

section \<open>The machine as a step relation\<close>

inductive saga_step :: "state \<Rightarrow> string \<Rightarrow> state \<Rightarrow> bool" where
  fire: "t \<in> set (valid_transitions_from s) \<Longrightarrow> saga_step s (trigger t) (to_state t)"

inductive_cases saga_stepE: "saga_step s g s'"

text \<open>All steps, by name.\<close>

lemma saga_step_iff:
  "saga_step s g s' \<longleftrightarrow>
     (s, g, s') \<in> {(PENDING, ''reserve'', RESERVED), (PENDING, ''balance_insufficient'', FAILED),
       (RESERVED, ''service_success'', CHARGED), (RESERVED, ''user_cancel'', REFUNDED),
       (RESERVED, ''pre_charge_guard_reject'', FAILED), (CHARGED, ''outbox_delivered'', COMPLETED),
       (CHARGED, ''downstream_reject_late'', ROLLED_BACK)}"
proof
  assume "saga_step s g s'"
  then obtain t where "t \<in> set (valid_transitions_from s)" "g = trigger t" "s' = to_state t"
    by (rule saga_stepE)
  then show "(s, g, s') \<in> {(PENDING, ''reserve'', RESERVED), (PENDING, ''balance_insufficient'', FAILED),
       (RESERVED, ''service_success'', CHARGED), (RESERVED, ''user_cancel'', REFUNDED),
       (RESERVED, ''pre_charge_guard_reject'', FAILED), (CHARGED, ''outbox_delivered'', COMPLETED),
       (CHARGED, ''downstream_reject_late'', ROLLED_BACK)}"
    by (cases s) (auto simp: valid_transitions_simps)
next
  have fired: "t \<in> set TRANSITIONS \<Longrightarrow> saga_step (from_state t) (trigger t) (to_state t)" for t
    by (rule saga_step.fire) (simp add: set_transitions_from)
  have all_fired: "\<forall>t \<in> set TRANSITIONS. saga_step (from_state t) (trigger t) (to_state t)"
    using fired by blast
  assume "(s, g, s') \<in> {(PENDING, ''reserve'', RESERVED), (PENDING, ''balance_insufficient'', FAILED),
       (RESERVED, ''service_success'', CHARGED), (RESERVED, ''user_cancel'', REFUNDED),
       (RESERVED, ''pre_charge_guard_reject'', FAILED), (CHARGED, ''outbox_delivered'', COMPLETED),
       (CHARGED, ''downstream_reject_late'', ROLLED_BACK)}"
  then show "saga_step s g s'" using all_fired by (auto simp: TRANSITIONS_def)
qed

lemma next_states_simps [simp]:
  "next_states PENDING = [RESERVED, FAILED]" "next_states RESERVED = [CHARGED, REFUNDED, FAILED]"
  "next_states CHARGED = [COMPLETED, ROLLED_BACK]" "next_states COMPLETED = []"
  "next_states FAILED = []" "next_states REFUNDED = []" "next_states ROLLED_BACK = []"
  by (simp_all add: next_states_def valid_transitions_simps)

lemma saga_step_next: "saga_step s g s' \<Longrightarrow> s' \<in> set (next_states s)"
  by (auto elim!: saga_stepE simp: next_states_def)

lemma terminal_no_step: "is_terminal s \<longleftrightarrow> (\<forall>g s'. \<not> saga_step s g s')"
  by (cases s) (auto simp: is_terminal_def TERMINAL_STATES_def saga_step_iff)

text \<open>
  The declared terminal states are exactly the states with no outgoing transition: a
  terminal saga never moves again, and no other state is stuck.
\<close>

theorem terminal_iff_stuck: "is_terminal s \<longleftrightarrow> (\<forall>g s'. \<not> saga_step s g s')"
  by (rule terminal_no_step)

text \<open>A trigger fired in a state leads to one state only.\<close>

theorem saga_step_deterministic:
  assumes "saga_step s g s'" and "saga_step s g s''"
  shows "s' = s''"
  using assms by (auto simp: saga_step_iff)

theorem saga_step_deterministic_witness:
  "saga_step RESERVED ''user_cancel'' REFUNDED \<and> REFUNDED = REFUNDED"
proof -
  have step: "saga_step RESERVED ''user_cancel'' REFUNDED" by (simp add: saga_step_iff)
  show ?thesis using step saga_step_deterministic [OF step step] by simp
qed

text \<open>Distance to the end of a run.\<close>

fun steps_left :: "state \<Rightarrow> nat" where
  "steps_left PENDING = 3"
| "steps_left RESERVED = 2"
| "steps_left CHARGED = 1"
| "steps_left s = 0"

lemma saga_step_decreases: "saga_step s g s' \<Longrightarrow> steps_left s' < steps_left s"
  by (auto simp: saga_step_iff)

text \<open>A run: the triggers fired and the state they lead to.\<close>

inductive saga_run :: "state \<Rightarrow> string list \<Rightarrow> state \<Rightarrow> bool" where
  run_nil: "saga_run s [] s"
| run_step: "saga_step s g s' \<Longrightarrow> saga_run s' gs s'' \<Longrightarrow> saga_run s (g # gs) s''"

lemma saga_run_bound: "saga_run s gs s' \<Longrightarrow> length gs + steps_left s' \<le> steps_left s"
  by (induction rule: saga_run.induct) (auto dest: saga_step_decreases)

lemma saga_progress: "is_terminal s \<or> (\<exists>g s'. saga_step s g s')"
  using terminal_no_step by blast

end
