(* ===== verification/Models.thy ===== *)
theory Models
  imports Plans Calendar SagaStateMachine "HOL-Library.List_Lexorder" "HOL-Library.Char_ord"
begin

text \<open>
  The tables of the billing database (apps/billing-service/src/billing_service/models.py and
  infra/local-init/*.sql), the session a request works in, the settings (config.py) and the
  aggregate queries over the ledger that routes.py shares. A table is the list of its rows in
  insertion order. Identifiers (UUID primary keys) are natural numbers drawn from a counter of
  the database, so a fresh identifier never repeats.
\<close>

section \<open>JSON values\<close>

text \<open>
  A JSON value of a JSONB column or a request. The text of a UUID and the ISO text of a datetime
  are kept as what they denote (\<open>JId\<close>, \<open>JTime\<close>); to the code they are strings.
\<close>

datatype json =
    JNull
  | JBool bool
  | JNum rat
  | JStr string
  | JId nat
  | JTime datetime
  | JList "json list"
  | JObj "(string \<times> json) list"

text \<open>\<^verbatim>\<open>isinstance(value, str)\<close>.\<close>

fun is_str :: "json \<Rightarrow> bool" where
  "is_str (JStr _) = True"
| "is_str (JId _) = True"
| "is_str (JTime _) = True"
| "is_str _ = False"

text \<open>\<^verbatim>\<open>json.dumps(.., sort_keys=True)\<close>: objects with their keys in order.\<close>

fun sort_keys :: "json \<Rightarrow> json" where
  "sort_keys (JList xs) = JList (map sort_keys xs)"
| "sort_keys (JObj kvs) = JObj (sort_key fst (map (\<lambda>(k, v). (k, sort_keys v)) kvs))"
| "sort_keys j = j"

type_synonym jdict = "json dict"

section \<open>Settings\<close>

text \<open>
  config.py. \<open>sha256\<close> is the hexadecimal SHA-256 of the canonical JSON text; nothing depends on
  more than that equal bodies have equal hashes.
\<close>

record settings =
  saga_idempotency_ttl_hours :: int
  j1_demo_seed_amount :: rat
  lp_rate_per_second :: rat
  charge_min_amount :: rat
  charge_max_solve_seconds_default :: rat
  p5_call_threshold :: rat
  balance_low_ratio :: rat
  sha256 :: "json \<Rightarrow> string"

definition default_settings :: "(json \<Rightarrow> string) \<Rightarrow> settings" where
  "default_settings h =
     \<lparr>saga_idempotency_ttl_hours = 24, j1_demo_seed_amount = 50, lp_rate_per_second = 1/10,
      charge_min_amount = 1/100, charge_max_solve_seconds_default = 60,
      p5_call_threshold = 3, balance_low_ratio = 1, sha256 = h\<rparr>"

definition hash_body :: "settings \<Rightarrow> json \<Rightarrow> string" where
  "hash_body cfg body = sha256 cfg (sort_keys body)"

section \<open>Rows\<close>

record saga_instance =
  sg_id :: nat
  sg_type :: string
  sg_state :: string
  sg_user :: nat
  sg_idem :: "string option"
  sg_amount :: "rat option"
  sg_retries :: nat
  sg_payload :: jdict
  sg_created :: datetime
  sg_updated :: datetime

record credit_transaction =
  ct_id :: nat
  ct_user :: nat
  ct_saga :: "nat option"
  ct_amount :: rat
  ct_kind :: string
  ct_bucket :: string
  ct_currency :: string
  ct_meta :: jdict
  ct_created :: datetime

record idempotency_row =
  ik_key :: string
  ik_user :: nat
  ik_hash :: string
  ik_response :: "json option"
  ik_saga :: "nat option"
  ik_expires :: datetime
  ik_created :: datetime

record outbox_event =
  ob_id :: nat
  ob_aggregate_type :: string
  ob_aggregate_id :: nat
  ob_event_type :: string
  ob_version :: nat
  ob_payload :: jdict
  ob_headers :: jdict
  ob_occurred :: datetime

record cost_attribution =
  ca_id :: nat
  ca_tenant :: nat
  ca_service :: string
  ca_unit :: string
  ca_value :: rat
  ca_source :: "nat option"
  ca_meta :: jdict

record billing_subscription =
  sub_id :: nat
  sub_user :: nat
  sub_plan :: plan_code
  sub_status :: string
  sub_start :: datetime
  sub_end :: datetime
  sub_refilled :: "datetime option"
  sub_meta :: jdict
  sub_created :: datetime
  sub_updated :: datetime

record budget_control =
  bc_id :: nat
  bc_user :: nat
  bc_amount :: rat
  bc_alert_ratio :: rat
  bc_enabled :: bool
  bc_status :: string
  bc_paused_at :: "datetime option"
  bc_pause_start :: "datetime option"
  bc_created :: datetime
  bc_updated :: datetime

record budget_event =
  be_id :: nat
  be_user :: nat
  be_control :: nat
  be_start :: datetime
  be_end :: datetime
  be_type :: string
  be_payload :: jdict
  be_occurred :: datetime

text \<open>Rows of auth-owned tables billing reads with raw SQL.\<close>

record user_row =
  us_id :: nat
  us_edu_tier :: bool

record notification_preference =
  np_user :: nat
  np_event :: string
  np_email :: bool
  np_webhook :: bool
  np_in_app :: bool
  np_webhook_url :: "string option"

record billing_db =
  db_sagas :: "saga_instance list"
  db_ledger :: "credit_transaction list"
  db_idem :: "idempotency_row list"
  db_outbox :: "outbox_event list"
  db_costs :: "cost_attribution list"
  db_subs :: "billing_subscription list"
  db_budgets :: "budget_control list"
  db_budget_events :: "budget_event list"
  db_users :: "user_row list"
  db_prefs :: "notification_preference list"
  db_next_id :: nat

definition empty_db :: billing_db where
  "empty_db = \<lparr>db_sagas = [], db_ledger = [], db_idem = [], db_outbox = [], db_costs = [],
     db_subs = [], db_budgets = [], db_budget_events = [], db_users = [], db_prefs = [],
     db_next_id = 0\<rparr>"

section \<open>Writes\<close>

text \<open>\<^verbatim>\<open>session.add(CreditTransaction(..))\<close>: the amount column is \<^verbatim>\<open>NUMERIC(12, 4)\<close>.\<close>

definition add_credit ::
  "nat \<Rightarrow> nat option \<Rightarrow> rat \<Rightarrow> string \<Rightarrow> string \<Rightarrow> jdict \<Rightarrow> datetime \<Rightarrow> billing_db \<Rightarrow> billing_db" where
  "add_credit user saga amount kind bucket meta now db =
     db\<lparr>db_ledger := db_ledger db @
          [\<lparr>ct_id = db_next_id db, ct_user = user, ct_saga = saga, ct_amount = pg_numeric 4 amount,
            ct_kind = kind, ct_bucket = bucket, ct_currency = ''CNY'', ct_meta = meta,
            ct_created = now\<rparr>],
        db_next_id := Suc (db_next_id db)\<rparr>"

definition add_outbox ::
  "string \<Rightarrow> nat \<Rightarrow> string \<Rightarrow> jdict \<Rightarrow> jdict \<Rightarrow> datetime \<Rightarrow> billing_db \<Rightarrow> billing_db" where
  "add_outbox aggregate_type aggregate_id event_type payload headers now db =
     db\<lparr>db_outbox := db_outbox db @
          [\<lparr>ob_id = db_next_id db, ob_aggregate_type = aggregate_type,
            ob_aggregate_id = aggregate_id, ob_event_type = event_type, ob_version = 1,
            ob_payload = payload, ob_headers = headers, ob_occurred = now\<rparr>],
        db_next_id := Suc (db_next_id db)\<rparr>"

definition saga_get :: "nat \<Rightarrow> billing_db \<Rightarrow> saga_instance option" where
  "saga_get i db = row_get sg_id i (db_sagas db)"

definition saga_put :: "saga_instance \<Rightarrow> billing_db \<Rightarrow> billing_db" where
  "saga_put s db = db\<lparr>db_sagas := row_put sg_id s (db_sagas db)\<rparr>"

definition saga_add :: "saga_instance \<Rightarrow> billing_db \<Rightarrow> billing_db" where
  "saga_add s db = db\<lparr>db_sagas := db_sagas db @ [s]\<rparr>"

definition idem_get :: "string \<Rightarrow> billing_db \<Rightarrow> idempotency_row option" where
  "idem_get k db = row_get ik_key k (db_idem db)"

definition idem_put :: "idempotency_row \<Rightarrow> billing_db \<Rightarrow> billing_db" where
  "idem_put r db = db\<lparr>db_idem := row_put ik_key r (db_idem db)\<rparr>"

definition idem_add :: "idempotency_row \<Rightarrow> billing_db \<Rightarrow> billing_db" where
  "idem_add r db = db\<lparr>db_idem := db_idem db @ [r]\<rparr>"

text \<open>
  A request's session: the committed database and the working copy the statements of the open
  transaction see. \<^verbatim>\<open>rollback\<close> discards the working copy; a session that closes without a
  commit discards it too.
\<close>

record session =
  committed :: billing_db
  working :: billing_db

definition open_session :: "billing_db \<Rightarrow> session" where
  "open_session db = \<lparr>committed = db, working = db\<rparr>"

definition commit :: "session \<Rightarrow> session" where
  "commit s = s\<lparr>committed := working s\<rparr>"

definition rollback :: "session \<Rightarrow> session" where
  "rollback s = s\<lparr>working := committed s\<rparr>"

definition on_working :: "(billing_db \<Rightarrow> billing_db) \<Rightarrow> session \<Rightarrow> session" where
  "on_working f s = s\<lparr>working := f (working s)\<rparr>"

lemmas session_defs = open_session_def commit_def rollback_def on_working_def

section \<open>Ledger queries\<close>

definition ledger_sum :: "(credit_transaction \<Rightarrow> bool) \<Rightarrow> billing_db \<Rightarrow> rat" where
  "ledger_sum P db = sum_where P ct_amount (db_ledger db)"

text \<open>\<^verbatim>\<open>_balance_for\<close>, \<^verbatim>\<open>_balance_buckets_for\<close>, \<^verbatim>\<open>_has_any_transactions\<close>, \<^verbatim>\<open>_ledger_rows_for_saga\<close>.\<close>

definition balance_for :: "nat \<Rightarrow> billing_db \<Rightarrow> rat" where
  "balance_for user db = quantize_half_even 4 (ledger_sum (\<lambda>r. ct_user r = user) db)"

definition ALL_BUCKETS :: "string list" where
  "ALL_BUCKETS = [''monthly'', ''signup'', ''edu'', ''topup'']"

definition balance_buckets_for :: "nat \<Rightarrow> billing_db \<Rightarrow> rat dict" where
  "balance_buckets_for user db =
     map (\<lambda>name. (name, ledger_sum (\<lambda>r. ct_user r = user \<and> ct_bucket r = name) db)) ALL_BUCKETS"

definition has_any_transactions :: "nat \<Rightarrow> billing_db \<Rightarrow> bool" where
  "has_any_transactions user db \<longleftrightarrow> filter (\<lambda>r. ct_user r = user) (db_ledger db) \<noteq> []"

definition ledger_rows_for_saga :: "nat \<Rightarrow> billing_db \<Rightarrow> credit_transaction list" where
  "ledger_rows_for_saga i db = filter (\<lambda>r. ct_saga r = Some i) (db_ledger db)"

definition saga_sum :: "nat \<Rightarrow> billing_db \<Rightarrow> rat" where
  "saga_sum i db = ledger_sum (\<lambda>r. ct_saga r = Some i) db"

section \<open>Lemmas on tables and ledger\<close>

interpretation saga_rows: keyed_store saga_get saga_put saga_add sg_id
  by unfold_locales
    (auto simp: saga_get_def saga_put_def saga_add_def row_list.get_put_same row_list.get_add
      dest: row_get_SomeD)

interpretation idem_rows: keyed_store idem_get idem_put idem_add ik_key
  by unfold_locales
    (auto simp: idem_get_def idem_put_def idem_add_def row_list.get_put_same row_list.get_add
      dest: row_get_SomeD)

named_theorems db_frame \<open>which tables an operation leaves alone\<close>

lemma add_credit_frame [simp, db_frame]:
  "db_sagas (add_credit u s a k b m now db) = db_sagas db"
  "db_idem (add_credit u s a k b m now db) = db_idem db"
  "db_outbox (add_credit u s a k b m now db) = db_outbox db"
  "db_costs (add_credit u s a k b m now db) = db_costs db"
  "db_subs (add_credit u s a k b m now db) = db_subs db"
  "db_budgets (add_credit u s a k b m now db) = db_budgets db"
  "db_budget_events (add_credit u s a k b m now db) = db_budget_events db"
  "db_users (add_credit u s a k b m now db) = db_users db"
  "db_next_id (add_credit u s a k b m now db) = Suc (db_next_id db)"
  by (simp_all add: add_credit_def)

lemma add_outbox_frame [simp, db_frame]:
  "db_sagas (add_outbox aty ai et p h now db) = db_sagas db"
  "db_ledger (add_outbox aty ai et p h now db) = db_ledger db"
  "db_idem (add_outbox aty ai et p h now db) = db_idem db"
  "db_costs (add_outbox aty ai et p h now db) = db_costs db"
  "db_subs (add_outbox aty ai et p h now db) = db_subs db"
  "db_budgets (add_outbox aty ai et p h now db) = db_budgets db"
  "db_budget_events (add_outbox aty ai et p h now db) = db_budget_events db"
  "db_users (add_outbox aty ai et p h now db) = db_users db"
  "db_next_id (add_outbox aty ai et p h now db) = Suc (db_next_id db)"
  by (simp_all add: add_outbox_def)

lemma saga_put_frame [simp, db_frame]:
  "db_ledger (saga_put s db) = db_ledger db" "db_idem (saga_put s db) = db_idem db"
  "db_outbox (saga_put s db) = db_outbox db" "db_costs (saga_put s db) = db_costs db"
  "db_subs (saga_put s db) = db_subs db" "db_budgets (saga_put s db) = db_budgets db"
  "db_budget_events (saga_put s db) = db_budget_events db" "db_users (saga_put s db) = db_users db"
  "db_next_id (saga_put s db) = db_next_id db"
  by (simp_all add: saga_put_def)

lemma saga_add_frame [simp, db_frame]:
  "db_ledger (saga_add s db) = db_ledger db" "db_idem (saga_add s db) = db_idem db"
  "db_outbox (saga_add s db) = db_outbox db" "db_next_id (saga_add s db) = db_next_id db"
  by (simp_all add: saga_add_def)

lemma idem_frame [simp, db_frame]:
  "db_ledger (idem_put r db) = db_ledger db" "db_ledger (idem_add r db) = db_ledger db"
  "db_sagas (idem_put r db) = db_sagas db" "db_sagas (idem_add r db) = db_sagas db"
  "db_outbox (idem_put r db) = db_outbox db" "db_outbox (idem_add r db) = db_outbox db"
  "db_next_id (idem_put r db) = db_next_id db" "db_next_id (idem_add r db) = db_next_id db"
  by (simp_all add: idem_put_def idem_add_def)

lemma saga_get_cong: "db_sagas db = db_sagas db' \<Longrightarrow> saga_get i db = saga_get i db'"
  by (simp add: saga_get_def)

lemma saga_get_frame [simp]:
  "saga_get i (add_credit u s a k b m now db) = saga_get i db"
  "saga_get i (add_outbox aty ai et p h now db) = saga_get i db"
  "saga_get i (idem_put r db) = saga_get i db" "saga_get i (idem_add r db) = saga_get i db"
  by (simp_all add: saga_get_def)

lemma ledger_sum_cong: "db_ledger db = db_ledger db' \<Longrightarrow> ledger_sum P db = ledger_sum P db'"
  by (simp add: ledger_sum_def)

lemma ledger_sum_frame [simp]:
  "ledger_sum P (add_outbox aty ai et p h now db) = ledger_sum P db"
  "ledger_sum P (saga_put s db) = ledger_sum P db" "ledger_sum P (saga_add s db) = ledger_sum P db"
  "ledger_sum P (idem_put r db) = ledger_sum P db" "ledger_sum P (idem_add r db) = ledger_sum P db"
  by (simp_all add: ledger_sum_def)

lemma ledger_sum_add_credit:
  "ledger_sum P (add_credit u s a k b m now db) =
     ledger_sum P db +
     (if P \<lparr>ct_id = db_next_id db, ct_user = u, ct_saga = s, ct_amount = pg_numeric 4 a, ct_kind = k,
            ct_bucket = b, ct_currency = ''CNY'', ct_meta = m, ct_created = now\<rparr>
      then pg_numeric 4 a else 0)"
  by (simp add: ledger_sum_def add_credit_def)

lemma saga_sum_add_credit [simp]:
  "saga_sum i (add_credit u s a k b m now db) =
     saga_sum i db + (if s = Some i then pg_numeric 4 a else 0)"
  by (simp add: saga_sum_def ledger_sum_add_credit)

lemma saga_sum_frame [simp]:
  "saga_sum i (add_outbox aty ai et p h now db) = saga_sum i db"
  "saga_sum i (saga_put s db) = saga_sum i db" "saga_sum i (saga_add s db) = saga_sum i db"
  "saga_sum i (idem_put r db) = saga_sum i db" "saga_sum i (idem_add r db) = saga_sum i db"
  by (simp_all add: saga_sum_def)

text \<open>Every stored amount has at most four fractional digits, so a balance is not rounded.\<close>

definition ledger_scaled :: "billing_db \<Rightarrow> bool" where
  "ledger_scaled db \<longleftrightarrow> list_all (\<lambda>r. has_scale 4 (ct_amount r)) (db_ledger db)"

lemma ledger_scaled_add_credit [simp]:
  "ledger_scaled (add_credit u s a k b m now db) \<longleftrightarrow> ledger_scaled db"
  by (simp add: ledger_scaled_def add_credit_def)

lemma ledger_scaled_cong: "db_ledger db = db_ledger db' \<Longrightarrow> ledger_scaled db = ledger_scaled db'"
  by (simp add: ledger_scaled_def)

lemma ledger_sum_scaled: "ledger_scaled db \<Longrightarrow> has_scale 4 (ledger_sum P db)"
  unfolding ledger_sum_def sum_where_def ledger_scaled_def
  by (rule has_scale_sum_list) (auto simp: list_all_iff)

lemma balance_for_eq: "ledger_scaled db \<Longrightarrow> balance_for u db = ledger_sum (\<lambda>r. ct_user r = u) db"
  unfolding balance_for_def quantize_half_even_def
  by (rule half_even.quantize_exact) (rule ledger_sum_scaled)

end
