(* ===== verification/PayloadSafety.thy ===== *)
theory PayloadSafety
  imports PyText Models
begin

text \<open>
  The pointer-only check on a Saga's \<^verbatim>\<open>payload_ref\<close>
  (packages/shared-py/opticloud_shared/saga/contract_fixtures.py,
  \<^verbatim>\<open>validate_payload_ref_safety\<close>), with its two regular expressions as scans, and what a payload
  that passes it cannot contain.
\<close>

definition FORBIDDEN_KEY_FRAGMENTS :: "string list" where
  "FORBIDDEN_KEY_FRAGMENTS =
    [''amount'', ''max_solve_seconds'', ''rate_per_second'', ''price'', ''credit'', ''balance'',
     ''phone'', ''email'', ''name'', ''address'', ''token'', ''secret'', ''api_key'', ''bearer'',
     ''prompt'', ''input'', ''payload'', ''bank'', ''id_card'']"

text \<open>The two Chinese alternatives of the value pattern, as UTF-8.\<close>

definition id_card_zh :: string where
  "id_card_zh = [CHR 0xE8, CHR 0xBA, CHR 0xAB, CHR 0xE4, CHR 0xBB, CHR 0xBD, CHR 0xE8, CHR 0xAF, CHR 0x81]"

definition bank_card_zh :: string where
  "bank_card_zh = [CHR 0xE9, CHR 0x93, CHR 0xB6, CHR 0xE8, CHR 0xA1, CHR 0x8C, CHR 0xE5, CHR 0x8D, CHR 0xA1]"

text \<open>
  The alternatives of \<^verbatim>\<open>_FORBIDDEN_VALUE_PATTERN\<close> at the start of a text that was lowered (the
  pattern ignores case); \<^verbatim>\<open>search\<close> tries every position.
\<close>

definition forbidden_here :: "string \<Rightarrow> bool" where
  "forbidden_here s \<longleftrightarrow>
     starts_with ''@'' s \<or>
     (starts_with ''sk-'' s \<and> (case drop 3 s of [] \<Rightarrow> False | c # _ \<Rightarrow> is_alnum c)) \<or>
     (starts_with ''bearer'' s \<and> (case drop 6 s of [] \<Rightarrow> False | c # _ \<Rightarrow> is_space c)) \<or>
     starts_with ''token'' s \<or> starts_with ''secret'' s \<or>
     starts_with ''api_key'' s \<or> starts_with ''api-key'' s \<or> starts_with ''apikey'' s \<or>
     (starts_with ''+'' s \<and> 10 \<le> length (drop 1 s) \<and> list_all is_digit (take 10 (drop 1 s))) \<or>
     starts_with id_card_zh s \<or> starts_with bank_card_zh s"

fun search_forbidden :: "string \<Rightarrow> bool" where
  "search_forbidden [] = False"
| "search_forbidden (c # s) \<longleftrightarrow> forbidden_here (c # s) \<or> search_forbidden s"

definition forbidden_value :: "string \<Rightarrow> bool" where
  "forbidden_value v \<longleftrightarrow> search_forbidden (lower v)"

text \<open>
  \<^verbatim>\<open>_BARE_PHONE_PATTERN\<close>: a maximal run of at least eleven digits. The counter is the length of
  the run that ends here.
\<close>

fun phone_scan :: "nat \<Rightarrow> string \<Rightarrow> bool" where
  "phone_scan n [] \<longleftrightarrow> 11 \<le> n"
| "phone_scan n (c # s) \<longleftrightarrow> (if is_digit c then phone_scan (Suc n) s else 11 \<le> n \<or> phone_scan 0 s)"

definition bare_phone :: "string \<Rightarrow> bool" where
  "bare_phone v \<longleftrightarrow> phone_scan 0 v"

text \<open>\<^verbatim>\<open>uuid.UUID(value)\<close> accepts the value.\<close>

definition is_uuid_like :: "string \<Rightarrow> bool" where
  "is_uuid_like v =
     (let hex = remove_all ''-'' (strip_chars ''{}'' (remove_all ''uuid:'' (remove_all ''urn:'' v)))
      in length hex = 32 \<and> py_int 16 hex \<noteq> None)"

datatype payload_error =
    ForbiddenFragment string
  | NotAString string
  | ForbiddenValue string

text \<open>
  One entry of the payload. The text of a UUID or of a datetime matches neither pattern (a UUID
  is exempt from the phone test, an ISO datetime has no run of eleven digits).
\<close>

definition entry_errors :: "string \<times> json \<Rightarrow> payload_error list" where
  "entry_errors kv =
     (case kv of (key, value) \<Rightarrow>
        map ForbiddenFragment (filter (\<lambda>f. contains f (lower key)) FORBIDDEN_KEY_FRAGMENTS) @
        (if \<not> is_str value then [NotAString key]
         else case value of
           JStr v \<Rightarrow> (if forbidden_value v \<or> (\<not> is_uuid_like v \<and> bare_phone v)
                     then [ForbiddenValue key] else [])
         | _ \<Rightarrow> []))"

definition payload_errors :: "jdict \<Rightarrow> payload_error list" where
  "payload_errors payload = concat (map entry_errors payload)"

text \<open>\<^verbatim>\<open>validate_payload_ref_safety\<close>: raises exactly when an error was collected.\<close>

definition validate_payload_ref_safety :: "jdict \<Rightarrow> payload_error list + unit" where
  "validate_payload_ref_safety payload =
     (if payload_errors payload \<noteq> [] then Inl (payload_errors payload) else Inr ())"

section \<open>What a safe payload cannot contain\<close>

lemma phone_scan_run:
  "phone_scan n s \<longleftrightarrow>
     (\<exists>d v. s = d @ v \<and> list_all is_digit d \<and> 11 \<le> n + length d) \<or>
     (\<exists>u d v. s = u @ d @ v \<and> list_all is_digit d \<and> 11 \<le> length d)"
proof (induction n s rule: phone_scan.induct)
  case (1 n)
  show ?case by auto
next
  case (2 n c s)
  show ?case
  proof (cases "is_digit c")
    case True
    have IH: "phone_scan (Suc n) s \<longleftrightarrow>
        (\<exists>d v. s = d @ v \<and> list_all is_digit d \<and> 11 \<le> Suc n + length d) \<or>
        (\<exists>u d v. s = u @ d @ v \<and> list_all is_digit d \<and> 11 \<le> length d)"
      using "2.IH"(1) True by simp
    show ?thesis (is "?l \<longleftrightarrow> ?here \<or> ?later")
    proof
      assume ?l
      then consider d v where "s = d @ v" "list_all is_digit d" "11 \<le> Suc n + length d"
        | u d v where "s = u @ d @ v" "list_all is_digit d" "11 \<le> length d"
        using True IH by auto
      then show "?here \<or> ?later"
      proof cases
        case 1
        then have "c # s = (c # d) @ v \<and> list_all is_digit (c # d) \<and> 11 \<le> n + length (c # d)"
          using True by simp
        then show ?thesis by blast
      next
        case 2
        then have "c # s = (c # u) @ d @ v \<and> list_all is_digit d \<and> 11 \<le> length d" by simp
        then show ?thesis by blast
      qed
    next
      assume "?here \<or> ?later"
      then show ?l
      proof
        assume ?here
        then obtain d v where d: "c # s = d @ v" "list_all is_digit d" "11 \<le> n + length d" by blast
        have "phone_scan (Suc n) s"
        proof (cases d)
          case Nil
          with d(3) show ?thesis unfolding IH by (intro disjI1 exI [of _ "[]"] exI [of _ s]) simp
        next
          case (Cons c' d')
          with d show ?thesis unfolding IH by (intro disjI1 exI [of _ d'] exI [of _ v]) simp
        qed
        with True show ?l by simp
      next
        assume ?later
        then obtain u d v where d: "c # s = u @ d @ v" "list_all is_digit d" "11 \<le> length d" by blast
        have "phone_scan (Suc n) s"
        proof (cases u)
          case Nil
          with d obtain d' where "d = c # d'" "s = d' @ v" by (cases d) auto
          with d show ?thesis unfolding IH by (intro disjI1 exI [of _ d'] exI [of _ v]) simp
        next
          case (Cons c' u')
          with d show ?thesis unfolding IH by (intro disjI2 exI [of _ u'] exI [of _ d] exI [of _ v]) simp
        qed
        with True show ?l by simp
      qed
    qed
  next
    case False
    have IH: "phone_scan 0 s \<longleftrightarrow> (\<exists>u d v. s = u @ d @ v \<and> list_all is_digit d \<and> 11 \<le> length d)"
      using "2.IH"(2) False by (metis add_0 append_Nil)
    show ?thesis (is "?l \<longleftrightarrow> ?here \<or> ?later")
    proof -
      have here: "?here \<longleftrightarrow> 11 \<le> n"
      proof
        assume ?here
        then obtain d v where d: "c # s = d @ v" "list_all is_digit d" "11 \<le> n + length d" by blast
        then have "d = []" using False by (cases d) auto
        with d show "11 \<le> n" by simp
      next
        assume "11 \<le> n"
        then show ?here by (intro exI [of _ "[]"] exI [of _ "c # s"]) simp
      qed
      have later: "?later \<longleftrightarrow> (\<exists>u d v. s = u @ d @ v \<and> list_all is_digit d \<and> 11 \<le> length d)"
      proof
        assume ?later
        then obtain u d v where d: "c # s = u @ d @ v" "list_all is_digit d" "11 \<le> length d" by blast
        have "u \<noteq> []"
        proof
          assume "u = []"
          with d have "is_digit c" by (cases d) auto
          with False show False by simp
        qed
        with d obtain u' where "s = u' @ d @ v" by (cases u) auto
        with d show "\<exists>u d v. s = u @ d @ v \<and> list_all is_digit d \<and> 11 \<le> length d" by blast
      next
        assume "\<exists>u d v. s = u @ d @ v \<and> list_all is_digit d \<and> 11 \<le> length d"
        then show ?later by (metis append_Cons)
      qed
      show ?thesis using False here later IH by simp
    qed
  qed
qed

lemma bare_phone_iff:
  "bare_phone v \<longleftrightarrow> (\<exists>u d w. v = u @ d @ w \<and> list_all is_digit d \<and> 11 \<le> length d)"
  unfolding bare_phone_def phone_scan_run by (auto, metis append_Nil)

lemma search_forbidden_iff: "search_forbidden s \<longleftrightarrow> (\<exists>u v. s = u @ v \<and> v \<noteq> [] \<and> forbidden_here v)"
proof (induction s)
  case (Cons c s)
  show ?case
  proof
    assume "search_forbidden (c # s)"
    then show "\<exists>u v. c # s = u @ v \<and> v \<noteq> [] \<and> forbidden_here v"
      using Cons.IH by (metis append_Cons append_Nil list.distinct(1) search_forbidden.simps(2))
  next
    assume "\<exists>u v. c # s = u @ v \<and> v \<noteq> [] \<and> forbidden_here v"
    then obtain u v where "c # s = u @ v" "v \<noteq> []" "forbidden_here v" by blast
    then show "search_forbidden (c # s)" using Cons.IH by (cases u) auto
  qed
qed simp

text \<open>The alternatives as texts that may stand anywhere.\<close>

definition forbidden_words :: "string set" where
  "forbidden_words = {''@'', ''token'', ''secret'', ''api_key'', ''api-key'', ''apikey'', id_card_zh, bank_card_zh}"

lemma first_of_drop:
  "starts_with p s \<and> (case drop (length p) s of [] \<Rightarrow> False | c # _ \<Rightarrow> P c) \<longleftrightarrow> (\<exists>c v. s = p @ c # v \<and> P c)"
  by (auto simp: starts_with_iff split: list.splits)

lemma digits_at_start:
  "10 \<le> length s \<and> list_all is_digit (take 10 s) \<longleftrightarrow> (\<exists>d v. s = d @ v \<and> length d = 10 \<and> list_all is_digit d)"
proof
  assume "10 \<le> length s \<and> list_all is_digit (take 10 s)"
  then show "\<exists>d v. s = d @ v \<and> length d = 10 \<and> list_all is_digit d"
    by (intro exI [of _ "take 10 s"] exI [of _ "drop 10 s"]) simp
qed auto

lemma forbidden_here_iff:
  "forbidden_here s \<longleftrightarrow>
     (\<exists>w\<in>forbidden_words. \<exists>v. s = w @ v) \<or>
     (\<exists>c v. s = ''sk-'' @ c # v \<and> is_alnum c) \<or> (\<exists>c v. s = ''bearer'' @ c # v \<and> is_space c) \<or>
     (\<exists>d v. s = ''+'' @ d @ v \<and> length d = 10 \<and> list_all is_digit d)"
proof -
  have plus: "starts_with ''+'' s \<and> 10 \<le> length (drop 1 s) \<and> list_all is_digit (take 10 (drop 1 s)) \<longleftrightarrow>
      (\<exists>d v. s = ''+'' @ d @ v \<and> length d = 10 \<and> list_all is_digit d)"
    using digits_at_start [of "drop 1 s"] by (cases s) (auto simp: starts_with_iff)
  show ?thesis
    unfolding forbidden_here_def plus
    using first_of_drop [of "''sk-''" s is_alnum] first_of_drop [of "''bearer''" s is_space]
    by (auto simp: forbidden_words_def starts_with_iff)
qed

lemma search_forbidden_forms:
  "search_forbidden s \<longleftrightarrow>
     (\<exists>w\<in>forbidden_words. \<exists>u v. s = u @ w @ v) \<or>
     (\<exists>u c v. s = u @ ''sk-'' @ c # v \<and> is_alnum c) \<or> (\<exists>u c v. s = u @ ''bearer'' @ c # v \<and> is_space c) \<or>
     (\<exists>u d v. s = u @ ''+'' @ d @ v \<and> length d = 10 \<and> list_all is_digit d)"
proof -
  have "forbidden_here v \<Longrightarrow> v \<noteq> []" for v
    by (auto simp: forbidden_here_iff forbidden_words_def id_card_zh_def bank_card_zh_def)
  then have "search_forbidden s \<longleftrightarrow> (\<exists>u v. s = u @ v \<and> forbidden_here v)" unfolding search_forbidden_iff by blast
  then show ?thesis unfolding forbidden_here_iff by blast
qed

lemma search_allowed:
  "\<not> search_forbidden s \<longleftrightarrow>
     (\<forall>w\<in>forbidden_words. \<nexists>u v. s = u @ w @ v) \<and>
     (\<nexists>u c v. s = u @ ''sk-'' @ c # v \<and> is_alnum c) \<and> (\<nexists>u c v. s = u @ ''bearer'' @ c # v \<and> is_space c) \<and>
     (\<nexists>u d v. s = u @ ''+'' @ d @ v \<and> length d = 10 \<and> list_all is_digit d)"
  unfolding search_forbidden_forms by blast

lemma payload_ok_iff:
  "validate_payload_ref_safety payload = Inr () \<longleftrightarrow> (\<forall>kv \<in> set payload. entry_errors kv = [])"
  by (auto simp: validate_payload_ref_safety_def payload_errors_def)

lemma entry_ok_iff:
  "entry_errors (key, value) = [] \<longleftrightarrow>
     (\<forall>f \<in> set FORBIDDEN_KEY_FRAGMENTS. \<not> contains f (lower key)) \<and> is_str value \<and>
     (\<forall>v. value = JStr v \<longrightarrow> \<not> forbidden_value v \<and> (is_uuid_like v \<or> \<not> bare_phone v))"
  by (cases "value") (auto simp: entry_errors_def filter_empty_conv)

text \<open>
  C22. A payload passes the check exactly when every entry is a string under a key without a money, identity or
  secret word in it, in any case, and the string contains, in any case, none of: an at sign, the words token,
  secret, api key (with an underscore, a hyphen or nothing between), the Chinese words for identity card and
  bank card, sk- followed by a letter or digit, bearer followed by a space, a plus sign followed by ten
  digits; nor, unless it is the text of a UUID, eleven digits in a row.
\<close>

theorem safe_payload_holds_no_secret:
  "validate_payload_ref_safety payload = Inr () \<longleftrightarrow>
     (\<forall>(key, value)\<in>set payload.
        (\<forall>f\<in>{''amount'', ''max_solve_seconds'', ''rate_per_second'', ''price'', ''credit'', ''balance'', ''phone'', ''email'',
              ''name'', ''address'', ''token'', ''secret'', ''api_key'', ''bearer'', ''prompt'', ''input'', ''payload'',
              ''bank'', ''id_card''}. \<nexists>u v. lower key = u @ f @ v) \<and>
        is_str value \<and>
        (\<forall>body. value = JStr body \<longrightarrow>
           (\<forall>w\<in>{''@'', ''token'', ''secret'', ''api_key'', ''api-key'', ''apikey'', id_card_zh, bank_card_zh}.
              \<nexists>u v. lower body = u @ w @ v) \<and>
           (\<nexists>u c v. lower body = u @ ''sk-'' @ c # v \<and> is_alnum c) \<and>
           (\<nexists>u c v. lower body = u @ ''bearer'' @ c # v \<and> is_space c) \<and>
           (\<nexists>u d v. lower body = u @ ''+'' @ d @ v \<and> length d = 10 \<and> list_all is_digit d) \<and>
           (is_uuid_like body \<or> (\<nexists>u d v. body = u @ d @ v \<and> list_all is_digit d \<and> 11 \<le> length d))))"
proof -
  have keys: "(\<forall>f\<in>set FORBIDDEN_KEY_FRAGMENTS. \<not> contains f k) \<longleftrightarrow>
      (\<forall>f\<in>{''amount'', ''max_solve_seconds'', ''rate_per_second'', ''price'', ''credit'', ''balance'', ''phone'', ''email'',
            ''name'', ''address'', ''token'', ''secret'', ''api_key'', ''bearer'', ''prompt'', ''input'', ''payload'',
            ''bank'', ''id_card''}. \<nexists>u v. k = u @ f @ v)" for k
    unfolding FORBIDDEN_KEY_FRAGMENTS_def contains_iff list.set ..
  have entry: "(\<forall>kv\<in>set payload. entry_errors kv = []) \<longleftrightarrow> (\<forall>(key, value)\<in>set payload. entry_errors (key, value) = [])" by auto
  show ?thesis
    unfolding payload_ok_iff entry entry_ok_iff forbidden_value_def search_allowed forbidden_words_def keys bare_phone_iff conj_assoc ..
qed

theorem safe_payload_holds_no_secret_witness:
  "validate_payload_ref_safety [(''reference_id'', JStr ''order-17''), (''purpose'', JStr ''solve'')] = Inr () \<and>
   (\<nexists>u c v. ''solve'' = u @ ''sk-'' @ c # v \<and> is_alnum c)"
proof -
  have ok: "validate_payload_ref_safety [(''reference_id'', JStr ''order-17''), (''purpose'', JStr ''solve'')] = Inr ()"
    by code_simp
  have entry: "(''purpose'', JStr ''solve'') \<in> set [(''reference_id'', JStr ''order-17''), (''purpose'', JStr ''solve'')]" by simp
  note facts = bspec [OF iffD1 [OF safe_payload_holds_no_secret ok] entry, unfolded prod.case]
  note body_ok = mp [OF spec [OF conjunct2 [OF conjunct2 [OF facts]]] refl]
  have "\<nexists>u c v. lower ''solve'' = u @ ''sk-'' @ c # v \<and> is_alnum c" by (rule conjunct1 [OF conjunct2 [OF body_ok]])
  moreover have "lower ''solve'' = ''solve''" by code_simp
  ultimately show ?thesis using ok by simp
qed

end
