(* ===== verification/Responses.thy ===== *)
theory Responses
  imports Models
begin

text \<open>
  What a handler answers: a value, a problem document (problem_details.py over the shared RFC 7807
  builder, packages/shared-py/opticloud_shared/errors/rfc7807.py), or the server error of an
  exception no handler translates. The free-text detail of a problem is left out; of its field errors
  the remediation hint keys are kept.
\<close>

record problem =
  pr_status :: int
  pr_title :: string
  pr_hints :: "string list"
  pr_next_action :: "string option"
  pr_type :: string

text \<open>\<open>HttpError\<close> is a raised \<^verbatim>\<open>HTTPException\<close>, with its status.\<close>

datatype 'a outcome = Returned 'a | Problem problem | HttpError int | ServerError

definition TOPUP_NEXT_ACTION_URL :: string where
  "TOPUP_NEXT_ACTION_URL = ''https://console.opticloud.cn/topup?suggested_amount=10''"

definition BILLING_BUDGET_URL :: string where
  "BILLING_BUDGET_URL = ''https://console.opticloud.cn/billing/budget''"

definition BILLING_HELP_URL :: string where
  "BILLING_HELP_URL = ''https://docs.opticloud.cn/errors/billing''"

definition BILLING_4XX_NEXT_ACTION_URLS :: "(int \<times> string) list" where
  "BILLING_4XX_NEXT_ACTION_URLS =
     [(400, ''https://docs.opticloud.cn/errors/billing-validation''),
      (401, ''https://docs.opticloud.cn/errors/billing-auth''),
      (402, TOPUP_NEXT_ACTION_URL),
      (403, ''https://console.opticloud.cn/billing/plans''),
      (404, ''https://docs.opticloud.cn/errors/not_found''),
      (409, ''https://docs.opticloud.cn/errors/idempotency_conflict''),
      (422, ''https://docs.opticloud.cn/errors/billing-validation'')]"

text \<open>\<^verbatim>\<open>rfc7807_error\<close>: an empty action is dropped.\<close>

definition rfc7807_error ::
  "string \<Rightarrow> int \<Rightarrow> string list \<Rightarrow> string option \<Rightarrow> string \<Rightarrow> problem" where
  "rfc7807_error title status_code hints next_action_url type_uri =
     \<lparr>pr_status = status_code, pr_title = title, pr_hints = hints,
      pr_next_action = (case next_action_url of None \<Rightarrow> None | Some u \<Rightarrow> if u = [] then None else Some u),
      pr_type = type_uri\<rparr>"

definition billing_problem_response ::
  "string \<Rightarrow> int \<Rightarrow> string list \<Rightarrow> string option \<Rightarrow> string \<Rightarrow> problem" where
  "billing_problem_response title status_code hints next_action_url type_uri =
     rfc7807_error title status_code hints
       (if next_action_url = None \<and> 400 \<le> status_code \<and> status_code < 500
        then Some (case map_of BILLING_4XX_NEXT_ACTION_URLS status_code of
                     None \<Rightarrow> BILLING_HELP_URL | Some u \<Rightarrow> u)
        else next_action_url)
       type_uri"

abbreviation problem_response :: "string \<Rightarrow> int \<Rightarrow> 'a outcome" where
  "problem_response title status \<equiv> Problem (billing_problem_response title status [] None ''about:blank'')"

fun is_returned :: "'a outcome \<Rightarrow> bool" where
  "is_returned (Returned a) = True"
| "is_returned _ = False"

fun problem_status :: "'a outcome \<Rightarrow> int" where
  "problem_status (Problem p) = pr_status p"
| "problem_status (HttpError n) = n"
| "problem_status ServerError = 500"
| "problem_status (Returned a) = 200"

lemma problem_fields [simp]:
  "pr_status (billing_problem_response t st h n ty) = st"
  "pr_title (billing_problem_response t st h n ty) = t"
  "pr_hints (billing_problem_response t st h n ty) = h"
  "pr_type (billing_problem_response t st h n ty) = ty"
  by (simp_all add: billing_problem_response_def rfc7807_error_def)

text \<open>Every 4xx problem tells the user where to go next.\<close>

theorem client_problem_has_next_action:
  assumes "400 \<le> status_code" "status_code < 500"
  shows "pr_next_action (billing_problem_response t status_code h None ty) \<noteq> None"
proof -
  have "map_of BILLING_4XX_NEXT_ACTION_URLS status_code \<noteq> Some []"
    by (auto simp: BILLING_4XX_NEXT_ACTION_URLS_def TOPUP_NEXT_ACTION_URL_def split: if_splits)
  then show ?thesis
    using assms by (auto simp: billing_problem_response_def rfc7807_error_def BILLING_HELP_URL_def split: option.split)
qed

theorem client_problem_has_next_action_witness:
  "pr_next_action (billing_problem_response ''Insufficient Credits'' 402 [] None ''about:blank'') \<noteq> None"
  by (rule client_problem_has_next_action) simp_all

end
