(* ===== verification/Pricing.thy ===== *)
theory Pricing
  imports Models
begin

text \<open>
  The pure money functions of billing-service: the per-formula charge and the pre-charge warnings
  (pricing.py), the usage spend derived from ledger rows (spend.py), the top-up packs (topups.py).
\<close>

section \<open>The charge for a solve\<close>

text \<open>
  \<^verbatim>\<open>elapsed_seconds\<close> and \<^verbatim>\<open>max_solve_seconds\<close> are floats; their decimal value enters the product.
\<close>

definition compute_charge_amount :: "rat \<Rightarrow> rat \<Rightarrow> rat \<Rightarrow> rat \<Rightarrow> rat \<Rightarrow> rat \<Rightarrow> rat" where
  "compute_charge_amount elapsed_seconds max_solve_seconds rate_per_second min_amount reserved_amount
     discount_multiplier =
     (let elapsed = max 0 elapsed_seconds;
          cap = max 0 max_solve_seconds;
          clamped = min elapsed cap;
          raw = clamped * rate_per_second * discount_multiplier;
          quantised = quantize_half_up 2 raw
      in if quantised < min_amount then min_amount
         else if quantised > reserved_amount then reserved_amount
         else quantised)"

lemma quantize_half_up_facts:
  "0 \<le> x \<Longrightarrow> 0 \<le> quantize_half_up p x"
  "0 \<le> x \<Longrightarrow> x \<le> y \<Longrightarrow> quantize_half_up p x \<le> quantize_half_up p y"
  "\<bar>quantize_half_up p x - x\<bar> \<le> 1 / (2 * 10 ^ p)"
  "has_scale p x \<Longrightarrow> quantize_half_up p x = x"
  unfolding quantize_half_up_def
  by (rule half_up.quantize_nonneg half_up.quantize_mono half_up.quantize_error half_up.quantize_exact;
      assumption)+

lemma charge_bounds:
  assumes "min_amount \<le> reserved"
  shows "min_amount \<le> compute_charge_amount e m rate min_amount reserved disc"
    and "compute_charge_amount e m rate min_amount reserved disc \<le> reserved"
  using assms by (auto simp: compute_charge_amount_def Let_def)

lemma charge_scale:
  assumes "has_scale 2 min_amount" and "has_scale 2 reserved"
  shows "has_scale 2 (compute_charge_amount e m rate min_amount reserved disc)"
  using assms half_up.quantize_scale
  by (auto simp: compute_charge_amount_def Let_def quantize_half_up_def)

text \<open>A charge is never below the floor and never above the reserved amount.\<close>

theorem compute_charge_amount_range:
  assumes "min_amount \<le> reserved"
  shows "min_amount \<le> compute_charge_amount e m rate min_amount reserved disc \<and>
         compute_charge_amount e m rate min_amount reserved disc \<le> reserved"
  using charge_bounds [OF assms] by blast

theorem compute_charge_amount_range_witness:
  "(1/100::rat) \<le> 6 \<and> compute_charge_amount 12 60 (1/10) (1/100) 6 1 = 6/5 \<and> (6/5::rat) \<le> 6"
proof -
  have result: "compute_charge_amount 12 60 (1/10) (1/100) 6 1 = 6/5" by code_simp
  have "(1/100::rat) \<le> 6" by simp
  from compute_charge_amount_range [OF this, of 12 60 "1/10" 1] show ?thesis
    unfolding result by simp
qed

text \<open>
  Where neither clamp applies the charge is the exact price, rounded half up to the cent:
  it is within half a cent of elapsed time (capped) times rate times discount.
\<close>

theorem compute_charge_amount_price:
  assumes inside: "min_amount < compute_charge_amount e m rate min_amount reserved disc"
    "compute_charge_amount e m rate min_amount reserved disc < reserved"
  shows "\<bar>compute_charge_amount e m rate min_amount reserved disc
          - min (max 0 e) (max 0 m) * rate * disc\<bar> \<le> 1/200"
proof -
  have "compute_charge_amount e m rate min_amount reserved disc
      = quantize_half_up 2 (min (max 0 e) (max 0 m) * rate * disc)"
    using inside by (auto simp: compute_charge_amount_def Let_def split: if_splits)
  moreover have "1 / (2 * 10 ^ 2) = (1/200::rat)" by simp
  ultimately show ?thesis
    using quantize_half_up_facts(3) [of 2 "min (max 0 e) (max 0 m) * rate * disc"] by (simp only:)
qed

theorem compute_charge_amount_price_witness:
  "\<bar>compute_charge_amount (12345/1000) 60 (1/10) (1/100) 6 (9/10)
      - min (max 0 (12345/1000)) (max 0 60) * (1/10) * (9/10)\<bar> \<le> (1/200::rat)"
  by (rule compute_charge_amount_price; code_simp)

lemma clamp_mono:
  fixes q :: "'a::linorder"
  shows "q \<le> q' \<Longrightarrow> lo \<le> hi \<Longrightarrow>
    (if q < lo then lo else if q > hi then hi else q) \<le> (if q' < lo then lo else if q' > hi then hi else q')"
  by auto

text \<open>Solving longer never costs less.\<close>

theorem compute_charge_amount_mono:
  assumes "e \<le> e'" "0 \<le> rate" "0 \<le> disc" "min_amount \<le> reserved"
  shows "compute_charge_amount e m rate min_amount reserved disc
       \<le> compute_charge_amount e' m rate min_amount reserved disc"
proof -
  let ?raw = "\<lambda>e. min (max 0 e) (max 0 m) * rate * disc"
  have "min (max 0 e) (max 0 m) \<le> min (max 0 e') (max 0 m)" using assms(1) by linarith
  then have "?raw e \<le> ?raw e'" using assms(2,3) by (intro mult_right_mono)
  moreover have "0 \<le> ?raw e" using assms(2,3) by (intro mult_nonneg_nonneg) auto
  ultimately have "quantize_half_up 2 (?raw e) \<le> quantize_half_up 2 (?raw e')"
    by (intro quantize_half_up_facts(2))
  then show ?thesis
    unfolding compute_charge_amount_def Let_def using assms(4) by (rule clamp_mono)
qed

theorem compute_charge_amount_mono_witness:
  "compute_charge_amount 3 60 (1/10) (1/100) 6 1 \<le> compute_charge_amount 7 60 (1/10) (1/100) 6 1"
  by (rule compute_charge_amount_mono) auto

text \<open>
  A reservation below the floor is charged the floor, not the reservation: the docstring's range
  \<^verbatim>\<open>[min_amount, reserved_amount]\<close> needs the reservation to reach the floor.
\<close>

lemma charge_floor_above_reserved: "compute_charge_amount 60 60 (1/10) (1/100) (1/200) 1 = 1/200"
  "compute_charge_amount 0 60 (1/10) (1/100) (1/200) 1 = 1/100"
  by code_simp+

section \<open>Pre-charge warnings\<close>

text \<open>
  The rendered message is left out; the kind and the remediation hint key are what the handlers
  act on.
\<close>

record warning =
  w_kind :: string
  w_hint :: string

definition classify_warnings :: "rat \<Rightarrow> rat \<Rightarrow> rat \<Rightarrow> rat \<Rightarrow> warning list" where
  "classify_warnings estimated_amount balance p5_threshold low_ratio =
     (let is_p5 = (estimated_amount \<ge> p5_threshold);
          is_low = (balance < estimated_amount * low_ratio) in
      if \<not> is_p5 \<and> \<not> is_low then []
      else (let kind = (if is_p5 \<and> is_low then ''p5_call_and_balance_low''
                        else if is_p5 then ''p5_call'' else ''balance_low'')
            in [\<lparr>w_kind = kind, w_hint = ''errors.billing_warning.'' @ kind\<rparr>]))"

definition classify_with_settings :: "settings \<Rightarrow> rat \<Rightarrow> rat \<Rightarrow> warning list" where
  "classify_with_settings cfg estimated balance =
     classify_warnings estimated balance (p5_call_threshold cfg) (balance_low_ratio cfg)"

text \<open>
  There is one warning when the amount reaches the high-cost threshold or the balance falls
  short, none otherwise; its kind says which of the two conditions hold.
\<close>

theorem classify_warnings_complete:
  "map w_kind (classify_warnings est bal p5 ratio) =
     (if p5 \<le> est \<and> bal < est * ratio then [''p5_call_and_balance_low'']
      else if p5 \<le> est then [''p5_call'']
      else if bal < est * ratio then [''balance_low''] else [])"
  by (simp add: classify_warnings_def Let_def)

lemma classify_warnings_empty:
  "classify_warnings est bal p5 ratio = [] \<longleftrightarrow> est < p5 \<and> est * ratio \<le> bal"
  by (auto simp: classify_warnings_def Let_def)

section \<open>Usage spend\<close>

definition SPEND_KINDS :: "string set" where
  "SPEND_KINDS = {''charge'', ''refund'', ''refund_partial'', ''refund_reversal''}"

definition actual_spend_from_signed_total :: "rat \<Rightarrow> rat" where
  "actual_spend_from_signed_total signed_total = max 0 (- signed_total)"

definition actual_spend :: "credit_transaction list \<Rightarrow> rat" where
  "actual_spend rows =
     actual_spend_from_signed_total (sum_where (\<lambda>r. ct_kind r \<in> SPEND_KINDS) ct_amount rows)"

lemma actual_spend_nonneg: "0 \<le> actual_spend rows"
  by (simp add: actual_spend_def actual_spend_from_signed_total_def)

lemma actual_spend_append_le: "actual_spend (xs @ ys) \<le> actual_spend xs + actual_spend ys"
  by (simp add: actual_spend_def actual_spend_from_signed_total_def)

section \<open>Top-up packs\<close>

definition SUPPORTED_TOPUP_AMOUNTS :: "rat set" where
  "SUPPORTED_TOPUP_AMOUNTS = {10, 50, 100, 500}"

definition normalize_topup_amount :: "rat \<Rightarrow> string + rat" where
  "normalize_topup_amount amount =
     (let normalized = quantize_half_even 2 amount in
      if amount \<noteq> normalized \<or> normalized \<notin> SUPPORTED_TOPUP_AMOUNTS
      then Inl ''unsupported topup amount'' else Inr normalized)"

lemma quantize_half_even_exact: "has_scale p x \<Longrightarrow> quantize_half_even p x = x"
  unfolding quantize_half_even_def by (rule half_even.quantize_exact)

text \<open>Exactly the four packs are accepted, unchanged; every other amount is refused.\<close>

theorem normalize_topup_amount_iff:
  "normalize_topup_amount amount = Inr a \<longleftrightarrow> amount \<in> SUPPORTED_TOPUP_AMOUNTS \<and> a = amount"
proof -
  have "has_scale 2 x" if "x \<in> SUPPORTED_TOPUP_AMOUNTS" for x
    using that by (auto simp: SUPPORTED_TOPUP_AMOUNTS_def has_scale_def)
  then show ?thesis
    by (auto simp: normalize_topup_amount_def Let_def quantize_half_even_exact)
qed

end
