(* ===== verification/SagaOrchestrator.thy ===== *)
theory SagaOrchestrator
  imports PayloadSafety
begin

text \<open>
  The Saga orchestrator (apps/billing-service/src/billing_service/saga_orchestrator.py): \<open>start\<close>
  with its idempotency keys, \<open>get\<close>, \<open>apply\<close> with the ledger row and the outbox event a transition
  writes, and the compensation table (compensations.py). The interface the HTTP handlers rely on is
  the locale \<open>saga_engine\<close>; its interpretation at the end says that this orchestrator provides it.
\<close>

section \<open>Errors\<close>

text \<open>
  exceptions.py. \<open>IntegrityError\<close> is the database error of a violated unique index that the code
  does not translate, \<open>UnknownStateValue\<close> the ValueError of \<^verbatim>\<open>State(value)\<close>.
\<close>

datatype saga_error =
    SagaNotFoundError nat
  | SagaTerminalError nat string
  | InvalidSagaTransitionError string string
  | IdempotencyConflictError string string string
  | CrossTenantKeyError string nat nat
  | UnsafeSagaPayloadRefError "payload_error list"
  | IntegrityError
  | UnknownStateValue string

section \<open>Starting a saga\<close>

text \<open>
  An amount as the request carries it: its value and the text \<^verbatim>\<open>str(amount)\<close> that enters the hash.
\<close>

record decimal =
  d_value :: rat
  d_text :: string

definition amount_json :: "decimal option \<Rightarrow> json" where
  "amount_json amount =
     (case amount of None \<Rightarrow> JNull | Some d \<Rightarrow> if d_value d = 0 then JNull else JStr (d_text d))"

definition start_body :: "string \<Rightarrow> jdict \<Rightarrow> decimal option \<Rightarrow> json" where
  "start_body saga_type payload amount =
     JObj [(''saga_type'', JStr saga_type), (''payload'', JObj payload), (''amount'', amount_json amount)]"

text \<open>The lookup of a key that has not expired: an error, the saga it stands for, or nothing.\<close>

definition reuse_key ::
  "datetime \<Rightarrow> nat \<Rightarrow> string \<Rightarrow> string \<Rightarrow> billing_db \<Rightarrow> (saga_error + saga_instance) option" where
  "reuse_key now user key body_hash db =
     (case idem_get key db of
        None \<Rightarrow> None
      | Some row \<Rightarrow>
          if ik_expires row > now then
            if ik_user row \<noteq> user then Some (Inl (CrossTenantKeyError key (ik_user row) user))
            else if ik_hash row \<noteq> body_hash
            then Some (Inl (IdempotencyConflictError key (ik_hash row) body_hash))
            else (case ik_saga row of
                    None \<Rightarrow> None
                  | Some i \<Rightarrow> (case saga_get i db of None \<Rightarrow> None | Some saga \<Rightarrow> Some (Inr saga)))
          else None)"

definition key_taken :: "string \<Rightarrow> billing_db \<Rightarrow> bool" where
  "key_taken key db \<longleftrightarrow> list_ex (\<lambda>r. sg_idem r = Some key) (db_sagas db)"

text \<open>
  The insertion: the unique index of \<^verbatim>\<open>saga_instances.idempotency_key\<close> makes the first flush fail,
  outside the \<^verbatim>\<open>try\<close>; the primary key of \<^verbatim>\<open>billing_idempotency_keys\<close> makes the second fail, inside.
\<close>

definition start_saga ::
  "settings \<Rightarrow> datetime \<Rightarrow> string \<Rightarrow> nat \<Rightarrow> string \<Rightarrow> jdict \<Rightarrow> decimal option \<Rightarrow> session \<Rightarrow>
   (saga_error + saga_instance) \<times> session" where
  "start_saga cfg now saga_type user key payload amount s =
     (case validate_payload_ref_safety payload of
        Inl errors \<Rightarrow> (Inl (UnsafeSagaPayloadRefError errors), s)
      | Inr _ \<Rightarrow>
          (let db = working s;
               body_hash = hash_body cfg (start_body saga_type payload amount) in
           case reuse_key now user key body_hash db of
             Some result \<Rightarrow> (result, s)
           | None \<Rightarrow>
               (let saga = \<lparr>sg_id = db_next_id db, sg_type = saga_type,
                            sg_state = state_value PENDING, sg_user = user, sg_idem = Some key,
                            sg_amount = map_option (\<lambda>d. pg_numeric 4 (d_value d)) amount,
                            sg_retries = 0, sg_payload = payload, sg_created = now, sg_updated = now\<rparr>
                in if key_taken key db then (Inl IntegrityError, rollback s)
                   else if idem_get key db \<noteq> None then
                     (let s' = rollback s in
                      case idem_get key (working s') of
                        None \<Rightarrow> (Inl IntegrityError, s')
                      | Some row \<Rightarrow>
                          (case ik_saga row of
                             None \<Rightarrow> (Inl IntegrityError, s')
                           | Some i \<Rightarrow> (case saga_get i (working s') of
                                         None \<Rightarrow> (Inl (SagaNotFoundError i), s')
                                       | Some existing \<Rightarrow> (Inr existing, s'))))
                   else
                     (let row = \<lparr>ik_key = key, ik_user = user, ik_hash = body_hash,
                                 ik_response = None, ik_saga = Some (sg_id saga),
                                 ik_expires = dt_plus now (hours (saga_idempotency_ttl_hours cfg)),
                                 ik_created = now\<rparr>;
                          db' = idem_add row (saga_add saga (db\<lparr>db_next_id := Suc (db_next_id db)\<rparr>))
                      in (Inr saga, s\<lparr>working := db'\<rparr>)))))"

definition get_saga :: "nat \<Rightarrow> billing_db \<Rightarrow> saga_error + saga_instance" where
  "get_saga i db = (case saga_get i db of None \<Rightarrow> Inl (SagaNotFoundError i) | Some s \<Rightarrow> Inr s)"

section \<open>Applying a trigger\<close>

definition CHARGE_TRIGGERS :: "(string \<times> (string \<times> rat)) list" where
  "CHARGE_TRIGGERS =
     [(''service_success'', (''charge'', -1)), (''user_cancel'', (''refund'', 1)),
      (''downstream_reject_late'', (''refund'', 1))]"

definition find_transition :: "string \<Rightarrow> string \<Rightarrow> transition option" where
  "find_transition current_state trig =
     (case state_of current_state of
        None \<Rightarrow> None
      | Some st \<Rightarrow> find (\<lambda>t. trigger t = trig) (valid_transitions_from st))"

definition is_idempotent_replay :: "saga_instance \<Rightarrow> string \<Rightarrow> bool" where
  "is_idempotent_replay saga trig \<longleftrightarrow>
     (case state_of (sg_state saga) of
        None \<Rightarrow> False
      | Some current \<Rightarrow> list_ex (\<lambda>t. trigger t = trig \<and> to_state t = current) TRANSITIONS)"

definition read_amount :: "saga_instance \<Rightarrow> rat option" where
  "read_amount saga = sg_amount saga"

text \<open>The ledger row of a trigger that moves credits; an absent or zero amount writes none.\<close>

definition write_credit ::
  "datetime \<Rightarrow> string \<Rightarrow> jdict \<Rightarrow> saga_instance \<Rightarrow> billing_db \<Rightarrow> billing_db" where
  "write_credit now trig context saga db =
     (case map_of CHARGE_TRIGGERS trig of
        None \<Rightarrow> db
      | Some (kind, sign) \<Rightarrow>
          (case read_amount saga of
             None \<Rightarrow> db
           | Some amount \<Rightarrow>
               if amount = 0 then db
               else add_credit (sg_user saga) (Some (sg_id saga)) (amount * sign) kind ''monthly''
                      (dict_merge [(''trigger'', JStr trig)] context) now db))"

definition write_event ::
  "datetime \<Rightarrow> string \<Rightarrow> jdict \<Rightarrow> saga_instance \<Rightarrow> transition \<Rightarrow> billing_db \<Rightarrow> billing_db" where
  "write_event now trig context saga t db =
     add_outbox ''saga_instance'' (sg_id saga) (''billing.saga.'' @ trig)
       (dict_merge
         [(''saga_id'', JId (sg_id saga)), (''saga_type'', JStr (sg_type saga)),
          (''from_state'', JStr (state_value (from_state t))),
          (''to_state'', JStr (state_value (to_state t))), (''trigger'', JStr trig)] context)
       [(''compensation'', JStr (compensation_value (compensation t)))] now db"

definition apply_saga ::
  "datetime \<Rightarrow> nat \<Rightarrow> string \<Rightarrow> jdict \<Rightarrow> billing_db \<Rightarrow> (saga_error + saga_instance) \<times> billing_db" where
  "apply_saga now i trig context db =
     (case saga_get i db of
        None \<Rightarrow> (Inl (SagaNotFoundError i), db)
      | Some saga \<Rightarrow>
          (case find_transition (sg_state saga) trig of
             None \<Rightarrow>
               if is_idempotent_replay saga trig then (Inr saga, db)
               else (case state_of (sg_state saga) of
                       None \<Rightarrow> (Inl (UnknownStateValue (sg_state saga)), db)
                     | Some st \<Rightarrow>
                         if is_terminal st then (Inl (SagaTerminalError i (sg_state saga)), db)
                         else (Inl (InvalidSagaTransitionError (sg_state saga) trig), db))
           | Some t \<Rightarrow>
               (let saga' = saga\<lparr>sg_state := state_value (to_state t), sg_updated := now\<rparr>
                in (Inr saga',
                    write_event now trig context saga' t
                      (write_credit now trig context saga' (saga_put saga' db))))))"

section \<open>Compensations\<close>

record compensation_spec =
  enum_value :: compensation
  invoking_trigger :: string
  creates_credit_tx :: bool

definition COMPENSATION_SPECS :: "compensation_spec list" where
  "COMPENSATION_SPECS =
     [\<lparr>enum_value = MARK_FAILED, invoking_trigger = ''balance_insufficient'', creates_credit_tx = False\<rparr>,
      \<lparr>enum_value = REFUND_AUTO, invoking_trigger = ''user_cancel'', creates_credit_tx = True\<rparr>,
      \<lparr>enum_value = RETRY_OUTBOX, invoking_trigger = ''outbox_delivered'', creates_credit_tx = False\<rparr>,
      \<lparr>enum_value = ESCALATE_OPS, invoking_trigger = ''downstream_reject_late'', creates_credit_tx = True\<rparr>]"

definition spec_for :: "compensation \<Rightarrow> compensation_spec option" where
  "spec_for c = find (\<lambda>s. enum_value s = c) COMPENSATION_SPECS"

section \<open>What a trigger does\<close>

lemma find_transition_row_get:
  "find_transition cur trig =
     (case state_of cur of None \<Rightarrow> None | Some st \<Rightarrow> row_get trigger trig (valid_transitions_from st))"
  by (simp add: find_transition_def row_get_def split: option.split)

lemma triggers_distinct: "distinct (map trigger (valid_transitions_from st))"
  by (cases st) (simp_all add: valid_transitions_simps)

lemma find_transition_iff:
  "find_transition cur trig = Some t \<longleftrightarrow>
     (\<exists>st. state_of cur = Some st \<and> t \<in> set (valid_transitions_from st) \<and> trigger t = trig)"
  using row_get_in_set [OF triggers_distinct]
  by (auto simp: find_transition_row_get dest: row_get_SomeD split: option.splits)

lemma find_transition_None_iff:
  "find_transition (state_value st) trig = None \<longleftrightarrow> (\<forall>st'. \<not> saga_step st trig st')"
  by (force simp: find_transition_row_get row_get_None_iff saga_step.simps)

lemma find_transition_step:
  "find_transition (state_value st) trig = Some t \<Longrightarrow> saga_step st trig (to_state t) \<and> from_state t = st"
  by (auto simp: find_transition_iff set_transitions_from intro: saga_step.fire)

lemma step_find_transition:
  assumes "saga_step st trig st'"
  obtains t where "find_transition (state_value st) trig = Some t" "to_state t = st'" "from_state t = st"
  using assms by (auto elim!: saga_stepE simp: find_transition_iff set_transitions_from)

text \<open>The sign of a trigger's ledger row, 0 for a trigger that moves no money.\<close>

definition ledger_sign :: "string \<Rightarrow> rat" where
  "ledger_sign trig = (case map_of CHARGE_TRIGGERS trig of None \<Rightarrow> 0 | Some (kind, sign) \<Rightarrow> sign)"

definition reserved_amount :: "saga_instance \<Rightarrow> rat" where
  "reserved_amount saga = (case sg_amount saga of None \<Rightarrow> 0 | Some a \<Rightarrow> a)"

lemma ledger_sign_simps [simp]:
  "ledger_sign ''reserve'' = 0" "ledger_sign ''balance_insufficient'' = 0"
  "ledger_sign ''service_success'' = -1" "ledger_sign ''user_cancel'' = 1"
  "ledger_sign ''pre_charge_guard_reject'' = 0" "ledger_sign ''outbox_delivered'' = 0"
  "ledger_sign ''downstream_reject_late'' = 1"
  by (simp_all add: ledger_sign_def CHARGE_TRIGGERS_def)

lemma reserved_amount_update [simp]:
  "reserved_amount (s\<lparr>sg_state := st\<rparr>) = reserved_amount s"
  "reserved_amount (s\<lparr>sg_updated := u\<rparr>) = reserved_amount s"
  by (simp_all add: reserved_amount_def)

definition amount_scaled :: "saga_instance \<Rightarrow> bool" where
  "amount_scaled saga \<longleftrightarrow> has_scale 4 (reserved_amount saga)"

definition sagas_scaled :: "billing_db \<Rightarrow> bool" where
  "sagas_scaled db \<longleftrightarrow> (\<forall>i s. saga_get i db = Some s \<longrightarrow> amount_scaled s)"

lemma charge_sign_unit: "map_of CHARGE_TRIGGERS trig = Some (kind, sign) \<Longrightarrow> sign = 1 \<or> sign = -1"
  by (auto simp: CHARGE_TRIGGERS_def split: if_splits)

lemma write_credit_frame [simp]:
  "db_sagas (write_credit now g c s db) = db_sagas db"
  "db_idem (write_credit now g c s db) = db_idem db"
  "db_outbox (write_credit now g c s db) = db_outbox db"
  "ledger_scaled (write_credit now g c s db) = ledger_scaled db"
  by (auto simp: write_credit_def split: option.splits)

lemma write_credit_sum:
  assumes "amount_scaled s"
  shows "saga_sum j (write_credit now g c s db) =
     saga_sum j db + (if j = sg_id s then ledger_sign g * reserved_amount s else 0)"
proof -
  have exact: "pg_numeric 4 (a * sign) = sign * a"
    if "has_scale 4 a" "sign = 1 \<or> sign = -1" for a sign :: rat
    using that pg_numeric_exact [of 4 "a * sign"] has_scale_minus [of 4 a] by auto
  show ?thesis
    using assms exact charge_sign_unit
    by (auto simp: write_credit_def ledger_sign_def read_amount_def reserved_amount_def amount_scaled_def
        split: option.splits)
qed

lemma write_event_frame [simp]:
  "db_sagas (write_event now g c s t db) = db_sagas db"
  "db_ledger (write_event now g c s t db) = db_ledger db"
  "db_idem (write_event now g c s t db) = db_idem db"
  "saga_sum j (write_event now g c s t db) = saga_sum j db"
  by (simp_all add: write_event_def)


section \<open>The interface of a saga engine\<close>

text \<open>
  What a handler relies on: a trigger the machine allows moves the saga and the ledger as the matrix
  says and touches no other saga; a trigger that already did its work changes nothing; a refused
  trigger changes nothing. \<open>paid\<close> is the sum of a saga's ledger rows.
\<close>

locale saga_engine =
  fixes lookup :: "nat \<Rightarrow> 'db \<Rightarrow> saga_instance option"
    and fire :: "datetime \<Rightarrow> nat \<Rightarrow> string \<Rightarrow> jdict \<Rightarrow> 'db \<Rightarrow> (saga_error + saga_instance) \<times> 'db"
    and paid :: "nat \<Rightarrow> 'db \<Rightarrow> rat"
    and ok :: "'db \<Rightarrow> bool"
  assumes fire_step: "ok db \<Longrightarrow> lookup i db = Some s \<Longrightarrow> sg_state s = state_value a \<Longrightarrow> saga_step a g b \<Longrightarrow>
      \<exists>db'. fire now i g ctx db = (Inr (s\<lparr>sg_state := state_value b, sg_updated := now\<rparr>), db') \<and> ok db' \<and>
        lookup i db' = Some (s\<lparr>sg_state := state_value b, sg_updated := now\<rparr>) \<and>
        paid i db' = paid i db + ledger_sign g * reserved_amount s"
    and fire_other: "ok db \<Longrightarrow> j \<noteq> i \<Longrightarrow>
      lookup j (snd (fire now i g ctx db)) = lookup j db \<and> paid j (snd (fire now i g ctx db)) = paid j db"
    and fire_refused: "lookup i db = Some s \<Longrightarrow> sg_state s = state_value a \<Longrightarrow> \<nexists>b. saga_step a g b \<Longrightarrow>
      snd (fire now i g ctx db) = db"
    and fire_replay: "lookup i db = Some s \<Longrightarrow> sg_state s = state_value b \<Longrightarrow> saga_step a g b \<Longrightarrow>
      fire now i g ctx db = (Inr s, db)"
begin

lemma fire_twice:
  assumes "ok db" "lookup i db = Some s" "sg_state s = state_value a" "saga_step a g b"
  shows "fire now' i g ctx' (snd (fire now i g ctx db)) = fire now i g ctx db"
proof -
  obtain db' where f: "fire now i g ctx db = (Inr (s\<lparr>sg_state := state_value b, sg_updated := now\<rparr>), db')"
    and l: "lookup i db' = Some (s\<lparr>sg_state := state_value b, sg_updated := now\<rparr>)"
    using fire_step [OF assms] by blast
  have "fire now' i g ctx' db' = (Inr (s\<lparr>sg_state := state_value b, sg_updated := now\<rparr>), db')"
    by (rule fire_replay [OF l _ assms(4)]) simp
  with f show ?thesis by simp
qed

end

text \<open>A list of triggers fired one after the other on one saga.\<close>

fun fire_all ::
  "(string \<Rightarrow> 'db \<Rightarrow> (saga_error + saga_instance) \<times> 'db) \<Rightarrow> string list \<Rightarrow> 'db \<Rightarrow> 'db" where
  "fire_all f [] db = db"
| "fire_all f (g # gs) db = fire_all f gs (snd (f g db))"

context saga_engine
begin

text \<open>A run of the machine, executed: the saga ends where the run ends, the ledger adds the signs up.\<close>

lemma run_executes:
  assumes "saga_run a gs b" and "ok db" and "lookup i db = Some s" and "sg_state s = state_value a"
  shows "\<exists>s'. lookup i (fire_all (\<lambda>g. fire now i g ctx) gs db) = Some s' \<and> sg_state s' = state_value b \<and>
     reserved_amount s' = reserved_amount s \<and> ok (fire_all (\<lambda>g. fire now i g ctx) gs db) \<and>
     paid i (fire_all (\<lambda>g. fire now i g ctx) gs db) =
       paid i db + (\<Sum>g\<leftarrow>gs. ledger_sign g) * reserved_amount s"
  using assms
proof (induction arbitrary: s db rule: saga_run.induct)
  case (run_nil a)
  then show ?case by simp
next
  case (run_step a g a' gs b)
  let ?s = "s\<lparr>sg_state := state_value a', sg_updated := now\<rparr>"
  obtain db' where f: "fire now i g ctx db = (Inr ?s, db')" and ok': "ok db'"
    and l: "lookup i db' = Some ?s" and p: "paid i db' = paid i db + ledger_sign g * reserved_amount s"
    using fire_step [OF run_step.prems(1,2,3) run_step.hyps(1)] by blast
  from run_step.IH [OF ok' l] show ?case by (simp add: f p algebra_simps)
qed

lemma run_touches_one_saga:
  assumes "j \<noteq> i" and "ok db" and "saga_run a gs b" and "lookup i db = Some s" and "sg_state s = state_value a"
  shows "lookup j (fire_all (\<lambda>g. fire now i g ctx) gs db) = lookup j db \<and>
     paid j (fire_all (\<lambda>g. fire now i g ctx) gs db) = paid j db"
  using assms(3,2,4,5)
proof (induction arbitrary: s db rule: saga_run.induct)
  case (run_step a g a' gs b)
  let ?s = "s\<lparr>sg_state := state_value a', sg_updated := now\<rparr>"
  obtain db' where f: "fire now i g ctx db = (Inr ?s, db')" and ok': "ok db'" and l: "lookup i db' = Some ?s"
    using fire_step [OF run_step.prems(1,2,3) run_step.hyps(1)] by blast
  have "lookup j db' = lookup j db \<and> paid j db' = paid j db"
    using fire_other [OF run_step.prems(1) assms(1), of now g ctx] by (simp add: f)
  with run_step.IH [OF ok' l] show ?case by (simp add: f)
qed simp

end

section \<open>The orchestrator is a saga engine\<close>

lemma saga_get_in: "saga_get i db = Some s \<Longrightarrow> s \<in> set (db_sagas db) \<and> sg_id s = i"
  by (auto simp: saga_get_def dest: row_get_SomeD)

lemma sagas_scaled_get: "sagas_scaled db \<Longrightarrow> saga_get i db = Some s \<Longrightarrow> amount_scaled s"
  by (simp add: sagas_scaled_def)

lemma amount_scaled_update [simp]:
  "amount_scaled (s\<lparr>sg_state := st\<rparr>) = amount_scaled s" "amount_scaled (s\<lparr>sg_updated := u\<rparr>) = amount_scaled s"
  by (simp_all add: amount_scaled_def)

text \<open>The database after a transition that was found.\<close>

definition after_step ::
  "datetime \<Rightarrow> string \<Rightarrow> jdict \<Rightarrow> saga_instance \<Rightarrow> transition \<Rightarrow> billing_db \<Rightarrow> billing_db" where
  "after_step now trig ctx saga t db =
     (let saga' = saga\<lparr>sg_state := state_value (to_state t), sg_updated := now\<rparr>
      in write_event now trig ctx saga' t (write_credit now trig ctx saga' (saga_put saga' db)))"

lemma apply_found:
  assumes "saga_get i db = Some s" and "find_transition (sg_state s) g = Some t"
  shows "apply_saga now i g ctx db =
     (Inr (s\<lparr>sg_state := state_value (to_state t), sg_updated := now\<rparr>), after_step now g ctx s t db)"
  using assms by (simp add: apply_saga_def after_step_def Let_def)

lemma after_step_get:
  assumes "saga_get i db = Some s"
  shows "saga_get j (after_step now g ctx s t db) =
     (if j = i then Some (s\<lparr>sg_state := state_value (to_state t), sg_updated := now\<rparr>) else saga_get j db)"
proof -
  have "sg_id s = i" using assms saga_rows.get_key by blast
  then show ?thesis
    using assms saga_rows.get_put [of "s\<lparr>sg_state := state_value (to_state t), sg_updated := now\<rparr>" db s j]
    by (simp add: after_step_def Let_def saga_get_def)
qed

lemma after_step_sum:
  assumes "amount_scaled s"
  shows "saga_sum j (after_step now g ctx s t db) =
     saga_sum j db + (if j = sg_id s then ledger_sign g * reserved_amount s else 0)"
  using assms by (simp add: after_step_def Let_def write_credit_sum)

lemma after_step_scaled:
  assumes "sagas_scaled db" "saga_get i db = Some s"
  shows "sagas_scaled (after_step now g ctx s t db)"
  using assms sagas_scaled_get [OF assms] by (auto simp: sagas_scaled_def after_step_get)

lemma replay_iff: "sg_state s = state_value b \<Longrightarrow> is_idempotent_replay s g \<longleftrightarrow> (\<exists>a. saga_step a g b)"
  by (auto simp: is_idempotent_replay_def list_ex_iff saga_step.simps set_transitions_from)

lemma no_step_after_step: "saga_step a g b \<Longrightarrow> \<not> saga_step b g c"
  by (auto simp: saga_step_iff)

lemma apply_missing: "saga_get i db = None \<Longrightarrow> apply_saga now i g ctx db = (Inl (SagaNotFoundError i), db)"
  by (simp add: apply_saga_def)

lemma apply_refused:
  assumes "saga_get i db = Some s" and "sg_state s = state_value a" and "\<nexists>b. saga_step a g b"
  shows "apply_saga now i g ctx db =
     ((if \<exists>a'. saga_step a' g a then Inr s
       else if is_terminal a then Inl (SagaTerminalError i (sg_state s))
       else Inl (InvalidSagaTransitionError (sg_state s) g)), db)"
proof -
  have "find_transition (sg_state s) g = None" using assms(2,3) by (simp add: find_transition_None_iff)
  then show ?thesis using assms by (simp add: apply_saga_def replay_iff)
qed

lemma apply_stepped:
  assumes "saga_get i db = Some s" and "sg_state s = state_value a" and "saga_step a g b"
  obtains t where "from_state t = a" "to_state t = b" "trigger t = g" "t \<in> set TRANSITIONS"
    "apply_saga now i g ctx db =
      (Inr (s\<lparr>sg_state := state_value b, sg_updated := now\<rparr>), after_step now g ctx s t db)"
proof -
  obtain t where t: "find_transition (sg_state s) g = Some t" "to_state t = b" "from_state t = a"
    using assms(2,3) by (auto elim: step_find_transition)
  then have "trigger t = g" "t \<in> set TRANSITIONS" by (auto simp: find_transition_iff set_transitions_from)
  with t that apply_found [OF assms(1) t(1)] show ?thesis by simp
qed

lemma apply_untouched:
  "j \<noteq> i \<Longrightarrow> sagas_scaled db \<Longrightarrow>
   saga_get j (snd (apply_saga now i g ctx db)) = saga_get j db \<and>
   saga_sum j (snd (apply_saga now i g ctx db)) = saga_sum j db"
proof (cases "saga_get i db")
  case (Some s)
  assume "j \<noteq> i" "sagas_scaled db"
  have "sg_id s = i" "amount_scaled s" using Some saga_rows.get_key sagas_scaled_get \<open>sagas_scaled db\<close> by blast+
  show ?thesis
  proof (cases "find_transition (sg_state s) g")
    case None
    with Some show ?thesis by (auto simp: apply_saga_def split: option.splits)
  next
    case (Some t)
    with \<open>saga_get i db = Some s\<close> \<open>j \<noteq> i\<close> \<open>sg_id s = i\<close> \<open>amount_scaled s\<close> show ?thesis
      by (simp add: apply_found after_step_get after_step_sum)
  qed
qed (simp add: apply_missing)

interpretation orchestrator: saga_engine saga_get apply_saga saga_sum sagas_scaled
proof
  fix db i s a g b ctx now
  assume "sagas_scaled db" and s: "saga_get i db = Some s" "sg_state s = state_value a" "saga_step a g b"
  then have "amount_scaled s" "sg_id s = i" using sagas_scaled_get saga_rows.get_key by blast+
  obtain t where "to_state t = b"
      "apply_saga now i g ctx db =
        (Inr (s\<lparr>sg_state := state_value b, sg_updated := now\<rparr>), after_step now g ctx s t db)"
    using apply_stepped [OF s] by metis
  then show "\<exists>db'. apply_saga now i g ctx db = (Inr (s\<lparr>sg_state := state_value b, sg_updated := now\<rparr>), db') \<and>
      sagas_scaled db' \<and> saga_get i db' = Some (s\<lparr>sg_state := state_value b, sg_updated := now\<rparr>) \<and>
      saga_sum i db' = saga_sum i db + ledger_sign g * reserved_amount s"
    using s \<open>amount_scaled s\<close> \<open>sg_id s = i\<close> after_step_scaled [OF \<open>sagas_scaled db\<close> s(1)]
    by (simp add: after_step_get after_step_sum)
next
  fix db j i now g ctx
  assume "sagas_scaled db" "j \<noteq> (i::nat)"
  then show "saga_get j (snd (apply_saga now i g ctx db)) = saga_get j db \<and>
      saga_sum j (snd (apply_saga now i g ctx db)) = saga_sum j db"
    by (simp add: apply_untouched)
next
  fix db i s a g ctx now
  assume "saga_get i db = Some s" "sg_state s = state_value a" "\<nexists>b. saga_step a g b"
  then show "snd (apply_saga now i g ctx db) = db" by (simp add: apply_refused)
next
  fix db i s b a g ctx now
  assume s: "saga_get i db = Some s" "sg_state s = state_value b" "saga_step a g b"
  then have "\<nexists>c. saga_step b g c" using no_step_after_step by blast
  from apply_refused [OF s(1,2) this] s(3) show "apply_saga now i g ctx db = (Inr s, db)" by auto
qed

text \<open>
  The invariant behind the keys: a key row linked to a saga names a saga of the same user that
  carries the key.
\<close>

definition idem_linked :: "billing_db \<Rightarrow> bool" where
  "idem_linked db \<longleftrightarrow>
     (\<forall>key row i. idem_get key db = Some row \<longrightarrow> ik_saga row = Some i \<longrightarrow>
        (\<exists>saga. saga_get i db = Some saga \<and> sg_user saga = ik_user row \<and> sg_idem saga = Some key))"

section \<open>Sample data\<close>

text \<open>A database with one saga, on which the properties are evaluated.\<close>

definition sample_time :: datetime where
  "sample_time = DateTime 2026 5 1 0"

definition sample_cfg :: settings where
  "sample_cfg = default_settings (\<lambda>_. ''h'')"

definition sample_saga :: "state \<Rightarrow> saga_instance" where
  "sample_saga st =
     \<lparr>sg_id = 7, sg_type = ''solve_charge'', sg_state = state_value st, sg_user = 1, sg_idem = Some ''key-1'',
      sg_amount = Some 6, sg_retries = 0, sg_payload = [(''purpose'', JStr ''solve'')],
      sg_created = sample_time, sg_updated = sample_time\<rparr>"

definition sample_key :: idempotency_row where
  "sample_key = \<lparr>ik_key = ''key-1'', ik_user = 1, ik_hash = ''h'', ik_response = None, ik_saga = Some 7,
     ik_expires = DateTime 2026 5 2 0, ik_created = sample_time\<rparr>"

definition sample_db :: "state \<Rightarrow> billing_db" where
  "sample_db st = empty_db\<lparr>db_sagas := [sample_saga st], db_idem := [sample_key], db_next_id := 8\<rparr>"

definition sample_payload :: jdict where
  "sample_payload = [(''purpose'', JStr ''solve'')]"

lemma sample_facts:
  "sagas_scaled (sample_db st)" "saga_get 7 (sample_db st) = Some (sample_saga st)"
  "sg_state (sample_saga st) = state_value st" "idem_linked (sample_db st)"
  "idem_get ''key-1'' (sample_db st) = Some sample_key" "idem_get ''key-2'' (sample_db st) = None"
  "key_taken ''key-2'' (sample_db st) = False" "saga_get 8 (sample_db st) = None"
  "db_next_id (sample_db st) = 8"
  by (auto simp: sagas_scaled_def sample_db_def sample_saga_def amount_scaled_def reserved_amount_def
      has_scale_def saga_get_def row_get_def idem_linked_def idem_get_def sample_key_def empty_db_def
      key_taken_def split: if_splits)

lemma sample_payload_safe: "validate_payload_ref_safety sample_payload = Inr ()"
  by code_simp

lemma sample_deadline: "dt_plus sample_time (hours (saga_idempotency_ttl_hours sample_cfg)) = DateTime 2026 5 2 0"
  by code_simp

lemma sample_live: "sample_time < dt_plus sample_time (hours (saga_idempotency_ttl_hours sample_cfg))"
  unfolding sample_deadline by (simp add: sample_time_def less_datetime_def dt_key_def)

lemma sample_steps:
  "saga_step PENDING ''reserve'' RESERVED" "saga_step RESERVED ''service_success'' CHARGED"
  "saga_run PENDING [''reserve'', ''service_success''] CHARGED"
  by (auto simp: saga_step_iff intro!: saga_run.intros)

section \<open>Properties of apply\<close>

text \<open>
  A trigger the matrix allows moves the saga to the target state, stamps it, adds exactly
  sign times the reserved amount to its ledger rows and nothing to any other saga's, and appends
  exactly one outbox event, named after the trigger and carrying the matrix's compensation.
\<close>

theorem apply_allowed:
  assumes "sagas_scaled db" "saga_get i db = Some s" "sg_state s = state_value a" "saga_step a g b"
    and "apply_saga now i g ctx db = (r, db')"
  shows "r = Inr (s\<lparr>sg_state := state_value b, sg_updated := now\<rparr>) \<and>
    saga_get i db' = Some (s\<lparr>sg_state := state_value b, sg_updated := now\<rparr>) \<and>
    saga_sum i db' = saga_sum i db + ledger_sign g * reserved_amount s \<and>
    (\<forall>j. j \<noteq> i \<longrightarrow> saga_get j db' = saga_get j db \<and> saga_sum j db' = saga_sum j db) \<and>
    (\<exists>e t. db_outbox db' = db_outbox db @ [e] \<and> ob_event_type e = ''billing.saga.'' @ g \<and>
       ob_aggregate_id e = i \<and> t \<in> set TRANSITIONS \<and> from_state t = a \<and> trigger t = g \<and>
       ob_headers e = [(''compensation'', JStr (compensation_value (compensation t)))])"
proof -
  have i: "sg_id s = i" and sc: "amount_scaled s" using assms sagas_scaled_get saga_rows.get_key by blast+
  obtain t where t: "from_state t = a" "to_state t = b" "trigger t = g" "t \<in> set TRANSITIONS"
      "apply_saga now i g ctx db =
        (Inr (s\<lparr>sg_state := state_value b, sg_updated := now\<rparr>), after_step now g ctx s t db)"
    using apply_stepped [OF assms(2,3,4)] by metis
  then have db': "r = Inr (s\<lparr>sg_state := state_value b, sg_updated := now\<rparr>)" "db' = after_step now g ctx s t db"
    using assms(5) by auto
  have event: "\<exists>e. db_outbox db' = db_outbox db @ [e] \<and> ob_event_type e = ''billing.saga.'' @ g \<and>
       ob_aggregate_id e = i \<and> ob_headers e = [(''compensation'', JStr (compensation_value (compensation t)))]"
    by (simp add: db' after_step_def Let_def write_event_def add_outbox_def i)
  have others: "\<forall>j. j \<noteq> i \<longrightarrow> saga_get j db' = saga_get j db \<and> saga_sum j db' = saga_sum j db"
    using after_step_get [OF assms(2)] after_step_sum [OF sc] by (simp add: db' i)
  show ?thesis
    using others event t(1,3,4) after_step_get [OF assms(2), of i] after_step_sum [OF sc, of i]
    by (auto simp: db' t(2) i)
qed

theorem apply_allowed_witness:
  "fst (apply_saga sample_time 7 ''reserve'' [] (sample_db PENDING)) =
     Inr (sample_saga PENDING\<lparr>sg_state := ''reserved'', sg_updated := sample_time\<rparr>)"
  using apply_allowed [OF sample_facts(1) sample_facts(2) sample_facts(3) sample_steps(1) prod.collapse [symmetric],
      of sample_time "[]"] by simp

text \<open>
  A trigger the matrix does not allow in the saga's state writes nothing: it is a silent replay
  when the state is the one the trigger leads to, otherwise an error that tells a terminal saga from
  a wrong trigger.
\<close>

theorem apply_not_allowed:
  assumes "saga_get i db = Some s" and "sg_state s = state_value a" and "\<nexists>b. saga_step a g b"
  shows "apply_saga now i g ctx db =
     ((if \<exists>a'. saga_step a' g a then Inr s
       else if is_terminal a then Inl (SagaTerminalError i (sg_state s))
       else Inl (InvalidSagaTransitionError (sg_state s) g)), db)"
  using assms by (rule apply_refused)

theorem apply_not_allowed_witness:
  "apply_saga sample_time 7 ''service_success'' [] (sample_db PENDING) =
     (Inl (InvalidSagaTransitionError ''pending'' ''service_success''), sample_db PENDING)"
  using apply_not_allowed [OF sample_facts(2) sample_facts(3), of PENDING "''service_success''" sample_time "[]"]
  by (simp add: saga_step_iff is_terminal_def TERMINAL_STATES_def sample_facts(3))

text \<open>Applying a trigger twice is applying it once (no double charge on a retry).\<close>

theorem apply_retry_safe:
  assumes "sagas_scaled db" "saga_get i db = Some s" "sg_state s = state_value a" "saga_step a g b"
  shows "apply_saga now' i g ctx' (snd (apply_saga now i g ctx db)) = apply_saga now i g ctx db"
  using assms by (rule orchestrator.fire_twice)

theorem apply_retry_safe_witness:
  "apply_saga sample_time 7 ''service_success'' []
      (snd (apply_saga sample_time 7 ''service_success'' [] (sample_db RESERVED))) =
    apply_saga sample_time 7 ''service_success'' [] (sample_db RESERVED)"
  by (rule apply_retry_safe [OF sample_facts(1) sample_facts(2) sample_facts(3) sample_steps(2)])

text \<open>
  Executing a run of the state machine ends in the state the run ends in, leaves every other saga
  alone, and changes the saga's ledger by the sum of the triggers' signs times the reserved amount.
\<close>

theorem apply_run:
  assumes "saga_run a gs b" "sagas_scaled db" "saga_get i db = Some s" "sg_state s = state_value a"
  shows "\<exists>s'. saga_get i (fire_all (\<lambda>g. apply_saga now i g ctx) gs db) = Some s' \<and>
    sg_state s' = state_value b \<and>
    saga_sum i (fire_all (\<lambda>g. apply_saga now i g ctx) gs db) =
      saga_sum i db + (\<Sum>g\<leftarrow>gs. ledger_sign g) * reserved_amount s \<and>
    (\<forall>j. j \<noteq> i \<longrightarrow> saga_get j (fire_all (\<lambda>g. apply_saga now i g ctx) gs db) = saga_get j db)"
  using orchestrator.run_executes [OF assms, of now ctx]
    orchestrator.run_touches_one_saga [OF _ assms(2,1,3,4)] by blast

theorem apply_run_witness:
  "\<exists>s'. saga_get 7 (fire_all (\<lambda>g. apply_saga sample_time 7 g []) [''reserve'', ''service_success''] (sample_db PENDING)) = Some s' \<and>
     sg_state s' = ''charged''"
  using apply_run [OF sample_steps(3) sample_facts(1) sample_facts(2) sample_facts(3), of sample_time "[]"]
  by auto

text \<open>
  Every compensation the matrix names has exactly one declared strategy, except \<open>NONE\<close>, and a
  strategy is declared to write ledger rows exactly when its trigger does.
\<close>

theorem compensation_specs_match:
  "(spec_for c = None \<longleftrightarrow> c = NONE) \<and>
   (spec_for c = Some sp \<longrightarrow> enum_value sp = c \<and>
      (creates_credit_tx sp \<longleftrightarrow> map_of CHARGE_TRIGGERS (invoking_trigger sp) \<noteq> None) \<and>
      invoking_trigger sp \<in> trigger ` set TRANSITIONS)"
  by (cases c) (auto simp: spec_for_def COMPENSATION_SPECS_def CHARGE_TRIGGERS_def TRANSITIONS_def)

theorem compensation_specs_match_witness:
  "spec_for NONE = None \<and> creates_credit_tx (the (spec_for REFUND_AUTO)) = True"
  using compensation_specs_match [of NONE "the (spec_for NONE)"]
    compensation_specs_match [of REFUND_AUTO "the (spec_for REFUND_AUTO)"]
  by (simp add: spec_for_def COMPENSATION_SPECS_def CHARGE_TRIGGERS_def)

section \<open>Properties of start\<close>

lemma idem_linkedD:
  assumes "idem_linked db" "idem_get key db = Some row" "ik_saga row = Some i"
  obtains saga where "saga_get i db = Some saga" "sg_user saga = ik_user row" "sg_idem saga = Some key"
  using assms unfolding idem_linked_def by blast

lemma linked_key_taken:
  "idem_linked db \<Longrightarrow> idem_get key db = Some row \<Longrightarrow> ik_saga row = Some i \<Longrightarrow> key_taken key db"
  by (elim idem_linkedD) (auto simp: key_taken_def list_ex_iff dest: saga_get_in)

text \<open>What a start on an unused key writes.\<close>

definition new_saga ::
  "datetime \<Rightarrow> string \<Rightarrow> nat \<Rightarrow> string \<Rightarrow> jdict \<Rightarrow> decimal option \<Rightarrow> billing_db \<Rightarrow> saga_instance" where
  "new_saga now saga_type user key payload amount db =
     \<lparr>sg_id = db_next_id db, sg_type = saga_type, sg_state = state_value PENDING, sg_user = user,
      sg_idem = Some key, sg_amount = map_option (\<lambda>d. pg_numeric 4 (d_value d)) amount,
      sg_retries = 0, sg_payload = payload, sg_created = now, sg_updated = now\<rparr>"

definition new_key ::
  "settings \<Rightarrow> datetime \<Rightarrow> string \<Rightarrow> nat \<Rightarrow> string \<Rightarrow> jdict \<Rightarrow> decimal option \<Rightarrow> billing_db \<Rightarrow> idempotency_row" where
  "new_key cfg now saga_type user key payload amount db =
     \<lparr>ik_key = key, ik_user = user, ik_hash = hash_body cfg (start_body saga_type payload amount),
      ik_response = None, ik_saga = Some (db_next_id db),
      ik_expires = dt_plus now (hours (saga_idempotency_ttl_hours cfg)), ik_created = now\<rparr>"

definition after_start ::
  "settings \<Rightarrow> datetime \<Rightarrow> string \<Rightarrow> nat \<Rightarrow> string \<Rightarrow> jdict \<Rightarrow> decimal option \<Rightarrow> billing_db \<Rightarrow> billing_db" where
  "after_start cfg now saga_type user key payload amount db =
     idem_add (new_key cfg now saga_type user key payload amount db)
       (saga_add (new_saga now saga_type user key payload amount db)
         (db\<lparr>db_next_id := Suc (db_next_id db)\<rparr>))"

lemma new_fields [simp]:
  "sg_id (new_saga now ty u k p a db) = db_next_id db" "sg_user (new_saga now ty u k p a db) = u"
  "sg_state (new_saga now ty u k p a db) = state_value PENDING"
  "sg_idem (new_saga now ty u k p a db) = Some k" "sg_type (new_saga now ty u k p a db) = ty"
  "sg_payload (new_saga now ty u k p a db) = p"
  "ik_key (new_key cfg now ty u k p a db) = k" "ik_user (new_key cfg now ty u k p a db) = u"
  "ik_saga (new_key cfg now ty u k p a db) = Some (db_next_id db)"
  "ik_hash (new_key cfg now ty u k p a db) = hash_body cfg (start_body ty p a)"
  "ik_expires (new_key cfg now ty u k p a db) = dt_plus now (hours (saga_idempotency_ttl_hours cfg))"
  "ik_response (new_key cfg now ty u k p a db) = None"
  by (simp_all add: new_saga_def new_key_def)

lemma new_saga_scaled [simp]: "amount_scaled (new_saga now ty u k p a db)"
  by (cases a) (simp_all add: amount_scaled_def reserved_amount_def new_saga_def)

lemma start_cases:
  "start_saga cfg now ty u k p a s =
     (case validate_payload_ref_safety p of
        Inl errors \<Rightarrow> (Inl (UnsafeSagaPayloadRefError errors), s)
      | Inr _ \<Rightarrow>
          (case reuse_key now u k (hash_body cfg (start_body ty p a)) (working s) of
             Some result \<Rightarrow> (result, s)
           | None \<Rightarrow>
               if key_taken k (working s) then (Inl IntegrityError, rollback s)
               else if idem_get k (working s) = None then
                 (Inr (new_saga now ty u k p a (working s)),
                  s\<lparr>working := after_start cfg now ty u k p a (working s)\<rparr>)
               else
                 (case idem_get k (committed s) of
                    None \<Rightarrow> (Inl IntegrityError, rollback s)
                  | Some row \<Rightarrow>
                      (case ik_saga row of
                         None \<Rightarrow> (Inl IntegrityError, rollback s)
                       | Some i \<Rightarrow> (case saga_get i (committed s) of
                                     None \<Rightarrow> (Inl (SagaNotFoundError i), rollback s)
                                   | Some existing \<Rightarrow> (Inr existing, rollback s))))))"
  by (simp add: start_saga_def Let_def new_saga_def new_key_def after_start_def rollback_def
      split: sum.split option.split)

lemma after_start_get:
  assumes "saga_get (db_next_id db) db = None"
  shows "saga_get j (after_start cfg now ty u k p a db) =
     (if j = db_next_id db then Some (new_saga now ty u k p a db) else saga_get j db)"
proof -
  let ?db = "db\<lparr>db_next_id := Suc (db_next_id db)\<rparr>"
  have same: "saga_get x ?db = saga_get x db" for x by (simp add: saga_get_def)
  show ?thesis
    using assms saga_rows.get_add [of "new_saga now ty u k p a db" ?db j]
    by (simp add: after_start_def same)
qed

lemma after_start_idem:
  assumes "idem_get k db = None"
  shows "idem_get k' (after_start cfg now ty u k p a db) =
     (if k' = k then Some (new_key cfg now ty u k p a db) else idem_get k' db)"
proof -
  let ?db = "saga_add (new_saga now ty u k p a db) (db\<lparr>db_next_id := Suc (db_next_id db)\<rparr>)"
  have same: "idem_get x ?db = idem_get x db" for x by (simp add: idem_get_def saga_add_def)
  show ?thesis
    using assms idem_rows.get_add [of "new_key cfg now ty u k p a db" ?db k']
    by (simp add: after_start_def same)
qed

lemma after_start_frame [simp]:
  "db_ledger (after_start cfg now ty u k p a db) = db_ledger db"
  "db_outbox (after_start cfg now ty u k p a db) = db_outbox db"
  "db_next_id (after_start cfg now ty u k p a db) = Suc (db_next_id db)"
  "saga_sum j (after_start cfg now ty u k p a db) = saga_sum j db"
  by (simp_all add: after_start_def saga_sum_def ledger_sum_def)

lemma after_start_scaled:
  "sagas_scaled db \<Longrightarrow> saga_get (db_next_id db) db = None \<Longrightarrow> sagas_scaled (after_start cfg now ty u k p a db)"
  by (auto simp: sagas_scaled_def after_start_get)

lemma after_start_linked:
  assumes "idem_linked db" "saga_get (db_next_id db) db = None" "idem_get k db = None"
  shows "idem_linked (after_start cfg now ty u k p a db)"
  unfolding idem_linked_def
proof (intro allI impI)
  fix key row i
  assume row: "idem_get key (after_start cfg now ty u k p a db) = Some row" "ik_saga row = Some i"
  show "\<exists>saga. saga_get i (after_start cfg now ty u k p a db) = Some saga \<and>
      sg_user saga = ik_user row \<and> sg_idem saga = Some key"
  proof (cases "key = k")
    case True
    with row show ?thesis by (auto simp: after_start_idem [OF assms(3)] after_start_get [OF assms(2)])
  next
    case False
    with row have "idem_get key db = Some row" by (simp add: after_start_idem [OF assms(3)])
    with assms(1) row(2) obtain saga where "saga_get i db = Some saga" "sg_user saga = ik_user row" "sg_idem saga = Some key"
      by (elim idem_linkedD)
    moreover have "i \<noteq> db_next_id db" using \<open>saga_get i db = Some saga\<close> assms(2) by auto
    ultimately show ?thesis by (simp add: after_start_get [OF assms(2)])
  qed
qed

text \<open>
  An unused key starts a pending saga with the request's user, type, amount and payload, and the
  same request sent again before the key expires returns that saga and writes nothing.
\<close>

theorem start_then_replay:
  assumes "validate_payload_ref_safety p = Inr ()" "idem_get k (working s) = None"
    and "\<not> key_taken k (working s)" "saga_get (db_next_id (working s)) (working s) = None"
    and "now' < dt_plus now (hours (saga_idempotency_ttl_hours cfg))"
    and "start_saga cfg now ty u k p a s = (r, s')"
  shows "\<exists>saga. r = Inr saga \<and> sg_state saga = ''pending'' \<and> sg_user saga = u \<and> sg_type saga = ty \<and>
    sg_payload saga = p \<and> sg_amount saga = map_option (\<lambda>d. pg_numeric 4 (d_value d)) a \<and>
    saga_get (sg_id saga) (working s') = Some saga \<and>
    start_saga cfg now' ty u k p a s' = (Inr saga, s')"
proof -
  let ?db = "working s" and ?db' = "after_start cfg now ty u k p a (working s)"
  have "reuse_key now u k h ?db = None" for h by (simp add: reuse_key_def assms(2))
  then have r: "r = Inr (new_saga now ty u k p a ?db)" "s' = s\<lparr>working := ?db'\<rparr>"
    using assms(1,2,3,6) by (auto simp: start_cases)
  have "reuse_key now' u k (hash_body cfg (start_body ty p a)) ?db' = Some (Inr (new_saga now ty u k p a ?db))"
    using assms(2,4,5) by (simp add: reuse_key_def after_start_idem after_start_get)
  then have "start_saga cfg now' ty u k p a s' = (Inr (new_saga now ty u k p a ?db), s')"
    using assms(1) by (simp add: start_cases r)
  then show ?thesis using r assms(4) by (simp add: after_start_get new_saga_def)
qed

theorem start_then_replay_witness:
  "\<exists>saga. fst (start_saga sample_cfg sample_time ''solve_charge'' 1 ''key-2'' sample_payload None
       (open_session (sample_db PENDING))) = Inr saga \<and> sg_state saga = ''pending''"
  using start_then_replay [where s = "open_session (sample_db PENDING)" and k = "''key-2''" and p = sample_payload
      and cfg = sample_cfg and now = sample_time and now' = sample_time and ty = "''solve_charge''" and u = 1
      and a = None, OF sample_payload_safe _ _ _ sample_live prod.collapse [symmetric]]
  by (auto simp: sample_facts open_session_def)

text \<open>
  A key that is still alive answers only the tenant and the body it was created for: another
  tenant gets the cross-tenant error, another body the conflict, and neither writes anything.
\<close>

theorem start_guards_live_key:
  assumes "validate_payload_ref_safety p = Inr ()" "idem_get k (working s) = Some row" "now < ik_expires row"
    and "ik_user row \<noteq> u \<or> ik_hash row \<noteq> hash_body cfg (start_body ty p a)"
  shows "start_saga cfg now ty u k p a s =
    (Inl (if ik_user row \<noteq> u then CrossTenantKeyError k (ik_user row) u
          else IdempotencyConflictError k (ik_hash row) (hash_body cfg (start_body ty p a))), s)"
  using assms by (simp add: start_cases reuse_key_def)

theorem start_guards_live_key_witness:
  "fst (start_saga sample_cfg sample_time ''solve_charge'' 2 ''key-1'' sample_payload None
      (open_session (sample_db PENDING))) = Inl (CrossTenantKeyError ''key-1'' 1 2)"
  using start_guards_live_key [OF sample_payload_safe, of "''key-1''" "open_session (sample_db PENDING)" sample_key
      sample_time 2 sample_cfg "''solve_charge''" None]
  by (simp add: sample_facts open_session_def sample_key_def sample_time_def less_datetime_def dt_key_def)

text \<open>
  A key that expired, or that another operation used without a saga, can never be used again:
  the code starts over and violates a unique index, and the error is not translated. The branch that
  re-reads the winner's saga is never taken.
\<close>

theorem start_dead_key:
  assumes "validate_payload_ref_safety p = Inr ()" "idem_linked (working s)"
    and "idem_get k (working s) = Some row" "idem_get k (committed s) = Some row"
    and "ik_expires row \<le> now \<or> ik_user row = u \<and> ik_hash row = hash_body cfg (start_body ty p a) \<and> ik_saga row = None"
  shows "start_saga cfg now ty u k p a s = (Inl IntegrityError, rollback s)"
proof -
  have "reuse_key now u k (hash_body cfg (start_body ty p a)) (working s) = None"
    using assms(3,5) by (auto simp: reuse_key_def)
  then show ?thesis
    using assms(1,3,4) linked_key_taken [OF assms(2,3)]
    by (auto simp: start_cases split: option.splits)
qed

theorem start_dead_key_witness:
  "fst (start_saga sample_cfg (DateTime 2026 5 3 0) ''solve_charge'' 1 ''key-1'' sample_payload None
      (open_session (sample_db COMPLETED))) = Inl IntegrityError"
  using start_dead_key [OF sample_payload_safe, of "open_session (sample_db COMPLETED)" "''key-1''" sample_key
      "DateTime 2026 5 3 0" 1 sample_cfg "''solve_charge''" None]
  by (simp add: sample_facts open_session_def sample_key_def less_eq_datetime_def dt_key_def)

text \<open>Whatever saga a start returns belongs to the user who asked.\<close>

theorem start_same_tenant:
  assumes "idem_linked (working s)" "committed s = working s"
    and "start_saga cfg now ty u k p a s = (Inr saga, s')"
  shows "sg_user saga = u"
proof (cases "reuse_key now u k (hash_body cfg (start_body ty p a)) (working s)")
  case None
  have linked: "idem_get k (working s) = Some row \<Longrightarrow> ik_saga row = Some i \<Longrightarrow> key_taken k (working s)" for row i
    by (rule linked_key_taken [OF assms(1)])
  show ?thesis
    using assms(2,3) None linked by (auto simp: start_cases split: sum.splits option.splits if_splits)
next
  case (Some r)
  then have "r = Inr saga" using assms(3) by (auto simp: start_cases split: sum.splits)
  with Some obtain row i where "idem_get k (working s) = Some row" "ik_user row = u" "ik_saga row = Some i"
      "saga_get i (working s) = Some saga"
    by (auto simp: reuse_key_def split: option.splits if_splits)
  then show ?thesis using idem_linkedD [OF assms(1)] by fastforce
qed

theorem start_same_tenant_witness:
  "sg_user (sample_saga PENDING) = 1"
proof (rule start_same_tenant)
  show "start_saga sample_cfg sample_time ''solve_charge'' 1 ''key-1'' sample_payload None
      (open_session (sample_db PENDING)) = (Inr (sample_saga PENDING), open_session (sample_db PENDING))"
    by (simp add: start_cases sample_payload_safe reuse_key_def sample_facts open_session_def sample_key_def
        sample_time_def less_datetime_def dt_key_def hash_body_def sample_cfg_def default_settings_def)
qed (simp_all add: sample_facts open_session_def)

end
