(* ===== verification/Requests.thy ===== *)
theory Requests
  imports PayloadSafety Responses Pricing SagaOrchestrator
begin

text \<open>
  The request bodies and their validation (apps/billing-service/src/billing_service/schemas.py). A
  validator that fails makes the framework answer 422 before any handler runs; \<open>None\<close> stands for that.
\<close>

definition is_hex :: "char \<Rightarrow> bool" where
  "is_hex c \<longleftrightarrow> is_digit c \<or> (97 \<le> code_of c \<and> code_of c \<le> 102) \<or> (65 \<le> code_of c \<and> code_of c \<le> 70)"

text \<open>
  \<^verbatim>\<open>_IDEMPOTENCY_KEY_RE\<close>: groups of hexadecimal digits. As in Python, the final \<^verbatim>\<open>$\<close> also matches before
  one trailing newline.
\<close>

definition chomp :: "string \<Rightarrow> string" where
  "chomp s = (if s \<noteq> [] \<and> last s = CHR 0x0A then butlast s else s)"

fun hex_groups :: "nat list \<Rightarrow> string \<Rightarrow> bool" where
  "hex_groups [] s \<longleftrightarrow> s = []"
| "hex_groups [n] s \<longleftrightarrow> length s = n \<and> list_all is_hex s"
| "hex_groups (n # ns) s \<longleftrightarrow>
     list_all is_hex (take n s) \<and> length (take n s) = n \<and>
     (case drop n s of [] \<Rightarrow> False | c # rest \<Rightarrow> c = CHR ''-'' \<and> hex_groups ns rest)"

definition validate_idempotency_key :: "string \<Rightarrow> bool" where
  "validate_idempotency_key key \<longleftrightarrow> hex_groups [8, 4, 4, 4, 12] (chomp key)"

text \<open>\<^verbatim>\<open>_POINTER_REF_RE\<close> and the pattern of \<^verbatim>\<open>payment_ref\<close>, which pydantic matches without the newline.\<close>

definition pointer_char :: "char \<Rightarrow> bool" where
  "pointer_char c \<longleftrightarrow> is_alnum c \<or> c \<in> {CHR ''_'', CHR ''.'', CHR '':'', CHR ''-''}"

definition pointer_ref :: "nat \<Rightarrow> nat \<Rightarrow> string \<Rightarrow> bool" where
  "pointer_ref low high s \<longleftrightarrow>
     low \<le> length s \<and> length s \<le> high \<and> (case s of [] \<Rightarrow> False | c # rest \<Rightarrow> is_alnum c \<and> list_all pointer_char rest)"

record charge_request =
  cr_amount :: decimal
  cr_purpose :: string
  cr_reference :: string
  cr_max_solve_seconds :: rat
  cr_confirmed :: bool

definition PURPOSES :: "string list" where
  "PURPOSES = [''solve'', ''predict'', ''chat'', ''demo'']"

definition charge_request_ok :: "charge_request \<Rightarrow> bool" where
  "charge_request_ok r \<longleftrightarrow>
     0 < d_value (cr_amount r) \<and> cr_purpose r \<in> set PURPOSES \<and>
     0 < cr_max_solve_seconds r \<and> cr_max_solve_seconds r \<le> 600"

record estimate_request =
  er_purpose :: string
  er_max_solve_seconds :: rat

definition estimate_request_ok :: "estimate_request \<Rightarrow> bool" where
  "estimate_request_ok r \<longleftrightarrow> er_purpose r \<in> set PURPOSES \<and> 1/10 \<le> er_max_solve_seconds r \<and> er_max_solve_seconds r \<le> 600"

record topup_request =
  tr_amount :: decimal
  tr_reference :: string

text \<open>The amount is replaced by the normalised pack amount, which prints with two digits.\<close>

definition topup_create_request :: "rat \<Rightarrow> string \<Rightarrow> topup_request option" where
  "topup_create_request amount reference_id =
     (case normalize_topup_amount amount of
        Inl _ \<Rightarrow> None
      | Inr a \<Rightarrow> if 0 < a \<and> validate_idempotency_key reference_id
                then Some \<lparr>tr_amount = \<lparr>d_value = a, d_text = fmt 2 a\<rparr>, tr_reference = reference_id\<rparr>
                else None)"

record topup_confirm =
  tc_provider :: string
  tc_payment_ref :: string

definition topup_confirm_ok :: "topup_confirm \<Rightarrow> bool" where
  "topup_confirm_ok c \<longleftrightarrow>
     tc_provider c \<in> {''manual'', ''stripe'', ''wechat'', ''alipay''} \<and> pointer_ref 3 128 (tc_payment_ref c)"

record finalize_request =
  fr_elapsed :: rat
  fr_success :: bool
  fr_failure_reason :: "string option"
  fr_discount :: rat

definition finalize_request_ok :: "finalize_request \<Rightarrow> bool" where
  "finalize_request_ok r \<longleftrightarrow> 0 \<le> fr_elapsed r \<and> 0 < fr_discount r \<and> fr_discount r \<le> 1"

text \<open>\<open>AutoRefundRequest\<close> and \<open>UserCancelRefundRequest\<close>; the latter has no reason.\<close>

record refund_request =
  rr_reason :: string
  rr_source :: string
  rr_source_ref :: string
  rr_elapsed :: "rat option"

definition auto_refund_request_ok :: "refund_request \<Rightarrow> bool" where
  "auto_refund_request_ok r \<longleftrightarrow>
     rr_reason r \<in> {''failed'', ''cancelled'', ''infeasible''} \<and> pointer_ref 1 64 (rr_source r) \<and>
     pointer_ref 1 128 (rr_source_ref r) \<and> (case rr_elapsed r of None \<Rightarrow> True | Some e \<Rightarrow> 0 \<le> e)"

definition user_cancel_request_ok :: "refund_request \<Rightarrow> bool" where
  "user_cancel_request_ok r \<longleftrightarrow>
     pointer_ref 1 64 (rr_source r) \<and> pointer_ref 1 128 (rr_source_ref r) \<and>
     (case rr_elapsed r of None \<Rightarrow> True | Some e \<Rightarrow> 0 \<le> e)"

end
