(* ===== verification/Budget.thy ===== *)
theory Budget
  imports Responses Pricing
begin

text \<open>
  Monthly budget controls (apps/billing-service/src/billing_service/budget.py and the budget routes of
  routes.py): the spend of the calendar month, the alert and pause thresholds, their events, the status
  view. Every time is UTC, so \<^verbatim>\<open>as_utc\<close> is the identity. A control is a row of the table with one row
  per user; an event row of an alert or a pause is unique per user, period and type.
\<close>

definition DEFAULT_ALERT_THRESHOLD_RATIO :: rat where
  "DEFAULT_ALERT_THRESHOLD_RATIO = 8/10"

definition BUDGET_EVENT_CONFIGURED :: string where
  "BUDGET_EVENT_CONFIGURED = ''billing.budget.configured''"

definition BUDGET_EVENT_DISABLED :: string where
  "BUDGET_EVENT_DISABLED = ''billing.budget.disabled''"

definition BUDGET_EVENT_ALERTED :: string where
  "BUDGET_EVENT_ALERTED = ''billing.budget.alerted''"

definition BUDGET_EVENT_PAUSED :: string where
  "BUDGET_EVENT_PAUSED = ''billing.budget.paused''"

definition BUDGET_CHANNELS :: "string list" where
  "BUDGET_CHANNELS = [''email'', ''in_app'']"

definition BUDGET_NOTIFICATION_CHANNEL_ORDER :: "string list" where
  "BUDGET_NOTIFICATION_CHANNEL_ORDER = [''email'', ''webhook'', ''in_app'']"

lemmas budget_event_names =
  BUDGET_EVENT_CONFIGURED_def BUDGET_EVENT_DISABLED_def BUDGET_EVENT_ALERTED_def BUDGET_EVENT_PAUSED_def

record budget_period =
  bp_start :: datetime
  bp_end :: datetime

record budget_notification_preference =
  bn_channels :: "string list"
  bn_webhook_url_configured :: bool

definition current_budget_period :: "datetime \<Rightarrow> budget_period" where
  "current_budget_period now =
     (let start = DateTime (dt_year now) (dt_month now) 1 0 in
      \<lparr>bp_start = start,
       bp_end = (if dt_month start = 12 then DateTime (dt_year start + 1) 1 1 0
                 else DateTime (dt_year start) (dt_month start + 1) 1 0)\<rparr>)"

definition money :: "rat \<Rightarrow> string" where
  "money x = fmt 2 (quantize_half_up 2 x)"

definition ratio :: "rat \<Rightarrow> string" where
  "ratio x = fmt 4 (quantize_half_up 4 x)"

definition percent_used :: "rat \<Rightarrow> rat option \<Rightarrow> rat" where
  "percent_used spent budget_amount =
     (case budget_amount of None \<Rightarrow> 0 | Some b \<Rightarrow> if b \<le> 0 then 0 else spent / b)"

definition monthly_actual_spend :: "nat \<Rightarrow> budget_period \<Rightarrow> billing_db \<Rightarrow> rat" where
  "monthly_actual_spend user period db =
     quantize_half_even 4 (actual_spend_from_signed_total
       (ledger_sum (\<lambda>r. ct_user r = user \<and> ct_kind r \<in> SPEND_KINDS \<and>
          bp_start period \<le> ct_created r \<and> ct_created r < bp_end period) db))"

section \<open>The tables of budget controls and events\<close>

definition get_budget_control :: "nat \<Rightarrow> billing_db \<Rightarrow> budget_control option" where
  "get_budget_control user db = row_get bc_user user (db_budgets db)"

definition budget_put :: "budget_control \<Rightarrow> billing_db \<Rightarrow> billing_db" where
  "budget_put c db = db\<lparr>db_budgets := row_put bc_user c (db_budgets db)\<rparr>"

definition budget_add :: "budget_control \<Rightarrow> billing_db \<Rightarrow> billing_db" where
  "budget_add c db = db\<lparr>db_budgets := db_budgets db @ [c]\<rparr>"

interpretation budget_rows: keyed_store get_budget_control budget_put budget_add bc_user
  by unfold_locales
    (auto simp: get_budget_control_def budget_put_def budget_add_def row_list.get_put_same row_list.get_add
      dest: row_get_SomeD)

definition budget_notification_preference_for ::
  "nat \<Rightarrow> string \<Rightarrow> billing_db \<Rightarrow> budget_notification_preference" where
  "budget_notification_preference_for user event_type db =
     (case find (\<lambda>p. np_user p = user \<and> np_event p = event_type) (db_prefs db) of
        None \<Rightarrow> \<lparr>bn_channels = BUDGET_CHANNELS, bn_webhook_url_configured = False\<rparr>
      | Some p \<Rightarrow>
          (let enabled = [(''email'', np_email p), (''webhook'', np_webhook p), (''in_app'', np_in_app p)] in
           \<lparr>bn_channels = filter (\<lambda>c. map_of enabled c = Some True) BUDGET_NOTIFICATION_CHANNEL_ORDER,
            bn_webhook_url_configured =
              (np_webhook p \<and> (case np_webhook_url p of None \<Rightarrow> False | Some u \<Rightarrow> u \<noteq> []))\<rparr>))"

definition event_payload ::
  "budget_control \<Rightarrow> string \<Rightarrow> budget_period \<Rightarrow> rat \<Rightarrow> budget_notification_preference option \<Rightarrow> jdict" where
  "event_payload control event_type period spent pref =
     [(''budget_control_id'', JId (bc_id control)), (''user_id'', JId (bc_user control)),
      (''period_start'', JTime (bp_start period)), (''period_end'', JTime (bp_end period)),
      (''event_type'', JStr event_type),
      (''monthly_budget_amount'', JStr (money (bc_amount control))),
      (''actual_spend'', JStr (money spent)),
      (''percent_used'', JStr (ratio (percent_used spent (Some (bc_amount control))))),
      (''alert_threshold_ratio'', JStr (ratio (bc_alert_ratio control))),
      (''currency'', JStr ''CNY'')] @
     (if event_type \<in> {BUDGET_EVENT_ALERTED, BUDGET_EVENT_PAUSED} then
        (let preference = (case pref of
               None \<Rightarrow> \<lparr>bn_channels = BUDGET_CHANNELS, bn_webhook_url_configured = False\<rparr> | Some p \<Rightarrow> p)
         in [(''channels'', JList (map JStr (bn_channels preference)))] @
            (if bn_webhook_url_configured preference
             then [(''webhook_url_configured'', JBool True)] else []))
      else [])"

text \<open>The partial unique index that \<^verbatim>\<open>ON CONFLICT .. DO NOTHING\<close> refers to.\<close>

definition threshold_event_exists :: "nat \<Rightarrow> datetime \<Rightarrow> string \<Rightarrow> billing_db \<Rightarrow> bool" where
  "threshold_event_exists user start event_type db \<longleftrightarrow>
     list_ex (\<lambda>e. be_user e = user \<and> be_start e = start \<and> be_type e = event_type) (db_budget_events db)"

definition write_budget_event_once ::
  "datetime \<Rightarrow> budget_control \<Rightarrow> string \<Rightarrow> budget_period \<Rightarrow> rat \<Rightarrow> billing_db \<Rightarrow> bool \<times> billing_db" where
  "write_budget_event_once now control event_type period spent db =
     (let threshold = (event_type \<in> {BUDGET_EVENT_ALERTED, BUDGET_EVENT_PAUSED});
          pref = (if threshold
                  then Some (budget_notification_preference_for (bc_user control) event_type db) else None);
          payload = event_payload control event_type period spent pref
      in if threshold \<and> threshold_event_exists (bc_user control) (bp_start period) event_type db
         then (False, db)
         else (let event_id = db_next_id db;
                   event = \<lparr>be_id = event_id, be_user = bc_user control, be_control = bc_id control,
                            be_start = bp_start period, be_end = bp_end period, be_type = event_type,
                            be_payload = payload, be_occurred = now\<rparr>;
                   db1 = db\<lparr>db_budget_events := db_budget_events db @ [event],
                            db_next_id := Suc event_id\<rparr>
               in (True, add_outbox ''billing_budget_control'' (bc_id control) event_type
                           (dict_merge payload [(''budget_event_id'', JId event_id)])
                           [(''compensation'', JStr ''none'')] now db1)))"

section \<open>Evaluating the thresholds\<close>

definition reset_pause :: "datetime \<Rightarrow> budget_control \<Rightarrow> budget_control" where
  "reset_pause now control =
     control\<lparr>bc_status := ''active'', bc_paused_at := None, bc_pause_start := None, bc_updated := now\<rparr>"

text \<open>A pause of an earlier period ends.\<close>

definition lapse_pause :: "datetime \<Rightarrow> budget_period \<Rightarrow> budget_control \<Rightarrow> budget_control" where
  "lapse_pause now period control =
     (if bc_status control = ''paused'' \<and> bc_pause_start control \<noteq> Some (bp_start period)
      then reset_pause now control else control)"

definition evaluate_budget_thresholds ::
  "datetime \<Rightarrow> nat \<Rightarrow> budget_control option \<Rightarrow> billing_db \<Rightarrow> budget_control option \<times> billing_db" where
  "evaluate_budget_thresholds now user given db =
     (let period = current_budget_period now;
          found = (case given of None \<Rightarrow> get_budget_control user db | Some c \<Rightarrow> Some c)
      in case found of
           None \<Rightarrow> (None, db)
         | Some control \<Rightarrow>
             if \<not> bc_enabled control then (Some control, db)
             else
               (let spend = monthly_actual_spend user period db;
                    used = percent_used spend (Some (bc_amount control));
                    control1 = lapse_pause now period control;
                    db1 = budget_put control1 db;
                    db2 = (if bc_alert_ratio control1 \<le> used
                           then snd (write_budget_event_once now control1 BUDGET_EVENT_ALERTED period spend db1)
                           else db1)
                in if 1 \<le> used then
                     (let control2 = (if bc_status control1 \<noteq> ''paused'' \<or>
                                         bc_pause_start control1 \<noteq> Some (bp_start period)
                                      then control1\<lparr>bc_status := ''paused'', bc_paused_at := Some now,
                                                    bc_pause_start := Some (bp_start period),
                                                    bc_updated := now\<rparr>
                                      else control1);
                          db3 = budget_put control2 db2
                      in (Some control2,
                          snd (write_budget_event_once now control2 BUDGET_EVENT_PAUSED period spend db3)))
                   else (Some control1, db2)))"

text \<open>
  \<^verbatim>\<open>configure_budget\<close>; \<open>None\<close> is the failed assertion of an enabled budget without an amount. The
  amount column is \<^verbatim>\<open>NUMERIC(12, 2)\<close>.
\<close>

definition new_budget_control :: "datetime \<Rightarrow> nat \<Rightarrow> rat option \<Rightarrow> bool \<Rightarrow> billing_db \<Rightarrow> budget_control" where
  "new_budget_control now user amount enabled db =
     \<lparr>bc_id = db_next_id db, bc_user = user,
      bc_amount = pg_numeric 2 (case amount of None \<Rightarrow> 1 | Some a \<Rightarrow> if a = 0 then 1 else a),
      bc_alert_ratio = DEFAULT_ALERT_THRESHOLD_RATIO, bc_enabled = enabled, bc_status = ''active'',
      bc_paused_at = None, bc_pause_start = None, bc_created = now, bc_updated = now\<rparr>"

definition configure_budget ::
  "datetime \<Rightarrow> nat \<Rightarrow> rat option \<Rightarrow> bool \<Rightarrow> billing_db \<Rightarrow> budget_control option \<times> billing_db" where
  "configure_budget now user amount enabled db =
     (let period = current_budget_period now;
          opened = (case get_budget_control user db of
                      None \<Rightarrow> (let c = new_budget_control now user amount enabled db
                               in (c, budget_add c (db\<lparr>db_next_id := Suc (db_next_id db)\<rparr>)))
                    | Some c \<Rightarrow> (c, db));
          control = fst opened; db0 = snd opened
      in if \<not> enabled then
           (let control1 = (reset_pause now control)\<lparr>bc_enabled := False\<rparr>;
                db1 = budget_put control1 db0;
                spend = monthly_actual_spend user period db1
            in (Some control1,
                snd (write_budget_event_once now control1 BUDGET_EVENT_DISABLED period spend db1)))
         else (case amount of
             None \<Rightarrow> (None, db0)
           | Some a \<Rightarrow>
               (let control1 = (reset_pause now control)\<lparr>bc_enabled := True, bc_amount := pg_numeric 2 a\<rparr>;
                    db1 = budget_put control1 db0;
                    spend = monthly_actual_spend user period db1;
                    db2 = snd (write_budget_event_once now control1 BUDGET_EVENT_CONFIGURED period spend db1)
                in evaluate_budget_thresholds now user (Some control1) db2)))"

definition current_budget_is_paused :: "datetime \<Rightarrow> nat \<Rightarrow> billing_db \<Rightarrow> budget_control option" where
  "current_budget_is_paused now user db =
     (let period = current_budget_period now in
      case get_budget_control user db of
        None \<Rightarrow> None
      | Some control \<Rightarrow>
          if \<not> bc_enabled control then None
          else if bc_status control = ''paused'' \<and> bc_pause_start control = Some (bp_start period)
          then Some control else None)"

section \<open>The status view\<close>

text \<open>The order of two events with the same time is that of their identifiers.\<close>

definition recent_budget_events :: "nat \<Rightarrow> nat \<Rightarrow> billing_db \<Rightarrow> budget_event list" where
  "recent_budget_events user count db =
     take count (rev (sort_key (\<lambda>e. (be_occurred e, be_id e))
       (filter (\<lambda>e. be_user e = user) (db_budget_events db))))"

record event_summary =
  es_id :: nat
  es_type :: string
  es_start :: datetime
  es_end :: datetime
  es_occurred :: datetime
  es_budget_amount :: json
  es_actual_spend :: json
  es_percent_used :: json
  es_channels :: "json list"

definition event_summary :: "budget_event \<Rightarrow> event_summary" where
  "event_summary event =
     (let payload = be_payload event;
          get = (\<lambda>k d. case dict_get k payload of None \<Rightarrow> d | Some v \<Rightarrow> v);
          raw_channels = (case get ''channels'' (JList []) of JList cs \<Rightarrow> cs | _ \<Rightarrow> [])
      in \<lparr>es_id = be_id event, es_type = be_type event, es_start = be_start event, es_end = be_end event,
          es_occurred = be_occurred event,
          es_budget_amount = get ''monthly_budget_amount'' (JStr ''0.00''),
          es_actual_spend = get ''actual_spend'' (JStr ''0.00''),
          es_percent_used = get ''percent_used'' (JStr ''0.0000''),
          es_channels = filter (\<lambda>c. c \<in> {JStr ''email'', JStr ''webhook'', JStr ''in_app''}) raw_channels\<rparr>)"

record budget_status =
  bs_control :: "nat option"
  bs_enabled :: bool
  bs_status :: string
  bs_amount :: "string option"
  bs_alert_ratio :: string
  bs_start :: datetime
  bs_end :: datetime
  bs_actual_spend :: string
  bs_percent_used :: string
  bs_alert_reached :: bool
  bs_paused :: bool
  bs_paused_at :: "datetime option"
  bs_pause_start :: "datetime option"
  bs_events :: "event_summary list"

definition budget_status_response :: "datetime \<Rightarrow> nat \<Rightarrow> billing_db \<Rightarrow> budget_status" where
  "budget_status_response now user db =
     (let period = current_budget_period now;
          spend = monthly_actual_spend user period db;
          events = map event_summary (recent_budget_events user 5 db)
      in case get_budget_control user db of
           None \<Rightarrow>
             \<lparr>bs_control = None, bs_enabled = False, bs_status = ''not_configured'', bs_amount = None,
              bs_alert_ratio = ratio DEFAULT_ALERT_THRESHOLD_RATIO, bs_start = bp_start period,
              bs_end = bp_end period, bs_actual_spend = money spend, bs_percent_used = ''0.0000'',
              bs_alert_reached = False, bs_paused = False, bs_paused_at = None, bs_pause_start = None,
              bs_events = events\<rparr>
         | Some control \<Rightarrow>
             (let used = percent_used spend (Some (bc_amount control));
                  current_pause = (bc_enabled control \<and> bc_status control = ''paused'' \<and>
                                   bc_pause_start control = Some (bp_start period))
              in \<lparr>bs_control = Some (bc_id control), bs_enabled = bc_enabled control,
                  bs_status = (if \<not> bc_enabled control then ''disabled''
                               else if current_pause then ''paused'' else ''active''),
                  bs_amount = Some (money (bc_amount control)),
                  bs_alert_ratio = ratio (bc_alert_ratio control), bs_start = bp_start period,
                  bs_end = bp_end period, bs_actual_spend = money spend, bs_percent_used = ratio used,
                  bs_alert_reached = (bc_enabled control \<and> bc_alert_ratio control \<le> used),
                  bs_paused = current_pause,
                  bs_paused_at = (if current_pause then bc_paused_at control else None),
                  bs_pause_start = (if current_pause then bc_pause_start control else None),
                  bs_events = events\<rparr>))"

section \<open>The budget routes\<close>

text \<open>
  \<^verbatim>\<open>BudgetUpdateRequest\<close>: the amount rounded to cents and bounded, and required when the budget is
  enabled. \<open>None\<close> is the validation error (HTTP 422).
\<close>

definition budget_update_request :: "rat option \<Rightarrow> bool \<Rightarrow> (rat option \<times> bool) option" where
  "budget_update_request v enabled =
     (case v of
        None \<Rightarrow> if enabled then None else Some (None, enabled)
      | Some x \<Rightarrow>
          (let amount = quantize_half_even 2 x in
           if amount < 1 \<or> amount > 999999999/100 then None else Some (Some amount, enabled)))"

definition budget_validation_response :: "'a outcome" where
  "budget_validation_response =
     Problem (billing_problem_response ''Invalid Budget Request'' 422
       [''errors.422.invalid_budget_request''] None ''about:blank'')"

text \<open>The body of the request: not JSON, or an amount and a flag.\<close>

definition put_budget ::
  "datetime \<Rightarrow> nat \<Rightarrow> (rat option \<times> bool) option \<Rightarrow> billing_db \<Rightarrow> budget_status outcome \<times> billing_db" where
  "put_budget now user body db =
     (case body of
        None \<Rightarrow> (problem_response ''Invalid Budget Request'' 422, db)
      | Some (v, enabled) \<Rightarrow>
          (case budget_update_request v enabled of
             None \<Rightarrow> (budget_validation_response, db)
           | Some (amount, en) \<Rightarrow>
               (case configure_budget now user amount en db of
                  (None, _) \<Rightarrow> (ServerError, db)
                | (Some _, db') \<Rightarrow> (Returned (budget_status_response now user db'), db'))))"

definition get_budget :: "datetime \<Rightarrow> nat \<Rightarrow> billing_db \<Rightarrow> budget_status outcome" where
  "get_budget now user db = Returned (budget_status_response now user db)"

section \<open>What the operations leave alone\<close>

lemma write_once_frame [simp]:
  "db_ledger (snd (write_budget_event_once now c ty p sp db)) = db_ledger db"
  "db_sagas (snd (write_budget_event_once now c ty p sp db)) = db_sagas db"
  "db_idem (snd (write_budget_event_once now c ty p sp db)) = db_idem db"
  "db_budgets (snd (write_budget_event_once now c ty p sp db)) = db_budgets db"
  "db_subs (snd (write_budget_event_once now c ty p sp db)) = db_subs db"
  "db_costs (snd (write_budget_event_once now c ty p sp db)) = db_costs db"
  by (simp_all add: write_budget_event_once_def Let_def)

lemma budget_put_frame [simp]:
  "db_ledger (budget_put c db) = db_ledger db" "db_sagas (budget_put c db) = db_sagas db"
  "db_idem (budget_put c db) = db_idem db" "db_outbox (budget_put c db) = db_outbox db"
  "db_budget_events (budget_put c db) = db_budget_events db" "db_subs (budget_put c db) = db_subs db"
  "db_next_id (budget_put c db) = db_next_id db" "db_costs (budget_put c db) = db_costs db"
  by (simp_all add: budget_put_def)

lemma budget_add_frame [simp]:
  "db_ledger (budget_add c db) = db_ledger db" "db_sagas (budget_add c db) = db_sagas db"
  "db_idem (budget_add c db) = db_idem db" "db_outbox (budget_add c db) = db_outbox db"
  "db_budget_events (budget_add c db) = db_budget_events db" "db_subs (budget_add c db) = db_subs db"
  "db_next_id (budget_add c db) = db_next_id db" "db_costs (budget_add c db) = db_costs db"
  by (simp_all add: budget_add_def)

text \<open>What no budget operation writes: the tables the ledger properties are about.\<close>

definition same_money_tables :: "billing_db \<Rightarrow> billing_db \<Rightarrow> bool" where
  "same_money_tables db db' \<longleftrightarrow> db_ledger db' = db_ledger db \<and> db_sagas db' = db_sagas db \<and>
     db_idem db' = db_idem db \<and> db_subs db' = db_subs db \<and> db_costs db' = db_costs db"

lemma evaluate_same_money: "same_money_tables db (snd (evaluate_budget_thresholds now user g db))"
  by (simp add: evaluate_budget_thresholds_def same_money_tables_def Let_def split: option.split)

lemma configure_same_money: "same_money_tables db (snd (configure_budget now user a en db))"
  using evaluate_same_money
  by (auto simp: configure_budget_def Let_def same_money_tables_def split: option.split)

lemma spend_cong: "db_ledger db' = db_ledger db \<Longrightarrow> monthly_actual_spend u p db' = monthly_actual_spend u p db"
  by (simp add: monthly_actual_spend_def ledger_sum_def)

lemma spend_frame [simp]:
  "monthly_actual_spend u p (snd (write_budget_event_once now c ty p' sp db)) = monthly_actual_spend u p db"
  "monthly_actual_spend u p (budget_put c db) = monthly_actual_spend u p db"
  "monthly_actual_spend u p (budget_add c db) = monthly_actual_spend u p db"
  "monthly_actual_spend u p (db\<lparr>db_next_id := n\<rparr>) = monthly_actual_spend u p db"
  by (rule spend_cong; simp)+

lemma control_frame [simp]:
  "get_budget_control u (snd (write_budget_event_once now c ty p sp db)) = get_budget_control u db"
  "get_budget_control u (db\<lparr>db_next_id := n\<rparr>) = get_budget_control u db"
  by (simp_all add: get_budget_control_def)

lemma spend_nonneg: "0 \<le> monthly_actual_spend u p db"
  unfolding monthly_actual_spend_def quantize_half_even_def actual_spend_from_signed_total_def
  by (rule half_even.quantize_nonneg) simp

lemma used_reaches: "0 < b \<Longrightarrow> 1 \<le> percent_used sp (Some b) \<longleftrightarrow> b \<le> sp"
  by (simp add: percent_used_def le_divide_eq)

section \<open>Pausing\<close>

definition paused_in :: "budget_period \<Rightarrow> budget_control \<Rightarrow> bool" where
  "paused_in period c \<longleftrightarrow> bc_status c = ''paused'' \<and> bc_pause_start c = Some (bp_start period)"

lemma is_paused_iff:
  "current_budget_is_paused now user db \<noteq> None \<longleftrightarrow>
     (\<exists>c. get_budget_control user db = Some c \<and> bc_enabled c \<and> paused_in (current_budget_period now) c)"
  by (auto simp: current_budget_is_paused_def paused_in_def Let_def split: option.splits)

lemma reset_pause_fields [simp]:
  "bc_user (reset_pause now c) = bc_user c" "bc_amount (reset_pause now c) = bc_amount c"
  "bc_enabled (reset_pause now c) = bc_enabled c" "bc_alert_ratio (reset_pause now c) = bc_alert_ratio c"
  "bc_status (reset_pause now c) = ''active''" "bc_id (reset_pause now c) = bc_id c"
  "bc_paused_at (reset_pause now c) = None" "bc_pause_start (reset_pause now c) = None"
  by (simp_all add: reset_pause_def)

lemma lapse_pause_fields [simp]:
  "bc_user (lapse_pause now p c) = bc_user c" "bc_amount (lapse_pause now p c) = bc_amount c"
  "bc_enabled (lapse_pause now p c) = bc_enabled c" "bc_alert_ratio (lapse_pause now p c) = bc_alert_ratio c"
  "bc_id (lapse_pause now p c) = bc_id c"
  by (simp_all add: lapse_pause_def)

lemma lapse_pause_paused [simp]: "paused_in p (lapse_pause now p c) = paused_in p c"
  by (auto simp: lapse_pause_def paused_in_def)

lemma paused_in_set [simp]:
  "paused_in p (c\<lparr>bc_status := ''paused'', bc_paused_at := x, bc_pause_start := Some (bp_start p), bc_updated := y\<rparr>)"
  by (simp add: paused_in_def)

lemma lapse_pause_stable: "paused_in p c \<or> bc_status c \<noteq> ''paused'' \<Longrightarrow> lapse_pause now p c = c"
  by (auto simp: lapse_pause_def paused_in_def)

lemma lapse_pause_result: "paused_in p (lapse_pause now p c) \<or> bc_status (lapse_pause now p c) \<noteq> ''paused''"
  by (auto simp: lapse_pause_def paused_in_def)

text \<open>The control an evaluation ends with.\<close>

definition evaluated :: "datetime \<Rightarrow> rat \<Rightarrow> budget_control \<Rightarrow> budget_control" where
  "evaluated now spend c =
     (let period = current_budget_period now;
          c1 = lapse_pause now period c
      in if 1 \<le> percent_used spend (Some (bc_amount c)) \<and> \<not> paused_in period c1
         then c1\<lparr>bc_status := ''paused'', bc_paused_at := Some now,
                 bc_pause_start := Some (bp_start period), bc_updated := now\<rparr>
         else c1)"

lemma evaluated_fields [simp]:
  "bc_user (evaluated now sp c) = bc_user c" "bc_amount (evaluated now sp c) = bc_amount c"
  "bc_enabled (evaluated now sp c) = bc_enabled c" "bc_alert_ratio (evaluated now sp c) = bc_alert_ratio c"
  by (simp_all add: evaluated_def Let_def)

lemma evaluated_paused:
  "paused_in (current_budget_period now) (evaluated now sp c) \<longleftrightarrow>
     paused_in (current_budget_period now) c \<or> 1 \<le> percent_used sp (Some (bc_amount c))"
  by (auto simp: evaluated_def Let_def)

lemma evaluated_result:
  "paused_in (current_budget_period now) (evaluated now sp c) \<or> bc_status (evaluated now sp c) \<noteq> ''paused''"
  using lapse_pause_result [of "current_budget_period now" now c]
  by (auto simp: evaluated_def Let_def)

lemma evaluated_idem: "evaluated now sp (evaluated now sp c) = evaluated now sp c"
proof -
  have "lapse_pause now (current_budget_period now) (evaluated now sp c) = evaluated now sp c"
    using evaluated_result by (rule lapse_pause_stable)
  then show ?thesis
    by (subst evaluated_def) (auto simp: Let_def evaluated_paused)
qed

lemma evaluate_control:
  assumes c: "get_budget_control user db = Some c" and "bc_enabled c" and "g = None \<or> g = Some c"
    and sp_def: "sp = monthly_actual_spend user (current_budget_period now) db"
  shows "fst (evaluate_budget_thresholds now user g db) = Some (evaluated now sp c)"
    and "get_budget_control user (snd (evaluate_budget_thresholds now user g db)) = Some (evaluated now sp c)"
proof -
  have u: "bc_user c = user" using c budget_rows.get_key by blast
  have found: "(case g of None \<Rightarrow> get_budget_control user db | Some c \<Rightarrow> Some c) = Some c"
    using assms(1,3) by auto
  show "fst (evaluate_budget_thresholds now user g db) = Some (evaluated now sp c)"
    using found assms(2)
    by (auto simp: evaluate_budget_thresholds_def Let_def evaluated_def paused_in_def sp_def)
  have put: "get_budget_control user (budget_put c' db') = Some c'"
    if "bc_user c' = user" "get_budget_control user db' = Some c''" for c' c'' db'
    using budget_rows.get_put_same [of c' db' c''] that by simp
  show "get_budget_control user (snd (evaluate_budget_thresholds now user g db)) = Some (evaluated now sp c)"
    using found assms(2) c u put
    by (auto simp: evaluate_budget_thresholds_def Let_def evaluated_def paused_in_def sp_def)
qed

text \<open>
  After an evaluation charges are blocked for the rest of the month exactly when they already were
  or the month's spend has reached the budget.
\<close>

theorem evaluate_pauses_iff:
  assumes "get_budget_control user db = Some c" "bc_enabled c" "0 < bc_amount c"
  shows "current_budget_is_paused now user (snd (evaluate_budget_thresholds now user None db)) \<noteq> None \<longleftrightarrow>
     current_budget_is_paused now user db \<noteq> None \<or>
     bc_amount c \<le> monthly_actual_spend user (current_budget_period now) db"
proof -
  have "get_budget_control user (snd (evaluate_budget_thresholds now user None db)) =
      Some (evaluated now (monthly_actual_spend user (current_budget_period now) db) c)"
    by (rule evaluate_control(2) [OF assms(1,2) _ refl]) simp
  then show ?thesis
    unfolding is_paused_iff using assms by (simp add: evaluated_paused used_reaches)
qed

lemma write_once_idem:
  assumes "ty \<in> {BUDGET_EVENT_ALERTED, BUDGET_EVENT_PAUSED}"
    and "threshold_event_exists (bc_user c) (bp_start p) ty db"
  shows "write_budget_event_once now c ty p sp db = (False, db)"
  using assms by (simp add: write_budget_event_once_def Let_def)

lemma write_once_exists:
  "threshold_event_exists (bc_user c) (bp_start p) ty (snd (write_budget_event_once now c ty p sp db))"
  by (auto simp: write_budget_event_once_def Let_def threshold_event_exists_def add_outbox_def)

lemma write_once_keeps:
  "threshold_event_exists u st ty' db \<Longrightarrow>
   threshold_event_exists u st ty' (snd (write_budget_event_once now c ty p sp db))"
  by (auto simp: write_budget_event_once_def Let_def threshold_event_exists_def add_outbox_def)

lemma exists_put [simp]: "threshold_event_exists u st ty (budget_put c db) = threshold_event_exists u st ty db"
  by (simp add: threshold_event_exists_def)

lemma budget_put_same:
  assumes "get_budget_control (bc_user c) db = Some c" "distinct (map bc_user (db_budgets db))"
  shows "budget_put c db = db"
proof -
  have "row_put bc_user c (db_budgets db) = db_budgets db"
    unfolding row_put_def
    using assms(1) row_get_in_set [OF assms(2)]
    by (intro map_idI) (auto simp: get_budget_control_def, metis option.inject)
  then show ?thesis by (simp add: budget_put_def)
qed

lemma evaluate_event_alerted:
  assumes "get_budget_control user db = Some c" "bc_enabled c"
    and "bc_alert_ratio c \<le> percent_used (monthly_actual_spend user (current_budget_period now) db) (Some (bc_amount c))"
  shows "threshold_event_exists user (bp_start (current_budget_period now)) BUDGET_EVENT_ALERTED
    (snd (evaluate_budget_thresholds now user None db))"
proof -
  have "bc_user c = user" using assms(1) budget_rows.get_key by blast
  then have "threshold_event_exists user (bp_start (current_budget_period now)) BUDGET_EVENT_ALERTED
      (snd (write_budget_event_once now (lapse_pause now (current_budget_period now) c) BUDGET_EVENT_ALERTED
        (current_budget_period now) sp db'))" for sp db'
    using write_once_exists [of "lapse_pause now (current_budget_period now) c"] by simp
  then show ?thesis
    using assms write_once_keeps by (simp add: evaluate_budget_thresholds_def Let_def)
qed

lemma evaluate_event_paused:
  assumes "get_budget_control user db = Some c" "bc_enabled c"
    and "1 \<le> percent_used (monthly_actual_spend user (current_budget_period now) db) (Some (bc_amount c))"
  shows "threshold_event_exists user (bp_start (current_budget_period now)) BUDGET_EVENT_PAUSED
    (snd (evaluate_budget_thresholds now user None db))"
proof -
  have u: "bc_user c = user" using assms(1) budget_rows.get_key by blast
  have "bc_user c' = user \<Longrightarrow> threshold_event_exists user (bp_start (current_budget_period now)) BUDGET_EVENT_PAUSED
      (snd (write_budget_event_once now c' BUDGET_EVENT_PAUSED (current_budget_period now) sp db'))" for c' sp db'
    using write_once_exists by metis
  then show ?thesis
    using assms u by (simp add: evaluate_budget_thresholds_def Let_def)
qed

lemma evaluate_budget_users [simp]:
  "map bc_user (db_budgets (snd (evaluate_budget_thresholds now user g db))) = map bc_user (db_budgets db)"
  by (simp add: evaluate_budget_thresholds_def Let_def budget_put_def split: option.split)

text \<open>
  Evaluating twice at the same time changes nothing the second time: no second alert, no second
  outbox event, no new pause.
\<close>

theorem evaluate_idempotent:
  assumes c: "get_budget_control user db = Some c" "bc_enabled c" and d: "distinct (map bc_user (db_budgets db))"
  shows "snd (evaluate_budget_thresholds now user None (snd (evaluate_budget_thresholds now user None db))) =
    snd (evaluate_budget_thresholds now user None db)"
proof -
  let ?p = "current_budget_period now"
  define sp where "sp = monthly_actual_spend user ?p db"
  define db' where "db' = snd (evaluate_budget_thresholds now user None db)"
  have c': "get_budget_control user db' = Some (evaluated now sp c)"
    unfolding db'_def by (rule evaluate_control(2) [OF c _ sp_def]) simp
  have u: "bc_user c = user" using c(1) budget_rows.get_key by blast
  have sp': "monthly_actual_spend user ?p db' = sp"
    using evaluate_same_money unfolding db'_def sp_def same_money_tables_def by (intro spend_cong) blast
  have same: "lapse_pause now ?p (evaluated now sp c) = evaluated now sp c"
    using evaluated_result by (rule lapse_pause_stable)
  have put: "budget_put (evaluated now sp c) db' = db'"
    by (rule budget_put_same) (use c' u d in \<open>simp_all add: db'_def\<close>)
  have alerted: "write_budget_event_once now (evaluated now sp c) BUDGET_EVENT_ALERTED ?p sp db' = (False, db')"
    if "bc_alert_ratio c \<le> percent_used sp (Some (bc_amount c))"
    using evaluate_event_alerted [OF c, of now] that u
    by (intro write_once_idem) (simp_all flip: sp_def db'_def)
  have paused: "write_budget_event_once now (evaluated now sp c) BUDGET_EVENT_PAUSED ?p sp db' = (False, db')"
    if "1 \<le> percent_used sp (Some (bc_amount c))"
    using evaluate_event_paused [OF c, of now] that u
    by (intro write_once_idem) (simp_all flip: sp_def db'_def)
  moreover have "paused_in ?p (evaluated now sp c)" if "1 \<le> percent_used sp (Some (bc_amount c))"
    using that by (simp add: evaluated_paused)
  ultimately show ?thesis
    unfolding db'_def [symmetric]
    using c' c(2) alerted put same
    by (auto simp: evaluate_budget_thresholds_def Let_def sp' paused_in_def)
qed

lemma configured_control:
  assumes "configure_budget now user (Some a) True db = (r, db')"
  obtains c db1 where "bc_status c = ''active''" "bc_enabled c" "bc_amount c = pg_numeric 2 a" "bc_user c = user"
    "get_budget_control user db1 = Some c" "db_ledger db1 = db_ledger db"
    "(r, db') = evaluate_budget_thresholds now user (Some c) db1"
proof -
  define opened where "opened = (case get_budget_control user db of
                      None \<Rightarrow> (let c = new_budget_control now user (Some a) True db
                               in (c, budget_add c (db\<lparr>db_next_id := Suc (db_next_id db)\<rparr>)))
                    | Some c \<Rightarrow> (c, db))"
  define c where "c = (reset_pause now (fst opened))\<lparr>bc_enabled := True, bc_amount := pg_numeric 2 a\<rparr>"
  have u: "bc_user (fst opened) = user"
    using budget_rows.get_key by (auto simp: opened_def new_budget_control_def Let_def split: option.split)
  have known: "get_budget_control user (snd opened) = Some (fst opened)"
    using budget_rows.get_add [of "new_budget_control now user (Some a) True db" "db\<lparr>db_next_id := Suc (db_next_id db)\<rparr>" user]
    by (auto simp: opened_def Let_def new_budget_control_def split: option.split)
  then have "get_budget_control user (budget_put c (snd opened)) = Some c"
    using budget_rows.get_put_same [of c "snd opened" "fst opened"] u by (simp add: c_def)
  moreover have "db_ledger (snd opened) = db_ledger db"
    by (auto simp: opened_def Let_def split: option.split)
  ultimately show ?thesis
    using assms u
    by (intro that [of c "snd (write_budget_event_once now c BUDGET_EVENT_CONFIGURED (current_budget_period now)
          (monthly_actual_spend user (current_budget_period now) (budget_put c (snd opened))) (budget_put c (snd opened)))"])
      (simp_all add: configure_budget_def Let_def c_def opened_def)
qed

text \<open>
  Setting a budget lifts any pause of the month, unless the month's spend already reaches the new
  amount: then charges stay blocked.
\<close>

theorem configure_pauses_iff:
  assumes "configure_budget now user (Some a) True db = (r, db')" and "0 < pg_numeric 2 a"
  shows "current_budget_is_paused now user db' \<noteq> None \<longleftrightarrow>
    pg_numeric 2 a \<le> monthly_actual_spend user (current_budget_period now) db"
proof -
  obtain c db1 where c: "bc_status c = ''active''" "bc_enabled c" "bc_amount c = pg_numeric 2 a"
      "get_budget_control user db1 = Some c" "db_ledger db1 = db_ledger db"
      "(r, db') = evaluate_budget_thresholds now user (Some c) db1"
    using configured_control [OF assms(1)] by metis
  have "get_budget_control user db' =
      Some (evaluated now (monthly_actual_spend user (current_budget_period now) db1) c)"
    using evaluate_control(2) [OF c(4,2) _ refl, of "Some c" now] c(6) by (metis snd_conv)
  then show ?thesis
    unfolding is_paused_iff using c assms(2) spend_cong [OF c(5)]
    by (simp add: evaluated_paused used_reaches) (simp add: paused_in_def)
qed

section \<open>The constraints of the tables\<close>

text \<open>
  The CHECK constraints and unique indexes of infra/local-init/12-billing-budget.sql: one control per
  user, amounts in range, a paused control has its pause fields, and at most one alert and one pause
  event per user and month.
\<close>

definition control_ok :: "budget_control \<Rightarrow> bool" where
  "control_ok c \<longleftrightarrow> 1 \<le> bc_amount c \<and> bc_amount c \<le> 999999999/100 \<and> 0 < bc_alert_ratio c \<and> bc_alert_ratio c < 1 \<and>
     (bc_status c = ''active'' \<or> bc_status c = ''paused'' \<and> bc_paused_at c \<noteq> None \<and> bc_pause_start c \<noteq> None)"

definition threshold_keys :: "billing_db \<Rightarrow> (nat \<times> datetime \<times> string) list" where
  "threshold_keys db = map (\<lambda>e. (be_user e, be_start e, be_type e))
     (filter (\<lambda>e. be_type e \<in> {BUDGET_EVENT_ALERTED, BUDGET_EVENT_PAUSED}) (db_budget_events db))"

definition budgets_ok :: "billing_db \<Rightarrow> bool" where
  "budgets_ok db \<longleftrightarrow> distinct (map bc_user (db_budgets db)) \<and> list_all control_ok (db_budgets db) \<and>
     distinct (threshold_keys db)"

lemma budgets_ok_put: "budgets_ok db \<Longrightarrow> control_ok c \<Longrightarrow> budgets_ok (budget_put c db)"
  by (auto simp: budgets_ok_def threshold_keys_def budget_put_def list_all_iff dest: in_set_put)

lemma budgets_ok_event: "budgets_ok db \<Longrightarrow> budgets_ok (snd (write_budget_event_once now c ty p sp db))"
proof (cases "threshold_event_exists (bc_user c) (bp_start p) ty db")
  case True
  assume "budgets_ok db"
  then show ?thesis
    using write_once_idem [OF _ True]
    by (cases "ty \<in> {BUDGET_EVENT_ALERTED, BUDGET_EVENT_PAUSED}")
      (auto simp: write_budget_event_once_def Let_def budgets_ok_def threshold_keys_def add_outbox_def)
next
  case False
  assume "budgets_ok db"
  with False show ?thesis
    by (auto simp: write_budget_event_once_def Let_def budgets_ok_def threshold_keys_def add_outbox_def
        threshold_event_exists_def list_ex_iff)
qed

lemma control_ok_lapse: "control_ok c \<Longrightarrow> control_ok (lapse_pause now p c)"
  by (auto simp: lapse_pause_def reset_pause_def control_ok_def)

lemma control_ok_pause:
  "control_ok c \<Longrightarrow> control_ok (c\<lparr>bc_status := ''paused'', bc_paused_at := Some x, bc_pause_start := Some y, bc_updated := z\<rparr>)"
  by (auto simp: control_ok_def)

lemma budgets_ok_evaluate:
  assumes "budgets_ok db" "g = None \<or> (\<exists>c. g = Some c \<and> control_ok c)"
  shows "budgets_ok (snd (evaluate_budget_thresholds now user g db))"
proof -
  have known: "control_ok c" if "get_budget_control user db = Some c" for c
    using that assms(1) by (auto simp: budgets_ok_def get_budget_control_def list_all_iff dest!: row_get_SomeD)
  show ?thesis
    using assms known
    by (auto simp: evaluate_budget_thresholds_def Let_def split: option.split
        intro!: budgets_ok_event budgets_ok_put control_ok_lapse control_ok_pause)
qed

lemma budgets_ok_next_id [simp]: "budgets_ok (db\<lparr>db_next_id := n\<rparr>) = budgets_ok db"
  by (simp add: budgets_ok_def threshold_keys_def)

lemma budgets_ok_add:
  "budgets_ok db \<Longrightarrow> control_ok c \<Longrightarrow> get_budget_control (bc_user c) db = None \<Longrightarrow> budgets_ok (budget_add c db)"
  by (auto simp: budgets_ok_def budget_add_def threshold_keys_def get_budget_control_def row_get_None_iff)

lemma control_ok_configured:
  "control_ok c \<Longrightarrow> 1 \<le> a \<Longrightarrow> a \<le> 999999999/100 \<Longrightarrow>
   control_ok ((reset_pause now c)\<lparr>bc_enabled := en, bc_amount := a\<rparr>)"
  "control_ok c \<Longrightarrow> control_ok ((reset_pause now c)\<lparr>bc_enabled := en\<rparr>)"
  by (auto simp: control_ok_def)

lemma budget_update_request_amount:
  assumes "budget_update_request v en = Some (amount, en')"
  shows "en' = en" "amount = None \<Longrightarrow> \<not> en"
    "amount = Some a \<Longrightarrow> 1 \<le> a \<and> a \<le> 999999999/100 \<and> pg_numeric 2 a = a"
  using assms half_even.quantize_scale
  by (auto simp: budget_update_request_def Let_def quantize_half_even_def
      intro!: pg_numeric_exact split: option.splits if_splits)

lemma new_control_ok:
  assumes "budget_update_request v en = Some (amount, en)"
  shows "control_ok (new_budget_control now user amount en db)"
proof (cases amount)
  case None
  have "pg_numeric 2 1 = 1" by (rule pg_numeric_exact) (simp add: has_scale_def)
  with None show ?thesis by (simp add: control_ok_def new_budget_control_def DEFAULT_ALERT_THRESHOLD_RATIO_def)
next
  case (Some a)
  then show ?thesis
    using budget_update_request_amount(3) [OF assms, of a]
    by (auto simp: control_ok_def new_budget_control_def DEFAULT_ALERT_THRESHOLD_RATIO_def)
qed

lemma budgets_ok_configure:
  assumes "budgets_ok db" and req: "budget_update_request v en = Some (amount, en)"
  shows "budgets_ok (snd (configure_budget now user amount en db))"
    and "fst (configure_budget now user amount en db) \<noteq> None"
proof -
  define opened where "opened = (case get_budget_control user db of
                      None \<Rightarrow> (let c = new_budget_control now user amount en db
                               in (c, budget_add c (db\<lparr>db_next_id := Suc (db_next_id db)\<rparr>)))
                    | Some c \<Rightarrow> (c, db))"
  have c: "control_ok (fst opened)"
    using new_control_ok [OF req] assms(1)
    by (auto simp: opened_def Let_def budgets_ok_def get_budget_control_def list_all_iff
        split: option.split dest!: row_get_SomeD)
  have db0: "budgets_ok (snd opened)"
    using new_control_ok [OF req] assms(1)
    by (auto simp: opened_def Let_def new_budget_control_def split: option.split intro!: budgets_ok_add)
  show "budgets_ok (snd (configure_budget now user amount en db))"
    using c db0 budget_update_request_amount(2,3) [OF req]
    by (auto simp: configure_budget_def Let_def opened_def [symmetric] split: option.split
        intro!: budgets_ok_event budgets_ok_put budgets_ok_evaluate control_ok_configured)
  show "fst (configure_budget now user amount en db) \<noteq> None"
    using budget_update_request_amount(2) [OF req]
    by (auto simp: configure_budget_def evaluate_budget_thresholds_def Let_def split: option.split)
qed

text \<open>
  The budget route never violates a constraint of its tables, never fails with a server error and
  never touches the ledger.
\<close>

theorem put_budget_keeps_constraints:
  assumes "budgets_ok db" and "put_budget now user body db = (r, db')"
  shows "budgets_ok db' \<and> r \<noteq> ServerError \<and> db_ledger db' = db_ledger db"
proof (cases body)
  case None
  with assms show ?thesis by (auto simp: put_budget_def)
next
  case (Some b)
  obtain v enabled where b: "b = (v, enabled)" by (cases b)
  show ?thesis
  proof (cases "budget_update_request v enabled")
    case None
    with assms show ?thesis by (auto simp: put_budget_def Some b budget_validation_response_def)
  next
    case (Some am)
    obtain amount where am: "budget_update_request v enabled = Some (amount, enabled)"
      using Some budget_update_request_amount(1) by (cases am) auto
    have "db_ledger (snd (configure_budget now user amount enabled db)) = db_ledger db"
      using configure_same_money by (simp add: same_money_tables_def)
    then show ?thesis
      using assms budgets_ok_configure [OF assms(1) am, of now user]
      by (auto simp: put_budget_def \<open>body = Some b\<close> b am split: prod.splits option.splits)
  qed
qed

section \<open>Sample data\<close>

definition sample_control :: budget_control where
  "sample_control = \<lparr>bc_id = 3, bc_user = 1, bc_amount = 100, bc_alert_ratio = 8/10, bc_enabled = True,
     bc_status = ''active'', bc_paused_at = None, bc_pause_start = None,
     bc_created = DateTime 2026 5 1 0, bc_updated = DateTime 2026 5 1 0\<rparr>"

definition sample_charge_row :: "rat \<Rightarrow> credit_transaction" where
  "sample_charge_row a = \<lparr>ct_id = 4, ct_user = 1, ct_saga = Some 7, ct_amount = - a, ct_kind = ''charge'',
     ct_bucket = ''monthly'', ct_currency = ''CNY'', ct_meta = [], ct_created = DateTime 2026 5 9 0\<rparr>"

definition sample_budget_db :: "rat \<Rightarrow> billing_db" where
  "sample_budget_db a = empty_db\<lparr>db_budgets := [sample_control], db_ledger := [sample_charge_row a], db_next_id := 5\<rparr>"

lemma sample_budget_facts:
  "get_budget_control 1 (sample_budget_db a) = Some sample_control" "bc_enabled sample_control"
  "distinct (map bc_user (db_budgets (sample_budget_db a)))" "0 < bc_amount sample_control"
  "budgets_ok (sample_budget_db a)"
  by (simp_all add: sample_budget_db_def sample_control_def get_budget_control_def row_get_def budgets_ok_def
      control_ok_def threshold_keys_def empty_db_def)

theorem evaluate_pauses_iff_witness:
  "current_budget_is_paused (DateTime 2026 5 20 0) 1
     (snd (evaluate_budget_thresholds (DateTime 2026 5 20 0) 1 None (sample_budget_db 100))) \<noteq> None"
proof -
  have "bc_amount sample_control \<le>
      monthly_actual_spend 1 (current_budget_period (DateTime 2026 5 20 0)) (sample_budget_db 100)"
    by code_simp
  then show ?thesis
    unfolding evaluate_pauses_iff [OF sample_budget_facts(1,2,4)] by blast
qed

theorem evaluate_idempotent_witness:
  "snd (evaluate_budget_thresholds (DateTime 2026 5 20 0) 1 None
      (snd (evaluate_budget_thresholds (DateTime 2026 5 20 0) 1 None (sample_budget_db 100)))) =
   snd (evaluate_budget_thresholds (DateTime 2026 5 20 0) 1 None (sample_budget_db 100))"
  by (rule evaluate_idempotent [OF sample_budget_facts(1,2,3)])

theorem configure_pauses_iff_witness:
  "current_budget_is_paused (DateTime 2026 5 20 0) 1
     (snd (configure_budget (DateTime 2026 5 20 0) 1 (Some 200) True (sample_budget_db 100))) = None"
proof -
  have "0 < pg_numeric 2 (200::rat)" by code_simp
  moreover have "\<not> pg_numeric 2 200 \<le>
      monthly_actual_spend 1 (current_budget_period (DateTime 2026 5 20 0)) (sample_budget_db 100)"
    by code_simp
  ultimately show ?thesis
    using configure_pauses_iff [OF prod.collapse [symmetric], of 200 "DateTime 2026 5 20 0" 1 "sample_budget_db 100"]
    by blast
qed

theorem put_budget_keeps_constraints_witness:
  "budgets_ok (snd (put_budget (DateTime 2026 5 20 0) 1 (Some (Some 50, True)) (sample_budget_db 100)))"
  using put_budget_keeps_constraints [OF sample_budget_facts(5) prod.collapse [symmetric]] by blast

end
