(* ===== verification/CostTelemetry.thy ===== *)
theory CostTelemetry
  imports PyText Models
begin

text \<open>
  The shared cost telemetry (packages/shared-py/opticloud_shared/cost_telemetry): the validation of an
  event, the search for metadata keys that may not be stored, and the insertion of the row.
\<close>

definition BLOCKED_METADATA_KEYS :: "string list" where
  "BLOCKED_METADATA_KEYS =
     [''authorization'', ''balance'', ''bank'', ''bearer'', ''completion'', ''credit'', ''email'', ''id_card'',
      ''input'', ''input_payload'', ''jwt'', ''password'', ''payment'', ''phone'', ''prompt'', ''raw_input'',
      ''raw_payload'', ''secret'', ''token'', ''api_key'', ''amount'']"

definition COST_UNITS :: "string list" where
  "COST_UNITS = [''llm_token'', ''gpu_second'', ''solver_second'']"

definition blocked_key :: "string \<Rightarrow> bool" where
  "blocked_key key \<longleftrightarrow> list_ex (\<lambda>blocked. contains blocked (lower key)) BLOCKED_METADATA_KEYS"

text \<open>
  \<^verbatim>\<open>_find_blocked_metadata_key\<close>: the first blocked key in iteration order; nested mappings are searched,
  lists are not.
\<close>

fun find_blocked_metadata_key :: "(string \<times> json) list \<Rightarrow> string option" where
  "find_blocked_metadata_key [] = None"
| "find_blocked_metadata_key ((key, JObj nested) # rest) =
     (if blocked_key key then Some key
      else case find_blocked_metadata_key nested of
             Some k \<Rightarrow> Some k
           | None \<Rightarrow> find_blocked_metadata_key rest)"
| "find_blocked_metadata_key ((key, item) # rest) =
     (if blocked_key key then Some key else find_blocked_metadata_key rest)"

record cost_event =
  ce_tenant :: nat
  ce_service :: string
  ce_unit :: string
  ce_value :: rat
  ce_source :: "nat option"
  ce_metadata :: jdict

text \<open>\<^verbatim>\<open>CostTelemetryEvent(..)\<close>: the event with its service stripped, or the ValidationError.\<close>

definition validate_cost_event :: "cost_event \<Rightarrow> cost_event option" where
  "validate_cost_event e =
     (if ce_service e = [] \<or> 64 < length (ce_service e) \<or> strip (ce_service e) = [] then None
      else if ce_unit e \<notin> set COST_UNITS then None
      else if ce_value e < 0 then None
      else if find_blocked_metadata_key (ce_metadata e) \<noteq> None then None
      else Some (e\<lparr>ce_service := strip (ce_service e)\<rparr>))"

text \<open>\<^verbatim>\<open>record_cost_event\<close>; the value column is \<^verbatim>\<open>NUMERIC(18, 6)\<close>.\<close>

definition record_cost_event :: "cost_event \<Rightarrow> billing_db \<Rightarrow> billing_db option" where
  "record_cost_event e db =
     (case validate_cost_event e of
        None \<Rightarrow> None
      | Some v \<Rightarrow>
          Some (db\<lparr>db_costs := db_costs db @
                  [\<lparr>ca_id = db_next_id db, ca_tenant = ce_tenant v, ca_service = ce_service v,
                    ca_unit = ce_unit v, ca_value = pg_numeric 6 (ce_value v),
                    ca_source = ce_source v, ca_meta = ce_metadata v\<rparr>],
                db_next_id := Suc (db_next_id db)\<rparr>))"

lemma record_cost_frame:
  "record_cost_event e db = Some db' \<Longrightarrow>
   db_ledger db' = db_ledger db \<and> db_sagas db' = db_sagas db \<and> db_idem db' = db_idem db \<and>
   db_subs db' = db_subs db \<and> db_outbox db' = db_outbox db \<and> db_budgets db' = db_budgets db \<and>
   db_budget_events db' = db_budget_events db"
  by (auto simp: record_cost_event_def split: option.splits)

text \<open>The keys of a metadata value, at every depth the check descends to.\<close>

fun metadata_keys :: "(string \<times> json) list \<Rightarrow> string list" where
  "metadata_keys [] = []"
| "metadata_keys ((key, JObj nested) # rest) = key # metadata_keys nested @ metadata_keys rest"
| "metadata_keys ((key, item) # rest) = key # metadata_keys rest"

lemma find_blocked_None: "find_blocked_metadata_key m = None \<longleftrightarrow> list_all (\<lambda>k. \<not> blocked_key k) (metadata_keys m)"
  by (induction m rule: find_blocked_metadata_key.induct) (auto split: option.splits)

text \<open>
  A recorded cost row has a non-negative value, a canonical unit, a service name without surrounding
  blanks, and no metadata key, however deeply nested in mappings, that contains a blocked word.
\<close>

theorem recorded_cost_is_safe:
  assumes "record_cost_event e db = Some db'"
  shows "\<exists>row. db_costs db' = db_costs db @ [row] \<and> 0 \<le> ca_value row \<and> ca_unit row \<in> set COST_UNITS \<and>
    ca_service row \<noteq> [] \<and> ca_service row = strip (ce_service e) \<and> ca_tenant row = ce_tenant e \<and>
    list_all (\<lambda>k. \<not> list_ex (\<lambda>w. contains w (lower k)) BLOCKED_METADATA_KEYS) (metadata_keys (ca_meta row))"
proof -
  obtain v where v: "validate_cost_event e = Some v" using assms by (auto simp: record_cost_event_def split: option.splits)
  then have "ce_metadata v = ce_metadata e" "find_blocked_metadata_key (ce_metadata e) = None"
    "0 \<le> ce_value v" "ce_unit v \<in> set COST_UNITS" "ce_service v = strip (ce_service e)" "ce_service v \<noteq> []"
    "ce_tenant v = ce_tenant e"
    by (auto simp: validate_cost_event_def split: if_splits)
  then show ?thesis
    using assms v by (auto simp: record_cost_event_def find_blocked_None blocked_key_def intro: pg_numeric_nonneg)
qed

theorem recorded_cost_is_safe_witness:
  "\<exists>row. db_costs (the (record_cost_event
       \<lparr>ce_tenant = 1, ce_service = '' billing-service '', ce_unit = ''solver_second'', ce_value = 7/2,
        ce_source = Some 7, ce_metadata = [(''purpose'', JStr ''solve'')]\<rparr> empty_db)) = [row] \<and> 0 \<le> ca_value row"
proof -
  let ?e = "\<lparr>ce_tenant = 1, ce_service = '' billing-service '', ce_unit = ''solver_second'', ce_value = 7/2,
        ce_source = Some 7, ce_metadata = [(''purpose'', JStr ''solve'')]\<rparr>"
  have "record_cost_event ?e empty_db \<noteq> None" by code_simp
  then have "record_cost_event ?e empty_db = Some (the (record_cost_event ?e empty_db))" by simp
  from recorded_cost_is_safe [OF this] show ?thesis by (auto simp: empty_db_def)
qed

end
