(* ===== verification/Charges.thy ===== *)
theory Charges
  imports Requests Budget CostTelemetry
begin

text \<open>
  The charge routes (apps/billing-service/src/billing_service/routes.py): estimate, balance, create,
  reserve, finalize and the deprecated confirm. A handler maps the committed database to its answer and
  the database it leaves committed; \<open>now\<close> is the clock, read once per request.
\<close>

section \<open>Helpers\<close>

definition seed_demo_balance :: "settings \<Rightarrow> datetime \<Rightarrow> nat \<Rightarrow> billing_db \<Rightarrow> billing_db" where
  "seed_demo_balance cfg now user db =
     add_credit user None (j1_demo_seed_amount cfg) ''topup'' ''signup''
       [(''source'', JStr ''j1_demo_seed'')] now db"

definition charge_saga_type :: "charge_request \<Rightarrow> string" where
  "charge_saga_type body = cr_purpose body @ ''_charge''"

definition charge_payload :: "charge_request \<Rightarrow> bool \<Rightarrow> jdict" where
  "charge_payload body include_confirmation_ref =
     [(''reference_id'', JStr (cr_reference body)), (''purpose'', JStr (cr_purpose body))] @
     (if include_confirmation_ref then [(''confirmation_ref'', JStr ''precharge-confirmed'')] else [])"

definition charge_request_hash :: "settings \<Rightarrow> charge_request \<Rightarrow> bool \<Rightarrow> string" where
  "charge_request_hash cfg body include_confirmation_ref =
     hash_body cfg (start_body (charge_saga_type body) (charge_payload body include_confirmation_ref)
       (Some (cr_amount body)))"

definition charge_request_hash_candidates :: "settings \<Rightarrow> charge_request \<Rightarrow> string set" where
  "charge_request_hash_candidates cfg body =
     {charge_request_hash cfg body False} \<union>
     (if cr_confirmed body then {charge_request_hash cfg body True} else {})"

record charge_response =
  ch_id :: nat
  ch_state :: string
  ch_amount :: string
  ch_currency :: string
  ch_before :: string
  ch_after :: string

definition charge_response_json :: "charge_response \<Rightarrow> json" where
  "charge_response_json r =
     JObj [(''charge_id'', JId (ch_id r)), (''current_state'', JStr (ch_state r)),
           (''amount'', JStr (ch_amount r)), (''currency'', JStr (ch_currency r)),
           (''balance_before'', JStr (ch_before r)), (''balance_after'', JStr (ch_after r))]"

text \<open>\<^verbatim>\<open>ChargeResponse.model_validate\<close>; \<open>None\<close> is the ValidationError.\<close>

definition charge_response_of_json :: "json \<Rightarrow> charge_response option" where
  "charge_response_of_json j =
     (case j of
        JObj d \<Rightarrow>
          (let field = (\<lambda>k. case dict_get k d of Some (JStr s) \<Rightarrow> Some s | _ \<Rightarrow> None) in
           case (dict_get ''charge_id'' d, field ''current_state'', field ''amount'',
                 field ''balance_before'', field ''balance_after'') of
             (Some (JId i), Some st, Some a, Some b, Some c) \<Rightarrow>
               (case dict_get ''currency'' d of
                  None \<Rightarrow> Some \<lparr>ch_id = i, ch_state = st, ch_amount = a, ch_currency = ''CNY'', ch_before = b, ch_after = c\<rparr>
                | Some (JStr cur) \<Rightarrow> Some \<lparr>ch_id = i, ch_state = st, ch_amount = a, ch_currency = cur, ch_before = b, ch_after = c\<rparr>
                | Some _ \<Rightarrow> None)
           | _ \<Rightarrow> None)
      | _ \<Rightarrow> None)"

definition idempotency_row_by_key :: "string \<Rightarrow> billing_db \<Rightarrow> idempotency_row option" where
  "idempotency_row_by_key key db = idem_get key db"

text \<open>\<open>None\<close> is the RuntimeError of a missing row.\<close>

definition persist_charge_response_body :: "string \<Rightarrow> charge_response \<Rightarrow> billing_db \<Rightarrow> billing_db option" where
  "persist_charge_response_body key response db =
     (case idempotency_row_by_key key db of
        None \<Rightarrow> None
      | Some row \<Rightarrow> Some (idem_put (row\<lparr>ik_response := Some (charge_response_json response)\<rparr>) db))"

definition legacy_charge_response_from_idempotency_row ::
  "idempotency_row \<Rightarrow> billing_db \<Rightarrow> charge_response outcome \<times> billing_db" where
  "legacy_charge_response_from_idempotency_row row db =
     (case ik_saga row of
        None \<Rightarrow> (problem_response ''Idempotency Conflict'' 409, db)
      | Some i \<Rightarrow>
          (case saga_get i db of
             None \<Rightarrow> (problem_response ''Charge Not Found'' 404, db)
           | Some saga \<Rightarrow>
               (let bal = balance_for (ik_user row) db;
                    response = \<lparr>ch_id = sg_id saga, ch_state = sg_state saga,
                      ch_amount = (case sg_amount saga of None \<Rightarrow> ''0.00'' | Some a \<Rightarrow> fmt 2 a),
                      ch_currency = ''CNY'', ch_before = fmt 2 bal, ch_after = fmt 2 bal\<rparr>
                in (Returned response,
                    idem_put (row\<lparr>ik_response := Some (charge_response_json response)\<rparr>) db))))"

definition charge_replay_response_if_cached ::
  "settings \<Rightarrow> datetime \<Rightarrow> charge_request \<Rightarrow> nat \<Rightarrow> string \<Rightarrow> billing_db \<Rightarrow>
   (charge_response outcome \<times> billing_db) option" where
  "charge_replay_response_if_cached cfg now body user key db =
     (case idempotency_row_by_key key db of
        None \<Rightarrow> None
      | Some row \<Rightarrow>
          if ik_expires row \<le> now then None
          else if ik_user row \<noteq> user then Some (problem_response ''Cross-tenant key reuse forbidden'' 403, db)
          else if ik_hash row \<notin> charge_request_hash_candidates cfg body
          then Some (problem_response ''Idempotency Conflict'' 409, db)
          else (case ik_response row of
                  Some stored \<Rightarrow>
                    (case charge_response_of_json stored of
                       Some response \<Rightarrow> Some (Returned response, db)
                     | None \<Rightarrow> Some (ServerError, db))
                | None \<Rightarrow> Some (legacy_charge_response_from_idempotency_row row db)))"

section \<open>Estimate and balance\<close>

record estimate_response =
  es_estimated :: string
  es_balance :: string
  es_warnings :: "warning list"
  es_requires_confirm :: bool

definition estimate_charge ::
  "settings \<Rightarrow> estimate_request \<Rightarrow> nat \<Rightarrow> billing_db \<Rightarrow> estimate_response" where
  "estimate_charge cfg body user db =
     (let estimated = er_max_solve_seconds body * lp_rate_per_second cfg;
          bal = balance_for user db;
          warnings = classify_with_settings cfg estimated bal
      in \<lparr>es_estimated = fmt 2 estimated, es_balance = fmt 2 bal, es_warnings = warnings,
          es_requires_confirm = (warnings \<noteq> [])\<rparr>)"

record balance_response =
  br_user :: nat
  br_balance :: string
  br_last :: "datetime option"
  br_buckets :: "(string \<times> string) list"

definition last_transaction_at :: "nat \<Rightarrow> billing_db \<Rightarrow> datetime option" where
  "last_transaction_at user db =
     (case map ct_created (filter (\<lambda>r. ct_user r = user) (db_ledger db)) of
        [] \<Rightarrow> None | t # ts \<Rightarrow> Some (fold max ts t))"

definition get_balance :: "nat \<Rightarrow> billing_db \<Rightarrow> balance_response" where
  "get_balance user db =
     \<lparr>br_user = user, br_balance = fmt 2 (balance_for user db), br_last = last_transaction_at user db,
      br_buckets = map (\<lambda>(name, b). (name, fmt 2 b)) (balance_buckets_for user db)\<rparr>"

section \<open>Creating a charge\<close>

definition create_charge ::
  "settings \<Rightarrow> datetime \<Rightarrow> charge_request \<Rightarrow> nat \<Rightarrow> string \<Rightarrow> billing_db \<Rightarrow>
   charge_response outcome \<times> billing_db" where
  "create_charge cfg now body user key db =
     (if \<not> validate_idempotency_key key then (HttpError 400, db)
      else case charge_replay_response_if_cached cfg now body user key db of
        Some cached \<Rightarrow> cached
      | None \<Rightarrow>
          if current_budget_is_paused now user db \<noteq> None then
            (Problem (billing_problem_response ''Monthly Budget Paused'' 409
               [''errors.409.monthly_budget_paused''] (Some BILLING_BUDGET_URL) ''about:blank''), db)
          else
            (let db1 = (if has_any_transactions user db then db else seed_demo_balance cfg now user db);
                 amount = d_value (cr_amount body);
                 balance_before = balance_for user db1;
                 warnings = classify_with_settings cfg amount balance_before
             in if amount > balance_before then
                  (Problem (billing_problem_response ''Insufficient Credits'' 402 [''errors.402.topup'']
                     (Some TOPUP_NEXT_ACTION_URL) ''https://api.opticloud.cn/errors/insufficient_credits''), db1)
                else if warnings \<noteq> [] \<and> \<not> cr_confirmed body then
                  (Problem (billing_problem_response ''Explicit Confirmation Required'' 422
                     [w_hint (hd warnings)] None ''about:blank''), db1)
                else
                  (let include_confirmation_ref = (warnings \<noteq> [] \<and> cr_confirmed body);
                       started = start_saga cfg now (charge_saga_type body) user key
                         (charge_payload body include_confirmation_ref) (Some (cr_amount body))
                         \<lparr>committed = db, working = db1\<rparr>;
                       s = snd started
                   in case fst started of
                        Inl (CrossTenantKeyError _ _ _) \<Rightarrow>
                          (problem_response ''Cross-tenant key reuse forbidden'' 403, committed s)
                      | Inl (IdempotencyConflictError _ _ _) \<Rightarrow>
                          (problem_response ''Idempotency Conflict'' 409, committed s)
                      | Inl _ \<Rightarrow> (ServerError, committed s)
                      | Inr saga \<Rightarrow>
                          (let response = \<lparr>ch_id = sg_id saga, ch_state = sg_state saga,
                                 ch_amount = fmt 2 amount, ch_currency = ''CNY'',
                                 ch_before = fmt 2 balance_before,
                                 ch_after = fmt 2 (balance_for user (working s))\<rparr>
                           in case persist_charge_response_body key response (working s) of
                                None \<Rightarrow> (ServerError, committed s)
                              | Some db2 \<Rightarrow> (Returned response, db2)))))"

section \<open>Reserving\<close>

record reserve_response =
  re_id :: nat
  re_state :: string
  re_amount :: string
  re_after :: string

text \<open>
  The \<^verbatim>\<open>except (InvalidSagaTransitionError, SagaTerminalError)\<close> around an \<open>apply\<close>: those two errors roll
  back to the committed database and answer 409, any other error is not translated.
\<close>

definition on_applied ::
  "string \<Rightarrow> billing_db \<Rightarrow> (saga_error + saga_instance) \<times> billing_db \<Rightarrow>
   (saga_instance \<Rightarrow> billing_db \<Rightarrow> 'a outcome \<times> billing_db) \<Rightarrow> 'a outcome \<times> billing_db" where
  "on_applied title db applied continue =
     (case applied of
        (Inr saga, db') \<Rightarrow> continue saga db'
      | (Inl (InvalidSagaTransitionError _ _), _) \<Rightarrow> (problem_response title 409, db)
      | (Inl (SagaTerminalError _ _), _) \<Rightarrow> (problem_response title 409, db)
      | (Inl _, _) \<Rightarrow> (ServerError, db))"

text \<open>The common start of the routes a user calls on a charge: it exists and is the user's.\<close>

definition with_own_saga ::
  "nat \<Rightarrow> nat \<Rightarrow> billing_db \<Rightarrow> (saga_instance \<Rightarrow> 'a outcome \<times> billing_db) \<Rightarrow> 'a outcome \<times> billing_db" where
  "with_own_saga charge_id user db continue =
     (case get_saga charge_id db of
        Inl _ \<Rightarrow> (problem_response ''Charge Not Found'' 404, db)
      | Inr saga \<Rightarrow>
          if sg_user saga \<noteq> user then (problem_response ''Forbidden'' 403, db) else continue saga)"

definition amount_text :: "saga_instance \<Rightarrow> string" where
  "amount_text saga = (if reserved_amount saga = 0 then ''0.00'' else fmt 2 (reserved_amount saga))"

definition reserve_charge ::
  "datetime \<Rightarrow> nat \<Rightarrow> nat \<Rightarrow> billing_db \<Rightarrow> reserve_response outcome \<times> billing_db" where
  "reserve_charge now charge_id user db =
     with_own_saga charge_id user db (\<lambda>_.
       on_applied ''Reserve Not Applicable'' db (apply_saga now charge_id ''reserve'' [] db) (\<lambda>saga db'.
         (Returned \<lparr>re_id = sg_id saga, re_state = sg_state saga, re_amount = amount_text saga,
                    re_after = fmt 2 (balance_for user db')\<rparr>, db')))"

section \<open>Finalizing\<close>

text \<open>\<^verbatim>\<open>float(raw)\<close> of a JSON value; \<open>None\<close> is the exception.\<close>

definition float_of_json :: "json \<Rightarrow> rat option" where
  "float_of_json j =
     (case j of JNum x \<Rightarrow> Some x | JBool b \<Rightarrow> Some (if b then 1 else 0) | JStr s \<Rightarrow> py_float s | _ \<Rightarrow> None)"

definition max_solve_seconds_from :: "settings \<Rightarrow> saga_instance \<Rightarrow> rat option" where
  "max_solve_seconds_from cfg saga =
     (let raw = (case dict_get ''max_solve_seconds'' (sg_payload saga) of None \<Rightarrow> JNull | Some v \<Rightarrow> v) in
      if raw = JNull then
        (case sg_amount saga of
           Some a \<Rightarrow> if 0 < lp_rate_per_second cfg then Some (a / lp_rate_per_second cfg)
                     else Some (charge_max_solve_seconds_default cfg)
         | None \<Rightarrow> Some (charge_max_solve_seconds_default cfg))
      else float_of_json raw)"

definition discount_context :: "rat \<Rightarrow> jdict" where
  "discount_context discount_multiplier =
     (if discount_multiplier = 1 then [] else [(''discount_multiplier'', JStr (fmt 4 discount_multiplier))])"

definition billing_cost_attribution_exists :: "nat \<Rightarrow> billing_db \<Rightarrow> bool" where
  "billing_cost_attribution_exists charge_id db \<longleftrightarrow>
     list_ex (\<lambda>c. ca_source c = Some charge_id \<and> ca_service c = ''billing-service'' \<and> ca_unit c = ''solver_second'')
       (db_costs db)"

text \<open>Best effort: a failure rolls back to the savepoint and is only logged.\<close>

definition record_billing_cost_attribution ::
  "saga_instance \<Rightarrow> rat \<Rightarrow> string \<Rightarrow> billing_db \<Rightarrow> billing_db" where
  "record_billing_cost_attribution saga elapsed_seconds finalize_status db =
     (if billing_cost_attribution_exists (sg_id saga) db then db
      else (let purpose = (case dict_get ''purpose'' (sg_payload saga) of
                             Some v \<Rightarrow> if is_str v then [(''purpose'', v)] else [] | None \<Rightarrow> []);
                event = \<lparr>ce_tenant = sg_user saga, ce_service = ''billing-service'', ce_unit = ''solver_second'',
                         ce_value = elapsed_seconds, ce_source = Some (sg_id saga),
                         ce_metadata = [(''saga_type'', JStr (sg_type saga)),
                           (''charge_state'', JStr (sg_state saga)),
                           (''finalize_status'', JStr finalize_status)] @ purpose\<rparr>
            in case record_cost_event event db of None \<Rightarrow> db | Some db' \<Rightarrow> db'))"

record finalize_response =
  fi_id :: nat
  fi_state :: string
  fi_reserved :: string
  fi_actual :: string
  fi_refund_partial :: string
  fi_before :: string
  fi_after :: string

definition kind_sum :: "string \<Rightarrow> credit_transaction list \<Rightarrow> rat" where
  "kind_sum kind rows = sum_where (\<lambda>r. ct_kind r = kind) ct_amount rows"

definition rebuild_finalize_response ::
  "saga_instance \<Rightarrow> credit_transaction list \<Rightarrow> rat \<Rightarrow> finalize_response" where
  "rebuild_finalize_response saga ledger_rows balance_after =
     (let reserved = reserved_amount saga;
          charge_sum = kind_sum ''charge'' ledger_rows;
          refund_partial = kind_sum ''refund_partial'' ledger_rows;
          actual = (if charge_sum < 0 then - (charge_sum + refund_partial) else 0);
          balance_before = balance_after + actual
      in \<lparr>fi_id = sg_id saga, fi_state = sg_state saga, fi_reserved = fmt 2 reserved,
          fi_actual = fmt 2 actual, fi_refund_partial = fmt 2 refund_partial,
          fi_before = fmt 2 balance_before, fi_after = fmt 2 balance_after\<rparr>)"

definition finalize_amount :: "settings \<Rightarrow> finalize_request \<Rightarrow> saga_instance \<Rightarrow> rat option" where
  "finalize_amount cfg body saga =
     map_option (\<lambda>max_seconds.
       compute_charge_amount (fr_elapsed body) max_seconds (lp_rate_per_second cfg) (charge_min_amount cfg)
         (reserved_amount saga) (fr_discount body))
     (max_solve_seconds_from cfg saga)"

text \<open>The success branch after the transition: the partial refund, the cost row, the budget, the answer.\<close>

definition finalize_success ::
  "datetime \<Rightarrow> finalize_request \<Rightarrow> nat \<Rightarrow> rat \<Rightarrow> rat \<Rightarrow> rat \<Rightarrow> saga_instance \<Rightarrow> billing_db \<Rightarrow>
   finalize_response outcome \<times> billing_db" where
  "finalize_success now body user reserved actual balance_before saga db =
     (let refund_partial = (if actual < reserved then reserved - actual else 0);
          db1 = (if actual < reserved
                 then add_credit user (Some (sg_id saga)) refund_partial ''refund_partial'' ''monthly''
                        ([(''reason'', JStr ''elapsed < max_solve_seconds''),
                          (''elapsed_seconds'', JNum (fr_elapsed body)),
                          (''actual_amount'', JStr (fmt 4 actual))] @ discount_context (fr_discount body)) now db
                 else db);
          db2 = record_billing_cost_attribution saga (fr_elapsed body) ''success'' db1;
          db3 = snd (evaluate_budget_thresholds now user None db2)
      in (Returned \<lparr>fi_id = sg_id saga, fi_state = sg_state saga, fi_reserved = fmt 2 reserved,
                     fi_actual = fmt 2 actual, fi_refund_partial = fmt 2 refund_partial,
                     fi_before = fmt 2 balance_before, fi_after = fmt 2 (balance_for user db3)\<rparr>, db3))"

definition failure_reason_text :: "finalize_request \<Rightarrow> string" where
  "failure_reason_text body =
     (case fr_failure_reason body of None \<Rightarrow> ''unknown'' | Some r \<Rightarrow> if r = [] then ''unknown'' else r)"

definition finalize_failure ::
  "datetime \<Rightarrow> finalize_request \<Rightarrow> nat \<Rightarrow> rat \<Rightarrow> rat \<Rightarrow> saga_instance \<Rightarrow> billing_db \<Rightarrow>
   finalize_response outcome \<times> billing_db" where
  "finalize_failure now body user reserved balance_before saga db =
     (let db1 = add_credit user (Some (sg_id saga)) (- reserved) ''refund_reversal'' ''monthly''
                  [(''reason'', JStr ''reservation never debited; net-zero compensation''),
                   (''failure_reason'', JStr (failure_reason_text body))] now db;
          db2 = snd (evaluate_budget_thresholds now user None db1)
      in (Returned \<lparr>fi_id = sg_id saga, fi_state = sg_state saga, fi_reserved = fmt 2 reserved,
                     fi_actual = ''0.00'', fi_refund_partial = ''0.00'',
                     fi_before = fmt 2 balance_before, fi_after = fmt 2 (balance_for user db2)\<rparr>, db2))"

definition finalize_charge ::
  "settings \<Rightarrow> datetime \<Rightarrow> nat \<Rightarrow> finalize_request \<Rightarrow> nat \<Rightarrow> billing_db \<Rightarrow>
   finalize_response outcome \<times> billing_db" where
  "finalize_charge cfg now charge_id body user db =
     with_own_saga charge_id user db (\<lambda>saga.
       if sg_state saga \<in> {''charged'', ''completed'', ''refunded'', ''rolled_back''} then
         (Returned (rebuild_finalize_response saga (ledger_rows_for_saga (sg_id saga) db) (balance_for user db)), db)
       else
         (let reserved = reserved_amount saga; balance_before = balance_for user db in
          if fr_success body then
            (case finalize_amount cfg body saga of
               None \<Rightarrow> (ServerError, db)
             | Some actual \<Rightarrow>
                 on_applied ''Finalize Not Applicable'' db
                   (apply_saga now charge_id ''service_success''
                     ([(''reserved_amount'', JStr (fmt 4 reserved)), (''actual_amount'', JStr (fmt 4 actual)),
                       (''elapsed_seconds'', JNum (fr_elapsed body))] @ discount_context (fr_discount body)) db)
                   (finalize_success now body user reserved actual balance_before))
          else
            on_applied ''Finalize Not Applicable'' db
              (apply_saga now charge_id ''user_cancel''
                [(''failure_reason'', JStr (failure_reason_text body)),
                 (''elapsed_seconds'', JNum (fr_elapsed body))] db)
              (finalize_failure now body user reserved balance_before)))"

section \<open>The deprecated confirm\<close>

definition confirm_charge ::
  "datetime \<Rightarrow> nat \<Rightarrow> nat \<Rightarrow> billing_db \<Rightarrow> charge_response outcome \<times> billing_db" where
  "confirm_charge now charge_id user db =
     with_own_saga charge_id user db (\<lambda>_.
       let balance_before = balance_for user db in
       on_applied ''Charge Already Finalized'' db (apply_saga now charge_id ''reserve'' [] db) (\<lambda>_ db1.
         on_applied ''Charge Already Finalized'' db (apply_saga now charge_id ''service_success'' [] db1) (\<lambda>saga db2.
           let db3 = snd (evaluate_budget_thresholds now user None db2) in
           (Returned \<lparr>ch_id = sg_id saga, ch_state = sg_state saga, ch_amount = amount_text saga,
                      ch_currency = ''CNY'', ch_before = fmt 2 balance_before,
                      ch_after = fmt 2 (balance_for user db3)\<rparr>, db3))))"

end
