(* ===== verification/Refunds.thy ===== *)
theory Refunds
  imports Charges
begin

text \<open>
  The refund routes and the top-up routes (apps/billing-service/src/billing_service/routes.py): the
  automatic refund of a failed task, the refund of a task its user cancelled, the creation of a top-up
  and its confirmation by the payment callback.
\<close>

section \<open>What was paid, and the shape of a refund\<close>

definition refund_partial_total :: "credit_transaction list \<Rightarrow> rat" where
  "refund_partial_total ledger_rows = kind_sum ''refund_partial'' ledger_rows"

definition charged_actual_paid :: "credit_transaction list \<Rightarrow> rat" where
  "charged_actual_paid ledger_rows =
     (let charge_sum = kind_sum ''charge'' ledger_rows;
          refund_partial = refund_partial_total ledger_rows
      in if 0 \<le> charge_sum then 0 else - (charge_sum + refund_partial))"

record refund_response =
  rf_id :: nat
  rf_state :: string
  rf_mode :: string
  rf_reserved :: string
  rf_refunded :: string
  rf_before :: string
  rf_after :: string

definition refund_response_of ::
  "saga_instance \<Rightarrow> string \<Rightarrow> rat \<Rightarrow> rat \<Rightarrow> rat \<Rightarrow> rat \<Rightarrow> refund_response" where
  "refund_response_of saga mode reserved refunded balance_before balance_after =
     \<lparr>rf_id = sg_id saga, rf_state = sg_state saga, rf_mode = mode, rf_reserved = fmt 2 reserved,
      rf_refunded = fmt 2 refunded, rf_before = fmt 2 balance_before, rf_after = fmt 2 balance_after\<rparr>"

text \<open>\<^verbatim>\<open>_rebuild_auto_refund_response\<close> and \<^verbatim>\<open>_rebuild_user_cancel_refund_response\<close>, which are the same code.\<close>

definition rebuild_refund_response ::
  "saga_instance \<Rightarrow> credit_transaction list \<Rightarrow> rat \<Rightarrow> refund_response" where
  "rebuild_refund_response saga ledger_rows balance_after =
     (let reserved = reserved_amount saga;
          mode = (if sg_state saga = ''refunded'' then ''reserved_net_zero'' else ''charged_rollback'');
          refunded = (if mode = ''charged_rollback'' then charged_actual_paid ledger_rows else 0);
          balance_before = balance_after - refunded
      in refund_response_of saga mode reserved refunded balance_before balance_after)"

definition elapsed_entry :: "refund_request \<Rightarrow> jdict" where
  "elapsed_entry body = (case rr_elapsed body of None \<Rightarrow> [] | Some e \<Rightarrow> [(''elapsed_seconds'', JNum e)])"

definition reversed_entry :: "rat option \<Rightarrow> jdict" where
  "reversed_entry reversed =
     (case reversed of None \<Rightarrow> [] | Some r \<Rightarrow> if r = 0 then [] else [(''reversed_partial_amount'', JStr (fmt 4 r))])"

definition auto_refund_context :: "refund_request \<Rightarrow> rat \<Rightarrow> rat option \<Rightarrow> jdict" where
  "auto_refund_context body refunded_amount reversed =
     [(''reason'', JStr (rr_reason body)), (''source'', JStr (rr_source body)),
      (''source_ref'', JStr (rr_source_ref body)), (''refunded_amount'', JStr (fmt 4 refunded_amount)),
      (''automatic_refund'', JStr ''true'')] @ elapsed_entry body @ reversed_entry reversed"

definition user_cancel_refund_context :: "refund_request \<Rightarrow> rat \<Rightarrow> rat option \<Rightarrow> jdict" where
  "user_cancel_refund_context body refunded_amount reversed =
     [(''refund_kind'', JStr ''user_cancel_refund''), (''source'', JStr (rr_source body)),
      (''source_ref'', JStr (rr_source_ref body)), (''refunded_amount'', JStr (fmt 4 refunded_amount))] @
     elapsed_entry body @ reversed_entry reversed"

definition write_refund_auto_outbox ::
  "datetime \<Rightarrow> saga_instance \<Rightarrow> string \<Rightarrow> refund_request \<Rightarrow> rat \<Rightarrow> billing_db \<Rightarrow> billing_db" where
  "write_refund_auto_outbox now saga from_st body refunded_amount db =
     add_outbox ''saga_instance'' (sg_id saga) ''billing.refund_auto.detected''
       ([(''saga_id'', JId (sg_id saga)), (''charge_id'', JId (sg_id saga)), (''saga_type'', JStr (sg_type saga)),
         (''from_state'', JStr from_st), (''to_state'', JStr (sg_state saga)), (''reason'', JStr (rr_reason body)),
         (''source'', JStr (rr_source body)), (''source_ref'', JStr (rr_source_ref body)),
         (''refunded_amount'', JStr (fmt 4 refunded_amount))] @ elapsed_entry body)
       [(''compensation'', JStr ''refund_auto'')] now db"

definition write_refund_user_cancel_outbox ::
  "datetime \<Rightarrow> saga_instance \<Rightarrow> string \<Rightarrow> refund_request \<Rightarrow> rat \<Rightarrow> billing_db \<Rightarrow> billing_db" where
  "write_refund_user_cancel_outbox now saga from_st body refunded_amount db =
     add_outbox ''saga_instance'' (sg_id saga) ''billing.refund_user_cancel.accepted''
       ([(''saga_id'', JId (sg_id saga)), (''charge_id'', JId (sg_id saga)), (''saga_type'', JStr (sg_type saga)),
         (''from_state'', JStr from_st), (''to_state'', JStr (sg_state saga)),
         (''source'', JStr (rr_source body)), (''source_ref'', JStr (rr_source_ref body)),
         (''refunded_amount'', JStr (fmt 4 refunded_amount))] @ elapsed_entry body)
       [(''compensation'', JStr ''user_cancel_refund'')] now db"

section \<open>The automatic refund\<close>

text \<open>The branch of a reserved charge: the orchestrator's refund row, undone by a reversal row.\<close>

definition refund_auto_reserved ::
  "datetime \<Rightarrow> nat \<Rightarrow> refund_request \<Rightarrow> saga_instance \<Rightarrow> billing_db \<Rightarrow> refund_response outcome \<times> billing_db" where
  "refund_auto_reserved now charge_id body saga0 db =
     (let reserved = reserved_amount saga0; balance_before = balance_for (sg_user saga0) db in
      on_applied ''Refund Not Applicable'' db
        (apply_saga now charge_id ''user_cancel''
          (dict_merge [(''reserved_amount'', JStr (fmt 4 reserved))] (auto_refund_context body 0 None)) db)
        (\<lambda>saga db1.
          let db2 = add_credit (sg_user saga) (Some (sg_id saga)) (- reserved) ''refund_reversal'' ''monthly''
                      [(''reason'', JStr ''reservation never debited; automatic refund net-zero''),
                       (''auto_refund_reason'', JStr (rr_reason body)), (''source'', JStr (rr_source body)),
                       (''source_ref'', JStr (rr_source_ref body))] now db1;
              db3 = write_refund_auto_outbox now saga (sg_state saga0) body 0 db2
          in (Returned (refund_response_of saga ''reserved_net_zero'' reserved 0 balance_before
                          (balance_for (sg_user saga) db3)), db3)))"

text \<open>The branch of a charged charge: the orchestrator returns the reserved amount; what a partial
  refund had already returned is taken back.\<close>

definition refund_auto_charged ::
  "datetime \<Rightarrow> nat \<Rightarrow> refund_request \<Rightarrow> saga_instance \<Rightarrow> billing_db \<Rightarrow> refund_response outcome \<times> billing_db" where
  "refund_auto_charged now charge_id body saga0 db =
     (let reserved = reserved_amount saga0; balance_before = balance_for (sg_user saga0) db;
          ledger_rows = ledger_rows_for_saga (sg_id saga0) db;
          refunded_amount = charged_actual_paid ledger_rows;
          refund_partial = refund_partial_total ledger_rows in
      on_applied ''Refund Not Applicable'' db
        (apply_saga now charge_id ''downstream_reject_late''
          (dict_merge [(''reserved_amount'', JStr (fmt 4 reserved))]
             (auto_refund_context body refunded_amount (Some refund_partial))) db)
        (\<lambda>saga db1.
          let db2 = (if refund_partial \<noteq> 0
                     then add_credit (sg_user saga) (Some (sg_id saga)) (- refund_partial) ''refund_reversal'' ''monthly''
                            [(''reason'', JStr ''prior partial refund already returned; rollback refunds actual paid only''),
                             (''auto_refund_reason'', JStr (rr_reason body)), (''source'', JStr (rr_source body)),
                             (''source_ref'', JStr (rr_source_ref body)),
                             (''reversed_partial_amount'', JStr (fmt 4 refund_partial))] now db1
                     else db1);
              db3 = write_refund_auto_outbox now saga (sg_state saga0) body refunded_amount db2
          in (Returned (refund_response_of saga ''charged_rollback'' reserved refunded_amount balance_before
                          (balance_for (sg_user saga) db3)), db3)))"

definition refund_auto_charge ::
  "datetime \<Rightarrow> nat \<Rightarrow> refund_request \<Rightarrow> billing_db \<Rightarrow> refund_response outcome \<times> billing_db" where
  "refund_auto_charge now charge_id body db =
     (case get_saga charge_id db of
        Inl _ \<Rightarrow> (problem_response ''Charge Not Found'' 404, db)
      | Inr saga \<Rightarrow>
          if \<not> ends_with ''_charge'' (sg_type saga) then (problem_response ''Refund Not Applicable'' 409, db)
          else if sg_state saga \<in> {''refunded'', ''rolled_back''} then
            (Returned (rebuild_refund_response saga (ledger_rows_for_saga (sg_id saga) db)
                         (balance_for (sg_user saga) db)), db)
          else if sg_state saga \<in> {''pending'', ''failed'', ''completed''} then
            (problem_response ''Refund Not Applicable'' 409, db)
          else if sg_state saga = ''reserved'' then refund_auto_reserved now charge_id body saga db
          else if sg_state saga = ''charged'' then refund_auto_charged now charge_id body saga db
          else (problem_response ''Refund Not Applicable'' 409, db))"

section \<open>The refund of a cancelled task\<close>

definition refund_user_cancel_reserved ::
  "datetime \<Rightarrow> nat \<Rightarrow> refund_request \<Rightarrow> saga_instance \<Rightarrow> billing_db \<Rightarrow> refund_response outcome \<times> billing_db" where
  "refund_user_cancel_reserved now charge_id body saga0 db =
     (let reserved = reserved_amount saga0; balance_before = balance_for (sg_user saga0) db in
      on_applied ''Refund Not Applicable'' db
        (apply_saga now charge_id ''user_cancel''
          (dict_merge [(''reserved_amount'', JStr (fmt 4 reserved))] (user_cancel_refund_context body 0 None)) db)
        (\<lambda>saga db1.
          let db2 = add_credit (sg_user saga) (Some (sg_id saga)) (- reserved) ''refund_reversal'' ''monthly''
                      [(''reason'', JStr ''reservation never debited; user-cancel refund net-zero''),
                       (''refund_kind'', JStr ''user_cancel_refund''), (''source'', JStr (rr_source body)),
                       (''source_ref'', JStr (rr_source_ref body))] now db1;
              db3 = write_refund_user_cancel_outbox now saga (sg_state saga0) body 0 db2
          in (Returned (refund_response_of saga ''reserved_net_zero'' reserved 0 balance_before
                          (balance_for (sg_user saga) db3)), db3)))"

definition refund_user_cancel_charged ::
  "datetime \<Rightarrow> nat \<Rightarrow> refund_request \<Rightarrow> saga_instance \<Rightarrow> billing_db \<Rightarrow> refund_response outcome \<times> billing_db" where
  "refund_user_cancel_charged now charge_id body saga0 db =
     (let reserved = reserved_amount saga0; balance_before = balance_for (sg_user saga0) db;
          ledger_rows = ledger_rows_for_saga (sg_id saga0) db;
          refunded_amount = charged_actual_paid ledger_rows;
          refund_partial = refund_partial_total ledger_rows in
      on_applied ''Refund Not Applicable'' db
        (apply_saga now charge_id ''downstream_reject_late''
          (dict_merge [(''reserved_amount'', JStr (fmt 4 reserved))]
             (user_cancel_refund_context body refunded_amount (Some refund_partial))) db)
        (\<lambda>saga db1.
          let db2 = (if refund_partial \<noteq> 0
                     then add_credit (sg_user saga) (Some (sg_id saga)) (- refund_partial) ''refund_reversal'' ''monthly''
                            [(''reason'', JStr ''prior partial refund already returned; user-cancel rollback refunds actual paid only''),
                             (''refund_kind'', JStr ''user_cancel_refund''), (''source'', JStr (rr_source body)),
                             (''source_ref'', JStr (rr_source_ref body)),
                             (''reversed_partial_amount'', JStr (fmt 4 refund_partial))] now db1
                     else db1);
              db3 = write_refund_user_cancel_outbox now saga (sg_state saga0) body refunded_amount db2
          in (Returned (refund_response_of saga ''charged_rollback'' reserved refunded_amount balance_before
                          (balance_for (sg_user saga) db3)), db3)))"

definition refund_user_cancel_charge ::
  "datetime \<Rightarrow> nat \<Rightarrow> refund_request \<Rightarrow> nat \<Rightarrow> billing_db \<Rightarrow> refund_response outcome \<times> billing_db" where
  "refund_user_cancel_charge now charge_id body user db =
     with_own_saga charge_id user db (\<lambda>saga.
       if \<not> ends_with ''_charge'' (sg_type saga) then (problem_response ''Refund Not Applicable'' 409, db)
       else if sg_state saga \<in> {''refunded'', ''rolled_back''} then
         (Returned (rebuild_refund_response saga (ledger_rows_for_saga (sg_id saga) db)
                      (balance_for (sg_user saga) db)), db)
       else if sg_state saga \<in> {''pending'', ''failed'', ''completed''} then
         (problem_response ''Refund Not Applicable'' 409, db)
       else if sg_state saga = ''reserved'' then refund_user_cancel_reserved now charge_id body saga db
       else if sg_state saga = ''charged'' then refund_user_cancel_charged now charge_id body saga db
       else (problem_response ''Refund Not Applicable'' 409, db))"

section \<open>Top-ups\<close>

record topup_response =
  tp_id :: nat
  tp_state :: string
  tp_amount :: string
  tp_balance_after :: "string option"

definition topup_response_of :: "saga_instance \<Rightarrow> rat option \<Rightarrow> topup_response" where
  "topup_response_of saga balance_after =
     \<lparr>tp_id = sg_id saga, tp_state = sg_state saga, tp_amount = fmt 2 (reserved_amount saga),
      tp_balance_after = map_option (fmt 2) balance_after\<rparr>"

definition create_topup ::
  "settings \<Rightarrow> datetime \<Rightarrow> topup_request \<Rightarrow> nat \<Rightarrow> string \<Rightarrow> billing_db \<Rightarrow>
   topup_response outcome \<times> billing_db" where
  "create_topup cfg now body user key db =
     (if \<not> validate_idempotency_key key then (HttpError 400, db)
      else
        (let started = start_saga cfg now ''topup'' user key
               [(''reference_id'', JStr (tr_reference body)), (''purpose'', JStr ''topup'')]
               (Some (tr_amount body)) (open_session db);
             s = snd started
         in case fst started of
              Inl (CrossTenantKeyError _ _ _) \<Rightarrow> (problem_response ''Cross-tenant key reuse forbidden'' 403, committed s)
            | Inl (IdempotencyConflictError _ _ _) \<Rightarrow> (problem_response ''Idempotency Conflict'' 409, committed s)
            | Inl _ \<Rightarrow> (ServerError, committed s)
            | Inr saga \<Rightarrow> (Returned (topup_response_of saga None), working s)))"

definition topup_ledger_rows :: "nat \<Rightarrow> billing_db \<Rightarrow> credit_transaction list" where
  "topup_ledger_rows topup_id db =
     filter (\<lambda>r. ct_saga r = Some topup_id \<and> ct_kind r = ''topup'' \<and> ct_bucket r = ''topup'') (db_ledger db)"

definition ledger_payment_ref :: "credit_transaction \<Rightarrow> string option" where
  "ledger_payment_ref row =
     (case dict_get ''payment_ref'' (ct_meta row) of Some (JStr s) \<Rightarrow> Some s | _ \<Rightarrow> None)"

definition confirm_topup ::
  "datetime \<Rightarrow> nat \<Rightarrow> topup_confirm \<Rightarrow> billing_db \<Rightarrow> topup_response outcome \<times> billing_db" where
  "confirm_topup now topup_id body db =
     (case saga_get topup_id db of
        None \<Rightarrow> (problem_response ''Topup Not Found'' 404, db)
      | Some saga \<Rightarrow>
          if sg_type saga \<noteq> ''topup'' then (problem_response ''Topup Not Found'' 404, db)
          else (case topup_ledger_rows topup_id db of
              row # _ \<Rightarrow>
                if ledger_payment_ref row \<noteq> Some (tc_payment_ref body)
                then (problem_response ''Payment Reference Conflict'' 409, db)
                else (Returned (topup_response_of saga (Some (balance_for (sg_user saga) db))), db)
            | [] \<Rightarrow>
                if sg_state saga \<noteq> ''pending'' then (problem_response ''Topup Already Finalized'' 409, db)
                else
                  (let saga1 = saga\<lparr>sg_state := ''completed'', sg_updated := now\<rparr>;
                       db1 = saga_put saga1 db;
                       db2 = add_credit (sg_user saga1) (Some (sg_id saga1)) (reserved_amount saga1) ''topup'' ''topup''
                               [(''provider'', JStr (tc_provider body)), (''payment_ref'', JStr (tc_payment_ref body)),
                                (''expires_at'', JNull)] now db1;
                       db3 = add_outbox ''saga_instance'' (sg_id saga1) ''billing.topup.confirmed''
                               [(''saga_id'', JId (sg_id saga1)), (''saga_type'', JStr (sg_type saga1)),
                                (''to_state'', JStr (sg_state saga1)), (''bucket'', JStr ''topup''),
                                (''provider'', JStr (tc_provider body)), (''payment_ref'', JStr (tc_payment_ref body))]
                               [(''compensation'', JStr ''none'')] now db2
                   in (Returned (topup_response_of saga1 (Some (balance_for (sg_user saga1) db3))), db3))))"

end
