(* ===== verification/ChargeLedger.thy ===== *)
theory ChargeLedger
  imports Refunds
begin

text \<open>
  What the charge, refund and top-up routes do to the ledger: which rows a handler adds, what a saga's
  rows sum to in each of its states, and the invariant that every handler keeps.
\<close>

section \<open>Sums of a saga's rows and of a user's rows\<close>

definition kind_total :: "string \<Rightarrow> nat \<Rightarrow> billing_db \<Rightarrow> rat" where
  "kind_total k i db = ledger_sum (\<lambda>r. ct_saga r = Some i \<and> ct_kind r = k) db"

definition user_total :: "nat \<Rightarrow> billing_db \<Rightarrow> rat" where
  "user_total u db = ledger_sum (\<lambda>r. ct_user r = u) db"

lemma kind_sum_rows: "kind_sum k (ledger_rows_for_saga i db) = kind_total k i db"
  by (simp add: kind_sum_def ledger_rows_for_saga_def kind_total_def ledger_sum_def sum_where_filter conj_commute)

lemma saga_sum_rows: "saga_sum i db = sum_list (map ct_amount (ledger_rows_for_saga i db))"
  by (simp add: saga_sum_def ledger_sum_def sum_where_def ledger_rows_for_saga_def)

lemma kind_total_no_rows: "ledger_rows_for_saga i db = [] \<Longrightarrow> kind_total k i db = 0"
  by (simp flip: kind_sum_rows) (simp add: kind_sum_def)

lemma totals_cong:
  "db_ledger db = db_ledger db' \<Longrightarrow> kind_total k i db = kind_total k i db'"
  "db_ledger db = db_ledger db' \<Longrightarrow> user_total u db = user_total u db'"
  "db_ledger db = db_ledger db' \<Longrightarrow> ledger_rows_for_saga i db = ledger_rows_for_saga i db'"
  "db_ledger db = db_ledger db' \<Longrightarrow> saga_sum i db = saga_sum i db'"
  by (simp_all add: kind_total_def user_total_def ledger_rows_for_saga_def ledger_sum_def saga_sum_def)

lemma totals_add_credit [simp]:
  "kind_total k i (add_credit u s a kd b m now db) =
     kind_total k i db + (if s = Some i \<and> kd = k then pg_numeric 4 a else 0)"
  "user_total v (add_credit u s a kd b m now db) = user_total v db + (if u = v then pg_numeric 4 a else 0)"
  by (simp_all add: kind_total_def user_total_def ledger_sum_add_credit)

lemma totals_frame [simp]:
  "kind_total k i (saga_put s db) = kind_total k i db" "user_total u (saga_put s db) = user_total u db"
  "kind_total k i (add_outbox a1 a2 a3 a4 a5 now db) = kind_total k i db"
  "user_total u (add_outbox a1 a2 a3 a4 a5 now db) = user_total u db"
  "ledger_rows_for_saga i (saga_put s db) = ledger_rows_for_saga i db"
  "ledger_rows_for_saga i (add_outbox a1 a2 a3 a4 a5 now db) = ledger_rows_for_saga i db"
  by (rule totals_cong; simp)+

lemma rows_add_credit:
  "s \<noteq> Some i \<Longrightarrow> ledger_rows_for_saga i (add_credit u s a kd b m now db) = ledger_rows_for_saga i db"
  by (simp add: ledger_rows_for_saga_def add_credit_def)

lemma balance_user_total: "ledger_scaled db \<Longrightarrow> balance_for u db = user_total u db"
  unfolding user_total_def by (rule balance_for_eq)

text \<open>The kind of the row a trigger writes.\<close>

definition ledger_kind :: "string \<Rightarrow> string option" where
  "ledger_kind trig = map_option fst (map_of CHARGE_TRIGGERS trig)"

lemma ledger_kind_simps [simp]:
  "ledger_kind ''reserve'' = None" "ledger_kind ''service_success'' = Some ''charge''"
  "ledger_kind ''user_cancel'' = Some ''refund''" "ledger_kind ''downstream_reject_late'' = Some ''refund''"
  by (simp_all add: ledger_kind_def CHARGE_TRIGGERS_def)

lemma write_credit_totals:
  assumes "amount_scaled s"
  shows "kind_total k i (write_credit now g c s db) =
      kind_total k i db + (if i = sg_id s \<and> ledger_kind g = Some k then ledger_sign g * reserved_amount s else 0)"
    and "user_total u (write_credit now g c s db) =
      user_total u db + (if u = sg_user s then ledger_sign g * reserved_amount s else 0)"
proof -
  have exact: "pg_numeric 4 (a * sign) = sign * a"
    if "has_scale 4 a" "sign = 1 \<or> sign = -1" for a sign :: rat
    using that pg_numeric_exact [of 4 "a * sign"] has_scale_minus [of 4 a] by auto
  show "kind_total k i (write_credit now g c s db) =
      kind_total k i db + (if i = sg_id s \<and> ledger_kind g = Some k then ledger_sign g * reserved_amount s else 0)"
    using assms exact charge_sign_unit
    by (auto simp: write_credit_def ledger_sign_def ledger_kind_def read_amount_def reserved_amount_def
        amount_scaled_def split: option.splits)
  show "user_total u (write_credit now g c s db) =
      user_total u db + (if u = sg_user s then ledger_sign g * reserved_amount s else 0)"
    using assms exact charge_sign_unit
    by (auto simp: write_credit_def ledger_sign_def ledger_kind_def read_amount_def reserved_amount_def
        amount_scaled_def split: option.splits)
qed

lemma write_credit_rows:
  "j \<noteq> sg_id s \<or> ledger_kind g = None \<Longrightarrow>
   ledger_rows_for_saga j (write_credit now g c s db) = ledger_rows_for_saga j db"
  by (auto simp: write_credit_def ledger_kind_def rows_add_credit split: option.splits)

lemma write_event_totals [simp]:
  "kind_total k i (write_event now g c s t db) = kind_total k i db"
  "user_total u (write_event now g c s t db) = user_total u db"
  "ledger_rows_for_saga i (write_event now g c s t db) = ledger_rows_for_saga i db"
  by (rule totals_cong; simp)+

lemma scaled_frame [simp]:
  "ledger_scaled (write_event now g c s t db) = ledger_scaled db" "ledger_scaled (saga_put s db) = ledger_scaled db"
  "ledger_scaled (add_outbox a1 a2 a3 a4 a5 now db) = ledger_scaled db"
  by (rule ledger_scaled_cong; simp)+

lemma after_step_totals:
  assumes "amount_scaled s"
  shows "kind_total k i (after_step now g c s t db) =
      kind_total k i db + (if i = sg_id s \<and> ledger_kind g = Some k then ledger_sign g * reserved_amount s else 0)"
    and "user_total u (after_step now g c s t db) =
      user_total u db + (if u = sg_user s then ledger_sign g * reserved_amount s else 0)"
  using assms by (simp_all add: after_step_def Let_def write_credit_totals)

lemma after_step_rows:
  "j \<noteq> sg_id s \<or> ledger_kind g = None \<Longrightarrow>
   ledger_rows_for_saga j (after_step now g c s t db) = ledger_rows_for_saga j db"
  using write_credit_rows [of j "s\<lparr>sg_state := state_value (to_state t), sg_updated := now\<rparr>" g]
  by (simp add: after_step_def Let_def)

section \<open>What a handler leaves alone\<close>

text \<open>
  \<open>touches i db db'\<close>: of the sagas and their ledger rows at most those of saga \<open>i\<close> differ, the key table
  is the same, identifiers are only drawn, and stored amounts stay at four digits.
\<close>

definition touches :: "nat \<Rightarrow> billing_db \<Rightarrow> billing_db \<Rightarrow> bool" where
  "touches i db db' \<longleftrightarrow>
     (\<forall>j. j \<noteq> i \<longrightarrow> saga_get j db' = saga_get j db \<and> ledger_rows_for_saga j db' = ledger_rows_for_saga j db) \<and>
     db_idem db' = db_idem db \<and> db_next_id db \<le> db_next_id db' \<and> (ledger_scaled db \<longrightarrow> ledger_scaled db')"

lemma touches_refl [simp]: "touches i db db"
  by (simp add: touches_def)

lemma touches_trans: "touches i db db' \<Longrightarrow> touches i db' db'' \<Longrightarrow> touches i db db''"
  by (auto simp: touches_def)

lemma touches_same:
  assumes "db_sagas db' = db_sagas db" "db_ledger db' = db_ledger db" "db_idem db' = db_idem db"
    "db_next_id db \<le> db_next_id db'"
  shows "touches i db db'"
  using assms totals_cong(3) [OF assms(2)] ledger_scaled_cong [OF assms(2)] saga_get_cong [OF assms(1)]
  by (simp add: touches_def)

lemma touches_add_credit: "touches i db (add_credit u (Some i) a kd b m now db)"
  by (simp add: touches_def rows_add_credit)

lemma touches_add_outbox: "touches i db (add_outbox a1 a2 a3 a4 a5 now db)"
  by (rule touches_same) simp_all

lemma write_credit_next: "db_next_id db \<le> db_next_id (write_credit now g c s db)"
  by (auto simp: write_credit_def split: option.splits)

lemma touches_after_step:
  assumes "saga_get i db = Some s"
  shows "touches i db (after_step now g c s t db)"
proof -
  have i: "sg_id s = i" using assms saga_rows.get_key by blast
  have "db_next_id db \<le> db_next_id (after_step now g c s t db)"
    using write_credit_next [of "saga_put (s\<lparr>sg_state := state_value (to_state t), sg_updated := now\<rparr>) db"]
    by (simp add: after_step_def Let_def write_event_def le_SucI)
  moreover have "db_idem (after_step now g c s t db) = db_idem db"
    by (simp add: after_step_def Let_def)
  moreover have "ledger_scaled (after_step now g c s t db) = ledger_scaled db"
    by (simp add: after_step_def Let_def)
  ultimately show ?thesis
    using after_step_get [OF assms] after_step_rows [of _ s g] by (simp add: touches_def i)
qed

section \<open>The invariant of the money\<close>

text \<open>
  What a saga's rows are in each state. A reservation writes nothing; a charge is the debit of the
  reserved amount less a partial refund; the refunds of a reserved and of a charged saga net to zero; a
  confirmed top-up is its amount.
\<close>

definition money_ok :: "saga_instance \<Rightarrow> billing_db \<Rightarrow> bool" where
  "money_ok s db \<longleftrightarrow> 0 \<le> reserved_amount s \<and>
     (case state_of (sg_state s) of
        Some PENDING \<Rightarrow> ledger_rows_for_saga (sg_id s) db = []
      | Some RESERVED \<Rightarrow> ledger_rows_for_saga (sg_id s) db = []
      | Some FAILED \<Rightarrow> ledger_rows_for_saga (sg_id s) db = []
      | Some CHARGED \<Rightarrow>
          kind_total ''charge'' (sg_id s) db = - reserved_amount s \<and>
          0 \<le> kind_total ''refund_partial'' (sg_id s) db \<and>
          kind_total ''refund_partial'' (sg_id s) db \<le> reserved_amount s \<and>
          saga_sum (sg_id s) db = - reserved_amount s + kind_total ''refund_partial'' (sg_id s) db
      | Some COMPLETED \<Rightarrow> sg_type s = ''topup'' \<and> saga_sum (sg_id s) db = reserved_amount s
      | Some REFUNDED \<Rightarrow> saga_sum (sg_id s) db = 0
      | Some ROLLED_BACK \<Rightarrow> saga_sum (sg_id s) db = 0
      | None \<Rightarrow> False)"

definition money_inv :: "billing_db \<Rightarrow> bool" where
  "money_inv db \<longleftrightarrow> sagas_scaled db \<and> ledger_scaled db \<and> idem_linked db \<and>
     (\<forall>i s. saga_get i db = Some s \<longrightarrow> i < db_next_id db \<and> money_ok s db) \<and>
     (\<forall>i. saga_get i db = None \<longrightarrow> ledger_rows_for_saga i db = [])"

lemma money_inv_empty: "money_inv empty_db"
  by (simp add: money_inv_def empty_db_def sagas_scaled_def ledger_scaled_def idem_linked_def saga_get_def
      idem_get_def ledger_rows_for_saga_def)

lemma money_invD:
  assumes "money_inv db" "saga_get i db = Some s"
  shows "money_ok s db" "i < db_next_id db" "amount_scaled s" "0 \<le> reserved_amount s" "sagas_scaled db" "ledger_scaled db"
  using assms sagas_scaled_get by (auto simp: money_inv_def money_ok_def)

lemma money_fresh: "money_inv db \<Longrightarrow> saga_get (db_next_id db) db = None"
  by (metis less_irrefl money_inv_def not_Some_eq)

text \<open>
  The step of the invariant: a handler that touches one saga keeps its amount, owner and key, and its
  rows are right for the state it is in now.
\<close>

lemma money_inv_step:
  assumes "money_inv db" "touches i db db'" "saga_get i db = Some s" "saga_get i db' = Some s'"
    and "sg_user s' = sg_user s" "sg_idem s' = sg_idem s" "amount_scaled s'" "money_ok s' db'"
  shows "money_inv db'"
proof -
  have other: "saga_get j db' = saga_get j db" "ledger_rows_for_saga j db' = ledger_rows_for_saga j db"
    if "j \<noteq> i" for j using assms(2) that by (auto simp: touches_def)
  have "sg_id s' = i" using assms(4) saga_rows.get_key by blast
  have ok: "money_ok x db' \<and> j < db_next_id db'" if x: "saga_get j db' = Some x" for j x
  proof (cases "j = i")
    case True
    with x assms(2,4,8) money_invD(2) [OF assms(1,3)] show ?thesis by (simp add: touches_def)
  next
    case False
    then have j: "sg_id x = j" "money_ok x db" "j < db_next_id db"
      using x other money_invD(1,2) [OF assms(1)] saga_rows.get_key by auto
    have totals: "kind_total k j db' = kind_total k j db" "saga_sum j db' = saga_sum j db" for k
      using other [OF False] by (simp_all flip: kind_sum_rows add: saga_sum_rows)
    have "money_ok x db' = money_ok x db"
      unfolding money_ok_def j(1) totals other(2) [OF False] by (rule refl)
    with j assms(2) show ?thesis by (simp add: touches_def)
  qed
  have "sagas_scaled db'"
    unfolding sagas_scaled_def
  proof (intro allI impI)
    fix j x assume "saga_get j db' = Some x"
    then show "amount_scaled x"
      using other assms(4,7) money_invD(3) [OF assms(1)] by (cases "j = i") auto
  qed
  moreover have "ledger_scaled db'" "db_idem db' = db_idem db"
    using assms(1,2) by (auto simp: money_inv_def touches_def)
  moreover have "idem_linked db'"
    unfolding idem_linked_def
  proof (intro allI impI)
    fix key row j
    assume row: "idem_get key db' = Some row" "ik_saga row = Some j"
    then have "idem_get key db = Some row" using \<open>db_idem db' = db_idem db\<close> by (simp add: idem_get_def)
    with row assms(1) obtain x where "saga_get j db = Some x" "sg_user x = ik_user row" "sg_idem x = Some key"
      by (auto simp: money_inv_def elim: idem_linkedD)
    then show "\<exists>x. saga_get j db' = Some x \<and> sg_user x = ik_user row \<and> sg_idem x = Some key"
      using other assms(3,4,5,6) by (cases "j = i") auto
  qed
  moreover have "ledger_rows_for_saga j db' = []" if "saga_get j db' = None" for j
    using that other assms(1,4) by (cases "j = i") (auto simp: money_inv_def)
  ultimately show ?thesis using ok by (simp add: money_inv_def)
qed

section \<open>An applied trigger inside a handler\<close>

definition fired :: "state \<Rightarrow> string \<Rightarrow> transition" where
  "fired a g = the (find_transition (state_value a) g)"

lemma to_state_fired: "saga_step a g b \<Longrightarrow> to_state (fired a g) = b"
  unfolding fired_def by (erule step_find_transition) simp

lemma handler_steps:
  "saga_step PENDING ''reserve'' RESERVED" "saga_step RESERVED ''service_success'' CHARGED"
  "saga_step RESERVED ''user_cancel'' REFUNDED" "saga_step CHARGED ''downstream_reject_late'' ROLLED_BACK"
  by (simp_all add: saga_step_iff)

lemma to_state_fired_simps [simp]:
  "to_state (fired PENDING ''reserve'') = RESERVED"
  "to_state (fired RESERVED ''service_success'') = CHARGED"
  "to_state (fired RESERVED ''user_cancel'') = REFUNDED"
  "to_state (fired CHARGED ''downstream_reject_late'') = ROLLED_BACK"
  by (rule to_state_fired, simp add: saga_step_iff)+

lemma on_applied_step:
  assumes "saga_get i db = Some s" "sg_state s = state_value a" "saga_step a g b"
  shows "on_applied title db0 (apply_saga now i g ctx db) k =
    k (s\<lparr>sg_state := state_value b, sg_updated := now\<rparr>) (after_step now g ctx s (fired a g) db)"
proof -
  have "find_transition (sg_state s) g = Some (fired a g)"
    unfolding assms(2) fired_def using assms(3) by (auto elim: step_find_transition)
  from apply_found [OF assms(1) this, of now ctx] show ?thesis
    by (simp add: on_applied_def to_state_fired [OF assms(3)])
qed

lemma on_applied_refused:
  assumes "saga_get i db = Some s" "sg_state s = state_value a" "\<nexists>b. saga_step a g b"
  shows "on_applied title db0 (apply_saga now i g ctx db) k =
    (if \<exists>a'. saga_step a' g a then k s db else (problem_response title 409, db0))"
  using apply_refused [OF assms, of now ctx] by (auto simp: on_applied_def)

lemma on_applied_missing:
  "saga_get i db = None \<Longrightarrow> on_applied title db0 (apply_saga now i g ctx db) k = (ServerError, db0)"
  by (simp add: on_applied_def apply_missing)

lemma with_own_saga_cases:
  "with_own_saga i user db k =
     (case saga_get i db of
        None \<Rightarrow> (problem_response ''Charge Not Found'' 404, db)
      | Some s \<Rightarrow> if sg_user s \<noteq> user then (problem_response ''Forbidden'' 403, db) else k s)"
  by (simp add: with_own_saga_def get_saga_def split: option.split)

lemma known_state:
  assumes "money_inv db" "saga_get i db = Some s"
  obtains a where "sg_state s = state_value a"
  using money_invD(1) [OF assms] by (auto simp: money_ok_def split: option.splits dest: state_of_SomeD)

lemma state_of_value_eq: "sg_state s = state_value a \<Longrightarrow> state_of (sg_state s) = Some a"
  by simp

lemmas money_ok_state = money_ok_def state_of_value_eq

end
