(* ===== verification/ChargeSafety.thy ===== *)
theory ChargeSafety
  imports ChargeLedger
begin

text \<open>
  Every charge, refund and top-up handler keeps the money invariant; what each of them does to the ledger
  and to the balance, on every branch.
\<close>

section \<open>Steps that leave the ledger alone\<close>

lemma write_once_next:
  "n \<le> db_next_id db \<Longrightarrow> n \<le> db_next_id (snd (write_budget_event_once now c ty p sp db))"
  by (simp add: write_budget_event_once_def Let_def)

lemma evaluate_next: "db_next_id db \<le> db_next_id (snd (evaluate_budget_thresholds now u g db))"
  by (auto simp: evaluate_budget_thresholds_def Let_def split: option.split intro!: write_once_next)

lemma evaluate_tables [simp]:
  "db_ledger (snd (evaluate_budget_thresholds now u g db)) = db_ledger db"
  "db_sagas (snd (evaluate_budget_thresholds now u g db)) = db_sagas db"
  "db_idem (snd (evaluate_budget_thresholds now u g db)) = db_idem db"
  using evaluate_same_money [of db now u g] by (simp_all add: same_money_tables_def)

lemma record_cost_tables [simp]:
  "db_ledger (record_billing_cost_attribution s e st db) = db_ledger db"
  "db_sagas (record_billing_cost_attribution s e st db) = db_sagas db"
  "db_idem (record_billing_cost_attribution s e st db) = db_idem db"
  by (auto simp: record_billing_cost_attribution_def Let_def dest: record_cost_frame split: option.split)

lemma record_cost_next: "db_next_id db \<le> db_next_id (record_billing_cost_attribution s e st db)"
  by (auto simp: record_billing_cost_attribution_def record_cost_event_def Let_def split: option.splits)

lemma quiet_totals [simp]:
  "kind_total k i (snd (evaluate_budget_thresholds now u g db)) = kind_total k i db"
  "user_total v (snd (evaluate_budget_thresholds now u g db)) = user_total v db"
  "saga_sum i (snd (evaluate_budget_thresholds now u g db)) = saga_sum i db"
  "ledger_scaled (snd (evaluate_budget_thresholds now u g db)) = ledger_scaled db"
  "kind_total k i (record_billing_cost_attribution s e st db) = kind_total k i db"
  "user_total v (record_billing_cost_attribution s e st db) = user_total v db"
  "saga_sum i (record_billing_cost_attribution s e st db) = saga_sum i db"
  "ledger_scaled (record_billing_cost_attribution s e st db) = ledger_scaled db"
  by (rule totals_cong ledger_scaled_cong; simp)+

lemma quiet_get [simp]:
  "saga_get i (snd (evaluate_budget_thresholds now u g db)) = saga_get i db"
  "saga_get i (record_billing_cost_attribution s e st db) = saga_get i db"
  by (rule saga_get_cong; simp)+

lemma touches_evaluate: "touches i db (snd (evaluate_budget_thresholds now u g db))"
  by (rule touches_same) (simp_all add: evaluate_next)

lemma touches_cost: "touches i db (record_billing_cost_attribution s e st db)"
  by (rule touches_same) (simp_all add: record_cost_next)

section \<open>Reserve\<close>

lemma reserve_pending:
  assumes "saga_get i db = Some s" "sg_user s = user" "sg_state s = state_value PENDING"
  shows "snd (reserve_charge now i user db) = after_step now ''reserve'' [] s (fired PENDING ''reserve'') db"
    and "is_returned (fst (reserve_charge now i user db))"
  using assms(1,2)
  by (simp_all add: reserve_charge_def with_own_saga_cases on_applied_step [OF assms(1,3) handler_steps(1)])

lemma reserve_other:
  assumes "saga_get i db = Some s" "sg_user s = user" "sg_state s = state_value a" "a \<noteq> PENDING"
  shows "snd (reserve_charge now i user db) = db"
  using assms(1,2,4)
  by (auto simp: reserve_charge_def with_own_saga_cases on_applied_refused [OF assms(1,3)] saga_step_iff)

lemma reserve_foreign:
  "\<nexists>s. saga_get i db = Some s \<and> sg_user s = user \<Longrightarrow> snd (reserve_charge now i user db) = db"
  by (auto simp: reserve_charge_def with_own_saga_cases split: option.split)

lemma reserve_keeps_money:
  assumes "money_inv db"
  shows "money_inv (snd (reserve_charge now i user db))"
proof (cases "\<exists>s. saga_get i db = Some s \<and> sg_user s = user")
  case False
  then show ?thesis using assms by (simp add: reserve_foreign)
next
  case True
  then obtain s where s: "saga_get i db = Some s" "sg_user s = user" by blast
  obtain a where a: "sg_state s = state_value a" using known_state [OF assms s(1)] by blast
  show ?thesis
  proof (cases "a = PENDING")
    case True
    let ?s = "s\<lparr>sg_state := state_value RESERVED, sg_updated := now\<rparr>"
    let ?db = "after_step now ''reserve'' [] s (fired PENDING ''reserve'') db"
    have "money_ok ?s ?db"
      using money_invD(1) [OF assms s(1)] a True by (simp add: money_ok_def after_step_rows)
    then have "money_inv ?db"
      using money_inv_step [OF assms touches_after_step [OF s(1)] s(1), of now "''reserve''" "[]" "fired PENDING ''reserve''" ?s]
        money_invD(3) [OF assms s(1)] after_step_get [OF s(1)] by simp
    then show ?thesis using reserve_pending(1) [OF s, of now] a True by simp
  next
    case False
    then show ?thesis using reserve_other [OF s a] assms by simp
  qed
qed

section \<open>Finalize\<close>

text \<open>Settings under which the charge formula is meaningful.\<close>

definition settings_ok :: "settings \<Rightarrow> bool" where
  "settings_ok cfg \<longleftrightarrow> 0 \<le> charge_min_amount cfg \<and> has_scale 2 (charge_min_amount cfg) \<and>
     0 < lp_rate_per_second cfg \<and> 0 \<le> saga_idempotency_ttl_hours cfg \<and> 0 \<le> j1_demo_seed_amount cfg"

lemma charge_amount_range:
  assumes "0 \<le> m" "0 \<le> R"
  shows "0 \<le> compute_charge_amount e cap rate m R d" "m \<le> R \<Longrightarrow> compute_charge_amount e cap rate m R d \<le> R"
  using assms by (auto simp: compute_charge_amount_def Let_def)

lemma charge_amount_scale4:
  assumes "has_scale 2 m" "has_scale 4 R"
  shows "has_scale 4 (compute_charge_amount e cap rate m R d)"
proof -
  have "has_scale 4 m" "has_scale 4 (quantize_half_up 2 x)" for x
    using has_scale_mono [OF assms(1), of 4] has_scale_mono [OF half_up.quantize_scale, of 2 4]
    by (simp_all add: quantize_half_up_def)
  with assms(2) show ?thesis by (simp add: compute_charge_amount_def Let_def)
qed

text \<open>The partial refund a finalized charge writes.\<close>

definition partial_refund :: "rat \<Rightarrow> rat \<Rightarrow> rat" where
  "partial_refund reserved actual = (if actual < reserved then reserved - actual else 0)"

lemma partial_refund_range: "0 \<le> actual \<Longrightarrow> 0 \<le> reserved \<Longrightarrow> 0 \<le> partial_refund reserved actual \<and> partial_refund reserved actual \<le> reserved"
  by (simp add: partial_refund_def)

lemma partial_refund_scale: "has_scale 4 a \<Longrightarrow> has_scale 4 r \<Longrightarrow> has_scale 4 (partial_refund r a)"
  by (auto simp: partial_refund_def)

lemma finalize_success_effect:
  assumes "has_scale 4 actual" "has_scale 4 reserved" "sg_id s = i"
    and db'_def: "db' = snd (finalize_success now body user reserved actual before s db)"
  shows "touches i db db'" "saga_get j db' = saga_get j db"
    "kind_total k i db' = kind_total k i db + (if k = ''refund_partial'' then partial_refund reserved actual else 0)"
    "saga_sum i db' = saga_sum i db + partial_refund reserved actual"
    "user_total v db' = user_total v db + (if v = user then partial_refund reserved actual else 0)"
proof -
  have exact: "pg_numeric 4 (reserved - actual) = reserved - actual" using assms(1,2) by (intro pg_numeric_exact) auto
  show "touches i db db'"
    using assms(3) touches_trans [OF touches_trans [OF touches_add_credit touches_cost] touches_evaluate]
      touches_trans [OF touches_cost touches_evaluate]
    by (simp add: db'_def finalize_success_def Let_def)
  show "saga_get j db' = saga_get j db" by (simp add: db'_def finalize_success_def Let_def)
  show "kind_total k i db' = kind_total k i db + (if k = ''refund_partial'' then partial_refund reserved actual else 0)"
    using assms(3) exact by (auto simp: db'_def finalize_success_def Let_def partial_refund_def)
  show "saga_sum i db' = saga_sum i db + partial_refund reserved actual"
    using assms(3) exact by (simp add: db'_def finalize_success_def Let_def partial_refund_def)
  show "user_total v db' = user_total v db + (if v = user then partial_refund reserved actual else 0)"
    using exact by (auto simp: db'_def finalize_success_def Let_def partial_refund_def)
qed

lemma finalize_failure_effect:
  assumes "has_scale 4 reserved" "sg_id s = i"
    and db'_def: "db' = snd (finalize_failure now body user reserved before s db)"
  shows "touches i db db'" "saga_get j db' = saga_get j db"
    "saga_sum i db' = saga_sum i db - reserved"
    "user_total v db' = user_total v db - (if v = user then reserved else 0)"
proof -
  have exact: "pg_numeric 4 (- reserved) = - reserved" using assms(1) by (intro pg_numeric_exact) auto
  show "touches i db db'"
    using assms(2) touches_trans [OF touches_add_credit touches_evaluate]
    by (simp add: db'_def finalize_failure_def Let_def)
  show "saga_get j db' = saga_get j db" by (simp add: db'_def finalize_failure_def Let_def)
  show "saga_sum i db' = saga_sum i db - reserved"
    using assms(2) exact by (simp add: db'_def finalize_failure_def Let_def)
  show "user_total v db' = user_total v db - (if v = user then reserved else 0)"
    using exact by (auto simp: db'_def finalize_failure_def Let_def)
qed

text \<open>The contexts the two branches pass to \<open>apply\<close>.\<close>

definition success_context :: "finalize_request \<Rightarrow> rat \<Rightarrow> rat \<Rightarrow> jdict" where
  "success_context body reserved actual =
     [(''reserved_amount'', JStr (fmt 4 reserved)), (''actual_amount'', JStr (fmt 4 actual)),
      (''elapsed_seconds'', JNum (fr_elapsed body))] @ discount_context (fr_discount body)"

definition failure_context :: "finalize_request \<Rightarrow> jdict" where
  "failure_context body =
     [(''failure_reason'', JStr (failure_reason_text body)), (''elapsed_seconds'', JNum (fr_elapsed body))]"

lemma finalize_reserved:
  assumes "saga_get i db = Some s" "sg_user s = user" "sg_state s = state_value RESERVED"
  shows "fr_success body \<Longrightarrow> finalize_amount cfg body s = Some actual \<Longrightarrow>
      finalize_charge cfg now i body user db =
        finalize_success now body user (reserved_amount s) actual (balance_for user db)
          (s\<lparr>sg_state := state_value CHARGED, sg_updated := now\<rparr>)
          (after_step now ''service_success'' (success_context body (reserved_amount s) actual) s
            (fired RESERVED ''service_success'') db)"
    and "\<not> fr_success body \<Longrightarrow>
      finalize_charge cfg now i body user db =
        finalize_failure now body user (reserved_amount s) (balance_for user db)
          (s\<lparr>sg_state := state_value REFUNDED, sg_updated := now\<rparr>)
          (after_step now ''user_cancel'' (failure_context body) s (fired RESERVED ''user_cancel'') db)"
  using assms(1,2,3)
  by (simp_all add: finalize_charge_def with_own_saga_cases Let_def success_context_def failure_context_def
      on_applied_step [OF assms(1,3) handler_steps(2)] on_applied_step [OF assms(1,3) handler_steps(3)])

lemma finalize_elsewhere:
  assumes "\<nexists>s. saga_get i db = Some s \<and> sg_user s = user \<and> sg_state s = state_value RESERVED" "money_inv db"
  shows "snd (finalize_charge cfg now i body user db) = db"
proof (cases "\<exists>s. saga_get i db = Some s \<and> sg_user s = user")
  case False
  then show ?thesis by (auto simp: finalize_charge_def with_own_saga_cases split: option.split)
next
  case True
  then obtain s where s: "saga_get i db = Some s" "sg_user s = user" by blast
  obtain a where a: "sg_state s = state_value a" using known_state [OF assms(2) s(1)] by blast
  then have "a \<noteq> RESERVED" using assms(1) s by auto
  then show ?thesis
    using s a
    by (cases a; simp add: finalize_charge_def with_own_saga_cases Let_def on_applied_refused [OF s(1) a]
        saga_step_iff split: option.split)
qed

lemma finalize_amount_range:
  assumes "finalize_amount cfg body s = Some actual" "settings_ok cfg" "amount_scaled s" "0 \<le> reserved_amount s"
  shows "0 \<le> actual" "has_scale 4 actual" "charge_min_amount cfg \<le> reserved_amount s \<Longrightarrow> actual \<le> reserved_amount s"
    "charge_min_amount cfg \<le> reserved_amount s \<Longrightarrow> charge_min_amount cfg \<le> actual"
proof -
  obtain cap where actual: "actual = compute_charge_amount (fr_elapsed body) cap (lp_rate_per_second cfg)
      (charge_min_amount cfg) (reserved_amount s) (fr_discount body)"
    using assms(1) by (auto simp: finalize_amount_def)
  show "0 \<le> actual" "has_scale 4 actual" "charge_min_amount cfg \<le> reserved_amount s \<Longrightarrow> actual \<le> reserved_amount s"
    "charge_min_amount cfg \<le> reserved_amount s \<Longrightarrow> charge_min_amount cfg \<le> actual"
    using assms(2,3,4) charge_amount_range charge_amount_scale4 charge_bounds
    by (auto simp: actual settings_ok_def amount_scaled_def)
qed

text \<open>What a successful finalization leaves.\<close>

lemma finalize_success_result:
  assumes inv: "money_inv db" and s: "saga_get i db = Some s" "sg_user s = user" "sg_state s = state_value RESERVED"
    and body: "fr_success body" "finalize_amount cfg body s = Some actual" and cfg: "settings_ok cfg"
    and db': "db' = snd (finalize_charge cfg now i body user db)"
  shows "touches i db db'" "saga_get i db' = Some (s\<lparr>sg_state := state_value CHARGED, sg_updated := now\<rparr>)"
    "kind_total ''charge'' i db' = - reserved_amount s"
    "kind_total ''refund_partial'' i db' = partial_refund (reserved_amount s) actual"
    "saga_sum i db' = - reserved_amount s + partial_refund (reserved_amount s) actual"
    "user_total v db' = user_total v db +
      (if v = user then - reserved_amount s + partial_refund (reserved_amount s) actual else 0)"
proof -
  define db1 where "db1 = after_step now ''service_success'' (success_context body (reserved_amount s) actual) s
    (fired RESERVED ''service_success'') db"
  note m = money_invD [OF inv s(1)]
  have i: "sg_id s = i" using s(1) saga_rows.get_key by blast
  have rows: "ledger_rows_for_saga i db = []" using m(1) s(3) i by (simp add: money_ok_def)
  have db'_eq: "db' = snd (finalize_success now body user (reserved_amount s) actual (balance_for user db)
      (s\<lparr>sg_state := state_value CHARGED, sg_updated := now\<rparr>) db1)"
    by (simp only: db' db1_def finalize_reserved(1) [OF s body])
  have scales: "has_scale 4 actual" "has_scale 4 (reserved_amount s)"
    using finalize_amount_range(2) [OF body(2) cfg m(3,4)] m(3) by (auto simp: amount_scaled_def)
  note effect = finalize_success_effect [OF scales _ db'_eq, of i]
  have t: "touches i db db1" unfolding db1_def by (rule touches_after_step [OF s(1)])
  show "touches i db db'" using touches_trans [OF t effect(1)] i by simp
  show "saga_get i db' = Some (s\<lparr>sg_state := state_value CHARGED, sg_updated := now\<rparr>)"
    using effect(2) after_step_get [OF s(1), of i] i by (simp add: db1_def)
  show "kind_total ''charge'' i db' = - reserved_amount s"
    "kind_total ''refund_partial'' i db' = partial_refund (reserved_amount s) actual"
    using effect(3) i rows after_step_totals(1) [OF m(3)] by (simp_all add: db1_def kind_total_no_rows)
  show "saga_sum i db' = - reserved_amount s + partial_refund (reserved_amount s) actual"
    using effect(4) i rows after_step_sum [OF m(3)] by (simp add: db1_def saga_sum_rows [of _ db])
  show "user_total v db' = user_total v db +
      (if v = user then - reserved_amount s + partial_refund (reserved_amount s) actual else 0)"
    using effect(5) [of v] i s(2) after_step_totals(2) [OF m(3)] by (simp add: db1_def)
qed

lemma finalize_failure_result:
  assumes inv: "money_inv db" and s: "saga_get i db = Some s" "sg_user s = user" "sg_state s = state_value RESERVED"
    and body: "\<not> fr_success body" and db': "db' = snd (finalize_charge cfg now i body user db)"
  shows "touches i db db'" "saga_get i db' = Some (s\<lparr>sg_state := state_value REFUNDED, sg_updated := now\<rparr>)"
    "saga_sum i db' = 0" "user_total v db' = user_total v db"
proof -
  define db1 where "db1 = after_step now ''user_cancel'' (failure_context body) s (fired RESERVED ''user_cancel'') db"
  note m = money_invD [OF inv s(1)]
  have i: "sg_id s = i" using s(1) saga_rows.get_key by blast
  have rows: "ledger_rows_for_saga i db = []" using m(1) s(3) i by (simp add: money_ok_def)
  have db'_eq: "db' = snd (finalize_failure now body user (reserved_amount s) (balance_for user db)
      (s\<lparr>sg_state := state_value REFUNDED, sg_updated := now\<rparr>) db1)"
    by (simp only: db' db1_def finalize_reserved(2) [OF s body])
  have "has_scale 4 (reserved_amount s)" using m(3) by (simp add: amount_scaled_def)
  note effect = finalize_failure_effect [OF this _ db'_eq, of i]
  have t: "touches i db db1" unfolding db1_def by (rule touches_after_step [OF s(1)])
  show "touches i db db'" using touches_trans [OF t effect(1)] i by simp
  show "saga_get i db' = Some (s\<lparr>sg_state := state_value REFUNDED, sg_updated := now\<rparr>)"
    using effect(2) after_step_get [OF s(1), of i] i by (simp add: db1_def)
  show "saga_sum i db' = 0"
    using effect(3) i rows after_step_sum [OF m(3)] by (simp add: db1_def saga_sum_rows [of _ db])
  show "user_total v db' = user_total v db"
    using effect(4) [of v] i s(2) after_step_totals(2) [OF m(3)] by (simp add: db1_def)
qed

lemma finalize_keeps_money:
  assumes inv: "money_inv db" and cfg: "settings_ok cfg"
  shows "money_inv (snd (finalize_charge cfg now i body user db))"
proof (cases "\<exists>s. saga_get i db = Some s \<and> sg_user s = user \<and> sg_state s = state_value RESERVED")
  case False
  then show ?thesis using finalize_elsewhere [OF _ inv] inv by simp
next
  case True
  then obtain s where s: "saga_get i db = Some s" "sg_user s = user" "sg_state s = state_value RESERVED" by blast
  define db' where "db' = snd (finalize_charge cfg now i body user db)"
  note m = money_invD [OF inv s(1)]
  have i: "sg_id s = i" using s(1) saga_rows.get_key by blast
  consider "\<not> fr_success body" | "fr_success body" "finalize_amount cfg body s = None"
    | actual where "fr_success body" "finalize_amount cfg body s = Some actual" by blast
  then have "money_inv db'"
  proof cases
    case 1
    note r = finalize_failure_result [OF inv s 1 db'_def]
    have "money_ok (s\<lparr>sg_state := state_value REFUNDED, sg_updated := now\<rparr>) db'"
      using r(3) i m(4) by (simp add: money_ok_def)
    then show ?thesis using money_inv_step [OF inv r(1) s(1) r(2)] m(3) by simp
  next
    case 2
    then have "db' = db" using s by (simp add: db'_def finalize_charge_def with_own_saga_cases Let_def)
    with inv show ?thesis by simp
  next
    case (3 actual)
    note r = finalize_success_result [OF inv s 3 cfg db'_def]
    have "money_ok (s\<lparr>sg_state := state_value CHARGED, sg_updated := now\<rparr>) db'"
      using r i m(4) partial_refund_range [OF finalize_amount_range(1) [OF 3(2) cfg m(3,4)] m(4)]
      by (simp add: money_ok_def)
    then show ?thesis using money_inv_step [OF inv r(1) s(1) r(2)] m(3) by simp
  qed
  then show ?thesis by (simp add: db'_def)
qed

section \<open>Refunds\<close>

text \<open>
  Both refund routes do the same to the ledger: a reserved charge is refunded and reversed, a charged one
  is rolled back less what was already returned. The two lemmas are about the database after the
  transition, the reversal row and the route's outbox event.
\<close>

lemma reserved_refund_result:
  assumes inv: "money_inv db" and s: "saga_get i db = Some s" "sg_state s = state_value RESERVED"
    and db': "db' = add_outbox o1 o2 o3 o4 o5 now (add_credit (sg_user s) (Some i) (- reserved_amount s) k b m now
      (after_step now ''user_cancel'' ctx s (fired RESERVED ''user_cancel'') db))"
  shows "touches i db db'" "saga_get i db' = Some (s\<lparr>sg_state := state_value REFUNDED, sg_updated := now\<rparr>)"
    "saga_sum i db' = 0" "user_total v db' = user_total v db" "money_inv db'"
proof -
  note mi = money_invD [OF inv s(1)]
  have i: "sg_id s = i" using s(1) saga_rows.get_key by blast
  have rows: "ledger_rows_for_saga i db = []" using mi(1) s(2) i by (simp add: money_ok_def)
  have exact: "pg_numeric 4 (- reserved_amount s) = - reserved_amount s"
    using mi(3) by (intro pg_numeric_exact) (auto simp: amount_scaled_def)
  show t: "touches i db db'"
    unfolding db' by (rule touches_trans [OF touches_trans [OF touches_after_step [OF s(1)] touches_add_credit] touches_add_outbox])
  show g: "saga_get i db' = Some (s\<lparr>sg_state := state_value REFUNDED, sg_updated := now\<rparr>)"
    by (simp add: db' after_step_get [OF s(1)])
  show z: "saga_sum i db' = 0"
    using i rows by (simp add: db' after_step_sum [OF mi(3)] exact saga_sum_rows [of _ db])
  show "user_total v db' = user_total v db"
    by (simp add: db' after_step_totals(2) [OF mi(3)] exact)
  have "money_ok (s\<lparr>sg_state := state_value REFUNDED, sg_updated := now\<rparr>) db'"
    using z i mi(4) by (simp add: money_ok_def)
  then show "money_inv db'" using money_inv_step [OF inv t s(1) g] mi(3) by simp
qed

lemma charged_refund_result:
  assumes inv: "money_inv db" and s: "saga_get i db = Some s" "sg_state s = state_value CHARGED"
    and p: "p = refund_partial_total (ledger_rows_for_saga i db)"
    and db1: "db1 = after_step now ''downstream_reject_late'' ctx s (fired CHARGED ''downstream_reject_late'') db"
    and db': "db' = add_outbox o1 o2 o3 o4 o5 now
      (if p \<noteq> 0 then add_credit (sg_user s) (Some i) (- p) k b m now db1 else db1)"
  shows "touches i db db'" "saga_get i db' = Some (s\<lparr>sg_state := state_value ROLLED_BACK, sg_updated := now\<rparr>)"
    "saga_sum i db' = 0"
    "user_total v db' = user_total v db + (if v = sg_user s then charged_actual_paid (ledger_rows_for_saga i db) else 0)"
    "money_inv db'" "charged_actual_paid (ledger_rows_for_saga i db) = - saga_sum i db"
proof -
  note mi = money_invD [OF inv s(1)]
  have i: "sg_id s = i" using s(1) saga_rows.get_key by blast
  have pt: "p = kind_total ''refund_partial'' i db" by (simp add: p refund_partial_total_def kind_sum_rows)
  have sum: "saga_sum i db = - reserved_amount s + p" and c: "kind_total ''charge'' i db = - reserved_amount s"
    and range: "0 \<le> p" "p \<le> reserved_amount s"
    using mi(1) s(2) by (simp_all add: money_ok_def i pt)
  have "has_scale 4 p" unfolding pt kind_total_def by (rule ledger_sum_scaled) (rule mi(6))
  then have exact: "pg_numeric 4 (- p) = - p" by (intro pg_numeric_exact) auto
  have t1: "touches i db db1" unfolding db1 by (rule touches_after_step [OF s(1)])
  have t2: "touches i db1 (if p \<noteq> 0 then add_credit (sg_user s) (Some i) (- p) k b m now db1 else db1)"
    using touches_add_credit by simp
  show t: "touches i db db'" unfolding db' by (rule touches_trans [OF touches_trans [OF t1 t2] touches_add_outbox])
  show g: "saga_get i db' = Some (s\<lparr>sg_state := state_value ROLLED_BACK, sg_updated := now\<rparr>)"
    by (simp add: db' db1 after_step_get [OF s(1)])
  show z: "saga_sum i db' = 0"
    using i sum by (simp add: db' db1 after_step_sum [OF mi(3)] exact)
  show paid: "charged_actual_paid (ledger_rows_for_saga i db) = - saga_sum i db"
    using sum c range by (simp add: charged_actual_paid_def refund_partial_total_def kind_sum_rows flip: pt)
  show "user_total v db' = user_total v db + (if v = sg_user s then charged_actual_paid (ledger_rows_for_saga i db) else 0)"
    unfolding paid sum by (simp add: db' db1 after_step_totals(2) [OF mi(3)] exact)
  have "money_ok (s\<lparr>sg_state := state_value ROLLED_BACK, sg_updated := now\<rparr>) db'"
    using z i mi(4) by (simp add: money_ok_def)
  then show "money_inv db'" using money_inv_step [OF inv t s(1) g] mi(3) by simp
qed

text \<open>The databases the four branches end with, in the shape of the two lemmas.\<close>

definition reserved_shape :: "datetime \<Rightarrow> nat \<Rightarrow> saga_instance \<Rightarrow> billing_db \<Rightarrow> billing_db \<Rightarrow> bool" where
  "reserved_shape now i s db db' \<longleftrightarrow>
     (\<exists>o1 o2 o3 o4 o5 k b m ctx. db' =
        add_outbox o1 o2 o3 o4 o5 now (add_credit (sg_user s) (Some i) (- reserved_amount s) k b m now
          (after_step now ''user_cancel'' ctx s (fired RESERVED ''user_cancel'') db)))"

definition charged_shape :: "datetime \<Rightarrow> nat \<Rightarrow> saga_instance \<Rightarrow> billing_db \<Rightarrow> billing_db \<Rightarrow> bool" where
  "charged_shape now i s db db' \<longleftrightarrow>
     (\<exists>o1 o2 o3 o4 o5 k b m ctx p db1.
        p = refund_partial_total (ledger_rows_for_saga i db) \<and>
        db1 = after_step now ''downstream_reject_late'' ctx s (fired CHARGED ''downstream_reject_late'') db \<and>
        db' = add_outbox o1 o2 o3 o4 o5 now
          (if p \<noteq> 0 then add_credit (sg_user s) (Some i) (- p) k b m now db1 else db1))"

lemma refund_shapes:
  assumes "saga_get i db = Some s"
  shows "sg_state s = state_value RESERVED \<Longrightarrow> reserved_shape now i s db (snd (refund_auto_reserved now i body s db))"
    and "sg_state s = state_value RESERVED \<Longrightarrow> reserved_shape now i s db (snd (refund_user_cancel_reserved now i body s db))"
    and "sg_state s = state_value CHARGED \<Longrightarrow> charged_shape now i s db (snd (refund_auto_charged now i body s db))"
    and "sg_state s = state_value CHARGED \<Longrightarrow> charged_shape now i s db (snd (refund_user_cancel_charged now i body s db))"
proof -
  have i: "sg_id s = i" using assms(1) saga_rows.get_key by blast
  show "reserved_shape now i s db (snd (refund_auto_reserved now i body s db))" if "sg_state s = state_value RESERVED"
    unfolding refund_auto_reserved_def Let_def on_applied_step [OF assms that handler_steps(3)] snd_conv
      write_refund_auto_outbox_def reserved_shape_def using i by simp blast
  show "reserved_shape now i s db (snd (refund_user_cancel_reserved now i body s db))" if "sg_state s = state_value RESERVED"
    unfolding refund_user_cancel_reserved_def Let_def on_applied_step [OF assms that handler_steps(3)] snd_conv
      write_refund_user_cancel_outbox_def reserved_shape_def using i by simp blast
  show "charged_shape now i s db (snd (refund_auto_charged now i body s db))" if "sg_state s = state_value CHARGED"
    unfolding refund_auto_charged_def Let_def on_applied_step [OF assms that handler_steps(4)] snd_conv
      write_refund_auto_outbox_def charged_shape_def using i by simp blast
  show "charged_shape now i s db (snd (refund_user_cancel_charged now i body s db))" if "sg_state s = state_value CHARGED"
    unfolding refund_user_cancel_charged_def Let_def on_applied_step [OF assms that handler_steps(4)] snd_conv
      write_refund_user_cancel_outbox_def charged_shape_def using i by simp blast
qed

lemma reserved_shape_result:
  assumes "money_inv db" "saga_get i db = Some s" "sg_state s = state_value RESERVED" "reserved_shape now i s db db'"
  shows "touches i db db'" "saga_get i db' = Some (s\<lparr>sg_state := state_value REFUNDED, sg_updated := now\<rparr>)"
    "saga_sum i db' = 0" "user_total v db' = user_total v db" "money_inv db'"
proof -
  from assms(4) obtain o1 o2 o3 o4 o5 k b m ctx where "db' =
      add_outbox o1 o2 o3 o4 o5 now (add_credit (sg_user s) (Some i) (- reserved_amount s) k b m now
        (after_step now ''user_cancel'' ctx s (fired RESERVED ''user_cancel'') db))"
    unfolding reserved_shape_def by blast
  note r = reserved_refund_result [OF assms(1,2,3) this]
  show "touches i db db'" "saga_get i db' = Some (s\<lparr>sg_state := state_value REFUNDED, sg_updated := now\<rparr>)"
    "saga_sum i db' = 0" "user_total v db' = user_total v db" "money_inv db'"
    by (rule r)+
qed

lemma charged_shape_result:
  assumes "money_inv db" "saga_get i db = Some s" "sg_state s = state_value CHARGED" "charged_shape now i s db db'"
  shows "touches i db db'" "saga_get i db' = Some (s\<lparr>sg_state := state_value ROLLED_BACK, sg_updated := now\<rparr>)"
    "saga_sum i db' = 0"
    "user_total v db' = user_total v db + (if v = sg_user s then charged_actual_paid (ledger_rows_for_saga i db) else 0)"
    "money_inv db'" "charged_actual_paid (ledger_rows_for_saga i db) = - saga_sum i db"
proof -
  from assms(4) obtain o1 o2 o3 o4 o5 k b m ctx p db1 where
    p: "p = refund_partial_total (ledger_rows_for_saga i db)"
      "db1 = after_step now ''downstream_reject_late'' ctx s (fired CHARGED ''downstream_reject_late'') db"
      "db' = add_outbox o1 o2 o3 o4 o5 now
          (if p \<noteq> 0 then add_credit (sg_user s) (Some i) (- p) k b m now db1 else db1)"
    unfolding charged_shape_def by (elim exE conjE)
  note r = charged_refund_result [OF assms(1,2,3) p]
  show "touches i db db'" "saga_get i db' = Some (s\<lparr>sg_state := state_value ROLLED_BACK, sg_updated := now\<rparr>)"
    "saga_sum i db' = 0"
    "user_total v db' = user_total v db + (if v = sg_user s then charged_actual_paid (ledger_rows_for_saga i db) else 0)"
    "money_inv db'" "charged_actual_paid (ledger_rows_for_saga i db) = - saga_sum i db"
    by (rule r)+
qed

lemma refund_auto_cases:
  assumes "saga_get i db = Some s" "sg_state s = state_value a"
  shows "snd (refund_auto_charge now i body db) =
    (if ends_with ''_charge'' (sg_type s) \<and> a = RESERVED then snd (refund_auto_reserved now i body s db)
     else if ends_with ''_charge'' (sg_type s) \<and> a = CHARGED then snd (refund_auto_charged now i body s db)
     else db)"
  using assms by (cases a) (simp_all add: refund_auto_charge_def get_saga_def)

lemma refund_user_cancel_cases:
  assumes "saga_get i db = Some s" "sg_state s = state_value a"
  shows "snd (refund_user_cancel_charge now i body user db) =
    (if sg_user s = user \<and> ends_with ''_charge'' (sg_type s) \<and> a = RESERVED
     then snd (refund_user_cancel_reserved now i body s db)
     else if sg_user s = user \<and> ends_with ''_charge'' (sg_type s) \<and> a = CHARGED
     then snd (refund_user_cancel_charged now i body s db)
     else db)"
  using assms by (cases a) (simp_all add: refund_user_cancel_charge_def with_own_saga_cases)

lemma refunds_keep_money:
  assumes inv: "money_inv db"
  shows "money_inv (snd (refund_auto_charge now i body db))"
    and "money_inv (snd (refund_user_cancel_charge now i body user db))"
proof -
  have "money_inv (snd (refund_auto_charge now i body db)) \<and> money_inv (snd (refund_user_cancel_charge now i body user db))"
  proof (cases "saga_get i db")
    case None
    then show ?thesis
      using inv by (simp add: refund_auto_charge_def get_saga_def refund_user_cancel_charge_def with_own_saga_cases)
  next
    case (Some s)
    obtain a where a: "sg_state s = state_value a" using known_state [OF inv Some] by blast
    note shapes = refund_shapes [OF Some, of now body]
    have "a = RESERVED \<Longrightarrow> money_inv (snd (refund_auto_reserved now i body s db))"
      "a = RESERVED \<Longrightarrow> money_inv (snd (refund_user_cancel_reserved now i body s db))"
      "a = CHARGED \<Longrightarrow> money_inv (snd (refund_auto_charged now i body s db))"
      "a = CHARGED \<Longrightarrow> money_inv (snd (refund_user_cancel_charged now i body s db))"
      using a shapes reserved_shape_result(5) [OF inv Some] charged_shape_result(5) [OF inv Some] by metis+
    then show ?thesis
      unfolding refund_auto_cases [OF Some a] refund_user_cancel_cases [OF Some a] using inv by auto
  qed
  then show "money_inv (snd (refund_auto_charge now i body db))"
    "money_inv (snd (refund_user_cancel_charge now i body user db))" by auto
qed

section \<open>Confirming a charge and a top-up\<close>

lemma confirm_charge_keeps_money:
  assumes inv: "money_inv db"
  shows "money_inv (snd (confirm_charge now i user db))"
proof (cases "\<exists>s. saga_get i db = Some s \<and> sg_user s = user")
  case False
  then show ?thesis using inv by (auto simp: confirm_charge_def with_own_saga_cases split: option.split)
next
  case True
  then obtain s where s: "saga_get i db = Some s" "sg_user s = user" by blast
  obtain a where a: "sg_state s = state_value a" using known_state [OF inv s(1)] by blast
  have i: "sg_id s = i" using s(1) saga_rows.get_key by blast
  text \<open>From a reserved saga the second trigger charges it.\<close>
  have charge: "money_inv (snd (on_applied title db0 (apply_saga now i ''service_success'' [] db1)
      (\<lambda>saga db2. (f saga db2, snd (evaluate_budget_thresholds now user None db2)))))"
    if inv1: "money_inv db1" and s1: "saga_get i db1 = Some s1" "sg_state s1 = state_value RESERVED" for db0 db1 s1 title f
  proof -
    define db2 where "db2 = snd (evaluate_budget_thresholds now user None
      (after_step now ''service_success'' [] s1 (fired RESERVED ''service_success'') db1))"
    note m = money_invD [OF inv1 s1(1)]
    have i1: "sg_id s1 = i" using s1(1) saga_rows.get_key by blast
    have rows: "ledger_rows_for_saga i db1 = []" using m(1) s1(2) i1 by (simp add: money_ok_def)
    have g: "saga_get i db2 = Some (s1\<lparr>sg_state := state_value CHARGED, sg_updated := now\<rparr>)"
      by (simp add: db2_def after_step_get [OF s1(1)])
    have t: "touches i db1 db2"
      unfolding db2_def by (rule touches_trans [OF touches_after_step [OF s1(1)] touches_evaluate])
    have "money_ok (s1\<lparr>sg_state := state_value CHARGED, sg_updated := now\<rparr>) db2"
      using m(4) by (simp add: money_ok_def db2_def after_step_totals [OF m(3)] after_step_sum [OF m(3)] i1 rows
          kind_total_no_rows saga_sum_rows [of _ db1])
    then have "money_inv db2" using money_inv_step [OF inv1 t s1(1) g] m(3) by simp
    then show ?thesis by (simp add: on_applied_step [OF s1 handler_steps(2)] db2_def)
  qed
  show ?thesis
  proof (cases "a = PENDING")
    case True
    let ?s = "s\<lparr>sg_state := state_value RESERVED, sg_updated := now\<rparr>"
    let ?db = "after_step now ''reserve'' [] s (fired PENDING ''reserve'') db"
    have "snd (reserve_charge now i user db) = ?db" using reserve_pending(1) [OF s] a True by simp
    then have "money_inv ?db" using reserve_keeps_money [OF inv, of now i user] by simp
    moreover have "saga_get i ?db = Some ?s" by (simp add: after_step_get [OF s(1)])
    ultimately show ?thesis
      using s a True charge [of ?db ?s]
      by (simp add: confirm_charge_def with_own_saga_cases Let_def on_applied_step [OF s(1) _ handler_steps(1)])
  next
    case False
    then show ?thesis
      using s a inv charge [OF inv s(1)]
      by (auto simp: confirm_charge_def with_own_saga_cases Let_def on_applied_refused [OF s(1) a] saga_step_iff)
  qed
qed

lemma touches_put:
  assumes "saga_get (sg_id s) db = Some s0"
  shows "touches (sg_id s) db (saga_put s db)"
  using saga_rows.get_put_other [of _ s db] by (simp add: touches_def)

lemma confirm_topup_pending:
  assumes inv: "money_inv db" and s: "saga_get i db = Some s" "sg_state s = state_value PENDING" "sg_type s = ''topup''"
    and db': "db' = snd (confirm_topup now i body db)"
  shows "touches i db db'" "saga_get i db' = Some (s\<lparr>sg_state := state_value COMPLETED, sg_updated := now\<rparr>)"
    "saga_sum i db' = reserved_amount s"
    "user_total v db' = user_total v db + (if v = sg_user s then reserved_amount s else 0)"
    "\<exists>row. topup_ledger_rows i db' = [row] \<and> ledger_payment_ref row = Some (tc_payment_ref body) \<and>
       ct_amount row = reserved_amount s"
    "fst (confirm_topup now i body db) = Returned (topup_response_of (s\<lparr>sg_state := ''completed'', sg_updated := now\<rparr>)
       (Some (balance_for (sg_user s) db')))"
proof -
  note m = money_invD [OF inv s(1)]
  have i: "sg_id s = i" using s(1) saga_rows.get_key by blast
  have rows: "ledger_rows_for_saga i db = []" using m(1) s(2) i by (simp add: money_ok_def)
  then have none: "topup_ledger_rows i db = []"
    by (auto simp: topup_ledger_rows_def ledger_rows_for_saga_def filter_empty_conv)
  have exact: "pg_numeric 4 (reserved_amount s) = reserved_amount s"
    using m(3) by (intro pg_numeric_exact) (simp add: amount_scaled_def)
  let ?s = "s\<lparr>sg_state := ''completed'', sg_updated := now\<rparr>"
  let ?meta = "[(''provider'', JStr (tc_provider body)), (''payment_ref'', JStr (tc_payment_ref body)),
                (''expires_at'', JNull)]"
  let ?db2 = "add_credit (sg_user s) (Some i) (reserved_amount s) ''topup'' ''topup'' ?meta now (saga_put ?s db)"
  let ?event = "[(''saga_id'', JId i), (''saga_type'', JStr (sg_type s)),
                (''to_state'', JStr ''completed''), (''bucket'', JStr ''topup''),
                (''provider'', JStr (tc_provider body)), (''payment_ref'', JStr (tc_payment_ref body))]"
  have c: "confirm_topup now i body db =
      (Returned (topup_response_of ?s (Some (balance_for (sg_user s)
         (add_outbox ''saga_instance'' i ''billing.topup.confirmed'' ?event [(''compensation'', JStr ''none'')] now ?db2)))),
       add_outbox ''saga_instance'' i ''billing.topup.confirmed'' ?event [(''compensation'', JStr ''none'')] now ?db2)"
    using s none by (simp add: confirm_topup_def Let_def i)
  have db'_eq: "db' = add_outbox ''saga_instance'' i ''billing.topup.confirmed'' ?event [(''compensation'', JStr ''none'')] now ?db2"
    by (simp add: db' c)
  have put: "saga_get i (saga_put ?s db) = Some ?s" using saga_rows.get_put_same [of ?s db s] s(1) i by simp
  show "touches i db db'"
    using touches_put [of ?s db s] touches_trans [OF touches_trans [OF _ touches_add_credit] touches_add_outbox] s(1) i
    by (simp add: db'_eq)
  show "saga_get i db' = Some (s\<lparr>sg_state := state_value COMPLETED, sg_updated := now\<rparr>)"
    using put by (simp add: db'_eq)
  show "saga_sum i db' = reserved_amount s" by (simp add: db'_eq exact saga_sum_rows [of _ db] rows)
  show "user_total v db' = user_total v db + (if v = sg_user s then reserved_amount s else 0)"
    by (simp add: db'_eq exact)
  show "\<exists>row. topup_ledger_rows i db' = [row] \<and> ledger_payment_ref row = Some (tc_payment_ref body) \<and>
       ct_amount row = reserved_amount s"
    using none by (simp add: db'_eq topup_ledger_rows_def add_outbox_def add_credit_def exact saga_put_def ledger_payment_ref_def)
  show "fst (confirm_topup now i body db) = Returned (topup_response_of ?s (Some (balance_for (sg_user s) db')))"
    by (simp add: c db'_eq)
qed

lemma confirm_topup_other:
  assumes "\<nexists>s. saga_get i db = Some s \<and> sg_state s = state_value PENDING \<and> sg_type s = ''topup''"
  shows "snd (confirm_topup now i body db) = db"
  using assms by (auto simp: confirm_topup_def Let_def split: option.split list.split)

lemma confirm_topup_keeps_money:
  assumes inv: "money_inv db"
  shows "money_inv (snd (confirm_topup now i body db))"
proof (cases "\<exists>s. saga_get i db = Some s \<and> sg_state s = state_value PENDING \<and> sg_type s = ''topup''")
  case False
  then show ?thesis using inv confirm_topup_other by simp
next
  case True
  then obtain s where s: "saga_get i db = Some s" "sg_state s = state_value PENDING" "sg_type s = ''topup''" by blast
  have i: "sg_id s = i" using s(1) saga_rows.get_key by blast
  note r = confirm_topup_pending [OF inv s refl]
  have "money_ok (s\<lparr>sg_state := state_value COMPLETED, sg_updated := now\<rparr>) (snd (confirm_topup now i body db))"
    using r(3) i s(3) money_invD(4) [OF inv s(1)] by (simp add: money_ok_def)
  then show ?thesis using money_inv_step [OF inv r(1) s(1) r(2)] money_invD(3) [OF inv s(1)] by simp
qed

section \<open>Creating charges and top-ups\<close>

lemma money_inv_seed: "money_inv db \<Longrightarrow> money_inv (seed_demo_balance cfg now user db)"
proof -
  assume inv: "money_inv db"
  let ?db = "seed_demo_balance cfg now user db"
  have same: "saga_get i ?db = saga_get i db" "ledger_rows_for_saga i ?db = ledger_rows_for_saga i db"
    "kind_total k i ?db = kind_total k i db" "saga_sum i ?db = saga_sum i db" "idem_get key ?db = idem_get key db"
    for i k key
    by (simp_all add: seed_demo_balance_def rows_add_credit idem_get_def)
  have "money_ok s ?db = money_ok s db" for s by (simp only: money_ok_def same)
  then show ?thesis
    using inv by (simp add: money_inv_def sagas_scaled_def idem_linked_def same) (auto simp: seed_demo_balance_def less_SucI)
qed

lemma money_inv_idem_put:
  assumes inv: "money_inv db" and row: "idem_get (ik_key row) db = Some row" "ik_key row' = ik_key row"
    "ik_user row' = ik_user row" "ik_saga row' = ik_saga row"
  shows "money_inv (idem_put row' db)"
proof -
  let ?db = "idem_put row' db"
  have same: "ledger_rows_for_saga i ?db = ledger_rows_for_saga i db"
    "kind_total k i ?db = kind_total k i db" "saga_sum i ?db = saga_sum i db" for i k
    by (rule totals_cong; simp)+
  have "money_ok s ?db = money_ok s db" for s by (simp only: money_ok_def same)
  moreover have "idem_linked ?db"
    using inv row idem_rows.get_put [of row' db row]
    by (auto simp: money_inv_def idem_linked_def)
  moreover have "ledger_scaled ?db = ledger_scaled db" by (rule ledger_scaled_cong) simp
  ultimately show ?thesis
    using inv by (simp add: money_inv_def sagas_scaled_def same)
qed

lemma money_inv_after_start:
  assumes inv: "money_inv db" and k: "idem_get k db = None" and a: "case a of None \<Rightarrow> True | Some d \<Rightarrow> 0 \<le> d_value d"
  shows "money_inv (after_start cfg now ty u k p a db)"
proof -
  let ?db = "after_start cfg now ty u k p a db"
  note fresh = money_fresh [OF inv]
  have same: "ledger_rows_for_saga i ?db = ledger_rows_for_saga i db" "kind_total kd i ?db = kind_total kd i db"
    "saga_sum i ?db = saga_sum i db" for i kd
    by (rule totals_cong; simp)+
  have old: "money_ok s ?db = money_ok s db" for s by (simp only: money_ok_def same)
  have "ledger_rows_for_saga (db_next_id db) db = []" using inv fresh by (simp add: money_inv_def)
  moreover have "0 \<le> reserved_amount (new_saga now ty u k p a db)"
    using a by (cases a) (simp_all add: reserved_amount_def new_saga_def pg_numeric_nonneg)
  ultimately have new: "money_ok (new_saga now ty u k p a db) ?db" by (simp add: money_ok_def same)
  have "ledger_scaled ?db = ledger_scaled db" by (rule ledger_scaled_cong) simp
  then show ?thesis
    using inv new after_start_linked [OF _ fresh k] after_start_scaled [OF _ fresh]
    by (auto simp: money_inv_def after_start_get [OF fresh] old same split: if_splits intro: less_SucI)
qed

lemma start_keeps_money:
  assumes "money_inv (committed s)" "money_inv (working s)"
    and a: "case a of None \<Rightarrow> True | Some d \<Rightarrow> 0 \<le> d_value d"
    and "start_saga cfg now ty u k p a s = (r, s')"
  shows "money_inv (committed s')" "money_inv (working s')"
  using assms(4) assms(1,2) money_inv_after_start [OF assms(2) _ a]
  by (auto simp: start_cases rollback_def split: sum.splits option.splits if_splits)

lemma create_topup_keeps_money:
  assumes "money_inv db" "0 \<le> d_value (tr_amount body)"
  shows "money_inv (snd (create_topup cfg now body user key db))"
proof -
  obtain r s' where st: "start_saga cfg now ''topup'' user key
      [(''reference_id'', JStr (tr_reference body)), (''purpose'', JStr ''topup'')]
      (Some (tr_amount body)) (open_session db) = (r, s')" by (rule prod.exhaust)
  from start_keeps_money [OF _ _ _ this] assms have "money_inv (committed s')" "money_inv (working s')"
    by (simp_all add: open_session_def)
  then show ?thesis
    using assms by (auto simp: create_topup_def Let_def st split: sum.split saga_error.split)
qed

lemma legacy_keeps_money:
  assumes "money_inv db" "idem_get (ik_key row) db = Some row"
  shows "money_inv (snd (legacy_charge_response_from_idempotency_row row db))"
  using assms money_inv_idem_put [OF assms, of "row\<lparr>ik_response := r\<rparr>" for r]
  by (auto simp: legacy_charge_response_from_idempotency_row_def Let_def split: option.split)

lemma replay_keeps_money:
  assumes "money_inv db" "charge_replay_response_if_cached cfg now body user key db = Some x"
  shows "money_inv (snd x)"
proof -
  have "ik_key row = key" if "idem_get key db = Some row" for row using that idem_rows.get_key by blast
  then show ?thesis
    using assms legacy_keeps_money [OF assms(1)]
    by (auto simp: charge_replay_response_if_cached_def idempotency_row_by_key_def split: option.splits if_splits)
qed

text \<open>The database in which a charge is created: a first-time user is seeded.\<close>

definition seeded :: "settings \<Rightarrow> datetime \<Rightarrow> nat \<Rightarrow> billing_db \<Rightarrow> billing_db" where
  "seeded cfg now user db = (if has_any_transactions user db then db else seed_demo_balance cfg now user db)"

definition charge_warnings :: "settings \<Rightarrow> charge_request \<Rightarrow> nat \<Rightarrow> billing_db \<Rightarrow> warning list" where
  "charge_warnings cfg body user db = classify_with_settings cfg (d_value (cr_amount body)) (balance_for user db)"

text \<open>A request that passes every guard starts a saga and stores its answer.\<close>

lemma create_charge_go:
  assumes v: "validate_idempotency_key key" "charge_replay_response_if_cached cfg now body user key db = None"
      "current_budget_is_paused now user db = None"
    and n: "d_value (cr_amount body) \<le> balance_for user (seeded cfg now user db)"
      "charge_warnings cfg body user (seeded cfg now user db) = [] \<or> cr_confirmed body"
    and st: "start_saga cfg now (charge_saga_type body) user key
      (charge_payload body (charge_warnings cfg body user (seeded cfg now user db) \<noteq> [] \<and> cr_confirmed body))
      (Some (cr_amount body)) \<lparr>committed = db, working = seeded cfg now user db\<rparr> = (r, s')"
  shows "create_charge cfg now body user key db =
    (case r of
       Inl (CrossTenantKeyError _ _ _) \<Rightarrow> (problem_response ''Cross-tenant key reuse forbidden'' 403, committed s')
     | Inl (IdempotencyConflictError _ _ _) \<Rightarrow> (problem_response ''Idempotency Conflict'' 409, committed s')
     | Inl _ \<Rightarrow> (ServerError, committed s')
     | Inr saga \<Rightarrow>
         (let response = \<lparr>ch_id = sg_id saga, ch_state = sg_state saga,
                ch_amount = fmt 2 (d_value (cr_amount body)), ch_currency = ''CNY'',
                ch_before = fmt 2 (balance_for user (seeded cfg now user db)),
                ch_after = fmt 2 (balance_for user (working s'))\<rparr>
          in case persist_charge_response_body key response (working s') of
               None \<Rightarrow> (ServerError, committed s') | Some db2 \<Rightarrow> (Returned response, db2)))"
proof -
  have v': "validate_idempotency_key key = True" using v(1) by simp
  have n': "(d_value (cr_amount body) > balance_for user (seeded cfg now user db)) = False"
    "(charge_warnings cfg body user (seeded cfg now user db) \<noteq> [] \<and> \<not> cr_confirmed body) = False"
    using n by auto
  show ?thesis
    unfolding create_charge_def Let_def seeded_def [symmetric] charge_warnings_def [symmetric]
    by (simp only: v' v(2,3) n' st simp_thms if_True if_False option.case fst_conv snd_conv)
qed

lemma create_charge_stopped:
  assumes "\<not> (validate_idempotency_key key \<and> charge_replay_response_if_cached cfg now body user key db = None \<and>
      current_budget_is_paused now user db = None \<and>
      d_value (cr_amount body) \<le> balance_for user (seeded cfg now user db) \<and>
      (charge_warnings cfg body user (seeded cfg now user db) \<noteq> [] \<longrightarrow> cr_confirmed body))"
  shows "snd (create_charge cfg now body user key db) \<in> {db, seeded cfg now user db} \<or>
    charge_replay_response_if_cached cfg now body user key db = Some (create_charge cfg now body user key db)"
  using assms unfolding create_charge_def Let_def seeded_def [symmetric] charge_warnings_def [symmetric]
  by (auto split: option.split)

lemma create_charge_keeps_money:
  assumes inv: "money_inv db" and ok: "charge_request_ok body"
  shows "money_inv (snd (create_charge cfg now body user key db))"
proof -
  let ?db1 = "seeded cfg now user db"
  have inv1: "money_inv ?db1" using inv money_inv_seed by (simp add: seeded_def)
  have a: "case Some (cr_amount body) of None \<Rightarrow> True | Some d \<Rightarrow> 0 \<le> d_value d"
    using ok by (simp add: charge_request_ok_def)
  have started: "money_inv (committed (snd (start_saga cfg now ty user key p (Some (cr_amount body)) \<lparr>committed = db, working = ?db1\<rparr>)))"
    "money_inv (working (snd (start_saga cfg now ty user key p (Some (cr_amount body)) \<lparr>committed = db, working = ?db1\<rparr>)))" for ty p
    using start_keeps_money [OF _ _ a prod.collapse [symmetric], of "\<lparr>committed = db, working = ?db1\<rparr>"] inv inv1 by simp_all
  have persist: "money_inv db3" if stored: "persist_charge_response_body key r db2 = Some db3" "money_inv db2" for r db2 db3
  proof -
    obtain row where row: "idem_get key db2 = Some row" "db3 = idem_put (row\<lparr>ik_response := Some (charge_response_json r)\<rparr>) db2"
      using stored(1) by (auto simp: persist_charge_response_body_def idempotency_row_by_key_def split: option.splits)
    then have "ik_key row = key" using idem_rows.get_key by blast
    with row money_inv_idem_put [OF stored(2), of row] show ?thesis by simp
  qed
  show ?thesis
  proof (cases "validate_idempotency_key key \<and> charge_replay_response_if_cached cfg now body user key db = None \<and>
      current_budget_is_paused now user db = None \<and> d_value (cr_amount body) \<le> balance_for user ?db1 \<and>
      (charge_warnings cfg body user ?db1 \<noteq> [] \<longrightarrow> cr_confirmed body)")
    case False
    from create_charge_stopped [OF this] show ?thesis using inv inv1 replay_keeps_money [OF inv] by (metis empty_iff insert_iff)
  next
    case True
    obtain r s' where st: "start_saga cfg now (charge_saga_type body) user key
        (charge_payload body (charge_warnings cfg body user ?db1 \<noteq> [] \<and> cr_confirmed body)) (Some (cr_amount body))
        \<lparr>committed = db, working = ?db1\<rparr> = (r, s')" by (rule prod.exhaust)
    have inv': "money_inv (committed s')" "money_inv (working s')"
      using started [of "charge_saga_type body"
          "charge_payload body (charge_warnings cfg body user ?db1 \<noteq> [] \<and> cr_confirmed body)"] st by simp_all
    have go: "validate_idempotency_key key" "charge_replay_response_if_cached cfg now body user key db = None"
        "current_budget_is_paused now user db = None" "d_value (cr_amount body) \<le> balance_for user ?db1"
        "charge_warnings cfg body user ?db1 = [] \<or> cr_confirmed body"
      using True by blast+
    show ?thesis
      unfolding create_charge_go [OF go st] using inv' persist [OF _ inv'(2)]
      by (cases r) (simp_all add: Let_def split: saga_error.split option.split)
  qed
qed

end
