(* ===== verification/ChargeProperties.thy ===== *)
theory ChargeProperties
  imports ChargeSafety
begin

text \<open>
  The properties of the charge, refund and top-up routes: a finalized charge nets to the amount it
  reports, retries change nothing, refunds return exactly what was paid, a charge belongs to its owner,
  top-ups are credited once; and two behaviours of the code that its comments do not announce.
\<close>

section \<open>Sample data\<close>

definition sample_charge :: charge_request where
  "sample_charge = \<lparr>cr_amount = \<lparr>d_value = 6, d_text = ''6.00''\<rparr>, cr_purpose = ''solve'',
     cr_reference = ''11111111-2222-3333-4444-555555555555'', cr_max_solve_seconds = 60, cr_confirmed = True\<rparr>"

definition sample_idem :: string where
  "sample_idem = ''0a0b0c0d-0000-4000-8000-00000000000a''"

definition sample_finalize :: finalize_request where
  "sample_finalize = \<lparr>fr_elapsed = 12, fr_success = True, fr_failure_reason = None, fr_discount = 1\<rparr>"

definition sample_failure :: finalize_request where
  "sample_failure = \<lparr>fr_elapsed = 12, fr_success = False, fr_failure_reason = Some ''infeasible'', fr_discount = 1\<rparr>"

definition sample_refund :: refund_request where
  "sample_refund = \<lparr>rr_reason = ''failed'', rr_source = ''solver_orchestrator'', rr_source_ref = ''task-1'', rr_elapsed = None\<rparr>"

text \<open>A database with one saga in a given state, its ledger as the handlers leave it.\<close>

definition charge_row :: "rat \<Rightarrow> string \<Rightarrow> credit_transaction" where
  "charge_row a k = \<lparr>ct_id = 20, ct_user = 1, ct_saga = Some 7, ct_amount = a, ct_kind = k,
     ct_bucket = ''monthly'', ct_currency = ''CNY'', ct_meta = [], ct_created = sample_time\<rparr>"

definition seed_row :: credit_transaction where
  "seed_row = \<lparr>ct_id = 21, ct_user = 1, ct_saga = None, ct_amount = 50, ct_kind = ''topup'',
     ct_bucket = ''signup'', ct_currency = ''CNY'', ct_meta = [], ct_created = sample_time\<rparr>"

definition money_db :: "state \<Rightarrow> credit_transaction list \<Rightarrow> billing_db" where
  "money_db st rows = (sample_db st)\<lparr>db_ledger := seed_row # rows, db_next_id := 30\<rparr>"

definition charged_rows :: "credit_transaction list" where
  "charged_rows = [charge_row (-6) ''charge'', charge_row (24/5) ''refund_partial'']"

lemma money_db_inv: "money_inv (money_db RESERVED [])" "money_inv (money_db PENDING [])" "money_inv (money_db CHARGED charged_rows)"
  by (auto simp: money_inv_def money_db_def sample_db_def sagas_scaled_def ledger_scaled_def idem_linked_def
      saga_get_def idem_get_def row_get_Cons empty_db_def sample_saga_def sample_key_def amount_scaled_def
      reserved_amount_def money_ok_def ledger_rows_for_saga_def seed_row_def kind_total_def saga_sum_def
      ledger_sum_def sum_where_Cons charged_rows_def charge_row_def has_scale_def split: if_splits
      intro: exI [of _ "500000::int"] exI [of _ "-60000::int"] exI [of _ "48000::int"])

lemma money_db_saga:
  "saga_get 7 (money_db st rows) = Some (sample_saga st)" "sg_user (sample_saga st) = 1"
  "sg_state (sample_saga st) = state_value st" "reserved_amount (sample_saga st) = 6"
  "sg_type (sample_saga st) = ''solve_charge''" "dict_get ''max_solve_seconds'' (sg_payload (sample_saga st)) = None"
  "sg_idem (sample_saga st) = Some ''key-1''" "sg_id (sample_saga st) = 7" "sg_amount (sample_saga st) = Some 6"
  by (simp_all add: money_db_def sample_db_def saga_get_def row_get_def sample_saga_def reserved_amount_def empty_db_def)

lemma sample_cfg_ok: "settings_ok sample_cfg" "charge_min_amount sample_cfg \<le> 6"
  by (simp_all add: settings_ok_def sample_cfg_def default_settings_def has_scale_def)

section \<open>Finalizing a charge\<close>

lemma balance_delta:
  "ledger_scaled db \<Longrightarrow> ledger_scaled db' \<Longrightarrow> user_total u db' = user_total u db + x \<Longrightarrow>
   balance_for u db' = balance_for u db + x"
  by (simp add: balance_user_total)

lemma cap_known: "dict_get ''max_solve_seconds'' (sg_payload s) = None \<Longrightarrow> \<exists>actual. finalize_amount cfg body s = Some actual"
  by (auto simp: finalize_amount_def max_solve_seconds_from_def Let_def split: option.split)

lemma finalize_success_response:
  "fst (finalize_success now body user R actual before s db) =
     Returned \<lparr>fi_id = sg_id s, fi_state = sg_state s, fi_reserved = fmt 2 R, fi_actual = fmt 2 actual,
                fi_refund_partial = fmt 2 (partial_refund R actual), fi_before = fmt 2 before,
                fi_after = fmt 2 (balance_for user (snd (finalize_success now body user R actual before s db)))\<rparr>"
  by (simp add: finalize_success_def Let_def partial_refund_def)

lemma finalize_answer:
  assumes "saga_get i db = Some s" "sg_user s = user" "sg_state s = state_value RESERVED"
    and "fr_success body" "finalize_amount cfg body s = Some actual"
    and "finalize_charge cfg now i body user db = (r, db')"
  shows "r = Returned \<lparr>fi_id = i, fi_state = ''charged'', fi_reserved = fmt 2 (reserved_amount s),
      fi_actual = fmt 2 actual, fi_refund_partial = fmt 2 (partial_refund (reserved_amount s) actual),
      fi_before = fmt 2 (balance_for user db), fi_after = fmt 2 (balance_for user db')\<rparr>"
proof -
  have "sg_id s = i" using assms(1) saga_rows.get_key by blast
  moreover have "finalize_success now body user (reserved_amount s) actual (balance_for user db)
      (s\<lparr>sg_state := state_value CHARGED, sg_updated := now\<rparr>)
      (after_step now ''service_success'' (success_context body (reserved_amount s) actual) s
        (fired RESERVED ''service_success'') db) = (r, db')" (is "finalize_success _ _ _ _ _ _ ?s ?db = _")
    using assms(6) unfolding finalize_reserved(1) [OF assms(1-5)] .
  ultimately show ?thesis
    using finalize_success_response [of now body user "reserved_amount s" actual "balance_for user db" ?s ?db] by simp
qed

text \<open>
  C19. A successful finalization of a reserved charge costs its user one amount, provided the reservation is not
  below the floor and the payload stores no cap on the seconds: the amount lies between the floor and the
  reservation, the charge's ledger rows sum to minus that amount, the balance falls by it, and no other charge
  and no other user is affected. The answer shows the amount to two decimals, half a cent to the even one, so
  that it may differ from the debit by up to half a cent.
\<close>

theorem finalize_debits_one_amount:
  assumes inv: "money_inv db" and s: "saga_get i db = Some s" "sg_user s = user" "sg_state s = ''reserved''"
    and body: "fr_success body" and cfg: "settings_ok cfg" "charge_min_amount cfg \<le> reserved_amount s"
    and cap: "dict_get ''max_solve_seconds'' (sg_payload s) = None"
  shows "\<exists>actual resp db'. finalize_charge cfg now i body user db = (Returned resp, db') \<and>
    charge_min_amount cfg \<le> actual \<and> actual \<le> reserved_amount s \<and>
    fi_actual resp = fmt 2 actual \<and> fi_state resp = ''charged'' \<and>
    saga_sum i db' = - actual \<and> balance_for user db' = balance_for user db - actual \<and>
    (\<forall>j. j \<noteq> i \<longrightarrow> saga_get j db' = saga_get j db \<and> saga_sum j db' = saga_sum j db) \<and>
    (\<forall>v. v \<noteq> user \<longrightarrow> balance_for v db' = balance_for v db)"
proof -
  obtain actual where actual: "finalize_amount cfg body s = Some actual" using cap_known [OF cap] by blast
  have st: "sg_state s = state_value RESERVED" using s(3) by simp
  define db' where "db' = snd (finalize_charge cfg now i body user db)"
  note m = money_invD [OF inv s(1)]
  note r = finalize_success_result [OF inv s(1,2) st body actual cfg(1) db'_def]
  note range = finalize_amount_range [OF actual cfg(1) m(3,4)]
  obtain resp where resp: "finalize_charge cfg now i body user db = (Returned resp, db')"
      "fi_actual resp = fmt 2 actual" "fi_state resp = ''charged''"
    using finalize_answer [OF s(1,2) st body actual prod.collapse [symmetric]]
    by (metis (no_types, lifting) db'_def finalize_response.select_convs(2,4) prod.collapse)
  have paid: "- reserved_amount s + partial_refund (reserved_amount s) actual = - actual"
    using range(3) cfg(2) by (simp add: partial_refund_def)
  have scaled: "ledger_scaled db" "ledger_scaled db'" using m(6) r(1) by (auto simp: touches_def)
  have others: "saga_get j db' = saga_get j db \<and> saga_sum j db' = saga_sum j db" if "j \<noteq> i" for j
    using r(1) that by (simp add: touches_def saga_sum_rows)
  have "balance_for user db' = balance_for user db + - actual"
    using r(6) [of user] paid by (intro balance_delta [OF scaled]) simp
  moreover have "balance_for v db' = balance_for v db" if "v \<noteq> user" for v
    using r(6) [of v] that balance_delta [OF scaled, of v 0] by simp
  ultimately show ?thesis
    using resp r(5) paid range(3,4) cfg(2) others by (intro exI [of _ actual] exI [of _ resp] exI [of _ db']) simp
qed

theorem finalize_debits_one_amount_witness:
  "\<exists>resp db'. finalize_charge sample_cfg sample_time 7 sample_finalize 1 (money_db RESERVED []) = (Returned resp, db') \<and>
     fi_state resp = ''charged''"
  using finalize_debits_one_amount [OF money_db_inv(1) money_db_saga(1), of 1 sample_finalize sample_cfg sample_time]
  by (auto simp: money_db_saga sample_cfg_ok sample_finalize_def)

text \<open>
  Finalizing again, at any time and with any body, answers exactly what the first call answered and
  writes nothing.
\<close>

theorem finalize_replays:
  assumes inv: "money_inv db" and s: "saga_get i db = Some s" "sg_user s = user" "sg_state s = ''reserved''"
    and body: "fr_success body" and cfg: "settings_ok cfg" "charge_min_amount cfg \<le> reserved_amount s"
    and cap: "dict_get ''max_solve_seconds'' (sg_payload s) = None"
    and first: "finalize_charge cfg now i body user db = (r, db')"
  shows "finalize_charge cfg now' i body' user db' = (r, db')"
proof -
  obtain actual where actual: "finalize_amount cfg body s = Some actual" using cap_known [OF cap] by blast
  have st: "sg_state s = state_value RESERVED" using s(3) by simp
  have db': "db' = snd (finalize_charge cfg now i body user db)" using first by simp
  note m = money_invD [OF inv s(1)]
  note q = finalize_success_result [OF inv s(1,2) st body actual cfg(1) db']
  note range = finalize_amount_range [OF actual cfg(1) m(3,4)]
  have i: "sg_id s = i" using s(1) saga_rows.get_key by blast
  have r: "r = Returned \<lparr>fi_id = i, fi_state = ''charged'', fi_reserved = fmt 2 (reserved_amount s),
      fi_actual = fmt 2 actual, fi_refund_partial = fmt 2 (partial_refund (reserved_amount s) actual),
      fi_before = fmt 2 (balance_for user db), fi_after = fmt 2 (balance_for user db')\<rparr>"
    by (rule finalize_answer [OF s(1,2) st body actual first])
  have paid: "- reserved_amount s + partial_refund (reserved_amount s) actual = - actual"
    using range(3) cfg(2) by (simp add: partial_refund_def)
  have scaled: "ledger_scaled db" "ledger_scaled db'" using m(6) q(1) by (auto simp: touches_def)
  have "balance_for user db' = balance_for user db + - actual"
    using q(6) [of user] paid by (intro balance_delta [OF scaled]) simp
  moreover have "kind_total ''charge'' i db' < 0 \<Longrightarrow>
      - kind_total ''charge'' i db' - partial_refund (reserved_amount s) actual = actual"
    "\<not> kind_total ''charge'' i db' < 0 \<Longrightarrow> actual = 0"
    using q(3) m(4) range(1,3) cfg(2) paid by auto
  ultimately show ?thesis
    using q(2,4) s(2) r i
    by (simp add: finalize_charge_def with_own_saga_cases rebuild_finalize_response_def kind_sum_rows Let_def)
qed

theorem finalize_replays_witness:
  "finalize_charge sample_cfg sample_time 7 sample_failure 1
     (snd (finalize_charge sample_cfg sample_time 7 sample_finalize 1 (money_db RESERVED []))) =
   finalize_charge sample_cfg sample_time 7 sample_finalize 1 (money_db RESERVED [])"
  using finalize_replays [OF money_db_inv(1) money_db_saga(1) _ _ _ _ _ _ prod.collapse [symmetric],
      of 1 sample_finalize sample_cfg sample_time sample_failure sample_time]
  by (simp add: money_db_saga sample_cfg_ok sample_finalize_def)

text \<open>
  A failed solve costs nothing: the charge's rows sum to zero, no balance changes, the saga ends refunded.
\<close>

theorem finalize_failure_is_free:
  assumes inv: "money_inv db" and s: "saga_get i db = Some s" "sg_user s = user" "sg_state s = ''reserved''"
    and body: "\<not> fr_success body" and first: "finalize_charge cfg now i body user db = (r, db')"
  shows "is_returned r \<and> saga_sum i db' = 0 \<and> (\<forall>v. balance_for v db' = balance_for v db) \<and>
    (\<exists>s'. saga_get i db' = Some s' \<and> sg_state s' = ''refunded'')"
proof -
  have st: "sg_state s = state_value RESERVED" using s(3) by simp
  have db': "db' = snd (finalize_charge cfg now i body user db)" using first by simp
  note m = money_invD [OF inv s(1)]
  note q = finalize_failure_result [OF inv s(1,2) st body db']
  have "is_returned r"
    using first finalize_reserved(2) [OF s(1,2) st body] by (auto simp: finalize_failure_def Let_def)
  moreover have "ledger_scaled db" "ledger_scaled db'" using m(6) q(1) by (auto simp: touches_def)
  then have "balance_for v db' = balance_for v db" for v using balance_delta [of db db' v 0] q(4) by simp
  ultimately show ?thesis using q(2,3) by simp
qed

theorem finalize_failure_is_free_witness:
  "saga_sum 7 (snd (finalize_charge sample_cfg sample_time 7 sample_failure 1 (money_db RESERVED []))) = 0"
  using finalize_failure_is_free [OF money_db_inv(1) money_db_saga(1) _ _ _ prod.collapse [symmetric],
      of 1 sample_failure sample_cfg sample_time]
  by (simp add: money_db_saga sample_failure_def)

section \<open>Refunds\<close>

lemma ends_with_charge: "ends_with ''_charge'' (sg_type (sample_saga st))"
  by (simp add: money_db_saga ends_with_def)

lemma refund_routes_agree:
  assumes "saga_get i db = Some s" "sg_user s = user" "ends_with ''_charge'' (sg_type s)" "sg_state s = state_value CHARGED"
  shows "charged_shape now i s db (snd (refund_auto_charge now i body db))"
    and "charged_shape now i s db (snd (refund_user_cancel_charge now i body user db))"
  using assms refund_shapes(3,4) [OF assms(1,4)]
  by (simp_all add: refund_auto_cases [OF assms(1,4)] refund_user_cancel_cases [OF assms(1,4)])

text \<open>
  C20. Refunding a charged charge, automatically or because its user cancelled, returns exactly what was
  paid: the charge's rows sum to zero afterwards, the balance rises by what they summed to before, and
  nobody else's balance changes.
\<close>

theorem refund_returns_what_was_paid:
  assumes inv: "money_inv db" and s: "saga_get i db = Some s" "sg_user s = user" "sg_state s = ''charged''"
    "ends_with ''_charge'' (sg_type s)"
    and db': "db' \<in> {snd (refund_auto_charge now i body db), snd (refund_user_cancel_charge now i body user db)}"
  shows "saga_sum i db' = 0 \<and> saga_sum i db \<le> 0 \<and> balance_for user db' = balance_for user db - saga_sum i db \<and>
    (\<forall>v. v \<noteq> user \<longrightarrow> balance_for v db' = balance_for v db) \<and>
    (\<exists>s'. saga_get i db' = Some s' \<and> sg_state s' = ''rolled_back'')"
proof -
  have st: "sg_state s = state_value CHARGED" using s(3) by simp
  have i: "sg_id s = i" using s(1) saga_rows.get_key by blast
  note m = money_invD [OF inv s(1)]
  have "charged_shape now i s db db'"
    using db' refund_routes_agree [OF s(1,2,4) st] by auto
  note q = charged_shape_result [OF inv s(1) st this]
  have scaled: "ledger_scaled db" "ledger_scaled db'" using m(6) q(1) by (auto simp: touches_def)
  have "balance_for v db' = balance_for v db + (if v = user then - saga_sum i db else 0)" for v
    using q(4) [of v] s(2) q(6) by (intro balance_delta [OF scaled]) simp
  moreover have "saga_sum i db \<le> 0" using m(1) i st by (simp add: money_ok_def)
  ultimately show ?thesis using q(2,3) by simp
qed

theorem refund_returns_what_was_paid_witness:
  "saga_sum 7 (snd (refund_auto_charge sample_time 7 sample_refund (money_db CHARGED charged_rows))) = 0 \<and>
   balance_for 1 (snd (refund_auto_charge sample_time 7 sample_refund (money_db CHARGED charged_rows))) =
     balance_for 1 (money_db CHARGED charged_rows) - saga_sum 7 (money_db CHARGED charged_rows)"
  using refund_returns_what_was_paid [OF money_db_inv(3) money_db_saga(1) _ _ ends_with_charge, of 1
      "snd (refund_auto_charge sample_time 7 sample_refund (money_db CHARGED charged_rows))" sample_time sample_refund]
  by (simp add: money_db_saga)

text \<open>A second refund of the same charge writes nothing, whichever route it takes.\<close>

theorem refund_once:
  assumes inv: "money_inv db" and s: "saga_get i db = Some s" "sg_state s \<in> {''reserved'', ''charged''}"
    "ends_with ''_charge'' (sg_type s)"
  shows "snd (refund_auto_charge now' i body' (snd (refund_auto_charge now i body db))) =
      snd (refund_auto_charge now i body db) \<and>
    snd (refund_user_cancel_charge now' i body' user (snd (refund_auto_charge now i body db))) =
      snd (refund_auto_charge now i body db)"
proof -
  obtain a where a: "sg_state s = state_value a" "a = RESERVED \<or> a = CHARGED" using s(2) by force
  have "\<exists>s' b. saga_get i (snd (refund_auto_charge now i body db)) = Some s' \<and> sg_state s' = state_value b \<and>
      b \<noteq> RESERVED \<and> b \<noteq> CHARGED"
  proof (cases "a = RESERVED")
    case True
    then have "reserved_shape now i s db (snd (refund_auto_charge now i body db))"
      using refund_shapes(1) [OF s(1)] a(1) s(3) by (simp add: refund_auto_cases [OF s(1) a(1)])
    from reserved_shape_result(2) [OF inv s(1) _ this] True a(1) show ?thesis
      by (intro exI [of _ "s\<lparr>sg_state := state_value REFUNDED, sg_updated := now\<rparr>"] exI [of _ REFUNDED]) simp
  next
    case False
    then have ch: "a = CHARGED" using a(2) by blast
    then have "charged_shape now i s db (snd (refund_auto_charge now i body db))"
      using refund_shapes(3) [OF s(1)] a(1) s(3) by (simp add: refund_auto_cases [OF s(1) a(1)])
    from charged_shape_result(2) [OF inv s(1) _ this] ch a(1) show ?thesis
      by (intro exI [of _ "s\<lparr>sg_state := state_value ROLLED_BACK, sg_updated := now\<rparr>"] exI [of _ ROLLED_BACK]) simp
  qed
  then obtain s' b where s': "saga_get i (snd (refund_auto_charge now i body db)) = Some s'" "sg_state s' = state_value b"
      "b \<noteq> RESERVED" "b \<noteq> CHARGED" by auto
  show ?thesis
    using s'(3,4) by (simp add: refund_auto_cases [OF s'(1,2)] refund_user_cancel_cases [OF s'(1,2)])
qed

theorem refund_once_witness:
  "snd (refund_auto_charge sample_time 7 sample_refund
      (snd (refund_auto_charge sample_time 7 sample_refund (money_db CHARGED charged_rows)))) =
    snd (refund_auto_charge sample_time 7 sample_refund (money_db CHARGED charged_rows))"
  using refund_once [OF money_db_inv(3) money_db_saga(1) _ ends_with_charge] by (simp add: money_db_saga)

section \<open>Ownership\<close>

text \<open>
  On a charge that is not the caller's, reserve, finalize, confirm and the user-cancel refund answer
  403 and write nothing.
\<close>

theorem foreign_charge_forbidden:
  assumes "saga_get i db = Some s" and "sg_user s \<noteq> user"
  shows "problem_status (fst (reserve_charge now i user db)) = 403 \<and> snd (reserve_charge now i user db) = db \<and>
    problem_status (fst (finalize_charge cfg now i fbody user db)) = 403 \<and> snd (finalize_charge cfg now i fbody user db) = db \<and>
    problem_status (fst (confirm_charge now i user db)) = 403 \<and> snd (confirm_charge now i user db) = db \<and>
    problem_status (fst (refund_user_cancel_charge now i rbody user db)) = 403 \<and>
    snd (refund_user_cancel_charge now i rbody user db) = db"
  using assms
  by (simp add: reserve_charge_def finalize_charge_def confirm_charge_def refund_user_cancel_charge_def
      with_own_saga_cases)

theorem foreign_charge_forbidden_witness:
  "problem_status (fst (finalize_charge sample_cfg sample_time 7 sample_finalize 2 (money_db RESERVED []))) = 403"
  using foreign_charge_forbidden [OF money_db_saga(1), where user = 2] by (simp add: money_db_saga)

section \<open>Top-ups\<close>

text \<open>
  C37. Confirming a pending top-up credits its amount once: the balance rises by it, the same confirmation
  repeated writes nothing, and one with another payment reference is refused.
\<close>

theorem topup_credited_once:
  assumes inv: "money_inv db" and s: "saga_get i db = Some s" "sg_state s = ''pending''" "sg_type s = ''topup''"
    and first: "confirm_topup now i body db = (r, db')"
  shows "is_returned r \<and> balance_for (sg_user s) db' = balance_for (sg_user s) db + reserved_amount s \<and>
    saga_sum i db' = reserved_amount s \<and>
    confirm_topup now' i body' db' =
      (if tc_payment_ref body' = tc_payment_ref body then r else problem_response ''Payment Reference Conflict'' 409, db')"
proof -
  have st: "sg_state s = state_value PENDING" using s(2) by simp
  have db': "db' = snd (confirm_topup now i body db)" using first by simp
  note m = money_invD [OF inv s(1)]
  note q = confirm_topup_pending [OF inv s(1) st s(3) db']
  have scaled: "ledger_scaled db" "ledger_scaled db'" using m(6) q(1) by (auto simp: touches_def)
  obtain row where row: "topup_ledger_rows i db' = [row]" "ledger_payment_ref row = Some (tc_payment_ref body)"
    using q(5) by blast
  have "balance_for (sg_user s) db' = balance_for (sg_user s) db + reserved_amount s"
    using q(4) [of "sg_user s"] by (intro balance_delta [OF scaled]) simp
  moreover have "r = Returned (topup_response_of (s\<lparr>sg_state := ''completed'', sg_updated := now\<rparr>)
       (Some (balance_for (sg_user s) db')))"
    using q(6) first by simp
  ultimately show ?thesis
    using q(2,3) row s(3) by (auto simp: confirm_topup_def)
qed

definition topup_db :: billing_db where
  "topup_db = empty_db\<lparr>db_sagas := [(sample_saga PENDING)\<lparr>sg_type := ''topup'', sg_amount := Some 100\<rparr>], db_next_id := 8\<rparr>"

lemma topup_db_facts:
  "money_inv topup_db" "saga_get 7 topup_db = Some ((sample_saga PENDING)\<lparr>sg_type := ''topup'', sg_amount := Some 100\<rparr>)"
  by (auto simp: money_inv_def topup_db_def sagas_scaled_def ledger_scaled_def idem_linked_def saga_get_def idem_get_def
      row_get_Cons empty_db_def sample_saga_def amount_scaled_def reserved_amount_def money_ok_def
      ledger_rows_for_saga_def has_scale_def split: if_splits)

theorem topup_credited_once_witness:
  "saga_sum 7 (snd (confirm_topup sample_time 7 \<lparr>tc_provider = ''stripe'', tc_payment_ref = ''pi_1''\<rparr> topup_db)) = 100"
  using topup_credited_once [OF topup_db_facts _ _ prod.collapse [symmetric]]
  by (simp add: sample_saga_def reserved_amount_def)

section \<open>Creating a charge\<close>

lemma charge_response_roundtrip: "charge_response_of_json (charge_response_json r) = Some r"
  by (simp add: charge_response_of_json_def charge_response_json_def Let_def)

text \<open>A stored answer reads back as the answer that was stored.\<close>

theorem stored_charge_response_reads_back: "charge_response_of_json (charge_response_json r) = Some r"
  by (rule charge_response_roundtrip)

text \<open>
  A budget paused for the month blocks new charges: without a stored answer for the key the request is
  refused with 409 and nothing is written.
\<close>

theorem paused_budget_blocks_charges:
  assumes "validate_idempotency_key key" "charge_replay_response_if_cached cfg now body user key db = None"
    and "current_budget_is_paused now user db \<noteq> None"
  shows "problem_status (fst (create_charge cfg now body user key db)) = 409 \<and> snd (create_charge cfg now body user key db) = db"
  using assms by (simp add: create_charge_def)

lemma sample_idem_ok: "validate_idempotency_key sample_idem"
  by code_simp

theorem paused_budget_blocks_charges_witness:
  "problem_status (fst (create_charge sample_cfg (DateTime 2026 5 20 0) sample_charge 1 sample_idem
     (sample_budget_db 100\<lparr>db_budgets := [sample_control\<lparr>bc_status := ''paused'', bc_pause_start := Some (DateTime 2026 5 1 0)\<rparr>]\<rparr>))) = 409"
  (is "problem_status (fst (create_charge _ _ _ _ _ ?db)) = _")
proof -
  have "charge_replay_response_if_cached sample_cfg (DateTime 2026 5 20 0) sample_charge 1 sample_idem ?db = None"
    by (simp add: charge_replay_response_if_cached_def idempotency_row_by_key_def idem_get_def sample_budget_db_def empty_db_def)
  moreover have "current_budget_is_paused (DateTime 2026 5 20 0) 1 ?db \<noteq> None"
    by (simp add: current_budget_is_paused_def get_budget_control_def row_get_def sample_control_def current_budget_period_def Let_def)
  ultimately show ?thesis using paused_budget_blocks_charges [OF sample_idem_ok] by blast
qed

text \<open>
  C21. A request on an unused key that passes the guards (safe reference, budget not paused, enough balance,
  warnings confirmed) creates a pending charge of the user for the requested amount without debiting
  anything, and sending it again before the key expires returns the same answer and writes nothing.
\<close>

theorem create_charge_then_replay:
  assumes "validate_idempotency_key key" "idem_get key db = None" "\<not> key_taken key db" "money_inv db"
    and safe: "validate_payload_ref_safety (charge_payload body
        (charge_warnings cfg body user (seeded cfg now user db) \<noteq> [] \<and> cr_confirmed body)) = Inr ()"
    and "current_budget_is_paused now user db = None"
    and n: "d_value (cr_amount body) \<le> balance_for user (seeded cfg now user db)"
      "charge_warnings cfg body user (seeded cfg now user db) = [] \<or> cr_confirmed body"
    and later: "now' < dt_plus now (hours (saga_idempotency_ttl_hours cfg))"
  shows "\<exists>resp db' saga. create_charge cfg now body user key db = (Returned resp, db') \<and>
    ch_state resp = ''pending'' \<and> saga_get (ch_id resp) db' = Some saga \<and> sg_user saga = user \<and>
    sg_type saga = cr_purpose body @ ''_charge'' \<and> sg_amount saga = Some (pg_numeric 4 (d_value (cr_amount body))) \<and>
    db_ledger db' = db_ledger (seeded cfg now user db) \<and>
    create_charge cfg now' body user key db' = (Returned resp, db')"
proof -
  let ?db1 = "seeded cfg now user db"
  let ?incl = "charge_warnings cfg body user ?db1 \<noteq> [] \<and> cr_confirmed body"
  let ?p = "charge_payload body ?incl" and ?ty = "charge_saga_type body"
  define db2 where "db2 = after_start cfg now ?ty user key ?p (Some (cr_amount body)) ?db1"
  define row where "row = new_key cfg now ?ty user key ?p (Some (cr_amount body)) ?db1"
  have same: "idem_get k ?db1 = idem_get k db" "key_taken k ?db1 = key_taken k db" for k
    by (simp_all add: seeded_def seed_demo_balance_def idem_get_def key_taken_def)
  have fresh: "saga_get (db_next_id ?db1) ?db1 = None"
    using money_fresh money_inv_seed assms(4) by (simp add: seeded_def)
  have cached: "charge_replay_response_if_cached cfg now body user key db = None"
    by (simp add: charge_replay_response_if_cached_def idempotency_row_by_key_def assms(2))
  have st: "start_saga cfg now ?ty user key ?p (Some (cr_amount body)) \<lparr>committed = db, working = ?db1\<rparr> =
      (Inr (new_saga now ?ty user key ?p (Some (cr_amount body)) ?db1), \<lparr>committed = db, working = db2\<rparr>)"
    using safe assms(2,3) by (simp add: start_cases reuse_key_def same db2_def)
  have row: "idem_get key db2 = Some row"
    using assms(2) after_start_idem [of key ?db1] by (simp add: db2_def row_def same)
  define resp where "resp = \<lparr>ch_id = db_next_id ?db1, ch_state = ''pending'',
      ch_amount = fmt 2 (d_value (cr_amount body)), ch_currency = ''CNY'',
      ch_before = fmt 2 (balance_for user ?db1), ch_after = fmt 2 (balance_for user db2)\<rparr>"
  define db3 where "db3 = idem_put (row\<lparr>ik_response := Some (charge_response_json resp)\<rparr>) db2"
  have first: "create_charge cfg now body user key db = (Returned resp, db3)"
    unfolding create_charge_go [OF assms(1) cached assms(6) n st]
    using row by (simp add: Let_def persist_charge_response_body_def idempotency_row_by_key_def db3_def resp_def)
  have row3: "idem_get key db3 = Some (row\<lparr>ik_response := Some (charge_response_json resp)\<rparr>)"
    using idem_rows.get_put_same [of "row\<lparr>ik_response := Some (charge_response_json resp)\<rparr>" db2 row] row
    by (simp add: db3_def row_def)
  have "ik_hash row \<in> charge_request_hash_candidates cfg body"
    by (cases "charge_warnings cfg body user ?db1 = []"; cases "cr_confirmed body")
      (simp_all add: row_def charge_request_hash_candidates_def charge_request_hash_def)
  then have "charge_replay_response_if_cached cfg now' body user key db3 = Some (Returned resp, db3)"
    using later row3
    by (simp add: charge_replay_response_if_cached_def idempotency_row_by_key_def row_def charge_response_roundtrip)
  then have again: "create_charge cfg now' body user key db3 = (Returned resp, db3)"
    using assms(1) by (simp add: create_charge_def)
  have "saga_get (db_next_id ?db1) db3 = Some (new_saga now ?ty user key ?p (Some (cr_amount body)) ?db1)"
    by (simp add: db3_def db2_def after_start_get [OF fresh])
  moreover have "db_ledger db3 = db_ledger ?db1" by (simp add: db3_def db2_def)
  ultimately show ?thesis
    using first again
    by (intro exI [of _ resp] exI [of _ db3] exI [of _ "new_saga now ?ty user key ?p (Some (cr_amount body)) ?db1"])
      (simp add: resp_def charge_saga_type_def, simp add: new_saga_def)
qed

theorem create_charge_then_replay_witness:
  "\<exists>resp db'. create_charge sample_cfg sample_time sample_charge 1 sample_idem (money_db PENDING []) = (Returned resp, db') \<and>
     create_charge sample_cfg sample_time sample_charge 1 sample_idem db' = (Returned resp, db')"
proof -
  have facts: "idem_get sample_idem (money_db PENDING []) = None" "\<not> key_taken sample_idem (money_db PENDING [])"
    "current_budget_is_paused sample_time 1 (money_db PENDING []) = None"
    "d_value (cr_amount sample_charge) \<le> balance_for 1 (seeded sample_cfg sample_time 1 (money_db PENDING []))"
    "validate_payload_ref_safety (charge_payload sample_charge True) = Inr ()"
    "charge_warnings sample_cfg sample_charge 1 (seeded sample_cfg sample_time 1 (money_db PENDING [])) \<noteq> []"
    "cr_confirmed sample_charge"
    by code_simp+
  show ?thesis
    using create_charge_then_replay [OF sample_idem_ok facts(1,2) money_db_inv(2) _ facts(3,4) _ sample_live]
      facts(5,6,7) by auto
qed

section \<open>Two behaviours the comments do not announce\<close>

text \<open>Two requests of 50 CNY each, one after the other.\<close>

definition fifty :: charge_request where
  "fifty = sample_charge\<lparr>cr_amount := \<lparr>d_value = 50, d_text = ''50.00''\<rparr>\<rparr>"

definition second_idem :: string where
  "second_idem = ''0a0b0c0d-0000-4000-8000-00000000000b''"

text \<open>The requests, in the order they arrive, on an empty database.\<close>

definition two_charges :: billing_db where
  "two_charges =
     (let db1 = snd (create_charge sample_cfg sample_time fifty 1 sample_idem empty_db);
          db2 = snd (create_charge sample_cfg sample_time fifty 1 second_idem db1);
          db3 = snd (reserve_charge sample_time 1 1 db2);
          db4 = snd (reserve_charge sample_time 2 1 db3)
      in db4)"

text \<open>
  Reserving holds no credits: with a balance of 50 CNY a user can create and reserve two charges of
  50 CNY each, both are reserved and the balance is still 50, so finalizing both overdraws the account.
\<close>

theorem reservations_do_not_hold_credits:
  "balance_for 1 two_charges = 50 \<and>
   map (\<lambda>i. map_option (\<lambda>g. (sg_state g, sg_amount g)) (saga_get i two_charges)) [1, 2] =
     [Some (''reserved'', Some 50), Some (''reserved'', Some 50)]"
  by code_simp

text \<open>
  The charge routes accept a top-up saga: a user who reserves a pending top-up blocks the payment
  confirmation, which then answers 409 for a payment that was made.
\<close>

theorem reserved_topup_cannot_be_confirmed:
  "problem_status (fst (reserve_charge sample_time 7 1 topup_db)) = 200 \<and>
   problem_status (fst (confirm_topup sample_time 7 \<lparr>tc_provider = ''stripe'', tc_payment_ref = ''pi_1''\<rparr>
     (snd (reserve_charge sample_time 7 1 topup_db)))) = 409"
  by code_simp

end
