(* ===== verification/RequestFrame.thy ===== *)
theory RequestFrame
  imports ChargeSafety
begin

text \<open>
  What holds from the database before a charge, refund, top-up or budget request to the one after it, for
  any relation of databases that the elementary writes of routes.py respect: the locale
  \<open>request_order\<close> is that contract, and its lemmas carry it through every handler once. BillingSystem
  interprets it with the growth of the ledger, the moves of the sagas, the identifiers and the
  subscriptions.
\<close>

section \<open>The moves of a saga\<close>

text \<open>
  An edge of the transition table, or the one write past the orchestrator: the confirmation of a top-up
  completes a pending saga.
\<close>

definition saga_move :: "string \<Rightarrow> string \<Rightarrow> bool" where
  "saga_move a b \<longleftrightarrow>
     (\<exists>x g y. saga_step x g y \<and> a = state_value x \<and> b = state_value y) \<or>
     a = state_value PENDING \<and> b = state_value COMPLETED"

lemma saga_move_step: "saga_step x g y \<Longrightarrow> saga_move (state_value x) (state_value y)"
  by (auto simp: saga_move_def)

lemma saga_move_complete: "saga_move ''pending'' ''completed''"
  by (simp add: saga_move_def)

lemma known_transition:
  assumes "find_transition v g = Some t"
  shows "saga_move v (state_value (to_state t))"
proof -
  have "state_of v = Some (from_state t)" "saga_step (from_state t) g (to_state t)"
    using assms by (auto simp: find_transition_iff set_transitions_from intro: saga_step.fire)
  then show ?thesis using saga_move_step by (auto dest: state_of_SomeD)
qed

section \<open>Elementary writes\<close>

lemma evaluate_subs [simp]: "db_subs (snd (evaluate_budget_thresholds now u g db)) = db_subs db"
  using evaluate_same_money [of db now u g] by (simp add: same_money_tables_def)

lemma record_cost_subs [simp]: "db_subs (record_billing_cost_attribution s e st db) = db_subs db"
  by (auto simp: record_billing_cost_attribution_def Let_def dest: record_cost_frame split: option.split)

lemma idem_put_subs: "db_subs (idem_put r db) = db_subs db"
  by (simp add: idem_put_def)

lemma idem_add_subs: "db_subs (idem_add r db) = db_subs db"
  by (simp add: idem_add_def)

lemma configure_next: "db_next_id db \<le> db_next_id (snd (configure_budget now user a en db))"
  by (auto simp: configure_budget_def Let_def split: option.split
      intro!: order_trans [OF _ evaluate_next] write_once_next)

locale request_order =
  fixes R :: "billing_db \<Rightarrow> billing_db \<Rightarrow> bool"
  assumes refl: "R db db"
    and trans: "R db db' \<Longrightarrow> R db' db'' \<Longrightarrow> R db db''"
    and quiet: "db_ledger db' = db_ledger db \<Longrightarrow> db_sagas db' = db_sagas db \<Longrightarrow> db_subs db' = db_subs db \<Longrightarrow>
      db_next_id db \<le> db_next_id db' \<Longrightarrow> R db db'"
    and credit: "R db (add_credit u sg a k b m now db)"
    and move: "saga_get i db = Some s \<Longrightarrow> saga_move (sg_state s) st \<Longrightarrow>
      R db (saga_put (s\<lparr>sg_state := st, sg_updated := now\<rparr>) db)"
    and start: "sg_id s = db_next_id db \<Longrightarrow> R db (saga_add s (db\<lparr>db_next_id := Suc (db_next_id db)\<rparr>))"
begin

lemma then_credit: "R db db' \<Longrightarrow> R db (add_credit u sg a k b m now db')"
  using credit by (rule trans [rotated])

lemma then_quiet:
  assumes "R db db'" "db_ledger db'' = db_ledger db'" "db_sagas db'' = db_sagas db'" "db_subs db'' = db_subs db'"
    "db_next_id db' \<le> db_next_id db''"
  shows "R db db''"
  using assms(1) quiet [OF assms(2-5)] by (rule trans)

lemma then_outbox: "R db db' \<Longrightarrow> R db (add_outbox a1 a2 a3 a4 a5 now db')"
  by (erule then_quiet) simp_all

lemma then_evaluate: "R db db' \<Longrightarrow> R db (snd (evaluate_budget_thresholds now u g db'))"
  by (erule then_quiet) (simp_all add: evaluate_next)

lemma then_cost: "R db db' \<Longrightarrow> R db (record_billing_cost_attribution s e st db')"
  by (erule then_quiet) (simp_all add: record_cost_next)

lemma then_idem_put: "R db db' \<Longrightarrow> R db (idem_put r db')"
  by (erule then_quiet) (simp_all add: idem_put_subs)

lemma then_idem_add: "R db db' \<Longrightarrow> R db (idem_add r db')"
  by (erule then_quiet) (simp_all add: idem_add_subs)

lemmas writes = then_credit then_outbox then_evaluate then_cost then_idem_put refl

lemma apply_step: "R db (snd (apply_saga now i g ctx db))"
proof (cases "saga_get i db")
  case None
  then show ?thesis by (simp add: apply_missing refl)
next
  case (Some s)
  show ?thesis
  proof (cases "find_transition (sg_state s) g")
    case None
    then show ?thesis using Some refl by (auto simp: apply_saga_def split: option.split)
  next
    case found: (Some t)
    let ?s = "s\<lparr>sg_state := state_value (to_state t), sg_updated := now\<rparr>"
    have "R db (saga_put ?s db)" by (rule move [OF Some known_transition [OF found]])
    then have "R db (write_credit now g ctx ?s (saga_put ?s db))"
      by (auto simp: write_credit_def intro: writes split: option.split)
    then show ?thesis
      by (simp add: apply_found [OF Some found] after_step_def Let_def write_event_def then_outbox)
  qed
qed

lemma on_applied:
  assumes "R db db1" and k: "\<And>saga db'. R db db' \<Longrightarrow> R db (snd (k saga db'))"
  shows "R db (snd (on_applied title db (apply_saga now i g ctx db1) k))"
  using trans [OF assms(1) apply_step, of now i g ctx] k refl
  by (auto simp: on_applied_def split: prod.split sum.split saga_error.split)

lemma with_own: "(\<And>s. R db (snd (k s))) \<Longrightarrow> R db (snd (with_own_saga i u db k))"
  by (simp add: with_own_saga_cases refl split: option.split)

lemma starting:
  assumes "R db (committed s)" "R db (working s)" "start_saga cfg now ty u k p a s = (r, s')"
  shows "R db (committed s')" "R db (working s')"
proof -
  have "R db (after_start cfg now ty u k p a (working s))"
    unfolding after_start_def by (intro then_idem_add trans [OF assms(2)] start) simp
  then show "R db (committed s')" "R db (working s')"
    using assms by (auto simp: start_cases rollback_def split: sum.splits option.splits if_splits)
qed

section \<open>The handlers\<close>

lemma reserve: "R db (snd (reserve_charge now i user db))"
  unfolding reserve_charge_def by (intro with_own on_applied refl) simp

lemma finalize: "R db (snd (finalize_charge cfg now i body user db))"
proof -
  have "R db (snd (finalize_success now body user res act bal saga db'))" if "R db db'" for res act bal saga db'
    using that by (auto simp: finalize_success_def Let_def intro: writes)
  moreover have "R db (snd (finalize_failure now body user res bal saga db'))" if "R db db'" for res bal saga db'
    using that by (auto simp: finalize_failure_def Let_def intro: writes)
  ultimately show ?thesis
    unfolding finalize_charge_def
    by (intro with_own) (auto simp: Let_def intro: refl on_applied split: option.split)
qed

lemma confirm: "R db (snd (confirm_charge now i user db))"
  unfolding confirm_charge_def Let_def
  by (intro with_own on_applied refl) (auto intro: writes)

lemma auto_reserved: "R db (snd (refund_auto_reserved now i body saga db))"
  unfolding refund_auto_reserved_def Let_def
  by (intro on_applied refl) (auto simp: write_refund_auto_outbox_def intro: writes)

lemma auto_charged: "R db (snd (refund_auto_charged now i body saga db))"
  unfolding refund_auto_charged_def Let_def
  by (intro on_applied refl) (auto simp: write_refund_auto_outbox_def intro: writes)

lemma cancel_reserved: "R db (snd (refund_user_cancel_reserved now i body saga db))"
  unfolding refund_user_cancel_reserved_def Let_def
  by (intro on_applied refl) (auto simp: write_refund_user_cancel_outbox_def intro: writes)

lemma cancel_charged: "R db (snd (refund_user_cancel_charged now i body saga db))"
  unfolding refund_user_cancel_charged_def Let_def
  by (intro on_applied refl) (auto simp: write_refund_user_cancel_outbox_def intro: writes)

lemma refund_auto: "R db (snd (refund_auto_charge now i body db))"
  using refl auto_reserved auto_charged by (simp add: refund_auto_charge_def split: sum.split)

lemma refund_user_cancel: "R db (snd (refund_user_cancel_charge now i body user db))"
  unfolding refund_user_cancel_charge_def
  by (rule with_own) (use refl cancel_reserved cancel_charged in simp)

lemma topup_created: "R db (snd (create_topup cfg now body user key db))"
proof -
  obtain r s' where st: "start_saga cfg now ''topup'' user key
      [(''reference_id'', JStr (tr_reference body)), (''purpose'', JStr ''topup'')]
      (Some (tr_amount body)) (open_session db) = (r, s')" by (rule prod.exhaust)
  have "R db (committed s')" "R db (working s')"
    by (rule starting [OF _ _ st]; simp add: open_session_def refl)+
  then show ?thesis by (auto simp: create_topup_def Let_def st refl split: sum.split saga_error.split)
qed

lemma topup_confirmed: "R db (snd (confirm_topup now i body db))"
proof (cases "\<exists>s. saga_get i db = Some s \<and> sg_state s = ''pending'' \<and> sg_type s = ''topup'' \<and> topup_ledger_rows i db = []")
  case True
  then obtain s where s: "saga_get i db = Some s" "sg_state s = ''pending''" "sg_type s = ''topup''"
    "topup_ledger_rows i db = []" by blast
  have "R db (saga_put (s\<lparr>sg_state := ''completed'', sg_updated := now\<rparr>) db)"
    by (rule move [OF s(1)]) (simp add: s(2) saga_move_complete)
  then show ?thesis by (auto simp: confirm_topup_def s Let_def intro: writes)
next
  case False
  then show ?thesis using refl by (auto simp: confirm_topup_def Let_def split: option.split list.split)
qed

lemma budget_put: "R db (snd (put_budget now user body db))"
proof -
  have "R db (snd (configure_budget now user a en db))" for a en
    using configure_same_money [of db now user a en] configure_next
    by (intro quiet) (simp_all add: same_money_tables_def)
  then have "configure_budget now user a en db = (r, db') \<Longrightarrow> R db db'" for a en r db' by (metis snd_conv)
  then show ?thesis using refl by (auto simp: put_budget_def split: option.split prod.split)
qed

lemma charge_created: "R db (snd (create_charge cfg now body user key db))"
proof -
  let ?db1 = "seeded cfg now user db"
  have seeded: "R db ?db1" by (simp add: seeded_def seed_demo_balance_def refl credit)
  have replay: "R db (snd x)" if "charge_replay_response_if_cached cfg now body user key db = Some x" for x
    using that
    by (auto simp: charge_replay_response_if_cached_def legacy_charge_response_from_idempotency_row_def Let_def
        intro: refl then_idem_put [OF refl] split: option.splits if_splits)
  show ?thesis
  proof (cases "validate_idempotency_key key \<and> charge_replay_response_if_cached cfg now body user key db = None \<and>
      current_budget_is_paused now user db = None \<and> d_value (cr_amount body) \<le> balance_for user ?db1 \<and>
      (charge_warnings cfg body user ?db1 \<noteq> [] \<longrightarrow> cr_confirmed body)")
    case False
    from create_charge_stopped [OF this] show ?thesis using refl seeded replay by (metis empty_iff insert_iff)
  next
    case True
    obtain r s' where st: "start_saga cfg now (charge_saga_type body) user key
        (charge_payload body (charge_warnings cfg body user ?db1 \<noteq> [] \<and> cr_confirmed body)) (Some (cr_amount body))
        \<lparr>committed = db, working = ?db1\<rparr> = (r, s')" by (rule prod.exhaust)
    have s': "R db (committed s')" "R db (working s')"
      by (rule starting [OF _ _ st]; simp add: seeded refl)+
    then have persist: "R db db2" if "persist_charge_response_body key resp (working s') = Some db2" for resp db2
      using that by (auto simp: persist_charge_response_body_def intro: writes split: option.splits)
    have go: "validate_idempotency_key key" "charge_replay_response_if_cached cfg now body user key db = None"
        "current_budget_is_paused now user db = None" "d_value (cr_amount body) \<le> balance_for user ?db1"
        "charge_warnings cfg body user ?db1 = [] \<or> cr_confirmed body"
      using True by blast+
    show ?thesis
      unfolding create_charge_go [OF go st] using s' persist
      by (cases r) (simp_all add: Let_def split: saga_error.split option.split)
  qed
qed

end

section \<open>Requests\<close>

text \<open>
  The requests of the money routes, with the bodies their schemas accept; the amount of a top-up is
  normalised by its schema.
\<close>

datatype money_request =
    CreateCharge charge_request nat string
  | ReserveCharge nat nat
  | FinalizeCharge nat finalize_request nat
  | ConfirmCharge nat nat
  | RefundAuto nat refund_request
  | RefundUserCancel nat refund_request nat
  | CreateTopup rat string nat string
  | ConfirmTopup nat topup_confirm
  | PutBudget nat "(rat option \<times> bool) option"

fun money_request_ok :: "money_request \<Rightarrow> bool" where
  "money_request_ok (CreateCharge body _ _) = charge_request_ok body"
| "money_request_ok (FinalizeCharge _ body _) = finalize_request_ok body"
| "money_request_ok (RefundAuto _ body) = auto_refund_request_ok body"
| "money_request_ok (RefundUserCancel _ body _) = user_cancel_request_ok body"
| "money_request_ok (ConfirmTopup _ body) = topup_confirm_ok body"
| "money_request_ok _ = True"

fun handle_money :: "settings \<Rightarrow> datetime \<Rightarrow> money_request \<Rightarrow> billing_db \<Rightarrow> billing_db" where
  "handle_money cfg now (CreateCharge body user key) db = snd (create_charge cfg now body user key db)"
| "handle_money cfg now (ReserveCharge i user) db = snd (reserve_charge now i user db)"
| "handle_money cfg now (FinalizeCharge i body user) db = snd (finalize_charge cfg now i body user db)"
| "handle_money cfg now (ConfirmCharge i user) db = snd (confirm_charge now i user db)"
| "handle_money cfg now (RefundAuto i body) db = snd (refund_auto_charge now i body db)"
| "handle_money cfg now (RefundUserCancel i body user) db = snd (refund_user_cancel_charge now i body user db)"
| "handle_money cfg now (CreateTopup a ref user key) db =
     (case topup_create_request a ref of None \<Rightarrow> db | Some body \<Rightarrow> snd (create_topup cfg now body user key db))"
| "handle_money cfg now (ConfirmTopup i body) db = snd (confirm_topup now i body db)"
| "handle_money cfg now (PutBudget user body) db = snd (put_budget now user body db)"

lemma put_budget_same_money: "same_money_tables db (snd (put_budget now user body db))"
proof -
  have "same_money_tables db (snd (configure_budget now user a en db))" for a en by (rule configure_same_money)
  then have "configure_budget now user a en db = (r, db') \<Longrightarrow> same_money_tables db db'" for a en r db' by (metis snd_conv)
  moreover have "same_money_tables db db" by (simp add: same_money_tables_def)
  ultimately show ?thesis by (auto simp: put_budget_def split: option.split prod.split)
qed

lemma put_budget_next: "db_next_id db \<le> db_next_id (snd (put_budget now user body db))"
  using configure_next [of db now user]
  by (auto simp: put_budget_def split: option.split prod.split) (metis snd_conv)

lemma put_budget_keeps_money:
  assumes "money_inv db"
  shows "money_inv (snd (put_budget now user body db))" (is "money_inv ?db")
proof -
  have same: "db_ledger ?db = db_ledger db" "db_sagas ?db = db_sagas db" "db_idem ?db = db_idem db"
    using put_budget_same_money [of db now user body] by (simp_all add: same_money_tables_def)
  note totals = totals_cong [OF same(1)] ledger_scaled_cong [OF same(1)] saga_get_cong [OF same(2)]
  have ok: "money_ok s ?db = money_ok s db" for s unfolding money_ok_def totals by (rule refl)
  have "idem_linked ?db = idem_linked db" by (simp add: idem_linked_def idem_get_def same totals)
  then show ?thesis
    using assms put_budget_next [of db now user body] unfolding money_inv_def sagas_scaled_def totals ok
    by auto (meson order_less_le_trans)
qed

lemma handle_keeps_money:
  assumes "money_inv db" "settings_ok cfg" "money_request_ok r"
  shows "money_inv (handle_money cfg now r db)"
proof (cases r)
  case (CreateTopup a ref user key)
  have "0 \<le> d_value (tr_amount body)" if "topup_create_request a ref = Some body" for body
    using that by (auto simp: topup_create_request_def split: sum.splits if_splits)
  with assms(1) show ?thesis by (auto simp: CreateTopup create_topup_keeps_money split: option.split)
qed (use assms in \<open>simp_all add: create_charge_keeps_money reserve_keeps_money finalize_keeps_money
    confirm_charge_keeps_money refunds_keep_money confirm_topup_keeps_money put_budget_keeps_money\<close>)

context request_order
begin

lemma handled: "R db (handle_money cfg now r db)"
  using charge_created reserve finalize confirm refund_auto refund_user_cancel topup_created topup_confirmed budget_put refl
  by (cases r) (simp_all split: option.split)

end

end
