(* ===== verification/Subscriptions.thy ===== *)
theory Subscriptions
  imports Charges
begin

text \<open>
  Subscriptions (apps/billing-service/src/billing_service/routes.py): the plan catalogue, the
  education entitlements, the upgrade with proration, the monthly refills and the loop over the
  subscriptions that are due. As in \<open>Charges\<close> a handler maps the committed database to its answer
  and the database it leaves; \<open>now\<close> is the clock, read once per request.
\<close>

section \<open>The table\<close>

definition sub_get :: "nat \<Rightarrow> billing_db \<Rightarrow> billing_subscription option" where
  "sub_get i db = row_get sub_id i (db_subs db)"

definition sub_put :: "billing_subscription \<Rightarrow> billing_db \<Rightarrow> billing_db" where
  "sub_put s db = db\<lparr>db_subs := row_put sub_id s (db_subs db)\<rparr>"

definition sub_add :: "billing_subscription \<Rightarrow> billing_db \<Rightarrow> billing_db" where
  "sub_add s db = db\<lparr>db_subs := db_subs db @ [s], db_next_id := Suc (db_next_id db)\<rparr>"

interpretation sub_rows: keyed_store sub_get sub_put sub_add sub_id
  by unfold_locales
    (auto simp: sub_get_def sub_put_def sub_add_def row_list.get_put_same row_list.get_add
      dest: row_get_SomeD)

text \<open>
  \<^verbatim>\<open>_active_subscription_for\<close>: a partial unique index keeps the active rows of a user to one, so
  \<^verbatim>\<open>scalar_one_or_none\<close> is the first.
\<close>

definition active_subscription_for :: "nat \<Rightarrow> billing_db \<Rightarrow> billing_subscription option" where
  "active_subscription_for user db = find (\<lambda>s. sub_user s = user \<and> sub_status s = ''active'') (db_subs db)"

definition user_is_edu_tier :: "nat \<Rightarrow> billing_db \<Rightarrow> bool" where
  "user_is_edu_tier user db = (case row_get us_id user (db_users db) of None \<Rightarrow> False | Some u \<Rightarrow> us_edu_tier u)"

definition has_edu_signup_seed :: "nat \<Rightarrow> billing_db \<Rightarrow> bool" where
  "has_edu_signup_seed user db =
     list_ex (\<lambda>r. ct_user r = user \<and> ct_bucket r = ''edu'' \<and>
                  dict_get ''source'' (ct_meta r) = Some (JStr ''edu_tier_signup'')) (db_ledger db)"

section \<open>What the metadata says\<close>

definition subscription_entitlement_source :: "billing_subscription \<Rightarrow> string option" where
  "subscription_entitlement_source s =
     (if dict_get ''source'' (sub_meta s) = Some (JStr ''edu_tier'') then Some ''edu_tier'' else None)"

definition subscription_education_entitlement :: "billing_subscription \<Rightarrow> json option" where
  "subscription_education_entitlement s =
     (if subscription_entitlement_source s \<noteq> Some ''edu_tier'' then None
      else case dict_get ''education_entitlement'' (sub_meta s) of
             Some raw \<Rightarrow> if is_str raw then Some raw else None
           | None \<Rightarrow> None)"

definition subscription_is_edu_starter :: "billing_subscription \<Rightarrow> bool" where
  "subscription_is_edu_starter s \<longleftrightarrow>
     sub_plan s = STARTER \<and> dict_get ''source'' (sub_meta s) = Some (JStr ''edu_tier'') \<and>
     dict_get ''education_entitlement'' (sub_meta s) = Some (JStr ''starter_free'')"

definition subscription_is_edu_pro_trial :: "billing_subscription \<Rightarrow> bool" where
  "subscription_is_edu_pro_trial s \<longleftrightarrow>
     sub_plan s = PRO \<and> dict_get ''source'' (sub_meta s) = Some (JStr ''edu_tier'') \<and>
     dict_get ''education_entitlement'' (sub_meta s) = Some (JStr ''pro_30d_trial'')"

definition subscription_has_edu_entitlement :: "billing_subscription \<Rightarrow> bool" where
  "subscription_has_edu_entitlement s \<longleftrightarrow>
     subscription_education_entitlement s \<in> {Some (JStr ''starter_free''), Some (JStr ''pro_30d_trial'')}"

definition subscription_trial_used :: "billing_subscription \<Rightarrow> bool" where
  "subscription_trial_used s \<longleftrightarrow> dict_get ''education_pro_trial_used'' (sub_meta s) = Some (JBool True)"

definition subscription_has_education_metadata :: "billing_subscription \<Rightarrow> bool" where
  "subscription_has_education_metadata s \<longleftrightarrow>
     dict_get ''source'' (sub_meta s) = Some (JStr ''edu_tier'') \<or>
     (case dict_get ''education_entitlement'' (sub_meta s) of Some raw \<Rightarrow> is_str raw | None \<Rightarrow> False) \<or>
     subscription_trial_used s"

text \<open>The text of a datetime is \<open>JTime\<close>; every other text fails to parse.\<close>

definition parse_metadata_datetime :: "json option \<Rightarrow> datetime option" where
  "parse_metadata_datetime raw = (case raw of Some (JTime t) \<Rightarrow> Some t | _ \<Rightarrow> None)"

definition subscription_trial_ends_at :: "billing_subscription \<Rightarrow> datetime option" where
  "subscription_trial_ends_at s =
     (if \<not> subscription_is_edu_pro_trial s then None
      else parse_metadata_datetime (dict_get ''trial_ends_at'' (sub_meta s)))"

definition subscription_fallback_plan_code :: "billing_subscription \<Rightarrow> plan_code option" where
  "subscription_fallback_plan_code s =
     (if \<not> subscription_is_edu_pro_trial s then None
      else if dict_get ''fallback_plan_code'' (sub_meta s) = Some (JStr ''starter'') then Some STARTER else None)"

definition subscription_refill_bucket :: "billing_subscription \<Rightarrow> string" where
  "subscription_refill_bucket s = (if subscription_has_edu_entitlement s then ''edu'' else ''monthly'')"

definition subscription_external_payment_required :: "billing_subscription \<Rightarrow> plan \<Rightarrow> bool" where
  "subscription_external_payment_required s p =
     (case dict_get ''external_payment_required'' (sub_meta s) of
        Some (JBool b) \<Rightarrow> b
      | Some (JStr raw) \<Rightarrow> lower raw = ''true''
      | Some (JId _) \<Rightarrow> False
      | Some (JTime _) \<Rightarrow> False
      | _ \<Rightarrow> if subscription_has_edu_entitlement s then False else pl_external p)"

section \<open>Answers\<close>

record proration_response =
  po_from :: plan_code
  po_to :: plan_code
  po_amount :: string
  po_currency :: string
  po_remaining :: int
  po_total :: int

record subscription_response =
  sr_id :: "nat option"
  sr_plan :: plan_code
  sr_status :: string
  sr_start :: "datetime option"
  sr_end :: "datetime option"
  sr_credits :: string
  sr_currency :: string
  sr_source :: "string option"
  sr_bucket :: string
  sr_external :: "bool option"
  sr_education :: "json option"
  sr_trial_ends :: "datetime option"
  sr_fallback :: "plan_code option"
  sr_proration :: "proration_response option"

definition subscription_response_of :: "billing_subscription \<Rightarrow> proration_response option \<Rightarrow> subscription_response" where
  "subscription_response_of s proration =
     (let p = get_plan (sub_plan s) in
      \<lparr>sr_id = Some (sub_id s), sr_plan = pl_code p, sr_status = sub_status s,
       sr_start = Some (sub_start s), sr_end = Some (sub_end s), sr_credits = fmt 2 (pl_credits p),
       sr_currency = ''CNY'', sr_source = subscription_entitlement_source s,
       sr_bucket = subscription_refill_bucket s,
       sr_external = Some (subscription_external_payment_required s p),
       sr_education = subscription_education_entitlement s,
       sr_trial_ends = subscription_trial_ends_at s,
       sr_fallback = subscription_fallback_plan_code s, sr_proration = proration\<rparr>)"

definition implicit_free_subscription_response :: subscription_response where
  "implicit_free_subscription_response =
     \<lparr>sr_id = None, sr_plan = FREE, sr_status = ''implicit_free'', sr_start = None, sr_end = None,
      sr_credits = fmt 2 (pl_credits (get_plan FREE)), sr_currency = ''CNY'', sr_source = None,
      sr_bucket = ''monthly'', sr_external = Some (pl_external (get_plan FREE)), sr_education = None,
      sr_trial_ends = None, sr_fallback = None, sr_proration = None\<rparr>"

text \<open>\<^verbatim>\<open>model_dump(mode="json")\<close>, and \<^verbatim>\<open>model_validate\<close> of what was stored (\<open>None\<close>: ValidationError).\<close>

definition json_opt :: "('a \<Rightarrow> json) \<Rightarrow> 'a option \<Rightarrow> json" where
  "json_opt f v = (case v of None \<Rightarrow> JNull | Some x \<Rightarrow> f x)"

definition proration_json :: "proration_response \<Rightarrow> json" where
  "proration_json p =
     JObj [(''from_plan_code'', JStr (plan_code_value (po_from p))), (''to_plan_code'', JStr (plan_code_value (po_to p))),
           (''amount'', JStr (po_amount p)), (''currency'', JStr (po_currency p)),
           (''remaining_days'', JNum (of_int (po_remaining p))), (''total_days'', JNum (of_int (po_total p)))]"

definition subscription_response_json :: "subscription_response \<Rightarrow> json" where
  "subscription_response_json r =
     JObj [(''subscription_id'', json_opt JId (sr_id r)), (''plan_code'', JStr (plan_code_value (sr_plan r))),
           (''status'', JStr (sr_status r)), (''current_period_start'', json_opt JTime (sr_start r)),
           (''current_period_end'', json_opt JTime (sr_end r)), (''monthly_credits'', JStr (sr_credits r)),
           (''currency'', JStr (sr_currency r)), (''entitlement_source'', json_opt JStr (sr_source r)),
           (''refill_bucket'', JStr (sr_bucket r)), (''external_payment_required'', json_opt JBool (sr_external r)),
           (''education_entitlement'', json_opt (\<lambda>j. j) (sr_education r)),
           (''trial_ends_at'', json_opt JTime (sr_trial_ends r)),
           (''fallback_plan_code'', json_opt (\<lambda>c. JStr (plan_code_value c)) (sr_fallback r)),
           (''proration'', json_opt proration_json (sr_proration r))]"

text \<open>Readers of one field: the outer \<open>None\<close> is a ValidationError.\<close>

definition read_str :: "json \<Rightarrow> string option" where
  "read_str j = (case j of JStr s \<Rightarrow> Some s | _ \<Rightarrow> None)"

definition read_time :: "json \<Rightarrow> datetime option" where
  "read_time j = (case j of JTime t \<Rightarrow> Some t | _ \<Rightarrow> None)"

definition read_id :: "json \<Rightarrow> nat option" where
  "read_id j = (case j of JId i \<Rightarrow> Some i | _ \<Rightarrow> None)"

definition read_bool :: "json \<Rightarrow> bool option" where
  "read_bool j = (case j of JBool b \<Rightarrow> Some b | _ \<Rightarrow> None)"

definition read_int :: "json \<Rightarrow> int option" where
  "read_int j = (case j of JNum x \<Rightarrow> if x = of_int \<lfloor>x\<rfloor> then Some \<lfloor>x\<rfloor> else None | _ \<Rightarrow> None)"

definition read_plan :: "json \<Rightarrow> plan_code option" where
  "read_plan j = Option.bind (read_str j) plan_code_of"

definition read_any_str :: "json \<Rightarrow> json option" where
  "read_any_str j = (if is_str j then Some j else None)"

definition one_of :: "string list \<Rightarrow> string option \<Rightarrow> string option" where
  "one_of allowed v = Option.bind v (\<lambda>s. if s \<in> set allowed then Some s else None)"

definition required :: "(json \<Rightarrow> 'a option) \<Rightarrow> string \<Rightarrow> jdict \<Rightarrow> 'a option" where
  "required rd k d = Option.bind (dict_get k d) rd"

definition with_default :: "(json \<Rightarrow> 'a option) \<Rightarrow> 'a \<Rightarrow> string \<Rightarrow> jdict \<Rightarrow> 'a option" where
  "with_default rd v k d = (case dict_get k d of None \<Rightarrow> Some v | Some j \<Rightarrow> rd j)"

definition nullable :: "(json \<Rightarrow> 'a option) \<Rightarrow> json \<Rightarrow> 'a option option" where
  "nullable rd j = (if j = JNull then Some None else map_option Some (rd j))"

definition proration_of_json :: "json \<Rightarrow> proration_response option" where
  "proration_of_json j =
     (case j of
        JObj d \<Rightarrow>
          Option.bind (required read_plan ''from_plan_code'' d) (\<lambda>a.
          Option.bind (required read_plan ''to_plan_code'' d) (\<lambda>b.
          Option.bind (required read_str ''amount'' d) (\<lambda>c.
          Option.bind (with_default read_str ''CNY'' ''currency'' d) (\<lambda>cur.
          Option.bind (required read_int ''remaining_days'' d) (\<lambda>r.
          Option.bind (required read_int ''total_days'' d) (\<lambda>t.
          Some \<lparr>po_from = a, po_to = b, po_amount = c, po_currency = cur, po_remaining = r, po_total = t\<rparr>))))))
      | _ \<Rightarrow> None)"

definition subscription_response_of_json :: "json \<Rightarrow> subscription_response option" where
  "subscription_response_of_json j =
     (case j of
        JObj d \<Rightarrow>
          Option.bind (required (nullable read_id) ''subscription_id'' d) (\<lambda>i.
          Option.bind (required read_plan ''plan_code'' d) (\<lambda>p.
          Option.bind (one_of [''implicit_free'', ''active'', ''canceled'', ''expired''] (required read_str ''status'' d)) (\<lambda>st.
          Option.bind (required (nullable read_time) ''current_period_start'' d) (\<lambda>a.
          Option.bind (required (nullable read_time) ''current_period_end'' d) (\<lambda>b.
          Option.bind (required read_str ''monthly_credits'' d) (\<lambda>c.
          Option.bind (with_default read_str ''CNY'' ''currency'' d) (\<lambda>cur.
          Option.bind (with_default (nullable read_str) None ''entitlement_source'' d) (\<lambda>src.
          Option.bind (one_of [''monthly'', ''signup'', ''edu'', ''topup''] (with_default read_str ''monthly'' ''refill_bucket'' d)) (\<lambda>bk.
          Option.bind (with_default (nullable read_bool) None ''external_payment_required'' d) (\<lambda>ext.
          Option.bind (with_default (nullable read_any_str) None ''education_entitlement'' d) (\<lambda>edu.
          Option.bind (with_default (nullable read_time) None ''trial_ends_at'' d) (\<lambda>tr.
          Option.bind (with_default (nullable read_plan) None ''fallback_plan_code'' d) (\<lambda>fb.
          if fb \<notin> {None, Some STARTER} then None else
          Option.bind (with_default (nullable proration_of_json) None ''proration'' d) (\<lambda>po.
          Some \<lparr>sr_id = i, sr_plan = p, sr_status = st, sr_start = a, sr_end = b, sr_credits = c, sr_currency = cur,
                sr_source = src, sr_bucket = bk, sr_external = ext, sr_education = edu, sr_trial_ends = tr,
                sr_fallback = fb, sr_proration = po\<rparr>))))))))))))))
      | _ \<Rightarrow> None)"

section \<open>Metadata the code writes\<close>

definition edu_starter_metadata :: "jdict \<Rightarrow> jdict" where
  "edu_starter_metadata existing =
     dict_merge existing
       [(''source'', JStr ''edu_tier''), (''education_entitlement'', JStr ''starter_free''),
        (''external_payment_required'', JBool False)]"

definition edu_pro_trial_metadata :: "jdict \<Rightarrow> datetime \<Rightarrow> datetime \<Rightarrow> jdict" where
  "edu_pro_trial_metadata existing trial_start trial_end =
     dict_merge existing
       [(''source'', JStr ''edu_tier''), (''education_entitlement'', JStr ''pro_30d_trial''),
        (''education_pro_trial_used'', JBool True), (''trial_started_at'', JTime trial_start),
        (''trial_ends_at'', JTime trial_end), (''education_pro_trial_started_at'', JTime trial_start),
        (''education_pro_trial_ends_at'', JTime trial_end), (''fallback_plan_code'', JStr ''starter''),
        (''fallback_entitlement'', JStr ''starter_free''), (''external_payment_required'', JBool False)]"

definition edu_starter_fallback_metadata :: "jdict \<Rightarrow> jdict" where
  "edu_starter_fallback_metadata existing =
     dict_pop ''fallback_entitlement'' (dict_pop ''fallback_plan_code'' (dict_pop ''trial_ends_at''
       (dict_pop ''trial_started_at'' (edu_starter_metadata existing))))"

definition education_entries :: "billing_subscription \<Rightarrow> jdict" where
  "education_entries s =
     (case subscription_education_entitlement s of
        None \<Rightarrow> []
      | Some e \<Rightarrow> (''entitlement_source'', JStr ''edu_tier'') #
                  (if e = JStr [] then [] else [(''education_entitlement'', e)]))"

definition subscription_payload :: "billing_subscription \<Rightarrow> jdict" where
  "subscription_payload s =
     [(''subscription_id'', JId (sub_id s)), (''plan_code'', JStr (plan_code_value (sub_plan s))),
      (''status'', JStr (sub_status s)), (''period_start'', JTime (sub_start s)),
      (''period_end'', JTime (sub_end s)), (''refill_bucket'', JStr (subscription_refill_bucket s))] @
     education_entries s"

definition write_subscription_outbox ::
  "datetime \<Rightarrow> billing_subscription \<Rightarrow> string \<Rightarrow> jdict \<Rightarrow> billing_db \<Rightarrow> billing_db" where
  "write_subscription_outbox now s event_type extra db =
     add_outbox ''billing_subscription'' (sub_id s) event_type (dict_merge (subscription_payload s) extra)
       [(''compensation'', JStr ''none'')] now db"

definition subscription_refill_metadata :: "billing_subscription \<Rightarrow> string \<Rightarrow> jdict" where
  "subscription_refill_metadata s trig =
     [(''subscription_id'', JId (sub_id s)), (''plan_code'', JStr (plan_code_value (sub_plan s))),
      (''period_start'', JTime (sub_start s)), (''period_end'', JTime (sub_end s)), (''trigger'', JStr trig),
      (''bucket'', JStr (subscription_refill_bucket s))] @ education_entries s"

section \<open>The refill of one period\<close>

text \<open>
  \<^verbatim>\<open>_apply_monthly_refill_once\<close> on a row of the table: whether it wrote a refill, the row as the
  session now holds it, and the database with the row flushed.
\<close>

definition apply_monthly_refill_once ::
  "datetime \<Rightarrow> billing_subscription \<Rightarrow> string \<Rightarrow> billing_db \<Rightarrow> bool \<times> billing_subscription \<times> billing_db" where
  "apply_monthly_refill_once now s trig db =
     (if sub_refilled s = Some (sub_start s) then (False, s, db)
      else
        (let p = get_plan (sub_plan s);
             s1 = s\<lparr>sub_refilled := Some (sub_start s), sub_updated := now\<rparr>;
             db1 = sub_put s1 db
         in if pl_credits p \<le> 0 then (False, s1, db1)
            else
              (let refill_bucket = subscription_refill_bucket s1;
                   db2 = add_credit (sub_user s1) None (pl_credits p) ''monthly_refill'' refill_bucket
                           (subscription_refill_metadata s1 trig) now db1;
                   db3 = write_subscription_outbox now s1 ''billing.subscription.refilled''
                           [(''amount'', JStr (fmt 2 (pl_credits p))), (''bucket'', JStr refill_bucket),
                            (''trigger'', JStr trig)] db2
               in (True, s1, db3))))"

section \<open>The upgrade with proration\<close>

definition ceil_days :: "int \<Rightarrow> int" where
  "ceil_days total_microseconds =
     (if total_microseconds \<le> 0 then 0 else (total_microseconds + day_us - 1) div day_us)"

definition subscription_proration_metadata ::
  "billing_subscription \<Rightarrow> plan_code \<Rightarrow> plan_code \<Rightarrow> rat \<Rightarrow> datetime \<Rightarrow> int \<Rightarrow> int \<Rightarrow> rat \<Rightarrow> jdict" where
  "subscription_proration_metadata s from_plan to_plan amount prorated_at remaining_days total_days delta =
     [(''subscription_id'', JId (sub_id s)), (''from_plan_code'', JStr (plan_code_value from_plan)),
      (''to_plan_code'', JStr (plan_code_value to_plan)), (''period_start'', JTime (sub_start s)),
      (''period_end'', JTime (sub_end s)), (''prorated_at'', JTime prorated_at),
      (''remaining_days'', JStr (show_int remaining_days)), (''total_days'', JStr (show_int total_days)),
      (''monthly_credit_delta'', JStr (fmt 2 delta)), (''amount'', JStr (fmt 2 amount)),
      (''trigger'', JStr ''plan_upgrade_proration''), (''bucket'', JStr ''monthly'')]"

definition proration_amount :: "rat \<Rightarrow> int \<Rightarrow> int \<Rightarrow> rat" where
  "proration_amount delta remaining_days total_days =
     quantize_half_up 2 (delta * of_int remaining_days / of_int total_days)"

text \<open>The writes of a successful upgrade, after the guards.\<close>

definition write_upgrade ::
  "datetime \<Rightarrow> billing_subscription \<Rightarrow> rat \<Rightarrow> rat \<Rightarrow> int \<Rightarrow> int \<Rightarrow> billing_db \<Rightarrow>
   subscription_response outcome \<times> billing_db" where
  "write_upgrade now s delta amount remaining_days total_days db =
     (let s1 = s\<lparr>sub_plan := PRO, sub_updated := now\<rparr>;
          db1 = sub_put s1 db;
          db2 = add_credit (sub_user s1) None amount ''subscription_proration'' ''monthly''
                  (subscription_proration_metadata s1 STARTER PRO amount now remaining_days total_days delta) now db1;
          db3 = write_subscription_outbox now s1 ''billing.subscription.plan_changed''
                  [(''from_plan_code'', JStr ''starter''), (''to_plan_code'', JStr ''pro''),
                   (''proration_amount'', JStr (fmt 2 amount)), (''currency'', JStr ''CNY''),
                   (''remaining_days'', JStr (show_int remaining_days)),
                   (''total_days'', JStr (show_int total_days)), (''trigger'', JStr ''plan_upgrade_proration'')] db2
      in (Returned (subscription_response_of s1
            (Some \<lparr>po_from = STARTER, po_to = PRO, po_amount = fmt 2 amount, po_currency = ''CNY'',
                   po_remaining = remaining_days, po_total = total_days\<rparr>)), db3))"

definition upgrade_starter_to_pro_with_proration ::
  "datetime \<Rightarrow> billing_subscription \<Rightarrow> billing_db \<Rightarrow> subscription_response outcome \<times> billing_db" where
  "upgrade_starter_to_pro_with_proration now s db =
     (if subscription_has_education_metadata s then (problem_response ''Plan change deferred'' 409, db)
      else if user_is_edu_tier (sub_user s) db then (problem_response ''Plan change deferred'' 409, db)
      else if sub_end s \<le> now then (problem_response ''Subscription period already due'' 409, db)
      else
        (let total_days = ceil_days (dt_minus (sub_end s) (sub_start s));
             remaining_days = ceil_days (dt_minus (sub_end s) now)
         in if total_days \<le> 0 \<or> remaining_days \<le> 0 then (problem_response ''Invalid subscription period'' 409, db)
            else
              (let delta = pl_credits (get_plan PRO) - pl_credits (get_plan STARTER);
                   amount = proration_amount delta remaining_days total_days
               in if amount \<le> 0 then (problem_response ''Invalid proration amount'' 409, db)
                  else write_upgrade now s delta amount remaining_days total_days db)))"

section \<open>Education entitlements\<close>

text \<open>A fresh active row with the next identifier.\<close>

definition new_subscription ::
  "datetime \<Rightarrow> nat \<Rightarrow> plan_code \<Rightarrow> datetime \<Rightarrow> datetime option \<Rightarrow> jdict \<Rightarrow> billing_db \<Rightarrow> billing_subscription" where
  "new_subscription now user code period_end refilled meta db =
     \<lparr>sub_id = db_next_id db, sub_user = user, sub_plan = code, sub_status = ''active'', sub_start = now,
      sub_end = period_end, sub_refilled = refilled, sub_meta = meta, sub_created = now, sub_updated = now\<rparr>"

text \<open>The end of an activation: the event, the initial refill unless the signup seed was it, the answer.\<close>

definition finish_edu_starter ::
  "datetime \<Rightarrow> bool \<Rightarrow> billing_subscription \<Rightarrow> billing_db \<Rightarrow> subscription_response outcome \<times> billing_db" where
  "finish_edu_starter now has_signup_seed s db =
     (let db1 = write_subscription_outbox now s ''billing.subscription.edu_starter.activated'' [] db in
      if has_signup_seed then (Returned (subscription_response_of s None), db1)
      else (let (_, s2, db2) = apply_monthly_refill_once now s ''activation'' db1
            in (Returned (subscription_response_of s2 None), db2)))"

definition activate_or_return_edu_starter ::
  "datetime \<Rightarrow> nat \<Rightarrow> bool \<Rightarrow> billing_db \<Rightarrow> subscription_response outcome \<times> billing_db" where
  "activate_or_return_edu_starter now user passthrough_non_starter db =
     (if \<not> user_is_edu_tier user db then (problem_response ''Education entitlement not available'' 403, db)
      else
        (let has_signup_seed = has_edu_signup_seed user db;
             refilled = (if has_signup_seed then Some now else None)
         in case active_subscription_for user db of
              Some s \<Rightarrow>
                if subscription_is_edu_starter s then (Returned (subscription_response_of s None), db)
                else if sub_plan s = STARTER then
                  (let s1 = s\<lparr>sub_meta := edu_starter_metadata (sub_meta s), sub_updated := now\<rparr>
                   in (Returned (subscription_response_of s1 None),
                       write_subscription_outbox now s1 ''billing.subscription.edu_starter.activated'' [] (sub_put s1 db)))
                else if sub_plan s = FREE then
                  (let s1 = s\<lparr>sub_plan := STARTER, sub_start := now, sub_end := add_one_calendar_month now,
                               sub_refilled := refilled, sub_meta := edu_starter_metadata (sub_meta s), sub_updated := now\<rparr>
                   in finish_edu_starter now has_signup_seed s1 (sub_put s1 db))
                else if passthrough_non_starter then (Returned (subscription_response_of s None), db)
                else (problem_response ''Plan change deferred'' 409, db)
            | None \<Rightarrow>
                (let s = new_subscription now user STARTER (add_one_calendar_month now) refilled (edu_starter_metadata []) db
                 in finish_edu_starter now has_signup_seed s (sub_add s db))))"

definition activate_or_return_edu_pro_trial ::
  "datetime \<Rightarrow> nat \<Rightarrow> billing_db \<Rightarrow> subscription_response outcome \<times> billing_db" where
  "activate_or_return_edu_pro_trial now user db =
     (if \<not> user_is_edu_tier user db then (problem_response ''Education entitlement not available'' 403, db)
      else
        (let trial_end = dt_plus now (days 30);
             start = (\<lambda>s db1.
               let db2 = write_subscription_outbox now s ''billing.subscription.edu_pro_trial.activated''
                           [(''trial_started_at'', JTime now), (''trial_ends_at'', JTime trial_end),
                            (''fallback_plan_code'', JStr ''starter'')] db1;
                   (_, s3, db3) = apply_monthly_refill_once now s ''edu_pro_trial_activation'' db2
               in (Returned (subscription_response_of s3 None), db3))
         in case active_subscription_for user db of
              None \<Rightarrow>
                (let s = new_subscription now user PRO trial_end None (edu_pro_trial_metadata [] now trial_end) db
                 in start s (sub_add s db))
            | Some s \<Rightarrow>
                if subscription_is_edu_pro_trial s then (Returned (subscription_response_of s None), db)
                else if subscription_trial_used s then (problem_response ''Education Pro trial already used'' 409, db)
                else if sub_plan s \<in> {PRO, TEAM, ENTERPRISE} then (problem_response ''Plan change deferred'' 409, db)
                else (let s1 = s\<lparr>sub_plan := PRO, sub_start := now, sub_end := trial_end, sub_refilled := None,
                                  sub_meta := edu_pro_trial_metadata (sub_meta s) now trial_end, sub_updated := now\<rparr>
                      in start s1 (sub_put s1 db))))"

text \<open>The end of a trial: the row becomes the education Starter plan from the day the trial ended.\<close>

definition fallback_edu_pro_trial_to_starter ::
  "datetime \<Rightarrow> billing_subscription \<Rightarrow> billing_db \<Rightarrow> billing_subscription \<times> billing_db" where
  "fallback_edu_pro_trial_to_starter now s db =
     (if \<not> subscription_is_edu_pro_trial s then (s, db)
      else
        (let fallback_start = sub_end s;
             s1 = s\<lparr>sub_plan := STARTER, sub_start := fallback_start,
                     sub_end := add_one_calendar_month fallback_start, sub_refilled := None,
                     sub_meta := edu_starter_fallback_metadata (sub_meta s), sub_updated := now\<rparr>;
             db1 = sub_put s1 db;
             db2 = write_subscription_outbox now s1 ''billing.subscription.edu_pro_trial.ended''
                     [(''ended_plan_code'', JStr ''pro''), (''ended_education_entitlement'', JStr ''pro_30d_trial''),
                      (''trial_ended_at'', JTime fallback_start), (''fallback_plan_code'', JStr ''starter'')] db1;
             db3 = write_subscription_outbox now s1 ''billing.subscription.edu_starter.activated''
                     [(''trigger'', JStr ''edu_pro_trial_fallback'')] db2;
             (_, s4, db4) = apply_monthly_refill_once now s1 ''edu_pro_trial_fallback'' db3
         in (s4, db4)))"

section \<open>Stored answers\<close>

definition subscription_request_hash :: "settings \<Rightarrow> plan_code \<Rightarrow> string" where
  "subscription_request_hash cfg code =
     hash_body cfg (JObj [(''operation'', JStr ''subscription_create''), (''plan_code'', JStr (plan_code_value code))])"

definition edu_pro_trial_request_hash :: "settings \<Rightarrow> string" where
  "edu_pro_trial_request_hash cfg = hash_body cfg (JObj [(''operation'', JStr ''edu_pro_trial_activate'')])"

text \<open>
  The two upserts and the two replays differ in the hash of the request, and the replay of a row
  without a stored answer in which active subscriptions it accepts.
\<close>

definition upsert_idempotency_row ::
  "settings \<Rightarrow> datetime \<Rightarrow> string \<Rightarrow> string \<Rightarrow> nat \<Rightarrow> subscription_response \<Rightarrow> billing_db \<Rightarrow> billing_db" where
  "upsert_idempotency_row cfg now request_hash key user response db =
     (let fields = (\<lambda>r. r\<lparr>ik_user := user, ik_hash := request_hash,
                          ik_response := Some (subscription_response_json response), ik_saga := None,
                          ik_expires := dt_plus now (hours (saga_idempotency_ttl_hours cfg)), ik_created := now\<rparr>)
      in case idempotency_row_by_key key db of
           Some existing \<Rightarrow> idem_put (fields existing) db
         | None \<Rightarrow> idem_add (fields \<lparr>ik_key = key, ik_user = user, ik_hash = [], ik_response = None, ik_saga = None,
                                      ik_expires = now, ik_created = now\<rparr>) db)"

definition upsert_subscription_idempotency_row ::
  "settings \<Rightarrow> datetime \<Rightarrow> string \<Rightarrow> nat \<Rightarrow> plan_code \<Rightarrow> subscription_response \<Rightarrow> billing_db \<Rightarrow> billing_db" where
  "upsert_subscription_idempotency_row cfg now key user code =
     upsert_idempotency_row cfg now (subscription_request_hash cfg code) key user"

definition upsert_edu_pro_trial_idempotency_row ::
  "settings \<Rightarrow> datetime \<Rightarrow> string \<Rightarrow> nat \<Rightarrow> subscription_response \<Rightarrow> billing_db \<Rightarrow> billing_db" where
  "upsert_edu_pro_trial_idempotency_row cfg now key user =
     upsert_idempotency_row cfg now (edu_pro_trial_request_hash cfg) key user"

definition replay_if_cached ::
  "datetime \<Rightarrow> string \<Rightarrow> (billing_subscription \<Rightarrow> bool) \<Rightarrow> nat \<Rightarrow> string \<Rightarrow> billing_db \<Rightarrow>
   (subscription_response outcome \<times> billing_db) option" where
  "replay_if_cached now request_hash accepted user key db =
     (case idempotency_row_by_key key db of
        None \<Rightarrow> None
      | Some row \<Rightarrow>
          if ik_expires row \<le> now then None
          else if ik_user row \<noteq> user then Some (problem_response ''Cross-tenant key reuse forbidden'' 403, db)
          else if ik_hash row \<noteq> request_hash then Some (problem_response ''Idempotency Conflict'' 409, db)
          else (case ik_response row of
                  Some stored \<Rightarrow>
                    (case subscription_response_of_json stored of
                       Some response \<Rightarrow> Some (Returned response, db)
                     | None \<Rightarrow> Some (ServerError, db))
                | None \<Rightarrow>
                    (case active_subscription_for user db of
                       Some s \<Rightarrow>
                         if accepted s then
                           (let response = subscription_response_of s None
                            in Some (Returned response,
                                     idem_put (row\<lparr>ik_response := Some (subscription_response_json response)\<rparr>) db))
                         else Some (problem_response ''Subscription Not Found'' 404, db)
                     | None \<Rightarrow> Some (problem_response ''Subscription Not Found'' 404, db))))"

definition subscription_replay_response_if_cached ::
  "settings \<Rightarrow> datetime \<Rightarrow> plan_code \<Rightarrow> nat \<Rightarrow> string \<Rightarrow> billing_db \<Rightarrow>
   (subscription_response outcome \<times> billing_db) option" where
  "subscription_replay_response_if_cached cfg now code user key db =
     replay_if_cached now (subscription_request_hash cfg code) (\<lambda>_. True) user key db"

definition edu_pro_trial_replay_response_if_cached ::
  "settings \<Rightarrow> datetime \<Rightarrow> nat \<Rightarrow> string \<Rightarrow> billing_db \<Rightarrow> (subscription_response outcome \<times> billing_db) option" where
  "edu_pro_trial_replay_response_if_cached cfg now user key db =
     replay_if_cached now (edu_pro_trial_request_hash cfg) subscription_is_edu_pro_trial user key db"

section \<open>The routes\<close>

record plan_response =
  pr_code :: plan_code
  pr_label :: string
  pr_credits :: string
  pr_limits :: rate_limits
  pr_review :: bool
  pr_external :: bool

definition plan_response_of :: "plan \<Rightarrow> plan_response" where
  "plan_response_of p =
     \<lparr>pr_code = pl_code p, pr_label = pl_label p, pr_credits = fmt 2 (pl_credits p), pr_limits = pl_limits p,
      pr_review = pl_review p, pr_external = pl_external p\<rparr>"

definition list_plans :: "plan_response list" where
  "list_plans = map plan_response_of PLANS"

definition get_current_subscription :: "nat \<Rightarrow> billing_db \<Rightarrow> subscription_response" where
  "get_current_subscription user db =
     (case active_subscription_for user db of
        None \<Rightarrow> implicit_free_subscription_response
      | Some s \<Rightarrow> subscription_response_of s None)"

text \<open>The user identifier of the internal request is text; only \<open>JId\<close> parses as a UUID.\<close>

definition sync_edu_starter_subscription ::
  "datetime \<Rightarrow> json \<Rightarrow> billing_db \<Rightarrow> subscription_response outcome \<times> billing_db" where
  "sync_edu_starter_subscription now user_id db =
     (case user_id of
        JId user \<Rightarrow> activate_or_return_edu_starter now user True db
      | _ \<Rightarrow> (problem_response ''Invalid user id'' 422, db))"

text \<open>Runs \<open>store\<close> on the database of an answer, before the commit; a problem was rolled back.\<close>

definition then_store ::
  "'a outcome \<times> billing_db \<Rightarrow> billing_db \<Rightarrow> ('a \<Rightarrow> billing_db \<Rightarrow> billing_db) \<Rightarrow> 'a outcome \<times> billing_db" where
  "then_store result db store =
     (case result of
        (Returned response, db') \<Rightarrow> (Returned response, store response db')
      | (refused, _) \<Rightarrow> (refused, db))"

definition is_bytes_space :: "char \<Rightarrow> bool" where
  "is_bytes_space c \<longleftrightarrow> code_of c \<in> {9, 10, 11, 12, 13, 32}"

definition activate_edu_pro_trial_subscription ::
  "settings \<Rightarrow> datetime \<Rightarrow> string \<Rightarrow> nat \<Rightarrow> string \<Rightarrow> billing_db \<Rightarrow> subscription_response outcome \<times> billing_db" where
  "activate_edu_pro_trial_subscription cfg now raw_body user key db =
     (if \<not> validate_idempotency_key key then (HttpError 400, db)
      else if \<not> list_all is_bytes_space raw_body then (problem_response ''Request body not allowed'' 422, db)
      else (case edu_pro_trial_replay_response_if_cached cfg now user key db of
              Some cached \<Rightarrow> cached
            | None \<Rightarrow> then_store (activate_or_return_edu_pro_trial now user db) db
                        (upsert_edu_pro_trial_idempotency_row cfg now key user)))"

text \<open>The first subscription of a user: the row, the event, the initial refill.\<close>

definition first_subscription ::
  "datetime \<Rightarrow> plan_code \<Rightarrow> nat \<Rightarrow> billing_db \<Rightarrow> subscription_response outcome \<times> billing_db" where
  "first_subscription now code user db =
     (let p = get_plan code;
          s = new_subscription now user (pl_code p) (add_one_calendar_month now) None
                [(''source'', JStr ''user_subscription''),
                 (''external_payment_required'', JStr (if pl_external p then ''true'' else ''false''))] db;
          db1 = write_subscription_outbox now s ''billing.subscription.activated'' [] (sub_add s db);
          (_, s2, db2) = apply_monthly_refill_once now s ''activation'' db1
      in (Returned (subscription_response_of s2 None), db2))"

text \<open>A user with an active subscription: the same plan is returned, starter to pro is an upgrade.\<close>

definition change_subscription ::
  "datetime \<Rightarrow> plan_code \<Rightarrow> billing_subscription \<Rightarrow> billing_db \<Rightarrow> subscription_response outcome \<times> billing_db" where
  "change_subscription now code active db =
     (if sub_plan active \<noteq> code then
        if sub_plan active = STARTER \<and> code = PRO then upgrade_starter_to_pro_with_proration now active db
        else (problem_response ''Plan change deferred'' 409, db)
      else (Returned (subscription_response_of active None), db))"

definition create_subscription ::
  "settings \<Rightarrow> datetime \<Rightarrow> plan_code \<Rightarrow> nat \<Rightarrow> string \<Rightarrow> billing_db \<Rightarrow> subscription_response outcome \<times> billing_db" where
  "create_subscription cfg now code user key db =
     (if \<not> validate_idempotency_key key then (HttpError 400, db)
      else (case subscription_replay_response_if_cached cfg now code user key db of
              Some cached \<Rightarrow> cached
            | None \<Rightarrow>
                then_store
                  (if code = STARTER \<and> user_is_edu_tier user db
                   then activate_or_return_edu_starter now user False db
                   else (case active_subscription_for user db of
                           Some active \<Rightarrow> change_subscription now code active db
                         | None \<Rightarrow> first_subscription now code user db))
                  db (upsert_subscription_idempotency_row cfg now key user code)))"

section \<open>The refill of everything that is due\<close>

text \<open>
  The \<^verbatim>\<open>while\<close> of \<^verbatim>\<open>refill_due_subscriptions\<close>; \<open>None\<close> would be a loop that does not end. It counts
  the refills it wrote and the periods it skipped for a plan without credits.
\<close>

partial_function (option) refill_loop ::
  "datetime \<Rightarrow> datetime \<Rightarrow> billing_subscription \<Rightarrow> billing_db \<Rightarrow> int \<Rightarrow> int \<Rightarrow>
   (billing_subscription \<times> billing_db \<times> int \<times> int) option" where
  "refill_loop now as_of s db refilled skipped =
     (if sub_end s \<le> as_of then
        (let s1 = s\<lparr>sub_start := sub_end s, sub_end := add_one_calendar_month (sub_end s)\<rparr>;
             (did_refill, s2, db2) = apply_monthly_refill_once now s1 ''scheduled_refill'' (sub_put s1 db)
         in refill_loop now as_of s2 db2
              (if did_refill then refilled + 1 else refilled) (if did_refill then skipped else skipped + 1))
      else Some (s, db, refilled, skipped))"

declare refill_loop.simps [code]

definition refill_one ::
  "datetime \<Rightarrow> datetime \<Rightarrow> billing_subscription \<Rightarrow> billing_db \<Rightarrow> int \<Rightarrow> int \<Rightarrow> (billing_db \<times> int \<times> int) option" where
  "refill_one now as_of s db refilled skipped =
     (let (s1, db1) = fallback_edu_pro_trial_to_starter now s db;
          refilled1 = (if subscription_is_edu_pro_trial s then refilled + 1 else refilled)
      in map_option (\<lambda>(_, db2, r, k). (db2, r, k)) (refill_loop now as_of s1 db1 refilled1 skipped))"

fun refill_each ::
  "datetime \<Rightarrow> datetime \<Rightarrow> billing_subscription list \<Rightarrow> billing_db \<Rightarrow> int \<Rightarrow> int \<Rightarrow> (billing_db \<times> int \<times> int) option" where
  "refill_each now as_of [] db refilled skipped = Some (db, refilled, skipped)"
| "refill_each now as_of (s # due) db refilled skipped =
     (case refill_one now as_of s db refilled skipped of
        None \<Rightarrow> None
      | Some (db1, r, k) \<Rightarrow> refill_each now as_of due db1 r k)"

definition due_subscriptions :: "datetime \<Rightarrow> billing_db \<Rightarrow> billing_subscription list" where
  "due_subscriptions as_of db = filter (\<lambda>s. sub_status s = ''active'' \<and> sub_end s \<le> as_of) (db_subs db)"

record refill_due_response =
  rd_processed :: int
  rd_refilled :: int
  rd_skipped :: int
  rd_as_of :: datetime

definition refill_due_subscriptions ::
  "datetime \<Rightarrow> datetime option \<Rightarrow> billing_db \<Rightarrow> (refill_due_response \<times> billing_db) option" where
  "refill_due_subscriptions now body_as_of db =
     (let as_of = (case body_as_of of None \<Rightarrow> now | Some t \<Rightarrow> t);
          due = due_subscriptions as_of db
      in map_option (\<lambda>(db1, refilled, skipped).
           (\<lparr>rd_processed = int (length due), rd_refilled = refilled, rd_skipped = skipped, rd_as_of = as_of\<rparr>, db1))
           (refill_each now as_of due db 0 0))"

end
