(* ===== verification/SubscriptionSafety.thy ===== *)
theory SubscriptionSafety
  imports Subscriptions ChargeLedger
begin

text \<open>
  What the subscription routes do to the tables: the invariant of the subscription table, the frame of
  each write, the ledger rows that pay for a period, and what the refill loop leaves behind.
\<close>

section \<open>The invariant\<close>

text \<open>
  An active row has a non-empty period and was refilled for it. Identifiers are unique and drawn from
  the counter, and a user has at most one active row.
\<close>

definition sub_ok :: "billing_subscription \<Rightarrow> bool" where
  "sub_ok s \<longleftrightarrow>
     valid_datetime (sub_start s) \<and> valid_datetime (sub_end s) \<and> sub_start s < sub_end s \<and>
     sub_refilled s = Some (sub_start s)"

definition is_active :: "billing_subscription \<Rightarrow> bool" where
  "is_active s \<longleftrightarrow> sub_status s = ''active''"

definition subs_inv :: "billing_db \<Rightarrow> bool" where
  "subs_inv db \<longleftrightarrow>
     distinct (map sub_id (db_subs db)) \<and> list_all (\<lambda>s. sub_id s < db_next_id db) (db_subs db) \<and>
     distinct (map sub_user (filter is_active (db_subs db))) \<and>
     list_all (\<lambda>s. is_active s \<longrightarrow> sub_ok s) (db_subs db)"

text \<open>What no subscription route changes, but for drawing identifiers and adding events.\<close>

definition sub_frame :: "billing_db \<Rightarrow> billing_db \<Rightarrow> bool" where
  "sub_frame db db' \<longleftrightarrow>
     db_sagas db' = db_sagas db \<and> db_idem db' = db_idem db \<and> db_costs db' = db_costs db \<and>
     db_budgets db' = db_budgets db \<and> db_budget_events db' = db_budget_events db \<and>
     db_users db' = db_users db \<and> db_next_id db \<le> db_next_id db' \<and>
     (\<exists>rows. db_ledger db' = db_ledger db @ rows \<and> list_all (\<lambda>r. ct_saga r = None \<and> has_scale 4 (ct_amount r)) rows)"

lemma sub_frame_refl [simp]: "sub_frame db db"
  by (simp add: sub_frame_def)

lemma sub_frame_trans: "sub_frame db db' \<Longrightarrow> sub_frame db' db'' \<Longrightarrow> sub_frame db db''"
  by (fastforce simp: sub_frame_def)

lemma sub_put_simps [simp]:
  "db_sagas (sub_put s db) = db_sagas db" "db_ledger (sub_put s db) = db_ledger db"
  "db_idem (sub_put s db) = db_idem db" "db_users (sub_put s db) = db_users db"
  "db_next_id (sub_put s db) = db_next_id db" "db_subs (sub_put s db) = row_put sub_id s (db_subs db)"
  "db_costs (sub_put s db) = db_costs db" "db_budgets (sub_put s db) = db_budgets db"
  "db_budget_events (sub_put s db) = db_budget_events db" "db_outbox (sub_put s db) = db_outbox db"
  by (simp_all add: sub_put_def)

lemma sub_add_simps [simp]:
  "db_sagas (sub_add s db) = db_sagas db" "db_ledger (sub_add s db) = db_ledger db"
  "db_idem (sub_add s db) = db_idem db" "db_users (sub_add s db) = db_users db"
  "db_next_id (sub_add s db) = Suc (db_next_id db)" "db_subs (sub_add s db) = db_subs db @ [s]"
  "db_costs (sub_add s db) = db_costs db" "db_budgets (sub_add s db) = db_budgets db"
  "db_budget_events (sub_add s db) = db_budget_events db"
  by (simp_all add: sub_add_def)

lemma sub_frame_put [simp]: "sub_frame db (sub_put s db)"
  and sub_frame_add [simp]: "sub_frame db (sub_add s db)"
  by (simp_all add: sub_frame_def)

lemma add_outbox_simps [simp]:
  "db_prefs (add_outbox a b c d e now db) = db_prefs db"
  by (simp add: add_outbox_def)

lemma sub_frame_outbox [simp]: "sub_frame db (write_subscription_outbox now s ty ex db)"
  by (simp add: sub_frame_def write_subscription_outbox_def)

lemma outbox_subs [simp]:
  "db_subs (write_subscription_outbox now s ty ex db) = db_subs db"
  "db_ledger (write_subscription_outbox now s ty ex db) = db_ledger db"
  "db_next_id (write_subscription_outbox now s ty ex db) = Suc (db_next_id db)"
  "db_users (write_subscription_outbox now s ty ex db) = db_users db"
  "user_total u (write_subscription_outbox now s ty ex db) = user_total u db"
  by (simp_all add: write_subscription_outbox_def)

lemma sub_frame_credit [simp]: "sub_frame db (add_credit u None a k b m now db)"
  by (simp add: sub_frame_def add_credit_def)

lemma sub_totals [simp]:
  "user_total u (sub_put s db) = user_total u db" "user_total u (sub_add s db) = user_total u db"
  by (rule totals_cong; simp)+

lemma subs_invD:
  assumes "subs_inv db"
  shows "distinct (map sub_id (db_subs db))"
    and "s \<in> set (db_subs db) \<Longrightarrow> sub_id s < db_next_id db"
    and "s \<in> set (db_subs db) \<Longrightarrow> is_active s \<Longrightarrow> sub_ok s"
  using assms by (auto simp: subs_inv_def list_all_iff)

lemma row_put_id: "row_get key (key r) rows = Some r \<Longrightarrow> distinct (map key rows) \<Longrightarrow> row_put key r rows = rows"
  unfolding row_put_def
  by (rule map_idI) (metis eq_key_imp_eq_value list.map_comp option.inject row_get_in_set)

lemma filter_row_put:
  assumes "row_get key (key r) rows = Some r0" "distinct (map key rows)" "P r = P r0" "f r = f r0"
  shows "map f (filter P (row_put key r rows)) = map f (filter P rows)"
  using assms(1,2)
proof (induction rows)
  case (Cons x rows)
  show ?case
  proof (cases "key x = key r")
    case True
    then have "r0 = x" using Cons.prems by (simp add: row_get_Cons)
    moreover have "row_put key r rows = rows"
      unfolding row_put_def by (rule map_idI) (use Cons.prems True in \<open>auto simp: rev_image_eqI\<close>)
    ultimately show ?thesis using assms(3,4) True by (simp add: row_put_def)
  next
    case False
    with Cons show ?thesis by (simp add: row_put_def row_get_Cons)
  qed
qed simp

text \<open>The two ways the routes write the table.\<close>

lemma subs_inv_put:
  assumes inv: "subs_inv db" and row: "sub_get (sub_id s) db = Some s0"
    and same: "sub_user s = sub_user s0" "sub_status s = sub_status s0" and ok: "sub_ok s"
  shows "subs_inv (sub_put s db)"
proof -
  have get: "row_get sub_id (sub_id s) (db_subs db) = Some s0" using row by (simp add: sub_get_def)
  have ids: "distinct (map sub_id (db_subs db))" using inv by (rule subs_invD(1))
  have "map sub_user (filter is_active (row_put sub_id s (db_subs db))) = map sub_user (filter is_active (db_subs db))"
    using filter_row_put [OF get ids, of is_active sub_user] same by (simp add: is_active_def)
  then show ?thesis
    using inv ok row_get_SomeD [OF get]
    by (auto simp: subs_inv_def list_all_iff dest!: in_set_put)
qed

lemma active_None: "active_subscription_for user db = None \<longleftrightarrow>
    user \<notin> sub_user ` set (filter is_active (db_subs db))"
  by (auto simp: active_subscription_for_def find_None_iff is_active_def)

lemma active_SomeD:
  "active_subscription_for user db = Some s \<Longrightarrow> s \<in> set (db_subs db) \<and> sub_user s = user \<and> is_active s"
  by (auto simp: active_subscription_for_def find_Some_iff is_active_def)

lemma subs_inv_add:
  assumes inv: "subs_inv db" and none: "active_subscription_for (sub_user s) db = None"
    and new: "sub_id s = db_next_id db" "is_active s" "sub_ok s"
  shows "subs_inv (sub_add s db)"
  using inv none new by (auto simp: subs_inv_def active_None list_all_iff less_Suc_eq image_iff)

lemma subs_inv_mono:
  "subs_inv db \<Longrightarrow> db_subs db' = db_subs db \<Longrightarrow> db_next_id db \<le> db_next_id db' \<Longrightarrow> subs_inv db'"
  by (auto simp: subs_inv_def list_all_iff)

lemma sub_get_active:
  "subs_inv db \<Longrightarrow> s \<in> set (db_subs db) \<Longrightarrow> sub_get (sub_id s) db = Some s"
  unfolding sub_get_def by (rule row_get_in_set) (rule subs_invD(1))

section \<open>One refill\<close>

text \<open>What a refill row says: whom it pays, how much, and for the period starting when.\<close>

definition refill_key :: "credit_transaction \<Rightarrow> nat \<times> rat \<times> string \<times> json option" where
  "refill_key r = (ct_user r, ct_amount r, ct_kind r, dict_get ''period_start'' (ct_meta r))"

definition refills_of :: "billing_subscription \<Rightarrow> datetime list \<Rightarrow> (nat \<times> rat \<times> string \<times> json option) list" where
  "refills_of s starts =
     (if sub_plan s = FREE then []
      else map (\<lambda>d. (sub_user s, pl_credits (get_plan (sub_plan s)), ''monthly_refill'', Some (JTime d))) starts)"

text \<open>
  \<open>pays db db' keys\<close>: the ledger grew by rows with these keys, none of them of a saga, and nothing but
  the ledger, the events and the subscriptions changed.
\<close>

definition pays :: "billing_db \<Rightarrow> billing_db \<Rightarrow> (nat \<times> rat \<times> string \<times> json option) list \<Rightarrow> bool" where
  "pays db db' keys \<longleftrightarrow>
     sub_frame db db' \<and> (\<exists>rows. db_ledger db' = db_ledger db @ rows \<and> map refill_key rows = keys)"

lemma pays_refl [simp]: "pays db db []"
  by (simp add: pays_def)

lemma pays_trans: "pays db db' ks \<Longrightarrow> pays db' db'' ks' \<Longrightarrow> pays db db'' (ks @ ks')"
  unfolding pays_def by (auto intro: sub_frame_trans)

lemma pays_nothing: "sub_frame db db' \<Longrightarrow> db_ledger db' = db_ledger db \<Longrightarrow> pays db db' []"
  by (simp add: pays_def)

lemma pays_frame: "pays db db' ks \<Longrightarrow> sub_frame db db'"
  by (simp add: pays_def)

lemma pays_credit:
  "pays db (add_credit u None a k b m now db) [(u, pg_numeric 4 a, k, dict_get ''period_start'' m)]"
  by (auto simp: pays_def add_credit_def refill_key_def sub_frame_def)

lemma pays_total:
  assumes "pays db db' keys"
  shows "user_total u db' = user_total u db + (\<Sum>(v, a, _)\<leftarrow>keys. if v = u then a else 0)"
proof -
  obtain rows where rows: "db_ledger db' = db_ledger db @ rows" "map refill_key rows = keys"
    using assms by (auto simp: pays_def)
  have "sum_where (\<lambda>r. ct_user r = u) ct_amount rows = (\<Sum>(v, a, _)\<leftarrow>map refill_key rows. if v = u then a else 0)"
    by (induction rows) (simp_all add: sum_where_Cons refill_key_def)
  with rows show ?thesis by (simp add: user_total_def ledger_sum_def)
qed

lemma refills_total:
  "(\<Sum>(v, a, _)\<leftarrow>refills_of s starts. if v = u then a else 0) =
   (if u = sub_user s then of_nat (length starts) * pl_credits (get_plan (sub_plan s)) else 0)"
  by (induction starts) (auto simp: refills_of_def algebra_simps)

definition refilled :: "datetime \<Rightarrow> billing_subscription \<Rightarrow> billing_subscription" where
  "refilled now s = s\<lparr>sub_refilled := Some (sub_start s), sub_updated := now\<rparr>"

lemma refilled_simps [simp]:
  "sub_id (refilled now s) = sub_id s" "sub_user (refilled now s) = sub_user s"
  "sub_plan (refilled now s) = sub_plan s" "sub_status (refilled now s) = sub_status s"
  "sub_start (refilled now s) = sub_start s" "sub_end (refilled now s) = sub_end s"
  "sub_refilled (refilled now s) = Some (sub_start s)" "sub_meta (refilled now s) = sub_meta s"
  by (simp_all add: refilled_def)

lemma refill_start [simp]: "dict_get ''period_start'' (subscription_refill_metadata s g) = Some (JTime (sub_start s))"
  by (simp add: subscription_refill_metadata_def)

lemma refill_once:
  assumes "sub_refilled s \<noteq> Some (sub_start s)"
    and "apply_monthly_refill_once now s g db = (did, s', db')"
  shows "did \<longleftrightarrow> sub_plan s \<noteq> FREE" "s' = refilled now s"
    and "db_subs db' = row_put sub_id (refilled now s) (db_subs db)"
    and "pays db db' (refills_of s [sub_start s])"
proof -
  let ?s = "refilled now s"
  have eq: "apply_monthly_refill_once now s g db =
      (if sub_plan s = FREE then (False, ?s, sub_put ?s db)
       else (True, ?s, write_subscription_outbox now ?s ''billing.subscription.refilled''
           [(''amount'', JStr (fmt 2 (pl_credits (get_plan (sub_plan s))))),
            (''bucket'', JStr (subscription_refill_bucket ?s)), (''trigger'', JStr g)]
          (add_credit (sub_user s) None (pl_credits (get_plan (sub_plan s))) ''monthly_refill''
             (subscription_refill_bucket ?s) (subscription_refill_metadata ?s g) now (sub_put ?s db))))"
    using assms(1) plan_credits_positive [of "sub_plan s"]
    by (auto simp: apply_monthly_refill_once_def Let_def refilled_def)
  show "did \<longleftrightarrow> sub_plan s \<noteq> FREE" "s' = ?s" "db_subs db' = row_put sub_id ?s (db_subs db)"
    using assms(2) unfolding eq by (auto split: if_splits)
  have put: "pays db (sub_put ?s db) []" by (rule pays_nothing) simp_all
  show "pays db db' (refills_of s [sub_start s])"
  proof (cases "sub_plan s = FREE")
    case True
    with put assms(2) show ?thesis unfolding eq by (auto simp: refills_of_def)
  next
    case False
    let ?m = "subscription_refill_metadata ?s g" and ?b = "subscription_refill_bucket ?s"
      and ?c = "pl_credits (get_plan (sub_plan s))"
    let ?db2 = "add_credit (sub_user s) None ?c ''monthly_refill'' ?b ?m now (sub_put ?s db)"
    have "pays (sub_put ?s db) ?db2 (refills_of s [sub_start s])"
      using pays_credit [of "sub_put ?s db" "sub_user s" ?c "''monthly_refill''" ?b ?m now] False
      by (simp add: refills_of_def)
    moreover have "pays ?db2 db' []"
      using assms(2) False unfolding eq by (intro pays_nothing) auto
    ultimately show ?thesis using pays_trans [OF pays_trans [OF put]] by fastforce
  qed
qed

section \<open>What paid for a period\<close>

text \<open>The ledger has a row that says it pays this user this amount for the period starting then.\<close>

definition paid_row_for :: "billing_db \<Rightarrow> billing_subscription \<Rightarrow> rat \<Rightarrow> string \<Rightarrow> bool" where
  "paid_row_for db s amount kind \<longleftrightarrow>
     (\<exists>r\<in>set (db_ledger db). ct_user r = sub_user s \<and> ct_amount r = amount \<and> ct_kind r = kind \<and>
        dict_get ''period_start'' (ct_meta r) = Some (JTime (sub_start s)))"

text \<open>
  The current period of a row is paid: the monthly credits of its plan; for a row upgraded inside the period
  those of Starter and a proration; for an education Starter row that has not been written since its
  activation the signup seed of its user. The free plan has nothing to pay.
\<close>

definition period_paid :: "billing_db \<Rightarrow> billing_subscription \<Rightarrow> bool" where
  "period_paid db s \<longleftrightarrow>
     sub_plan s = FREE \<or>
     paid_row_for db s (pl_credits (get_plan (sub_plan s))) ''monthly_refill'' \<or>
     sub_plan s = PRO \<and> paid_row_for db s (pl_credits (get_plan STARTER)) ''monthly_refill'' \<and>
       (\<exists>amount>0. paid_row_for db s amount ''subscription_proration'') \<or>
     subscription_is_edu_starter s \<and> sub_updated s = sub_start s \<and> has_edu_signup_seed (sub_user s) db"

definition paid_inv :: "billing_db \<Rightarrow> bool" where
  "paid_inv db \<longleftrightarrow> (\<forall>s\<in>set (db_subs db). is_active s \<longrightarrow> period_paid db s)"

definition paid_kept :: "billing_db \<Rightarrow> billing_db \<Rightarrow> bool" where
  "paid_kept db db' \<longleftrightarrow> (paid_inv db \<longrightarrow> paid_inv db')"

lemma paid_row_for_key:
  "paid_row_for db s amount kind \<longleftrightarrow> (sub_user s, amount, kind, Some (JTime (sub_start s))) \<in> refill_key ` set (db_ledger db)"
  by (force simp: paid_row_for_def refill_key_def)

lemma paid_row_for_mono: "set (db_ledger db) \<subseteq> set (db_ledger db') \<Longrightarrow> paid_row_for db s a k \<Longrightarrow> paid_row_for db' s a k"
  by (auto simp: paid_row_for_def)

lemma seed_mono: "set (db_ledger db) \<subseteq> set (db_ledger db') \<Longrightarrow> has_edu_signup_seed u db \<Longrightarrow> has_edu_signup_seed u db'"
  by (auto simp: has_edu_signup_seed_def list_ex_iff)

lemma period_paid_mono: "set (db_ledger db) \<subseteq> set (db_ledger db') \<Longrightarrow> period_paid db s \<Longrightarrow> period_paid db' s"
  using paid_row_for_mono [of db db' s] seed_mono [of db db' "sub_user s"] by (auto simp: period_paid_def)

lemma frame_ledger: "sub_frame db db' \<Longrightarrow> set (db_ledger db) \<subseteq> set (db_ledger db')"
  by (auto simp: sub_frame_def)

lemma paid_kept_refl [simp]: "paid_kept db db"
  by (simp add: paid_kept_def)

lemma paid_kept_trans: "paid_kept db db' \<Longrightarrow> paid_kept db' db'' \<Longrightarrow> paid_kept db db''"
  by (simp add: paid_kept_def)

lemma paid_kept_same: "db_subs db' = db_subs db \<Longrightarrow> set (db_ledger db) \<subseteq> set (db_ledger db') \<Longrightarrow> paid_kept db db'"
  by (auto simp: paid_kept_def paid_inv_def intro: period_paid_mono)

lemma paid_kept_put:
  assumes "db_subs db' = row_put sub_id s (db_subs db)" "set (db_ledger db) \<subseteq> set (db_ledger db')"
    and "paid_inv db \<Longrightarrow> period_paid db' s"
  shows "paid_kept db db'"
  using assms unfolding paid_kept_def paid_inv_def by (auto dest!: in_set_put intro: period_paid_mono)

lemma paid_kept_add:
  "db_subs db' = db_subs db @ [s] \<Longrightarrow> set (db_ledger db) \<subseteq> set (db_ledger db') \<Longrightarrow> period_paid db' s \<Longrightarrow> paid_kept db db'"
  by (auto simp: paid_kept_def paid_inv_def intro: period_paid_mono)

text \<open>The refill that starts the period of a row pays for it.\<close>

lemma refills_pay:
  assumes "pays db db' (refills_of t starts)" "sub_start s \<in> set starts" "sub_user t = sub_user s" "sub_plan t = sub_plan s"
  shows "period_paid db' s"
proof -
  obtain rows where rows: "db_ledger db' = db_ledger db @ rows" "map refill_key rows = refills_of t starts"
    using assms(1) by (auto simp: pays_def)
  have "sub_plan s \<noteq> FREE \<Longrightarrow>
      (sub_user s, pl_credits (get_plan (sub_plan s)), ''monthly_refill'', Some (JTime (sub_start s))) \<in> set (map refill_key rows)"
    unfolding rows(2) using assms(2-4) by (simp add: refills_of_def)
  then show ?thesis by (auto simp: period_paid_def paid_row_for_key rows(1))
qed

section \<open>The refill loop\<close>

text \<open>The number of period ends, counted on by months from \<open>e\<close>, that lie at or before \<open>as_of\<close>.\<close>

definition period_end :: "datetime \<Rightarrow> nat \<Rightarrow> datetime" where
  "period_end e k = (add_one_calendar_month ^^ k) e"

definition periods_due :: "datetime \<Rightarrow> datetime \<Rightarrow> nat \<Rightarrow> bool" where
  "periods_due as_of e n \<longleftrightarrow> (\<forall>k<n. period_end e k \<le> as_of) \<and> as_of < period_end e n"

lemma period_end_simps [simp]:
  "period_end e 0 = e" "period_end e (Suc 0) = add_one_calendar_month e" "period_end (add_one_calendar_month e) k = period_end e (Suc k)"
  by (simp_all add: period_end_def funpow_Suc_right del: funpow.simps)

lemma period_end_valid: "valid_datetime e \<Longrightarrow> valid_datetime (period_end e k)"
  unfolding period_end_def by (rule add_month.iterate_ok)

lemma periods_due_0: "as_of < e \<Longrightarrow> periods_due as_of e 0"
  by (simp add: periods_due_def)

lemma periods_due_Suc:
  "e \<le> as_of \<Longrightarrow> periods_due as_of (add_one_calendar_month e) n \<Longrightarrow> periods_due as_of e (Suc n)"
  by (auto simp: periods_due_def less_Suc_eq_0_disj)

lemma periods_due_unique: "periods_due as_of e n \<Longrightarrow> periods_due as_of e m \<Longrightarrow> n = m"
  by (rule linorder_cases [of n m]) (auto simp: periods_due_def leD)

text \<open>The row the loop leaves: its last period is the one that contains \<open>as_of\<close>.\<close>

definition advanced :: "datetime \<Rightarrow> nat \<Rightarrow> billing_subscription \<Rightarrow> billing_subscription" where
  "advanced now n s =
     (case n of 0 \<Rightarrow> s
      | Suc k \<Rightarrow> refilled now (s\<lparr>sub_start := period_end (sub_end s) k, sub_end := period_end (sub_end s) n\<rparr>))"

lemma advanced_simps [simp]:
  "sub_id (advanced now n s) = sub_id s" "sub_user (advanced now n s) = sub_user s"
  "sub_plan (advanced now n s) = sub_plan s" "sub_status (advanced now n s) = sub_status s"
  "sub_meta (advanced now n s) = sub_meta s" "sub_end (advanced now n s) = period_end (sub_end s) n"
  by (simp_all add: advanced_def split: nat.split)

lemma advanced_ok: "sub_ok s \<Longrightarrow> sub_ok (advanced now n s)"
proof (cases n)
  case (Suc k)
  assume "sub_ok s"
  then have v: "valid_datetime (sub_end s)" by (simp add: sub_ok_def)
  have "period_end (sub_end s) k < period_end (sub_end s) (Suc k)"
    using add_month.step_greater [OF period_end_valid [OF v, of k]] by (simp add: period_end_def)
  with Suc v show ?thesis by (simp add: advanced_def sub_ok_def period_end_valid)
qed (simp add: advanced_def)

lemma advanced_Suc:
  assumes "s2 = refilled now (s\<lparr>sub_start := sub_end s, sub_end := add_one_calendar_month (sub_end s)\<rparr>)"
  shows "advanced now n s2 = advanced now (Suc n) s"
  using assms by (cases n) (simp_all add: advanced_def refilled_def)

lemma row_put_put: "key r = key r' \<Longrightarrow> row_put key r' (row_put key r rows) = row_put key r' rows"
  by (induction rows) (auto simp: row_put_def)

lemma refills_of_append: "refills_of s (xs @ ys) = refills_of s xs @ refills_of s ys"
  by (simp add: refills_of_def)

lemma refills_of_cong: "sub_user s = sub_user s' \<Longrightarrow> sub_plan s = sub_plan s' \<Longrightarrow> refills_of s xs = refills_of s' xs"
  by (simp add: refills_of_def)

lemma period_starts_Suc: "map (period_end e) [0..<Suc n] = e # map (period_end (add_one_calendar_month e)) [0..<n]"
  by (rule nth_equalityI) (auto simp: nth_Cons' simp del: upt_Suc)

text \<open>What the loop leaves from a row \<open>s\<close>: the row of the period that contains \<open>as_of\<close>, every period paid once.\<close>

definition loop_leaves :: "datetime \<Rightarrow> datetime \<Rightarrow> billing_subscription \<Rightarrow> billing_db \<Rightarrow>
    (billing_subscription \<times> billing_db \<times> int \<times> int) option \<Rightarrow> bool" where
  "loop_leaves now as_of s db out \<longleftrightarrow>
     (\<exists>n db' r k. out = Some (advanced now n s, db', r, k) \<and> periods_due as_of (sub_end s) n \<and>
        db_subs db' = row_put sub_id (advanced now n s) (db_subs db) \<and>
        pays db db' (refills_of s (map (period_end (sub_end s)) [0..<n])))"

definition row_ready :: "billing_subscription \<Rightarrow> billing_db \<Rightarrow> bool" where
  "row_ready s db \<longleftrightarrow> sub_ok s \<and> sub_get (sub_id s) db = Some s \<and> distinct (map sub_id (db_subs db))"

lemma loop_leaves_stop:
  assumes "row_ready s db" "as_of < sub_end s"
  shows "loop_leaves now as_of s db (Some (s, db, r, k))"
  using assms row_put_id [of sub_id s "db_subs db"]
  unfolding loop_leaves_def row_ready_def
  by (intro exI [of _ 0] exI [of _ db] exI [of _ r] exI [of _ k])
    (simp add: periods_due_0 sub_get_def advanced_def refills_of_def)

lemma loop_leaves_step:
  assumes ready: "row_ready s db" and due: "sub_end s \<le> as_of"
    and s1: "s1 = s\<lparr>sub_start := sub_end s, sub_end := add_one_calendar_month (sub_end s)\<rparr>"
    and once: "apply_monthly_refill_once now s1 g (sub_put s1 db) = (did, s2, db2)"
  shows "row_ready s2 db2" "sub_end s2 = add_one_calendar_month (sub_end s)"
    and "loop_leaves now as_of s2 db2 out \<Longrightarrow> loop_leaves now as_of s db out"
proof -
  have s: "sub_ok s" "sub_get (sub_id s) db = Some s" "distinct (map sub_id (db_subs db))"
    using ready by (simp_all add: row_ready_def)
  have "sub_refilled s1 \<noteq> Some (sub_start s1)" using s(1) by (auto simp: s1 sub_ok_def)
  note once_ =  refill_once [OF this once]
  have s2: "s2 = refilled now s1" by (rule once_(2))
  have subs2: "db_subs db2 = row_put sub_id s2 (db_subs db)"
    using once_(3) by (simp add: s2 s1 row_put_put)
  have "sub_ok (advanced now 1 s)" using s(1) by (rule advanced_ok)
  then have ok2: "sub_ok s2" by (simp add: advanced_def s2 s1)
  have same: "sub_id s2 = sub_id s" "sub_user s2 = sub_user s" "sub_plan s2 = sub_plan s" by (simp_all add: s2 s1)
  show "row_ready s2 db2"
    using s(2,3) ok2 same(1) row_list.get_put_same [of sub_id s2 "db_subs db" s]
    by (simp add: row_ready_def sub_get_def subs2)
  show e2: "sub_end s2 = add_one_calendar_month (sub_end s)" by (simp add: s2 s1)
  assume "loop_leaves now as_of s2 db2 out"
  then obtain n db' r k where rest: "out = Some (advanced now n s2, db', r, k)" "periods_due as_of (sub_end s2) n"
    "db_subs db' = row_put sub_id (advanced now n s2) (db_subs db2)"
    "pays db2 db' (refills_of s2 (map (period_end (sub_end s2)) [0..<n]))"
    by (auto simp: loop_leaves_def)
  have adv: "advanced now n s2 = advanced now (Suc n) s"
    by (rule advanced_Suc) (simp add: s2 s1)
  have put: "pays db (sub_put s1 db) []" by (rule pays_nothing) simp_all
  have first: "pays (sub_put s1 db) db2 (refills_of s [sub_end s])"
    using once_(4) refills_of_cong [of s1 s] by (simp add: s1)
  have "pays db db' (refills_of s [sub_end s] @ refills_of s (map (period_end (add_one_calendar_month (sub_end s))) [0..<n]))"
    using pays_trans [OF pays_trans [OF put first]] rest(4) e2 refills_of_cong [of s2 s] same by simp
  then have "pays db db' (refills_of s (map (period_end (sub_end s)) [0..<Suc n]))"
    unfolding period_starts_Suc refills_of_append [symmetric] by simp
  moreover have "periods_due as_of (sub_end s) (Suc n)"
    using rest(2) by (intro periods_due_Suc [OF due]) (simp only: e2)
  moreover have "db_subs db' = row_put sub_id (advanced now (Suc n) s) (db_subs db)"
    using rest(3) same(1) by (simp only: adv subs2) (simp add: row_put_put)
  ultimately show "loop_leaves now as_of s db out"
    unfolding loop_leaves_def using rest(1) adv by blast
qed

lemma refill_loop_result:
  assumes "valid_datetime as_of" and ready: "row_ready s db"
  shows "loop_leaves now as_of s db (refill_loop now as_of s db r k)"
proof -
  have "\<forall>s db r k. sub_end s = e \<longrightarrow> row_ready s db \<longrightarrow> loop_leaves now as_of s db (refill_loop now as_of s db r k)"
    if "valid_datetime e" for e
    using that assms(1)
  proof (induction e "()" rule: add_month.loop_induct)
    case (stop e)
    then show ?case
      by (subst refill_loop.simps) (auto simp: not_le intro: loop_leaves_stop)
  next
    case (step e)
    show ?case
    proof (intro allI impI)
      fix s :: billing_subscription and db and r k :: int
      assume s: "sub_end s = e" "row_ready s db"
      define s1 where "s1 = s\<lparr>sub_start := sub_end s, sub_end := add_one_calendar_month (sub_end s)\<rparr>"
      obtain did s2 db2 where once: "apply_monthly_refill_once now s1 ''scheduled_refill'' (sub_put s1 db) = (did, s2, db2)"
        by (metis prod_cases3)
      have due: "sub_end s \<le> as_of" using step(2) s(1) by simp
      note nxt = loop_leaves_step [OF s(2) due s1_def once]
      have "refill_loop now as_of s db r k =
          refill_loop now as_of s2 db2 (if did then r + 1 else r) (if did then k else k + 1)"
        using due once by (subst refill_loop.simps) (simp add: Let_def s1_def)
      moreover have "loop_leaves now as_of s2 db2
          (refill_loop now as_of s2 db2 (if did then r + 1 else r) (if did then k else k + 1))"
        using step(3) nxt(1,2) s(1) by blast
      ultimately show "loop_leaves now as_of s db (refill_loop now as_of s db r k)"
        using nxt(3) by simp
    qed
  qed
  moreover have "valid_datetime (sub_end s)" using ready by (simp add: row_ready_def sub_ok_def)
  ultimately show ?thesis using ready by blast
qed

section \<open>How many periods a row missed\<close>

text \<open>
  The number of period ends at or before \<open>as_of\<close>, without the loop: one for every month between, and one
  for the last month if its period end was reached.
\<close>

definition missed_periods :: "datetime \<Rightarrow> datetime \<Rightarrow> nat" where
  "missed_periods as_of e =
     (let m = month_index as_of - month_index e in
      if m < 0 then 0 else if period_end e (nat m) \<le> as_of then nat m + 1 else nat m)"

lemma month_index_add_month:
  "valid_datetime d \<Longrightarrow> month_index (add_one_calendar_month d) = month_index d + 1"
  by (auto simp: add_one_calendar_month_def month_index_def Let_def)

lemma month_index_period_end: "valid_datetime e \<Longrightarrow> month_index (period_end e k) = month_index e + int k"
proof (induction k arbitrary: e)
  case (Suc k)
  then show ?case
    using Suc.IH [OF add_month_valid [OF Suc.prems]] month_index_add_month [OF Suc.prems] by simp
qed simp

lemma month_index_less:
  assumes "valid_datetime a" "valid_datetime b" "month_index a < month_index b"
  shows "a < b"
  using assms by (auto simp: less_datetime_def dt_key_def less_prod_def' month_index_def valid_datetime_def)

lemma periods_due_missed:
  assumes e: "valid_datetime e" and as_of: "valid_datetime as_of"
  shows "periods_due as_of e (missed_periods as_of e)"
proof -
  define m where "m = month_index as_of - month_index e"
  have before: "period_end e k < as_of" if "int k < m" for k
    using that by (intro month_index_less period_end_valid as_of e) (simp add: month_index_period_end [OF e] m_def)
  have after: "as_of < period_end e k" if "m < int k" for k
    using that by (intro month_index_less period_end_valid as_of e) (simp add: month_index_period_end [OF e] m_def)
  consider (none) "m < 0" | (reached) "0 \<le> m" "period_end e (nat m) \<le> as_of"
    | (short) "0 \<le> m" "\<not> period_end e (nat m) \<le> as_of" by linarith
  then show ?thesis
  proof cases
    case none
    then show ?thesis using after [of 0] by (simp add: missed_periods_def m_def [symmetric] periods_due_0)
  next
    case reached
    have "period_end e k \<le> as_of" if "k < nat m + 1" for k
    proof (cases "k = nat m")
      case False
      with that reached(1) show ?thesis by (intro less_imp_le before) linarith
    qed (use reached in simp)
    moreover have "as_of < period_end e (nat m + 1)" using reached(1) by (intro after) linarith
    ultimately show ?thesis using reached by (simp add: missed_periods_def m_def [symmetric] periods_due_def)
  next
    case short
    have "period_end e k \<le> as_of" if "k < nat m" for k using that by (intro less_imp_le before) linarith
    with short show ?thesis by (simp add: missed_periods_def m_def [symmetric] periods_due_def)
  qed
qed

lemma missed_periods_eq:
  "valid_datetime e \<Longrightarrow> valid_datetime as_of \<Longrightarrow> periods_due as_of e n \<Longrightarrow> n = missed_periods as_of e"
  using periods_due_missed periods_due_unique by blast

lemma missed_periods_Suc:
  assumes "valid_datetime e" "valid_datetime as_of" "e \<le> as_of"
  shows "missed_periods as_of e = Suc (missed_periods as_of (add_one_calendar_month e))"
  using missed_periods_eq [OF assms(1,2) periods_due_Suc [OF assms(3)
      periods_due_missed [OF add_month_valid [OF assms(1)] assms(2)]]] by simp

section \<open>The refill of one due row\<close>

text \<open>The plan the missed periods are paid at: a trial has fallen back to Starter.\<close>

definition paid_plan :: "billing_subscription \<Rightarrow> plan_code" where
  "paid_plan s = (if subscription_is_edu_pro_trial s then STARTER else sub_plan s)"

definition paid_row :: "billing_subscription \<Rightarrow> billing_subscription" where
  "paid_row s = s\<lparr>sub_plan := paid_plan s\<rparr>"

definition caught_up :: "datetime \<Rightarrow> billing_subscription \<Rightarrow> billing_subscription \<Rightarrow> bool" where
  "caught_up as_of s s' \<longleftrightarrow>
     sub_id s' = sub_id s \<and> sub_user s' = sub_user s \<and> sub_status s' = sub_status s \<and> sub_ok s' \<and>
     sub_plan s' = paid_plan s \<and> sub_end s' = period_end (sub_end s) (missed_periods as_of (sub_end s)) \<and>
     sub_start s' = period_end (sub_end s) (missed_periods as_of (sub_end s) - 1) \<and>
     as_of < sub_end s' \<and> (subscription_trial_used s \<longrightarrow> subscription_trial_used s')"

definition one_leaves :: "datetime \<Rightarrow> billing_subscription \<Rightarrow> billing_db \<Rightarrow> (billing_db \<times> int \<times> int) option \<Rightarrow> bool" where
  "one_leaves as_of s db out \<longleftrightarrow>
     (\<exists>s' db' r k. out = Some (db', r, k) \<and> caught_up as_of s s' \<and> db_subs db' = row_put sub_id s' (db_subs db) \<and>
        pays db db' (refills_of (paid_row s) (map (period_end (sub_end s)) [0..<missed_periods as_of (sub_end s)])))"

definition fallen :: "datetime \<Rightarrow> billing_subscription \<Rightarrow> billing_subscription" where
  "fallen now s =
     refilled now (s\<lparr>sub_plan := STARTER, sub_start := sub_end s, sub_end := add_one_calendar_month (sub_end s),
                     sub_refilled := None, sub_meta := edu_starter_fallback_metadata (sub_meta s), sub_updated := now\<rparr>)"

lemma fallen_simps [simp]:
  "sub_id (fallen now s) = sub_id s" "sub_user (fallen now s) = sub_user s"
  "sub_status (fallen now s) = sub_status s" "sub_plan (fallen now s) = STARTER"
  "sub_start (fallen now s) = sub_end s" "sub_end (fallen now s) = add_one_calendar_month (sub_end s)"
  "sub_meta (fallen now s) = edu_starter_fallback_metadata (sub_meta s)"
  by (simp_all add: fallen_def)

lemma trial_used_fallback:
  "dict_get ''education_pro_trial_used'' (edu_starter_fallback_metadata m) = dict_get ''education_pro_trial_used'' m"
  "dict_get ''education_pro_trial_used'' (edu_starter_metadata m) = dict_get ''education_pro_trial_used'' m"
  by (simp_all add: edu_starter_fallback_metadata_def edu_starter_metadata_def dict_get_merge)

lemma fallen_ok: "sub_ok s \<Longrightarrow> sub_ok (fallen now s)"
  using add_month.step_greater [of "sub_end s"] add_month_valid [of "sub_end s"]
  by (auto simp: sub_ok_def fallen_def)

lemma fallback_result:
  assumes trial: "subscription_is_edu_pro_trial s" and ready: "row_ready s db"
    and out: "fallback_edu_pro_trial_to_starter now s db = (s4, db4)"
  shows "s4 = fallen now s" "row_ready (fallen now s) db4" "db_subs db4 = row_put sub_id (fallen now s) (db_subs db)"
    and "pays db db4 (refills_of (fallen now s) [sub_end s])"
proof -
  let ?s1 = "s\<lparr>sub_plan := STARTER, sub_start := sub_end s, sub_end := add_one_calendar_month (sub_end s),
               sub_refilled := None, sub_meta := edu_starter_fallback_metadata (sub_meta s), sub_updated := now\<rparr>"
  define db3 where "db3 = write_subscription_outbox now ?s1 ''billing.subscription.edu_starter.activated''
      [(''trigger'', JStr ''edu_pro_trial_fallback'')]
      (write_subscription_outbox now ?s1 ''billing.subscription.edu_pro_trial.ended''
        [(''ended_plan_code'', JStr ''pro''), (''ended_education_entitlement'', JStr ''pro_30d_trial''),
         (''trial_ended_at'', JTime (sub_end s)), (''fallback_plan_code'', JStr ''starter'')] (sub_put ?s1 db))"
  obtain did s' db' where once: "apply_monthly_refill_once now ?s1 ''edu_pro_trial_fallback'' db3 = (did, s', db')"
    by (metis prod_cases3)
  have result: "s4 = s'" "db4 = db'"
    using out trial once by (simp_all add: fallback_edu_pro_trial_to_starter_def Let_def db3_def)
  have "sub_refilled ?s1 \<noteq> Some (sub_start ?s1)" by simp
  note once_ = refill_once [OF this once]
  show s4: "s4 = fallen now s" using once_(2) result by (simp add: fallen_def)
  show subs: "db_subs db4 = row_put sub_id (fallen now s) (db_subs db)"
    using once_(3) result by (simp add: fallen_def db3_def row_put_put)
  have "pays db db3 []" unfolding db3_def
    by (rule pays_nothing) (rule sub_frame_trans [OF sub_frame_trans [OF sub_frame_put sub_frame_outbox] sub_frame_outbox], simp)
  from pays_trans [OF this once_(4)] show "pays db db4 (refills_of (fallen now s) [sub_end s])"
    using refills_of_cong [of ?s1 "fallen now s"] result by simp
  show "row_ready (fallen now s) db4"
    using ready row_list.get_put_same [of sub_id "fallen now s" "db_subs db" s]
    by (simp add: row_ready_def fallen_ok subs sub_get_def)
qed

lemma trial_used_advanced [simp]: "subscription_trial_used (advanced now n s) = subscription_trial_used s"
  by (simp add: subscription_trial_used_def)

lemma refill_one_result:
  assumes as_of: "valid_datetime as_of" and ready: "row_ready s db" and due: "sub_end s \<le> as_of"
  shows "one_leaves as_of s db (refill_one now as_of s db r k)"
proof (cases "subscription_is_edu_pro_trial s")
  case False
  have v: "valid_datetime (sub_end s)" using ready by (simp add: row_ready_def sub_ok_def)
  obtain n db' r' k' where l: "refill_loop now as_of s db r k = Some (advanced now n s, db', r', k')"
    "periods_due as_of (sub_end s) n" "db_subs db' = row_put sub_id (advanced now n s) (db_subs db)"
    "pays db db' (refills_of s (map (period_end (sub_end s)) [0..<n]))"
    using refill_loop_result [OF as_of ready] unfolding loop_leaves_def by blast
  have n: "n = missed_periods as_of (sub_end s)" by (rule missed_periods_eq [OF v as_of l(2)])
  have "n \<noteq> 0" using l(2) due by (cases n) (auto simp: periods_due_def)
  then have "sub_start (advanced now n s) = period_end (sub_end s) (n - 1)" by (auto simp: advanced_def split: nat.split)
  then have "caught_up as_of s (advanced now n s)"
    using ready False l(2) n by (simp add: caught_up_def row_ready_def advanced_ok paid_plan_def periods_due_def)
  moreover have "paid_row s = s" using False by (simp add: paid_row_def paid_plan_def)
  ultimately show ?thesis
    using l False n by (auto simp: one_leaves_def refill_one_def fallback_edu_pro_trial_to_starter_def)
next
  case True
  obtain s4 db4 where out: "fallback_edu_pro_trial_to_starter now s db = (s4, db4)" by fastforce
  note f = fallback_result [OF True ready out]
  let ?f = "fallen now s" and ?e = "sub_end s"
  have v: "valid_datetime ?e" using ready by (simp add: row_ready_def sub_ok_def)
  have vf: "valid_datetime (sub_end ?f)" using v by (simp add: add_month_valid)
  obtain n db' r' k' where l: "refill_loop now as_of ?f db4 (r + 1) k = Some (advanced now n ?f, db', r', k')"
    "periods_due as_of (sub_end ?f) n" "db_subs db' = row_put sub_id (advanced now n ?f) (db_subs db4)"
    "pays db4 db' (refills_of ?f (map (period_end (sub_end ?f)) [0..<n]))"
    using refill_loop_result [OF as_of f(2)] unfolding loop_leaves_def by blast
  have N: "missed_periods as_of ?e = Suc n"
    using missed_periods_Suc [OF v as_of due] missed_periods_eq [OF vf as_of l(2)] by simp
  have "sub_start (advanced now n ?f) = period_end ?e n" by (cases n) (simp_all add: advanced_def)
  then have "caught_up as_of s (advanced now n ?f)"
    using ready True l(2) N
    by (simp add: caught_up_def row_ready_def advanced_ok fallen_ok paid_plan_def periods_due_def)
      (simp add: subscription_trial_used_def trial_used_fallback)
  moreover have "pays db db' (refills_of (paid_row s) (map (period_end ?e) [0..<Suc n]))"
    using pays_trans [OF f(4) l(4)] True refills_of_cong [of ?f "paid_row s"]
    unfolding period_starts_Suc refills_of_append [symmetric] by (simp add: paid_row_def paid_plan_def)
  moreover have "db_subs db' = row_put sub_id (advanced now n ?f) (db_subs db)"
    using l(3) f(3) by (simp add: row_put_put)
  ultimately show ?thesis
    using l(1) True N out f(1) unfolding one_leaves_def refill_one_def
    by (intro exI [of _ "advanced now n ?f"] exI [of _ db'] exI [of _ r'] exI [of _ k']) (simp del: upt_Suc)
qed

section \<open>The refill of everything due\<close>

definition owed :: "datetime \<Rightarrow> nat \<Rightarrow> billing_subscription \<Rightarrow> rat" where
  "owed as_of u s =
     (if sub_user s = u then of_nat (missed_periods as_of (sub_end s)) * pl_credits (get_plan (paid_plan s)) else 0)"

lemma pays_owed:
  assumes "pays db db' (refills_of (paid_row s) (map (period_end (sub_end s)) [0..<missed_periods as_of (sub_end s)]))"
  shows "user_total u db' = user_total u db + owed as_of u s"
  using pays_total [OF assms, of u] unfolding refills_total by (simp add: owed_def paid_row_def)

lemma subs_inv_caught_up:
  assumes inv: "subs_inv db" and row: "sub_get (sub_id s) db = Some s" and up: "caught_up as_of s s'"
    and subs: "db_subs db' = row_put sub_id s' (db_subs db)" and frame: "sub_frame db db'"
  shows "subs_inv db'"
proof -
  have "subs_inv (sub_put s' db)" using up row by (intro subs_inv_put [OF inv]) (auto simp: caught_up_def)
  then show ?thesis by (rule subs_inv_mono) (use subs frame in \<open>simp_all add: sub_frame_def\<close>)
qed

lemma caught_up_paid:
  assumes "sub_end s \<le> as_of" "valid_datetime as_of" "valid_datetime (sub_end s)" "caught_up as_of s s'"
    and "db_subs db' = row_put sub_id s' (db_subs db)"
    and pays: "pays db db' (refills_of (paid_row s) (map (period_end (sub_end s)) [0..<missed_periods as_of (sub_end s)]))"
  shows "paid_kept db db'"
proof (rule paid_kept_put [OF assms(5) frame_ledger [OF pays_frame [OF pays]]])
  have "missed_periods as_of (sub_end s) \<noteq> 0" using missed_periods_Suc [OF assms(3,2,1)] by simp
  then show "period_paid db' s'"
    using assms(4) by (intro refills_pay [OF pays]) (auto simp: caught_up_def paid_row_def)
qed

definition each_leaves :: "datetime \<Rightarrow> billing_subscription list \<Rightarrow> billing_db \<Rightarrow> (billing_db \<times> int \<times> int) option \<Rightarrow> bool" where
  "each_leaves as_of due db out \<longleftrightarrow>
     (\<exists>db' r k. out = Some (db', r, k) \<and> subs_inv db' \<and> sub_frame db db' \<and> paid_kept db db' \<and>
        map sub_id (db_subs db') = map sub_id (db_subs db) \<and>
        (\<forall>i. i \<notin> sub_id ` set due \<longrightarrow> sub_get i db' = sub_get i db) \<and>
        (\<forall>s\<in>set due. \<exists>s'. sub_get (sub_id s) db' = Some s' \<and> caught_up as_of s s') \<and>
        (\<forall>u. user_total u db' = user_total u db + (\<Sum>s\<leftarrow>due. owed as_of u s)))"

lemma refill_each_result:
  assumes "valid_datetime as_of" "subs_inv db" "distinct (map sub_id due)"
    and "\<forall>s\<in>set due. sub_get (sub_id s) db = Some s \<and> is_active s \<and> sub_end s \<le> as_of"
  shows "each_leaves as_of due db (refill_each now as_of due db r k)"
  using assms(2-)
proof (induction due arbitrary: db r k)
  case Nil
  then show ?case by (simp add: each_leaves_def)
next
  case (Cons s due)
  have row: "sub_get (sub_id s) db = Some s" and due: "sub_end s \<le> as_of" and act: "is_active s"
    using Cons.prems(3) by auto
  have mem: "s \<in> set (db_subs db)" using row row_get_SomeD by (fastforce simp: sub_get_def)
  have ready: "row_ready s db"
    using row subs_invD(1,3) [OF Cons.prems(1)] mem act by (simp add: row_ready_def)
  obtain s' db1 r1 k1 where one: "refill_one now as_of s db r k = Some (db1, r1, k1)" "caught_up as_of s s'"
    "db_subs db1 = row_put sub_id s' (db_subs db)"
    "pays db db1 (refills_of (paid_row s) (map (period_end (sub_end s)) [0..<missed_periods as_of (sub_end s)]))"
    using refill_one_result [OF assms(1) ready due] unfolding one_leaves_def by blast
  have id: "sub_id s' = sub_id s" using one(2) by (simp add: caught_up_def)
  have frame: "sub_frame db db1" using one(4) by (rule pays_frame)
  have inv1: "subs_inv db1" by (rule subs_inv_caught_up [OF Cons.prems(1) row one(2,3) frame])
  have ends: "valid_datetime (sub_end s)" using ready by (simp add: row_ready_def sub_ok_def)
  have paid1: "paid_kept db db1" by (rule caught_up_paid [OF due assms(1) ends one(2,3,4)])
  have get1: "sub_get i db1 = (if i = sub_id s then Some s' else sub_get i db)" for i
    using row row_list.get_put [of sub_id s' "db_subs db" s i] by (simp add: sub_get_def one(3) id)
  have rest: "\<forall>t\<in>set due. sub_get (sub_id t) db1 = Some t \<and> is_active t \<and> sub_end t \<le> as_of"
    using Cons.prems(2,3) by (auto simp: get1 image_iff)
  have "each_leaves as_of due db1 (refill_each now as_of due db1 r1 k1)"
    using Cons.IH [OF inv1 _ rest] Cons.prems(2) by simp
  then obtain db' r' k' where l: "refill_each now as_of due db1 r1 k1 = Some (db', r', k')" "subs_inv db'"
    "sub_frame db1 db'" "map sub_id (db_subs db') = map sub_id (db_subs db1)"
    "\<And>i. i \<notin> sub_id ` set due \<Longrightarrow> sub_get i db' = sub_get i db1"
    "\<And>t. t \<in> set due \<Longrightarrow> \<exists>t'. sub_get (sub_id t) db' = Some t' \<and> caught_up as_of t t'"
    "\<And>u. user_total u db' = user_total u db1 + (\<Sum>t\<leftarrow>due. owed as_of u t)" "paid_kept db1 db'"
    unfolding each_leaves_def by blast
  have notin: "sub_id s \<notin> sub_id ` set due" using Cons.prems(2) by simp
  have head: "\<exists>s''. sub_get (sub_id s) db' = Some s'' \<and> caught_up as_of s s''"
    using l(5) [OF notin] one(2) by (simp add: get1)
  have others: "sub_get i db' = sub_get i db" if "i \<notin> sub_id ` set (s # due)" for i
    using l(5) [of i] that by (simp add: get1)
  have total: "user_total u db' = user_total u db + (\<Sum>t\<leftarrow>s # due. owed as_of u t)" for u
    using l(7) [of u] pays_owed [OF one(4), of u] by simp
  have ids: "map sub_id (db_subs db') = map sub_id (db_subs db)" using l(4) one(3) by simp
  show ?case
    unfolding each_leaves_def using one(1) l(1,2) sub_frame_trans [OF frame l(3)] paid_kept_trans [OF paid1 l(8)] ids head l(6) others total
    by (intro exI [of _ db'] exI [of _ r'] exI [of _ k']) auto
qed

lemma sum_of_first:
  fixes g :: "'a \<Rightarrow> 'v::comm_monoid_add"
  assumes "distinct (map f (filter P xs))"
  shows "(\<Sum>x\<leftarrow>filter (\<lambda>x. P x \<and> Q x) xs. if f x = u then g x else 0) =
    (case find (\<lambda>x. f x = u \<and> P x) xs of None \<Rightarrow> 0 | Some x \<Rightarrow> if Q x then g x else 0)"
  using assms
proof (induction xs)
  case (Cons x xs)
  show ?case
  proof (cases "f x = u \<and> P x")
    case True
    have "f y \<noteq> u" if "y \<in> set xs" "P y" for y
      using Cons.prems True that by (auto simp: image_iff)
    then have "(\<Sum>y\<leftarrow>filter (\<lambda>x. P x \<and> Q x) xs. if f y = u then g y else 0) = (\<Sum>y\<leftarrow>filter (\<lambda>x. P x \<and> Q x) xs. 0)"
      by (intro arg_cong [where f = sum_list] map_cong) auto
    then show ?thesis using True by simp
  next
    case False
    with Cons show ?thesis by (auto split: if_splits)
  qed
qed simp

lemma owed_sum:
  assumes "subs_inv db"
  shows "(\<Sum>s\<leftarrow>due_subscriptions as_of db. owed as_of u s) =
    (case active_subscription_for u db of None \<Rightarrow> 0 | Some s \<Rightarrow> if sub_end s \<le> as_of then owed as_of u s else 0)"
proof -
  have d: "distinct (map sub_user (filter (\<lambda>s. sub_status s = ''active'') (db_subs db)))"
    using assms by (simp add: subs_inv_def is_active_def [abs_def])
  have "(\<Sum>s\<leftarrow>due_subscriptions as_of db. owed as_of u s) =
      (\<Sum>s\<leftarrow>due_subscriptions as_of db. if sub_user s = u then owed as_of u s else 0)"
    by (intro arg_cong [where f = sum_list] map_cong) (simp_all add: owed_def)
  then show ?thesis
    unfolding due_subscriptions_def active_subscription_for_def sum_of_first [OF d] by simp
qed

lemma refill_due_result:
  assumes as_of: "valid_datetime as_of" "as_of = (case t of None \<Rightarrow> now | Some d \<Rightarrow> d)" and inv: "subs_inv db"
  shows "\<exists>resp db'. refill_due_subscriptions now t db = Some (resp, db') \<and>
    rd_processed resp = int (length (due_subscriptions as_of db)) \<and>
    subs_inv db' \<and> sub_frame db db' \<and> paid_kept db db' \<and> due_subscriptions as_of db' = [] \<and>
    (\<forall>s\<in>set (db_subs db). \<exists>s'. sub_get (sub_id s) db' = Some s' \<and>
       (if is_active s \<and> sub_end s \<le> as_of then caught_up as_of s s' else s' = s)) \<and>
    (\<forall>u. user_total u db' = user_total u db +
      (case active_subscription_for u db of None \<Rightarrow> 0 | Some s \<Rightarrow> if sub_end s \<le> as_of then owed as_of u s else 0))"
proof -
  let ?due = "due_subscriptions as_of db"
  have ids: "distinct (map sub_id (db_subs db))" using inv by (rule subs_invD(1))
  have due_ids: "distinct (map sub_id ?due)"
    using ids by (simp add: due_subscriptions_def distinct_map inj_on_def)
  have due_rows: "\<forall>s\<in>set ?due. sub_get (sub_id s) db = Some s \<and> is_active s \<and> sub_end s \<le> as_of"
    using sub_get_active [OF inv] by (auto simp: due_subscriptions_def is_active_def)
  obtain db' r k where l: "refill_each now as_of ?due db 0 0 = Some (db', r, k)" "subs_inv db'" "sub_frame db db'"
    "map sub_id (db_subs db') = map sub_id (db_subs db)"
    "\<And>i. i \<notin> sub_id ` set ?due \<Longrightarrow> sub_get i db' = sub_get i db"
    "\<And>s. s \<in> set ?due \<Longrightarrow> \<exists>s'. sub_get (sub_id s) db' = Some s' \<and> caught_up as_of s s'"
    "\<And>u. user_total u db' = user_total u db + (\<Sum>s\<leftarrow>?due. owed as_of u s)" "paid_kept db db'"
    using refill_each_result [OF as_of(1) inv due_ids due_rows, of now 0 0] unfolding each_leaves_def by blast
  have id_due: "sub_id s \<in> sub_id ` set ?due \<longleftrightarrow> s \<in> set ?due" if "s \<in> set (db_subs db)" for s
    using ids that by (auto simp: due_subscriptions_def distinct_map inj_on_def)
  have rows: "\<exists>s'. sub_get (sub_id s) db' = Some s' \<and> (if is_active s \<and> sub_end s \<le> as_of then caught_up as_of s s' else s' = s)"
    if s: "s \<in> set (db_subs db)" for s
  proof (cases "s \<in> set ?due")
    case True
    with l(6) [OF True] show ?thesis by (auto simp: due_subscriptions_def is_active_def)
  next
    case False
    then have "\<not> (is_active s \<and> sub_end s \<le> as_of)" using s by (auto simp: due_subscriptions_def is_active_def)
    with l(5) [of "sub_id s"] id_due [OF s] False sub_get_active [OF inv s] show ?thesis by auto
  qed
  have "\<not> (is_active s' \<and> sub_end s' \<le> as_of)" if s': "s' \<in> set (db_subs db')" for s'
  proof -
    have "sub_id s' \<in> sub_id ` set (db_subs db)" using s' l(4) by (metis image_eqI list.set_map)
    then obtain s where s: "s \<in> set (db_subs db)" "sub_id s = sub_id s'" by auto
    obtain s'' where s'': "sub_get (sub_id s) db' = Some s''"
      "if is_active s \<and> sub_end s \<le> as_of then caught_up as_of s s'' else s'' = s" using rows [OF s(1)] by blast
    then have "s'' = s'" using sub_get_active [OF l(2) s'] s(2) by simp
    with s''(2) show ?thesis by (cases "is_active s \<and> sub_end s \<le> as_of") (auto simp: caught_up_def)
  qed
  then have none_due: "due_subscriptions as_of db' = []"
    by (auto simp: due_subscriptions_def filter_empty_conv is_active_def)
  let ?resp = "\<lparr>rd_processed = int (length ?due), rd_refilled = r, rd_skipped = k, rd_as_of = as_of\<rparr>"
  have run: "refill_due_subscriptions now t db = Some (?resp, db')"
    using l(1) as_of(2) by (simp add: refill_due_subscriptions_def Let_def)
  show ?thesis
  proof (rule exI, rule exI, intro conjI allI ballI)
    show "refill_due_subscriptions now t db = Some (?resp, db')" by (rule run)
    show "rd_processed ?resp = int (length ?due)" by simp
    show "subs_inv db'" "sub_frame db db'" "paid_kept db db'" "due_subscriptions as_of db' = []"
      by (rule l(2) l(3) l(8) none_due)+
    show "\<exists>s'. sub_get (sub_id s) db' = Some s' \<and> (if is_active s \<and> sub_end s \<le> as_of then caught_up as_of s s' else s' = s)"
      if "s \<in> set (db_subs db)" for s using that by (rule rows)
    show "user_total u db' = user_total u db +
      (case active_subscription_for u db of None \<Rightarrow> 0 | Some s \<Rightarrow> if sub_end s \<le> as_of then owed as_of u s else 0)" for u
      using l(7) [of u] unfolding owed_sum [OF inv] .
  qed
qed

end
