(* ===== verification/SubscriptionProperties.thy ===== *)
theory SubscriptionProperties
  imports SubscriptionSafety
begin

text \<open>
  The subscription routes one by one: each keeps the invariant of the table, and what each pays and
  answers.
\<close>

section \<open>What every route keeps\<close>

text \<open>A user who used the education trial keeps an active row that says so.\<close>

definition trial_kept :: "billing_db \<Rightarrow> billing_db \<Rightarrow> bool" where
  "trial_kept db db' \<longleftrightarrow>
     (\<forall>s\<in>set (db_subs db). is_active s \<longrightarrow> subscription_trial_used s \<longrightarrow>
        (\<exists>s'\<in>set (db_subs db'). is_active s' \<and> sub_user s' = sub_user s \<and> subscription_trial_used s'))"

definition keeps_subs :: "billing_db \<Rightarrow> billing_db \<Rightarrow> bool" where
  "keeps_subs db db' \<longleftrightarrow> subs_inv db' \<and> trial_kept db db' \<and> paid_kept db db' \<and> sub_frame db db'"

lemma trial_kept_refl [simp]: "trial_kept db db"
  by (auto simp: trial_kept_def)

lemma trial_kept_trans: "trial_kept db db' \<Longrightarrow> trial_kept db' db'' \<Longrightarrow> trial_kept db db''"
  unfolding trial_kept_def by metis

lemma trial_kept_same: "db_subs db' = db_subs db \<Longrightarrow> trial_kept db db'"
  by (auto simp: trial_kept_def)

lemma keeps_subs_refl: "subs_inv db \<Longrightarrow> keeps_subs db db"
  by (simp add: keeps_subs_def)

lemma in_row_put: "x \<in> set rows \<Longrightarrow> key x \<noteq> key r \<Longrightarrow> x \<in> set (row_put key r rows)"
  by (auto simp: row_put_def image_iff)

lemma put_in_row_put: "row_get key (key r) rows = Some r0 \<Longrightarrow> r \<in> set (row_put key r rows)"
  using row_get_SomeD [of key "key r" rows r0] by (auto simp: row_put_def image_iff)

lemma put_keeps:
  assumes inv: "subs_inv db" and row: "s0 \<in> set (db_subs db)" "is_active s0"
    and s: "sub_id s = sub_id s0" "sub_user s = sub_user s0" "sub_status s = sub_status s0" "sub_ok s"
    and used: "subscription_trial_used s0 \<Longrightarrow> subscription_trial_used s"
    and subs: "db_subs db' = row_put sub_id s (db_subs db)" and frame: "sub_frame db db'"
    and paid: "paid_inv db \<Longrightarrow> period_paid db' s"
  shows "keeps_subs db db'"
proof -
  have get: "sub_get (sub_id s) db = Some s0" using sub_get_active [OF inv row(1)] s(1) by simp
  have "subs_inv (sub_put s db)" by (rule subs_inv_put [OF inv get s(2-4)])
  then have inv': "subs_inv db'" by (rule subs_inv_mono) (use subs frame in \<open>simp_all add: sub_frame_def\<close>)
  have mem: "s \<in> set (db_subs db')"
    unfolding subs using get by (intro put_in_row_put) (simp add: sub_get_def)
  have "trial_kept db db'"
    unfolding trial_kept_def
  proof (intro ballI impI)
    fix t assume t: "t \<in> set (db_subs db)" "is_active t" "subscription_trial_used t"
    show "\<exists>s'\<in>set (db_subs db'). is_active s' \<and> sub_user s' = sub_user t \<and> subscription_trial_used s'"
    proof (cases "sub_id t = sub_id s0")
      case True
      then have "t = s0" using sub_get_active [OF inv t(1)] get s(1) by simp
      with t used mem s row show ?thesis by (intro bexI [of _ s]) (simp_all add: is_active_def)
    next
      case False
      then have "t \<in> set (db_subs db')" unfolding subs using t(1) s(1) by (intro in_row_put) auto
      with t show ?thesis by blast
    qed
  qed
  moreover have "paid_kept db db'" by (rule paid_kept_put [OF subs frame_ledger [OF frame] paid])
  ultimately show ?thesis using inv' frame by (simp add: keeps_subs_def)
qed

lemma add_keeps:
  assumes inv: "subs_inv db" and none: "active_subscription_for (sub_user s) db = None"
    and s: "sub_id s = db_next_id db" "is_active s" "sub_ok s"
    and subs: "db_subs db' = db_subs db @ [s]" and frame: "sub_frame db db'" and drawn: "db_next_id db < db_next_id db'"
    and paid: "period_paid db' s"
  shows "keeps_subs db db'"
proof -
  have "subs_inv (sub_add s db)" by (rule subs_inv_add [OF inv none s])
  then have "subs_inv db'" by (rule subs_inv_mono) (use subs drawn in simp_all)
  with frame subs paid_kept_add [OF subs frame_ledger [OF frame] paid] show ?thesis
    by (auto simp: keeps_subs_def trial_kept_def)
qed

lemma row_put_fresh: "key r \<notin> key ` set rows \<Longrightarrow> key r0 = key r \<Longrightarrow> row_put key r (rows @ [r0]) = rows @ [r]"
  by (auto simp: row_put_def intro!: map_idI) (metis image_eqI)

lemma fresh_id: "subs_inv db \<Longrightarrow> db_next_id db \<notin> sub_id ` set (db_subs db)"
  using subs_invD(2) by fastforce

lemma new_subscription_simps [simp]:
  "sub_id (new_subscription now u c e r m db) = db_next_id db" "sub_user (new_subscription now u c e r m db) = u"
  "sub_plan (new_subscription now u c e r m db) = c" "sub_status (new_subscription now u c e r m db) = ''active''"
  "sub_start (new_subscription now u c e r m db) = now" "sub_end (new_subscription now u c e r m db) = e"
  "sub_refilled (new_subscription now u c e r m db) = r" "sub_meta (new_subscription now u c e r m db) = m"
  "sub_updated (new_subscription now u c e r m db) = now"
  "is_active (new_subscription now u c e r m db)"
  by (simp_all add: new_subscription_def is_active_def)

lemma next_period: "valid_datetime now \<Longrightarrow> now < add_one_calendar_month now"
  by (rule add_month.step_greater)

lemma trial_period: "valid_datetime now \<Longrightarrow> valid_datetime (dt_plus now (days 30)) \<and> now < dt_plus now (days 30)"
  using dt_plus_nonneg [of now "days 30"] to_us_less_iff [of now "dt_plus now (days 30)"]
  by (simp add: days_def day_us_def)

text \<open>
  An activation writes a row that has not been refilled, an event, and the refill of its first period.
\<close>

definition activation ::
  "datetime \<Rightarrow> string \<Rightarrow> jdict \<Rightarrow> string \<Rightarrow> billing_subscription \<Rightarrow> billing_db \<Rightarrow> bool \<times> billing_subscription \<times> billing_db" where
  "activation now event extra g s db = apply_monthly_refill_once now s g (write_subscription_outbox now s event extra db)"

lemma activation_result:
  assumes "sub_refilled s = None"
  obtains did db' where "activation now event extra g s db = (did, refilled now s, db')"
    "db_subs db' = row_put sub_id (refilled now s) (db_subs db)" "pays db db' (refills_of s [sub_start s])"
    "db_next_id db < db_next_id db'"
proof -
  let ?db1 = "write_subscription_outbox now s event extra db"
  obtain did s' db' where once: "apply_monthly_refill_once now s g ?db1 = (did, s', db')"
    by (metis prod_cases3)
  have "sub_refilled s \<noteq> Some (sub_start s)" using assms by simp
  note r = refill_once [OF this once]
  have "pays db ?db1 []" by (rule pays_nothing) simp_all
  from pays_trans [OF this r(4)] have "pays db db' (refills_of s [sub_start s])" by simp
  moreover have "db_next_id db < db_next_id db'" using pays_frame [OF r(4)] by (simp add: sub_frame_def)
  ultimately show ?thesis using that once r(2,3) by (simp add: activation_def)
qed

lemma activation_put:
  assumes inv: "subs_inv db" and row: "s0 \<in> set (db_subs db)" "is_active s0"
    and s: "sub_id s = sub_id s0" "sub_user s = sub_user s0" "sub_status s = sub_status s0"
    and period: "valid_datetime (sub_start s)" "valid_datetime (sub_end s)" "sub_start s < sub_end s" "sub_refilled s = None"
    and used: "subscription_trial_used s0 \<Longrightarrow> subscription_trial_used s"
  obtains did db' where "activation now event extra g s (sub_put s db) = (did, refilled now s, db')"
    "keeps_subs db db'" "pays db db' (refills_of s [sub_start s])" "refilled now s \<in> set (db_subs db')"
proof -
  obtain did db' where a: "activation now event extra g s (sub_put s db) = (did, refilled now s, db')"
    "db_subs db' = row_put sub_id (refilled now s) (db_subs (sub_put s db))" "pays (sub_put s db) db' (refills_of s [sub_start s])"
    by (rule activation_result [OF period(4)])
  have subs: "db_subs db' = row_put sub_id (refilled now s) (db_subs db)"
    using a(2) by (simp add: row_put_put)
  have "pays db (sub_put s db) []" by (rule pays_nothing) simp_all
  from pays_trans [OF this a(3)] have paid: "pays db db' (refills_of s [sub_start s])" by simp
  have "keeps_subs db db'"
    by (rule put_keeps [OF inv row _ _ _ _ _ subs pays_frame [OF paid] refills_pay [OF paid]])
      (use s period used in \<open>simp_all add: sub_ok_def subscription_trial_used_def\<close>)
  moreover have "refilled now s \<in> set (db_subs db')"
    unfolding subs using sub_get_active [OF inv row(1)] s(1) by (intro put_in_row_put) (simp add: sub_get_def)
  ultimately show ?thesis using that a(1) paid by blast
qed

lemma activation_add:
  assumes inv: "subs_inv db" and none: "active_subscription_for (sub_user s) db = None"
    and s: "sub_id s = db_next_id db" "is_active s"
    and period: "valid_datetime (sub_start s)" "valid_datetime (sub_end s)" "sub_start s < sub_end s" "sub_refilled s = None"
  obtains did db' where "activation now event extra g s (sub_add s db) = (did, refilled now s, db')"
    "keeps_subs db db'" "pays db db' (refills_of s [sub_start s])" "refilled now s \<in> set (db_subs db')"
proof -
  obtain did db' where a: "activation now event extra g s (sub_add s db) = (did, refilled now s, db')"
    "db_subs db' = row_put sub_id (refilled now s) (db_subs (sub_add s db))" "pays (sub_add s db) db' (refills_of s [sub_start s])"
    "db_next_id (sub_add s db) < db_next_id db'"
    by (rule activation_result [OF period(4)])
  have subs: "db_subs db' = db_subs db @ [refilled now s]"
    using a(2) fresh_id [OF inv] s(1) by (simp add: row_put_fresh)
  have "pays db (sub_add s db) []" by (rule pays_nothing) simp_all
  from pays_trans [OF this a(3)] have paid: "pays db db' (refills_of s [sub_start s])" by simp
  have "keeps_subs db db'"
    by (rule add_keeps [OF inv _ _ _ _ subs pays_frame [OF paid] _ refills_pay [OF paid]])
      (use none s period a(4) in \<open>simp_all add: sub_ok_def is_active_def\<close>)
  with that a(1) paid subs show ?thesis by simp
qed

section \<open>The routes\<close>

lemma first_subscription_result:
  assumes inv: "subs_inv db" and none: "active_subscription_for user db = None" and now: "valid_datetime now"
  obtains s db' where "first_subscription now code user db = (Returned (subscription_response_of s None), db')"
    "keeps_subs db db'" "pays db db' (refills_of s [now])" "s \<in> set (db_subs db')"
    "sub_user s = user" "sub_plan s = code" "is_active s" "sub_start s = now" "sub_end s = add_one_calendar_month now"
proof -
  define s0 where "s0 = new_subscription now user (pl_code (get_plan code)) (add_one_calendar_month now) None
      [(''source'', JStr ''user_subscription''),
       (''external_payment_required'', JStr (if pl_external (get_plan code) then ''true'' else ''false''))] db"
  obtain did db' where a: "activation now ''billing.subscription.activated'' [] ''activation'' s0 (sub_add s0 db) =
      (did, refilled now s0, db')" "keeps_subs db db'" "pays db db' (refills_of s0 [sub_start s0])"
      "refilled now s0 \<in> set (db_subs db')"
    by (rule activation_add [OF inv, where s = s0 and now = now and g = "''activation''" and extra = "[]"
          and event = "''billing.subscription.activated''"])
      (use none now in \<open>simp_all add: s0_def next_period add_month_valid\<close>)
  have "first_subscription now code user db = (Returned (subscription_response_of (refilled now s0) None), db')"
    using a(1) by (simp add: first_subscription_def Let_def s0_def activation_def split: prod.splits)
  moreover have "refills_of s0 [sub_start s0] = refills_of (refilled now s0) [now]"
    using refills_of_cong [of s0 "refilled now s0"] by (simp add: s0_def)
  ultimately show ?thesis
    using a(2-4) by (intro that [of "refilled now s0" db']) (simp_all add: s0_def is_active_def)
qed

lemma finish_edu_starter_result:
  assumes "sub_refilled s = (if seed then Some (sub_start s) else None)"
  obtains db' where "finish_edu_starter now seed s db =
      (Returned (subscription_response_of (if seed then s else refilled now s) None), db')"
    "db_subs db' = (if seed then db_subs db else row_put sub_id (refilled now s) (db_subs db))" "sub_frame db db'"
    "db_next_id db < db_next_id db'" "seed \<or> pays db db' (refills_of s [sub_start s])"
proof (cases seed)
  case True
  then show ?thesis
    by (intro that [of "write_subscription_outbox now s ''billing.subscription.edu_starter.activated'' [] db"])
      (simp_all add: finish_edu_starter_def Let_def)
next
  case False
  with assms have "sub_refilled s = None" by simp
  then obtain did db' where a: "activation now ''billing.subscription.edu_starter.activated'' [] ''activation'' s db =
      (did, refilled now s, db')" "db_subs db' = row_put sub_id (refilled now s) (db_subs db)"
      "pays db db' (refills_of s [sub_start s])" "db_next_id db < db_next_id db'"
    by (rule activation_result)
  show ?thesis
    by (rule that [of db'])
      (use a False pays_frame [OF a(3)] in \<open>simp_all add: finish_edu_starter_def activation_def\<close>)
qed

text \<open>The period of an education Starter row: the signup seed was its refill, or it was refilled now.\<close>

lemma edu_starter_paid:
  assumes "set (db_ledger db) \<subseteq> set (db_ledger db')" "seed = has_edu_signup_seed (sub_user s) db"
    and "subscription_is_edu_starter s \<and> sub_updated s = sub_start s"
    and "seed \<or> pays db1 db' (refills_of s [sub_start s])"
  shows "period_paid db' (if seed then s else refilled now s)"
proof (cases seed)
  case True
  then show ?thesis using assms(2,3) seed_mono [OF assms(1)] by (simp add: period_paid_def)
next
  case False
  with assms(4) have "pays db1 db' (refills_of s [sub_start s])" by simp
  from refills_pay [OF this, of "refilled now s"] False show ?thesis by simp
qed

lemma edu_starter_keeps:
  assumes inv: "subs_inv db" and now: "valid_datetime now"
  shows "keeps_subs db (snd (activate_or_return_edu_starter now user pass db))"
proof (cases "user_is_edu_tier user db")
  case False
  then show ?thesis using inv by (simp add: activate_or_return_edu_starter_def keeps_subs_refl)
next
  case tier: True
  define seed where "seed = has_edu_signup_seed user db"
  show ?thesis
  proof (cases "active_subscription_for user db")
    case None
    define s where "s = new_subscription now user STARTER (add_one_calendar_month now) (if seed then Some now else None)
        (edu_starter_metadata []) db"
    have ok: "sub_refilled s = (if seed then Some (sub_start s) else None)" by (simp add: s_def)
    obtain db' where f: "finish_edu_starter now seed s (sub_add s db) =
        (Returned (subscription_response_of (if seed then s else refilled now s) None), db')"
      "db_subs db' = (if seed then db_subs (sub_add s db) else row_put sub_id (refilled now s) (db_subs (sub_add s db)))"
      "sub_frame (sub_add s db) db'" "db_next_id (sub_add s db) < db_next_id db'"
      "seed \<or> pays (sub_add s db) db' (refills_of s [sub_start s])"
      by (rule finish_edu_starter_result [OF ok])
    have subs: "db_subs db' = db_subs db @ [if seed then s else refilled now s]"
      using f(2) fresh_id [OF inv] by (simp add: row_put_fresh s_def)
    have frame: "sub_frame db db'" by (rule sub_frame_trans [OF sub_frame_add f(3)])
    have "period_paid db' (if seed then s else refilled now s)"
      by (rule edu_starter_paid [OF frame_ledger [OF frame] _ _ f(5)]) (simp_all add: s_def seed_def edu_starter_metadata_def subscription_is_edu_starter_def dict_get_merge)
    then have "keeps_subs db db'"
      by (intro add_keeps [OF inv _ _ _ _ subs frame])
        (use None now f(4) in \<open>simp_all add: s_def sub_ok_def is_active_def next_period add_month_valid\<close>)
    then show ?thesis
      using tier None f(1) by (simp add: activate_or_return_edu_starter_def Let_def s_def seed_def)
  next
    case (Some s)
    have row: "s \<in> set (db_subs db)" "is_active s" and user: "sub_user s = user" using active_SomeD [OF Some] by simp_all
    have ok: "sub_ok s" using subs_invD(3) [OF inv row] .
    consider (edu) "subscription_is_edu_starter s" | (starter) "\<not> subscription_is_edu_starter s" "sub_plan s = STARTER"
      | (free) "\<not> subscription_is_edu_starter s" "sub_plan s = FREE"
      | (other) "\<not> subscription_is_edu_starter s" "sub_plan s \<noteq> STARTER" "sub_plan s \<noteq> FREE" by blast
    then show ?thesis
    proof cases
      case edu
      then show ?thesis using tier Some inv by (simp add: activate_or_return_edu_starter_def keeps_subs_refl)
    next
      case starter
      define s1 where "s1 = s\<lparr>sub_meta := edu_starter_metadata (sub_meta s), sub_updated := now\<rparr>"
      let ?db = "write_subscription_outbox now s1 ''billing.subscription.edu_starter.activated'' [] (sub_put s1 db)"
      have "period_paid ?db s1" if "paid_inv db"
      proof -
        from that row have "period_paid db s" by (simp add: paid_inv_def)
        with starter have "paid_row_for db s (pl_credits (get_plan STARTER)) ''monthly_refill''"
          by (auto simp: period_paid_def)
        then show ?thesis by (simp add: period_paid_def starter(2) s1_def paid_row_for_def)
      qed
      then have "keeps_subs db ?db"
        by (intro put_keeps [OF inv row, where s = s1])
          (use ok in \<open>simp_all add: s1_def sub_ok_def subscription_trial_used_def trial_used_fallback
             sub_frame_trans [OF sub_frame_put sub_frame_outbox]\<close>)
      then show ?thesis
        using tier Some starter by (simp add: activate_or_return_edu_starter_def Let_def s1_def)
    next
      case free
      define s1 where "s1 = s\<lparr>sub_plan := STARTER, sub_start := now, sub_end := add_one_calendar_month now,
          sub_refilled := (if seed then Some now else None), sub_meta := edu_starter_metadata (sub_meta s), sub_updated := now\<rparr>"
      have ok1: "sub_refilled s1 = (if seed then Some (sub_start s1) else None)" by (simp add: s1_def)
      obtain db' where f: "finish_edu_starter now seed s1 (sub_put s1 db) =
          (Returned (subscription_response_of (if seed then s1 else refilled now s1) None), db')"
        "db_subs db' = (if seed then db_subs (sub_put s1 db) else row_put sub_id (refilled now s1) (db_subs (sub_put s1 db)))"
        "sub_frame (sub_put s1 db) db'" "db_next_id (sub_put s1 db) < db_next_id db'"
        "seed \<or> pays (sub_put s1 db) db' (refills_of s1 [sub_start s1])"
        by (rule finish_edu_starter_result [OF ok1])
      have subs: "db_subs db' = row_put sub_id (if seed then s1 else refilled now s1) (db_subs db)"
        using f(2) by (simp add: row_put_put)
      have frame: "sub_frame db db'" by (rule sub_frame_trans [OF sub_frame_put f(3)])
      have "period_paid db' (if seed then s1 else refilled now s1)"
        by (rule edu_starter_paid [OF frame_ledger [OF frame] _ _ f(5)])
          (simp_all add: s1_def seed_def user edu_starter_metadata_def subscription_is_edu_starter_def dict_get_merge)
      then have "keeps_subs db db'"
        by (intro put_keeps [OF inv row _ _ _ _ _ subs frame])
          (use now in \<open>simp_all add: s1_def sub_ok_def next_period add_month_valid subscription_trial_used_def trial_used_fallback\<close>)
      then show ?thesis
        using tier Some free f(1) by (simp add: activate_or_return_edu_starter_def Let_def s1_def seed_def)
    next
      case other
      then show ?thesis using tier Some inv by (simp add: activate_or_return_edu_starter_def keeps_subs_refl)
    qed
  qed
qed

text \<open>The trial: either nothing changes, or a row is activated that says the trial was used.\<close>

definition trial_row :: "datetime \<Rightarrow> nat \<Rightarrow> billing_subscription \<Rightarrow> bool" where
  "trial_row now user s \<longleftrightarrow>
     sub_user s = user \<and> is_active s \<and> subscription_is_edu_pro_trial s \<and> subscription_trial_used s \<and>
     sub_start s = now \<and> sub_end s = dt_plus now (days 30)"

lemma trial_metadata:
  "dict_get ''source'' (edu_pro_trial_metadata m a b) = Some (JStr ''edu_tier'')"
  "dict_get ''education_entitlement'' (edu_pro_trial_metadata m a b) = Some (JStr ''pro_30d_trial'')"
  "dict_get ''education_pro_trial_used'' (edu_pro_trial_metadata m a b) = Some (JBool True)"
  by (simp_all add: edu_pro_trial_metadata_def dict_get_merge)

lemma pro_trial_result:
  assumes inv: "subs_inv db" and now: "valid_datetime now"
  obtains (unchanged) "snd (activate_or_return_edu_pro_trial now user db) = db"
      "active_subscription_for user db \<noteq> None \<or> \<not> user_is_edu_tier user db"
    | (started) s db' where
      "activate_or_return_edu_pro_trial now user db = (Returned (subscription_response_of s None), db')"
      "keeps_subs db db'" "pays db db' (refills_of s [now])" "s \<in> set (db_subs db')" "trial_row now user s"
      "\<And>a. active_subscription_for user db = Some a \<Longrightarrow> \<not> subscription_trial_used a"
proof (cases "user_is_edu_tier user db")
  case False
  then show ?thesis by (intro unchanged) (simp_all add: activate_or_return_edu_pro_trial_def)
next
  case tier: True
  let ?until = "dt_plus now (days 30)"
  let ?extra = "[(''trial_started_at'', JTime now), (''trial_ends_at'', JTime ?until), (''fallback_plan_code'', JStr ''starter'')]"
  show ?thesis
  proof (cases "active_subscription_for user db")
    case None
    define s where "s = new_subscription now user PRO ?until None (edu_pro_trial_metadata [] now ?until) db"
    obtain did db' where a: "activation now ''billing.subscription.edu_pro_trial.activated'' ?extra
        ''edu_pro_trial_activation'' s (sub_add s db) = (did, refilled now s, db')" "keeps_subs db db'"
        "pays db db' (refills_of s [sub_start s])" "refilled now s \<in> set (db_subs db')"
      by (rule activation_add [OF inv, where s = s and now = now and g = "''edu_pro_trial_activation''" and extra = ?extra
            and event = "''billing.subscription.edu_pro_trial.activated''"])
        (use None trial_period [OF now] now in \<open>simp_all add: s_def\<close>)
    show ?thesis
    proof (rule started)
      show "activate_or_return_edu_pro_trial now user db = (Returned (subscription_response_of (refilled now s) None), db')"
        using a(1) tier None by (simp add: activate_or_return_edu_pro_trial_def Let_def s_def activation_def)
      show "pays db db' (refills_of (refilled now s) [now])"
        using a(3) refills_of_cong [of s "refilled now s"] by (simp add: s_def)
      show "trial_row now user (refilled now s)"
        by (simp add: trial_row_def s_def subscription_is_edu_pro_trial_def subscription_trial_used_def trial_metadata
            is_active_def)
      show "\<not> subscription_trial_used a" if "active_subscription_for user db = Some a" for a using that None by simp
    qed (use a in auto)
  next
    case (Some s0)
    have row: "s0 \<in> set (db_subs db)" "is_active s0" "sub_user s0 = user" using active_SomeD [OF Some] by simp_all
    show ?thesis
    proof (cases "subscription_is_edu_pro_trial s0 \<or> subscription_trial_used s0 \<or> sub_plan s0 \<in> {PRO, TEAM, ENTERPRISE}")
      case True
      then show ?thesis
        using tier Some by (intro unchanged) (auto simp: activate_or_return_edu_pro_trial_def Let_def)
    next
      case False
      define s where "s = s0\<lparr>sub_plan := PRO, sub_start := now, sub_end := ?until, sub_refilled := None,
          sub_meta := edu_pro_trial_metadata (sub_meta s0) now ?until, sub_updated := now\<rparr>"
      obtain did db' where a: "activation now ''billing.subscription.edu_pro_trial.activated'' ?extra
          ''edu_pro_trial_activation'' s (sub_put s db) = (did, refilled now s, db')" "keeps_subs db db'"
          "pays db db' (refills_of s [sub_start s])" "refilled now s \<in> set (db_subs db')"
        by (rule activation_put [OF inv row(1,2), where s = s and now = now and g = "''edu_pro_trial_activation''" and extra = ?extra
              and event = "''billing.subscription.edu_pro_trial.activated''"])
          (use trial_period [OF now] now in \<open>simp_all add: s_def subscription_trial_used_def trial_metadata\<close>)
      show ?thesis
      proof (rule started)
        show "activate_or_return_edu_pro_trial now user db = (Returned (subscription_response_of (refilled now s) None), db')"
          using a(1) tier Some False by (simp add: activate_or_return_edu_pro_trial_def Let_def s_def activation_def)
        show "pays db db' (refills_of (refilled now s) [now])"
          using a(3) refills_of_cong [of s "refilled now s"] by (simp add: s_def)
        show "trial_row now user (refilled now s)"
          using row by (simp add: trial_row_def s_def subscription_is_edu_pro_trial_def subscription_trial_used_def
              trial_metadata is_active_def)
        show "\<not> subscription_trial_used a" if "active_subscription_for user db = Some a" for a
          using that Some False by simp
      qed (use a in auto)
    qed
  qed
qed

lemma pro_trial_keeps:
  assumes "subs_inv db" "valid_datetime now"
  shows "keeps_subs db (snd (activate_or_return_edu_pro_trial now user db))"
  by (rule pro_trial_result [OF assms, of user]) (use assms in \<open>simp_all add: keeps_subs_refl\<close>)

lemma ceil_days_pos: "0 < us \<Longrightarrow> 0 < ceil_days us"
  by (simp add: ceil_days_def day_us_def)

lemma ceil_days_mono: "a \<le> b \<Longrightarrow> ceil_days a \<le> ceil_days b"
  by (auto simp: ceil_days_def day_us_def intro: zdiv_mono1)

text \<open>An upgrade that goes through: the guards it passed, the days it counts, the amount it pays.\<close>

lemma upgrade_result:
  assumes inv: "subs_inv db" and row: "s \<in> set (db_subs db)" "is_active s" and now: "valid_datetime now"
  obtains (refused) st t where "upgrade_starter_to_pro_with_proration now s db = (problem_response t st, db)" "st = 409"
    | (upgraded) total remaining amount s' db' where
      "total = ceil_days (dt_minus (sub_end s) (sub_start s))" "remaining = ceil_days (dt_minus (sub_end s) now)"
      "0 < total" "0 < remaining" "amount = proration_amount 8000 remaining total" "0 < amount"
      "upgrade_starter_to_pro_with_proration now s db = (Returned (subscription_response_of s'
         (Some \<lparr>po_from = STARTER, po_to = PRO, po_amount = fmt 2 amount, po_currency = ''CNY'',
                po_remaining = remaining, po_total = total\<rparr>)), db')"
      "s' = s\<lparr>sub_plan := PRO, sub_updated := now\<rparr>" "sub_frame db db'" "sub_plan s = STARTER \<Longrightarrow> keeps_subs db db'"
      "\<forall>u. user_total u db' = user_total u db + (if u = sub_user s then amount else 0)"
      "s' \<in> set (db_subs db')" "now < sub_end s" "\<not> subscription_has_education_metadata s" "\<not> user_is_edu_tier (sub_user s) db"
proof -
  let ?total = "ceil_days (dt_minus (sub_end s) (sub_start s))" and ?rem = "ceil_days (dt_minus (sub_end s) now)"
  let ?amount = "proration_amount 8000 ?rem ?total"
  have ok: "sub_ok s" using subs_invD(3) [OF inv row] .
  show ?thesis
  proof (cases "subscription_has_education_metadata s \<or> user_is_edu_tier (sub_user s) db \<or> sub_end s \<le> now \<or> ?total \<le> 0 \<or> ?rem \<le> 0 \<or> ?amount \<le> 0")
    case True
    then have "\<exists>t. upgrade_starter_to_pro_with_proration now s db = (problem_response t 409, db)"
      by (auto simp: upgrade_starter_to_pro_with_proration_def Let_def)
    then show ?thesis using refused by blast
  next
    case False
    define s' where "s' = s\<lparr>sub_plan := PRO, sub_updated := now\<rparr>"
    define db' where "db' = snd (write_upgrade now s 8000 ?amount ?rem ?total db)"
    have subs: "db_subs db' = row_put sub_id s' (db_subs db)"
      by (simp add: db'_def write_upgrade_def Let_def s'_def)
    have scale: "pg_numeric 4 ?amount = ?amount"
      unfolding proration_amount_def quantize_half_up_def
      by (rule pg_numeric_exact) (rule has_scale_mono [OF half_up.quantize_scale], simp)
    have frame: "sub_frame db db'"
      by (simp add: db'_def write_upgrade_def Let_def sub_frame_trans [OF sub_frame_trans [OF sub_frame_put sub_frame_credit] sub_frame_outbox])
    show ?thesis
    proof (rule upgraded [OF refl refl _ _ refl])
      show "upgrade_starter_to_pro_with_proration now s db = (Returned (subscription_response_of s'
         (Some \<lparr>po_from = STARTER, po_to = PRO, po_amount = fmt 2 ?amount, po_currency = ''CNY'',
                po_remaining = ?rem, po_total = ?total\<rparr>)), db')"
        using False by (simp add: upgrade_starter_to_pro_with_proration_def Let_def db'_def s'_def)
          (simp add: write_upgrade_def Let_def)
      show "sub_frame db db'" by (rule frame)
      have prorated: "paid_row_for db' s' ?amount ''subscription_proration''"
        by (simp add: paid_row_for_def db'_def write_upgrade_def Let_def s'_def add_credit_def scale subscription_proration_metadata_def)
      show "keeps_subs db db'" if starter: "sub_plan s = STARTER"
      proof (rule put_keeps [OF inv row _ _ _ _ _ subs frame])
        assume "paid_inv db"
        then have "period_paid db s" using row by (simp add: paid_inv_def)
        moreover have "\<not> subscription_is_edu_starter s"
          using False by (auto simp: subscription_has_education_metadata_def subscription_is_edu_starter_def)
        ultimately have "paid_row_for db s (pl_credits (get_plan STARTER)) ''monthly_refill''"
          using starter by (simp add: period_paid_def)
        then have "paid_row_for db' s' (pl_credits (get_plan STARTER)) ''monthly_refill''"
          using paid_row_for_mono [OF frame_ledger [OF frame], of s] by (simp add: paid_row_for_def s'_def)
        with prorated False show "period_paid db' s'" by (auto simp: period_paid_def s'_def)
      qed (use ok in \<open>simp_all add: s'_def sub_ok_def subscription_trial_used_def\<close>)
      show "\<forall>u. user_total u db' = user_total u db + (if u = sub_user s then ?amount else 0)"
        by (simp add: db'_def write_upgrade_def Let_def scale)
      show "s' \<in> set (db_subs db')"
        unfolding subs using sub_get_active [OF inv row(1)] by (intro put_in_row_put) (simp add: sub_get_def s'_def)
    qed (use False in \<open>auto simp: s'_def\<close>)
  qed
qed

section \<open>Whole requests\<close>

lemma idem_subs [simp]:
  "db_subs (idem_put r db) = db_subs db" "db_subs (idem_add r db) = db_subs db"
  "db_users (idem_put r db) = db_users db" "db_users (idem_add r db) = db_users db"
  by (simp_all add: idem_put_def idem_add_def)

lemma upsert_frame [simp]:
  "db_subs (upsert_idempotency_row cfg now h key user r db) = db_subs db"
  "db_sagas (upsert_idempotency_row cfg now h key user r db) = db_sagas db"
  "db_ledger (upsert_idempotency_row cfg now h key user r db) = db_ledger db"
  "db_next_id (upsert_idempotency_row cfg now h key user r db) = db_next_id db"
  by (simp_all add: upsert_idempotency_row_def Let_def split: option.split)

text \<open>
  What a request keeps: the invariant, the trial, the sagas, the link of a key to its saga, and the ledger
  but for new rows.
\<close>

definition request_keeps :: "billing_db \<Rightarrow> billing_db \<Rightarrow> bool" where
  "request_keeps db db' \<longleftrightarrow>
     subs_inv db' \<and> trial_kept db db' \<and> paid_kept db db' \<and> db_sagas db' = db_sagas db \<and> db_next_id db \<le> db_next_id db' \<and>
     (idem_linked db \<longrightarrow> idem_linked db') \<and>
     (\<exists>rows. db_ledger db' = db_ledger db @ rows \<and> list_all (\<lambda>r. ct_saga r = None \<and> has_scale 4 (ct_amount r)) rows)"

lemma idem_linked_cong: "db_sagas db' = db_sagas db \<Longrightarrow> db_idem db' = db_idem db \<Longrightarrow> idem_linked db' = idem_linked db"
  by (simp add: idem_linked_def idem_get_def saga_get_def)

lemma idem_linked_put:
  assumes "idem_linked db" "idem_get (ik_key r) db = Some row" "ik_saga r = None \<or> ik_user r = ik_user row \<and> ik_saga r = ik_saga row"
  shows "idem_linked (idem_put r db)"
  using assms idem_rows.get_put [of r db row] by (auto simp: idem_linked_def)

lemma idem_linked_add:
  assumes "idem_linked db" "idem_get (ik_key r) db = None" "ik_saga r = None"
  shows "idem_linked (idem_add r db)"
  using assms idem_rows.get_add [of r db] by (auto simp: idem_linked_def)

lemma idem_linked_upsert:
  assumes "idem_linked db"
  shows "idem_linked (upsert_idempotency_row cfg now h key user r db)"
proof (cases "idem_get key db")
  case None
  then show ?thesis using assms
    by (simp add: upsert_idempotency_row_def Let_def idempotency_row_by_key_def idem_linked_add)
next
  case (Some row)
  moreover have "ik_key row = key" using Some idem_rows.get_key by blast
  ultimately show ?thesis using assms
    by (simp add: upsert_idempotency_row_def Let_def idempotency_row_by_key_def idem_linked_put [where row = row])
qed

lemma request_keepsI: "keeps_subs db db' \<Longrightarrow> request_keeps db db'"
  using idem_linked_cong [of db' db] by (simp add: keeps_subs_def request_keeps_def sub_frame_def)

lemma request_keeps_refl: "subs_inv db \<Longrightarrow> request_keeps db db"
  by (simp add: request_keeps_def)

lemma request_keeps_upsert:
  "request_keeps db db' \<Longrightarrow> request_keeps db (upsert_idempotency_row cfg now h key user r db')"
  unfolding request_keeps_def
  by (auto intro: subs_inv_mono idem_linked_upsert simp: trial_kept_def intro: paid_kept_trans [OF _ paid_kept_same])

lemma request_keeps_then_store:
  assumes "subs_inv db" "keeps_subs db (snd result)"
  shows "request_keeps db (snd (then_store result db (upsert_idempotency_row cfg now h key user)))"
  using assms request_keeps_upsert [OF request_keepsI]
  by (cases result; cases "fst result") (auto simp: then_store_def request_keeps_refl)

lemma request_keeps_replay:
  assumes "subs_inv db" "replay_if_cached now h accepted user key db = Some out"
  shows "request_keeps db (snd out)"
proof -
  have "request_keeps db (idem_put (row\<lparr>ik_response := r\<rparr>) db)" if "idem_get key db = Some row" for row r
  proof -
    have "ik_key row = key" using that idem_rows.get_key by blast
    with that have "idem_linked db \<Longrightarrow> idem_linked (idem_put (row\<lparr>ik_response := r\<rparr>) db)"
      by (intro idem_linked_put [where row = row]) simp_all
    with assms(1) show ?thesis by (auto simp: request_keeps_def intro: subs_inv_mono trial_kept_same paid_kept_same)
  qed
  then show ?thesis
    using assms by (auto simp: replay_if_cached_def idempotency_row_by_key_def request_keeps_refl Let_def split: option.splits if_splits)
qed

lemma change_keeps:
  assumes inv: "subs_inv db" and row: "s \<in> set (db_subs db)" "is_active s" and now: "valid_datetime now"
  shows "keeps_subs db (snd (change_subscription now code s db))"
proof -
  have "keeps_subs db (snd (upgrade_starter_to_pro_with_proration now s db))" if "sub_plan s = STARTER"
    by (rule upgrade_result [OF assms]) (use inv that in \<open>simp_all add: keeps_subs_refl\<close>)
  then show ?thesis using inv by (simp add: change_subscription_def keeps_subs_refl)
qed

lemma stored_request_keeps:
  assumes inv: "subs_inv db" and run: "keeps_subs db (snd result)"
  shows "request_keeps db (snd (if \<not> valid then (HttpError 400, db)
      else case replay_if_cached now h accepted user key db of
             Some cached \<Rightarrow> cached | None \<Rightarrow> then_store result db (upsert_idempotency_row cfg now h' key user)))"
  using request_keeps_replay [OF inv] request_keeps_refl [OF inv] request_keeps_then_store [OF inv run]
  by (simp split: option.split)

lemma create_subscription_keeps:
  assumes inv: "subs_inv db" and now: "valid_datetime now"
  shows "request_keeps db (snd (create_subscription cfg now code user key db))"
proof -
  define result where "result = (if code = STARTER \<and> user_is_edu_tier user db
                   then activate_or_return_edu_starter now user False db
                   else (case active_subscription_for user db of
                           Some active \<Rightarrow> change_subscription now code active db
                         | None \<Rightarrow> first_subscription now code user db))"
  have "keeps_subs db (snd result)"
  proof (cases "active_subscription_for user db")
    case None
    have "keeps_subs db (snd (first_subscription now code user db))"
      by (rule first_subscription_result [OF inv None now, of code]) simp
    then show ?thesis using edu_starter_keeps [OF inv now] None by (simp add: result_def)
  next
    case (Some s)
    then show ?thesis
      using edu_starter_keeps [OF inv now] change_keeps [OF inv _ _ now] active_SomeD [OF Some]
      by (simp add: result_def)
  qed
  from stored_request_keeps [OF inv this] show ?thesis
    unfolding create_subscription_def result_def [symmetric] upsert_subscription_idempotency_row_def
      subscription_replay_response_if_cached_def .
qed

lemma activate_pro_trial_keeps:
  assumes inv: "subs_inv db" and now: "valid_datetime now"
  shows "request_keeps db (snd (activate_edu_pro_trial_subscription cfg now raw user key db))"
proof (cases "list_all is_bytes_space raw")
  case True
  show ?thesis
    unfolding activate_edu_pro_trial_subscription_def upsert_edu_pro_trial_idempotency_row_def
      edu_pro_trial_replay_response_if_cached_def
    by (simp only: True not_True_eq_False if_False) (rule stored_request_keeps [OF inv pro_trial_keeps [OF inv now]])
next
  case False
  then show ?thesis using request_keeps_refl [OF inv] by (simp add: activate_edu_pro_trial_subscription_def)
qed

lemma sync_edu_starter_keeps:
  assumes "subs_inv db" "valid_datetime now"
  shows "request_keeps db (snd (sync_edu_starter_subscription now j db))"
  using request_keepsI [OF edu_starter_keeps [OF assms]] request_keeps_refl [OF assms(1)]
  by (auto simp: sync_edu_starter_subscription_def split: json.split)

lemma refill_due_keeps:
  assumes inv: "subs_inv db" and now: "valid_datetime as_of" "as_of = (case t of None \<Rightarrow> now | Some d \<Rightarrow> d)"
    and out: "refill_due_subscriptions now t db = Some (resp, db')"
  shows "request_keeps db db'"
proof -
  note r = refill_due_result [OF now inv, unfolded out]
  have "trial_kept db db'"
    unfolding trial_kept_def
  proof (intro ballI impI)
    fix s assume s: "s \<in> set (db_subs db)" "is_active s" "subscription_trial_used s"
    obtain s' where s': "sub_get (sub_id s) db' = Some s'"
      "if is_active s \<and> sub_end s \<le> as_of then caught_up as_of s s' else s' = s" using r s(1) by auto
    have "is_active s' \<and> sub_user s' = sub_user s \<and> subscription_trial_used s'"
      using s'(2) s(2,3) by (cases "sub_end s \<le> as_of") (auto simp: caught_up_def is_active_def)
    moreover have "s' \<in> set (db_subs db')" using s'(1) row_get_SomeD by (fastforce simp: sub_get_def)
    ultimately show "\<exists>s'\<in>set (db_subs db'). is_active s' \<and> sub_user s' = sub_user s \<and> subscription_trial_used s'" by blast
  qed
  moreover have "subs_inv db'" "sub_frame db db'" "paid_kept db db'" using r by auto
  ultimately show ?thesis using idem_linked_cong [of db' db] by (simp add: request_keeps_def sub_frame_def)
qed

section \<open>Stored answers\<close>

text \<open>The answers the routes store: every field within what the schema accepts.\<close>

definition answer_ok :: "subscription_response \<Rightarrow> bool" where
  "answer_ok r \<longleftrightarrow>
     sr_status r \<in> {''implicit_free'', ''active'', ''canceled'', ''expired''} \<and>
     sr_bucket r \<in> {''monthly'', ''signup'', ''edu'', ''topup''} \<and> sr_fallback r \<in> {None, Some STARTER} \<and>
     (case sr_education r of None \<Rightarrow> True | Some j \<Rightarrow> is_str j)"

lemma read_opt [simp]:
  "nullable read_id (json_opt JId v) = Some v" "nullable read_time (json_opt JTime t) = Some t"
  "nullable read_str (json_opt JStr s) = Some s" "nullable read_bool (json_opt JBool b) = Some b"
  "nullable read_plan (json_opt (\<lambda>c. JStr (plan_code_value c)) p) = Some p"
  by (cases v; cases t; cases s; cases b; cases p;
      simp add: nullable_def json_opt_def read_id_def read_time_def read_str_def read_bool_def read_plan_def)+

lemma read_simps [simp]:
  "read_plan (JStr (plan_code_value c)) = Some c" "read_str (JStr s) = Some s" "read_int (JNum (of_int i)) = Some i"
  by (simp_all add: read_plan_def read_str_def read_int_def)

lemma proration_roundtrip: "proration_of_json (proration_json p) = Some p"
  by (cases p) (simp add: proration_of_json_def proration_json_def required_def with_default_def)

lemma read_proration [simp]: "nullable proration_of_json (json_opt proration_json p) = Some p"
  by (cases p) (simp_all add: nullable_def json_opt_def proration_roundtrip, simp add: proration_json_def)

lemma read_education [simp]:
  "(case e of None \<Rightarrow> True | Some j \<Rightarrow> is_str j) \<Longrightarrow> nullable read_any_str (json_opt (\<lambda>j. j) e) = Some e"
  by (cases e) (auto simp: nullable_def json_opt_def read_any_str_def)

lemma subscription_response_roundtrip:
  assumes "answer_ok r"
  shows "subscription_response_of_json (subscription_response_json r) = Some r"
proof -
  have "sr_status r \<in> set [''implicit_free'', ''active'', ''canceled'', ''expired'']"
    "sr_bucket r \<in> set [''monthly'', ''signup'', ''edu'', ''topup'']" using assms by (simp_all add: answer_ok_def)
  then have "one_of [''implicit_free'', ''active'', ''canceled'', ''expired''] (Some (sr_status r)) = Some (sr_status r)"
    "one_of [''monthly'', ''signup'', ''edu'', ''topup''] (Some (sr_bucket r)) = Some (sr_bucket r)"
    unfolding one_of_def by simp_all
  moreover have "\<not> sr_fallback r \<notin> {None, Some STARTER}" using assms by (simp add: answer_ok_def)
  moreover have "(case sr_education r of None \<Rightarrow> True | Some j \<Rightarrow> is_str j)" using assms by (simp add: answer_ok_def)
  ultimately show ?thesis
    unfolding subscription_response_of_json_def subscription_response_json_def required_def with_default_def
    by (simp del: insert_iff)
qed

lemma subscription_answer_ok: "is_active s \<Longrightarrow> answer_ok (subscription_response_of s p)"
  by (auto simp: answer_ok_def subscription_response_of_def Let_def is_active_def subscription_refill_bucket_def
      subscription_fallback_plan_code_def subscription_education_entitlement_def split: option.split)

section \<open>Properties\<close>

text \<open>
  C23. The refill run always ends. Afterwards nothing is due, and every user's balance has grown by the
  monthly credits once for each period of theirs that ended (a trial that ended pays as Starter), and
  by nothing else. Running it again at the same time changes nothing.
\<close>

theorem refill_due_catches_up:
  assumes "subs_inv db" "ledger_scaled db" "valid_datetime as_of"
  shows "\<exists>resp db'. refill_due_subscriptions now (Some as_of) db = Some (resp, db') \<and> due_subscriptions as_of db' = [] \<and>
    (\<forall>user. balance_for user db' = balance_for user db +
       (case active_subscription_for user db of
          None \<Rightarrow> 0
        | Some s \<Rightarrow> if sub_end s \<le> as_of
            then of_nat (missed_periods as_of (sub_end s)) *
                 pl_credits (get_plan (if subscription_is_edu_pro_trial s then STARTER else sub_plan s))
            else 0)) \<and>
    (\<exists>again. refill_due_subscriptions now' (Some as_of) db' = Some (again, db') \<and> rd_processed again = 0)"
proof -
  obtain resp db' where r: "refill_due_subscriptions now (Some as_of) db = Some (resp, db')" "sub_frame db db'"
    "due_subscriptions as_of db' = []"
    "\<And>u. user_total u db' = user_total u db +
      (case active_subscription_for u db of None \<Rightarrow> 0 | Some s \<Rightarrow> if sub_end s \<le> as_of then owed as_of u s else 0)"
    using refill_due_result [OF assms(3) _ assms(1), where t = "Some as_of" and now = now] by auto
  have scaled: "ledger_scaled db'" using r(2) assms(2) by (auto simp: sub_frame_def ledger_scaled_def list_all_iff)
  have "refill_due_subscriptions now' (Some as_of) db' =
      Some (\<lparr>rd_processed = 0, rd_refilled = 0, rd_skipped = 0, rd_as_of = as_of\<rparr>, db')"
    using r(3) by (simp add: refill_due_subscriptions_def)
  moreover have "owed as_of u s = of_nat (missed_periods as_of (sub_end s)) *
      pl_credits (get_plan (if subscription_is_edu_pro_trial s then STARTER else sub_plan s))"
    if "active_subscription_for u db = Some s" for u s
    using active_SomeD [OF that] by (simp add: owed_def paid_plan_def)
  ultimately show ?thesis
    using r(1,3,4) balance_user_total [OF scaled] balance_user_total [OF assms(2)]
    by (intro exI [of _ resp] exI [of _ db']) (auto split: option.split)
qed

definition sub_row :: "nat \<Rightarrow> nat \<Rightarrow> plan_code \<Rightarrow> datetime \<Rightarrow> datetime \<Rightarrow> jdict \<Rightarrow> billing_subscription" where
  "sub_row i u c a b meta =
     \<lparr>sub_id = i, sub_user = u, sub_plan = c, sub_status = ''active'', sub_start = a, sub_end = b,
      sub_refilled = Some a, sub_meta = meta, sub_created = a, sub_updated = a\<rparr>"

text \<open>A Starter subscription of 31 January and an education trial of the same day.\<close>

definition subs_db :: billing_db where
  "subs_db = empty_db\<lparr>
     db_subs := [sub_row 0 1 STARTER (DateTime 2026 1 31 0) (DateTime 2026 2 28 0) [(''source'', JStr ''user_subscription'')],
                 sub_row 1 2 PRO (DateTime 2026 1 31 0) (DateTime 2026 3 2 0)
                   (edu_pro_trial_metadata [] (DateTime 2026 1 31 0) (DateTime 2026 3 2 0))],
     db_users := [\<lparr>us_id = 1, us_edu_tier = False\<rparr>, \<lparr>us_id = 2, us_edu_tier = True\<rparr>], db_next_id := 2\<rparr>"

lemma subs_db_inv: "subs_inv subs_db" "ledger_scaled subs_db"
  by (code_simp, simp add: ledger_scaled_def subs_db_def empty_db_def)

text \<open>On 15 May three Starter periods have ended, and the trial with two further ones.\<close>

theorem refill_due_catches_up_witness:
  "\<exists>resp db'. refill_due_subscriptions sample_time (Some (DateTime 2026 5 15 0)) subs_db = Some (resp, db') \<and>
     balance_for 1 db' = 6000 \<and> balance_for 2 db' = 6000"
proof -
  let ?t = "DateTime 2026 5 15 0"
  have facts: "map_option (\<lambda>s. (sub_end s \<le> ?t, of_nat (missed_periods ?t (sub_end s)) *
        pl_credits (get_plan (if subscription_is_edu_pro_trial s then STARTER else sub_plan s))))
      (active_subscription_for 1 subs_db) = Some (True, 6000::rat)"
    "map_option (\<lambda>s. (sub_end s \<le> ?t, of_nat (missed_periods ?t (sub_end s)) *
        pl_credits (get_plan (if subscription_is_edu_pro_trial s then STARTER else sub_plan s))))
      (active_subscription_for 2 subs_db) = Some (True, 6000::rat)"
    "balance_for 1 subs_db = 0" "balance_for 2 subs_db = 0" "valid_datetime ?t"
    by code_simp+
  obtain resp db' where r: "refill_due_subscriptions sample_time (Some ?t) subs_db = Some (resp, db')"
    "\<And>user. balance_for user db' = balance_for user subs_db +
       (case active_subscription_for user subs_db of
          None \<Rightarrow> 0
        | Some s \<Rightarrow> if sub_end s \<le> ?t
            then of_nat (missed_periods ?t (sub_end s)) *
                 pl_credits (get_plan (if subscription_is_edu_pro_trial s then STARTER else sub_plan s))
            else 0)"
    using refill_due_catches_up [OF subs_db_inv facts(5), of sample_time sample_time] by blast
  have "balance_for 1 db' = 6000" "balance_for 2 db' = 6000"
    using r(2) [of 1] r(2) [of 2] facts(1-4) by (auto split: option.splits)
  with r(1) show ?thesis by blast
qed

text \<open>
  C24. An upgrade from Starter to Pro inside the period pays more than nothing and at most the difference
  of the monthly credits: that difference times the days left over the days of the period, each started
  day counted, rounded half up to the cent. The row keeps its period and is refilled as Pro from the
  next one.
\<close>

theorem upgrade_pays_prorated_difference:
  assumes "subs_inv db" "ledger_scaled db" "active_subscription_for user db = Some s" "valid_datetime now"
    and "sub_start s \<le> now"
    and "upgrade_starter_to_pro_with_proration now s db = (Returned answer, db')"
  shows "\<exists>amount. 0 < amount \<and> amount \<le> 8000 \<and>
    amount = quantize_half_up 2 (8000 * of_int (ceil_days (dt_minus (sub_end s) now)) /
                                 of_int (ceil_days (dt_minus (sub_end s) (sub_start s)))) \<and>
    balance_for user db' = balance_for user db + amount \<and>
    map_option po_amount (sr_proration answer) = Some (fmt 2 amount) \<and>
    sr_plan answer = PRO \<and> sr_end answer = Some (sub_end s)"
proof -
  have row: "s \<in> set (db_subs db)" "sub_user s = user" "is_active s" using active_SomeD [OF assms(3)] by simp_all
  have ok: "sub_ok s" using subs_invD(3) [OF assms(1) row(1,3)] .
  show ?thesis
  proof (rule upgrade_result [OF assms(1) row(1,3) assms(4)])
    fix t :: string and st :: int
    assume "upgrade_starter_to_pro_with_proration now s db = (problem_response t st, db)"
    with assms(6) show ?thesis by simp
  next
    fix total remaining amount s' db''
    assume u: "total = ceil_days (dt_minus (sub_end s) (sub_start s))" "remaining = ceil_days (dt_minus (sub_end s) now)"
      "0 < total" "0 < remaining" "amount = proration_amount 8000 remaining total" "0 < amount"
      "upgrade_starter_to_pro_with_proration now s db = (Returned (subscription_response_of s'
         (Some \<lparr>po_from = STARTER, po_to = PRO, po_amount = fmt 2 amount, po_currency = ''CNY'',
                po_remaining = remaining, po_total = total\<rparr>)), db'')"
      "s' = s\<lparr>sub_plan := PRO, sub_updated := now\<rparr>" "sub_frame db db''" "sub_plan s = STARTER \<Longrightarrow> keeps_subs db db''"
      "\<forall>u. user_total u db'' = user_total u db + (if u = sub_user s then amount else 0)"
    have "to_us (sub_start s) \<le> to_us now"
      using assms(5) to_us_le_iff [of "sub_start s" now] assms(4) ok by (simp add: sub_ok_def)
    then have "remaining \<le> total" unfolding u(1,2) by (intro ceil_days_mono) (simp add: dt_minus_def)
    then have "8000 * of_int remaining / of_int total \<le> (8000::rat)"
      using u(3) by (simp add: divide_le_eq)
    moreover have "has_scale 2 (8000::rat)" by (rule has_scaleI [where n = 800000]) simp
    ultimately have le: "amount \<le> 8000"
      unfolding u(5) proration_amount_def quantize_half_up_def
      using u(3,4) by (intro half_up.quantize_le) simp_all
    have db'': "db'' = db'" and answer: "answer = subscription_response_of s'
         (Some \<lparr>po_from = STARTER, po_to = PRO, po_amount = fmt 2 amount, po_currency = ''CNY'',
                po_remaining = remaining, po_total = total\<rparr>)" using u(7) assms(6) by simp_all
    have scaled: "ledger_scaled db'"
      using u(9) assms(2) by (auto simp: sub_frame_def ledger_scaled_def list_all_iff db'' [symmetric])
    have "balance_for user db' = balance_for user db + amount"
      using u(11) row(2) by (simp add: balance_user_total assms(2) scaled db'')
    with u(1,2,5,6,8) le show ?thesis
      by (intro exI [of _ amount]) (simp add: answer subscription_response_of_def Let_def proration_amount_def)
  qed
qed

theorem upgrade_pays_prorated_difference_witness:
  "map_option po_amount (case fst (upgrade_starter_to_pro_with_proration (DateTime 2026 2 14 0)
       (hd (db_subs subs_db)) subs_db) of Returned r \<Rightarrow> sr_proration r | _ \<Rightarrow> None) = Some ''4000.00''"
proof -
  let ?s = "hd (db_subs subs_db)" and ?now = "DateTime 2026 2 14 0"
  let ?out = "upgrade_starter_to_pro_with_proration ?now ?s subs_db"
  have facts: "active_subscription_for 1 subs_db = Some ?s" "valid_datetime ?now" "sub_start ?s \<le> ?now"
    "is_returned (fst ?out)"
    "fmt 2 (quantize_half_up 2 (8000 * of_int (ceil_days (dt_minus (sub_end ?s) ?now)) /
        of_int (ceil_days (dt_minus (sub_end ?s) (sub_start ?s))))) = ''4000.00''"
    by code_simp+
  obtain answer db' where out: "?out = (Returned answer, db')"
    using facts(4) by (metis is_returned.elims(2) prod.collapse)
  show ?thesis
    using upgrade_pays_prorated_difference [OF subs_db_inv facts(1-3) out] facts(5) by (auto simp: out)
qed

text \<open>
  The first subscription of a user, on an unused key, starts a period of one calendar month, credits
  the plan's monthly credits once and answers with the new row; while the key lives the same request
  reads that answer back and writes nothing.
\<close>

theorem subscribe_then_replay:
  assumes "validate_idempotency_key key" "idem_get key db = None" "active_subscription_for user db = None"
    and "\<not> (code = STARTER \<and> user_is_edu_tier user db)" "subs_inv db" "ledger_scaled db" "valid_datetime now"
    and later: "now' < dt_plus now (hours (saga_idempotency_ttl_hours cfg))"
  shows "\<exists>answer db'. create_subscription cfg now code user key db = (Returned answer, db') \<and>
    sr_plan answer = code \<and> sr_status answer = ''active'' \<and>
    sr_start answer = Some now \<and> sr_end answer = Some (add_one_calendar_month now) \<and>
    balance_for user db' = balance_for user db + pl_credits (get_plan code) \<and>
    create_subscription cfg now' code user key db' = (Returned answer, db')"
proof -
  obtain s db1 where f: "first_subscription now code user db = (Returned (subscription_response_of s None), db1)"
    "keeps_subs db db1" "pays db db1 (refills_of s [now])" "sub_user s = user" "sub_plan s = code" "is_active s"
    "sub_start s = now" "sub_end s = add_one_calendar_month now"
    by (rule first_subscription_result [OF assms(5,3,7), of code])
  define answer where "answer = subscription_response_of s None"
  define db' where "db' = upsert_subscription_idempotency_row cfg now key user code answer db1"
  have none1: "idem_get key db1 = None"
    using pays_frame [OF f(3)] assms(2) by (simp add: sub_frame_def idem_get_def)
  have first: "create_subscription cfg now code user key db = (Returned answer, db')"
    using assms(1-4) f(1)
    by (auto simp: create_subscription_def subscription_replay_response_if_cached_def replay_if_cached_def
        idempotency_row_by_key_def then_store_def answer_def db'_def)
  have row: "idem_get key db' = Some \<lparr>ik_key = key, ik_user = user, ik_hash = subscription_request_hash cfg code,
      ik_response = Some (subscription_response_json answer), ik_saga = None,
      ik_expires = dt_plus now (hours (saga_idempotency_ttl_hours cfg)), ik_created = now\<rparr>"
    using none1
    by (simp add: db'_def upsert_subscription_idempotency_row_def upsert_idempotency_row_def idempotency_row_by_key_def
        idem_rows.get_add)
  have "answer_ok answer" using f(6) by (simp add: answer_def subscription_answer_ok)
  then have again: "create_subscription cfg now' code user key db' = (Returned answer, db')"
    using row later [unfolded not_le [symmetric]] assms(1)
    by (simp add: create_subscription_def subscription_replay_response_if_cached_def replay_if_cached_def
        idempotency_row_by_key_def subscription_response_roundtrip)
  have led: "db_ledger db' = db_ledger db1" by (simp add: db'_def upsert_subscription_idempotency_row_def)
  have scaled: "ledger_scaled db'"
    using pays_frame [OF f(3)] assms(6) led by (auto simp: sub_frame_def ledger_scaled_def list_all_iff)
  have "user_total user db' = user_total user db + pl_credits (get_plan code)"
    using pays_total [OF f(3), of user] f(4,5) unfolding refills_total totals_cong(2) [OF led] by simp
  then have "balance_for user db' = balance_for user db + pl_credits (get_plan code)"
    by (simp add: balance_user_total scaled assms(6))
  with first again show ?thesis
    using f(5-8)
    by (intro exI [of _ answer] exI [of _ db']) (simp add: answer_def subscription_response_of_def Let_def is_active_def)
qed

theorem subscribe_then_replay_witness:
  "\<exists>answer db'. create_subscription sample_cfg sample_time PRO 7 ''0a0b0c0d-0000-4000-8000-00000000000a'' subs_db = (Returned answer, db') \<and>
     balance_for 7 db' = 10000 \<and>
     create_subscription sample_cfg sample_time PRO 7 ''0a0b0c0d-0000-4000-8000-00000000000a'' db' = (Returned answer, db')"
proof -
  have facts: "validate_idempotency_key ''0a0b0c0d-0000-4000-8000-00000000000a''"
    "idem_get ''0a0b0c0d-0000-4000-8000-00000000000a'' subs_db = None" "active_subscription_for 7 subs_db = None"
    "valid_datetime sample_time" "sample_time < dt_plus sample_time (hours (saga_idempotency_ttl_hours sample_cfg))"
    "balance_for 7 subs_db = 0"
    by code_simp+
  show ?thesis
    using subscribe_then_replay [OF facts(1-3) _ subs_db_inv facts(4,5), of PRO] facts(6) by auto
qed

text \<open>A user who used the trial is not given another one, whatever key the request carries.\<close>

lemma edu_trial_used_pays_nothing:
  assumes "subs_inv db" "active_subscription_for user db = Some s" "subscription_trial_used s"
  shows "db_ledger (snd (activate_edu_pro_trial_subscription cfg now raw user key db)) = db_ledger db"
    and "db_subs (snd (activate_edu_pro_trial_subscription cfg now raw user key db)) = db_subs db"
proof -
  have same: "snd (activate_or_return_edu_pro_trial now user db) = db"
    using assms(2,3) by (auto simp: activate_or_return_edu_pro_trial_def Let_def)
  have store: "db_ledger (snd (then_store (activate_or_return_edu_pro_trial now user db) db
        (upsert_edu_pro_trial_idempotency_row cfg now key user))) = db_ledger db"
      "db_subs (snd (then_store (activate_or_return_edu_pro_trial now user db) db
        (upsert_edu_pro_trial_idempotency_row cfg now key user))) = db_subs db"
    using same by (cases "activate_or_return_edu_pro_trial now user db"; cases "fst (activate_or_return_edu_pro_trial now user db)";
        auto simp: then_store_def upsert_edu_pro_trial_idempotency_row_def)+
  have replay: "db_ledger (snd out) = db_ledger db" "db_subs (snd out) = db_subs db"
    if "replay_if_cached now h accepted user key db = Some out" for h accepted out
    using that by (auto simp: replay_if_cached_def Let_def split: option.splits if_splits)
  show "db_ledger (snd (activate_edu_pro_trial_subscription cfg now raw user key db)) = db_ledger db"
    "db_subs (snd (activate_edu_pro_trial_subscription cfg now raw user key db)) = db_subs db"
    using store replay
    by (auto simp: activate_edu_pro_trial_subscription_def edu_pro_trial_replay_response_if_cached_def
        simp del: not_None_eq split: option.split)
qed

end
