(* ===== verification/Reconciler.thy ===== *)
theory Reconciler
  imports ChargeProperties
begin

text \<open>
  The daily reconciliation (apps/billing-service/src/billing_service/reconciler.py): a read-only scan of
  the finished sagas of a window that compares what a saga's ledger rows sum to with what its final
  state allows.
\<close>

datatype drift_severity = DRIFT_OK | DRIFT_MINOR | DRIFT_MAJOR

definition DRIFT_OK_THRESHOLD :: rat where "DRIFT_OK_THRESHOLD = 1/100"
definition DRIFT_MAJOR_THRESHOLD :: rat where "DRIFT_MAJOR_THRESHOLD = 1"

definition RECONCILED_STATES :: "string list" where
  "RECONCILED_STATES = [''completed'', ''failed'', ''refunded'', ''rolled_back'']"

record reconciliation_result =
  fd_saga :: nat
  fd_user :: nat
  fd_type :: string
  fd_state :: string
  fd_reserved :: rat
  fd_low :: rat
  fd_high :: rat
  fd_actual :: rat
  fd_drift :: rat
  fd_severity :: drift_severity

record reconciliation_report =
  rp_start :: datetime
  rp_end :: datetime
  rp_examined :: nat
  rp_diffs :: nat
  rp_magnitude :: rat
  rp_results :: "reconciliation_result list"

definition classify_drift :: "rat \<Rightarrow> drift_severity" where
  "classify_drift drift =
     (let abs_drift = \<bar>drift\<bar> in
      if abs_drift < DRIFT_OK_THRESHOLD then DRIFT_OK
      else if abs_drift < DRIFT_MAJOR_THRESHOLD then DRIFT_MINOR else DRIFT_MAJOR)"

text \<open>\<open>None\<close> is the ValueError of a state that is not final.\<close>

definition expected_bounds :: "settings \<Rightarrow> string \<Rightarrow> rat \<Rightarrow> string \<Rightarrow> (rat \<times> rat) option" where
  "expected_bounds cfg state a saga_type =
     (if saga_type = ''topup'' then
        (if state = ''completed'' then Some (a, a)
         else if state \<in> {''failed'', ''refunded'', ''rolled_back''} then Some (0, 0)
         else None)
      else if state = ''failed'' then Some (0, 0)
      else if state = ''refunded'' then Some (0, 0)
      else if state = ''rolled_back'' then Some (0, 0)
      else if state \<in> {''charged'', ''completed''} then Some (- a, - charge_min_amount cfg)
      else None)"

definition drift_relative_to_bounds :: "rat \<Rightarrow> rat \<Rightarrow> rat \<Rightarrow> rat" where
  "drift_relative_to_bounds actual lo hi =
     (if lo \<le> actual \<and> actual \<le> hi then 0 else if actual < lo then actual - lo else actual - hi)"

text \<open>The body of the loop: \<open>None\<close> is the ValueError, \<open>Some None\<close> a saga with nothing to report.\<close>

definition reconcile_saga ::
  "settings \<Rightarrow> billing_db \<Rightarrow> saga_instance \<Rightarrow> reconciliation_result option option" where
  "reconcile_saga cfg db saga =
     (case sg_amount saga of
        None \<Rightarrow> Some None
      | Some amount \<Rightarrow>
          (let actual_sum = saga_sum (sg_id saga) db in
           case expected_bounds cfg (sg_state saga) amount (sg_type saga) of
             None \<Rightarrow> None
           | Some (lo, hi) \<Rightarrow>
               (let drift = drift_relative_to_bounds actual_sum lo hi; severity = classify_drift drift in
                Some (if severity \<noteq> DRIFT_OK
                      then Some \<lparr>fd_saga = sg_id saga, fd_user = sg_user saga, fd_type = sg_type saga,
                                 fd_state = sg_state saga, fd_reserved = amount, fd_low = lo, fd_high = hi,
                                 fd_actual = actual_sum, fd_drift = drift, fd_severity = severity\<rparr>
                      else None))))"

fun reconcile_each :: "settings \<Rightarrow> billing_db \<Rightarrow> saga_instance list \<Rightarrow> reconciliation_result list option" where
  "reconcile_each cfg db [] = Some []"
| "reconcile_each cfg db (saga # sagas) =
     (case reconcile_saga cfg db saga of
        None \<Rightarrow> None
      | Some found \<Rightarrow>
          map_option (\<lambda>results. (case found of None \<Rightarrow> results | Some r \<Rightarrow> r # results)) (reconcile_each cfg db sagas))"

definition reconciled_sagas :: "datetime \<Rightarrow> datetime \<Rightarrow> billing_db \<Rightarrow> saga_instance list" where
  "reconciled_sagas window_start window_end db =
     sort_key sg_updated
       (filter (\<lambda>s. sg_state s \<in> set RECONCILED_STATES \<and> window_start \<le> sg_updated s \<and> sg_updated s < window_end)
          (db_sagas db))"

definition reconcile_window ::
  "settings \<Rightarrow> datetime \<Rightarrow> datetime \<Rightarrow> billing_db \<Rightarrow> reconciliation_report option" where
  "reconcile_window cfg window_start window_end db =
     (let sagas = reconciled_sagas window_start window_end db in
      map_option (\<lambda>results.
        \<lparr>rp_start = window_start, rp_end = window_end, rp_examined = length sagas, rp_diffs = length results,
         rp_magnitude = sum_list (map (\<lambda>r. \<bar>fd_drift r\<bar>) results), rp_results = results\<rparr>)
        (reconcile_each cfg db sagas))"

section \<open>What the report says\<close>

lemma classify_drift_iff:
  "classify_drift d = DRIFT_OK \<longleftrightarrow> \<bar>d\<bar> < 1/100" "classify_drift d = DRIFT_MAJOR \<longleftrightarrow> 1 \<le> \<bar>d\<bar>"
  by (auto simp: classify_drift_def Let_def DRIFT_OK_THRESHOLD_def DRIFT_MAJOR_THRESHOLD_def)

lemma expected_bounds_final:
  "state \<in> set RECONCILED_STATES \<Longrightarrow> \<exists>lo hi. expected_bounds cfg state a ty = Some (lo, hi)"
  by (auto simp: RECONCILED_STATES_def expected_bounds_def)

lemma reconcile_saga_final:
  assumes "sg_state s \<in> set RECONCILED_STATES"
  obtains r where "reconcile_saga cfg db s = Some r"
  using expected_bounds_final [OF assms] by (fastforce simp: reconcile_saga_def Let_def split: option.splits)

text \<open>The results are the findings of the sagas one by one.\<close>

lemma reconcile_each_final:
  assumes "\<And>s. s \<in> set sagas \<Longrightarrow> sg_state s \<in> set RECONCILED_STATES"
  shows "reconcile_each cfg db sagas = Some (List.map_filter (\<lambda>s. the (reconcile_saga cfg db s)) sagas)"
  using assms
proof (induction sagas)
  case (Cons s sagas)
  obtain r where "reconcile_saga cfg db s = Some r"
    using reconcile_saga_final [of s cfg db] Cons.prems by auto
  with Cons show ?case by (simp add: map_filter_simps split: option.split)
qed (simp add: map_filter_simps)

lemma reconciled_sagas_set:
  "set (reconciled_sagas a b db) =
     {s \<in> set (db_sagas db). sg_state s \<in> set RECONCILED_STATES \<and> a \<le> sg_updated s \<and> sg_updated s < b}"
  by (auto simp: reconciled_sagas_def)

lemma reconcile_window_report:
  "reconcile_window cfg a b db = Some
     (let results = List.map_filter (\<lambda>s. the (reconcile_saga cfg db s)) (reconciled_sagas a b db) in
      \<lparr>rp_start = a, rp_end = b, rp_examined = length (reconciled_sagas a b db), rp_diffs = length results,
       rp_magnitude = sum_list (map (\<lambda>r. \<bar>fd_drift r\<bar>) results), rp_results = results\<rparr>)"
  using reconcile_each_final [of "reconciled_sagas a b db" cfg db] reconciled_sagas_set [of a b db]
  by (simp add: reconcile_window_def Let_def)

text \<open>
  C25. The report misses nothing: a finished saga of the window with an amount is reported exactly when
  its rows sum to a value a cent or more outside the bounds of its state, and as major from one unit on.
\<close>

theorem reconcile_reports_exactly_the_drifts:
  assumes distinct: "distinct (map sg_id (db_sagas db))"
    and saga: "saga \<in> set (db_sagas db)" "sg_state saga \<in> set RECONCILED_STATES"
    "window_start \<le> sg_updated saga" "sg_updated saga < window_end" "sg_amount saga = Some amount"
    and bounds: "expected_bounds cfg (sg_state saga) amount (sg_type saga) = Some (lo, hi)" "lo \<le> hi"
    and report: "reconcile_window cfg window_start window_end db = Some report"
  shows "((\<exists>r\<in>set (rp_results report). fd_saga r = sg_id saga) \<longleftrightarrow>
      saga_sum (sg_id saga) db \<le> lo - 1/100 \<or> hi + 1/100 \<le> saga_sum (sg_id saga) db) \<and>
    (\<forall>r\<in>set (rp_results report). fd_saga r = sg_id saga \<longrightarrow>
      fd_actual r = saga_sum (sg_id saga) db \<and>
      (fd_severity r = DRIFT_MAJOR \<longleftrightarrow>
       saga_sum (sg_id saga) db \<le> lo - 1 \<or> hi + 1 \<le> saga_sum (sg_id saga) db))"
proof -
  let ?sum = "saga_sum (sg_id saga) db"
  let ?drift = "drift_relative_to_bounds ?sum lo hi"
  have results: "r \<in> set (rp_results report) \<longleftrightarrow>
      (\<exists>s\<in>set (reconciled_sagas window_start window_end db). reconcile_saga cfg db s = Some (Some r))" for r
  proof -
    have "the (reconcile_saga cfg db s) = Some r \<longleftrightarrow> reconcile_saga cfg db s = Some (Some r)"
      if "s \<in> set (reconciled_sagas window_start window_end db)" for s
      using that by (auto simp: reconciled_sagas_set elim: reconcile_saga_final [of s cfg db])
    moreover have "set (rp_results report) =
        set (List.map_filter (\<lambda>s. the (reconcile_saga cfg db s)) (reconciled_sagas window_start window_end db))"
      using report by (auto simp: reconcile_window_report Let_def)
    ultimately show ?thesis by (auto simp: map_filter_def image_iff)
  qed
  have same: "s = saga" if "s \<in> set (db_sagas db)" "sg_id s = sg_id saga" for s
    using distinct saga(1) that by (auto simp: distinct_map dest: inj_onD)
  have here: "saga \<in> set (reconciled_sagas window_start window_end db)"
    using saga by (simp add: reconciled_sagas_set)
  have finding: "reconcile_saga cfg db saga = Some (if classify_drift ?drift \<noteq> DRIFT_OK
      then Some \<lparr>fd_saga = sg_id saga, fd_user = sg_user saga, fd_type = sg_type saga, fd_state = sg_state saga,
        fd_reserved = amount, fd_low = lo, fd_high = hi, fd_actual = ?sum, fd_drift = ?drift,
        fd_severity = classify_drift ?drift\<rparr> else None)"
    using saga(5) bounds(1) by (simp add: reconcile_saga_def Let_def)
  have id_of: "fd_saga r = sg_id s" if "reconcile_saga cfg db s = Some (Some r)" for s r
    using that by (auto simp: reconcile_saga_def Let_def split: option.splits if_splits prod.splits)
  have mine: "r \<in> set (rp_results report) \<and> fd_saga r = sg_id saga \<longleftrightarrow> reconcile_saga cfg db saga = Some (Some r)" for r
  proof
    assume "r \<in> set (rp_results report) \<and> fd_saga r = sg_id saga"
    then obtain s where "s \<in> set (db_sagas db)" "reconcile_saga cfg db s = Some (Some r)" "sg_id s = sg_id saga"
      using results [of r] id_of by (auto simp: reconciled_sagas_set)
    with same show "reconcile_saga cfg db saga = Some (Some r)" by metis
  qed (use results [of r] here id_of in blast)
  have drift: "\<bar>?drift\<bar> < c \<longleftrightarrow> \<not> (?sum \<le> lo - c \<or> hi + c \<le> ?sum)" if "0 < c" for c
    using bounds(2) that by (auto simp: drift_relative_to_bounds_def)
  have out: "classify_drift ?drift \<noteq> DRIFT_OK \<longleftrightarrow> ?sum \<le> lo - 1/100 \<or> hi + 1/100 \<le> ?sum"
    "classify_drift ?drift = DRIFT_MAJOR \<longleftrightarrow> ?sum \<le> lo - 1 \<or> hi + 1 \<le> ?sum"
    using drift [of "1/100"] drift [of 1] by (auto simp: classify_drift_iff not_less [symmetric])
  have "(\<exists>r\<in>set (rp_results report). fd_saga r = sg_id saga) \<longleftrightarrow> (\<exists>r. reconcile_saga cfg db saga = Some (Some r))"
    using mine by blast
  moreover have "fd_actual r = ?sum \<and> (fd_severity r = DRIFT_MAJOR \<longleftrightarrow> ?sum \<le> lo - 1 \<or> hi + 1 \<le> ?sum)"
    if "reconcile_saga cfg db saga = Some (Some r)" for r
    using that finding out(2) by (auto split: if_splits)
  ultimately show ?thesis using finding out(1) mine by auto
qed

text \<open>A refunded charge whose compensating row is missing: the user is six units too rich.\<close>

definition drifted_db :: billing_db where
  "drifted_db = money_db REFUNDED [charge_row 6 ''refund'']"

theorem reconcile_reports_exactly_the_drifts_witness:
  "\<exists>report. reconcile_window sample_cfg sample_time (dt_plus sample_time 1) drifted_db = Some report \<and>
     (\<exists>r\<in>set (rp_results report). fd_saga r = 7 \<and> fd_severity r = DRIFT_MAJOR)"
proof -
  let ?s = "hd (db_sagas drifted_db)" and ?b = "dt_plus sample_time 1"
  have facts: "distinct (map sg_id (db_sagas drifted_db))" "?s \<in> set (db_sagas drifted_db)"
    "sg_state ?s \<in> set RECONCILED_STATES" "sample_time \<le> sg_updated ?s" "sg_updated ?s < ?b" "sg_amount ?s = Some 6"
    "expected_bounds sample_cfg (sg_state ?s) 6 (sg_type ?s) = Some (0, 0)" "saga_sum (sg_id ?s) drifted_db = 6" "sg_id ?s = 7"
    by code_simp+
  obtain report where r: "reconcile_window sample_cfg sample_time ?b drifted_db = Some report"
    by (simp add: reconcile_window_report)
  show ?thesis
    using reconcile_reports_exactly_the_drifts [OF facts(1-7) _ r] r facts(8,9) by fastforce
qed

text \<open>In a database whose money is right no finished saga has drifted, and the scan does not fail.\<close>

lemma no_drift:
  assumes "money_inv db" "distinct (map sg_id (db_sagas db))"
  shows "\<exists>report. reconcile_window cfg window_start window_end db = Some report \<and>
    rp_diffs report = 0 \<and> rp_magnitude report = 0"
proof -
  have "reconcile_saga cfg db s = Some None"
    if s: "s \<in> set (reconciled_sagas window_start window_end db)" for s
  proof -
    have mem: "s \<in> set (db_sagas db)" and st: "sg_state s \<in> set RECONCILED_STATES" using s by (auto simp: reconciled_sagas_set)
    have "saga_get (sg_id s) db = Some s"
      unfolding saga_get_def using assms(2) mem by (rule row_get_in_set)
    then have ok: "money_ok s db" by (rule money_invD(1) [OF assms(1)])
    show ?thesis
    proof (cases "sg_amount s")
      case (Some a)
      have "expected_bounds cfg (sg_state s) a (sg_type s) = Some (saga_sum (sg_id s) db, saga_sum (sg_id s) db)"
        using ok st Some
        by (auto simp: money_ok_def RECONCILED_STATES_def expected_bounds_def reserved_amount_def saga_sum_rows
            split: if_splits)
      with Some show ?thesis
        by (simp add: reconcile_saga_def Let_def drift_relative_to_bounds_def classify_drift_iff)
    qed (simp add: reconcile_saga_def)
  qed
  then have "List.map_filter (\<lambda>s. the (reconcile_saga cfg db s)) (reconciled_sagas window_start window_end db) = []"
    by (auto simp: map_filter_def filter_empty_conv)
  then show ?thesis by (simp add: reconcile_window_report Let_def)
qed

text \<open>
  In a database whose money is right the report is empty: of the finished sagas of any window none
  has drifted, and the scan does not fail.
\<close>

theorem reconcile_finds_nothing:
  assumes "money_inv db" "distinct (map sg_id (db_sagas db))"
  shows "\<exists>report. reconcile_window cfg window_start window_end db = Some report \<and>
    rp_diffs report = 0 \<and> rp_magnitude report = 0"
  using assms by (rule no_drift)

text \<open>A charge that was rolled back after a partial refund.\<close>

definition rolled_back_db :: billing_db where
  "rolled_back_db = money_db ROLLED_BACK
     [charge_row (-6) ''charge'', charge_row (24/5) ''refund_partial'', charge_row 6 ''refund'', charge_row (-24/5) ''refund_reversal'']"

lemma rolled_back_db_inv: "money_inv rolled_back_db"
  by (auto simp: rolled_back_db_def money_inv_def money_db_def sample_db_def sagas_scaled_def ledger_scaled_def idem_linked_def
      saga_get_def idem_get_def row_get_Cons empty_db_def sample_saga_def sample_key_def amount_scaled_def
      reserved_amount_def money_ok_def ledger_rows_for_saga_def seed_row_def saga_sum_def
      ledger_sum_def sum_where_Cons charge_row_def has_scale_def split: if_splits
      intro: exI [of _ "500000::int"] exI [of _ "-60000::int"] exI [of _ "48000::int"] exI [of _ "-48000::int"])

theorem reconcile_finds_nothing_witness:
  "\<exists>report. reconcile_window sample_cfg sample_time (dt_plus sample_time 1) rolled_back_db = Some report \<and> rp_diffs report = 0"
proof -
  have "distinct (map sg_id (db_sagas rolled_back_db))" by code_simp
  from reconcile_finds_nothing [OF rolled_back_db_inv this] show ?thesis by blast
qed

end
