(* ===== verification/BillingSystem.thy ===== *)
theory BillingSystem
  imports RequestFrame SubscriptionProperties Reconciler
begin

text \<open>
  The billing service as a whole: any interleaving of its requests, each in a transaction of its own, with
  the writes of the auth service to the tables it owns and the credit row of an education signup it inserts
  into the ledger, from an empty database. \<open>reachable\<close> are the
  databases that can arise; the properties say what holds in every one of them and from one to any later.
\<close>

section \<open>Requests and runs\<close>

datatype subscription_request =
    Subscribe plan_code nat string
  | ActivateTrial string nat string
  | SyncEduStarter json
  | RefillDue "datetime option"

datatype request = Money money_request | Subscription subscription_request

fun handle_subscription :: "settings \<Rightarrow> datetime \<Rightarrow> subscription_request \<Rightarrow> billing_db \<Rightarrow> billing_db option" where
  "handle_subscription cfg now (Subscribe code user key) db = Some (snd (create_subscription cfg now code user key db))"
| "handle_subscription cfg now (ActivateTrial raw user key) db =
     Some (snd (activate_edu_pro_trial_subscription cfg now raw user key db))"
| "handle_subscription cfg now (SyncEduStarter user) db = Some (snd (sync_edu_starter_subscription now user db))"
| "handle_subscription cfg now (RefillDue as_of) db = map_option snd (refill_due_subscriptions now as_of db)"

text \<open>\<open>None\<close> is a request that does not return.\<close>

fun handle :: "settings \<Rightarrow> datetime \<Rightarrow> request \<Rightarrow> billing_db \<Rightarrow> billing_db option" where
  "handle cfg now (Money r) db = Some (handle_money cfg now r db)"
| "handle cfg now (Subscription r) db = handle_subscription cfg now r db"

fun request_ok :: "request \<Rightarrow> bool" where
  "request_ok (Money r) = money_request_ok r"
| "request_ok (Subscription (RefillDue (Some as_of))) = valid_datetime as_of"
| "request_ok (Subscription _) = True"

inductive served :: "settings \<Rightarrow> billing_db \<Rightarrow> billing_db \<Rightarrow> bool" for cfg where
  request: "valid_datetime now \<Longrightarrow> request_ok r \<Longrightarrow> handle cfg now r db = Some db' \<Longrightarrow> served cfg db db'"
| auth: "served cfg db (db\<lparr>db_users := users, db_prefs := prefs\<rparr>)"
| seed: "served cfg db (add_credit user None amount ''topup'' ''edu'' [(''source'', JStr ''edu_tier_signup'')] now db)"

definition serves :: "settings \<Rightarrow> billing_db \<Rightarrow> billing_db \<Rightarrow> bool" where
  "serves cfg = (served cfg)\<^sup>*\<^sup>*"

definition reachable :: "settings \<Rightarrow> billing_db \<Rightarrow> bool" where
  "reachable cfg db \<longleftrightarrow> serves cfg empty_db db"

section \<open>Four relations the writes respect\<close>

definition ledger_grows :: "billing_db \<Rightarrow> billing_db \<Rightarrow> bool" where
  "ledger_grows db db' \<longleftrightarrow> (\<exists>rows. db_ledger db' = db_ledger db @ rows)"

definition sagas_move :: "billing_db \<Rightarrow> billing_db \<Rightarrow> bool" where
  "sagas_move db db' \<longleftrightarrow>
     (\<forall>i s. saga_get i db = Some s \<longrightarrow>
        (\<exists>st t. saga_get i db' = Some (s\<lparr>sg_state := st, sg_updated := t\<rparr>) \<and> saga_move\<^sup>*\<^sup>* (sg_state s) st))"

definition ids_ok :: "billing_db \<Rightarrow> bool" where
  "ids_ok db \<longleftrightarrow> distinct (map sg_id (db_sagas db)) \<and> (\<forall>s\<in>set (db_sagas db). sg_id s < db_next_id db)"

definition ids_kept :: "billing_db \<Rightarrow> billing_db \<Rightarrow> bool" where
  "ids_kept db db' \<longleftrightarrow> (ids_ok db \<longrightarrow> ids_ok db')"

definition subs_same :: "billing_db \<Rightarrow> billing_db \<Rightarrow> bool" where
  "subs_same db db' \<longleftrightarrow> db_subs db' = db_subs db \<and> db_next_id db \<le> db_next_id db'"

interpretation ledger: request_order ledger_grows
proof
  show "ledger_grows db db''" if "ledger_grows db db'" "ledger_grows db' db''" for db db' db''
    using that by (auto simp: ledger_grows_def)
qed (simp_all add: ledger_grows_def add_credit_def)

interpretation subs: request_order subs_same
  by unfold_locales (simp_all add: subs_same_def add_credit_def saga_put_def saga_add_def)

interpretation ids: request_order ids_kept
proof
  show "ids_kept db (saga_put (s\<lparr>sg_state := st, sg_updated := now\<rparr>) db)" if "saga_get i db = Some s"
    for i db s st now
    using that saga_get_in [OF that]
    by (auto simp: ids_kept_def ids_ok_def saga_put_def keys_put dest: in_set_put)
  show "ids_kept db (saga_add s (db\<lparr>db_next_id := Suc (db_next_id db)\<rparr>))" if "sg_id s = db_next_id db" for s db
    using that by (auto simp: ids_kept_def ids_ok_def saga_add_def)
qed (auto simp: ids_kept_def ids_ok_def)

lemma saga_get_add:
  "saga_get i db = Some s \<Longrightarrow> saga_get i (saga_add x (db\<lparr>db_next_id := n\<rparr>)) = Some s"
  by (simp add: saga_get_def saga_add_def row_get_append)

lemma same_sagas_move:
  assumes "db_sagas db' = db_sagas db"
  shows "sagas_move db db'"
  unfolding sagas_move_def saga_get_cong [OF assms]
proof (intro allI impI)
  fix i s assume "saga_get i db = Some s"
  then show "\<exists>st t. saga_get i db = Some (s\<lparr>sg_state := st, sg_updated := t\<rparr>) \<and> saga_move\<^sup>*\<^sup>* (sg_state s) st"
    by (intro exI [of _ "sg_state s"] exI [of _ "sg_updated s"]) simp
qed

interpretation moves: request_order sagas_move
proof
  fix db db' db'' :: billing_db assume a: "sagas_move db db'" "sagas_move db' db''"
  show "sagas_move db db''"
    unfolding sagas_move_def
  proof (intro allI impI)
    fix i s assume "saga_get i db = Some s"
    with a(1) obtain st t where s: "saga_get i db' = Some (s\<lparr>sg_state := st, sg_updated := t\<rparr>)" "saga_move\<^sup>*\<^sup>* (sg_state s) st"
      unfolding sagas_move_def by blast
    from a(2) s(1) obtain st' t' where s': "saga_get i db'' = Some (s\<lparr>sg_state := st, sg_updated := t\<rparr>\<lparr>sg_state := st', sg_updated := t'\<rparr>)"
        "saga_move\<^sup>*\<^sup>* st st'"
      unfolding sagas_move_def by fastforce
    from s(2) s'(2) have "saga_move\<^sup>*\<^sup>* (sg_state s) st'" by (rule rtranclp_trans)
    with s'(1) show "\<exists>st t. saga_get i db'' = Some (s\<lparr>sg_state := st, sg_updated := t\<rparr>) \<and> saga_move\<^sup>*\<^sup>* (sg_state s) st"
      by (intro exI [of _ st'] exI [of _ t']) simp
  qed
next
  fix db db' :: billing_db assume "db_sagas db' = db_sagas db"
  then show "sagas_move db db'" by (rule same_sagas_move)
next
  fix i st now and s :: saga_instance and db :: billing_db assume s: "saga_get i db = Some s" "saga_move (sg_state s) st"
  have id: "sg_id s = i" using s(1) saga_rows.get_key by blast
  let ?s = "s\<lparr>sg_state := st, sg_updated := now\<rparr>"
  show "sagas_move db (saga_put ?s db)"
    unfolding sagas_move_def
  proof (intro allI impI)
    fix j x assume x: "saga_get j db = Some x"
    show "\<exists>st t. saga_get j (saga_put ?s db) = Some (x\<lparr>sg_state := st, sg_updated := t\<rparr>) \<and> saga_move\<^sup>*\<^sup>* (sg_state x) st"
    proof (cases "j = i")
      case True
      then have "saga_get j (saga_put ?s db) = Some ?s" "x = s" using s(1) x id saga_rows.get_put_same [of ?s db s] by simp_all
      with s(2) show ?thesis by (intro exI [of _ st] exI [of _ now]) auto
    next
      case False
      then have "saga_get j (saga_put ?s db) = Some x" using x id saga_rows.get_put_other [of j ?s db] by simp
      then show ?thesis by (intro exI [of _ "sg_state x"] exI [of _ "sg_updated x"]) simp
    qed
  qed
next
  fix s :: saga_instance and db :: billing_db assume "sg_id s = db_next_id db"
  show "sagas_move db (saga_add s (db\<lparr>db_next_id := Suc (db_next_id db)\<rparr>))"
    unfolding sagas_move_def
  proof (intro allI impI)
    fix i x assume "saga_get i db = Some x"
    from saga_get_add [OF this] show "\<exists>st t. saga_get i (saga_add s (db\<lparr>db_next_id := Suc (db_next_id db)\<rparr>)) =
        Some (x\<lparr>sg_state := st, sg_updated := t\<rparr>) \<and> saga_move\<^sup>*\<^sup>* (sg_state x) st"
      by (intro exI [of _ "sg_state x"] exI [of _ "sg_updated x"]) simp
  qed
qed (simp_all add: same_sagas_move)

section \<open>The invariant of the service\<close>

definition system_inv :: "billing_db \<Rightarrow> bool" where
  "system_inv db \<longleftrightarrow> money_inv db \<and> subs_inv db \<and> paid_inv db \<and> ids_ok db"

definition later :: "billing_db \<Rightarrow> billing_db \<Rightarrow> bool" where
  "later db db' \<longleftrightarrow> ledger_grows db db' \<and> sagas_move db db' \<and> trial_kept db db'"

lemma later_refl: "later db db"
  by (simp add: later_def ledger.refl moves.refl)

lemma later_trans: "later db db' \<Longrightarrow> later db' db'' \<Longrightarrow> later db db''"
  unfolding later_def by (blast intro: ledger.trans moves.trans trial_kept_trans)

lemma system_inv_empty: "system_inv empty_db"
  by (simp add: system_inv_def money_inv_empty subs_inv_def paid_inv_def ids_ok_def) (simp add: empty_db_def)

lemma request_keeps_money:
  assumes "money_inv db" "request_keeps db db'"
  shows "money_inv db'"
proof -
  obtain rows where keeps: "db_sagas db' = db_sagas db" "db_next_id db \<le> db_next_id db'" "idem_linked db \<Longrightarrow> idem_linked db'"
      "db_ledger db' = db_ledger db @ rows" "list_all (\<lambda>r. ct_saga r = None \<and> has_scale 4 (ct_amount r)) rows"
    using assms(2) by (auto simp: request_keeps_def)
  have "filter (\<lambda>r. ct_saga r = Some i) rows = []" for i
    using keeps(5) by (auto simp: list_all_iff filter_empty_conv)
  then have rows: "ledger_rows_for_saga i db' = ledger_rows_for_saga i db" for i
    by (simp add: ledger_rows_for_saga_def keeps(4))
  have totals: "kind_total k i db' = kind_total k i db" "saga_sum i db' = saga_sum i db" for k i
    using rows by (simp_all flip: kind_sum_rows add: saga_sum_rows)
  have ok: "money_ok s db' = money_ok s db" for s unfolding money_ok_def totals rows by (rule HOL.refl)
  have "ledger_scaled db \<Longrightarrow> ledger_scaled db'" using keeps(4,5) by (auto simp: ledger_scaled_def list_all_iff)
  then show ?thesis
    using assms(1) keeps(2,3) unfolding money_inv_def sagas_scaled_def saga_get_cong [OF keeps(1)] ok rows
    by auto (meson order_less_le_trans)
qed

lemma request_keeps_system:
  assumes "system_inv db" "request_keeps db db'"
  shows "system_inv db' \<and> later db db'"
proof -
  have "ids_ok db'" using assms by (fastforce simp: system_inv_def request_keeps_def ids_ok_def)
  moreover have "sagas_move db db'" using assms(2) by (simp add: request_keeps_def same_sagas_move)
  ultimately show ?thesis
    using assms request_keeps_money [of db db'] by (auto simp: system_inv_def request_keeps_def later_def ledger_grows_def paid_kept_def)
qed

lemma money_request_system:
  assumes "system_inv db" "settings_ok cfg" "money_request_ok r"
  shows "system_inv (handle_money cfg now r db) \<and> later db (handle_money cfg now r db)" (is "system_inv ?db \<and> _")
proof -
  have "subs_same db ?db" "ids_kept db ?db" "ledger_grows db ?db" "sagas_move db ?db"
    by (rule subs.handled ids.handled ledger.handled moves.handled)+
  moreover have "paid_kept db ?db"
    by (rule paid_kept_same) (use calculation in \<open>auto simp: subs_same_def ledger_grows_def\<close>)
  ultimately show ?thesis using assms
    using handle_keeps_money [of db cfg r now] subs_inv_mono [of db ?db] trial_kept_same [of ?db db]
    by (simp add: system_inv_def later_def subs_same_def ids_kept_def paid_kept_def)
qed

lemma subscription_request_returns:
  assumes "system_inv db" "valid_datetime now" "request_ok (Subscription r)"
  shows "\<exists>db'. handle_subscription cfg now r db = Some db' \<and> request_keeps db db'"
proof -
  have inv: "subs_inv db" using assms(1) by (simp add: system_inv_def)
  show ?thesis
  proof (cases r)
    case (RefillDue t)
    define as_of where "as_of = (case t of None \<Rightarrow> now | Some d \<Rightarrow> d)"
    have v: "valid_datetime as_of" using assms(2,3) by (cases t) (simp_all add: RefillDue as_of_def)
    obtain resp db' where out: "refill_due_subscriptions now t db = Some (resp, db')"
      using refill_due_result [OF v as_of_def inv] by blast
    then show ?thesis using refill_due_keeps [OF inv v as_of_def out] by (simp add: RefillDue)
  qed (use inv assms(2) create_subscription_keeps activate_pro_trial_keeps sync_edu_starter_keeps in simp_all)
qed

lemma auth_system:
  assumes "system_inv db"
  shows "system_inv (db\<lparr>db_users := users, db_prefs := prefs\<rparr>) \<and> later db (db\<lparr>db_users := users, db_prefs := prefs\<rparr>)"
proof (rule request_keeps_system [OF assms])
  let ?db = "db\<lparr>db_users := users, db_prefs := prefs\<rparr>"
  have "idem_linked ?db = idem_linked db" by (rule idem_linked_cong) simp_all
  moreover have "subs_inv ?db" by (rule subs_inv_mono [of db]) (use assms in \<open>simp_all add: system_inv_def\<close>)
  ultimately show "request_keeps db ?db" by (simp add: request_keeps_def trial_kept_same paid_kept_same)
qed

lemma seed_system:
  assumes "system_inv db"
  shows "system_inv (add_credit u None a k b m now db) \<and> later db (add_credit u None a k b m now db)"
proof (rule request_keeps_system [OF assms request_keepsI])
  let ?db = "add_credit u None a k b m now db"
  have same: "db_subs ?db = db_subs db" "set (db_ledger db) \<subseteq> set (db_ledger ?db)" "db_next_id db \<le> db_next_id ?db"
    by (auto simp: add_credit_def)
  have "subs_inv ?db" by (rule subs_inv_mono [OF _ same(1,3)]) (use assms in \<open>simp add: system_inv_def\<close>)
  then show "keeps_subs db ?db" using trial_kept_same [OF same(1)] paid_kept_same [OF same(1,2)] by (simp add: keeps_subs_def)
qed

lemma served_system:
  assumes "served cfg db db'" "settings_ok cfg" "system_inv db"
  shows "system_inv db' \<and> later db db'"
  using assms(1)
proof cases
  case (request now r)
  show ?thesis
  proof (cases r)
    case (Money m)
    then show ?thesis using request money_request_system [OF assms(3,2), of m now] by simp
  next
    case (Subscription m)
    then show ?thesis
      using request subscription_request_returns [OF assms(3), of now m cfg] request_keeps_system [OF assms(3)] by auto
  qed
qed (use auth_system [OF assms(3)] seed_system [OF assms(3)] in simp_all)

lemma serves_system:
  assumes "serves cfg db db'" "settings_ok cfg" "system_inv db"
  shows "system_inv db' \<and> later db db'"
  using assms(1) unfolding serves_def
proof (induction rule: rtranclp_induct)
  case base
  then show ?case using assms(3) later_refl by simp
next
  case (step db1 db2)
  then show ?case using served_system [OF step.hyps(2) assms(2)] later_trans by blast
qed

lemma reachable_system: "reachable cfg db \<Longrightarrow> settings_ok cfg \<Longrightarrow> system_inv db"
  using serves_system [OF _ _ system_inv_empty] by (simp add: reachable_def)

section \<open>What holds in every reachable database\<close>

lemma saga_move_from_terminal:
  assumes "saga_move a b" "a = state_value x" "is_terminal x"
  shows False
  using assms terminal_no_step by (auto simp: saga_move_def is_terminal_def TERMINAL_STATES_def)

lemma saga_moves_terminal:
  assumes "saga_move\<^sup>*\<^sup>* a b" "a = state_value x" "is_terminal x"
  shows "b = a"
  using assms by (induction rule: converse_rtranclp_induct) (auto dest: saga_move_from_terminal)

lemma active_unique:
  assumes "subs_inv db" "s \<in> set (db_subs db)" "is_active s"
  shows "active_subscription_for (sub_user s) db = Some s"
proof (cases "active_subscription_for (sub_user s) db")
  case None
  with assms(2,3) show ?thesis using active_None by fastforce
next
  case (Some t)
  have "distinct (map sub_user (filter is_active (db_subs db)))" using assms(1) by (simp add: subs_inv_def)
  moreover have "t \<in> set (filter is_active (db_subs db))" "s \<in> set (filter is_active (db_subs db))" "sub_user t = sub_user s"
    using active_SomeD [OF Some] assms(2,3) by simp_all
  ultimately have "t = s" by (metis distinct_map inj_onD)
  with Some show ?thesis by simp
qed

text \<open>The run the examples follow: user 1 asks for the pack of 100 and then pays it.\<close>

definition run_cfg :: settings where
  "run_cfg = default_settings (\<lambda>_. ''5f6c'')"

definition key_of :: "char \<Rightarrow> string" where
  "key_of c = ''0a0b0c0d-0000-4000-8000-00000000000'' @ [c]"

definition run_after :: "request list \<Rightarrow> billing_db option" where
  "run_after rs = fold (\<lambda>r db. Option.bind db (handle run_cfg sample_time r)) rs (Some empty_db)"

definition ask :: request where
  "ask = Money (CreateTopup 100 (key_of CHR ''a'') 1 (key_of CHR ''b''))"

definition pay :: request where
  "pay = Money (ConfirmTopup 0 \<lparr>tc_provider = ''stripe'', tc_payment_ref = ''pi_1''\<rparr>)"

lemma valid_sample_time: "valid_datetime sample_time"
  by code_simp

lemma run_reachable:
  assumes "list_all (\<lambda>r. request_ok r) rs" "run_after rs = Some db"
  shows "reachable run_cfg db"
  using assms
proof (induction rs arbitrary: db rule: rev_induct)
  case Nil
  then show ?case by (simp add: run_after_def reachable_def serves_def)
next
  case (snoc r rs)
  obtain db1 where db1: "run_after rs = Some db1" "handle run_cfg sample_time r db1 = Some db"
    using snoc.prems(2) by (cases "run_after rs") (auto simp: run_after_def)
  have "served run_cfg db1 db" by (rule served.request [OF _ _ db1(2)]) (use snoc.prems(1) in \<open>simp_all add: valid_sample_time\<close>)
  moreover have "reachable run_cfg db1" using snoc db1(1) by simp
  ultimately show ?case by (auto simp: reachable_def serves_def intro: rtranclp.rtrancl_into_rtrancl)
qed

lemma later_reachable: "reachable cfg db \<Longrightarrow> serves cfg db db' \<Longrightarrow> reachable cfg db'"
  unfolding reachable_def serves_def by (rule rtranclp_trans)

lemma run_ok: "settings_ok run_cfg" "list_all request_ok [ask, pay]"
  by (simp_all add: settings_ok_def run_cfg_def default_settings_def has_scale_def) code_simp

lemma run_states:
  obtains asked paid where "reachable run_cfg asked" "reachable run_cfg paid" "serves run_cfg asked paid"
    "map_option sg_state (saga_get 0 asked) = Some ''pending''" "map_option sg_state (saga_get 0 paid) = Some ''completed''"
    "map_option sg_type (saga_get 0 paid) = Some ''topup''" "saga_sum 0 asked = 0" "saga_sum 0 paid = 100"
proof -
  have "map_option (\<lambda>db. (map_option sg_state (saga_get 0 db), saga_sum 0 db)) (run_after [ask]) = Some (Some ''pending'', 0)"
    by code_simp
  moreover have "map_option (\<lambda>db. (map_option (\<lambda>s. (sg_state s, sg_type s)) (saga_get 0 db), saga_sum 0 db)) (run_after [ask, pay]) =
      Some (Some (''completed'', ''topup''), 100)" by code_simp
  ultimately obtain asked paid where run: "run_after [ask] = Some asked" "run_after [ask, pay] = Some paid"
    "map_option sg_state (saga_get 0 asked) = Some ''pending''" "saga_sum 0 asked = 0"
    "map_option (\<lambda>s. (sg_state s, sg_type s)) (saga_get 0 paid) = Some (''completed'', ''topup'')" "saga_sum 0 paid = 100"
    by auto
  have "served run_cfg asked paid"
    by (rule served.request [where r = pay and now = sample_time])
      (use run run_ok in \<open>simp_all add: run_after_def valid_sample_time\<close>)
  with run show ?thesis
    by (intro that [of asked paid] run_reachable [OF _ run(1)] run_reachable [OF _ run(2)])
      (use run_ok in \<open>auto simp: serves_def map_option_case split: option.splits\<close>)
qed

text \<open>
  C1. Whatever requests the service has served, in whatever order, the nightly reconciliation of any window
  finds no drift.
\<close>

theorem reachable_reconciles:
  assumes "settings_ok cfg" "reachable cfg db"
  shows "\<exists>report. reconcile_window cfg window_start window_end db = Some report \<and>
    rp_diffs report = 0 \<and> rp_magnitude report = 0"
  using reachable_system [OF assms(2,1)] by (intro no_drift) (simp_all add: system_inv_def ids_ok_def)

theorem reachable_reconciles_witness:
  "\<exists>db report. saga_sum 0 db = 100 \<and> reconcile_window run_cfg sample_time (dt_plus sample_time 1) db = Some report \<and>
     rp_diffs report = 0"
  using reachable_reconciles [OF run_ok(1)] run_states by metis

text \<open>
  The ledger is append only: from any reachable database to any later one no row is changed, removed or
  reordered.
\<close>

theorem ledger_is_append_only:
  assumes "settings_ok cfg" "reachable cfg db" "serves cfg db db'"
  shows "\<exists>rows. db_ledger db' = db_ledger db @ rows"
  using serves_system [OF assms(3,1) reachable_system [OF assms(2,1)]] by (simp add: later_def ledger_grows_def)

theorem ledger_is_append_only_witness:
  "\<exists>db db' rows. saga_sum 0 db = 0 \<and> saga_sum 0 db' = 100 \<and> db_ledger db' = db_ledger db @ rows"
  using ledger_is_append_only [OF run_ok(1)] run_states by metis

text \<open>
  C3. A saga follows its machine for ever: in any later database it is still there, with its identity, owner,
  type, amount and payload, in a state that the transition table reaches from the state it was in (or that
  the confirmation of a pending top-up gave it).
\<close>

theorem sagas_follow_the_machine:
  assumes "settings_ok cfg" "reachable cfg db" "serves cfg db db'" "saga_get i db = Some s"
  shows "\<exists>st t. saga_get i db' = Some (s\<lparr>sg_state := st, sg_updated := t\<rparr>) \<and> saga_move\<^sup>*\<^sup>* (sg_state s) st"
  using serves_system [OF assms(3,1) reachable_system [OF assms(2,1)]] assms(4) by (simp add: later_def sagas_move_def)

theorem sagas_follow_the_machine_witness:
  "\<exists>st. st = ''completed'' \<and> saga_move\<^sup>*\<^sup>* ''pending'' st"
proof -
  obtain asked paid s where r: "reachable run_cfg asked" "serves run_cfg asked paid" "saga_get 0 asked = Some s"
    "sg_state s = ''pending''" "map_option sg_state (saga_get 0 paid) = Some ''completed''"
    by (rule run_states) auto
  show ?thesis using sagas_follow_the_machine [OF run_ok(1) r(1-3)] r(4,5) by auto
qed

text \<open>C2. A finished saga is final: its state and what its rows add up to never change again.\<close>

theorem finished_sagas_are_final:
  assumes cfg: "settings_ok cfg" and db: "reachable cfg db" and run: "serves cfg db db'"
    and s: "saga_get i db = Some s" "sg_state s = state_value x" "is_terminal x"
  shows "map_option sg_state (saga_get i db') = Some (sg_state s) \<and> saga_sum i db' = saga_sum i db"
proof -
  note inv = reachable_system [OF db cfg]
  have inv': "system_inv db'" and moved: "sagas_move db db'"
    using serves_system [OF run cfg inv] by (simp_all add: later_def)
  obtain st t where s': "saga_get i db' = Some (s\<lparr>sg_state := st, sg_updated := t\<rparr>)" "saga_move\<^sup>*\<^sup>* (sg_state s) st"
    using moved s(1) unfolding sagas_move_def by blast
  have st: "st = sg_state s" by (rule saga_moves_terminal [OF s'(2) s(2,3)])
  have id: "sg_id s = i" using s(1) saga_rows.get_key by blast
  have ok: "money_ok s db" "money_ok (s\<lparr>sg_state := st, sg_updated := t\<rparr>) db'"
    using inv inv' s(1) s'(1) by (simp_all add: system_inv_def money_invD(1))
  have "saga_sum i db' = saga_sum i db"
    using ok s(2,3) id st
    by (auto simp: money_ok_def is_terminal_def TERMINAL_STATES_def reserved_amount_def saga_sum_rows split: state.splits)
  with s'(1) st show ?thesis by simp
qed

theorem finished_sagas_are_final_witness:
  "\<exists>db. map_option sg_state (saga_get 0 db) = Some ''completed'' \<and> saga_sum 0 db = 100"
proof -
  obtain paid s where r: "reachable run_cfg paid" "saga_get 0 paid = Some s" "sg_state s = state_value COMPLETED" "saga_sum 0 paid = 100"
    by (rule run_states) auto
  have "serves run_cfg paid (paid\<lparr>db_users := [], db_prefs := []\<rparr>)" using served.auth by (simp add: serves_def r_into_rtranclp)
  from finished_sagas_are_final [OF run_ok(1) r(1) this r(2,3)] r(3,4) show ?thesis
    by (auto simp: is_terminal_def TERMINAL_STATES_def)
qed

text \<open>
  C4. No saga ever costs its owner more than the reserved amount, and only a top-up ever gives its owner more
  than it took, at most the amount paid for.
\<close>

theorem saga_money_is_bounded:
  assumes "settings_ok cfg" "reachable cfg db" "saga_get i db = Some s"
  shows "- reserved_amount s \<le> saga_sum i db \<and>
    saga_sum i db \<le> (if sg_type s = ''topup'' then reserved_amount s else 0)"
proof -
  have "money_inv db" using reachable_system [OF assms(2,1)] by (simp add: system_inv_def)
  then have "money_ok s db" using assms(3) by (rule money_invD(1))
  moreover have "sg_id s = i" using assms(3) saga_rows.get_key by blast
  ultimately show ?thesis
    by (auto simp: money_ok_def saga_sum_rows split: option.splits state.splits)
qed

theorem saga_money_is_bounded_witness:
  "\<exists>db s. saga_get 0 db = Some s \<and> saga_sum 0 db = 100 \<and> 100 \<le> reserved_amount s"
proof -
  obtain paid s where r: "reachable run_cfg paid" "saga_get 0 paid = Some s" "sg_type s = ''topup''" "saga_sum 0 paid = 100"
    by (rule run_states) auto
  from saga_money_is_bounded [OF run_ok(1) r(1,2)] r show ?thesis by auto
qed

text \<open>
  C7. A user has at most one active subscription, its period is not empty, and the ledger holds what paid for
  that period: a refill row of this user for the period that starts then, with the monthly credits of the
  plan; after an upgrade inside the period the refill of Starter and a proration row with a positive amount
  for the same period; or, for an education Starter row not written since its activation, the seed row of
  the user's signup. Only the free plan is not paid for.
\<close>

theorem one_active_subscription:
  assumes "settings_ok cfg" "reachable cfg db"
  shows "distinct (map sub_user (filter is_active (db_subs db))) \<and>
    list_all (\<lambda>s. is_active s \<longrightarrow> sub_start s < sub_end s \<and> sub_refilled s = Some (sub_start s)) (db_subs db) \<and>
    (\<forall>s\<in>set (db_subs db). is_active s \<longrightarrow> sub_plan s \<noteq> FREE \<longrightarrow>
       paid_row_for db s (pl_credits (get_plan (sub_plan s))) ''monthly_refill'' \<or>
       sub_plan s = PRO \<and> paid_row_for db s (pl_credits (get_plan STARTER)) ''monthly_refill'' \<and>
         (\<exists>amount>0. paid_row_for db s amount ''subscription_proration'') \<or>
       subscription_is_edu_starter s \<and> sub_updated s = sub_start s \<and>
         (\<exists>r\<in>set (db_ledger db). ct_user r = sub_user s \<and> ct_bucket r = ''edu'' \<and>
            dict_get ''source'' (ct_meta r) = Some (JStr ''edu_tier_signup'')))"
  using reachable_system [OF assms(2,1)]
  by (auto simp: system_inv_def subs_inv_def sub_ok_def list_all_iff paid_inv_def period_paid_def
      has_edu_signup_seed_def list_ex_iff)

text \<open>The example: a student starts the trial.\<close>

definition student_db :: billing_db where
  "student_db = empty_db\<lparr>db_users := [\<lparr>us_id = 2, us_edu_tier = True\<rparr>], db_prefs := []\<rparr>"

lemma student_reachable: "reachable cfg student_db"
  using served.auth [of cfg empty_db] by (simp add: reachable_def serves_def student_db_def r_into_rtranclp)

definition trial_db :: billing_db where
  "trial_db = snd (activate_edu_pro_trial_subscription run_cfg sample_time [] 2 (key_of CHR ''a'') student_db)"

lemma trial_reachable: "reachable run_cfg trial_db" "balance_for 2 trial_db = 10000" "balance_for 2 student_db = 0"
proof -
  have "served run_cfg student_db trial_db"
    by (rule served.request [where now = sample_time and r = "Subscription (ActivateTrial [] 2 (key_of CHR ''a''))"])
      (simp_all add: valid_sample_time trial_db_def)
  then show "reachable run_cfg trial_db" using later_reachable [OF student_reachable] by (simp add: serves_def r_into_rtranclp)
qed code_simp+

theorem one_active_subscription_witness:
  "distinct (map sub_user (filter is_active (db_subs trial_db))) \<and>
     (\<exists>s\<in>set (db_subs trial_db). is_active s \<and> sub_plan s = PRO \<and> sub_user s = 2 \<and>
        (\<exists>amount. 0 < amount \<and> paid_row_for trial_db s amount ''monthly_refill''))"
proof -
  have "list_ex (\<lambda>s. is_active s \<and> sub_plan s = PRO \<and> sub_user s = 2) (db_subs trial_db)" by code_simp
  then obtain s where s: "s \<in> set (db_subs trial_db)" "is_active s" "sub_plan s = PRO" "sub_user s = 2"
    by (auto simp: list_ex_iff)
  have "\<not> subscription_is_edu_starter s" using s(3) by (simp add: subscription_is_edu_starter_def)
  with one_active_subscription [OF run_ok(1) trial_reachable(1)] s plan_credits_positive show ?thesis by fastforce
qed

text \<open>A trial that paid leaves its user with a row that says so.\<close>

lemma trial_paid_used:
  assumes inv: "subs_inv db" and now: "valid_datetime now"
    and paid: "db_ledger (snd (activate_edu_pro_trial_subscription cfg now raw user key db)) \<noteq> db_ledger db"
  shows "\<exists>s\<in>set (db_subs (snd (activate_edu_pro_trial_subscription cfg now raw user key db))).
    sub_user s = user \<and> is_active s \<and> subscription_trial_used s"
proof -
  let ?run = "activate_or_return_edu_pro_trial now user db"
  have stored: "activate_edu_pro_trial_subscription cfg now raw user key db =
      then_store ?run db (upsert_edu_pro_trial_idempotency_row cfg now key user)"
    using paid
    by (auto simp: activate_edu_pro_trial_subscription_def edu_pro_trial_replay_response_if_cached_def replay_if_cached_def Let_def
        split: if_splits option.splits)
  show ?thesis
  proof (rule pro_trial_result [OF inv now, of user])
    assume "snd ?run = db"
    then have False using paid unfolding stored
      by (cases ?run; cases "fst ?run") (auto simp: then_store_def upsert_edu_pro_trial_idempotency_row_def)
    then show ?thesis ..
  next
    fix s db' assume "?run = (Returned (subscription_response_of s None), db')" "s \<in> set (db_subs db')" "trial_row now user s"
    then show ?thesis
      unfolding stored by (auto simp: then_store_def upsert_edu_pro_trial_idempotency_row_def trial_row_def)
  qed
qed

text \<open>
  C5. The education trial is paid at most once: after an activation that wrote to the ledger, no activation
  by the same user in any later database, under any key, writes to the ledger or to the subscriptions
  again, whatever happened in between.
\<close>

theorem trial_is_paid_once:
  assumes cfg: "settings_ok cfg" and db: "reachable cfg db" and now: "valid_datetime now"
    and paid: "db_ledger (snd (activate_edu_pro_trial_subscription cfg now raw user key db)) \<noteq> db_ledger db"
    and run: "serves cfg (snd (activate_edu_pro_trial_subscription cfg now raw user key db)) db'"
  shows "db_ledger (snd (activate_edu_pro_trial_subscription cfg now' raw' user key' db')) = db_ledger db' \<and>
    db_subs (snd (activate_edu_pro_trial_subscription cfg now' raw' user key' db')) = db_subs db'"
proof -
  let ?db1 = "snd (activate_edu_pro_trial_subscription cfg now raw user key db)"
  have inv: "system_inv db" by (rule reachable_system [OF db cfg])
  then have subs: "subs_inv db" by (simp add: system_inv_def)
  have "system_inv ?db1" using request_keeps_system [OF inv activate_pro_trial_keeps [OF subs now]] by simp
  then have later: "subs_inv db'" "trial_kept ?db1 db'"
    using serves_system [OF run cfg] by (simp_all add: system_inv_def later_def)
  obtain s where "s \<in> set (db_subs ?db1)" "sub_user s = user" "is_active s" "subscription_trial_used s"
    using trial_paid_used [OF subs now paid] by blast
  then obtain s' where s': "s' \<in> set (db_subs db')" "is_active s'" "sub_user s' = user" "subscription_trial_used s'"
    using later(2) unfolding trial_kept_def by metis
  have "active_subscription_for user db' = Some s'" using active_unique [OF later(1) s'(1,2)] s'(3) by simp
  from edu_trial_used_pays_nothing [OF later(1) this s'(4)] show ?thesis by simp
qed

theorem trial_is_paid_once_witness:
  "db_ledger (snd (activate_edu_pro_trial_subscription run_cfg sample_time [] 2 (key_of CHR ''b'') trial_db)) = db_ledger trial_db"
proof -
  have "db_ledger trial_db \<noteq> db_ledger student_db" using trial_reachable(2,3) by (auto simp: balance_for_def ledger_sum_def)
  from trial_is_paid_once [OF run_ok(1) student_reachable valid_sample_time this [unfolded trial_db_def], of trial_db]
  show ?thesis by (simp add: serves_def trial_db_def)
qed

text \<open>
  C6. Every request returns: in a reachable database no request runs for ever, the refill of everything that
  is due included, and it leaves a reachable database.
\<close>

theorem every_request_returns:
  assumes "settings_ok cfg" "reachable cfg db" "valid_datetime now" "request_ok r"
  shows "\<exists>db'. handle cfg now r db = Some db' \<and> reachable cfg db'"
proof -
  obtain db' where run: "handle cfg now r db = Some db'"
  proof (cases r)
    case (Subscription m)
    then show ?thesis
      using that subscription_request_returns [OF reachable_system [OF assms(2,1)] assms(3), of m] assms(4) by auto
  qed (use that in simp)
  then have "serves cfg db db'" using served.request [OF assms(3,4)] by (simp add: serves_def r_into_rtranclp)
  with run later_reachable [OF assms(2)] show ?thesis by blast
qed

theorem every_request_returns_witness:
  "\<exists>db'. handle run_cfg sample_time (Subscription (RefillDue (Some (DateTime 2027 5 1 0)))) trial_db = Some db'"
proof -
  have "request_ok (Subscription (RefillDue (Some (DateTime 2027 5 1 0))))" by code_simp
  from every_request_returns [OF run_ok(1) trial_reachable(1) valid_sample_time this] show ?thesis by blast
qed

end
