(* ===== verification/UsageTrends.thy ===== *)
theory UsageTrends
  imports ChargeProperties
begin

text \<open>
  The 7 and 30 day spend trends (apps/billing-service/src/billing_service/usage_trends.py). A date is the
  datetime of its midnight. Labels are left out.
\<close>

definition WINDOWS :: "int list" where
  "WINDOWS = [7, 30]"

definition date_of :: "datetime \<Rightarrow> datetime" where
  "date_of d = DateTime (dt_year d) (dt_month d) (dt_day d) 0"

record usage_window =
  uw_days :: int
  uw_start :: datetime
  uw_end :: datetime

text \<open>\<^verbatim>\<open>UsageTrendWindow.dates\<close>.\<close>

definition window_dates :: "usage_window \<Rightarrow> datetime list" where
  "window_dates w = map (\<lambda>k. shift_days k (uw_start w)) [0..uw_days w - 1]"

definition usage_window_of :: "int \<Rightarrow> datetime \<Rightarrow> usage_window" where
  "usage_window_of n now =
     (let current_date = date_of now in
      \<lparr>uw_days = n, uw_start = shift_days (- (n - 1)) current_date, uw_end = shift_days 1 current_date\<rparr>)"

definition ledger_rows_for_trends :: "nat \<Rightarrow> datetime \<Rightarrow> datetime \<Rightarrow> billing_db \<Rightarrow> credit_transaction list" where
  "ledger_rows_for_trends user a b db =
     sort_key (\<lambda>r. (ct_created r, ct_id r))
       (filter (\<lambda>r. ct_user r = user \<and> ct_kind r \<in> SPEND_KINDS \<and> a \<le> ct_created r \<and> ct_created r < b) (db_ledger db))"

text \<open>\<^verbatim>\<open>_daily_spend\<close>: a dictionary of the days, every row added to the day it falls on.\<close>

definition add_to_day :: "credit_transaction \<Rightarrow> (datetime \<times> rat) list \<Rightarrow> (datetime \<times> rat) list" where
  "add_to_day r totals = map (\<lambda>(day, total). (day, if day = date_of (ct_created r) then total + ct_amount r else total)) totals"

definition daily_spend :: "credit_transaction list \<Rightarrow> datetime list \<Rightarrow> (datetime \<times> rat) list" where
  "daily_spend rows dates =
     map (\<lambda>(day, total). (day, actual_spend_from_signed_total total)) (fold add_to_day rows (map (\<lambda>day. (day, 0)) dates))"

record trend_point =
  tp_date :: datetime
  tp_spend :: string

record window_response =
  wr_days :: int
  wr_start :: datetime
  wr_end :: datetime
  wr_total :: string
  wr_average :: string
  wr_points :: "trend_point list"

definition window_total :: "usage_window \<Rightarrow> credit_transaction list \<Rightarrow> rat" where
  "window_total w rows = sum_list (map snd (daily_spend rows (window_dates w)))"

definition window_response_of :: "usage_window \<Rightarrow> credit_transaction list \<Rightarrow> window_response" where
  "window_response_of w rows =
     (let by_day = daily_spend rows (window_dates w);
          points = map (\<lambda>(day, spend). \<lparr>tp_date = day, tp_spend = fmt 2 spend\<rparr>) by_day;
          total = window_total w rows;
          average = total / of_int (uw_days w)
      in \<lparr>wr_days = uw_days w, wr_start = uw_start w, wr_end = uw_end w, wr_total = fmt 2 total,
          wr_average = fmt 2 average, wr_points = points\<rparr>)"

record usage_trends_response =
  ut_generated :: datetime
  ut_windows :: "window_response list"

definition trend_rows :: "datetime \<Rightarrow> nat \<Rightarrow> billing_db \<Rightarrow> credit_transaction list" where
  "trend_rows now user db =
     (let windows = map (\<lambda>n. usage_window_of n now) WINDOWS
      in ledger_rows_for_trends user (Min (set (map uw_start windows))) (Max (set (map uw_end windows))) db)"

definition build_usage_trends :: "datetime \<Rightarrow> nat \<Rightarrow> billing_db \<Rightarrow> usage_trends_response" where
  "build_usage_trends now user db =
     \<lparr>ut_generated = now,
      ut_windows = map (\<lambda>n. window_response_of (usage_window_of n now) (trend_rows now user db)) WINDOWS\<rparr>"

section \<open>Days\<close>

lemma date_of_valid: "valid_datetime d \<Longrightarrow> valid_datetime (date_of d)"
  by (auto simp: date_of_def valid_datetime_def day_us_def)

lemma date_of_ordinal [simp]: "date_ordinal (date_of d) = date_ordinal d" "dt_us (date_of d) = 0"
  by (simp_all add: date_of_def date_ordinal_def)

text \<open>Equal days are equal ordinals, and a valid datetime lies in the day of its ordinal.\<close>

lemma day_eq_iff:
  assumes "valid_datetime a" "valid_datetime b" "dt_us a = 0" "dt_us b = 0"
  shows "a = b \<longleftrightarrow> date_ordinal a = date_ordinal b"
proof
  assume "date_ordinal a = date_ordinal b"
  then have "to_us a = to_us b" using assms(3,4) by (simp add: to_us_def)
  then show "a = b" using to_us_le_iff [OF assms(1,2)] to_us_le_iff [OF assms(2,1)] by simp
qed simp

lemma day_bounds:
  assumes "valid_datetime a" "dt_us a = 0" "valid_datetime d"
  shows "a \<le> d \<longleftrightarrow> date_ordinal a \<le> date_ordinal d" "d < a \<longleftrightarrow> date_ordinal d < date_ordinal a"
proof -
  have us: "0 \<le> dt_us d" "dt_us d < day_us" using assms(3) by (auto simp: valid_datetime_def)
  have "date_ordinal d * day_us + dt_us d < date_ordinal a * day_us \<longleftrightarrow> date_ordinal d < date_ordinal a"
  proof
    assume "date_ordinal d < date_ordinal a"
    then have "(date_ordinal d + 1) * day_us \<le> date_ordinal a * day_us"
      by (intro mult_right_mono) (auto simp: day_us_def)
    with us show "date_ordinal d * day_us + dt_us d < date_ordinal a * day_us" by (simp add: distrib_right)
  next
    assume less: "date_ordinal d * day_us + dt_us d < date_ordinal a * day_us"
    show "date_ordinal d < date_ordinal a"
    proof (rule ccontr)
      assume "\<not> date_ordinal d < date_ordinal a"
      then have "date_ordinal a * day_us \<le> date_ordinal d * day_us"
        by (intro mult_right_mono) (auto simp: day_us_def)
      with less us show False by linarith
    qed
  qed
  then show lt: "d < a \<longleftrightarrow> date_ordinal d < date_ordinal a"
    using to_us_less_iff [OF assms(3,1)] assms(2) by (simp add: to_us_def)
  then show "a \<le> d \<longleftrightarrow> date_ordinal a \<le> date_ordinal d" by (simp flip: not_less)
qed

lemma prev_day_ordinal:
  assumes v: "valid_datetime d" and "1 < date_ordinal d"
  shows "valid_datetime (prev_day d)" "date_ordinal (prev_day d) = date_ordinal d - 1" "dt_us (prev_day d) = dt_us d"
proof -
  obtain y m dd u where d: "d = DateTime y m dd u" by (cases d)
  have b: "1 \<le> y" "1 \<le> m" "m \<le> 12" "1 \<le> dd" "dd \<le> days_in_month y m" "0 \<le> u" "u < day_us"
    using v by (auto simp: valid_datetime_def d)
  have y2: "1 < dd \<or> 1 < m \<or> 1 < y"
  proof (rule ccontr)
    assume "\<not> ?thesis"
    then have "dd = 1" "m = 1" "y = 1" using b by auto
    with assms(2) show False by (simp add: d date_ordinal_def days_before_year_def days_before_month_def)
  qed
  have m2: "m = (m - 1) + 1" by simp
  show "valid_datetime (prev_day d)"
    using b y2 days_in_month_bounds(1) [of y "m - 1"] by (auto simp: d valid_datetime_def days_in_month_def)
  show "dt_us (prev_day d) = dt_us d" by (auto simp: d)
  show "date_ordinal (prev_day d) = date_ordinal d - 1"
    using date_ordinal_next_month [of "m - 1" y] date_ordinal_next_month [of 12 "y - 1"] b
    by (auto simp: d date_ordinal_def days_in_month_def days_before_month_def)
qed

lemma next_days_ordinal:
  "valid_datetime d \<Longrightarrow> valid_datetime ((next_day ^^ n) d) \<and> date_ordinal ((next_day ^^ n) d) = date_ordinal d + int n \<and>
   dt_us ((next_day ^^ n) d) = dt_us d"
  by (induction n) (simp_all add: next_day_valid next_day_ordinal)

lemma prev_days_ordinal:
  "valid_datetime d \<Longrightarrow> int n < date_ordinal d \<Longrightarrow>
   valid_datetime ((prev_day ^^ n) d) \<and> date_ordinal ((prev_day ^^ n) d) = date_ordinal d - int n \<and>
   dt_us ((prev_day ^^ n) d) = dt_us d"
  by (induction n) (simp_all add: prev_day_ordinal)

lemma shift_days_ordinal:
  assumes "valid_datetime d" "0 < date_ordinal d + k"
  shows "valid_datetime (shift_days k d)" "date_ordinal (shift_days k d) = date_ordinal d + k"
    "dt_us (shift_days k d) = dt_us d"
  using assms next_days_ordinal [of d "nat k"] prev_days_ordinal [of d "nat (- k)"]
  by (auto simp: shift_days_def)

lemma next_day_shift: "next_day d = shift_days 1 d"
  by (simp add: shift_days_def)

section \<open>What the trends show\<close>

lemma add_to_day_fold:
  "fold add_to_day rows totals =
   map (\<lambda>(day, total). (day, total + sum_where (\<lambda>r. date_of (ct_created r) = day) ct_amount rows)) totals"
proof (induction rows arbitrary: totals)
  case (Cons r rows)
  then show ?case by (auto simp: add_to_day_def sum_where_Cons)
qed simp

lemma daily_spend_eq:
  "daily_spend rows dates =
   map (\<lambda>day. (day, actual_spend_from_signed_total (sum_where (\<lambda>r. date_of (ct_created r) = day) ct_amount rows))) dates"
  by (simp add: daily_spend_def add_to_day_fold)

lemma window_facts:
  assumes now: "valid_datetime now" "30 \<le> date_ordinal now" and n: "n \<in> {7, 30}"
  shows "map date_ordinal (window_dates (usage_window_of n now)) = [date_ordinal now - (n - 1)..date_ordinal now]"
    and "day \<in> set (window_dates (usage_window_of n now)) \<Longrightarrow> valid_datetime day \<and> dt_us day = 0 \<and>
      date_ordinal now - 29 \<le> date_ordinal day \<and> date_ordinal day \<le> date_ordinal now"
    and "distinct (window_dates (usage_window_of n now))"
proof -
  let ?start = "shift_days (- (n - 1)) (date_of now)"
  have start: "valid_datetime ?start" "date_ordinal ?start = date_ordinal now - (n - 1)" "dt_us ?start = 0"
    using shift_days_ordinal [of "date_of now" "- (n - 1)"] date_of_valid [OF now(1)] now(2) n by auto
  have day: "valid_datetime (shift_days k ?start) \<and> date_ordinal (shift_days k ?start) = date_ordinal now - (n - 1) + k \<and>
      dt_us (shift_days k ?start) = 0" if "0 \<le> k" for k
    using shift_days_ordinal [of ?start k] start that now(2) n by auto
  have dates: "window_dates (usage_window_of n now) = map (\<lambda>k. shift_days k ?start) [0..n - 1]"
    by (simp add: window_dates_def usage_window_of_def Let_def)
  show ords: "map date_ordinal (window_dates (usage_window_of n now)) = [date_ordinal now - (n - 1)..date_ordinal now]"
  proof -
    have "map date_ordinal (window_dates (usage_window_of n now)) = map (\<lambda>k. date_ordinal now - (n - 1) + k) [0..n - 1]"
      unfolding dates using day by simp
    also have "\<dots> = [date_ordinal now - (n - 1)..date_ordinal now]"
      by (rule nth_equalityI) (use n in \<open>auto simp: nth_upto\<close>)
    finally show ?thesis .
  qed
  show "day \<in> set (window_dates (usage_window_of n now)) \<Longrightarrow> valid_datetime day \<and> dt_us day = 0 \<and>
      date_ordinal now - 29 \<le> date_ordinal day \<and> date_ordinal day \<le> date_ordinal now"
    unfolding dates using day n by auto
  have "distinct (map date_ordinal (window_dates (usage_window_of n now)))" unfolding ords by simp
  then show "distinct (window_dates (usage_window_of n now))" by (simp add: distinct_map)
qed

text \<open>The rows the query selects: those of the thirty days up to now.\<close>

lemma trend_rows_sum:
  assumes now: "valid_datetime now" "30 \<le> date_ordinal now"
    and led: "\<forall>r\<in>set (db_ledger db). valid_datetime (ct_created r)"
    and day: "valid_datetime day" "dt_us day = 0" "date_ordinal now - 29 \<le> date_ordinal day" "date_ordinal day \<le> date_ordinal now"
  shows "sum_where (\<lambda>r. date_of (ct_created r) = day) ct_amount (trend_rows now user db) =
    ledger_sum (\<lambda>r. ct_user r = user \<and> ct_kind r \<in> SPEND_KINDS \<and> day \<le> ct_created r \<and> ct_created r < next_day day) db"
proof -
  let ?today = "date_of now"
  have v: "valid_datetime ?today" by (rule date_of_valid [OF now(1)])
  have s7: "valid_datetime (shift_days (-6) ?today)" "date_ordinal (shift_days (-6) ?today) = date_ordinal now - 6" "dt_us (shift_days (-6) ?today) = 0"
    and s30: "valid_datetime (shift_days (-29) ?today)" "date_ordinal (shift_days (-29) ?today) = date_ordinal now - 29" "dt_us (shift_days (-29) ?today) = 0"
    and e: "valid_datetime (shift_days 1 ?today)" "date_ordinal (shift_days 1 ?today) = date_ordinal now + 1" "dt_us (shift_days 1 ?today) = 0"
    using shift_days_ordinal [OF v, of "-6"] shift_days_ordinal [OF v, of "-29"] shift_days_ordinal [OF v, of 1] now(2) by auto
  have "shift_days (-29) ?today \<le> shift_days (-6) ?today"
    using day_bounds(1) [OF s30(1,3) s7(1)] s30(2) s7(2) by simp
  then have rows: "trend_rows now user db = ledger_rows_for_trends user (shift_days (-29) ?today) (shift_days 1 ?today) db"
    by (simp add: trend_rows_def usage_window_of_def WINDOWS_def Let_def min_def)
  have nd: "valid_datetime (next_day day)" "date_ordinal (next_day day) = date_ordinal day + 1" "dt_us (next_day day) = 0"
    using next_day_valid [OF day(1)] next_day_ordinal [OF day(1)] day(2) by simp_all
  have "(date_of c = day \<and> (shift_days (-29) ?today \<le> c \<and> c < shift_days 1 ?today)) \<longleftrightarrow> day \<le> c \<and> c < next_day day"
    if c: "valid_datetime c" for c
  proof -
    have same: "date_of c = day \<longleftrightarrow> date_ordinal c = date_ordinal day"
      using day_eq_iff [OF date_of_valid [OF c] day(1) _ day(2)] by simp
    show ?thesis
      unfolding same day_bounds(1) [OF day(1,2) c] day_bounds(2) [OF nd(1,3) c] day_bounds(1) [OF s30(1,3) c]
        day_bounds(2) [OF e(1,3) c] s30(2) e(2) nd(2)
      using day(3,4) by linarith
  qed
  then show ?thesis
    unfolding rows ledger_rows_for_trends_def sum_where_sort sum_where_filter ledger_sum_def
    by (intro sum_where_cong) (use led in auto)
qed

lemma neg_sum_le: "- (\<Sum>x\<leftarrow>xs. f x) \<le> (\<Sum>x\<leftarrow>xs. max 0 (- f x :: rat))"
  by (induction xs) auto

text \<open>
  The 7 and 30 day trends have one point for each day up to today, in order and without gaps. The
  spend of a day is the net of the user's spending rows created that day, and never negative; the total
  is therefore at least the net spend of the whole window.
\<close>

theorem usage_trends_cover_every_day:
  assumes "valid_datetime now" "30 \<le> date_ordinal now" "\<forall>r\<in>set (db_ledger db). valid_datetime (ct_created r)" "n \<in> {7, 30}"
  shows "map date_ordinal (window_dates (usage_window_of n now)) = [date_ordinal now - (n - 1)..date_ordinal now] \<and>
    daily_spend (trend_rows now user db) (window_dates (usage_window_of n now)) =
      map (\<lambda>day. (day, max 0 (- ledger_sum (\<lambda>r. ct_user r = user \<and> ct_kind r \<in> SPEND_KINDS \<and>
             day \<le> ct_created r \<and> ct_created r < next_day day) db)))
        (window_dates (usage_window_of n now)) \<and>
    - (\<Sum>day\<leftarrow>window_dates (usage_window_of n now). ledger_sum (\<lambda>r. ct_user r = user \<and> ct_kind r \<in> SPEND_KINDS \<and>
        day \<le> ct_created r \<and> ct_created r < next_day day) db)
      \<le> window_total (usage_window_of n now) (trend_rows now user db)"
proof -
  let ?dates = "window_dates (usage_window_of n now)"
  let ?net = "\<lambda>day. ledger_sum (\<lambda>r. ct_user r = user \<and> ct_kind r \<in> SPEND_KINDS \<and>
             day \<le> ct_created r \<and> ct_created r < next_day day) db"
  note w = window_facts [OF assms(1,2,4)]
  have "sum_where (\<lambda>r. date_of (ct_created r) = day) ct_amount (trend_rows now user db) = ?net day" if "day \<in> set ?dates" for day
    using w(2) [OF that] by (intro trend_rows_sum [OF assms(1-3)]) auto
  then have daily: "daily_spend (trend_rows now user db) ?dates = map (\<lambda>day. (day, max 0 (- ?net day))) ?dates"
    unfolding daily_spend_eq by (simp add: actual_spend_from_signed_total_def max_def)
  have "- (\<Sum>day\<leftarrow>?dates. ?net day) \<le> (\<Sum>day\<leftarrow>?dates. max 0 (- ?net day))" by (rule neg_sum_le)
  then have "- (\<Sum>day\<leftarrow>?dates. ?net day) \<le> window_total (usage_window_of n now) (trend_rows now user db)"
    by (simp add: window_total_def daily comp_def)
  with w(1) daily show ?thesis by blast
qed

theorem usage_trends_cover_every_day_witness:
  "length (window_dates (usage_window_of 7 sample_time)) = 7 \<and>
   6/5 \<le> window_total (usage_window_of 7 sample_time) (trend_rows sample_time 1 (money_db CHARGED charged_rows))"
proof -
  let ?db = "money_db CHARGED charged_rows" and ?w = "usage_window_of 7 sample_time"
  have facts: "valid_datetime sample_time" "30 \<le> date_ordinal sample_time"
    "\<forall>r\<in>set (db_ledger ?db). valid_datetime (ct_created r)"
    "(\<Sum>day\<leftarrow>window_dates ?w. ledger_sum (\<lambda>r. ct_user r = 1 \<and> ct_kind r \<in> SPEND_KINDS \<and>
        day \<le> ct_created r \<and> ct_created r < next_day day) ?db) = - 6/5"
    by code_simp+
  note t = usage_trends_cover_every_day [OF facts(1-3), of 7 1]
  have "length (map date_ordinal (window_dates ?w)) = 7" using t by simp
  then have "length (window_dates ?w) = 7" by simp
  moreover have "6/5 \<le> window_total ?w (trend_rows sample_time 1 ?db)" using t facts(4) by simp
  ultimately show ?thesis by blast
qed

end
