(* ===== verification/Invoices.thy ===== *)
theory Invoices
  imports SubscriptionProperties PyText
begin

text \<open>
  Billing statements (apps/billing-service/src/billing_service/invoices.py and its routes). Of the
  bilingual labels the English text is kept; the rendering of the PDF is left out. The clock \<open>now\<close> is in
  UTC, as every stored datetime.
\<close>

record invoice_period =
  ip_key :: string
  ip_start :: datetime
  ip_end :: datetime

text \<open>\<open>PeriodValueError\<close> is the ValueError of \<^verbatim>\<open>datetime(..)\<close> for a year outside 1..9999.\<close>

datatype period_error = InvalidInvoicePeriodError | PeriodValueError

definition parse_invoice_period :: "string \<Rightarrow> period_error + invoice_period" where
  "parse_invoice_period period =
     (if length period \<noteq> 7 \<or> period ! 4 \<noteq> CHR ''-'' then Inl InvalidInvoicePeriodError
      else case (py_int 10 (take 4 period), py_int 10 (drop 5 period)) of
             (Some year, Some month) \<Rightarrow>
               if \<not> (1 \<le> month \<and> month \<le> 12) then Inl InvalidInvoicePeriodError
               else
                 (let next_year = (if month = 12 then year + 1 else year);
                      next_month = (if month = 12 then 1 else month + 1)
                  in if year < 1 \<or> 9999 < next_year then Inl PeriodValueError
                     else Inr \<lparr>ip_key = period, ip_start = DateTime year month 1 0,
                               ip_end = DateTime next_year next_month 1 0\<rparr>)
           | _ \<Rightarrow> Inl InvalidInvoicePeriodError)"

definition period_key :: "datetime \<Rightarrow> string" where
  "period_key d = pad_zeros 4 (show_int (dt_year d)) @ ''-'' @ pad_zeros 2 (show_int (dt_month d))"

definition KIND_LABELS :: "(string \<times> string) list" where
  "KIND_LABELS =
     [(''monthly_refill'', ''Monthly credit grant''), (''subscription_proration'', ''Subscription proration''),
      (''topup'', ''Top-up credit''), (''charge'', ''Usage charge''), (''refund'', ''Refund''),
      (''refund_partial'', ''Partial refund''), (''refund_reversal'', ''Refund reversal'')]"

definition SAFE_DETAIL_KEYS :: "string list" where
  "SAFE_DETAIL_KEYS = [''subscription_id'', ''plan_code'', ''trigger'', ''bucket'', ''reason'', ''refund_kind'']"

definition direction_for :: "rat \<Rightarrow> string" where
  "direction_for amount = (if 0 \<le> amount then ''credit'' else ''debit'')"

text \<open>A detail is a non-empty string; the text of an identifier or a datetime is never empty.\<close>

definition safe_details :: "jdict \<Rightarrow> jdict" where
  "safe_details metadata =
     concat (map (\<lambda>key. case dict_get key metadata of
                          Some value \<Rightarrow> if is_str value \<and> value \<noteq> JStr [] then [(key, value)] else []
                        | None \<Rightarrow> []) SAFE_DETAIL_KEYS)"

record invoice_line_item =
  li_id :: nat
  li_created :: datetime
  li_kind :: string
  li_bucket :: string
  li_label :: string
  li_direction :: string
  li_amount :: string
  li_source_amount :: string
  li_currency :: string
  li_details :: jdict

definition line_item :: "credit_transaction \<Rightarrow> invoice_line_item" where
  "line_item row =
     \<lparr>li_id = ct_id row, li_created = ct_created row, li_kind = ct_kind row, li_bucket = ct_bucket row,
      li_label = (case map_of KIND_LABELS (ct_kind row) of None \<Rightarrow> ''Other adjustment'' | Some l \<Rightarrow> l),
      li_direction = direction_for (ct_amount row), li_amount = fmt 2 (ct_amount row),
      li_source_amount = fmt 4 (ct_amount row), li_currency = ct_currency row, li_details = safe_details (ct_meta row)\<rparr>"

definition summary_status :: "invoice_period \<Rightarrow> datetime \<Rightarrow> string" where
  "summary_status period now = (if now < ip_end period then ''provisional'' else ''final'')"

definition ledger_rows_for_period :: "nat \<Rightarrow> invoice_period \<Rightarrow> billing_db \<Rightarrow> credit_transaction list" where
  "ledger_rows_for_period user period db =
     sort_key (\<lambda>r. (ct_created r, ct_id r))
       (filter (\<lambda>r. ct_user r = user \<and> ip_start period \<le> ct_created r \<and> ct_created r < ip_end period) (db_ledger db))"

definition ledger_rows_for_window :: "nat \<Rightarrow> datetime \<Rightarrow> datetime \<Rightarrow> billing_db \<Rightarrow> credit_transaction list" where
  "ledger_rows_for_window user a b db =
     filter (\<lambda>r. ct_user r = user \<and> a \<le> ct_created r \<and> ct_created r < b) (db_ledger db)"

text \<open>\<^verbatim>\<open>order_by(start.desc(), id.asc()).limit(1)\<close>.\<close>

definition later_subscription :: "billing_subscription \<Rightarrow> billing_subscription \<Rightarrow> billing_subscription" where
  "later_subscription s t =
     (if sub_start t < sub_start s \<or> (sub_start s = sub_start t \<and> sub_id s < sub_id t) then s else t)"

definition subscription_for_period :: "nat \<Rightarrow> invoice_period \<Rightarrow> billing_db \<Rightarrow> billing_subscription option" where
  "subscription_for_period user period db =
     (case filter (\<lambda>s. sub_user s = user \<and> sub_start s < ip_end period \<and> ip_start period < sub_end s) (db_subs db) of
        [] \<Rightarrow> None
      | s # rest \<Rightarrow> Some (fold later_subscription rest s))"

record invoice_subscription =
  is_plan :: plan_code
  is_label :: string
  is_status :: string
  is_start :: "datetime option"
  is_end :: "datetime option"

definition invoice_subscription_of :: "billing_subscription option \<Rightarrow> invoice_subscription" where
  "invoice_subscription_of subscription =
     (case subscription of
        None \<Rightarrow> \<lparr>is_plan = FREE, is_label = ''Free'', is_status = ''implicit_free'', is_start = None, is_end = None\<rparr>
      | Some s \<Rightarrow> \<lparr>is_plan = sub_plan s, is_label = pl_label (get_plan (sub_plan s)), is_status = sub_status s,
                   is_start = Some (sub_start s), is_end = Some (sub_end s)\<rparr>)"

record invoice_usage =
  iu_days :: int
  iu_spend :: string
  iu_label :: string

definition usage_summary :: "nat \<Rightarrow> invoice_period \<Rightarrow> datetime \<Rightarrow> billing_db \<Rightarrow> invoice_usage list" where
  "usage_summary user period now db =
     (let window_end = min now (ip_end period) in
      map (\<lambda>(n, label).
        let window_start = max (ip_start period) (dt_plus window_end (- days n));
            rows = ledger_rows_for_window user window_start window_end db
        in \<lparr>iu_days = n, iu_spend = fmt 2 (actual_spend rows), iu_label = label\<rparr>)
      [(7, ''Last 7 days actual usage spend''), (30, ''Last 30 days actual usage spend'')])"

record invoice_summary =
  su_period :: string
  su_start :: datetime
  su_end :: datetime
  su_status :: string
  su_net :: string
  su_spend :: string
  su_count :: nat

definition rows_net :: "credit_transaction list \<Rightarrow> rat" where
  "rows_net rows = sum_list (map ct_amount rows)"

definition summary_from_rows :: "invoice_period \<Rightarrow> credit_transaction list \<Rightarrow> datetime \<Rightarrow> invoice_summary" where
  "summary_from_rows period rows now =
     \<lparr>su_period = ip_key period, su_start = ip_start period, su_end = ip_end period,
      su_status = summary_status period now, su_net = fmt 2 (rows_net rows), su_spend = fmt 2 (actual_spend rows),
      su_count = length rows\<rparr>"

record invoice_response =
  iv_summary :: invoice_summary
  iv_owner :: nat
  iv_subscription :: invoice_subscription
  iv_credits :: string
  iv_debits :: string
  iv_usage :: "invoice_usage list"
  iv_items :: "invoice_line_item list"

datatype invoice_error = PeriodError period_error | InvoiceNotFoundError

definition build_invoice :: "datetime \<Rightarrow> nat \<Rightarrow> string \<Rightarrow> billing_db \<Rightarrow> invoice_error + invoice_response" where
  "build_invoice now user key db =
     (case parse_invoice_period key of
        Inl e \<Rightarrow> Inl (PeriodError e)
      | Inr period \<Rightarrow>
          (let rows = ledger_rows_for_period user period db;
               subscription = subscription_for_period user period db
           in if rows = [] \<and> subscription = None then Inl InvoiceNotFoundError
              else Inr \<lparr>iv_summary = summary_from_rows period rows now, iv_owner = user,
                        iv_subscription = invoice_subscription_of subscription,
                        iv_credits = fmt 2 (sum_where (\<lambda>r. 0 < ct_amount r) ct_amount rows),
                        iv_debits = fmt 2 (sum_where (\<lambda>r. ct_amount r < 0) (\<lambda>r. - ct_amount r) rows),
                        iv_usage = usage_summary user period now db, iv_items = map line_item rows\<rparr>))"

text \<open>The months a subscription touches; \<open>None\<close> would be a loop that does not end.\<close>

partial_function (option) months_until :: "datetime \<Rightarrow> datetime \<Rightarrow> string list \<Rightarrow> string list option" where
  "months_until cursor limit periods =
     (if cursor < limit then months_until (next_month cursor) limit (List.insert (period_key cursor) periods)
      else Some periods)"

declare months_until.simps [code]

fun subscription_periods :: "billing_subscription list \<Rightarrow> string list \<Rightarrow> string list option" where
  "subscription_periods [] periods = Some periods"
| "subscription_periods (s # rest) periods =
     Option.bind (months_until (month_start (sub_start s)) (sub_end s) periods) (subscription_periods rest)"

definition ledger_periods :: "nat \<Rightarrow> billing_db \<Rightarrow> string list" where
  "ledger_periods user db =
     fold (\<lambda>r. List.insert (period_key (ct_created r))) (filter (\<lambda>r. ct_user r = user) (db_ledger db)) []"

fun summaries :: "datetime \<Rightarrow> nat \<Rightarrow> billing_db \<Rightarrow> string list \<Rightarrow> period_error + invoice_summary list" where
  "summaries now user db [] = Inr []"
| "summaries now user db (key # keys) =
     (case parse_invoice_period key of
        Inl e \<Rightarrow> Inl e
      | Inr period \<Rightarrow>
          (case summaries now user db keys of
             Inl e \<Rightarrow> Inl e
           | Inr items \<Rightarrow> Inr (summary_from_rows period (ledger_rows_for_period user period db) now # items)))"

definition invoice_keys :: "nat \<Rightarrow> billing_db \<Rightarrow> string list option" where
  "invoice_keys user db =
     map_option (\<lambda>keys. rev (sort keys))
       (subscription_periods (filter (\<lambda>s. sub_user s = user) (db_subs db)) (ledger_periods user db))"

definition list_invoices :: "datetime \<Rightarrow> nat \<Rightarrow> billing_db \<Rightarrow> (period_error + invoice_summary list) option" where
  "list_invoices now user db = map_option (summaries now user db) (invoice_keys user db)"

section \<open>The routes\<close>

definition get_invoice :: "datetime \<Rightarrow> string \<Rightarrow> nat \<Rightarrow> billing_db \<Rightarrow> invoice_response outcome" where
  "get_invoice now period user db =
     (case build_invoice now user period db of
        Inr invoice \<Rightarrow> Returned invoice
      | Inl (PeriodError InvalidInvoicePeriodError) \<Rightarrow> problem_response ''Invalid Invoice Period'' 400
      | Inl InvoiceNotFoundError \<Rightarrow> problem_response ''Invoice Not Found'' 404
      | Inl (PeriodError PeriodValueError) \<Rightarrow> ServerError)"

definition get_invoices :: "datetime \<Rightarrow> nat \<Rightarrow> billing_db \<Rightarrow> invoice_summary list outcome option" where
  "get_invoices now user db =
     map_option (\<lambda>r. case r of Inr items \<Rightarrow> Returned items | Inl _ \<Rightarrow> ServerError) (list_invoices now user db)"

end
