(* ===== verification/InvoiceProperties.thy ===== *)
theory InvoiceProperties
  imports Invoices ChargeProperties
begin

text \<open>
  Statements: the key of a month reads back as that month, the list of statements is found by a loop
  that ends, and its months partition the ledger.
\<close>

section \<open>The key of a month\<close>

lemma decimal_value_zeros: "decimal_value 0 (replicate k CHR ''0'' @ s) = decimal_value 0 s"
  by (induction k) (simp_all add: code_of_def)

lemma all_digits_pad: "all_digits (pad_zeros w s) = all_digits s"
  by (auto simp: all_digits_def pad_zeros_def list_all_iff is_digit_def code_of_def)

lemma py_int_pad: "0 \<le> n \<Longrightarrow> py_int 10 (pad_zeros w (show_int n)) = Some n"
proof -
  assume n: "0 \<le> n"
  have "py_int 10 (pad_zeros w (show_int n)) = Some (decimal_value 0 (pad_zeros w (show_int n)))"
    by (rule py_int_digits) (use show_int_value [OF n] in \<open>simp_all add: all_digits_pad, simp add: pad_zeros_def\<close>)
  then show ?thesis using show_int_value [OF n] by (simp add: pad_zeros_def decimal_value_zeros)
qed

text \<open>Datetimes whose month and the next one Python can represent.\<close>

definition billable :: "datetime \<Rightarrow> bool" where
  "billable d \<longleftrightarrow> valid_datetime d \<and> dt_year d < 9999"

lemma period_key_length:
  assumes "valid_datetime d" "dt_year d \<le> 9999"
  shows "length (pad_zeros 4 (show_int (dt_year d))) = 4" "length (pad_zeros 2 (show_int (dt_month d))) = 2"
  using assms length_show_int [of "dt_year d" 4] length_show_int [of "dt_month d" 2]
  by (auto simp: length_pad_zeros valid_datetime_def)

text \<open>The key of a month reads back as that month: from its first instant to the first of the next.\<close>

theorem period_key_reads_back:
  assumes "valid_datetime d" "dt_year d < 9999"
  shows "parse_invoice_period (period_key d) =
    Inr \<lparr>ip_key = period_key d, ip_start = month_start d, ip_end = next_month (month_start d)\<rparr>"
proof -
  let ?y = "pad_zeros 4 (show_int (dt_year d))" and ?m = "pad_zeros 2 (show_int (dt_month d))"
  have len: "length ?y = 4" "length ?m = 2" using period_key_length [of d] assms by simp_all
  have key: "period_key d = ?y @ CHR ''-'' # ?m" by (simp add: period_key_def)
  have parts: "take 4 (period_key d) = ?y" "drop 5 (period_key d) = ?m" "length (period_key d) = 7" "period_key d ! 4 = CHR ''-''"
    using len by (simp_all add: key nth_append)
  have ints: "py_int 10 ?y = Some (dt_year d)" "py_int 10 ?m = Some (dt_month d)"
    using assms(1) by (auto simp: valid_datetime_def intro: py_int_pad)
  show ?thesis
    using assms unfolding parse_invoice_period_def parts ints
    by (auto simp: valid_datetime_def month_start_def next_month_def Let_def)
qed

theorem period_key_reads_back_witness:
  "period_key (DateTime 2026 6 1 0) = ''2026-06'' \<and>
   parse_invoice_period (period_key (DateTime 2026 6 1 0)) =
     Inr \<lparr>ip_key = ''2026-06'', ip_start = DateTime 2026 6 1 0, ip_end = DateTime 2026 7 1 0\<rparr>"
proof -
  have facts: "valid_datetime (DateTime 2026 6 1 0)" "dt_year (DateTime 2026 6 1 0) < 9999"
    "period_key (DateTime 2026 6 1 0) = ''2026-06''" "month_start (DateTime 2026 6 1 0) = DateTime 2026 6 1 0"
    "next_month (DateTime 2026 6 1 0) = DateTime 2026 7 1 0"
    by code_simp+
  show ?thesis using period_key_reads_back [OF facts(1,2)] facts(3-5) by simp
qed

lemma period_key_eq_iff:
  assumes "billable d" "billable e"
  shows "period_key d = period_key e \<longleftrightarrow> month_start d = month_start e"
proof
  assume "period_key d = period_key e"
  then show "month_start d = month_start e"
    using period_key_reads_back [of d] period_key_reads_back [of e] assms by (simp add: billable_def)
qed (simp add: month_start_def period_key_def)

lemma in_month_iff:
  assumes "valid_datetime d" "valid_datetime e"
  shows "month_start e \<le> d \<and> d < next_month (month_start e) \<longleftrightarrow> month_start d = month_start e"
  using assms
  by (auto simp: less_eq_datetime_def less_datetime_def dt_key_def less_eq_prod_def less_prod_def' month_start_def next_month_def
      valid_datetime_def)

section \<open>The loop over the months of a subscription\<close>

text \<open>The keys only grow, stay distinct, and the new ones are of months that start before the limit.\<close>

definition grows_by_months :: "datetime \<Rightarrow> string list \<Rightarrow> string list \<Rightarrow> bool" where
  "grows_by_months limit ps ks \<longleftrightarrow>
     set ps \<subseteq> set ks \<and> (distinct ps \<longrightarrow> distinct ks) \<and>
     (\<forall>k\<in>set ks. k \<in> set ps \<or> (\<exists>d. is_month_start d \<and> d < limit \<and> k = period_key d))"

lemma months_until_result:
  assumes "is_month_start cursor" "valid_datetime limit"
  shows "\<exists>ks. months_until cursor limit ps = Some ks \<and> grows_by_months limit ps ks"
  using assms
proof (induction cursor ps rule: month_cursor.loop_induct)
  case (stop d ps)
  then have "\<not> d < limit" by simp
  then show ?case by (subst months_until.simps) (simp add: grows_by_months_def)
next
  case (step d ps)
  show ?case
  proof (cases "d < limit")
    case False
    then show ?thesis by (subst months_until.simps) (simp add: grows_by_months_def)
  next
    case True
    obtain ks where "months_until (next_month d) limit (List.insert (period_key d) ps) = Some ks"
      "grows_by_months limit (List.insert (period_key d) ps) ks" using step(3) by blast
    with True step(1) show ?thesis
      by (subst months_until.simps) (auto simp: grows_by_months_def)
  qed
qed

definition billable_subs :: "billing_subscription list \<Rightarrow> bool" where
  "billable_subs subs \<longleftrightarrow> (\<forall>s\<in>set subs. valid_datetime (sub_start s) \<and> billable (sub_end s))"

lemma billable_before: "is_month_start d \<Longrightarrow> billable e \<Longrightarrow> d < e \<Longrightarrow> billable d"
  by (auto simp: billable_def is_month_start_def less_datetime_def dt_key_def less_prod_def')

lemma month_start_is: "valid_datetime d \<Longrightarrow> is_month_start (month_start d)"
  by (simp add: is_month_start_def month_start_valid) (simp add: month_start_def)

lemma subscription_periods_result:
  assumes "billable_subs subs"
  shows "\<exists>ks. subscription_periods subs ps = Some ks \<and> set ps \<subseteq> set ks \<and> (distinct ps \<longrightarrow> distinct ks) \<and>
    (\<forall>k\<in>set ks. k \<in> set ps \<or> (\<exists>d. billable d \<and> k = period_key d))"
  using assms
proof (induction subs arbitrary: ps)
  case (Cons s subs)
  have s: "valid_datetime (sub_start s)" "billable (sub_end s)" using Cons.prems by (auto simp: billable_subs_def)
  obtain ks where ks: "months_until (month_start (sub_start s)) (sub_end s) ps = Some ks" "grows_by_months (sub_end s) ps ks"
    using months_until_result [OF month_start_is [OF s(1)], of "sub_end s" ps] s(2) by (auto simp: billable_def)
  obtain ks' where ks': "subscription_periods subs ks = Some ks'" "set ks \<subseteq> set ks'" "distinct ks \<longrightarrow> distinct ks'"
    "\<forall>k\<in>set ks'. k \<in> set ks \<or> (\<exists>d. billable d \<and> k = period_key d)"
    using Cons.IH [of ks] Cons.prems by (auto simp: billable_subs_def)
  have "\<forall>k\<in>set ks. k \<in> set ps \<or> (\<exists>d. billable d \<and> k = period_key d)"
    using ks(2) billable_before [OF _ s(2)] unfolding grows_by_months_def by metis
  with ks ks' show ?case by (auto simp: grows_by_months_def)
qed simp

lemma fold_insert_keys:
  "set (fold (\<lambda>r. List.insert (f r)) rows ks) = f ` set rows \<union> set ks"
  "distinct ks \<Longrightarrow> distinct (fold (\<lambda>r. List.insert (f r)) rows ks)"
  by (induction rows arbitrary: ks) auto

text \<open>The keys of the list: distinct, of months, and one for every ledger row of the user.\<close>

lemma invoice_keys_result:
  assumes "billable_subs (db_subs db)" "\<forall>r\<in>set (db_ledger db). billable (ct_created r)"
  shows "\<exists>keys. invoice_keys user db = Some keys \<and> distinct keys \<and> sorted (rev keys) \<and>
    (\<forall>k\<in>set keys. \<exists>d. billable d \<and> k = period_key d) \<and>
    (\<forall>r\<in>set (db_ledger db). ct_user r = user \<longrightarrow> period_key (ct_created r) \<in> set keys)"
proof -
  let ?rows = "filter (\<lambda>r. ct_user r = user) (db_ledger db)"
  have led: "set (ledger_periods user db) = (\<lambda>r. period_key (ct_created r)) ` set ?rows" "distinct (ledger_periods user db)"
    unfolding ledger_periods_def by (simp_all add: fold_insert_keys)
  have "billable_subs (filter (\<lambda>s. sub_user s = user) (db_subs db))" using assms(1) by (auto simp: billable_subs_def)
  from subscription_periods_result [OF this, of "ledger_periods user db"] obtain ks where ks:
    "subscription_periods (filter (\<lambda>s. sub_user s = user) (db_subs db)) (ledger_periods user db) = Some ks"
    "set (ledger_periods user db) \<subseteq> set ks" "distinct ks"
    "\<forall>k\<in>set ks. k \<in> set (ledger_periods user db) \<or> (\<exists>d. billable d \<and> k = period_key d)"
    using led(2) by auto
  have "\<forall>k\<in>set ks. \<exists>d. billable d \<and> k = period_key d" using ks(4) led(1) assms(2) by fastforce
  moreover have "\<forall>r\<in>set (db_ledger db). ct_user r = user \<longrightarrow> period_key (ct_created r) \<in> set ks"
    using ks(2) led(1) by auto
  ultimately show ?thesis using ks(1,3) by (simp add: invoice_keys_def)
qed

section \<open>The statements partition the ledger\<close>

text \<open>The rows, in the ledger, of the month a key names.\<close>

definition statement_rows :: "nat \<Rightarrow> string \<Rightarrow> billing_db \<Rightarrow> credit_transaction list" where
  "statement_rows user key db =
     (case parse_invoice_period key of Inr period \<Rightarrow> ledger_rows_for_period user period db | Inl _ \<Rightarrow> [])"

lemma statement_rows_sum:
  fixes f :: "credit_transaction \<Rightarrow> 'v::comm_monoid_add"
  assumes "billable e" and led: "\<forall>r\<in>set (db_ledger db). billable (ct_created r)"
  shows "sum_list (map f (statement_rows user (period_key e) db)) =
    sum_where (\<lambda>r. ct_user r = user \<and> period_key (ct_created r) = period_key e) f (db_ledger db)"
proof -
  have sum: "sum_list (map f (sort_key k xs)) = sum_list (map f xs)" for k :: "credit_transaction \<Rightarrow> datetime \<times> nat" and xs
    using sum_where_sort [of "\<lambda>_. True" f k xs] by (simp add: sum_where_def)
  have e: "valid_datetime e" "dt_year e < 9999" using assms(1) by (simp_all add: billable_def)
  have "(month_start e \<le> ct_created r \<and> ct_created r < next_month (month_start e)) = (period_key (ct_created r) = period_key e)"
    if "r \<in> set (db_ledger db)" for r
    using that led in_month_iff [of "ct_created r" e] period_key_eq_iff [OF _ assms(1)] e by (auto simp: billable_def)
  then have "sum_where (\<lambda>r. ct_user r = user \<and> month_start e \<le> ct_created r \<and> ct_created r < next_month (month_start e)) f (db_ledger db)
      = sum_where (\<lambda>r. ct_user r = user \<and> period_key (ct_created r) = period_key e) f (db_ledger db)"
    by (intro sum_where_cong) auto
  then show ?thesis
    unfolding statement_rows_def period_key_reads_back [OF e] by (simp add: ledger_rows_for_period_def sum) (simp add: sum_where_def)
qed

lemma summaries_result:
  assumes "\<forall>k\<in>set keys. \<exists>d. billable d \<and> k = period_key d"
  shows "\<exists>items. summaries now user db keys = Inr items \<and> map su_period items = keys \<and>
    list_all (\<lambda>i. su_net i = fmt 2 (rows_net (statement_rows user (su_period i) db)) \<and>
                  su_count i = length (statement_rows user (su_period i) db)) items"
  using assms
proof (induction keys)
  case (Cons k keys)
  obtain d where d: "billable d" "k = period_key d" using Cons.prems by auto
  obtain items where items: "summaries now user db keys = Inr items" "map su_period items = keys"
    "list_all (\<lambda>i. su_net i = fmt 2 (rows_net (statement_rows user (su_period i) db)) \<and>
                  su_count i = length (statement_rows user (su_period i) db)) items"
    using Cons by auto
  note parse = period_key_reads_back [of d, folded d(2)]
  show ?case
    using parse d items by (simp add: billable_def summary_from_rows_def statement_rows_def)
qed simp

lemma partition_by_key:
  fixes f :: "credit_transaction \<Rightarrow> 'v::comm_monoid_add"
  assumes "distinct keys" "\<forall>k\<in>set keys. \<exists>d. billable d \<and> k = period_key d"
    and "\<forall>r\<in>set (db_ledger db). billable (ct_created r)"
    and "\<forall>r\<in>set (db_ledger db). ct_user r = user \<longrightarrow> period_key (ct_created r) \<in> set keys"
  shows "(\<Sum>k\<leftarrow>keys. sum_list (map f (statement_rows user k db))) = sum_where (\<lambda>r. ct_user r = user) f (db_ledger db)"
proof -
  have "(\<Sum>k\<leftarrow>keys. sum_list (map f (statement_rows user k db))) =
      (\<Sum>k\<leftarrow>keys. sum_where (\<lambda>r. ct_user r = user \<and> period_key (ct_created r) = k) f (db_ledger db))"
    using assms(2) statement_rows_sum [OF _ assms(3), of _ f user] by (intro arg_cong [where f = sum_list] map_cong) auto
  also have "\<dots> = sum_where (\<lambda>r. ct_user r = user) f (db_ledger db)"
    using assms(4) by (intro sum_where_by_key [OF assms(1)]) auto
  finally show ?thesis .
qed

text \<open>
  C26. Listing the statements always ends, with one statement for each month, latest first. The months
  partition the user's ledger: every row is on exactly one statement, and the nets of the statements add
  up to the balance.
\<close>

theorem statements_add_up_to_the_balance:
  assumes "billable_subs (db_subs db)" "\<forall>r\<in>set (db_ledger db). billable (ct_created r)" "ledger_scaled db"
  shows "\<exists>items. list_invoices now user db = Some (Inr items) \<and>
    distinct (map su_period items) \<and> sorted (rev (map su_period items)) \<and>
    list_all (\<lambda>i. su_net i = fmt 2 (rows_net (statement_rows user (su_period i) db))) items \<and>
    (\<Sum>i\<leftarrow>items. rows_net (statement_rows user (su_period i) db)) = balance_for user db \<and>
    (\<Sum>i\<leftarrow>items. su_count i) = length (filter (\<lambda>r. ct_user r = user) (db_ledger db))"
proof -
  obtain keys where keys: "invoice_keys user db = Some keys" "distinct keys" "sorted (rev keys)"
    "\<forall>k\<in>set keys. \<exists>d. billable d \<and> k = period_key d"
    "\<forall>r\<in>set (db_ledger db). ct_user r = user \<longrightarrow> period_key (ct_created r) \<in> set keys"
    using invoice_keys_result [OF assms(1,2)] by blast
  obtain items where items: "summaries now user db keys = Inr items" "map su_period items = keys"
    "list_all (\<lambda>i. su_net i = fmt 2 (rows_net (statement_rows user (su_period i) db)) \<and>
                  su_count i = length (statement_rows user (su_period i) db)) items"
    using summaries_result [OF keys(4)] by blast
  have over: "(\<Sum>i\<leftarrow>items. g (su_period i)) = (\<Sum>k\<leftarrow>keys. g k)" for g :: "string \<Rightarrow> 'a::comm_monoid_add"
    unfolding items(2) [symmetric] by (simp add: comp_def)
  have net: "(\<Sum>k\<leftarrow>keys. rows_net (statement_rows user k db)) = balance_for user db"
    unfolding rows_net_def partition_by_key [OF keys(2,4) assms(2) keys(5)]
    using balance_for_eq [OF assms(3), of user] by (simp add: ledger_sum_def)
  have "(\<Sum>k\<leftarrow>keys. length (statement_rows user k db)) = (\<Sum>k\<leftarrow>keys. sum_list (map (\<lambda>_. 1) (statement_rows user k db)))"
    by (simp add: sum_list_triv)
  also have "\<dots> = length (filter (\<lambda>r. ct_user r = user) (db_ledger db))"
    unfolding partition_by_key [OF keys(2,4) assms(2) keys(5)] by (simp add: sum_where_def sum_list_triv)
  finally have count: "(\<Sum>k\<leftarrow>keys. length (statement_rows user k db)) = length (filter (\<lambda>r. ct_user r = user) (db_ledger db))" .
  have "(\<Sum>i\<leftarrow>items. su_count i) = (\<Sum>i\<leftarrow>items. length (statement_rows user (su_period i) db))"
    using items(3) by (intro arg_cong [where f = sum_list] map_cong) (auto simp: list_all_iff)
  with keys(1-3) items net count over [of "\<lambda>k. rows_net (statement_rows user k db)"]
    over [of "\<lambda>k. length (statement_rows user k db)"] show ?thesis
    by (intro exI [of _ items]) (auto simp: list_invoices_def list_all_iff)
qed

theorem statements_add_up_to_the_balance_witness:
  "\<exists>items. list_invoices sample_time 1 (money_db CHARGED charged_rows) = Some (Inr items) \<and>
     (\<Sum>i\<leftarrow>items. rows_net (statement_rows 1 (su_period i) (money_db CHARGED charged_rows))) = 244/5 \<and>
     (\<Sum>i\<leftarrow>items. su_count i) = 3"
proof -
  let ?db = "money_db CHARGED charged_rows"
  have "db_subs ?db = []" "\<forall>r\<in>set (db_ledger ?db). billable (ct_created r)" "ledger_scaled ?db"
    "balance_for 1 ?db = 244/5" "length (filter (\<lambda>r. ct_user r = 1) (db_ledger ?db)) = 3"
    by (code_simp, code_simp, use money_db_inv(3) in \<open>simp add: money_inv_def\<close>, code_simp, code_simp)
  then show ?thesis
    using statements_add_up_to_the_balance [of ?db sample_time 1] by (auto simp: billable_subs_def)
qed

text \<open>
  The period is less strict than its comment says: surrounding blanks and a sign pass, and a year outside
  the calendar is a server error instead of a refusal.
\<close>

theorem invoice_period_is_not_strict:
  "(case parse_invoice_period '' +26- 6'' of Inr p \<Rightarrow> ip_start p = DateTime 26 6 1 0 | Inl _ \<Rightarrow> False) \<and>
   get_invoice sample_time ''0000-01'' 1 empty_db = ServerError \<and>
   get_invoice sample_time ''9999-12'' 1 empty_db = ServerError"
  by code_simp

end
