(* ===== verification/OutboxRelay.thy ===== *)
theory OutboxRelay
  imports Models "HOL-Library.Multiset"
begin

text \<open>
  The outbox relayer (apps/outbox-relayer/src/outbox_relayer: db.py, broker.py, relayer.py, health.py): it
  reads the events the services left in the outbox table, publishes each on a Redis channel and marks it
  sent. One relayer's batch is the function \<open>process_batch\<close>; several relayers on one table, each in a
  transaction that may be cut off and any publish failing before or after Redis took the event, are the
  relation \<open>relay_run\<close>.
\<close>

section \<open>The table\<close>

text \<open>A row of the table as the relayer sees it: the event and when it was sent.\<close>

record outbox_row =
  ox_event :: outbox_event
  ox_sent :: "datetime option"

abbreviation row_id :: "outbox_row \<Rightarrow> nat" where
  "row_id r \<equiv> ob_id (ox_event r)"

definition unsent :: "outbox_row \<Rightarrow> bool" where
  "unsent r \<longleftrightarrow> ox_sent r = None"

text \<open>
  The query of a batch: unsent rows that no other transaction has locked, oldest first, at most \<open>limit\<close>.
  Rows of one time come in the order in which the table is scanned, which SQL leaves open; \<open>rows\<close> is the
  table in that order.
\<close>

definition fetch_unsent :: "(nat \<Rightarrow> bool) \<Rightarrow> nat \<Rightarrow> outbox_row list \<Rightarrow> outbox_event list" where
  "fetch_unsent locked limit rows =
     map ox_event (take limit (sort_key (\<lambda>r. ob_occurred (ox_event r)) (filter (\<lambda>r. unsent r \<and> \<not> locked (row_id r)) rows)))"

definition mark_sent :: "datetime \<Rightarrow> nat list \<Rightarrow> outbox_row list \<Rightarrow> outbox_row list" where
  "mark_sent now ids rows = map (\<lambda>r. if row_id r \<in> set ids then r\<lparr>ox_sent := Some now\<rparr> else r) rows"

text \<open>The lag: the age of the oldest unsent row in microseconds.\<close>

definition oldest_unsent_age :: "datetime \<Rightarrow> outbox_row list \<Rightarrow> int option" where
  "oldest_unsent_age now rows =
     (case map (\<lambda>r. ob_occurred (ox_event r)) (filter unsent rows) of
        [] \<Rightarrow> None
      | t # ts \<Rightarrow> Some (dt_minus now (fold min ts t)))"

section \<open>Publishing\<close>

record message =
  ms_channel :: string
  ms_body :: json

definition channel_for :: "outbox_event \<Rightarrow> string" where
  "channel_for e = ''opticloud.'' @ ob_aggregate_type e @ ''.'' @ ob_event_type e"

definition envelope :: "outbox_event \<Rightarrow> json" where
  "envelope e =
     JObj [(''event_id'', JId (ob_id e)), (''aggregate_type'', JStr (ob_aggregate_type e)),
           (''aggregate_id'', JId (ob_aggregate_id e)), (''event_type'', JStr (ob_event_type e)),
           (''event_version'', JNum (of_nat (ob_version e))), (''payload'', JObj (ob_payload e)),
           (''headers'', JObj (ob_headers e)), (''occurred_at'', JTime (ob_occurred e))]"

definition publish :: "outbox_event \<Rightarrow> message" where
  "publish e = \<lparr>ms_channel = channel_for e, ms_body = envelope e\<rparr>"

text \<open>
  The loop over a batch. \<open>accepts e\<close> says whether the publish of the event returns; an exception is logged and
  the loop goes on, and its event is not marked, whether Redis took it before the exception (a timeout) or
  not. The result is what was published for certain, in order; \<^verbatim>\<open>published_ids\<close> are its identifiers.
\<close>

fun publish_all :: "(outbox_event \<Rightarrow> bool) \<Rightarrow> outbox_event list \<Rightarrow> outbox_event list" where
  "publish_all accepts [] = []"
| "publish_all accepts (e # es) = (if accepts e then e # publish_all accepts es else publish_all accepts es)"

definition process_batch ::
  "(outbox_event \<Rightarrow> bool) \<Rightarrow> datetime \<Rightarrow> nat \<Rightarrow> outbox_row list \<Rightarrow> nat \<times> message list \<times> outbox_row list" where
  "process_batch accepts now limit rows =
     (let batch = fetch_unsent (\<lambda>_. False) limit rows in
      if batch = [] then (0, [], rows)
      else (let published = publish_all accepts batch
            in (length published, map publish published, mark_sent now (map ob_id published) rows)))"

section \<open>Readiness\<close>

record relayer_state =
  rs_ready :: bool
  rs_db_ok :: bool
  rs_redis_ok :: bool

definition initial_state :: relayer_state where
  "initial_state = \<lparr>rs_ready = False, rs_db_ok = False, rs_redis_ok = False\<rparr>"

text \<open>
  What the poll loop does to the flags: both connections and the ping succeed, a batch returns (an empty
  one returns before it sets the flag), anything raises.
\<close>

datatype poll_event = Started | Polled nat | Raised

fun poll :: "poll_event \<Rightarrow> relayer_state \<Rightarrow> relayer_state" where
  "poll Started st = st\<lparr>rs_redis_ok := True, rs_ready := True\<rparr>"
| "poll (Polled n) st = (if n = 0 then st else st\<lparr>rs_db_ok := True\<rparr>)"
| "poll Raised st = st\<lparr>rs_ready := False\<rparr>"

definition readyz :: "relayer_state \<Rightarrow> bool" where
  "readyz st \<longleftrightarrow> rs_ready st \<and> rs_db_ok st \<and> rs_redis_ok st"

section \<open>One relayer\<close>

lemma publish_all_filter: "publish_all accepts es = filter accepts es"
  by (induction es) simp_all

lemma mark_sent_simps [simp]:
  "map ox_event (mark_sent now ids rows) = map ox_event rows"
  "length (mark_sent now ids rows) = length rows" "mark_sent now [] rows = rows"
  by (auto simp: mark_sent_def)

lemma row_ids_mark [simp]: "map row_id (mark_sent now ids rows) = map row_id rows"
  by (auto simp: mark_sent_def)

lemma unsent_mark: "filter unsent (mark_sent now ids rows) = filter (\<lambda>r. unsent r \<and> row_id r \<notin> set ids) rows"
  by (induction rows) (auto simp: mark_sent_def unsent_def)

lemma set_fetch:
  "set (fetch_unsent locked limit rows) \<subseteq> ox_event ` {r \<in> set rows. unsent r \<and> \<not> locked (row_id r)}"
  unfolding fetch_unsent_def by (auto dest: in_set_takeD)

lemma length_fetch:
  "length (fetch_unsent locked limit rows) = min limit (length (filter (\<lambda>r. unsent r \<and> \<not> locked (row_id r)) rows))"
  by (simp add: fetch_unsent_def min.commute)

lemma fetch_sorted: "sorted (map ob_occurred (fetch_unsent locked limit rows))"
proof -
  have "sorted (map (\<lambda>r. ob_occurred (ox_event r)) (take limit (sort_key (\<lambda>r. ob_occurred (ox_event r)) xs)))" for xs
    unfolding take_map [symmetric] by (rule sorted_wrt_take [OF sorted_sort_key])
  then show ?thesis by (simp add: fetch_unsent_def comp_def)
qed

lemma distinct_fetch:
  assumes "distinct (map row_id rows)"
  shows "distinct (map ob_id (fetch_unsent locked limit rows))"
proof -
  let ?xs = "filter (\<lambda>r. unsent r \<and> \<not> locked (row_id r)) rows"
  let ?sorted = "sort_key (\<lambda>r. ob_occurred (ox_event r)) ?xs"
  have "distinct (map row_id ?xs)" using assms by (simp add: distinct_map_filter)
  moreover have m: "mset (map row_id ?sorted) = mset (map row_id ?xs)" by simp
  ultimately have "distinct (map row_id ?sorted)" unfolding mset_eq_imp_distinct_iff [OF m] by blast
  then have "distinct (take limit (map row_id ?sorted))" by (rule distinct_take)
  then show ?thesis by (simp add: fetch_unsent_def comp_def take_map)
qed

lemma row_of_event:
  assumes "distinct (map row_id rows)" "r \<in> set rows" "r' \<in> set rows" "row_id r = row_id r'"
  shows "r = r'"
  using assms by (auto simp: distinct_map inj_on_def)

section \<open>Several relayers\<close>

text \<open>
  A relayer's open transaction: the rows it fetched (their locks are held until it ends), those still to
  publish, those whose publish returned. \<open>rl_log\<close> is everything Redis ever took, in order.
\<close>

record batch =
  bt_rows :: "outbox_event list"
  bt_todo :: "outbox_event list"
  bt_done :: "outbox_event list"

record relay =
  rl_rows :: "outbox_row list"
  rl_open :: "nat \<Rightarrow> batch option"
  rl_log :: "outbox_event list"

definition locked_in :: "(nat \<Rightarrow> batch option) \<Rightarrow> nat \<Rightarrow> bool" where
  "locked_in bs i \<longleftrightarrow> (\<exists>w b. bs w = Some b \<and> i \<in> ob_id ` set (bt_rows b))"

inductive relay_step :: "relay \<Rightarrow> relay \<Rightarrow> bool" where
  insert: "ob_id e \<notin> ob_id ` ox_event ` set (rl_rows st) \<Longrightarrow>
    relay_step st (st\<lparr>rl_rows := rl_rows st @ [\<lparr>ox_event = e, ox_sent = None\<rparr>]\<rparr>)"
| fetch: "rl_open st w = None \<Longrightarrow> mset scan = mset (rl_rows st) \<Longrightarrow>
    es = fetch_unsent (locked_in (rl_open st)) limit scan \<Longrightarrow>
    relay_step st (st\<lparr>rl_open := (rl_open st)(w \<mapsto> \<lparr>bt_rows = es, bt_todo = es, bt_done = []\<rparr>)\<rparr>)"
| accepted: "rl_open st w = Some b \<Longrightarrow> bt_todo b = e # es \<Longrightarrow>
    relay_step st (st\<lparr>rl_open := (rl_open st)(w \<mapsto> b\<lparr>bt_todo := es, bt_done := bt_done b @ [e]\<rparr>), rl_log := rl_log st @ [e]\<rparr>)"
| refused: "rl_open st w = Some b \<Longrightarrow> bt_todo b = e # es \<Longrightarrow>
    relay_step st (st\<lparr>rl_open := (rl_open st)(w \<mapsto> b\<lparr>bt_todo := es\<rparr>)\<rparr>)"
| commit: "rl_open st w = Some b \<Longrightarrow> bt_todo b = [] \<Longrightarrow>
    relay_step st (st\<lparr>rl_open := (rl_open st)(w := None), rl_rows := mark_sent now (map ob_id (bt_done b)) (rl_rows st)\<rparr>)"

text \<open>
  \<open>accepted\<close> is a publish that returns, \<open>refused\<close> one that raises before Redis took the event. It may as well
  raise afterwards, when only the answer is lost: the event is published, and its row is not marked.
\<close>

inductive lost_answer :: "relay \<Rightarrow> relay \<Rightarrow> bool" where
  "rl_open st w = Some b \<Longrightarrow> bt_todo b = e # es \<Longrightarrow>
    lost_answer st (st\<lparr>rl_open := (rl_open st)(w \<mapsto> b\<lparr>bt_todo := es\<rparr>), rl_log := rl_log st @ [e]\<rparr>)"

text \<open>A transaction that is cut off: its locks go, what it published stays published.\<close>

inductive cut_off :: "relay \<Rightarrow> relay \<Rightarrow> bool" where
  "cut_off st (st\<lparr>rl_open := (rl_open st)(w := None)\<rparr>)"

inductive_cases relay_stepE: "relay_step st st'"
inductive_cases lost_answerE: "lost_answer st st'"
inductive_cases cut_offE: "cut_off st st'"

lemmas relay_step_cases = relay_stepE [consumes 1, case_names insert fetch accepted refused commit]

lemmas lost_answer_cases = lost_answerE [consumes 1, case_names lost]
lemmas cut_off_cases = cut_offE [consumes 1, case_names cut]

definition idle :: "outbox_event list \<Rightarrow> relay" where
  "idle es = \<lparr>rl_rows = map (\<lambda>e. \<lparr>ox_event = e, ox_sent = None\<rparr>) es, rl_open = (\<lambda>_. None), rl_log = []\<rparr>"

text \<open>Any run from an empty table, with the number of failures in it: lost answers and cut transactions.\<close>

inductive relay_run :: "nat \<Rightarrow> relay \<Rightarrow> bool" where
  start: "relay_run 0 (idle [])"
| step: "relay_run n st \<Longrightarrow> relay_step st st' \<Longrightarrow> relay_run n st'"
| lost: "relay_run n st \<Longrightarrow> lost_answer st st' \<Longrightarrow> relay_run (Suc n) st'"
| cut: "relay_run n st \<Longrightarrow> cut_off st st' \<Longrightarrow> relay_run (Suc n) st'"

section \<open>What holds in every state\<close>

text \<open>
  Identifiers do not repeat; what a transaction holds are unsent rows, no two transactions hold the same;
  nothing is published that is not in the table, and nothing is marked that was not published.
\<close>

definition batch_ok :: "relay \<Rightarrow> batch \<Rightarrow> bool" where
  "batch_ok st b \<longleftrightarrow> distinct (map ob_id (bt_rows b)) \<and>
     (\<forall>e\<in>set (bt_rows b). \<lparr>ox_event = e, ox_sent = None\<rparr> \<in> set (rl_rows st)) \<and>
     set (bt_todo b) \<subseteq> set (bt_rows b) \<and> set (bt_done b) \<subseteq> set (bt_rows b) \<and>
     distinct (map ob_id (bt_done b @ bt_todo b)) \<and> set (bt_done b) \<subseteq> set (rl_log st)"

definition relay_inv :: "relay \<Rightarrow> bool" where
  "relay_inv st \<longleftrightarrow> distinct (map row_id (rl_rows st)) \<and>
     (\<forall>w b. rl_open st w = Some b \<longrightarrow> batch_ok st b) \<and>
     (\<forall>w w' b b'. rl_open st w = Some b \<longrightarrow> rl_open st w' = Some b' \<longrightarrow> w \<noteq> w' \<longrightarrow>
        ob_id ` set (bt_rows b) \<inter> ob_id ` set (bt_rows b') = {}) \<and>
     set (rl_log st) \<subseteq> ox_event ` set (rl_rows st) \<and>
     (\<forall>r\<in>set (rl_rows st). \<not> unsent r \<longrightarrow> ox_event r \<in> set (rl_log st))"

lemma relay_inv_ids: "relay_inv st \<Longrightarrow> distinct (map row_id (rl_rows st))"
  unfolding relay_inv_def by (elim conjE)

lemma relay_inv_batch: "relay_inv st \<Longrightarrow> rl_open st w = Some b \<Longrightarrow> batch_ok st b"
  unfolding relay_inv_def by (elim conjE) blast

lemma relay_inv_apart:
  "relay_inv st \<Longrightarrow> rl_open st w = Some b \<Longrightarrow> rl_open st w' = Some b' \<Longrightarrow> w \<noteq> w' \<Longrightarrow>
   ob_id ` set (bt_rows b) \<inter> ob_id ` set (bt_rows b') = {}"
  unfolding relay_inv_def by (elim conjE) (drule spec [of _ w], drule spec [of _ w'], drule spec [of _ b], drule spec [of _ b'], simp)

lemma relay_inv_log: "relay_inv st \<Longrightarrow> set (rl_log st) \<subseteq> ox_event ` set (rl_rows st)"
  unfolding relay_inv_def by (elim conjE)

lemma relay_inv_sent: "relay_inv st \<Longrightarrow> r \<in> set (rl_rows st) \<Longrightarrow> \<not> unsent r \<Longrightarrow> ox_event r \<in> set (rl_log st)"
  unfolding relay_inv_def by (elim conjE) blast

lemmas relay_invD = relay_inv_ids relay_inv_batch relay_inv_log relay_inv_sent

lemma fetched_rows:
  assumes "mset scan = mset rows" "e \<in> set (fetch_unsent locked limit scan)"
  shows "\<lparr>ox_event = e, ox_sent = None\<rparr> \<in> set rows" "\<not> locked (ob_id e)"
proof -
  obtain r where r: "r \<in> set scan" "unsent r" "\<not> locked (row_id r)" "ox_event r = e" using set_fetch assms(2) by blast
  have "r = \<lparr>ox_event = e, ox_sent = None\<rparr>" using r(2,4) by (cases r) (simp add: unsent_def)
  then show "\<lparr>ox_event = e, ox_sent = None\<rparr> \<in> set rows" using r(1) mset_eq_setD [OF assms(1)] by simp
  show "\<not> locked (ob_id e)" using r(3,4) by simp
qed

lemma scan_distinct:
  "mset scan = mset rows \<Longrightarrow> distinct (map row_id rows) \<Longrightarrow> distinct (map row_id scan)"
  by (metis mset_map mset_eq_imp_distinct_iff)

lemma batch_ok_mono:
  assumes "batch_ok st b" "set (rl_log st) \<subseteq> set (rl_log st')"
    and "\<And>e. e \<in> set (bt_rows b) \<Longrightarrow> \<lparr>ox_event = e, ox_sent = None\<rparr> \<in> set (rl_rows st) \<Longrightarrow>
      \<lparr>ox_event = e, ox_sent = None\<rparr> \<in> set (rl_rows st')"
  shows "batch_ok st' b"
  using assms unfolding batch_ok_def by auto

lemma marked_row:
  assumes "batch_ok st b" "distinct (map row_id (rl_rows st))" "r \<in> set (rl_rows st)" "row_id r \<in> ob_id ` set (bt_done b)"
  shows "unsent r" "ox_event r \<in> set (bt_done b)"
proof -
  obtain e where e: "e \<in> set (bt_done b)" "row_id r = ob_id e" using assms(4) by auto
  then have "\<lparr>ox_event = e, ox_sent = None\<rparr> \<in> set (rl_rows st)" using assms(1) by (auto simp: batch_ok_def)
  from row_of_event [OF assms(2,3) this] e(2) have "r = \<lparr>ox_event = e, ox_sent = None\<rparr>" by simp
  with e(1) show "unsent r" "ox_event r \<in> set (bt_done b)" by (simp_all add: unsent_def)
qed

lemma relay_inv_open:
  assumes inv: "relay_inv st" and b: "batch_ok st' b'"
    and same: "rl_rows st' = rl_rows st" "rl_open st' = (rl_open st)(w \<mapsto> b')"
    and log: "set (rl_log st) \<subseteq> set (rl_log st')" "set (rl_log st') \<subseteq> ox_event ` set (rl_rows st)"
    and apart: "\<And>w2 b2. w2 \<noteq> w \<Longrightarrow> rl_open st w2 = Some b2 \<Longrightarrow> ob_id ` set (bt_rows b') \<inter> ob_id ` set (bt_rows b2) = {}"
  shows "relay_inv st'"
  unfolding relay_inv_def
proof (intro conjI allI impI ballI)
  show "distinct (map row_id (rl_rows st'))" using relay_inv_ids [OF inv] same(1) by simp
  show "batch_ok st' b2" if "rl_open st' w2 = Some b2" for w2 b2
    using that b same relay_inv_batch [OF inv, of w2 b2] batch_ok_mono [OF _ log(1)] by (auto split: if_splits)
  show "ob_id ` set (bt_rows b1) \<inter> ob_id ` set (bt_rows b2) = {}"
    if "rl_open st' w1 = Some b1" "rl_open st' w2 = Some b2" "w1 \<noteq> w2" for w1 w2 b1 b2
    using that same(2) apart [of w1 b1] apart [of w2 b2] relay_inv_apart [OF inv, of w1 b1 w2 b2]
    by (cases "w1 = w"; cases "w2 = w") (simp_all add: Int_commute)
  show "set (rl_log st') \<subseteq> ox_event ` set (rl_rows st')" using log(2) same(1) by simp
  show "ox_event r \<in> set (rl_log st')" if "r \<in> set (rl_rows st')" "\<not> unsent r" for r
    using that relay_inv_sent [OF inv] same(1) log(1) by auto
qed

lemma relay_inv_insert:
  assumes "relay_inv st" "ob_id e \<notin> ob_id ` ox_event ` set (rl_rows st)"
  shows "relay_inv (st\<lparr>rl_rows := rl_rows st @ [\<lparr>ox_event = e, ox_sent = None\<rparr>]\<rparr>)" (is "relay_inv ?st")
  unfolding relay_inv_def
proof (intro conjI allI impI ballI)
  show "distinct (map row_id (rl_rows ?st))" using relay_inv_ids [OF assms(1)] assms(2) by auto
  show "batch_ok ?st b" if "rl_open ?st w = Some b" for w b
    by (rule batch_ok_mono [OF relay_inv_batch [OF assms(1), of w b]]) (use that in auto)
  show "ob_id ` set (bt_rows b1) \<inter> ob_id ` set (bt_rows b2) = {}"
    if "rl_open ?st w1 = Some b1" "rl_open ?st w2 = Some b2" "w1 \<noteq> w2" for w1 w2 b1 b2
    using that relay_inv_apart [OF assms(1), of w1 b1 w2 b2] by simp
  show "set (rl_log ?st) \<subseteq> ox_event ` set (rl_rows ?st)" using relay_inv_log [OF assms(1)] by auto
  show "ox_event r \<in> set (rl_log ?st)" if "r \<in> set (rl_rows ?st)" "\<not> unsent r" for r
    using that relay_inv_sent [OF assms(1)] by (auto simp: unsent_def)
qed

lemma in_mark_sent:
  "\<lparr>ox_event = e, ox_sent = None\<rparr> \<in> set rows \<Longrightarrow> ob_id e \<notin> set ids \<Longrightarrow>
   \<lparr>ox_event = e, ox_sent = None\<rparr> \<in> set (mark_sent now ids rows)"
  unfolding mark_sent_def by force

lemma mark_sent_cases:
  assumes "r \<in> set (mark_sent now ids rows)"
  obtains r0 where "r0 \<in> set rows" "row_id r0 = row_id r" "ox_event r0 = ox_event r" "row_id r0 \<in> set ids \<or> r = r0"
  using assms unfolding mark_sent_def by (auto split: if_splits)

lemma relay_inv_commit:
  assumes inv: "relay_inv st" and b: "rl_open st w = Some b"
  shows "relay_inv (st\<lparr>rl_open := (rl_open st)(w := None), rl_rows := mark_sent now (map ob_id (bt_done b)) (rl_rows st)\<rparr>)"
    (is "relay_inv ?st")
  unfolding relay_inv_def
proof (intro conjI allI impI ballI)
  note ok = relay_inv_batch [OF inv b]
  show "distinct (map row_id (rl_rows ?st))" using relay_inv_ids [OF inv] by simp
  show "batch_ok ?st b2" if "rl_open ?st w2 = Some b2" for w2 b2
  proof -
    have w2: "w2 \<noteq> w" "rl_open st w2 = Some b2" using that by (auto split: if_splits)
    have "set (bt_done b) \<subseteq> set (bt_rows b)" using ok by (simp add: batch_ok_def)
    then have "ob_id e \<notin> ob_id ` set (bt_done b)" if "e \<in> set (bt_rows b2)" for e
      using that relay_inv_apart [OF inv w2(2) b w2(1)] by blast
    then show ?thesis
      using relay_inv_batch [OF inv w2(2)] by (elim batch_ok_mono) (simp_all add: in_mark_sent)
  qed
  show "ob_id ` set (bt_rows b1) \<inter> ob_id ` set (bt_rows b2) = {}"
    if "rl_open ?st w1 = Some b1" "rl_open ?st w2 = Some b2" "w1 \<noteq> w2" for w1 w2 b1 b2
    using that relay_inv_apart [OF inv, of w1 b1 w2 b2] by (simp split: if_splits)
  have "ox_event ` set (mark_sent now ids rows) = ox_event ` set rows" for ids rows
    by (metis mark_sent_simps(1) set_map)
  then show "set (rl_log ?st) \<subseteq> ox_event ` set (rl_rows ?st)" using relay_inv_log [OF inv] by simp
  show "ox_event r \<in> set (rl_log ?st)" if r: "r \<in> set (rl_rows ?st)" "\<not> unsent r" for r
  proof -
    obtain r0 where r0: "r0 \<in> set (rl_rows st)" "ox_event r0 = ox_event r" "row_id r0 \<in> ob_id ` set (bt_done b) \<or> r = r0"
      using r(1) by (auto elim!: mark_sent_cases)
    show ?thesis
    proof (cases "r = r0")
      case True
      then show ?thesis using relay_inv_sent [OF inv r0(1)] r(2) by simp
    next
      case False
      with r0 have "ox_event r \<in> set (bt_done b)" using marked_row(2) [OF ok relay_inv_ids [OF inv] r0(1)] by simp
      with ok show ?thesis by (auto simp: batch_ok_def)
    qed
  qed
qed

lemma relay_inv_cut: "relay_inv st \<Longrightarrow> relay_inv (st\<lparr>rl_open := (rl_open st)(w := None)\<rparr>)"
proof -
  assume inv: "relay_inv st"
  let ?st = "st\<lparr>rl_open := (rl_open st)(w := None)\<rparr>"
  have ok: "batch_ok ?st b = batch_ok st b" for b by (simp add: batch_ok_def)
  show "relay_inv ?st"
    unfolding relay_inv_def ok
    using relay_inv_ids [OF inv] relay_inv_batch [OF inv] relay_inv_apart [OF inv] relay_inv_log [OF inv] relay_inv_sent [OF inv]
    by (intro conjI allI impI ballI) (simp_all split: if_splits)
qed

lemma fetched_batch_ok:
  assumes "relay_inv st" "mset scan = mset (rl_rows st)"
    and "es = fetch_unsent (locked_in (rl_open st)) limit scan"
  shows "distinct (map ob_id es)" "\<And>e. e \<in> set es \<Longrightarrow> \<lparr>ox_event = e, ox_sent = None\<rparr> \<in> set (rl_rows st)"
    "\<And>w b. rl_open st w = Some b \<Longrightarrow> ob_id ` set es \<inter> ob_id ` set (bt_rows b) = {}"
proof -
  show "distinct (map ob_id es)"
    unfolding assms(3) by (rule distinct_fetch) (rule scan_distinct [OF assms(2) relay_inv_ids [OF assms(1)]])
  show "\<lparr>ox_event = e, ox_sent = None\<rparr> \<in> set (rl_rows st)" if "e \<in> set es" for e
    using fetched_rows(1) [OF assms(2)] that unfolding assms(3) by blast
  show "ob_id ` set es \<inter> ob_id ` set (bt_rows b) = {}" if b: "rl_open st w = Some b" for w b
  proof -
    have "\<not> locked_in (rl_open st) (ob_id e)" if "e \<in> set es" for e
      using fetched_rows(2) [OF assms(2)] that unfolding assms(3) by blast
    then show ?thesis using b unfolding locked_in_def by fastforce
  qed
qed

lemma relay_step_inv:
  assumes "relay_step st st'" "relay_inv st"
  shows "relay_inv st'"
  using assms(1)
proof (cases rule: relay_step_cases)
  case (insert e)
  then show ?thesis using relay_inv_insert [OF assms(2)] by simp
next
  case (fetch w scan limit)
  let ?es = "fetch_unsent (locked_in (rl_open st)) limit scan"
  note new = fetched_batch_ok [OF assms(2) fetch(3) refl]
  show ?thesis
    by (rule relay_inv_open [OF assms(2), where w = w and b' = "\<lparr>bt_rows = ?es, bt_todo = ?es, bt_done = []\<rparr>"])
      (use fetch(1) new relay_inv_log [OF assms(2)] in \<open>simp_all add: batch_ok_def\<close>)
next
  case (accepted w b e es)
  note ok = relay_inv_batch [OF assms(2) accepted(2)]
  have e: "e \<in> set (bt_rows b)" using ok accepted(3) by (auto simp: batch_ok_def)
  then have row: "\<lparr>ox_event = e, ox_sent = None\<rparr> \<in> set (rl_rows st)" using ok by (simp add: batch_ok_def)
  show ?thesis
  proof (rule relay_inv_open [OF assms(2), where w = w and b' = "b\<lparr>bt_todo := es, bt_done := bt_done b @ [e]\<rparr>"])
    show "set (rl_log st') \<subseteq> ox_event ` set (rl_rows st)"
      using accepted(1) relay_inv_log [OF assms(2)] row by force
    show "batch_ok st' (b\<lparr>bt_todo := es, bt_done := bt_done b @ [e]\<rparr>)"
      using ok accepted(1,3) e unfolding batch_ok_def by auto
  qed (use accepted(1) relay_inv_apart [OF assms(2) accepted(2)] in auto)
next
  case (refused w b e es)
  note ok = relay_inv_batch [OF assms(2) refused(2)]
  show ?thesis
  proof (rule relay_inv_open [OF assms(2), where w = w and b' = "b\<lparr>bt_todo := es\<rparr>"])
    show "batch_ok st' (b\<lparr>bt_todo := es\<rparr>)" using ok refused(1,3) unfolding batch_ok_def by auto
  qed (use refused(1) relay_inv_apart [OF assms(2) refused(2)] relay_inv_log [OF assms(2)] in auto)
next
  case (commit w b now)
  then show ?thesis using relay_inv_commit [OF assms(2)] by simp
qed

lemma lost_answer_inv:
  assumes "lost_answer st st'" "relay_inv st"
  shows "relay_inv st'"
  using assms(1)
proof (cases rule: lost_answer_cases)
  case (lost w b e es)
  note ok = relay_inv_batch [OF assms(2) lost(2)]
  have e: "e \<in> set (bt_rows b)" using ok lost(3) by (auto simp: batch_ok_def)
  then have row: "\<lparr>ox_event = e, ox_sent = None\<rparr> \<in> set (rl_rows st)" using ok by (simp add: batch_ok_def)
  show ?thesis
  proof (rule relay_inv_open [OF assms(2), where w = w and b' = "b\<lparr>bt_todo := es\<rparr>"])
    show "set (rl_log st') \<subseteq> ox_event ` set (rl_rows st)" using lost(1) relay_inv_log [OF assms(2)] row by force
    show "batch_ok st' (b\<lparr>bt_todo := es\<rparr>)" using ok lost(1,3) unfolding batch_ok_def by auto
  qed (use lost(1) relay_inv_apart [OF assms(2) lost(2)] in auto)
qed

lemma idle_inv: "relay_inv (idle [])"
  by (simp add: relay_inv_def idle_def)

lemma relay_run_inv: "relay_run n st \<Longrightarrow> relay_inv st"
  by (induction rule: relay_run.induct)
    (auto simp: idle_inv intro: relay_step_inv lost_answer_inv relay_inv_cut elim: cut_offE)

section \<open>How often an event is published\<close>

text \<open>A publication is settled when it will be marked or has been: no further one is due.\<close>

definition settled :: "relay \<Rightarrow> outbox_event \<Rightarrow> bool" where
  "settled st e \<longleftrightarrow>
     (\<exists>w b. rl_open st w = Some b \<and> e \<in> set (bt_done b)) \<or> (\<exists>r\<in>set (rl_rows st). \<not> unsent r \<and> ox_event r = e)"

definition published_within :: "nat \<Rightarrow> relay \<Rightarrow> bool" where
  "published_within n st \<longleftrightarrow> (\<forall>e. count (mset (rl_log st)) e \<le> n + (if settled st e then 1 else 0))"

lemma published_withinI:
  assumes "published_within n st" "\<And>e. settled st e \<Longrightarrow> settled st' e" "rl_log st' = rl_log st"
  shows "published_within n st'"
  unfolding published_within_def
proof
  fix e
  have "count (mset (rl_log st)) e \<le> n + (if settled st e then 1 else 0)" using assms(1) by (simp add: published_within_def)
  then show "count (mset (rl_log st')) e \<le> n + (if settled st' e then 1 else 0)"
    using assms(2) [of e] assms(3) by (simp split: if_splits)
qed

lemma published_within_one:
  assumes "published_within n st" "\<And>x. settled st x \<Longrightarrow> settled st' x"
    and "settled st' e" "\<not> settled st e" "rl_log st' = rl_log st @ [e]"
  shows "published_within n st'"
  unfolding published_within_def
proof
  fix x
  have "count (mset (rl_log st)) x \<le> n + (if settled st x then 1 else 0)" using assms(1) by (simp add: published_within_def)
  then show "count (mset (rl_log st')) x \<le> n + (if settled st' x then 1 else 0)"
    using assms(2) [of x] assms(3-5) by (cases "x = e") (simp_all split: if_splits)
qed

text \<open>An event still to be published in an open transaction is not settled.\<close>

lemma todo_not_settled:
  assumes inv: "relay_inv st" and b: "rl_open st w = Some b" "bt_todo b = e # es"
  shows "\<not> settled st e"
proof -
  note ok = relay_inv_batch [OF inv b(1)]
  have e: "e \<in> set (bt_rows b)" "e \<notin> set (bt_done b)" using ok b(2) by (auto simp: batch_ok_def)
  then have row: "\<lparr>ox_event = e, ox_sent = None\<rparr> \<in> set (rl_rows st)" using ok by (simp add: batch_ok_def)
  have "False" if c: "rl_open st v = Some c" "e \<in> set (bt_done c)" for v c
  proof -
    have "v \<noteq> w" using c b(1) e(2) by auto
    moreover have "e \<in> set (bt_rows c)" using relay_inv_batch [OF inv c(1)] c(2) by (auto simp: batch_ok_def)
    ultimately show False using relay_inv_apart [OF inv c(1) b(1)] e(1) by blast
  qed
  moreover have "False" if r: "r \<in> set (rl_rows st)" "\<not> unsent r" "ox_event r = e" for r
    using row_of_event [OF relay_inv_ids [OF inv] r(1) row] r(2,3) by (simp add: unsent_def)
  ultimately show ?thesis unfolding settled_def by blast
qed

lemma settled_open:
  assumes "rl_rows st' = rl_rows st" "rl_open st' = (rl_open st)(w \<mapsto> b')"
    and "\<And>b. rl_open st w = Some b \<Longrightarrow> set (bt_done b) \<subseteq> set (bt_done b')" "settled st e"
  shows "settled st' e"
  using assms(4) unfolding settled_def
proof
  assume "\<exists>v b. rl_open st v = Some b \<and> e \<in> set (bt_done b)"
  then obtain v b where v: "rl_open st v = Some b" "e \<in> set (bt_done b)" by blast
  then have "rl_open st' v = Some (if v = w then b' else b) \<and> e \<in> set (bt_done (if v = w then b' else b))"
    using assms(2,3) by auto
  then show "(\<exists>w b. rl_open st' w = Some b \<and> e \<in> set (bt_done b)) \<or> (\<exists>r\<in>set (rl_rows st'). \<not> unsent r \<and> ox_event r = e)"
    by blast
qed (use assms(1) in simp)

lemma settled_commit:
  assumes inv: "relay_inv st" and b: "rl_open st w = Some b" and e: "settled st e"
    and st': "st' = st\<lparr>rl_open := (rl_open st)(w := None), rl_rows := mark_sent now (map ob_id (bt_done b)) (rl_rows st)\<rparr>"
  shows "settled st' e"
proof (cases "e \<in> set (bt_done b)")
  case True
  then have "\<lparr>ox_event = e, ox_sent = None\<rparr> \<in> set (rl_rows st)"
    using relay_inv_batch [OF inv b] by (auto simp: batch_ok_def)
  with True have "\<lparr>ox_event = e, ox_sent = Some now\<rparr> \<in> set (rl_rows st')" by (force simp: st' mark_sent_def)
  then show ?thesis by (force simp: settled_def unsent_def)
next
  case False
  have marked: "\<exists>r'\<in>set (rl_rows st'). \<not> unsent r' \<and> ox_event r' = e"
    if "r \<in> set (rl_rows st)" "\<not> unsent r" "ox_event r = e" for r
    using that
    by (intro bexI [of _ "if row_id r \<in> set (map ob_id (bt_done b)) then r\<lparr>ox_sent := Some now\<rparr> else r"])
      (auto simp: st' mark_sent_def unsent_def)
  from e show ?thesis
    unfolding settled_def
  proof
    assume "\<exists>v c. rl_open st v = Some c \<and> e \<in> set (bt_done c)"
    then obtain v c where v: "rl_open st v = Some c" "e \<in> set (bt_done c)" by blast
    then have "rl_open st' v = Some c" using False b by (auto simp: st')
    with v(2) show "(\<exists>v c. rl_open st' v = Some c \<and> e \<in> set (bt_done c)) \<or>
        (\<exists>r\<in>set (rl_rows st'). \<not> unsent r \<and> ox_event r = e)" by blast
  qed (use marked in blast)
qed

lemma published_within_step:
  assumes "relay_step st st'" "relay_inv st" "published_within n st"
  shows "published_within n st'"
  using assms(1)
proof (cases rule: relay_step_cases)
  case (insert e)
  then show ?thesis by (intro published_withinI [OF assms(3)]) (auto simp: settled_def)
next
  case (fetch w scan limit)
  show ?thesis
    by (rule published_withinI [OF assms(3)], erule settled_open [rotated 3, where w = w]) (use fetch(1,2) in simp_all)
next
  case (accepted w b e es)
  have "settled st' x" if "settled st x" for x
    by (rule settled_open [OF _ _ _ that, where w = w and b' = "b\<lparr>bt_todo := es, bt_done := bt_done b @ [e]\<rparr>"])
      (use accepted(1,2) in auto)
  moreover have "settled st' e" unfolding settled_def using accepted(1) by auto
  moreover have "\<not> settled st e" by (rule todo_not_settled [OF assms(2) accepted(2,3)])
  moreover have "rl_log st' = rl_log st @ [e]" using accepted(1) by simp
  ultimately show ?thesis
    using published_within_one [OF assms(3)] by simp
next
  case (refused w b e es)
  show ?thesis
    by (rule published_withinI [OF assms(3)], erule settled_open [rotated 3, where w = w]) (use refused(1,2) in auto)
next
  case (commit w b now)
  show ?thesis
  proof (rule published_withinI [OF assms(3)])
    show "settled st' e" if "settled st e" for e by (rule settled_commit [OF assms(2) commit(2) that commit(1)])
    show "rl_log st' = rl_log st" unfolding commit(1) by simp
  qed
qed

lemma published_within_lost:
  assumes "lost_answer st st'" "published_within n st"
  shows "published_within (Suc n) st'"
  using assms(1)
proof (cases rule: lost_answer_cases)
  case (lost w b e es)
  have kept: "settled st' x" if "settled st x" for x
    by (rule settled_open [OF _ _ _ that, where w = w and b' = "b\<lparr>bt_todo := es\<rparr>"]) (use lost in auto)
  have more: "count (mset (rl_log st')) x \<le> Suc (count (mset (rl_log st)) x)" for x using lost(1) by simp
  show ?thesis
    unfolding published_within_def
  proof
    fix x
    have "count (mset (rl_log st)) x \<le> n + (if settled st x then 1 else 0)" using assms(2) by (simp add: published_within_def)
    then show "count (mset (rl_log st')) x \<le> Suc n + (if settled st' x then 1 else 0)"
      using more [of x] kept [of x] by (simp split: if_splits)
  qed
qed

lemma published_within_cut:
  assumes "cut_off st st'" "published_within n st"
  shows "published_within (Suc n) st'"
  using assms(1)
proof (cases rule: cut_off_cases)
  case (cut w)
  have "count (mset (rl_log st)) x \<le> Suc n" for x
    using assms(2) [unfolded published_within_def, rule_format, of x] by (simp split: if_splits)
  then show ?thesis unfolding published_within_def using cut by (simp add: le_SucI)
qed

lemma relay_run_published: "relay_run n st \<Longrightarrow> published_within n st"
proof (induction rule: relay_run.induct)
  case start
  show ?case by (simp add: published_within_def idle_def)
qed (use relay_run_inv published_within_step published_within_lost published_within_cut in blast)+

lemma relay_run_steps: "relay_step\<^sup>*\<^sup>* st st' \<Longrightarrow> relay_run n st \<Longrightarrow> relay_run n st'"
  by (induction rule: rtranclp_induct) (auto intro: relay_run.step)

section \<open>A batch, and batches in a row\<close>

text \<open>The poll loop without its sleeps: \<open>n\<close> batches one after the other.\<close>

fun poll_batches ::
  "(outbox_event \<Rightarrow> bool) \<Rightarrow> datetime \<Rightarrow> nat \<Rightarrow> nat \<Rightarrow> outbox_row list \<Rightarrow> message list \<times> outbox_row list" where
  "poll_batches accepts now limit 0 rows = ([], rows)"
| "poll_batches accepts now limit (Suc n) rows =
     (let (count, messages, rows1) = process_batch accepts now limit rows;
          (messages', rows2) = poll_batches accepts now limit n rows1
      in (messages @ messages', rows2))"

lemma filter_not_taken:
  assumes "distinct (map f xs)"
  shows "filter (\<lambda>x. f x \<notin> f ` set (take n xs)) xs = drop n xs"
proof -
  have "filter (\<lambda>x. f x \<notin> f ` set (take n xs)) (take n xs @ drop n xs) = drop n xs"
    using assms [folded append_take_drop_id [of n xs, THEN arg_cong, of "map f"]]
    unfolding filter_append map_append distinct_append
    by (subst filter_False) (auto intro!: filter_True)
  then show ?thesis by simp
qed

lemma batch_splits_unsent:
  assumes "distinct (map row_id rows)" "\<And>e. accepts e"
    and "process_batch accepts now limit rows = (n, messages, rows')"
  shows "image_mset publish (mset (map ox_event (filter unsent rows))) =
      mset messages + image_mset publish (mset (map ox_event (filter unsent rows')))"
    and "length (filter unsent rows') = length (filter unsent rows) - limit"
    and "distinct (map row_id rows')"
proof -
  define xs where "xs = sort_key (\<lambda>r. ob_occurred (ox_event r)) (filter unsent rows)"
  have xs: "mset xs = mset (filter unsent rows)" by (simp add: xs_def)
  have ids: "distinct (map row_id xs)"
  proof -
    have m: "mset (map row_id xs) = mset (map row_id (filter unsent rows))" by (simp add: xs_def)
    show ?thesis unfolding mset_eq_imp_distinct_iff [OF m] using assms(1) by (simp add: distinct_map_filter)
  qed
  have batch: "fetch_unsent (\<lambda>_. False) limit rows = map ox_event (take limit xs)"
    by (simp add: fetch_unsent_def xs_def)
  have all: "publish_all accepts es = es" for es using assms(2) by (simp add: publish_all_filter)
  have out: "messages = map publish (map ox_event (take limit xs))"
    "rows' = mark_sent now (map row_id (take limit xs)) rows"
    using assms(3) by (auto simp: process_batch_def batch all Let_def comp_def split: if_splits)
  have "mset (filter unsent rows') = mset (filter (\<lambda>r. row_id r \<notin> row_id ` set (take limit xs)) (filter unsent rows))"
    by (simp add: out(2) unsent_mark conj_commute)
  also have "\<dots> = mset (filter (\<lambda>r. row_id r \<notin> row_id ` set (take limit xs)) xs)"
    using xs by (metis mset_filter)
  also have "\<dots> = mset (drop limit xs)" using filter_not_taken [OF ids, of limit] by simp
  finally have rest: "mset (filter unsent rows') = mset (drop limit xs)" .
  have "mset (filter unsent rows) = mset (take limit xs) + mset (filter unsent rows')"
    unfolding rest xs [symmetric] by (metis append_take_drop_id mset_append)
  then show "image_mset publish (mset (map ox_event (filter unsent rows))) =
      mset messages + image_mset publish (mset (map ox_event (filter unsent rows')))"
    by (simp add: out(1) multiset.map_comp comp_def)
  show "length (filter unsent rows') = length (filter unsent rows) - limit"
    using rest xs by (metis length_drop size_mset)
  show "distinct (map row_id rows')" using assms(1) by (simp add: out(2))
qed

text \<open>A batch is a run of one relayer's transaction, when no other is open.\<close>

lemma publish_steps:
  assumes "rl_open st w = Some \<lparr>bt_rows = all, bt_todo = es, bt_done = ds\<rparr>"
  shows "relay_step\<^sup>*\<^sup>* st (st\<lparr>rl_open := (rl_open st)(w \<mapsto> \<lparr>bt_rows = all, bt_todo = [], bt_done = ds @ publish_all accepts es\<rparr>),
      rl_log := rl_log st @ publish_all accepts es\<rparr>)"
  using assms
proof (induction es arbitrary: st ds)
  case Nil
  then have "(rl_open st)(w \<mapsto> \<lparr>bt_rows = all, bt_todo = [], bt_done = ds\<rparr>) = rl_open st" by (simp add: fun_upd_idem)
  then show ?case by simp
next
  case (Cons e es)
  show ?case
  proof (cases "accepts e")
    case True
    let ?st = "st\<lparr>rl_open := (rl_open st)(w \<mapsto> \<lparr>bt_rows = all, bt_todo = es, bt_done = ds @ [e]\<rparr>), rl_log := rl_log st @ [e]\<rparr>"
    have step: "relay_step st ?st" using relay_step.accepted [OF Cons.prems] by simp
    have "relay_step\<^sup>*\<^sup>* ?st (?st\<lparr>rl_open := (rl_open ?st)(w \<mapsto>
        \<lparr>bt_rows = all, bt_todo = [], bt_done = (ds @ [e]) @ publish_all accepts es\<rparr>),
        rl_log := rl_log ?st @ publish_all accepts es\<rparr>)" by (rule Cons.IH) simp
    from converse_rtranclp_into_rtranclp [OF step this] show ?thesis
      by (rule back_subst [where P = "relay_step\<^sup>*\<^sup>* st"]) (cases st, simp add: True fun_eq_iff)
  next
    case False
    let ?st = "st\<lparr>rl_open := (rl_open st)(w \<mapsto> \<lparr>bt_rows = all, bt_todo = es, bt_done = ds\<rparr>)\<rparr>"
    have step: "relay_step st ?st" using relay_step.refused [OF Cons.prems] by simp
    have "relay_step\<^sup>*\<^sup>* ?st (?st\<lparr>rl_open := (rl_open ?st)(w \<mapsto>
        \<lparr>bt_rows = all, bt_todo = [], bt_done = ds @ publish_all accepts es\<rparr>),
        rl_log := rl_log ?st @ publish_all accepts es\<rparr>)" by (rule Cons.IH) simp
    from converse_rtranclp_into_rtranclp [OF step this] show ?thesis
      by (rule back_subst [where P = "relay_step\<^sup>*\<^sup>* st"]) (cases st, simp add: False fun_eq_iff)
  qed
qed

section \<open>Properties\<close>

text \<open>
  One batch of a lone relayer is a run of the step relation: what it publishes and marks is
  what the transaction's steps publish and mark.
\<close>

theorem batch_refines_steps:
  assumes "rl_open st = Map.empty" "process_batch accepts now limit (rl_rows st) = (n, messages, rows')"
  shows "\<exists>es. messages = map publish es \<and> n = length es \<and>
    relay_step\<^sup>*\<^sup>* st (st\<lparr>rl_rows := rows', rl_log := rl_log st @ es\<rparr>)"
proof -
  define es where "es = fetch_unsent (locked_in (rl_open st)) limit (rl_rows st)"
  have none: "locked_in (rl_open st) = (\<lambda>_. False)" by (auto simp: locked_in_def assms(1))
  let ?pub = "publish_all accepts es"
  have out: "messages = map publish ?pub" "n = length ?pub" "rows' = mark_sent now (map ob_id ?pub) (rl_rows st)"
    using assms(2) by (auto simp: process_batch_def Let_def es_def none split: if_splits)
  define st1 where "st1 = st\<lparr>rl_open := [0 \<mapsto> \<lparr>bt_rows = es, bt_todo = es, bt_done = []\<rparr>]\<rparr>"
  define st2 where "st2 = st\<lparr>rl_open := [0 \<mapsto> \<lparr>bt_rows = es, bt_todo = [], bt_done = ?pub\<rparr>], rl_log := rl_log st @ ?pub\<rparr>"
  have "relay_step st st1"
    using relay_step.fetch [of st 0 "rl_rows st" es limit] by (simp add: assms(1) es_def st1_def)
  moreover have "relay_step\<^sup>*\<^sup>* st1 st2"
    using publish_steps [of st1 0 es es "[]" accepts] by (simp add: st1_def st2_def)
  moreover have "relay_step st2 (st\<lparr>rl_rows := rows', rl_log := rl_log st @ ?pub\<rparr>)"
  proof -
    let ?b = "\<lparr>bt_rows = es, bt_todo = [], bt_done = ?pub\<rparr>"
    have "relay_step st2 (st2\<lparr>rl_open := (rl_open st2)(0 := None), rl_rows := mark_sent now (map ob_id (bt_done ?b)) (rl_rows st2)\<rparr>)"
      by (rule relay_step.commit) (simp_all add: st2_def)
    also have "st2\<lparr>rl_open := (rl_open st2)(0 := None), rl_rows := mark_sent now (map ob_id (bt_done ?b)) (rl_rows st2)\<rparr> =
        st\<lparr>rl_rows := rows', rl_log := rl_log st @ ?pub\<rparr>"
      using assms(1) by (cases st) (simp add: st2_def out(3))
    finally show ?thesis .
  qed
  ultimately have "relay_step\<^sup>*\<^sup>* st (st\<lparr>rl_rows := rows', rl_log := rl_log st @ ?pub\<rparr>)"
    by (meson converse_rtranclp_into_rtranclp rtranclp.rtrancl_into_rtrancl)
  with out(1,2) show ?thesis by blast
qed

text \<open>
  C27. At least once, and no oftener than failures explain: with any number of relayers on one table, in any
  interleaving of their steps, with publishes that raise before or after Redis took the event and transactions
  cut off at any point, a row is marked sent only after its event was published, nothing is published that is
  not in the outbox, and after n failures (lost answers and cut transactions) no event has been published
  more than n + 1 times: without any, never twice.
\<close>

theorem events_are_published_at_least_once:
  assumes "relay_run n st"
  shows "(\<forall>r\<in>set (rl_rows st). \<not> unsent r \<longrightarrow> ox_event r \<in> set (rl_log st)) \<and>
    set (rl_log st) \<subseteq> ox_event ` set (rl_rows st) \<and>
    (\<forall>e. count (mset (rl_log st)) e \<le> n + 1) \<and> (n = 0 \<longrightarrow> distinct (rl_log st))"
proof -
  have "count (mset (rl_log st)) e \<le> n + 1" for e
    using relay_run_published [OF assms, unfolded published_within_def, rule_format, of e] by (simp split: if_splits)
  moreover from this have "n = 0 \<longrightarrow> distinct (rl_log st)" by (auto simp: distinct_count_atmost_1 intro: le_antisym)
  ultimately show ?thesis using relay_run_inv [OF assms] by (simp add: relay_inv_def)
qed

text \<open>
  C28. While Redis accepts, the backlog drains: after as many batches as it takes at so many rows each, no row
  is unsent, and what was published is every event of the backlog, each once.
\<close>

theorem backlog_drains:
  assumes "distinct (map row_id rows)" "\<And>e. accepts e" "length (filter unsent rows) \<le> n * limit"
  shows "filter unsent (snd (poll_batches accepts now limit n rows)) = [] \<and>
    mset (fst (poll_batches accepts now limit n rows)) = image_mset publish (mset (map ox_event (filter unsent rows)))"
  using assms(1,3)
proof (induction n arbitrary: rows)
  case (Suc n)
  obtain k ms rows1 where b: "process_batch accepts now limit rows = (k, ms, rows1)" by (rule prod_cases3)
  note split = batch_splits_unsent [OF Suc.prems(1) assms(2) b]
  have "length (filter unsent rows1) \<le> n * limit" using split(2) Suc.prems(2) by simp
  note rest = Suc.IH [OF split(3) this]
  show ?case
    using rest split(1) by (cases "poll_batches accepts now limit n rows1") (simp add: b)
qed simp

text \<open>The example: three events of one saga, two of them at one time.\<close>

definition event :: "nat \<Rightarrow> string \<Rightarrow> datetime \<Rightarrow> outbox_event" where
  "event i ty t = \<lparr>ob_id = i, ob_aggregate_type = ''saga_instance'', ob_aggregate_id = 7, ob_event_type = ty, ob_version = 1,
     ob_payload = [], ob_headers = [], ob_occurred = t\<rparr>"

definition three_events :: "outbox_event list" where
  "three_events = [event 2 ''billing.saga.charged'' (DateTime 2026 5 1 2), event 0 ''billing.saga.pending'' (DateTime 2026 5 1 1),
     event 1 ''billing.saga.reserved'' (DateTime 2026 5 1 2)]"

lemma three_rows: "distinct (map row_id (rl_rows (idle three_events)))" "length (filter unsent (rl_rows (idle three_events))) = 3"
  by code_simp+

theorem backlog_drains_witness:
  "filter unsent (snd (poll_batches (\<lambda>_. True) (DateTime 2026 5 1 3) 2 2 (rl_rows (idle three_events)))) = [] \<and>
   map ms_channel (fst (poll_batches (\<lambda>_. True) (DateTime 2026 5 1 3) 2 2 (rl_rows (idle three_events)))) =
     [''opticloud.saga_instance.billing.saga.pending'', ''opticloud.saga_instance.billing.saga.charged'',
      ''opticloud.saga_instance.billing.saga.reserved'']"
proof -
  have "map ms_channel (fst (poll_batches (\<lambda>_. True) (DateTime 2026 5 1 3) 2 2 (rl_rows (idle three_events)))) =
     [''opticloud.saga_instance.billing.saga.pending'', ''opticloud.saga_instance.billing.saga.charged'',
      ''opticloud.saga_instance.billing.saga.reserved'']" by code_simp
  with backlog_drains [OF three_rows(1), of "\<lambda>_. True" 2 2] three_rows(2) show ?thesis by simp
qed

lemma idle_reached: "distinct (map ob_id es) \<Longrightarrow> relay_run 0 (idle es)"
proof (induction es rule: rev_induct)
  case (snoc e es)
  then have "relay_run 0 (idle es)" by simp
  moreover have "relay_step (idle es) (idle (es @ [e]))"
    using relay_step.insert [of e "idle es"] snoc.prems by (simp add: idle_def image_image)
  ultimately show ?case by (rule relay_run.step)
qed (rule relay_run.start)

theorem batch_refines_steps_witness:
  "\<exists>es rows. length es = 2 \<and> relay_step\<^sup>*\<^sup>* (idle three_events) ((idle three_events)\<lparr>rl_rows := rows, rl_log := es\<rparr>)"
proof -
  obtain n ms rows where b: "process_batch (\<lambda>_. True) (DateTime 2026 5 1 3) 2 (rl_rows (idle three_events)) = (n, ms, rows)"
    by (rule prod_cases3)
  have "fst (process_batch (\<lambda>_. True) (DateTime 2026 5 1 3) 2 (rl_rows (idle three_events))) = 2" by code_simp
  with batch_refines_steps [OF _ b] b show ?thesis by (auto simp: idle_def)
qed

text \<open>
  A run with a failure: the relayer fetches one row, Redis takes the event, the answer is lost, the
  transaction commits without marking the row, and the next batch publishes the event again.
\<close>

definition one_row :: outbox_event where
  "one_row = event 0 ''billing.saga.pending'' (DateTime 2026 5 1 1)"

definition retrying :: "outbox_event list \<Rightarrow> outbox_event list \<Rightarrow> outbox_event list \<Rightarrow> relay" where
  "retrying todo published sent =
     (idle [one_row])\<lparr>rl_open := [0 \<mapsto> \<lparr>bt_rows = [one_row], bt_todo = todo, bt_done = published\<rparr>], rl_log := sent\<rparr>"

lemma retried_run: "relay_run 1 (retrying [] [one_row] [one_row, one_row])"
proof -
  have "relay_run 0 (idle [one_row])" by (rule idle_reached) simp
  moreover have "relay_step (idle [one_row]) (retrying [one_row] [] [])"
    using relay_step.fetch [of "idle [one_row]" 0 "rl_rows (idle [one_row])" "[one_row]" 1]
    by (simp add: idle_def retrying_def fetch_unsent_def locked_in_def unsent_def)
  ultimately have "relay_run 0 (retrying [one_row] [] [])" by (rule relay_run.step)
  moreover have "lost_answer (retrying [one_row] [] []) (retrying [] [] [one_row])"
    using lost_answer.intros [of "retrying [one_row] [] []" 0 _ one_row "[]"] by (simp add: retrying_def idle_def)
  ultimately have "relay_run (Suc 0) (retrying [] [] [one_row])" by (rule relay_run.lost)
  then have "relay_run 1 (retrying [] [] [one_row])" by simp
  moreover have "relay_step (retrying [] [] [one_row]) ((idle [one_row])\<lparr>rl_log := [one_row]\<rparr>)"
    using relay_step.commit [of "retrying [] [] [one_row]" 0 "\<lparr>bt_rows = [one_row], bt_todo = [], bt_done = []\<rparr>" "DateTime 2026 5 1 3"]
    by (simp add: retrying_def idle_def)
  moreover have "relay_step ((idle [one_row])\<lparr>rl_log := [one_row]\<rparr>) (retrying [one_row] [] [one_row])"
    using relay_step.fetch [of "(idle [one_row])\<lparr>rl_log := [one_row]\<rparr>" 0 "rl_rows (idle [one_row])" "[one_row]" 1]
    by (simp add: idle_def retrying_def fetch_unsent_def locked_in_def unsent_def)
  moreover have "relay_step (retrying [one_row] [] [one_row]) (retrying [] [one_row] [one_row, one_row])"
    using relay_step.accepted [of "retrying [one_row] [] [one_row]" 0 _ one_row "[]"] by (simp add: retrying_def idle_def)
  ultimately show ?thesis using relay_run.step by blast
qed

theorem events_are_published_at_least_once_witness:
  "\<exists>st. relay_run 1 st \<and> count (mset (rl_log st)) one_row = 2 \<and> (\<forall>e. count (mset (rl_log st)) e \<le> 2)"
proof -
  have "count (mset (rl_log (retrying [] [one_row] [one_row, one_row]))) one_row = 2" by (simp add: retrying_def idle_def)
  moreover have "count (mset (rl_log (retrying [] [one_row] [one_row, one_row]))) e \<le> 2" for e
    using events_are_published_at_least_once [OF retried_run] by (auto simp: numeral_2_eq_2)
  ultimately show ?thesis using retried_run by blast
qed

text \<open>
  Rows Redis refuses are fetched again with every batch, for ever: \<open>max_retries\<close> is never read. When the
  oldest \<open>limit\<close> rows are such rows, nothing behind them is ever published.
\<close>

theorem refused_rows_block_the_rest:
  assumes "\<forall>e\<in>set (fetch_unsent (\<lambda>_. False) limit rows). \<not> accepts e"
  shows "poll_batches accepts now limit n rows = ([], rows)"
proof (induction n)
  case (Suc n)
  have "process_batch accepts now limit rows = (0, [], rows)"
    using assms by (simp add: process_batch_def publish_all_filter Let_def)
  with Suc show ?case by simp
qed simp

theorem refused_rows_block_the_rest_witness:
  "\<forall>n. poll_batches (\<lambda>e. ob_id e = 2) (DateTime 2026 5 1 3) 1 n (rl_rows (idle three_events)) = ([], rl_rows (idle three_events))"
proof -
  have "\<forall>e\<in>set (fetch_unsent (\<lambda>_. False) 1 (rl_rows (idle three_events))). \<not> (ob_id e = 2)" by code_simp
  from refused_rows_block_the_rest [OF this] show ?thesis by blast
qed

text \<open>
  A relayer that started with both connections up and polls an empty outbox never reports that it is
  ready: the flag for the database is set only after a batch with rows.
\<close>

theorem idle_relayer_is_never_ready:
  "\<not> readyz (fold poll (Started # replicate n (Polled 0)) initial_state)"
proof -
  have "fold poll (replicate n (Polled 0)) st = st" for st by (induction n) simp_all
  then show ?thesis by (simp add: readyz_def initial_state_def)
qed

end
