(* ===== verification/RateLimit.thy ===== *)
theory RateLimit
  imports PyText Models
begin

text \<open>
  The rate limit of the solver orchestrator (apps/solver-orchestrator/src/solver_orchestrator/rate_limit.py
  and its answer in routes.py): sliding windows of one second and one minute per plan, kept in Redis sorted
  sets by a Lua script that runs atomically. Times are milliseconds of one clock.
\<close>

section \<open>Sorted sets that expire\<close>

text \<open>
  A sorted set maps members to scores; a key that holds one has a time at which it expires. Of Redis the
  script uses \<^verbatim>\<open>ZREMRANGEBYSCORE\<close>, \<^verbatim>\<open>ZCARD\<close>, \<^verbatim>\<open>ZRANGE key 0 0 WITHSCORES\<close>, \<^verbatim>\<open>ZADD\<close> and \<^verbatim>\<open>PEXPIRE\<close>.
\<close>

type_synonym zset = "int dict"
type_synonym redis = "string \<Rightarrow> (zset \<times> int) option"

definition zset_at :: "int \<Rightarrow> redis \<Rightarrow> string \<Rightarrow> zset" where
  "zset_at now r key = (case r key of None \<Rightarrow> [] | Some (z, expires) \<Rightarrow> if expires \<le> now then [] else z)"

definition zremrangebyscore :: "int \<Rightarrow> string \<Rightarrow> int \<Rightarrow> int \<Rightarrow> redis \<Rightarrow> redis" where
  "zremrangebyscore now key lo hi r =
     (let z = filter (\<lambda>(member, score). \<not> (lo \<le> score \<and> score \<le> hi)) (zset_at now r key)
      in r(key := (if z = [] then None else map_option (\<lambda>(_, expires). (z, expires)) (r key))))"

definition zcard :: "int \<Rightarrow> redis \<Rightarrow> string \<Rightarrow> int" where
  "zcard now r key = int (length (zset_at now r key))"

definition oldest_score :: "int \<Rightarrow> redis \<Rightarrow> string \<Rightarrow> int" where
  "oldest_score now r key = (case map snd (zset_at now r key) of [] \<Rightarrow> now | s # ss \<Rightarrow> fold min ss s)"

definition zadd_pexpire :: "int \<Rightarrow> string \<Rightarrow> string \<Rightarrow> int \<Rightarrow> redis \<Rightarrow> redis" where
  "zadd_pexpire now key member window_ms r =
     r(key \<mapsto> (AList.update member now (zset_at now r key), now + window_ms))"

section \<open>The script\<close>

text \<open>A window is its key, its length and its limit. The first loop prunes every window and keeps the
  denial with the shortest wait, of equal waits the one of the shorter window.\<close>

record denial =
  dn_limit :: int
  dn_reset_ms :: int
  dn_retry_ms :: int
  dn_window_ms :: int

type_synonym window = "string \<times> int \<times> int"

definition denial_of :: "int \<Rightarrow> redis \<Rightarrow> window \<Rightarrow> denial option" where
  "denial_of now r = (\<lambda>(key, window_ms, limit).
     if limit \<le> zcard now r key then
       (let reset_ms = oldest_score now r key + window_ms; wait = reset_ms - now
        in Some \<lparr>dn_limit = limit, dn_reset_ms = reset_ms, dn_retry_ms = (if wait < 1 then 1 else wait),
                 dn_window_ms = window_ms\<rparr>)
     else None)"

definition sooner :: "denial option \<Rightarrow> denial option \<Rightarrow> denial option" where
  "sooner exceeded new =
     (case (exceeded, new) of
        (d, None) \<Rightarrow> d
      | (None, Some n) \<Rightarrow> Some n
      | (Some d, Some n) \<Rightarrow>
          if dn_retry_ms n < dn_retry_ms d \<or> (dn_retry_ms n = dn_retry_ms d \<and> dn_window_ms n < dn_window_ms d)
          then Some n else Some d)"

fun scan_windows :: "int \<Rightarrow> window list \<Rightarrow> denial option \<Rightarrow> redis \<Rightarrow> denial option \<times> redis" where
  "scan_windows now [] exceeded r = (exceeded, r)"
| "scan_windows now (w # ws) exceeded r =
     (let r1 = zremrangebyscore now (fst w) 0 (now - fst (snd w)) r
      in scan_windows now ws (sooner exceeded (denial_of now r1 w)) r1)"

fun add_to_windows :: "int \<Rightarrow> string \<Rightarrow> int \<Rightarrow> window list \<Rightarrow> redis \<Rightarrow> redis" where
  "add_to_windows now member i [] r = r"
| "add_to_windows now member i ((key, window_ms, limit) # ws) r =
     add_to_windows now member (i + 1) ws (zadd_pexpire now key (member @ '':'' @ show_int i) window_ms r)"

definition sliding_window_script :: "int \<Rightarrow> string \<Rightarrow> window list \<Rightarrow> redis \<Rightarrow> int list \<times> redis" where
  "sliding_window_script now member ws r =
     (case scan_windows now ws None r of
        (Some d, r1) \<Rightarrow> ([0, dn_limit d, 0, dn_reset_ms d, dn_retry_ms d, dn_window_ms d], r1)
      | (None, r1) \<Rightarrow> ([1, 0, 0, 0, 0, 0], add_to_windows now member 1 ws r1))"

section \<open>The check of a request\<close>

record plan_rate_limit =
  pr_per_second :: "int option"
  pr_per_minute :: "int option"
  pr_custom :: bool

fun PLAN_RATE_LIMITS :: "plan_code \<Rightarrow> plan_rate_limit" where
  "PLAN_RATE_LIMITS FREE = \<lparr>pr_per_second = Some 3, pr_per_minute = Some 30, pr_custom = False\<rparr>"
| "PLAN_RATE_LIMITS STARTER = \<lparr>pr_per_second = Some 5, pr_per_minute = Some 200, pr_custom = False\<rparr>"
| "PLAN_RATE_LIMITS PRO = \<lparr>pr_per_second = Some 20, pr_per_minute = Some 1000, pr_custom = False\<rparr>"
| "PLAN_RATE_LIMITS TEAM = \<lparr>pr_per_second = Some 100, pr_per_minute = Some 5000, pr_custom = False\<rparr>"
| "PLAN_RATE_LIMITS ENTERPRISE = \<lparr>pr_per_second = None, pr_per_minute = None, pr_custom = True\<rparr>"

record rate_limit_decision =
  rd_plan :: plan_code
  rd_limit :: int
  rd_remaining :: int
  rd_reset_epoch :: int
  rd_retry_after :: int
  rd_window :: int

datatype rate_outcome = Admitted | RateLimitExceeded rate_limit_decision | RateLimitUnavailable

text \<open>
  The plan a user is limited by: that of the newest active subscription whose period contains the time, or
  free.
\<close>

definition resolve_user_plan_code :: "datetime \<Rightarrow> nat \<Rightarrow> billing_db \<Rightarrow> plan_code" where
  "resolve_user_plan_code now user db =
     (case rev (sort_key sub_created (filter (\<lambda>s. sub_user s = user \<and> sub_status s = ''active'' \<and>
                                               sub_start s \<le> now \<and> now < sub_end s) (db_subs db))) of
        [] \<Rightarrow> FREE | s # _ \<Rightarrow> sub_plan s)"

definition window_key :: "plan_code \<Rightarrow> nat \<Rightarrow> int \<Rightarrow> string" where
  "window_key plan user window_seconds =
     ''ratelimit:'' @ plan_code_value plan @ '':'' @ show_int (int user) @ '':execution_write:'' @ show_int window_seconds"

definition rate_checks :: "plan_code \<Rightarrow> (int \<times> int) list" where
  "rate_checks plan =
     (case pr_per_second (PLAN_RATE_LIMITS plan) of None \<Rightarrow> [] | Some l \<Rightarrow> [(1, l)]) @
     (case pr_per_minute (PLAN_RATE_LIMITS plan) of None \<Rightarrow> [] | Some l \<Rightarrow> [(60, l)])"

text \<open>\<^verbatim>\<open>math.ceil(ms / 1000)\<close>.\<close>

definition ceil_seconds :: "int \<Rightarrow> int" where
  "ceil_seconds ms = - (- ms div 1000)"

definition read_script_result :: "plan_code \<Rightarrow> int list \<Rightarrow> rate_outcome" where
  "read_script_result plan raw =
     (case raw of
        [allowed, limit, remaining, reset_ms, retry_ms, window_ms] \<Rightarrow>
          if allowed = 1 then Admitted
          else if limit \<le> 0 \<or> reset_ms \<le> 0 \<or> retry_ms \<le> 0 \<or> window_ms \<le> 0 then RateLimitUnavailable
          else RateLimitExceeded
            \<lparr>rd_plan = plan, rd_limit = limit, rd_remaining = max remaining 0,
             rd_reset_epoch = ceil_seconds reset_ms, rd_retry_after = max (ceil_seconds retry_ms) 1,
             rd_window = max (ceil_seconds window_ms) 1\<rparr>
      | _ \<Rightarrow> RateLimitUnavailable)"

definition rate_windows :: "plan_code \<Rightarrow> nat \<Rightarrow> window list" where
  "rate_windows plan user =
     map (\<lambda>(window_seconds, limit). (window_key plan user window_seconds, window_seconds * 1000, limit)) (rate_checks plan)"

definition check_sliding_windows :: "plan_code \<Rightarrow> nat \<Rightarrow> int \<Rightarrow> string \<Rightarrow> redis \<Rightarrow> rate_outcome \<times> redis" where
  "check_sliding_windows plan user now_ms member r =
     (if rate_checks plan = [] then (Admitted, r)
      else (let (raw, r') = sliding_window_script now_ms member (rate_windows plan user) r
            in (read_script_result plan raw, r')))"

text \<open>\<open>up\<close> says whether Redis answers in time; without an answer the request is refused.\<close>

definition enforce_rate_limit ::
  "bool \<Rightarrow> datetime \<Rightarrow> int \<Rightarrow> string \<Rightarrow> nat \<Rightarrow> billing_db \<Rightarrow> redis \<Rightarrow> rate_outcome \<times> redis" where
  "enforce_rate_limit up now now_ms member user db r =
     (let plan = resolve_user_plan_code now user db in
      if pr_custom (PLAN_RATE_LIMITS plan) then (Admitted, r)
      else if up then check_sliding_windows plan user now_ms member r
      else (RateLimitUnavailable, r))"

text \<open>The headers of the 429 answer.\<close>

definition rate_limit_headers :: "rate_limit_decision \<Rightarrow> (string \<times> string) list" where
  "rate_limit_headers d =
     [(''X-RateLimit-Limit'', show_int (rd_limit d)), (''X-RateLimit-Remaining'', show_int (rd_remaining d)),
      (''X-RateLimit-Reset'', show_int (rd_reset_epoch d)), (''Retry-After'', show_int (rd_retry_after d))]"

end
