(* ===== verification/RateLimitProperties.thy ===== *)
theory RateLimitProperties
  imports RateLimit "HOL-Library.Multiset"
begin

text \<open>
  No window is ever overrun, and what the wait of a refused request is worth. The scores stored for a window
  are related to the times of the requests it admitted (\<open>key_inv\<close>); the script changes each key by itself
  (\<open>scan_result\<close>, \<open>add_result\<close>).
\<close>

section \<open>One key\<close>

type_synonym zentry = "(zset \<times> int) option"

definition entry_at :: "int \<Rightarrow> zentry \<Rightarrow> zset" where
  "entry_at now e = (case e of None \<Rightarrow> [] | Some (z, expires) \<Rightarrow> if expires \<le> now then [] else z)"

definition prune_entry :: "int \<Rightarrow> int \<Rightarrow> zentry \<Rightarrow> zentry" where
  "prune_entry now w e =
     (let z = filter (\<lambda>(member, score). \<not> (0 \<le> score \<and> score \<le> now - w)) (entry_at now e)
      in if z = [] then None else map_option (\<lambda>(_, expires). (z, expires)) e)"

definition add_entry :: "int \<Rightarrow> int \<Rightarrow> string \<Rightarrow> zentry \<Rightarrow> zentry" where
  "add_entry now w member e = Some (AList.update member now (entry_at now e), now + w)"

lemma zset_entry: "zset_at now r key = entry_at now (r key)"
  by (simp add: zset_at_def entry_at_def)

lemma prune_apply: "zremrangebyscore now key 0 (now - w) r k = (if k = key then prune_entry now w (r key) else r k)"
  by (simp add: zremrangebyscore_def prune_entry_def zset_entry Let_def)

lemma add_apply: "zadd_pexpire now key member w r k = (if k = key then add_entry now w member (r key) else r k)"
  by (simp add: zadd_pexpire_def add_entry_def zset_entry)

lemma update_fresh: "k \<notin> fst ` set al \<Longrightarrow> AList.update k v al = al @ [(k, v)]"
  by (induction al) auto

text \<open>
  What an entry says about the times \<open>A\<close> its window admitted, at time \<open>n\<close>: the scores inside the window
  are the times inside the window, and the entry does not expire while one of them is.
\<close>

definition key_inv :: "int \<Rightarrow> int \<Rightarrow> int list \<Rightarrow> zentry \<Rightarrow> bool" where
  "key_inv w n A e \<longleftrightarrow> (\<forall>a\<in>set A. a \<le> n) \<and>
     (case e of
        None \<Rightarrow> \<forall>a\<in>set A. a \<le> n - w
      | Some (z, expires) \<Rightarrow> (\<forall>s\<in>snd ` set z. 0 \<le> s \<and> s \<le> n \<and> s + w \<le> expires) \<and>
          mset (filter (\<lambda>s. n - w < s) (map snd z)) = mset (filter (\<lambda>s. n - w < s) A))"

lemma key_inv_fresh: "key_inv w n [] None"
  by (simp add: key_inv_def)

lemma key_inv_later:
  assumes "key_inv w n A e" "n \<le> n'"
  shows "key_inv w n' A e"
proof (cases e)
  case None
  then show ?thesis using assms by (auto simp: key_inv_def)
next
  case (Some p)
  obtain z ex where p: "p = (z, ex)" by (cases p)
  have sub: "filter (\<lambda>s. n' - w < s) xs = filter (\<lambda>s. n' - w < s) (filter (\<lambda>s. n - w < s) xs)" for xs
    using assms(2) by (auto intro!: filter_cong)
  have "mset (filter (\<lambda>s. n' - w < s) (map snd z)) = mset (filter (\<lambda>s. n' - w < s) A)"
    unfolding sub [of "map snd z"] sub [of A] mset_filter [of "\<lambda>s. n' - w < s"]
    using assms(1) Some p by (simp add: key_inv_def)
  then show ?thesis using assms Some p by (fastforce simp: key_inv_def)
qed

lemma key_inv_scores:
  assumes "key_inv w n A e" "0 < w"
  shows "mset (filter (\<lambda>s. n - w < s) (map snd (entry_at n e))) = mset (filter (\<lambda>s. n - w < s) A)"
proof (cases e)
  case None
  then show ?thesis using assms(1) by (auto simp: key_inv_def entry_at_def filter_empty_conv)
next
  case (Some p)
  obtain z ex where p: "p = (z, ex)" by (cases p)
  have scores: "\<forall>s\<in>snd ` set z. s + w \<le> ex"
    "mset (filter (\<lambda>s. n - w < s) (map snd z)) = mset (filter (\<lambda>s. n - w < s) A)"
    using assms(1) Some p by (auto simp: key_inv_def)
  show ?thesis
  proof (cases "ex \<le> n")
    case True
    then have "filter (\<lambda>s. n - w < s) (map snd z) = []" using scores(1) by (fastforce simp: filter_empty_conv)
    with scores(2) True show ?thesis by (simp add: entry_at_def Some p)
  next
    case False
    with scores(2) show ?thesis by (simp add: entry_at_def Some p)
  qed
qed

lemma key_inv_range: "key_inv w n A e \<Longrightarrow> s \<in> snd ` set (entry_at n e) \<Longrightarrow> 0 \<le> s \<and> s \<le> n"
  by (auto simp: key_inv_def entry_at_def split: option.splits if_splits)

text \<open>After pruning the entry holds exactly the admitted times of the window.\<close>

lemma pruned_entry:
  assumes inv: "key_inv w n A e" and w: "0 < w"
  shows "mset (map snd (entry_at n (prune_entry n w e))) = mset (filter (\<lambda>s. n - w < s) A)"
    and "key_inv w n A (prune_entry n w e)"
    and "fst ` set (entry_at n (prune_entry n w e)) \<subseteq> fst ` set (entry_at n e)"
proof -
  let ?z = "filter (\<lambda>(member, score). \<not> (0 \<le> score \<and> score \<le> n - w)) (entry_at n e)"
  have "filter (\<lambda>(member, score). \<not> (0 \<le> score \<and> score \<le> n - w)) (entry_at n e) = filter (\<lambda>p. n - w < snd p) (entry_at n e)"
  proof (rule filter_cong [OF HOL.refl])
    fix p assume "p \<in> set (entry_at n e)"
    then have "0 \<le> snd p" using key_inv_range [OF inv] by blast
    then show "(case p of (member, score) \<Rightarrow> \<not> (0 \<le> score \<and> score \<le> n - w)) = (n - w < snd p)"
      by (cases p) auto
  qed
  then have kept: "map snd ?z = filter (\<lambda>s. n - w < s) (map snd (entry_at n e))"
    by (simp add: filter_map comp_def)
  have e: "entry_at n (prune_entry n w e) = ?z"
    by (auto simp: prune_entry_def entry_at_def Let_def split: option.split if_splits)
  show scores: "mset (map snd (entry_at n (prune_entry n w e))) = mset (filter (\<lambda>s. n - w < s) A)"
    unfolding e kept by (rule key_inv_scores [OF inv w])
  show "fst ` set (entry_at n (prune_entry n w e)) \<subseteq> fst ` set (entry_at n e)" unfolding e by auto
  show "key_inv w n A (prune_entry n w e)"
  proof (cases "?z = []")
    case True
    then have "mset (filter (\<lambda>s. n - w < s) A) = {#}" using scores unfolding e by (simp del: mset_filter)
    then have "\<forall>a\<in>set A. a \<le> n - w" by (auto simp: filter_empty_conv simp del: mset_filter)
    then show ?thesis using inv True by (simp add: key_inv_def prune_entry_def)
  next
    case False
    obtain z ex where some: "e = Some (z, ex)" using False by (cases e) (auto simp: entry_at_def)
    define zz where "zz = ?z"
    have "set zz \<subseteq> set z" by (auto simp: zz_def some entry_at_def split: if_splits)
    moreover have "\<forall>s\<in>snd ` set z. 0 \<le> s \<and> s \<le> n \<and> s + w \<le> ex" using inv by (simp add: some key_inv_def)
    ultimately have range: "\<forall>s\<in>snd ` set zz. 0 \<le> s \<and> s \<le> n \<and> s + w \<le> ex" by blast
    have "filter (\<lambda>s. n - w < s) (map snd zz) = map snd zz" unfolding zz_def kept by simp
    then have m: "mset (filter (\<lambda>s. n - w < s) (map snd zz)) = mset (filter (\<lambda>s. n - w < s) A)"
      using scores unfolding e zz_def by simp
    have pruned: "prune_entry n w e = Some (zz, ex)" using False by (simp add: prune_entry_def some zz_def)
    have "\<forall>a\<in>set A. a \<le> n" using inv by (simp add: key_inv_def)
    with range m show ?thesis unfolding key_inv_def pruned by simp
  qed
qed

lemma add_entry_inv:
  assumes inv: "key_inv w n A e" and w: "0 < w" "0 \<le> n" and fresh: "member \<notin> fst ` set (entry_at n e)"
  shows "key_inv w n (A @ [n]) (add_entry n w member e)"
proof -
  let ?z = "entry_at n e"
  have z: "AList.update member n ?z = ?z @ [(member, n)]" by (rule update_fresh [OF fresh])
  have "mset (filter (\<lambda>s. n - w < s) (map snd (?z @ [(member, n)]))) = mset (filter (\<lambda>s. n - w < s) (A @ [n]))"
    using key_inv_scores [OF inv w(1)] w(1) by simp
  moreover have "\<forall>s\<in>snd ` set (?z @ [(member, n)]). 0 \<le> s \<and> s \<le> n \<and> s + w \<le> n + w"
    using key_inv_range [OF inv] w(2) by auto
  moreover have "\<forall>a\<in>set (A @ [n]). a \<le> n" using inv by (auto simp: key_inv_def)
  ultimately show ?thesis unfolding key_inv_def add_entry_def z by simp
qed

section \<open>The script, key by key\<close>

lemma scan_both:
  assumes "scan_windows now ws e r = (d, r1)" "distinct (map fst ws)"
  shows "(\<forall>k. r1 k = (case map_of ws k of Some (w, l) \<Rightarrow> prune_entry now w (r k) | None \<Rightarrow> r k)) \<and>
    (d = None \<longleftrightarrow> e = None \<and> (\<forall>(k, w, l)\<in>set ws. int (length (entry_at now (prune_entry now w (r k)))) < l))"
  using assms
proof (induction ws arbitrary: e r)
  case (Cons x ws)
  obtain key w l where x: "x = (key, w, l)" by (cases x)
  define r' where "r' = zremrangebyscore now key 0 (now - w) r"
  have r': "r' k = (if k = key then prune_entry now w (r key) else r k)" for k unfolding r'_def by (rule prune_apply)
  have step: "scan_windows now (x # ws) e r = scan_windows now ws (sooner e (denial_of now r' x)) r'"
    unfolding scan_windows.simps Let_def r'_def x fst_conv snd_conv ..
  have key: "key \<notin> fst ` set ws" "distinct (map fst ws)" using Cons.prems(2) by (simp_all add: x)
  note ih = Cons.IH [OF Cons.prems(1) [unfolded step] key(2)]
  have "r' k = r k" if "(k, w', l') \<in> set ws" for k w' l' using that key(1) by (auto simp: r' [of k] image_iff)
  then have "(\<forall>(k, w, l)\<in>set ws. int (length (entry_at now (prune_entry now w (r' k)))) < l) \<longleftrightarrow>
      (\<forall>(k, w, l)\<in>set ws. int (length (entry_at now (prune_entry now w (r k)))) < l)"
    by (intro ball_cong) auto
  moreover have "sooner e (denial_of now r' x) = None \<longleftrightarrow> e = None \<and> int (length (entry_at now (prune_entry now w (r key)))) < l"
    by (auto simp: sooner_def denial_of_def x zcard_def zset_entry r' [of key] Let_def split: option.split)
  ultimately have "d = None \<longleftrightarrow> e = None \<and>
      (\<forall>(k, w, l)\<in>set (x # ws). int (length (entry_at now (prune_entry now w (r k)))) < l)"
    using ih by (auto simp: x)
  moreover have "r1 k = (case map_of (x # ws) k of Some (w, l) \<Rightarrow> prune_entry now w (r k) | None \<Rightarrow> r k)" for k
  proof (cases "k = key")
    case True
    then have "map_of ws k = None" using key(1) by (simp add: map_of_eq_None_iff)
    with ih True show ?thesis by (simp add: x r' [of key])
  next
    case False
    have "map_of (x # ws) k = map_of ws k" using False by (simp add: x)
    moreover have "r' k = r k" using False by (simp add: r')
    ultimately show ?thesis using ih by (simp split: option.split)
  qed
  ultimately show ?case by blast
qed auto

lemmas scan_result = scan_both [THEN conjunct1, THEN spec] scan_both [THEN conjunct2]

lemma add_result:
  assumes "distinct (map fst ws)"
  shows "case map_of ws k of
      Some (w, l) \<Rightarrow> \<exists>j. add_to_windows now member i ws r k = add_entry now w (member @ '':'' @ show_int j) (r k)
    | None \<Rightarrow> add_to_windows now member i ws r k = r k"
  using assms
proof (induction ws arbitrary: i r)
  case (Cons x ws)
  obtain key w l where x: "x = (key, w, l)" by (cases x)
  define r' where "r' = zadd_pexpire now key (member @ '':'' @ show_int i) w r"
  have r': "r' k = (if k = key then add_entry now w (member @ '':'' @ show_int i) (r key) else r k)" for k
    unfolding r'_def by (rule add_apply)
  have step: "add_to_windows now member i (x # ws) r = add_to_windows now member (i + 1) ws r'"
    unfolding x add_to_windows.simps r'_def ..
  have d: "distinct (map fst ws)" and key: "key \<notin> fst ` set ws" using Cons.prems by (simp_all add: x)
  have none: "map_of ws key = None" using key by (simp add: map_of_eq_None_iff)
  show ?case
    unfolding step using Cons.IH [OF d, of "i + 1" r'] none
    by (cases "k = key") (auto simp: x r' [of k] r' [of key] split: option.splits)
qed simp

section \<open>A stream of requests\<close>

record rate_request =
  rq_now :: int
  rq_plan :: plan_code
  rq_user :: nat
  rq_member :: string

text \<open>The requests in the order in which Redis runs their scripts, and those that were admitted.\<close>

definition rate_step :: "rate_request \<Rightarrow> rate_request list \<times> redis \<Rightarrow> rate_request list \<times> redis" where
  "rate_step q = (\<lambda>(admitted, r).
     let (out, r') = check_sliding_windows (rq_plan q) (rq_user q) (rq_now q) (rq_member q) r
     in (if out = Admitted then admitted @ [q] else admitted, r'))"

definition rate_run :: "rate_request list \<Rightarrow> rate_request list \<times> redis" where
  "rate_run qs = fold rate_step qs ([], \<lambda>_. None)"

definition admitted_times :: "plan_code \<Rightarrow> nat \<Rightarrow> rate_request list \<Rightarrow> int list" where
  "admitted_times p u admitted = map rq_now (filter (\<lambda>q. rq_plan q = p \<and> rq_user q = u) admitted)"

text \<open>The requests of a window: at most \<open>l\<close> of the times lie in any interval of length \<open>w\<close>.\<close>

definition bounded_by :: "int \<Rightarrow> int \<Rightarrow> int list \<Rightarrow> bool" where
  "bounded_by w l A \<longleftrightarrow> (\<forall>t. int (length (filter (\<lambda>a. t - w < a \<and> a \<le> t) A)) \<le> l)"

lemma bounded_by_snoc:
  assumes "bounded_by w l A" "\<forall>a\<in>set A. a \<le> now" "int (length (filter (\<lambda>a. now - w < a) A)) < l"
  shows "bounded_by w l (A @ [now])"
  unfolding bounded_by_def
proof
  fix t
  show "int (length (filter (\<lambda>a. t - w < a \<and> a \<le> t) (A @ [now]))) \<le> l"
  proof (cases "t < now")
    case True
    then show ?thesis using assms(1) by (simp add: bounded_by_def)
  next
    case False
    have "length (filter (\<lambda>a. t - w < a \<and> a \<le> t) A) \<le> length (filter (\<lambda>a. now - w < a) A)"
      using False by (induction A) auto
    with assms(3) show ?thesis by auto
  qed
qed

lemma plan_code_no_colon: "CHR '':'' \<notin> set (plan_code_value p)"
  by (cases p) simp_all

lemma plan_code_value_inject: "plan_code_value p = plan_code_value p' \<longleftrightarrow> p = p'"
  by (cases p; cases p') simp_all

lemma window_key_inject:
  assumes "0 \<le> s" "0 \<le> s'"
  shows "window_key p u s = window_key p' u' s' \<longleftrightarrow> p = p' \<and> u = u' \<and> s = s'"
proof -
  have "window_key p u s = window_key p' u' s' \<longleftrightarrow>
      plan_code_value p @ CHR '':'' # (show_int (int u) @ CHR '':'' # (''execution_write:'' @ show_int s)) =
      plan_code_value p' @ CHR '':'' # (show_int (int u') @ CHR '':'' # (''execution_write:'' @ show_int s'))"
    by (simp add: window_key_def)
  then show ?thesis
    using assms by (simp add: split_at_first plan_code_no_colon no_colon_in_int plan_code_value_inject show_int_inject)
qed

lemma rate_checks_seconds: "(s, l) \<in> set (rate_checks p) \<Longrightarrow> s = 1 \<or> s = 60"
  by (cases p) (auto simp: rate_checks_def)

lemma rate_checks_limit: "(s, l) \<in> set (rate_checks p) \<Longrightarrow> 0 \<le> l"
  by (cases p) (auto simp: rate_checks_def)

lemma rate_checks_distinct: "distinct (map fst (rate_checks p))"
  by (cases p) (simp_all add: rate_checks_def)

lemma rate_window_keys:
  assumes "(s, l) \<in> set (rate_checks p')"
  shows "map_of (rate_windows p u) (window_key p' u' s) = (if p = p' \<and> u = u' then Some (s * 1000, l) else None)"
proof -
  have s: "0 \<le> s" using rate_checks_seconds [OF assms] by auto
  have checks: "0 \<le> x" if "(x, y) \<in> set (rate_checks p)" for x y using rate_checks_seconds [OF that] by auto
  have mapped: "map_of (map (\<lambda>(x, y). (window_key p u x, x * 1000, y)) cs) (window_key p' u' s) =
      (if p = p' \<and> u = u' then map_option (\<lambda>y. (s * 1000, y)) (map_of cs s) else None)"
    if "\<forall>(x, y)\<in>set cs. 0 \<le> x" for cs
    using that
  proof (induction cs)
    case (Cons c cs)
    obtain x y where c: "c = (x, y)" by (cases c)
    with Cons.prems have "window_key p u x = window_key p' u' s \<longleftrightarrow> p = p' \<and> u = u' \<and> x = s"
      by (intro window_key_inject [OF _ s]) simp
    with Cons show ?case by (auto simp: c)
  qed simp
  have "map_of (rate_windows p u) (window_key p' u' s) =
      (if p = p' \<and> u = u' then map_option (\<lambda>y. (s * 1000, y)) (map_of (rate_checks p) s) else None)"
    unfolding rate_windows_def by (rule mapped) (use checks in blast)
  moreover have "map_of (rate_checks p') s = Some l" using assms rate_checks_distinct by (simp add: map_of_is_SomeI)
  ultimately show ?thesis by auto
qed

lemma rate_windows_distinct: "distinct (map fst (rate_windows p u))"
proof -
  have "distinct (map (\<lambda>x. window_key p u (fst x)) cs)" if "\<forall>(x, y)\<in>set cs. 0 \<le> x" "distinct (map fst cs)" for cs :: "(int \<times> int) list"
    using that
  proof (induction cs)
    case (Cons c cs)
    then show ?case by (cases c) (force simp: window_key_inject)
  qed simp
  moreover have "\<forall>(x, y)\<in>set (rate_checks p). 0 \<le> x" using rate_checks_seconds by fastforce
  ultimately show ?thesis
    using rate_checks_distinct [of p] by (simp add: rate_windows_def comp_def case_prod_beta)
qed

lemma in_rate_windows: "(k, w, l) \<in> set (rate_windows p u) \<longleftrightarrow> (\<exists>s. (s, l) \<in> set (rate_checks p) \<and> k = window_key p u s \<and> w = s * 1000)"
  by (auto simp: rate_windows_def)

text \<open>The members of an entry come from the requests that were served; their names hold no colon.\<close>

definition named :: "string set \<Rightarrow> zentry \<Rightarrow> bool" where
  "named M e \<longleftrightarrow> (\<forall>now. \<forall>x\<in>fst ` set (entry_at now e). \<exists>m\<in>M. \<exists>y. x = m @ CHR '':'' # y)"

lemma named_mono: "named M e \<Longrightarrow> M \<subseteq> M' \<Longrightarrow> named M' e"
  unfolding named_def by blast

lemma named_prune:
  assumes "named M e"
  shows "named M (prune_entry now w e)"
proof -
  have "set (entry_at n (prune_entry now w e)) \<subseteq> set (entry_at now e)" for n
    by (auto simp: prune_entry_def entry_at_def Let_def split: option.splits if_splits)
  with assms show ?thesis unfolding named_def by blast
qed

lemma named_add:
  assumes "named M e" "m \<in> M"
  shows "named M (add_entry now w (m @ '':'' @ y) e)"
proof -
  have "fst ` set (entry_at n (add_entry now w (m @ '':'' @ y) e)) \<subseteq> insert (m @ '':'' @ y) (fst ` set (entry_at now e))" for n
    by (auto simp: add_entry_def entry_at_def dom_update split: if_splits option.splits)
  moreover have "\<exists>m\<in>M. \<exists>z. x = m @ CHR '':'' # z" if "x \<in> insert (m @ '':'' @ y) (fst ` set (entry_at now e))" for x
    using that assms unfolding named_def by auto
  ultimately show ?thesis unfolding named_def by blast
qed

lemma named_fresh:
  assumes "named M e" "m \<notin> M" "CHR '':'' \<notin> set m" "\<forall>x\<in>M. CHR '':'' \<notin> set x"
  shows "m @ '':'' @ y \<notin> fst ` set (entry_at now e)"
  using assms split_at_first [of "CHR '':''" m] unfolding named_def by fastforce

definition windows_inv :: "int \<Rightarrow> string set \<Rightarrow> rate_request list \<Rightarrow> redis \<Rightarrow> bool" where
  "windows_inv n M admitted r \<longleftrightarrow>
     (\<forall>p u. \<forall>(s, l)\<in>set (rate_checks p).
        key_inv (s * 1000) n (admitted_times p u admitted) (r (window_key p u s)) \<and>
        named M (r (window_key p u s)) \<and> bounded_by (s * 1000) l (admitted_times p u admitted))"

lemma windows_invD:
  assumes "windows_inv n M admitted r" "(s, l) \<in> set (rate_checks p)"
  shows "key_inv (s * 1000) n (admitted_times p u admitted) (r (window_key p u s))"
    "named M (r (window_key p u s))" "bounded_by (s * 1000) l (admitted_times p u admitted)"
  using assms unfolding windows_inv_def by fastforce+

text \<open>What the check does to each window of each user.\<close>

lemma check_result:
  assumes "check_sliding_windows p u now m r = (out, r')" "rate_checks p \<noteq> []"
  shows "out = Admitted \<longleftrightarrow>
      (\<forall>(s, l)\<in>set (rate_checks p). int (length (entry_at now (prune_entry now (s * 1000) (r (window_key p u s))))) < l)"
    and "(s, l) \<in> set (rate_checks p') \<Longrightarrow>
      (if p = p' \<and> u = u' then
         \<exists>j. r' (window_key p' u' s) = (if out = Admitted
           then add_entry now (s * 1000) (m @ '':'' @ show_int j) (prune_entry now (s * 1000) (r (window_key p' u' s)))
           else prune_entry now (s * 1000) (r (window_key p' u' s)))
       else r' (window_key p' u' s) = r (window_key p' u' s))"
proof -
  let ?ws = "rate_windows p u"
  obtain d r1 where scan: "scan_windows now ?ws None r = (d, r1)" by (rule prod.exhaust)
  have out: "out = Admitted \<longleftrightarrow> d = None" "r' = (if d = None then add_to_windows now m 1 ?ws r1 else r1)"
    using assms by (auto simp: check_sliding_windows_def sliding_window_script_def scan read_script_result_def
        split: option.splits if_splits)
  note scan' = scan_result [OF scan rate_windows_distinct]
  show "out = Admitted \<longleftrightarrow>
      (\<forall>(s, l)\<in>set (rate_checks p). int (length (entry_at now (prune_entry now (s * 1000) (r (window_key p u s))))) < l)"
    unfolding out(1) scan'(2) by (fastforce simp: in_rate_windows)
  show "if p = p' \<and> u = u' then
         \<exists>j. r' (window_key p' u' s) = (if out = Admitted
           then add_entry now (s * 1000) (m @ '':'' @ show_int j) (prune_entry now (s * 1000) (r (window_key p' u' s)))
           else prune_entry now (s * 1000) (r (window_key p' u' s)))
       else r' (window_key p' u' s) = r (window_key p' u' s)"
    if s: "(s, l) \<in> set (rate_checks p')"
  proof -
    note key = rate_window_keys [OF s, of p u u']
    show ?thesis
      using add_result [OF rate_windows_distinct, where k = "window_key p' u' s" and now = now and member = m and i = 1 and r = r1, of p u] scan'(1) [of "window_key p' u' s"]
      by (auto simp: key out split: if_splits)
  qed
qed

lemma windows_step:
  assumes inv: "windows_inv n M admitted r" and now: "n \<le> rq_now q" "0 \<le> rq_now q"
    and m: "rq_member q \<notin> M" "CHR '':'' \<notin> set (rq_member q)" "\<forall>x\<in>M. CHR '':'' \<notin> set x"
    and step: "rate_step q (admitted, r) = (admitted', r')"
  shows "windows_inv (rq_now q) (insert (rq_member q) M) admitted' r'"
proof -
  let ?now = "rq_now q" and ?M = "insert (rq_member q) M"
  obtain out where run: "check_sliding_windows (rq_plan q) (rq_user q) ?now (rq_member q) r = (out, r')"
    "admitted' = (if out = Admitted then admitted @ [q] else admitted)"
    using step by (auto simp: rate_step_def split: prod.splits)
  have "key_inv (s * 1000) ?now (admitted_times p u admitted') (r' (window_key p u s)) \<and>
      named ?M (r' (window_key p u s)) \<and> bounded_by (s * 1000) l (admitted_times p u admitted')"
    if s: "(s, l) \<in> set (rate_checks p)" for p u s l
  proof -
    let ?A = "admitted_times p u admitted" and ?e = "r (window_key p u s)" and ?w = "s * 1000"
    have w: "0 < ?w" using rate_checks_seconds [OF s] by auto
    have old: "key_inv ?w ?now ?A ?e" "named M ?e" "bounded_by ?w l ?A"
      using windows_invD [OF inv s] key_inv_later now(1) by blast+
    show ?thesis
    proof (cases "rq_plan q = p \<and> rq_user q = u")
      case False
      then have "admitted_times p u admitted' = ?A" by (auto simp: run(2) admitted_times_def)
      moreover have "r' (window_key p u s) = ?e"
      proof (cases "rate_checks (rq_plan q) = []")
        case True
        then show ?thesis using run(1) by (simp add: check_sliding_windows_def)
      next
        case nonempty: False
        show ?thesis using check_result(2) [OF run(1) nonempty s, of u] False by auto
      qed
      ultimately show ?thesis using old named_mono [OF old(2), of ?M] by auto
    next
      case True
      then have checks: "rate_checks (rq_plan q) \<noteq> []" using s by auto
      let ?pruned = "prune_entry ?now ?w ?e"
      note pruned = pruned_entry [OF old(1) w]
      obtain j where new: "r' (window_key p u s) =
          (if out = Admitted then add_entry ?now ?w (rq_member q @ '':'' @ show_int j) ?pruned else ?pruned)"
        using check_result(2) [OF run(1) checks s, of u] True by auto
      have A: "\<forall>a\<in>set ?A. a \<le> ?now" using old(1) by (simp add: key_inv_def)
      show ?thesis
      proof (cases "out = Admitted")
        case False
        then have "admitted_times p u admitted' = ?A" by (simp add: run(2))
        with False new pruned(2) named_mono [OF named_prune [OF old(2)] subset_insertI] old(3) show ?thesis by simp
      next
        case admitted: True
        then have times: "admitted_times p u admitted' = ?A @ [?now]" using True by (simp add: run(2) admitted_times_def)
        have "\<forall>(s, l)\<in>set (rate_checks p). int (length (entry_at ?now (prune_entry ?now (s * 1000) (r (window_key p u s))))) < l"
          using check_result(1) [OF run(1) checks] admitted True by simp
        then have "int (length (entry_at ?now ?pruned)) < l" using s by blast
        moreover have "length (entry_at ?now ?pruned) = length (filter (\<lambda>a. ?now - ?w < a) ?A)"
          using arg_cong [OF pruned(1), of size] by (simp del: mset_filter)
        ultimately have room: "int (length (filter (\<lambda>a. ?now - ?w < a) ?A)) < l" by simp
        have "rq_member q @ '':'' @ show_int j \<notin> fst ` set (entry_at ?now ?pruned)"
          using named_fresh [OF named_prune [OF old(2)] m] .
        from add_entry_inv [OF pruned(2) w now(2) this] have "key_inv ?w ?now (?A @ [?now]) (r' (window_key p u s))"
          by (simp add: new admitted)
        moreover have "named ?M (r' (window_key p u s))"
          using named_add [OF named_mono [OF named_prune [OF old(2)], of ?M]] by (simp add: new admitted subset_insertI)
        ultimately show ?thesis using bounded_by_snoc [OF old(3) A room] by (simp add: times)
      qed
    qed
  qed
  then show ?thesis unfolding windows_inv_def by blast
qed

lemma rate_run_inv:
  assumes "sorted (map rq_now qs)" "\<forall>q\<in>set qs. 0 \<le> rq_now q \<and> CHR '':'' \<notin> set (rq_member q)" "distinct (map rq_member qs)"
  shows "windows_inv (if qs = [] then 0 else rq_now (last qs)) (rq_member ` set qs) (fst (rate_run qs)) (snd (rate_run qs))"
  using assms
proof (induction qs rule: rev_induct)
  case Nil
  show ?case
    by (auto simp: windows_inv_def rate_run_def admitted_times_def key_inv_fresh named_def entry_at_def bounded_by_def
        dest: rate_checks_limit)
next
  case (snoc q qs)
  have ih: "windows_inv (if qs = [] then 0 else rq_now (last qs)) (rq_member ` set qs) (fst (rate_run qs)) (snd (rate_run qs))"
    using snoc by (simp add: sorted_append)
  have le: "(if qs = [] then 0 else rq_now (last qs)) \<le> rq_now q"
    using snoc.prems(1,2) by (cases qs rule: rev_cases) (auto simp: sorted_append)
  have step: "rate_step q (fst (rate_run qs), snd (rate_run qs)) = (fst (rate_run (qs @ [q])), snd (rate_run (qs @ [q])))"
    by (simp add: rate_run_def)
  have "windows_inv (rq_now q) (insert (rq_member q) (rq_member ` set qs)) (fst (rate_run (qs @ [q]))) (snd (rate_run (qs @ [q])))"
    by (rule windows_step [OF ih le _ _ _ _ step]) (use snoc.prems in auto)
  then show ?case by simp
qed

section \<open>Properties\<close>

text \<open>
  C29. No window is ever overrun: however many requests of however many users arrive, in every interval of one
  second and of one minute at most as many requests of a user are admitted as the plan they were admitted
  under allows.
\<close>

theorem windows_are_never_overrun:
  assumes "sorted (map rq_now qs)" "\<forall>q\<in>set qs. 0 \<le> rq_now q \<and> CHR '':'' \<notin> set (rq_member q)" "distinct (map rq_member qs)"
    and "(s, l) \<in> set (rate_checks p)"
  shows "int (length (filter (\<lambda>q. rq_plan q = p \<and> rq_user q = u \<and> t - s * 1000 < rq_now q \<and> rq_now q \<le> t)
    (fst (rate_run qs)))) \<le> l"
proof -
  have "length (filter (\<lambda>a. t - s * 1000 < a \<and> a \<le> t) (admitted_times p u admitted)) =
      length (filter (\<lambda>q. rq_plan q = p \<and> rq_user q = u \<and> t - s * 1000 < rq_now q \<and> rq_now q \<le> t) admitted)" for admitted
    by (induction admitted) (auto simp: admitted_times_def)
  moreover have "bounded_by (s * 1000) l (admitted_times p u (fst (rate_run qs)))"
    using windows_invD(3) [OF rate_run_inv [OF assms(1-3)] assms(4)] .
  ultimately show ?thesis unfolding bounded_by_def by metis
qed

text \<open>Five requests of a free user in one second, and one a second after the first.\<close>

definition burst :: "rate_request list" where
  "burst = map (\<lambda>(t, m). \<lparr>rq_now = t, rq_plan = FREE, rq_user = 1, rq_member = m\<rparr>)
     [(5000, ''a''), (5000, ''b''), (5200, ''c''), (5300, ''d''), (5999, ''e''), (6000, ''f'')]"

theorem windows_are_never_overrun_witness:
  "int (length (filter (\<lambda>q. rq_plan q = FREE \<and> rq_user q = 1 \<and> 5999 - 1 * 1000 < rq_now q \<and> rq_now q \<le> 5999)
     (fst (rate_run burst)))) \<le> 3"
  by (rule windows_are_never_overrun) code_simp+

text \<open>
  The wait of a refusal is the shortest among the windows that are full. When the second and the minute are
  both full, \<^verbatim>\<open>Retry-After\<close> names the second, and the client that waits for it is refused again: for the
  user below 1 s is told, and 50 s later there is still no room.
\<close>

definition full_minute :: redis where
  "full_minute =
     [window_key FREE 1 1 \<mapsto> (map (\<lambda>i. (show_int i, 100000)) [28, 29, 30], 101000),
      window_key FREE 1 60 \<mapsto> (map (\<lambda>i. (show_int i, 90000 + 1000 * ((i + 2) div 3))) [1..30], 160000)]"

definition told_to_wait :: "rate_outcome \<times> redis \<Rightarrow> int option" where
  "told_to_wait out = (case fst out of RateLimitExceeded d \<Rightarrow> Some (rd_retry_after d) | _ \<Rightarrow> None)"

theorem retry_after_names_the_shorter_wait:
  "told_to_wait (check_sliding_windows FREE 1 100000 ''x'' full_minute) = Some 1 \<and>
   told_to_wait (check_sliding_windows FREE 1 101000 ''y'' full_minute) = Some 50 \<and>
   told_to_wait (check_sliding_windows FREE 1 150999 ''z'' full_minute) = Some 1"
  by code_simp

end
