(* ===== verification/SolverBilling.thy ===== *)
theory SolverBilling
  imports BillingSystem
begin

text \<open>
  How the solver orchestrator pays: the HTTP client of the billing service
  (apps/solver-orchestrator/src/solver_orchestrator/billing_client.py) over a network that may lose the
  request or the answer, and the billing part of a solve and of a cancellation (routes.py). Every call is
  authenticated with the internal secret and names the user, so billing acts for that user.
\<close>

section \<open>A call\<close>

text \<open>
  A single attempt: billing answers in time, or the client gives up (\<^verbatim>\<open>httpx.TimeoutException\<close>,
  \<^verbatim>\<open>httpx.RequestError\<close>, with their text) before or after billing has handled the request.
\<close>

datatype fate = Delivered | RequestLost string | ResponseLost string

text \<open>\<open>br_state\<close> is \<^verbatim>\<open>body.get("current_state")\<close>, all that the callers read of a body.\<close>

record billing_result =
  br_ok :: bool
  br_status :: int
  br_state :: "string option"
  br_error :: "string option"

definition billing_call ::
  "fate \<Rightarrow> ('a \<Rightarrow> string) \<Rightarrow> billing_db \<Rightarrow> 'a outcome \<times> billing_db \<Rightarrow> billing_result \<times> billing_db" where
  "billing_call f current db handled =
     (case f of
        RequestLost e \<Rightarrow> (\<lparr>br_ok = False, br_status = 0, br_state = None, br_error = Some e\<rparr>, db)
      | ResponseLost e \<Rightarrow> (\<lparr>br_ok = False, br_status = 0, br_state = None, br_error = Some e\<rparr>, snd handled)
      | Delivered \<Rightarrow>
          (case fst handled of
             Returned r \<Rightarrow> (\<lparr>br_ok = True, br_status = 200, br_state = Some (current r), br_error = None\<rparr>, snd handled)
           | refused \<Rightarrow> (\<lparr>br_ok = False, br_status = problem_status refused, br_state = None,
                           br_error = Some (''HTTP '' @ show_int (problem_status refused))\<rparr>, snd handled)))"

text \<open>A body the schema refuses is answered 422 before the handler runs.\<close>

definition validated ::
  "'b option \<Rightarrow> billing_db \<Rightarrow> ('b \<Rightarrow> 'a outcome \<times> billing_db) \<Rightarrow> 'a outcome \<times> billing_db" where
  "validated body db handler = (case body of None \<Rightarrow> (HttpError 422, db) | Some b \<Rightarrow> handler b)"

text \<open>\<^verbatim>\<open>discount_multiplier\<close> is sent only when there is one; the schema's default is 1.\<close>

definition finalize_body :: "rat \<Rightarrow> string \<Rightarrow> string option \<Rightarrow> rat option \<Rightarrow> finalize_request option" where
  "finalize_body elapsed status reason discount =
     (let r = \<lparr>fr_elapsed = elapsed, fr_success = (status = ''success''), fr_failure_reason = reason,
               fr_discount = (case discount of None \<Rightarrow> 1 | Some m \<Rightarrow> m)\<rparr>
      in if status \<in> {''success'', ''failure''} \<and> finalize_request_ok r then Some r else None)"

definition cancel_body :: "string \<Rightarrow> rat \<Rightarrow> refund_request option" where
  "cancel_body source_ref elapsed =
     (let r = \<lparr>rr_reason = [], rr_source = ''solver_orchestrator'', rr_source_ref = source_ref, rr_elapsed = Some elapsed\<rparr>
      in if user_cancel_request_ok r then Some r else None)"

definition client_reserve ::
  "datetime \<Rightarrow> fate \<Rightarrow> nat \<Rightarrow> nat \<Rightarrow> billing_db \<Rightarrow> billing_result \<times> billing_db" where
  "client_reserve now f charge_id user db = billing_call f re_state db (reserve_charge now charge_id user db)"

definition client_finalize ::
  "settings \<Rightarrow> datetime \<Rightarrow> fate \<Rightarrow> nat \<Rightarrow> nat \<Rightarrow> rat \<Rightarrow> string \<Rightarrow> string option \<Rightarrow> rat option \<Rightarrow> billing_db \<Rightarrow>
   billing_result \<times> billing_db" where
  "client_finalize cfg now f charge_id user elapsed status reason discount db =
     billing_call f fi_state db
       (validated (finalize_body elapsed status reason discount) db (\<lambda>body. finalize_charge cfg now charge_id body user db))"

definition client_refund_user_cancel ::
  "datetime \<Rightarrow> fate \<Rightarrow> nat \<Rightarrow> nat \<Rightarrow> string \<Rightarrow> rat \<Rightarrow> billing_db \<Rightarrow> billing_result \<times> billing_db" where
  "client_refund_user_cancel now f charge_id user source_ref elapsed db =
     billing_call f rf_state db
       (validated (cancel_body source_ref elapsed) db (\<lambda>body. refund_user_cancel_charge now charge_id body user db))"

section \<open>Optimizations\<close>

text \<open>
  The text of a charge identifier: a UUID, or a text that is none. \<open>retry_context\<close> are the billing keys
  of \<^verbatim>\<open>optimizations.error\<close>, each with the type every writer stores; a missing or null key is \<open>None\<close>,
  a missing flag false, and the other keys of the document are left out.
\<close>

datatype charge_ref = ChargeId nat | NotAUuid string

record retry_context =
  rc_failed :: bool
  rc_cancel_failed :: bool
  rc_refund_failed :: bool
  rc_operation :: "string option"
  rc_charge :: "charge_ref option"
  rc_source_ref :: "string option"
  rc_elapsed :: "rat option"
  rc_status :: "string option"
  rc_reason :: "string option"
  rc_discount :: "rat option"
  rc_error :: "string option"
  rc_last_error :: "string option"
  rc_count :: "int option"
  rc_succeeded_at :: "datetime option"
  rc_given_up_at :: "datetime option"
  rc_refund_status :: "string option"

definition no_context :: retry_context where
  "no_context = \<lparr>rc_failed = False, rc_cancel_failed = False, rc_refund_failed = False, rc_operation = None, rc_charge = None,
     rc_source_ref = None, rc_elapsed = None, rc_status = None, rc_reason = None, rc_discount = None, rc_error = None,
     rc_last_error = None, rc_count = None, rc_succeeded_at = None, rc_given_up_at = None, rc_refund_status = None\<rparr>"

text \<open>\<^verbatim>\<open>input_payload["_system"]["billing"]\<close>.\<close>

datatype cancel_status = StatusCode int | InvalidChargeId

record billing_metadata =
  bm_charge :: "charge_ref option"
  bm_reserved :: bool
  bm_attempted :: bool
  bm_cancel_status :: "cancel_status option"
  bm_refund_status :: "string option"

definition no_metadata :: billing_metadata where
  "no_metadata = \<lparr>bm_charge = None, bm_reserved = False, bm_attempted = False, bm_cancel_status = None, bm_refund_status = None\<rparr>"

record optimization =
  op_id :: nat
  op_user :: nat
  op_status :: string
  op_context :: retry_context
  op_billing :: "billing_metadata option"
  op_solve_seconds :: "rat option"
  op_created :: datetime
  op_completed :: "datetime option"

definition optimization_billing_metadata :: "optimization \<Rightarrow> billing_metadata" where
  "optimization_billing_metadata opt = (case op_billing opt of None \<Rightarrow> no_metadata | Some m \<Rightarrow> m)"

definition set_optimization_billing_metadata ::
  "(billing_metadata \<Rightarrow> billing_metadata) \<Rightarrow> optimization \<Rightarrow> optimization" where
  "set_optimization_billing_metadata updates opt =
     opt\<lparr>op_billing := Some (updates (optimization_billing_metadata opt))\<rparr>"

definition merge_optimization_error :: "(retry_context \<Rightarrow> retry_context) \<Rightarrow> optimization \<Rightarrow> optimization" where
  "merge_optimization_error updates opt = opt\<lparr>op_context := updates (op_context opt)\<rparr>"

definition refund_status_from_optimization :: "optimization \<Rightarrow> string" where
  "refund_status_from_optimization opt =
     (let m = optimization_billing_metadata opt in
      case bm_refund_status m of
        Some (c # cs) \<Rightarrow> c # cs
      | _ \<Rightarrow>
          (case rc_refund_status (op_context opt) of
             Some (c # cs) \<Rightarrow> c # cs
           | _ \<Rightarrow> if bm_reserved m then ''pending_reconciliation'' else ''not_applicable''))"

section \<open>After a solve\<close>

text \<open>
  The finalize of a solve that is done: an optimal or a timed-out solve is a success to billing. When the
  call fails the solve's answer does not wait for it; what a retry needs is stored with the optimization.
\<close>

definition finalize_after_solve ::
  "settings \<Rightarrow> datetime \<Rightarrow> fate \<Rightarrow> nat \<Rightarrow> string \<Rightarrow> rat \<Rightarrow> string option \<Rightarrow> rat option \<Rightarrow> optimization \<Rightarrow> billing_db \<Rightarrow>
   optimization \<times> billing_db" where
  "finalize_after_solve cfg now f charge_id result_status solve_seconds error_constraint discount opt db =
     (let status = (if result_status \<in> {''optimal'', ''timeout''} then ''success'' else ''failure'');
          reason = (if status = ''success'' then None
                    else case error_constraint of Some (c # cs) \<Rightarrow> Some (c # cs) | _ \<Rightarrow> Some result_status);
          (outcome, db') = client_finalize cfg now f charge_id (op_user opt) solve_seconds status reason discount db
      in (if br_ok outcome then opt
          else merge_optimization_error (\<lambda>c. c\<lparr>rc_failed := True, rc_error := br_error outcome,
                 rc_charge := Some (ChargeId charge_id), rc_elapsed := Some solve_seconds, rc_status := Some status,
                 rc_reason := reason, rc_count := Some 0,
                 rc_discount := (case discount of None \<Rightarrow> rc_discount c | Some m \<Rightarrow> Some m)\<rparr>) opt,
          db'))"

section \<open>Cancelling\<close>

definition refund_status_of :: "string option \<Rightarrow> string" where
  "refund_status_of current_state =
     (if current_state \<in> {Some ''refunded'', Some ''rolled_back''} then ''refunded'' else ''finalized'')"

definition finalize_cancelled_billing ::
  "datetime \<Rightarrow> fate \<Rightarrow> optimization \<Rightarrow> billing_db \<Rightarrow> string \<times> optimization \<times> billing_db" where
  "finalize_cancelled_billing now f opt db =
     (let m = optimization_billing_metadata opt;
          elapsed = (case op_solve_seconds opt of None \<Rightarrow> 0 | Some t \<Rightarrow> t)
      in if \<not> bm_reserved m \<or> bm_charge m \<in> {None, Some (NotAUuid [])} then
           (''not_applicable'', set_optimization_billing_metadata (\<lambda>m. m\<lparr>bm_refund_status := Some ''not_applicable''\<rparr>) opt, db)
         else if bm_attempted m then (refund_status_from_optimization opt, opt, db)
         else case the (bm_charge m) of
           NotAUuid raw \<Rightarrow>
             (''pending_reconciliation'',
              merge_optimization_error (\<lambda>c. c\<lparr>rc_cancel_failed := True, rc_failed := True,
                rc_error := Some ''invalid billing charge id in metadata'', rc_charge := Some (NotAUuid raw),
                rc_elapsed := Some elapsed, rc_status := Some ''failure'', rc_reason := Some ''user_cancelled'',
                rc_count := Some 0, rc_refund_status := Some ''pending_reconciliation''\<rparr>)
               (set_optimization_billing_metadata (\<lambda>m. m\<lparr>bm_attempted := True, bm_cancel_status := Some InvalidChargeId,
                  bm_refund_status := Some ''pending_reconciliation''\<rparr>) opt), db)
         | ChargeId charge_id \<Rightarrow>
             (let (outcome, db') = client_refund_user_cancel now f charge_id (op_user opt) (uuid_text (op_id opt)) elapsed db
              in if br_ok outcome then
                   (let refund_status = refund_status_of (br_state outcome) in
                    (refund_status,
                     merge_optimization_error (\<lambda>c. c\<lparr>rc_status := Some ''failure'', rc_reason := Some ''user_cancelled'',
                       rc_refund_status := Some refund_status\<rparr>)
                      (set_optimization_billing_metadata (\<lambda>m. m\<lparr>bm_attempted := True,
                         bm_cancel_status := Some (StatusCode (br_status outcome)),
                         bm_refund_status := Some refund_status\<rparr>) opt), db'))
                 else
                   (''pending_reconciliation'',
                    merge_optimization_error (\<lambda>c. c\<lparr>rc_operation := Some ''user_cancel_refund'', rc_refund_failed := True,
                      rc_cancel_failed := True, rc_failed := True, rc_error := br_error outcome,
                      rc_charge := Some (ChargeId charge_id), rc_source_ref := Some (uuid_text (op_id opt)),
                      rc_elapsed := Some elapsed, rc_status := Some ''failure'', rc_reason := Some ''user_cancelled'',
                      rc_count := Some 0, rc_refund_status := Some ''pending_reconciliation''\<rparr>)
                     (set_optimization_billing_metadata (\<lambda>m. m\<lparr>bm_attempted := True,
                        bm_cancel_status := Some (StatusCode (br_status outcome)),
                        bm_refund_status := Some ''pending_reconciliation''\<rparr>) opt), db')))"

text \<open>\<^verbatim>\<open>DELETE /v1/optimizations/{id}\<close>; a user sees only their own optimizations.\<close>

datatype cancel_answer = CancelNotFound | Cancelled optimization | CancellationNotAllowed

definition delete_optimization ::
  "datetime \<Rightarrow> fate \<Rightarrow> nat \<Rightarrow> optimization option \<Rightarrow> billing_db \<Rightarrow> cancel_answer \<times> optimization option \<times> billing_db" where
  "delete_optimization now f user row db =
     (case row of
        None \<Rightarrow> (CancelNotFound, row, db)
      | Some opt \<Rightarrow>
          if op_user opt \<noteq> user then (CancelNotFound, row, db)
          else if op_status opt = ''cancelled'' then (Cancelled opt, row, db)
          else if op_status opt \<notin> {''queued'', ''in_progress''} then (CancellationNotAllowed, row, db)
          else
            (let opt1 = merge_optimization_error (\<lambda>c. c\<lparr>rc_status := Some ''failure'', rc_reason := Some ''user_cancelled''\<rparr>)
                          (opt\<lparr>op_status := ''cancelled'', op_completed := Some now\<rparr>);
                 (refund_status, opt2, db') = finalize_cancelled_billing now f opt1 db;
                 opt3 = merge_optimization_error (\<lambda>c. c\<lparr>rc_refund_status := Some refund_status\<rparr>) opt2
             in (Cancelled opt3, Some opt3, db')))"

end
