(* ===== verification/FinalizeRetry.thy ===== *)
theory FinalizeRetry
  imports SolverBilling "HOL-Library.Multiset"
begin

text \<open>
  The job that settles what a lost finalize left open
  (apps/solver-orchestrator/src/solver_orchestrator/billing_reconciler.py), composed with the billing service
  it calls. A run reads the clock once; \<open>net\<close> gives the fate of the call made for each optimization.
\<close>

section \<open>The table\<close>

text \<open>\<^verbatim>\<open>_fetch_pending\<close>: oldest first; rows of one time come in the order of the table, which SQL leaves open.\<close>

definition retry_count :: "retry_context \<Rightarrow> int" where
  "retry_count c = (case rc_count c of None \<Rightarrow> 0 | Some n \<Rightarrow> n)"

definition pending_row :: "int \<Rightarrow> optimization \<Rightarrow> bool" where
  "pending_row max_tries opt \<longleftrightarrow>
     rc_failed (op_context opt) \<and> retry_count (op_context opt) < max_tries \<and> rc_succeeded_at (op_context opt) = None"

definition fetch_pending :: "int \<Rightarrow> nat \<Rightarrow> optimization list \<Rightarrow> optimization list" where
  "fetch_pending max_tries batch_limit rows = take batch_limit (sort_key op_created (filter (pending_row max_tries) rows))"

definition update_row :: "nat \<Rightarrow> (optimization \<Rightarrow> optimization) \<Rightarrow> optimization list \<Rightarrow> optimization list" where
  "update_row i f rows = map (\<lambda>r. if op_id r = i then f r else r) rows"

definition mark_cancel_succeeded :: "datetime \<Rightarrow> string option \<Rightarrow> int \<Rightarrow> optimization \<Rightarrow> optimization" where
  "mark_cancel_succeeded now current_state status_code opt =
     (let refund_status = refund_status_of current_state; c = op_context opt in
      opt\<lparr>op_context := c\<lparr>rc_failed := False, rc_cancel_failed := False, rc_refund_failed := False, rc_error := None,
            rc_last_error := None, rc_count := None, rc_operation := None, rc_source_ref := None,
            rc_succeeded_at := Some now, rc_refund_status := Some refund_status\<rparr>,
          op_billing := map_option (\<lambda>m. m\<lparr>bm_refund_status := Some refund_status,
            bm_cancel_status := Some (StatusCode status_code)\<rparr>) (op_billing opt)\<rparr>)"

definition mark_succeeded :: "datetime \<Rightarrow> string option \<Rightarrow> int \<Rightarrow> bool \<Rightarrow> optimization \<Rightarrow> optimization" where
  "mark_succeeded now current_state status_code is_cancel_finalize opt =
     (if is_cancel_finalize then mark_cancel_succeeded now current_state status_code opt
      else opt\<lparr>op_context := (op_context opt)\<lparr>rc_failed := False, rc_error := None, rc_count := None,
                 rc_succeeded_at := Some now\<rparr>\<rparr>)"

definition or_text :: "string option \<Rightarrow> string \<Rightarrow> string" where
  "or_text e other = (case e of Some (c # cs) \<Rightarrow> c # cs | _ \<Rightarrow> other)"

definition mark_failed_increment :: "int \<Rightarrow> string option \<Rightarrow> optimization \<Rightarrow> optimization" where
  "mark_failed_increment new_count error_message opt =
     opt\<lparr>op_context := (op_context opt)\<lparr>rc_count := Some new_count, rc_last_error := Some (or_text error_message ''unknown'')\<rparr>\<rparr>"

definition mark_given_up :: "datetime \<Rightarrow> string option \<Rightarrow> optimization \<Rightarrow> optimization" where
  "mark_given_up now error opt =
     opt\<lparr>op_context := (op_context opt)\<lparr>rc_given_up_at := Some now, rc_last_error := Some (or_text error ''exhausted retries'')\<rparr>\<rparr>"

section \<open>A run\<close>

record retry_outcome =
  ro_optimization :: nat
  ro_user :: nat
  ro_charge :: nat
  ro_attempt :: int
  ro_succeeded :: bool
  ro_error :: "string option"

record retry_report =
  rp_pending :: nat
  rp_succeeded :: nat
  rp_failed :: nat
  rp_exhausted :: nat
  rp_results :: "retry_outcome list"

text \<open>The call of a row, with the defaults the job takes for missing keys.\<close>

definition retry_call ::
  "settings \<Rightarrow> datetime \<Rightarrow> fate \<Rightarrow> optimization \<Rightarrow> nat \<Rightarrow> billing_db \<Rightarrow> billing_result \<times> billing_db" where
  "retry_call cfg now f opt charge_id db =
     (let c = op_context opt; elapsed = (case rc_elapsed c of None \<Rightarrow> 0 | Some t \<Rightarrow> t) in
      if rc_operation c = Some ''user_cancel_refund'' then
        client_refund_user_cancel now f charge_id (op_user opt) (or_text (rc_source_ref c) (uuid_text (op_id opt))) elapsed db
      else
        client_finalize cfg now f charge_id (op_user opt) elapsed
          (case rc_status c of None \<Rightarrow> ''failure'' | Some st \<Rightarrow> st) (rc_reason c) (rc_discount c) db)"

type_synonym retry_state = "retry_report \<times> optimization list \<times> billing_db"

definition retry_row ::
  "settings \<Rightarrow> datetime \<Rightarrow> (nat \<Rightarrow> fate) \<Rightarrow> int \<Rightarrow> optimization \<Rightarrow> retry_state \<Rightarrow> retry_state" where
  "retry_row cfg now net max_tries row = (\<lambda>(report, table, db).
     case rc_charge (op_context row) of
       Some (ChargeId charge_id) \<Rightarrow>
         (let attempt_number = retry_count (op_context row) + 1;
              (outcome, db') = retry_call cfg now (net (op_id row)) row charge_id db;
              result = (\<lambda>e. \<lparr>ro_optimization = op_id row, ro_user = op_user row, ro_charge = charge_id,
                ro_attempt = attempt_number, ro_succeeded = br_ok outcome, ro_error = e\<rparr>)
          in if br_ok outcome then
               (report\<lparr>rp_succeeded := rp_succeeded report + 1, rp_results := rp_results report @ [result None]\<rparr>,
                update_row (op_id row) (mark_succeeded now (br_state outcome) (br_status outcome)
                  (rc_cancel_failed (op_context row) \<or> rc_operation (op_context row) = Some ''user_cancel_refund'')) table,
                db')
             else if max_tries \<le> attempt_number then
               (report\<lparr>rp_exhausted := rp_exhausted report + 1, rp_results := rp_results report @ [result (br_error outcome)]\<rparr>,
                update_row (op_id row) (mark_given_up now (br_error outcome)) table, db')
             else
               (report\<lparr>rp_failed := rp_failed report + 1, rp_results := rp_results report @ [result (br_error outcome)]\<rparr>,
                update_row (op_id row) (mark_failed_increment attempt_number (br_error outcome)) table, db'))
     | _ \<Rightarrow>
         (report\<lparr>rp_exhausted := rp_exhausted report + 1\<rparr>,
          update_row (op_id row) (mark_given_up now (Some ''malformed retry context'')) table, db))"

definition retry_pending_finalizes ::
  "settings \<Rightarrow> datetime \<Rightarrow> (nat \<Rightarrow> fate) \<Rightarrow> int \<Rightarrow> nat \<Rightarrow> optimization list \<Rightarrow> billing_db \<Rightarrow> retry_state" where
  "retry_pending_finalizes cfg now net max_tries batch_limit table db =
     (let rows = fetch_pending max_tries batch_limit table in
      fold (retry_row cfg now net max_tries) rows
        (\<lparr>rp_pending = length rows, rp_succeeded = 0, rp_failed = 0, rp_exhausted = 0, rp_results = []\<rparr>, table, db))"

text \<open>The exit code of the command line (billing_reconciler_cli.py).\<close>

definition exit_code :: "retry_report \<Rightarrow> int" where
  "exit_code r = (if 0 < rp_exhausted r then 2 else if 0 < rp_failed r then 1 else 0)"

text \<open>Runs in a row: each with its time and the fates of its calls.\<close>

fun retry_runs ::
  "settings \<Rightarrow> int \<Rightarrow> nat \<Rightarrow> (datetime \<times> (nat \<Rightarrow> fate)) list \<Rightarrow> optimization list \<times> billing_db \<Rightarrow> optimization list \<times> billing_db" where
  "retry_runs cfg m limit [] st = st"
| "retry_runs cfg m limit ((now, net) # runs) (table, db) =
     retry_runs cfg m limit runs (snd (retry_pending_finalizes cfg now net m limit table db))"

end
