(* ===== verification/RetryProperties.thy ===== *)
theory RetryProperties
  imports FinalizeRetry
begin

text \<open>
  The retry job and billing together: whatever the network loses, a solve is paid at most once, and a run
  that gets through settles it. The contract between the two is the locale \<open>once_only\<close>: an operation of the
  provider that takes effect once and answers every repetition.
\<close>

section \<open>An operation that takes effect once\<close>

locale once_only =
  fixes handler :: "datetime \<Rightarrow> 'db \<Rightarrow> 'a outcome \<times> 'db" and is_open :: "'db \<Rightarrow> bool" and is_done :: "'db \<Rightarrow> bool"
  assumes first: "is_open db \<Longrightarrow> is_returned (fst (handler t db)) \<and> is_done (snd (handler t db))"
    and again: "is_done db \<Longrightarrow> is_returned (fst (handler t db)) \<and> snd (handler t db) = db"
begin

lemma stays: "is_open db \<or> is_done db \<Longrightarrow> is_open (snd (handler t db)) \<or> is_done (snd (handler t db))"
  using first again by metis

lemma finishes: "is_open db \<or> is_done db \<Longrightarrow> is_done (snd (handler t db))"
  using first again by metis

lemma answers: "is_open db \<or> is_done db \<Longrightarrow> is_returned (fst (handler t db))"
  using first again by metis

text \<open>However many attempts are made, the operation takes effect at most once.\<close>

lemma repeated: "is_done db \<Longrightarrow> fold (\<lambda>t db. snd (handler t db)) ts db = db"
  by (induction ts) (simp_all add: again)

lemma attempts:
  assumes "is_open db \<or> is_done db"
  shows "fold (\<lambda>t db. snd (handler t db)) (t # ts) db = snd (handler t db) \<and> is_done (snd (handler t db))"
  using repeated [OF finishes [OF assms]] finishes [OF assms] by simp

end

lemma billing_call_cases:
  obtains (handled) "snd (billing_call f current db h) = snd h" | (lost) "snd (billing_call f current db h) = db" "f \<noteq> Delivered"
  by (cases f) (auto simp: billing_call_def split: outcome.split)

lemma billing_call_delivered [simp]:
  "snd (billing_call Delivered current db h) = snd h"
  "br_ok (fst (billing_call Delivered current db h)) = is_returned (fst h)"
  by (auto simp: billing_call_def split: outcome.split)

lemma billing_call_ok: "br_ok (fst (billing_call f current db h)) \<Longrightarrow> f = Delivered \<and> is_returned (fst h)"
  by (auto simp: billing_call_def split: fate.splits outcome.splits)

section \<open>Calls and rows\<close>

lemma finalize_touches:
  assumes "money_inv db" "settings_ok cfg"
  shows "touches j db (snd (finalize_charge cfg now j body user db))"
proof (cases "\<exists>s. saga_get j db = Some s \<and> sg_user s = user \<and> sg_state s = state_value RESERVED")
  case False
  then show ?thesis using finalize_elsewhere [OF _ assms(1)] by simp
next
  case True
  then obtain s where s: "saga_get j db = Some s" "sg_user s = user" "sg_state s = state_value RESERVED" by blast
  consider "\<not> fr_success body" | "fr_success body" "finalize_amount cfg body s = None"
    | actual where "fr_success body" "finalize_amount cfg body s = Some actual" by blast
  then show ?thesis
  proof cases
    case 1
    then show ?thesis by (rule finalize_failure_result(1) [OF assms(1) s _ refl])
  next
    case 2
    then show ?thesis using s by (simp add: finalize_charge_def with_own_saga_cases Let_def)
  next
    case 3
    then show ?thesis by (rule finalize_success_result(1) [OF assms(1) s _ _ assms(2) refl])
  qed
qed

lemma cancel_touches:
  assumes "money_inv db"
  shows "touches j db (snd (refund_user_cancel_charge now j body user db))"
proof (cases "saga_get j db")
  case None
  then show ?thesis by (simp add: refund_user_cancel_charge_def with_own_saga_cases)
next
  case (Some s)
  obtain a where a: "sg_state s = state_value a" using known_state [OF assms Some] by blast
  note shapes = refund_shapes [OF Some, of now body]
  have "a = RESERVED \<Longrightarrow> touches j db (snd (refund_user_cancel_reserved now j body s db))"
    "a = CHARGED \<Longrightarrow> touches j db (snd (refund_user_cancel_charged now j body s db))"
    using a shapes reserved_shape_result(1) [OF assms Some] charged_shape_result(1) [OF assms Some] by metis+
  then show ?thesis unfolding refund_user_cancel_cases [OF Some a] by auto
qed

text \<open>What a run writes to a row.\<close>

inductive is_mark :: "(optimization \<Rightarrow> optimization) \<Rightarrow> bool" where
  "is_mark (mark_succeeded now st code cancel)"
| "is_mark (mark_failed_increment n e)"
| "is_mark (mark_given_up now e)"

lemma marked:
  assumes "is_mark f"
  shows "op_id (f r) = op_id r" "op_user (f r) = op_user r" "rc_failed (op_context (f r)) \<Longrightarrow> rc_failed (op_context r)"
    "rc_charge (op_context (f r)) = rc_charge (op_context r)" "rc_elapsed (op_context (f r)) = rc_elapsed (op_context r)"
    "rc_status (op_context (f r)) = rc_status (op_context r)" "rc_reason (op_context (f r)) = rc_reason (op_context r)"
    "rc_discount (op_context (f r)) = rc_discount (op_context r)"
    "rc_failed (op_context (f r)) \<Longrightarrow> rc_operation (op_context (f r)) = rc_operation (op_context r)"
    "rc_failed (op_context (f r)) \<Longrightarrow> rc_source_ref (op_context (f r)) = rc_source_ref (op_context r)"
  using assms by (induction rule: is_mark.induct) (simp_all add: mark_succeeded_def mark_cancel_succeeded_def
      mark_failed_increment_def mark_given_up_def Let_def split: if_splits)

lemma retry_row_shape:
  assumes "retry_row cfg now net m row (report, table, db) = (report', table', db')"
  obtains f where "is_mark f" "table' = update_row (op_id row) f table"
    "db' = (case rc_charge (op_context row) of Some (ChargeId j) \<Rightarrow> snd (retry_call cfg now (net (op_id row)) row j db) | _ \<Rightarrow> db)"
proof (cases "\<exists>j. rc_charge (op_context row) = Some (ChargeId j)")
  case True
  then obtain j where j: "rc_charge (op_context row) = Some (ChargeId j)" by blast
  obtain outcome db1 where call: "retry_call cfg now (net (op_id row)) row j db = (outcome, db1)" by (rule prod.exhaust)
  have db1: "db' = db1" using assms by (auto simp: retry_row_def j call Let_def split: if_splits)
  consider "br_ok outcome" | "\<not> br_ok outcome" "m \<le> retry_count (op_context row) + 1"
    | "\<not> br_ok outcome" "\<not> m \<le> retry_count (op_context row) + 1" by blast
  then have "\<exists>f. is_mark f \<and> table' = update_row (op_id row) f table"
    using assms by cases (auto simp: retry_row_def j call Let_def intro: is_mark.intros)
  with db1 show thesis using that by (auto simp: j call)
next
  case False
  with assms have "db' = db" "table' = update_row (op_id row) (mark_given_up now (Some ''malformed retry context'')) table"
    by (auto simp: retry_row_def split: option.splits charge_ref.splits)
  with False show thesis by (intro that [OF is_mark.intros(3)]) (auto split: option.split charge_ref.split)
qed

lemma fetched_in: "set (fetch_pending m limit table) \<subseteq> {r \<in> set table. pending_row m r}"
  by (auto simp: fetch_pending_def dest: in_set_takeD)

lemma fetched_distinct:
  assumes "distinct (map op_id table)"
  shows "distinct (map op_id (fetch_pending m limit table))"
proof -
  let ?rows = "filter (pending_row m) table"
  have "distinct (map op_id ?rows)" using assms by (simp add: distinct_map_filter)
  moreover have same: "mset (map op_id (sort_key op_created ?rows)) = mset (map op_id ?rows)" by simp
  ultimately have "distinct (map op_id (sort_key op_created ?rows))" unfolding mset_eq_imp_distinct_iff [OF same] by blast
  then show ?thesis by (simp add: fetch_pending_def flip: take_map)
qed

section \<open>A charge the job retries\<close>

text \<open>
  The operation is one on charge \<open>i\<close> that calls for other charges do not disturb, and every flagged row that
  names the charge asks for it.
\<close>

definition run_ok :: "(billing_db \<Rightarrow> bool) \<Rightarrow> (optimization \<Rightarrow> bool) \<Rightarrow> optimization list \<Rightarrow> billing_db \<Rightarrow> bool" where
  "run_ok live asks table db \<longleftrightarrow> live db \<and> (\<forall>r\<in>set table. asks r)"

locale retried_charge = once_only handler is_open is_done
  for handler :: "datetime \<Rightarrow> billing_db \<Rightarrow> 'a outcome \<times> billing_db" and is_open is_done +
  fixes cfg :: settings and i :: nat and current :: "'a \<Rightarrow> string" and asks :: "optimization \<Rightarrow> bool"
  assumes good: "is_open db \<or> is_done db \<Longrightarrow> money_inv db \<and> settings_ok cfg"
    and open_elsewhere: "is_open db \<Longrightarrow> touches j db db' \<Longrightarrow> money_inv db' \<Longrightarrow> j \<noteq> i \<Longrightarrow> is_open db'"
    and done_elsewhere: "is_done db \<Longrightarrow> touches j db db' \<Longrightarrow> money_inv db' \<Longrightarrow> j \<noteq> i \<Longrightarrow> is_done db'"
    and asked: "asks row \<Longrightarrow> rc_failed (op_context row) \<Longrightarrow> rc_charge (op_context row) = Some (ChargeId i) \<Longrightarrow>
      retry_call cfg now f row i db = billing_call f current db (handler now db)"
    and still_asks: "is_mark g \<Longrightarrow> asks row \<Longrightarrow> asks (g row)"
begin

lemma other_calls:
  assumes "is_open db \<or> is_done db"
  shows "touches j db (snd (retry_call cfg now f row j db)) \<and> money_inv (snd (retry_call cfg now f row j db))"
proof -
  have inv: "money_inv db" "settings_ok cfg" using good [OF assms] by simp_all
  have "touches j db (snd (validated b db (\<lambda>b. refund_user_cancel_charge now j b (op_user row) db))) \<and>
      money_inv (snd (validated b db (\<lambda>b. refund_user_cancel_charge now j b (op_user row) db)))" for b
    using inv cancel_touches refunds_keep_money by (simp add: validated_def split: option.split)
  moreover have "touches j db (snd (validated b db (\<lambda>b. finalize_charge cfg now j b (op_user row) db))) \<and>
      money_inv (snd (validated b db (\<lambda>b. finalize_charge cfg now j b (op_user row) db)))" for b
    using inv finalize_touches finalize_keeps_money by (simp add: validated_def split: option.split)
  ultimately show ?thesis
    unfolding retry_call_def client_refund_user_cancel_def client_finalize_def Let_def
    by (cases "rc_operation (op_context row) = Some ''user_cancel_refund''")
      (simp_all, (metis billing_call_cases inv(1) touches_refl)+)
qed

lemma call_keeps:
  assumes st: "is_open db \<or> is_done db" and row: "asks row" "rc_failed (op_context row)"
    and c: "rc_charge (op_context row) = Some (ChargeId j)" and call: "retry_call cfg now f row j db = (outcome, db')"
  shows "(is_open db' \<or> is_done db') \<and> (is_done db \<longrightarrow> is_done db')"
    and "j = i \<Longrightarrow> f = Delivered \<Longrightarrow> br_ok outcome \<and> is_done db'"
    and "j = i \<Longrightarrow> \<forall>e. f \<noteq> RequestLost e \<Longrightarrow> is_done db'"
proof -
  have db': "db' = snd (retry_call cfg now f row j db)" and out: "outcome = fst (retry_call cfg now f row j db)"
    using call by simp_all
  have call_i: "retry_call cfg now f row j db = billing_call f current db (handler now db)" if "j = i"
    using asked [OF row] c that by simp
  show "(is_open db' \<or> is_done db') \<and> (is_done db \<longrightarrow> is_done db')"
  proof (cases "j = i")
    case True
    show ?thesis
      unfolding db' call_i [OF True]
      by (rule billing_call_cases [of f current db "handler now db"]) (use st stays [OF st] again in auto)
  next
    case False
    then show ?thesis
      using st other_calls [OF st, of j now f row] open_elsewhere [OF _ _ _ False] done_elsewhere [OF _ _ _ False]
      unfolding db' by blast
  qed
  show "br_ok outcome \<and> is_done db'" if "j = i" "f = Delivered"
    unfolding db' out call_i [OF that(1)] unfolding that(2) using answers [OF st] finishes [OF st] by simp
  show "is_done db'" if "j = i" "\<forall>e. f \<noteq> RequestLost e"
    unfolding db' call_i [OF that(1)] using that(2) finishes [OF st]
    by (cases f) (simp_all add: billing_call_def split: outcome.split)
qed

text \<open>A row of a run, the rows of a run, runs.\<close>

lemma row_keeps:
  assumes st: "run_ok (\<lambda>db. is_open db \<or> is_done db) asks table db" and row: "asks row" "rc_failed (op_context row)"
    and step: "retry_row cfg now net m row (report, table, db) = (report', table', db')"
  shows "run_ok (\<lambda>db. is_open db \<or> is_done db) asks table' db'" and "is_done db \<Longrightarrow> is_done db'"
    and "map op_id table' = map op_id table"
    and "r \<in> set table \<Longrightarrow> op_id r \<noteq> op_id row \<Longrightarrow> r \<in> set table'"
proof -
  obtain f where f: "is_mark f" and table': "table' = update_row (op_id row) f table"
    and db': "db' = (case rc_charge (op_context row) of Some (ChargeId j) \<Rightarrow> snd (retry_call cfg now (net (op_id row)) row j db) | _ \<Rightarrow> db)"
    by (rule retry_row_shape [OF step])
  show "map op_id table' = map op_id table" using marked(1) [OF f] by (simp add: table' update_row_def)
  show "r \<in> set table \<Longrightarrow> op_id r \<noteq> op_id row \<Longrightarrow> r \<in> set table'" by (force simp: table' update_row_def)
  have asks: "\<forall>r\<in>set table'. asks r"
    using st still_asks [OF f] by (auto simp: table' run_ok_def update_row_def)
  have st': "is_open db \<or> is_done db" using st by (simp add: run_ok_def)
  have "(is_open db' \<or> is_done db') \<and> (is_done db \<longrightarrow> is_done db')"
    using call_keeps(1) [OF st' row _ prod.collapse [symmetric]] st'
    by (auto simp: db' split: option.split charge_ref.split)
  with asks show "run_ok (\<lambda>db. is_open db \<or> is_done db) asks table' db'" "is_done db \<Longrightarrow> is_done db'"
    by (simp_all add: run_ok_def)
qed

lemma rows_keep:
  assumes "run_ok (\<lambda>db. is_open db \<or> is_done db) asks table db" "\<forall>r\<in>set rows. asks r \<and> rc_failed (op_context r)"
    "fold (retry_row cfg now net m) rows (report, table, db) = (report', table', db')"
  shows "run_ok (\<lambda>db. is_open db \<or> is_done db) asks table' db' \<and> (is_done db \<longrightarrow> is_done db') \<and>
    map op_id table' = map op_id table \<and>
    (\<forall>r. op_id r \<notin> op_id ` set rows \<longrightarrow> r \<in> set table \<longrightarrow> r \<in> set table')"
  using assms
proof (induction rows arbitrary: report table db)
  case (Cons row rows)
  obtain report1 table1 db1 where step: "retry_row cfg now net m row (report, table, db) = (report1, table1, db1)"
    by (rule prod_cases3)
  have row: "asks row" "rc_failed (op_context row)" using Cons.prems(2) by simp_all
  note kept = row_keeps [OF Cons.prems(1) row step]
  have rest: "run_ok (\<lambda>db. is_open db \<or> is_done db) asks table' db' \<and> (is_done db1 \<longrightarrow> is_done db') \<and>
      map op_id table' = map op_id table1 \<and>
      (\<forall>r. op_id r \<notin> op_id ` set rows \<longrightarrow> r \<in> set table1 \<longrightarrow> r \<in> set table')"
    by (rule Cons.IH [OF kept(1)]) (use Cons.prems(2,3) in \<open>simp_all add: step\<close>)
  with kept(2,3,4) show ?case by simp
qed simp

lemma fetched_ask:
  assumes "run_ok (\<lambda>db. is_open db \<or> is_done db) asks table db"
  shows "\<forall>r\<in>set (fetch_pending m limit table). asks r \<and> rc_failed (op_context r)"
  using assms fetched_in by (fastforce simp: run_ok_def pending_row_def)

lemma runs_keep:
  assumes "run_ok (\<lambda>db. is_open db \<or> is_done db) asks table db" "retry_runs cfg m limit runs (table, db) = (table', db')"
  shows "run_ok (\<lambda>db. is_open db \<or> is_done db) asks table' db' \<and> (is_done db \<longrightarrow> is_done db') \<and>
    map op_id table' = map op_id table"
  using assms
proof (induction runs arbitrary: table db)
  case (Cons run runs)
  obtain now net where run: "run = (now, net)" by (cases run)
  obtain report table1 db1 where step: "retry_pending_finalizes cfg now net m limit table db = (report, table1, db1)"
    by (rule prod_cases3)
  have one: "run_ok (\<lambda>db. is_open db \<or> is_done db) asks table1 db1 \<and> (is_done db \<longrightarrow> is_done db1) \<and>
      map op_id table1 = map op_id table"
    using rows_keep [OF Cons.prems(1) fetched_ask [OF Cons.prems(1)]] step
    unfolding retry_pending_finalizes_def Let_def by blast
  then have "run_ok (\<lambda>db. is_open db \<or> is_done db) asks table' db' \<and> (is_done db1 \<longrightarrow> is_done db') \<and>
      map op_id table' = map op_id table1"
    by (intro Cons.IH) (use Cons.prems(2) in \<open>simp_all add: run step\<close>)
  with one show ?case by simp
qed simp

text \<open>A call for the charge that reaches billing finishes the operation, whether its answer arrives or not.\<close>

lemma rows_reach:
  assumes "run_ok (\<lambda>db. is_open db \<or> is_done db) asks table db" "\<forall>r\<in>set rows. asks r \<and> rc_failed (op_context r)"
    and "fold (retry_row cfg now net m) rows (report, table, db) = (report', table', db')"
    and "r \<in> set rows" "rc_charge (op_context r) = Some (ChargeId i)" "\<forall>e. net (op_id r) \<noteq> RequestLost e"
  shows "is_done db'"
  using assms
proof (induction rows arbitrary: report table db)
  case (Cons row rows)
  obtain report1 table1 db1 where step: "retry_row cfg now net m row (report, table, db) = (report1, table1, db1)"
    by (rule prod_cases3)
  have row: "asks row" "rc_failed (op_context row)" using Cons.prems(2) by simp_all
  note kept = row_keeps [OF Cons.prems(1) row step]
  have rest: "fold (retry_row cfg now net m) rows (report1, table1, db1) = (report', table', db')"
    using Cons.prems(3) by (simp add: step)
  have others: "\<forall>r\<in>set rows. asks r \<and> rc_failed (op_context r)" using Cons.prems(2) by simp
  show ?case
  proof (cases "r = row")
    case True
    have "db1 = snd (retry_call cfg now (net (op_id row)) row i db)"
      by (rule retry_row_shape [OF step]) (use Cons.prems(5) True in simp)
    moreover have "is_open db \<or> is_done db" using Cons.prems(1) by (simp add: run_ok_def)
    ultimately have "is_done db1"
      using call_keeps(3) [OF _ row _ prod.collapse [symmetric]] Cons.prems(5,6) True by simp
    then show ?thesis using rows_keep [OF kept(1) others rest] by simp
  next
    case False
    with Cons.prems(4) have "r \<in> set rows" by simp
    then show ?thesis by (rule Cons.IH [OF kept(1) others rest _ Cons.prems(5,6)])
  qed
qed simp

lemma run_reaches:
  assumes ok: "run_ok (\<lambda>db. is_open db \<or> is_done db) asks table db"
    and run: "retry_runs cfg m limit ((now, net) # runs) (table, db) = (table', db')"
    and row: "r \<in> set (fetch_pending m limit table)" "rc_charge (op_context r) = Some (ChargeId i)"
      "\<forall>e. net (op_id r) \<noteq> RequestLost e"
  shows "is_done db'"
proof -
  obtain report table1 db1 where step: "retry_pending_finalizes cfg now net m limit table db = (report, table1, db1)"
    by (rule prod_cases3)
  note rows = step [unfolded retry_pending_finalizes_def Let_def]
  have "is_done db1" by (rule rows_reach [OF ok fetched_ask [OF ok] rows row])
  moreover have "run_ok (\<lambda>db. is_open db \<or> is_done db) asks table1 db1"
    using rows_keep [OF ok fetched_ask [OF ok] rows] by (rule conjunct1)
  moreover have "retry_runs cfg m limit runs (table1, db1) = (table', db')" using run by (simp add: step)
  ultimately show ?thesis using runs_keep by blast
qed

lemma delivered:
  assumes ok: "run_ok (\<lambda>db. is_open db \<or> is_done db) asks table db" and ids: "distinct (map op_id table)"
    and row: "r \<in> set (fetch_pending m limit table)" "rc_charge (op_context r) = Some (ChargeId i)" "net (op_id r) = Delivered"
    and run: "retry_pending_finalizes cfg now net m limit table db = (report, table', db')"
  shows "is_done db' \<and>
    (\<exists>r'\<in>set table'. op_id r' = op_id r \<and> rc_succeeded_at (op_context r') = Some now \<and> \<not> pending_row m r')"
proof -
  let ?rows = "fetch_pending m limit table"
  note ask = fetched_ask [OF ok, of m limit]
  obtain xs ys where split: "?rows = xs @ r # ys" using row(1) by (meson split_list)
  have apart: "op_id r \<notin> op_id ` set xs" "op_id r \<notin> op_id ` set ys"
    using fetched_distinct [OF ids, of m limit] by (auto simp: split)
  define start where "start = \<lparr>rp_pending = length ?rows, rp_succeeded = 0, rp_failed = 0, rp_exhausted = 0, rp_results = []\<rparr>"
  obtain report1 table1 db1 where one: "fold (retry_row cfg now net m) xs (start, table, db) = (report1, table1, db1)"
    by (rule prod_cases3)
  obtain report2 table2 db2 where two: "retry_row cfg now net m r (report1, table1, db1) = (report2, table2, db2)"
    by (rule prod_cases3)
  have three: "fold (retry_row cfg now net m) ys (report2, table2, db2) = (report, table', db')"
    using run unfolding retry_pending_finalizes_def Let_def start_def [symmetric] unfolding split by (simp add: one two)
  have ask': "\<forall>r\<in>set xs. asks r \<and> rc_failed (op_context r)" "asks r" "rc_failed (op_context r)"
      "\<forall>r\<in>set ys. asks r \<and> rc_failed (op_context r)"
    using ask by (simp_all add: split)
  have first: "run_ok (\<lambda>db. is_open db \<or> is_done db) asks table1 db1" "r \<in> set table1"
    using rows_keep [OF ok ask'(1) one] apart(1) row(1) fetched_in by blast+
  note second = row_keeps [OF first(1) ask'(2,3) two]
  note third = rows_keep [OF second(1) ask'(4) three]
  have st: "is_open db1 \<or> is_done db1" using first(1) by (simp add: run_ok_def)
  obtain outcome db3 where call: "retry_call cfg now (net (op_id r)) r i db1 = (outcome, db3)" by (rule prod.exhaust)
  have done1: "br_ok outcome" "is_done db3" using call_keeps(2) [OF st ask'(2,3) row(2) call _ row(3)] by simp_all
  obtain b where two': "db2 = db3" "table2 = update_row (op_id r) (mark_succeeded now (br_state outcome) (br_status outcome) b) table1"
    using two done1(1) by (auto simp: retry_row_def row(2) call Let_def)
  let ?r = "mark_succeeded now (br_state outcome) (br_status outcome) b r"
  have "?r \<in> set table2" using first(2) by (auto simp: two'(2) update_row_def)
  moreover have "op_id ?r = op_id r" "rc_succeeded_at (op_context ?r) = Some now" "\<not> pending_row m ?r"
    by (simp_all add: mark_succeeded_def mark_cancel_succeeded_def pending_row_def Let_def)
  ultimately show ?thesis using third apart(2) done1(2) two'(1) by metis
qed

end

section \<open>Finalizing a reserved charge\<close>

definition charge_cost :: "settings \<Rightarrow> finalize_request \<Rightarrow> saga_instance \<Rightarrow> rat" where
  "charge_cost cfg body s =
     (if fr_success body then (case finalize_amount cfg body s of None \<Rightarrow> 0 | Some actual \<Rightarrow> actual) else 0)"

definition final_state :: "finalize_request \<Rightarrow> state" where
  "final_state body = (if fr_success body then CHARGED else REFUNDED)"

text \<open>The charge is reserved and can be finalized, or has been, at its cost.\<close>

definition payable :: "settings \<Rightarrow> nat \<Rightarrow> finalize_request \<Rightarrow> saga_instance \<Rightarrow> billing_db \<Rightarrow> bool" where
  "payable cfg i body s db \<longleftrightarrow> money_inv db \<and> settings_ok cfg \<and> charge_min_amount cfg \<le> reserved_amount s \<and>
     dict_get ''max_solve_seconds'' (sg_payload s) = None \<and> saga_get i db = Some s \<and> sg_state s = state_value RESERVED"

definition paid :: "settings \<Rightarrow> nat \<Rightarrow> finalize_request \<Rightarrow> saga_instance \<Rightarrow> billing_db \<Rightarrow> bool" where
  "paid cfg i body s db \<longleftrightarrow> money_inv db \<and> settings_ok cfg \<and> saga_sum i db = - charge_cost cfg body s \<and>
     (\<exists>t. saga_get i db = Some (s\<lparr>sg_state := state_value (final_state body), sg_updated := t\<rparr>))"

lemma payable_finalized:
  assumes "payable cfg i body s db"
  shows "is_returned (fst (finalize_charge cfg now i body (sg_user s) db)) \<and>
    paid cfg i body s (snd (finalize_charge cfg now i body (sg_user s) db))"
proof -
  define db' where "db' = snd (finalize_charge cfg now i body (sg_user s) db)"
  have inv: "money_inv db" and cfg: "settings_ok cfg" and low: "charge_min_amount cfg \<le> reserved_amount s"
    and s: "saga_get i db = Some s" "sg_user s = sg_user s" "sg_state s = state_value RESERVED"
    and cap: "dict_get ''max_solve_seconds'' (sg_payload s) = None"
    using assms by (simp_all add: payable_def)
  have inv': "money_inv db'" unfolding db'_def by (rule finalize_keeps_money [OF inv cfg])
  show ?thesis
  proof (cases "fr_success body")
    case True
    obtain actual where actual: "finalize_amount cfg body s = Some actual" using cap_known [OF cap] by blast
    note m = money_invD [OF inv s(1)]
    note r = finalize_success_result [OF inv s True actual cfg db'_def]
    have "- reserved_amount s + partial_refund (reserved_amount s) actual = - actual"
      using finalize_amount_range(3) [OF actual cfg m(3,4)] low by (simp add: partial_refund_def)
    then have "paid cfg i body s db'"
      using inv' cfg r(2,5) True by (auto simp: paid_def charge_cost_def final_state_def actual)
    moreover have "is_returned (fst (finalize_charge cfg now i body (sg_user s) db))"
      using finalize_answer [OF s True actual prod.collapse [symmetric]] by simp
    ultimately show ?thesis by (simp add: db'_def)
  next
    case False
    note r = finalize_failure_result [OF inv s False db'_def]
    have "paid cfg i body s db'" using inv' cfg r(2,3) False by (auto simp: paid_def charge_cost_def final_state_def)
    moreover have "is_returned (fst (finalize_charge cfg now i body (sg_user s) db))"
      using finalize_reserved(2) [OF s False] by (simp add: finalize_failure_def Let_def)
    ultimately show ?thesis by (simp add: db'_def)
  qed
qed

lemma paid_finalized:
  assumes "paid cfg i body s db"
  shows "is_returned (fst (finalize_charge cfg now i body (sg_user s) db)) \<and>
    snd (finalize_charge cfg now i body (sg_user s) db) = db"
  using assms by (auto simp: paid_def final_state_def finalize_charge_def with_own_saga_cases)


text \<open>Every flagged row that names charge \<open>i\<close> asks for the same finalize, on behalf of the charge's owner.\<close>

definition asks_finalize :: "nat \<Rightarrow> finalize_request \<Rightarrow> nat \<Rightarrow> optimization \<Rightarrow> bool" where
  "asks_finalize i body user r \<longleftrightarrow>
     (let c = op_context r in
      rc_failed c \<and> rc_charge c = Some (ChargeId i) \<longrightarrow>
        rc_operation c \<noteq> Some ''user_cancel_refund'' \<and> op_user r = user \<and>
        finalize_body (case rc_elapsed c of None \<Rightarrow> 0 | Some t \<Rightarrow> t)
          (case rc_status c of None \<Rightarrow> ''failure'' | Some st \<Rightarrow> st) (rc_reason c) (rc_discount c) = Some body)"

interpretation finalizing: retried_charge "\<lambda>now. finalize_charge cfg now i body (sg_user s)"
    "payable cfg i body s" "paid cfg i body s" cfg i fi_state "asks_finalize i body (sg_user s)"
  for cfg i body s
proof
  show "retry_call cfg now f row i db = billing_call f fi_state db (finalize_charge cfg now i body (sg_user s) db)"
    if "asks_finalize i body (sg_user s) row" "rc_failed (op_context row)" "rc_charge (op_context row) = Some (ChargeId i)"
    for row now f db
    using that by (simp add: asks_finalize_def Let_def retry_call_def client_finalize_def validated_def)
  show "asks_finalize i body (sg_user s) (g row)" if "is_mark g" "asks_finalize i body (sg_user s) row" for g row
    using that(2) marked [OF that(1), of row] unfolding asks_finalize_def Let_def by presburger
  fix db j db' assume t: "touches j db db'" "money_inv db'" "j \<noteq> i"
  then have same: "saga_get i db' = saga_get i db" "saga_sum i db' = saga_sum i db"
    by (simp_all add: touches_def saga_sum_rows)
  show "payable cfg i body s db \<Longrightarrow> payable cfg i body s db'" "paid cfg i body s db \<Longrightarrow> paid cfg i body s db'"
    using same t(2) by (auto simp: payable_def paid_def)
qed (use payable_finalized paid_finalized in \<open>auto simp: payable_def paid_def\<close>)

section \<open>Refunding a cancelled charge\<close>

text \<open>The charge is reserved or charged and can be refunded, or has been and costs nothing.\<close>

definition refundable :: "settings \<Rightarrow> nat \<Rightarrow> saga_instance \<Rightarrow> billing_db \<Rightarrow> bool" where
  "refundable cfg i s db \<longleftrightarrow> money_inv db \<and> settings_ok cfg \<and> saga_get i db = Some s \<and>
     ends_with ''_charge'' (sg_type s) \<and> sg_state s \<in> {state_value RESERVED, state_value CHARGED}"

definition refunded :: "settings \<Rightarrow> nat \<Rightarrow> saga_instance \<Rightarrow> billing_db \<Rightarrow> bool" where
  "refunded cfg i s db \<longleftrightarrow> money_inv db \<and> settings_ok cfg \<and> ends_with ''_charge'' (sg_type s) \<and> saga_sum i db = 0 \<and>
     (\<exists>t. saga_get i db = Some (s\<lparr>sg_state := state_value REFUNDED, sg_updated := t\<rparr>) \<or>
       saga_get i db = Some (s\<lparr>sg_state := state_value ROLLED_BACK, sg_updated := t\<rparr>))"

lemma refundable_refunded:
  assumes "refundable cfg i s db"
  shows "is_returned (fst (refund_user_cancel_charge now i body (sg_user s) db)) \<and>
    refunded cfg i s (snd (refund_user_cancel_charge now i body (sg_user s) db))"
proof -
  have inv: "money_inv db" "settings_ok cfg" and s: "saga_get i db = Some s" and ty: "ends_with ''_charge'' (sg_type s)"
    and st: "sg_state s = state_value RESERVED \<or> sg_state s = state_value CHARGED"
    using assms by (auto simp: refundable_def)
  note shapes = refund_shapes [OF s, of now body]
  from st show ?thesis
  proof
    assume r: "sg_state s = state_value RESERVED"
    note result = reserved_shape_result [OF inv(1) s r shapes(2) [OF r]]
    have "snd (refund_user_cancel_charge now i body (sg_user s) db) = snd (refund_user_cancel_reserved now i body s db)"
      "fst (refund_user_cancel_charge now i body (sg_user s) db) = fst (refund_user_cancel_reserved now i body s db)"
      using s ty r by (simp_all add: refund_user_cancel_charge_def with_own_saga_cases)
    moreover have "is_returned (fst (refund_user_cancel_reserved now i body s db))"
      unfolding refund_user_cancel_reserved_def Let_def using saga_rows.get_key [of i db s] s
      by (simp add: on_applied_step [OF s r handler_steps(3)])
    ultimately show ?thesis using result inv(2) ty by (auto simp: refunded_def)
  next
    assume r: "sg_state s = state_value CHARGED"
    note result = charged_shape_result [OF inv(1) s r shapes(4) [OF r]]
    have "snd (refund_user_cancel_charge now i body (sg_user s) db) = snd (refund_user_cancel_charged now i body s db)"
      "fst (refund_user_cancel_charge now i body (sg_user s) db) = fst (refund_user_cancel_charged now i body s db)"
      using s ty r by (simp_all add: refund_user_cancel_charge_def with_own_saga_cases)
    moreover have "is_returned (fst (refund_user_cancel_charged now i body s db))"
      unfolding refund_user_cancel_charged_def Let_def using saga_rows.get_key [of i db s] s
      by (simp add: on_applied_step [OF s r handler_steps(4)])
    ultimately show ?thesis using result inv(2) ty by (auto simp: refunded_def)
  qed
qed

lemma refunded_again:
  assumes "refunded cfg i s db"
  shows "is_returned (fst (refund_user_cancel_charge now i body (sg_user s) db)) \<and>
    snd (refund_user_cancel_charge now i body (sg_user s) db) = db"
  using assms by (auto simp: refunded_def refund_user_cancel_charge_def with_own_saga_cases)

definition asks_refund :: "nat \<Rightarrow> refund_request \<Rightarrow> nat \<Rightarrow> optimization \<Rightarrow> bool" where
  "asks_refund i body user r \<longleftrightarrow>
     (let c = op_context r in
      rc_failed c \<and> rc_charge c = Some (ChargeId i) \<longrightarrow>
        rc_operation c = Some ''user_cancel_refund'' \<and> op_user r = user \<and>
        cancel_body (or_text (rc_source_ref c) (uuid_text (op_id r)))
          (case rc_elapsed c of None \<Rightarrow> 0 | Some t \<Rightarrow> t) = Some body)"

interpretation cancelling: retried_charge "\<lambda>now. refund_user_cancel_charge now i body (sg_user s)"
    "refundable cfg i s" "refunded cfg i s" cfg i rf_state "asks_refund i body (sg_user s)"
  for cfg i body s
proof
  show "retry_call cfg now f row i db = billing_call f rf_state db (refund_user_cancel_charge now i body (sg_user s) db)"
    if "asks_refund i body (sg_user s) row" "rc_failed (op_context row)" "rc_charge (op_context row) = Some (ChargeId i)"
    for row now f db
    using that by (simp add: asks_refund_def Let_def retry_call_def client_refund_user_cancel_def validated_def)
  show "asks_refund i body (sg_user s) (g row)" if "is_mark g" "asks_refund i body (sg_user s) row" for g row
    using that(2) marked [OF that(1), of row] unfolding asks_refund_def Let_def by presburger
  fix db j db' assume t: "touches j db db'" "money_inv db'" "j \<noteq> i"
  then have same: "saga_get i db' = saga_get i db" "saga_sum i db' = saga_sum i db"
    by (simp_all add: touches_def saga_sum_rows)
  show "refundable cfg i s db \<Longrightarrow> refundable cfg i s db'" "refunded cfg i s db \<Longrightarrow> refunded cfg i s db'"
    using same t(2) by (auto simp: refundable_def refunded_def)
qed (erule refundable_refunded refunded_again | auto simp: refundable_def refunded_def)+

section \<open>Where the rows come from\<close>

lemma finalize_after_solve_keeps:
  assumes db: "payable cfg i body s db" and opt: "op_user opt = sg_user s" "rc_operation (op_context opt) = None"
      "rc_charge (op_context opt) = None" "rc_discount (op_context opt) = None"
    and body: "finalize_body seconds status reason discount = Some body"
      "status = (if result \<in> {''optimal'', ''timeout''} then ''success'' else ''failure'')"
      "reason = (if status = ''success'' then None else case constraint of Some (c # cs) \<Rightarrow> Some (c # cs) | _ \<Rightarrow> Some result)"
    and solve: "finalize_after_solve cfg now f i result seconds constraint discount opt db = (opt', db')"
  shows "(payable cfg i body s db' \<or> paid cfg i body s db') \<and> asks_finalize i body (sg_user s) opt'"
proof -
  let ?h = "finalize_charge cfg now i body (sg_user s) db"
  have call: "client_finalize cfg now f i (op_user opt) seconds status reason discount db = billing_call f fi_state db ?h"
    by (simp add: client_finalize_def validated_def body(1) opt(1))
  have db': "db' = snd (billing_call f fi_state db ?h)"
    and opt': "op_context opt' = (if br_ok (fst (billing_call f fi_state db ?h)) then op_context opt
      else (op_context opt)\<lparr>rc_failed := True, rc_error := br_error (fst (billing_call f fi_state db ?h)),
        rc_charge := Some (ChargeId i), rc_elapsed := Some seconds, rc_status := Some status,
        rc_reason := reason, rc_count := Some 0, rc_discount := discount\<rparr>)" "op_user opt' = op_user opt"
    using solve [symmetric] opt(4)
    unfolding finalize_after_solve_def Let_def body(2) [symmetric] body(3) [symmetric] call
    by (cases discount; simp add: merge_optimization_error_def case_prod_beta)+
  have "payable cfg i body s db' \<or> paid cfg i body s db'"
    unfolding db'
    by (rule billing_call_cases [of f fi_state db ?h]) (use db finalizing.stays [of cfg i body s db] in simp_all)
  moreover have "asks_finalize i body (sg_user s) opt'" using opt body(1) by (simp add: asks_finalize_def opt' Let_def)
  ultimately show ?thesis by blast
qed

lemma hex_digit_alnum: "n < 16 \<Longrightarrow> is_alnum (hex_digit n)"
  by (auto simp: hex_digit_def is_alnum_def is_digit_def code_of_def)

lemma uuid_text_pointer: "pointer_ref 1 128 (uuid_text i)" "uuid_text i \<noteq> []"
proof -
  have "is_alnum (hex_digit (x mod 16))" for x by (simp add: hex_digit_alnum)
  moreover from this have "pointer_char (hex_digit (x mod 16))" for x by (simp add: pointer_char_def)
  moreover have "pointer_char CHR ''-''" by (simp add: pointer_char_def)
  ultimately show "pointer_ref 1 128 (uuid_text i)" "uuid_text i \<noteq> []"
    by (simp_all add: uuid_text_def pointer_ref_def Let_def list_all_iff upt_rec [of 0 8])
qed

lemma cancel_body_sent: "0 \<le> elapsed \<Longrightarrow> \<exists>body. cancel_body (uuid_text i) elapsed = Some body"
  using uuid_text_pointer [of i]
  by (simp add: cancel_body_def user_cancel_request_ok_def) (simp add: pointer_ref_def is_alnum_def pointer_char_def code_of_def)

lemma cancelled_keeps:
  assumes db: "refundable cfg i s db" and opt: "op_user opt = sg_user s" "\<not> rc_failed (op_context opt)"
      "op_billing opt = Some m" "bm_reserved m" "\<not> bm_attempted m" "bm_charge m = Some (ChargeId i)"
    and body: "cancel_body (uuid_text (op_id opt)) (case op_solve_seconds opt of None \<Rightarrow> 0 | Some t \<Rightarrow> t) = Some body"
    and cancel: "finalize_cancelled_billing now f opt db = (status, opt', db')"
  shows "(refundable cfg i s db' \<or> refunded cfg i s db') \<and> asks_refund i body (sg_user s) opt'"
    and "(\<forall>e. f \<noteq> RequestLost e) \<Longrightarrow> refunded cfg i s db'"
proof -
  let ?h = "refund_user_cancel_charge now i body (sg_user s) db"
  let ?elapsed = "case op_solve_seconds opt of None \<Rightarrow> 0 | Some t \<Rightarrow> t"
  have call: "client_refund_user_cancel now f i (op_user opt) (uuid_text (op_id opt)) ?elapsed db = billing_call f rf_state db ?h"
    by (simp add: client_refund_user_cancel_def validated_def body opt(1))
  have meta: "optimization_billing_metadata opt = m" by (simp add: optimization_billing_metadata_def opt(3))
  have db': "db' = snd (billing_call f rf_state db ?h)" "op_id opt' = op_id opt" "op_user opt' = op_user opt"
    and failed: "rc_failed (op_context opt') = (\<not> br_ok (fst (billing_call f rf_state db ?h)))"
    and ctx: "rc_failed (op_context opt') \<Longrightarrow> rc_operation (op_context opt') = Some ''user_cancel_refund''"
      "rc_failed (op_context opt') \<Longrightarrow> rc_source_ref (op_context opt') = Some (uuid_text (op_id opt))"
      "rc_failed (op_context opt') \<Longrightarrow> rc_elapsed (op_context opt') = Some ?elapsed"
    using cancel [symmetric] opt
    by (auto simp: finalize_cancelled_billing_def Let_def meta call [unfolded opt(1)] case_prod_beta merge_optimization_error_def
        set_optimization_billing_metadata_def split: if_splits)
  have "refundable cfg i s db' \<or> refunded cfg i s db'"
    unfolding db'(1)
    by (rule billing_call_cases [of f rf_state db ?h]) (use db cancelling.stays [of cfg i s db] in simp_all)
  moreover have "or_text (Some (uuid_text (op_id opt))) x = uuid_text (op_id opt)" for x
    using uuid_text_pointer(2) [of "op_id opt"] by (auto simp: or_text_def split: list.split)
  then have "asks_refund i body (sg_user s) opt'"
    using ctx opt(1) body by (auto simp: asks_refund_def Let_def db'(2,3))
  ultimately show "(refundable cfg i s db' \<or> refunded cfg i s db') \<and> asks_refund i body (sg_user s) opt'" by blast
  show "refunded cfg i s db'" if "\<forall>e. f \<noteq> RequestLost e"
    using that cancelling.finishes [of cfg i s db] db
    by (cases f) (simp_all add: db'(1) billing_call_def split: outcome.split)
qed

lemma reserved_is_free:
  assumes "money_inv db" "saga_get i db = Some s" "sg_state s = state_value RESERVED"
  shows "saga_sum i db = 0"
proof -
  have "money_ok s db" using assms(1,2) by (rule money_invD(1))
  moreover have "sg_id s = i" using assms(2) saga_rows.get_key by blast
  ultimately show ?thesis using assms(3) by (simp add: money_ok_def saga_sum_rows)
qed

section \<open>Properties\<close>

text \<open>
  C8. A solve is paid at most once. From a reserved charge, whatever happens to the finalize after the solve
  and to every call of any number of later runs, requests or answers lost, the charge is either still
  reserved and free, or finalized at its cost.
\<close>

theorem solve_is_paid_at_most_once:
  assumes charge: "money_inv db" "settings_ok cfg" "saga_get i db = Some s" "sg_state s = ''reserved''"
      "charge_min_amount cfg \<le> reserved_amount s" "dict_get ''max_solve_seconds'' (sg_payload s) = None"
    and opt: "op_user opt = sg_user s" "op_context opt = no_context"
    and body: "finalize_body seconds status reason discount = Some body"
      "status = (if result \<in> {''optimal'', ''timeout''} then ''success'' else ''failure'')"
      "reason = (if status = ''success'' then None else case constraint of Some (c # cs) \<Rightarrow> Some (c # cs) | _ \<Rightarrow> Some result)"
    and solve: "finalize_after_solve cfg now f i result seconds constraint discount opt db = (opt', db1)"
    and others: "\<forall>r\<in>set rows. rc_charge (op_context r) \<noteq> Some (ChargeId i)"
    and runs: "retry_runs cfg m limit runs (rows @ [opt'], db1) = (table', db')"
  shows "map_option sg_state (saga_get i db') = Some ''reserved'' \<and> saga_sum i db' = 0 \<or>
    map_option sg_state (saga_get i db') = Some (if fr_success body then ''charged'' else ''refunded'') \<and>
      saga_sum i db' = - charge_cost cfg body s"
proof -
  have "payable cfg i body s db" using charge by (simp add: payable_def)
  from finalize_after_solve_keeps [OF this opt(1) _ _ _ body solve] have
    "(payable cfg i body s db1 \<or> paid cfg i body s db1) \<and> asks_finalize i body (sg_user s) opt'"
    by (simp add: opt(2) no_context_def)
  then have "run_ok (\<lambda>db. payable cfg i body s db \<or> paid cfg i body s db) (asks_finalize i body (sg_user s)) (rows @ [opt']) db1" using others by (auto simp: run_ok_def asks_finalize_def)
  from finalizing.runs_keep [OF this runs] have "payable cfg i body s db' \<or> paid cfg i body s db'" by (simp add: run_ok_def)
  then show ?thesis
  proof
    assume "payable cfg i body s db'"
    then have "money_inv db'" "saga_get i db' = Some s" "sg_state s = state_value RESERVED" by (simp_all add: payable_def)
    then show ?thesis using reserved_is_free by simp
  qed (auto simp: paid_def final_state_def)
qed

text \<open>
  C10. A run that reaches billing settles the charge: when the call of a pending row is delivered, the charge
  has been finalized at its cost, the row is marked and is not fetched again.
\<close>

theorem delivered_retry_settles:
  assumes charge: "payable cfg i body s db \<or> paid cfg i body s db"
    and table: "\<forall>r\<in>set table. asks_finalize i body (sg_user s) r" "distinct (map op_id table)"
    and row: "r \<in> set (fetch_pending m limit table)" "rc_charge (op_context r) = Some (ChargeId i)" "net (op_id r) = Delivered"
    and run: "retry_pending_finalizes cfg now net m limit table db = (report, table', db')"
  shows "map_option sg_state (saga_get i db') = Some (if fr_success body then ''charged'' else ''refunded'') \<and>
    saga_sum i db' = - charge_cost cfg body s \<and>
    (\<exists>r'\<in>set table'. op_id r' = op_id r \<and> rc_succeeded_at (op_context r') = Some now \<and> \<not> pending_row m r')"
proof -
  have "run_ok (\<lambda>db. payable cfg i body s db \<or> paid cfg i body s db) (asks_finalize i body (sg_user s)) table db"
    using charge table(1) by (simp add: run_ok_def)
  from finalizing.delivered [OF this table(2) row run] show ?thesis by (auto simp: paid_def final_state_def)
qed

text \<open>
  C9. A cancelled optimization costs nothing. Whatever the network loses of the refund and of its retries, the
  charge's rows sum to zero after the cancellation and after every later run, and the charge is never
  charged: it is still reserved, or refunded or rolled back. It does not stay reserved once billing was
  reached: if the request of the cancellation arrived, or that of a retry in any further run, its answer lost
  or not, the charge is refunded or rolled back from then on.
\<close>

theorem cancelled_solve_is_free:
  assumes charge: "money_inv db" "settings_ok cfg" "saga_get i db = Some s" "sg_state s = ''reserved''"
      "ends_with ''_charge'' (sg_type s)"
    and opt: "op_user opt = sg_user s" "op_status opt \<in> {''queued'', ''in_progress''}" "\<not> rc_failed (op_context opt)"
      "op_billing opt = Some meta" "bm_reserved meta" "\<not> bm_attempted meta" "bm_charge meta = Some (ChargeId i)"
      "op_solve_seconds opt = None"
    and others: "\<forall>r\<in>set rows. rc_charge (op_context r) \<noteq> Some (ChargeId i)"
    and cancel: "delete_optimization now f (sg_user s) (Some opt) db = (answer, Some opt', db1)"
    and runs: "retry_runs cfg m limit runs (rows @ [opt'], db1) = (table', db')"
  shows "saga_sum i db' = 0 \<and>
    map_option sg_state (saga_get i db') \<in> {Some ''reserved'', Some ''refunded'', Some ''rolled_back''} \<and>
    ((\<forall>e. f \<noteq> RequestLost e) \<longrightarrow> map_option sg_state (saga_get i db') \<in> {Some ''refunded'', Some ''rolled_back''}) \<and>
    (\<forall>now' net runs' table'' db''.
       retry_runs cfg m limit ((now', net) # runs') (table', db') = (table'', db'') \<longrightarrow>
       (\<exists>r\<in>set (fetch_pending m limit table'). rc_charge (op_context r) = Some (ChargeId i) \<and>
          (\<forall>e. net (op_id r) \<noteq> RequestLost e)) \<longrightarrow>
       saga_sum i db'' = 0 \<and> map_option sg_state (saga_get i db'') \<in> {Some ''refunded'', Some ''rolled_back''})"
proof -
  define opt1 where "opt1 = merge_optimization_error (\<lambda>c. c\<lparr>rc_status := Some ''failure'', rc_reason := Some ''user_cancelled''\<rparr>)
    (opt\<lparr>op_status := ''cancelled'', op_completed := Some now\<rparr>)"
  obtain body where body: "cancel_body (uuid_text (op_id opt1)) 0 = Some body" using cancel_body_sent by blast
  obtain status opt2 db2 where fin: "finalize_cancelled_billing now f opt1 db = (status, opt2, db2)" by (rule prod_cases3)
  have out: "opt' = merge_optimization_error (\<lambda>c. c\<lparr>rc_refund_status := Some status\<rparr>) opt2" "db1 = db2"
    using cancel opt(1,2) by (auto simp: delete_optimization_def Let_def fin simp flip: opt1_def split: if_splits)
  have "refundable cfg i s db" using charge by (simp add: refundable_def)
  note kept = cancelled_keeps [OF this _ _ _ opt(5,6,7) _ fin, of body]
  have opt1: "op_user opt1 = sg_user s" "\<not> rc_failed (op_context opt1)" "op_billing opt1 = Some meta"
      "op_solve_seconds opt1 = None" "op_id opt1 = op_id opt"
    using opt by (simp_all add: opt1_def merge_optimization_error_def)
  have sent: "cancel_body (uuid_text (op_id opt1)) (case op_solve_seconds opt1 of None \<Rightarrow> 0 | Some t \<Rightarrow> t) = Some body"
    using body opt1(4) by simp
  have asks: "(refundable cfg i s db2 \<or> refunded cfg i s db2) \<and> asks_refund i body (sg_user s) opt2"
    by (rule kept(1) [OF opt1(1,2,3) sent])
  have reached: "refunded cfg i s db1" if "\<forall>e. f \<noteq> RequestLost e"
    unfolding out(2) by (rule kept(2) [OF opt1(1,2,3) sent that])
  have "run_ok (\<lambda>db. refundable cfg i s db \<or> refunded cfg i s db) (asks_refund i body (sg_user s)) (rows @ [opt']) db1"
    using others asks by (auto simp: run_ok_def asks_refund_def out merge_optimization_error_def Let_def)
  note after = cancelling.runs_keep [OF this runs]
  have free: "saga_sum i d = 0 \<and> map_option sg_state (saga_get i d) \<in> {Some ''refunded'', Some ''rolled_back''}"
    if "refunded cfg i s d" for d using that by (auto simp: refunded_def)
  have st: "refundable cfg i s db' \<or> refunded cfg i s db'" using after unfolding run_ok_def by blast
  have "saga_sum i db' = 0 \<and>
      map_option sg_state (saga_get i db') \<in> {Some ''reserved'', Some ''refunded'', Some ''rolled_back''}"
  proof (rule disjE [OF st])
    assume "refundable cfg i s db'"
    then show ?thesis using reserved_is_free [of db' i s] charge(4) by (simp add: refundable_def)
  qed (use free [of db'] in blast)
  moreover have "map_option sg_state (saga_get i db') \<in> {Some ''refunded'', Some ''rolled_back''}" if "\<forall>e. f \<noteq> RequestLost e"
    using after reached [OF that] free [of db'] by blast
  moreover have "refunded cfg i s db''"
    if "retry_runs cfg m limit ((now', net) # runs') (table', db') = (table'', db'')"
      "r \<in> set (fetch_pending m limit table')" "rc_charge (op_context r) = Some (ChargeId i)" "\<forall>e. net (op_id r) \<noteq> RequestLost e"
    for now' net runs' table'' db'' r
    by (rule cancelling.run_reaches [OF conjunct1 [OF after] that])
  ultimately show ?thesis using free by blast
qed

text \<open>
  The counts of a report add up, one result for every row whose charge identifier could be read, and an exit
  code of 0 means that every pending row was settled.
\<close>

theorem report_adds_up:
  assumes "retry_pending_finalizes cfg now net m limit table db = (report, table', db')"
  shows "rp_pending report = rp_succeeded report + rp_failed report + rp_exhausted report \<and>
    rp_succeeded report = length (filter ro_succeeded (rp_results report)) \<and>
    (exit_code report = 0 \<longleftrightarrow> rp_succeeded report = rp_pending report)"
proof -
  have step: "rp_succeeded report' + rp_failed report' + rp_exhausted report' =
        Suc (rp_succeeded report + rp_failed report + rp_exhausted report) \<and>
      rp_pending report' = rp_pending report \<and>
      (rp_succeeded report = length (filter ro_succeeded (rp_results report)) \<longrightarrow>
        rp_succeeded report' = length (filter ro_succeeded (rp_results report')))"
    if "retry_row cfg now net m row (report, table, db) = (report', table', db')" for row report table db report' table' db'
    using that by (auto simp: retry_row_def Let_def split: option.splits charge_ref.splits prod.splits if_splits)
  have "rp_succeeded report' + rp_failed report' + rp_exhausted report' =
        rp_succeeded report + rp_failed report + rp_exhausted report + length rows \<and>
      rp_pending report' = rp_pending report \<and>
      (rp_succeeded report = length (filter ro_succeeded (rp_results report)) \<longrightarrow>
        rp_succeeded report' = length (filter ro_succeeded (rp_results report')))"
    if "fold (retry_row cfg now net m) rows (report, table, db) = (report', table', db')" for rows report table db report' table' db'
    using that
  proof (induction rows arbitrary: report table db)
    case (Cons row rows)
    obtain report1 table1 db1 where one: "retry_row cfg now net m row (report, table, db) = (report1, table1, db1)"
      by (rule prod_cases3)
    show ?case using Cons.IH [of report1 table1 db1] Cons.prems step [OF one] by (auto simp: one)
  qed simp
  from this [OF assms [unfolded retry_pending_finalizes_def Let_def]] show ?thesis
    by (auto simp: exit_code_def)
qed

section \<open>Examples\<close>

text \<open>The answer of the finalize after the solve is lost; the first run gets through.\<close>

definition sample_opt :: optimization where
  "sample_opt = \<lparr>op_id = 3, op_user = 1, op_status = ''in_progress'', op_context = no_context, op_billing = None,
     op_solve_seconds = None, op_created = sample_time, op_completed = None\<rparr>"

definition open_opt :: optimization where
  "open_opt = sample_opt\<lparr>op_context := no_context\<lparr>rc_failed := True, rc_error := Some ''read timeout'',
     rc_charge := Some (ChargeId 7), rc_elapsed := Some 12, rc_status := Some ''success'', rc_count := Some 0\<rparr>\<rparr>"

lemma sample_body: "finalize_body 12 ''success'' None None = Some sample_finalize"
  by (simp add: finalize_body_def sample_finalize_def finalize_request_ok_def)

lemma sample_payable: "payable sample_cfg 7 sample_finalize (sample_saga RESERVED) (money_db RESERVED [])"
  by (simp add: payable_def money_db_inv money_db_saga sample_cfg_ok)

lemma open_asks: "asks_finalize 7 sample_finalize (sg_user (sample_saga RESERVED)) open_opt"
  by (simp add: asks_finalize_def open_opt_def sample_opt_def no_context_def sample_body money_db_saga)

theorem solve_is_paid_at_most_once_witness:
  "\<exists>opt' db1 table' db'.
     finalize_after_solve sample_cfg sample_time (ResponseLost ''read timeout'') 7 ''optimal'' 12 None None sample_opt
       (money_db RESERVED []) = (opt', db1) \<and>
     retry_runs sample_cfg 5 100 [(sample_time, \<lambda>_. RequestLost ''refused''), (sample_time, \<lambda>_. Delivered)] ([opt'], db1) = (table', db') \<and>
     (saga_sum 7 db' = 0 \<or> saga_sum 7 db' = - charge_cost sample_cfg sample_finalize (sample_saga RESERVED))"
proof -
  obtain opt' db1 where solve: "finalize_after_solve sample_cfg sample_time (ResponseLost ''read timeout'') 7 ''optimal'' 12 None None
    sample_opt (money_db RESERVED []) = (opt', db1)" by (rule prod.exhaust)
  obtain table' db' where runs: "retry_runs sample_cfg 5 100 [(sample_time, \<lambda>_. RequestLost ''refused''), (sample_time, \<lambda>_. Delivered)]
    ([] @ [opt'], db1) = (table', db')" by (rule prod.exhaust)
  have "op_user sample_opt = sg_user (sample_saga RESERVED)" "op_context sample_opt = no_context"
    by (simp_all add: sample_opt_def money_db_saga)
  from solve_is_paid_at_most_once [OF money_db_inv(1) sample_cfg_ok(1) money_db_saga(1) _ _ _ this sample_body _ _ solve _ runs]
  show ?thesis using solve runs by (auto simp: money_db_saga sample_cfg_ok)
qed

theorem delivered_retry_settles_witness:
  "\<exists>report table' db'. retry_pending_finalizes sample_cfg sample_time (\<lambda>_. Delivered) 5 100 [open_opt] (money_db RESERVED []) =
     (report, table', db') \<and> saga_sum 7 db' = - charge_cost sample_cfg sample_finalize (sample_saga RESERVED)"
proof -
  obtain report table' db' where run: "retry_pending_finalizes sample_cfg sample_time (\<lambda>_. Delivered) 5 100 [open_opt]
    (money_db RESERVED []) = (report, table', db')" by (rule prod_cases3)
  have "open_opt \<in> set (fetch_pending 5 100 [open_opt])"
    by (simp add: fetch_pending_def pending_row_def retry_count_def open_opt_def no_context_def)
  from delivered_retry_settles [OF disjI1 [OF sample_payable] _ _ this _ _ run] open_asks run show ?thesis
    by (simp add: open_opt_def no_context_def)
qed

definition queued_opt :: optimization where
  "queued_opt = sample_opt\<lparr>op_status := ''queued'',
     op_billing := Some (no_metadata\<lparr>bm_charge := Some (ChargeId 7), bm_reserved := True\<rparr>)\<rparr>"

text \<open>The request of the cancellation is lost, the answer of the first retry as well, but not its request.\<close>

theorem cancelled_solve_is_free_witness:
  "\<exists>answer opt' db1 table'' db''.
     delete_optimization sample_time (RequestLost ''refused'') 1 (Some queued_opt) (money_db RESERVED []) = (answer, Some opt', db1) \<and>
     rc_failed (op_context opt') \<and>
     saga_sum 7 db1 = 0 \<and>
     retry_runs sample_cfg 5 100 [(sample_time, \<lambda>_. ResponseLost ''timeout'')] ([opt'], db1) = (table'', db'') \<and>
     map_option sg_state (saga_get 7 db'') \<in> {Some ''refunded'', Some ''rolled_back''}"
proof -
  obtain answer opt' db1 where cancel: "delete_optimization sample_time (RequestLost ''refused'') (sg_user (sample_saga RESERVED))
      (Some queued_opt) (money_db RESERVED []) = (answer, Some opt', db1)" and failed: "rc_failed (op_context opt')"
      and opt': "rc_charge (op_context opt') = Some (ChargeId 7)" "rc_count (op_context opt') = Some 0"
        "rc_succeeded_at (op_context opt') = None"
    by (simp add: money_db_saga queued_opt_def sample_opt_def no_metadata_def no_context_def delete_optimization_def Let_def
        merge_optimization_error_def finalize_cancelled_billing_def optimization_billing_metadata_def
        client_refund_user_cancel_def billing_call_def set_optimization_billing_metadata_def case_prod_beta)
  have runs: "retry_runs sample_cfg 5 100 [] ([] @ [opt'], db1) = ([opt'], db1)" by simp
  obtain table'' db'' where run: "retry_runs sample_cfg 5 100 ((sample_time, \<lambda>_. ResponseLost ''timeout'') # []) ([opt'], db1) = (table'', db'')"
    by (rule prod.exhaust)
  have fetched: "opt' \<in> set (fetch_pending 5 100 [opt'])"
    using failed opt' by (simp add: fetch_pending_def pending_row_def retry_count_def)
  have reached: "\<exists>r\<in>set (fetch_pending 5 100 [opt']). rc_charge (op_context r) = Some (ChargeId 7) \<and>
      (\<forall>e. (\<lambda>_. ResponseLost ''timeout'') (op_id r) \<noteq> RequestLost e)"
    using fetched opt'(1) by auto
  from cancelled_solve_is_free [OF money_db_inv(1) sample_cfg_ok(1) money_db_saga(1) _ _ _ _ _ _ _ _ _ _ _ cancel runs,
      where meta = "no_metadata\<lparr>bm_charge := Some (ChargeId 7), bm_reserved := True\<rparr>"]
  have facts: "saga_sum 7 db1 = 0 \<and> (\<forall>now' net runs' table'' db''.
       retry_runs sample_cfg 5 100 ((now', net) # runs') ([opt'], db1) = (table'', db'') \<longrightarrow>
       (\<exists>r\<in>set (fetch_pending 5 100 [opt']). rc_charge (op_context r) = Some (ChargeId 7) \<and>
          (\<forall>e. net (op_id r) \<noteq> RequestLost e)) \<longrightarrow>
       saga_sum 7 db'' = 0 \<and> map_option sg_state (saga_get 7 db'') \<in> {Some ''refunded'', Some ''rolled_back''})"
    using ends_with_charge [of RESERVED]
    by (simp add: money_db_saga queued_opt_def sample_opt_def no_context_def no_metadata_def del: retry_runs.simps)
  have "map_option sg_state (saga_get 7 db'') \<in> {Some ''refunded'', Some ''rolled_back''}"
    by (rule conjunct2 [OF facts [THEN conjunct2, rule_format, OF run reached]])
  with cancel failed run facts show ?thesis by (auto simp: money_db_saga simp del: retry_runs.simps)
qed

theorem report_adds_up_witness:
  "rp_pending (fst (retry_pending_finalizes sample_cfg sample_time (\<lambda>_. Delivered) 5 100 [open_opt, sample_opt] (money_db RESERVED []))) =
   (let report = fst (retry_pending_finalizes sample_cfg sample_time (\<lambda>_. Delivered) 5 100 [open_opt, sample_opt] (money_db RESERVED []))
    in rp_succeeded report + rp_failed report + rp_exhausted report)"
  using report_adds_up by (metis prod.collapse)

text \<open>
  Giving up does not stop the retries: the row keeps its flag and its count, so the next run fetches it
  again. A row whose charge identifier is malformed is given up in every run, for ever; enough of them, and
  the oldest, fill the batch of every run.
\<close>

theorem given_up_rows_come_back:
  assumes "pending_row m r" "rc_charge (op_context r) = Some (NotAUuid raw)" "0 < limit"
  shows "\<exists>report r'. retry_pending_finalizes cfg now net m limit [r] db = (report, [r'], db) \<and>
    rp_exhausted report = 1 \<and> rc_given_up_at (op_context r') = Some now \<and>
    pending_row m r' \<and> rc_charge (op_context r') = Some (NotAUuid raw)"
  using assms by (simp add: retry_pending_finalizes_def fetch_pending_def retry_row_def update_row_def mark_given_up_def
      pending_row_def retry_count_def Let_def)

end
