(* ===== verification/AuthModels.thy ===== *)
theory AuthModels
  imports Responses PyText
begin

text \<open>
  The tables of the auth service (apps/auth-service/src/auth_service/models.py), its settings (config.py),
  tokens (security.py) and the resolution of a caller from a token (routes.py). As in Models, identifiers
  are counted; \<open>as_uuid\<close> gives the text of the random UUID an identifier stands for. Columns that no
  modelled code reads (\<^verbatim>\<open>updated_at\<close> of users, the metadata and user agent of audit rows, labels of
  rules) are left out.
\<close>

section \<open>Rows\<close>

record account =
  ac_id :: nat
  ac_phone :: string
  ac_email :: string
  ac_edu :: bool
  ac_verified :: bool
  ac_risk :: rat
  ac_frozen :: bool
  ac_merged_into :: "nat option"
  ac_merged_at :: "datetime option"
  ac_created :: datetime
  ac_deleted :: "datetime option"

record api_key =
  ak_id :: nat
  ak_user :: nat
  ak_hash :: string
  ak_prefix :: string
  ak_pepper :: nat
  ak_label :: string
  ak_description :: "string option"
  ak_scope :: "string list"
  ak_expires :: "datetime option"
  ak_used_at :: "datetime option"
  ak_used_ip :: "string option"
  ak_bucket :: "string option"
  ak_geo_score :: rat
  ak_geo_at :: "datetime option"
  ak_geo_meta :: jdict
  ak_revoked :: "datetime option"
  ak_created :: datetime

record user_otp =
  ot_id :: nat
  ot_user :: nat
  ot_factor :: string
  ot_code :: string
  ot_expires :: datetime
  ot_used :: "datetime option"
  ot_created :: datetime

record guardian_consent =
  gc_id :: nat
  gc_phone :: string
  gc_email :: string
  gc_age :: int
  gc_guardian :: string
  gc_hash :: string
  gc_expires :: datetime
  gc_confirmed :: "datetime option"
  gc_user :: "nat option"
  gc_created :: datetime

record deletion_request =
  dr_id :: nat
  dr_snapshot :: nat
  dr_user :: "nat option"
  dr_status :: string
  dr_requested :: datetime
  dr_hard_at :: datetime
  dr_completed :: "datetime option"

record merge_evidence =
  me_reason :: string
  me_contact :: string
  me_note :: "string option"
  me_team :: "int option"

record merge_proposal =
  mp_id :: nat
  mp_requester :: nat
  mp_primary :: nat
  mp_duplicates :: "nat list"
  mp_evidence :: merge_evidence
  mp_status :: string
  mp_mode :: string
  mp_score :: "rat option"
  mp_due :: datetime
  mp_reviewed_at :: "datetime option"
  mp_reviewed_by :: "string option"
  mp_reason :: "string option"
  mp_accepted :: "datetime option"
  mp_created :: datetime
  mp_updated :: datetime

record freeze_appeal =
  fa_id :: nat
  fa_user :: nat
  fa_proposal :: "nat option"
  fa_hash :: string
  fa_status :: string
  fa_contact :: string
  fa_expires :: datetime
  fa_viewed :: "datetime option"
  fa_created :: datetime
  fa_updated :: datetime

record risk_rule =
  rk_code :: string
  rk_enabled :: bool

record risk_flag =
  rf_id :: nat
  rf_user :: nat
  rf_rule :: string
  rf_source :: string
  rf_meta :: json
  rf_created :: datetime

record audit_row =
  al_id :: nat
  al_user :: "nat option"
  al_actor :: string
  al_action :: string
  al_type :: "string option"
  al_resource :: "nat option"
  al_ip :: "string option"
  al_created :: datetime

text \<open>\<open>ad_credits\<close> is the ledger table of billing, which the signup seeds with raw SQL.\<close>

record auth_db =
  ad_accounts :: "account list"
  ad_keys :: "api_key list"
  ad_otps :: "user_otp list"
  ad_consents :: "guardian_consent list"
  ad_deletions :: "deletion_request list"
  ad_proposals :: "merge_proposal list"
  ad_appeals :: "freeze_appeal list"
  ad_rules :: "risk_rule list"
  ad_flags :: "risk_flag list"
  ad_audit :: "audit_row list"
  ad_credits :: "credit_transaction list"
  ad_next :: nat

text \<open>
  The database as infra/local-init seeds it: no rows but the risk rules, of which one is enabled
  (07-risk-control.sql, 09-geo-anomaly-risk.sql).
\<close>

definition seeded_rules :: "risk_rule list" where
  "seeded_rules =
     map (\<lambda>(c, e). \<lparr>rk_code = c, rk_enabled = e\<rparr>)
       [(''fingerprint_high'', False), (''ip_24_share'', True), (''calls_24h_over_20'', False),
        (''payment_reused'', False), (''phone_reused'', False), (''geo_anomaly'', False)]"

definition seeded_db :: auth_db where
  "seeded_db = \<lparr>ad_accounts = [], ad_keys = [], ad_otps = [], ad_consents = [], ad_deletions = [], ad_proposals = [],
     ad_appeals = [], ad_rules = seeded_rules, ad_flags = [], ad_audit = [], ad_credits = [], ad_next = 0\<rparr>"

section \<open>Settings and tokens\<close>

text \<open>
  The claims of a token; \<open>cl_sub\<close> is the user. Signing and checking a JWT is a library's:
  \<open>as_decode now\<close> is \<^verbatim>\<open>None\<close> where \<^verbatim>\<open>jwt.decode\<close> raises. The three HMACs, each with its
  pepper, are parameters too, and so is the text of an IPv6 address in normal form.
\<close>

record claims =
  cl_sub :: nat
  cl_iat :: int
  cl_exp :: int
  cl_type :: string

record auth_settings =
  as_otp_ttl :: int
  as_otp_return :: bool
  as_consent_ttl :: int
  as_consent_return :: bool
  as_admin_secret :: string
  as_edu_seed :: rat
  as_access_ttl :: int
  as_refresh_ttl :: int
  as_pepper :: nat
  as_key_hash :: "string \<Rightarrow> string"
  as_consent_hash :: "string \<Rightarrow> string"
  as_appeal_hash :: "string \<Rightarrow> string"
  as_encode :: "claims \<Rightarrow> string"
  as_decode :: "datetime \<Rightarrow> string \<Rightarrow> claims option"
  as_uuid :: "nat \<Rightarrow> string"
  as_ipv6 :: "string \<Rightarrow> string option"

text \<open>The defaults of config.py, for given hashes, token library and identifiers.\<close>

definition default_auth_settings ::
  "(string \<Rightarrow> string) \<Rightarrow> (string \<Rightarrow> string) \<Rightarrow> (string \<Rightarrow> string) \<Rightarrow> (claims \<Rightarrow> string) \<Rightarrow>
   (datetime \<Rightarrow> string \<Rightarrow> claims option) \<Rightarrow> (nat \<Rightarrow> string) \<Rightarrow> (string \<Rightarrow> string option) \<Rightarrow> auth_settings" where
  "default_auth_settings kh ch ah enc dec ids v6 =
     \<lparr>as_otp_ttl = 300, as_otp_return = True, as_consent_ttl = 86400, as_consent_return = True, as_admin_secret = [],
      as_edu_seed = 2000, as_access_ttl = 15, as_refresh_ttl = 7, as_pepper = 1, as_key_hash = kh, as_consent_hash = ch,
      as_appeal_hash = ah, as_encode = enc, as_decode = dec, as_uuid = ids, as_ipv6 = v6\<rparr>"

text \<open>
  A concrete instance: hashes that keep the text, tokens that show their user and type, identifiers in
  unary, no IPv6, and an admin secret.
\<close>

definition plain_settings :: auth_settings where
  "plain_settings =
     (default_auth_settings (\<lambda>s. s) (\<lambda>s. s) (\<lambda>s. s)
        (\<lambda>c. (if cl_type c = ''access'' then CHR ''a'' else CHR ''r'') # replicate (cl_sub c) CHR ''1'')
        (\<lambda>now s. if s = [] then None else Some \<lparr>cl_sub = length (tl s), cl_iat = 0, cl_exp = 0,
           cl_type = (if hd s = CHR ''a'' then ''access'' else ''refresh'')\<rparr>)
        (\<lambda>i. replicate (12 + i) CHR ''0'') (\<lambda>s. None))
     \<lparr>as_admin_secret := ''secret''\<rparr>"

definition seconds :: "int \<Rightarrow> int" where
  "seconds n = n * 1000000"

text \<open>\<^verbatim>\<open>int(d.timestamp())\<close>: whole seconds since 1970.\<close>

definition timestamp :: "datetime \<Rightarrow> int" where
  "timestamp d = dt_minus d (DateTime 1970 1 1 0) div 1000000"

definition create_access_token :: "auth_settings \<Rightarrow> datetime \<Rightarrow> nat \<Rightarrow> string" where
  "create_access_token cfg now user =
     as_encode cfg \<lparr>cl_sub = user, cl_iat = timestamp now, cl_exp = timestamp (dt_plus now (seconds (as_access_ttl cfg * 60))),
       cl_type = ''access''\<rparr>"

definition create_refresh_token :: "auth_settings \<Rightarrow> datetime \<Rightarrow> nat \<Rightarrow> string" where
  "create_refresh_token cfg now user =
     as_encode cfg \<lparr>cl_sub = user, cl_iat = timestamp now, cl_exp = timestamp (dt_plus now (days (as_refresh_ttl cfg))),
       cl_type = ''refresh''\<rparr>"

section \<open>Writes\<close>

definition add_audit ::
  "nat option \<Rightarrow> string \<Rightarrow> string \<Rightarrow> string \<Rightarrow> nat option \<Rightarrow> string option \<Rightarrow> datetime \<Rightarrow> auth_db \<Rightarrow> auth_db" where
  "add_audit user actor action rtype resource ip now db =
     db\<lparr>ad_audit := ad_audit db @
          [\<lparr>al_id = ad_next db, al_user = user, al_actor = actor, al_action = action, al_type = Some rtype,
            al_resource = resource, al_ip = ip, al_created = now\<rparr>],
        ad_next := Suc (ad_next db)\<rparr>"

definition account_get :: "nat \<Rightarrow> auth_db \<Rightarrow> account option" where
  "account_get i db = row_get ac_id i (ad_accounts db)"

text \<open>\<^verbatim>\<open>update(User).where(..).values(..)\<close>.\<close>

definition update_accounts :: "(account \<Rightarrow> bool) \<Rightarrow> (account \<Rightarrow> account) \<Rightarrow> auth_db \<Rightarrow> auth_db" where
  "update_accounts P f db = db\<lparr>ad_accounts := map (\<lambda>a. if P a then f a else a) (ad_accounts db)\<rparr>"

definition update_keys :: "(api_key \<Rightarrow> bool) \<Rightarrow> (api_key \<Rightarrow> api_key) \<Rightarrow> auth_db \<Rightarrow> auth_db" where
  "update_keys P f db = db\<lparr>ad_keys := map (\<lambda>k. if P k then f k else k) (ad_keys db)\<rparr>"

definition revoke_keys_of :: "nat set \<Rightarrow> datetime \<Rightarrow> auth_db \<Rightarrow> auth_db" where
  "revoke_keys_of users now =
     update_keys (\<lambda>k. ak_user k \<in> users \<and> ak_revoked k = None) (\<lambda>k. k\<lparr>ak_revoked := Some now\<rparr>)"

definition proposal_get :: "nat \<Rightarrow> auth_db \<Rightarrow> merge_proposal option" where
  "proposal_get i db = row_get mp_id i (ad_proposals db)"

definition proposal_put :: "merge_proposal \<Rightarrow> auth_db \<Rightarrow> auth_db" where
  "proposal_put p db = db\<lparr>ad_proposals := row_put mp_id p (ad_proposals db)\<rparr>"

definition appeal_get :: "nat \<Rightarrow> auth_db \<Rightarrow> freeze_appeal option" where
  "appeal_get i db = row_get fa_id i (ad_appeals db)"

definition appeal_put :: "freeze_appeal \<Rightarrow> auth_db \<Rightarrow> auth_db" where
  "appeal_put a db = db\<lparr>ad_appeals := row_put fa_id a (ad_appeals db)\<rparr>"

section \<open>Who calls\<close>

text \<open>
  \<^verbatim>\<open>_resolve_user_from_jwt\<close>; \<open>None\<close> is the 401. A request whose handler raises is rolled back
  (db.py), so it answers with the database it began with.
\<close>

definition resolve_user_from_jwt :: "auth_settings \<Rightarrow> datetime \<Rightarrow> string option \<Rightarrow> nat option" where
  "resolve_user_from_jwt cfg now authorization =
     (case authorization of
        None \<Rightarrow> None
      | Some header \<Rightarrow>
          if \<not> starts_with ''Bearer '' header then None
          else (case as_decode cfg now (drop 7 header) of
                  None \<Rightarrow> None
                | Some c \<Rightarrow> if cl_type c \<noteq> ''access'' then None else Some (cl_sub c)))"

definition with_jwt ::
  "auth_settings \<Rightarrow> datetime \<Rightarrow> string option \<Rightarrow> auth_db \<Rightarrow> (nat \<Rightarrow> 'a outcome \<times> auth_db) \<Rightarrow> 'a outcome \<times> auth_db" where
  "with_jwt cfg now authorization db k =
     (case resolve_user_from_jwt cfg now authorization of None \<Rightarrow> (HttpError 401, db) | Some user \<Rightarrow> k user)"

definition get_active_user :: "nat \<Rightarrow> auth_db \<Rightarrow> account option" where
  "get_active_user user db =
     (case account_get user db of None \<Rightarrow> None | Some a \<Rightarrow> if ac_deleted a = None then Some a else None)"

text \<open>\<^verbatim>\<open>_require_active_user\<close>.\<close>

definition require_active_user :: "nat \<Rightarrow> auth_db \<Rightarrow> account option" where
  "require_active_user user db =
     (case get_active_user user db of
        None \<Rightarrow> None
      | Some a \<Rightarrow> if ac_merged_at a \<noteq> None then None else if ac_frozen a then None else Some a)"

definition with_active_user ::
  "auth_settings \<Rightarrow> datetime \<Rightarrow> string option \<Rightarrow> auth_db \<Rightarrow> (nat \<Rightarrow> 'a outcome \<times> auth_db) \<Rightarrow> 'a outcome \<times> auth_db" where
  "with_active_user cfg now authorization db k =
     with_jwt cfg now authorization db (\<lambda>user.
       case require_active_user user db of None \<Rightarrow> (HttpError 403, db) | Some _ \<Rightarrow> k user)"

text \<open>\<^verbatim>\<open>_is_tombstoned\<close>, and an account that was given up for good: deleted or merged into another.\<close>

definition is_tombstoned :: "account \<Rightarrow> bool" where
  "is_tombstoned a \<longleftrightarrow> ac_deleted a \<noteq> None \<or> ends_with ''@invalid.local'' (ac_email a)"

definition retired :: "account \<Rightarrow> bool" where
  "retired a \<longleftrightarrow> ac_deleted a \<noteq> None \<or> ac_merged_at a \<noteq> None"

lemma require_active_user_iff:
  "require_active_user user db = Some a \<longleftrightarrow> account_get user db = Some a \<and> \<not> retired a \<and> \<not> ac_frozen a"
  by (auto simp: require_active_user_def get_active_user_def retired_def split: option.splits)

lemma require_active_user_None:
  "account_get user db = Some a \<Longrightarrow> retired a \<or> ac_frozen a \<Longrightarrow> require_active_user user db = None"
  by (auto simp: require_active_user_def get_active_user_def retired_def split: option.splits)

end
