(* ===== verification/IpText.thy ===== *)
theory IpText
  imports PyText
begin

text \<open>
  IPv4 addresses as the standard library's \<^verbatim>\<open>ipaddress\<close> reads, shows and classifies them, used by the
  risk rules of the auth service (risk.py) and the geo-anomaly detector of the solver orchestrator
  (geo_risk.py).
\<close>

fun split_on :: "char \<Rightarrow> string \<Rightarrow> string list" where
  "split_on c [] = [[]]"
| "split_on c (x # xs) =
     (if x = c then [] # split_on c xs
      else case split_on c xs of [] \<Rightarrow> [[x]] | w # ws \<Rightarrow> (x # w) # ws)"

text \<open>One to three ASCII digits, no leading zero, at most 255.\<close>

definition parse_octet :: "string \<Rightarrow> int option" where
  "parse_octet s =
     (if s = [] \<or> \<not> all_digits s \<or> 3 < length s \<or> (hd s = CHR ''0'' \<and> length s \<noteq> 1) then None
      else if 255 < decimal_value 0 s then None else Some (decimal_value 0 s))"

type_synonym ipv4 = "int \<times> int \<times> int \<times> int"

definition parse_ipv4 :: "string \<Rightarrow> ipv4 option" where
  "parse_ipv4 s =
     (case map parse_octet (split_on CHR ''.'' s) of
        [Some a, Some b, Some c, Some d] \<Rightarrow> Some (a, b, c, d)
      | _ \<Rightarrow> None)"

fun show_ipv4 :: "ipv4 \<Rightarrow> string" where
  "show_ipv4 (a, b, c, d) = show_int a @ ''.'' @ show_int b @ ''.'' @ show_int c @ ''.'' @ show_int d"

definition octet :: "int \<Rightarrow> bool" where
  "octet n \<longleftrightarrow> 0 \<le> n \<and> n \<le> 255"

fun ipv4_ok :: "ipv4 \<Rightarrow> bool" where
  "ipv4_ok (a, b, c, d) \<longleftrightarrow> octet a \<and> octet b \<and> octet c \<and> octet d"

text \<open>
  \<^verbatim>\<open>is_private\<close>, \<^verbatim>\<open>is_loopback\<close>, \<^verbatim>\<open>is_link_local\<close>, \<^verbatim>\<open>is_multicast\<close>, \<^verbatim>\<open>is_reserved\<close> or
  \<^verbatim>\<open>is_unspecified\<close>.
\<close>

fun special_ipv4 :: "ipv4 \<Rightarrow> bool" where
  "special_ipv4 (a, b, c, d) \<longleftrightarrow>
     a = 0 \<or> a = 10 \<or> a = 127 \<or> (a = 169 \<and> b = 254) \<or> (a = 172 \<and> 16 \<le> b \<and> b \<le> 31) \<or>
     (a = 192 \<and> b = 0 \<and> c = 0 \<and> d \<noteq> 9 \<and> d \<noteq> 10) \<or> (a = 192 \<and> b = 0 \<and> c = 2) \<or> (a = 192 \<and> b = 168) \<or>
     (a = 198 \<and> (b = 18 \<or> b = 19)) \<or> (a = 198 \<and> b = 51 \<and> c = 100) \<or> (a = 203 \<and> b = 0 \<and> c = 113) \<or> 224 \<le> a"

section \<open>Reading what was shown\<close>

lemma split_on_append: "c \<notin> set s \<Longrightarrow> split_on c (s @ c # rest) = s # split_on c rest"
  by (induction s) auto

lemma split_on_none: "c \<notin> set s \<Longrightarrow> split_on c s = [s]"
  by (induction s) auto

lemma no_dot_in_int: "0 \<le> n \<Longrightarrow> CHR ''.'' \<notin> set (show_int n)"
  using show_int_digits by fastforce

lemma show_int_no_leading_zero: "10 \<le> n \<Longrightarrow> hd (show_int n) \<noteq> CHR ''0''"
proof (induction n rule: show_int.induct)
  case (1 n)
  have unfold: "show_int n = show_int (n div 10) @ [digit_char (n mod 10)]"
    using "1.prems" by (subst show_int.simps) simp
  have ne: "show_int (n div 10) \<noteq> []"
    using show_int_value [of "n div 10"] "1.prems" by (simp add: pos_imp_zdiv_nonneg_iff)
  show ?case
  proof (cases "n div 10 < 10")
    case True
    let ?d = "n div 10"
    have "1 \<le> ?d" using "1.prems" by simp
    then have "?d = 1 \<or> ?d = 2 \<or> ?d = 3 \<or> ?d = 4 \<or> ?d = 5 \<or> ?d = 6 \<or> ?d = 7 \<or> ?d = 8 \<or> ?d = 9"
      using True by presburger
    then have "digit_char ?d \<noteq> CHR ''0''" by (elim disjE) (simp_all add: digit_char_def)
    moreover have "show_int ?d = [digit_char ?d]" using True by (subst show_int.simps) simp
    ultimately show ?thesis using unfold by simp
  next
    case False
    with "1.IH" "1.prems" show ?thesis using unfold ne by simp
  qed
qed

lemma parse_show_octet:
  assumes "octet n"
  shows "parse_octet (show_int n) = Some n"
proof -
  have n: "0 \<le> n" "n \<le> 255" using assms by (simp_all add: octet_def)
  have v: "decimal_value 0 (show_int n) = n" "all_digits (show_int n)" "show_int n \<noteq> []"
    using show_int_value [OF n(1)] by auto
  have "length (show_int n) \<le> 3" using n by (intro length_show_int) simp_all
  moreover have "hd (show_int n) = CHR ''0'' \<Longrightarrow> length (show_int n) = 1"
  proof -
    assume "hd (show_int n) = CHR ''0''"
    then have "n < 10" using show_int_no_leading_zero [of n] by force
    then show "length (show_int n) = 1" by (subst show_int.simps) simp
  qed
  ultimately show ?thesis using v n by (auto simp: parse_octet_def)
qed

lemma parse_show_ipv4: "ipv4_ok ip \<Longrightarrow> parse_ipv4 (show_ipv4 ip) = Some ip"
proof (cases ip)
  case (fields a b c d)
  assume "ipv4_ok ip"
  then have ok: "octet a" "octet b" "octet c" "octet d" by (simp_all add: fields)
  then have "CHR ''.'' \<notin> set (show_int a)" "CHR ''.'' \<notin> set (show_int b)" "CHR ''.'' \<notin> set (show_int c)"
    "CHR ''.'' \<notin> set (show_int d)"
    by (auto simp: octet_def no_dot_in_int)
  then have "split_on CHR ''.'' (show_ipv4 ip) = [show_int a, show_int b, show_int c, show_int d]"
    by (simp add: fields split_on_append split_on_none)
  then show ?thesis using ok by (simp add: parse_ipv4_def parse_show_octet fields)
qed

lemma parse_octet_ok: "parse_octet s = Some n \<Longrightarrow> octet n"
proof -
  assume s: "parse_octet s = Some n"
  have "0 \<le> acc \<Longrightarrow> all_digits t \<Longrightarrow> 0 \<le> decimal_value acc t" for acc t
    by (induction t arbitrary: acc) (auto simp: all_digits_def is_digit_def)
  then show ?thesis using s by (auto simp: parse_octet_def octet_def split: if_splits)
qed

lemma parse_ipv4_ok:
  assumes "parse_ipv4 s = Some ip"
  shows "ipv4_ok ip"
  using assms by (auto simp: parse_ipv4_def parse_octet_ok split: list.splits option.splits)

lemma show_ipv4_inject: "ipv4_ok p \<Longrightarrow> ipv4_ok q \<Longrightarrow> show_ipv4 p = show_ipv4 q \<longleftrightarrow> p = q"
  by (metis option.inject parse_show_ipv4)

end
