(* ===== verification/AuthRisk.thy ===== *)
theory AuthRisk
  imports AuthModels IpText
begin

text \<open>
  Risk rules and freezing (apps/auth-service/src/auth_service/risk.py) and the admin routes that flag and
  unfreeze users (admin_routes.py). The host of a caller is the text of an address in normal form, as an
  \<^verbatim>\<open>INET\<close> column gives it back.
\<close>

definition FREEZE_THRESHOLD :: nat where
  "FREEZE_THRESHOLD = 2"

definition R3_CODE :: string where
  "R3_CODE = ''ip_24_share''"

definition R3_MIN_PRIOR_USERS :: nat where
  "R3_MIN_PRIOR_USERS = 3"

definition R3_LOOKBACK_DAYS :: int where
  "R3_LOOKBACK_DAYS = 30"

section \<open>The rule of shared networks\<close>

definition ip_to_24_network :: "string \<Rightarrow> string option" where
  "ip_to_24_network ip_str =
     (case parse_ipv4 ip_str of
        None \<Rightarrow> None
      | Some (a, b, c, d) \<Rightarrow> Some (show_ipv4 (a, b, c, 0) @ ''/24''))"

definition evaluate_ip_24_share :: "datetime \<Rightarrow> nat \<Rightarrow> string option \<Rightarrow> auth_db \<Rightarrow> bool" where
  "evaluate_ip_24_share now user signup_ip db =
     (case signup_ip of
        None \<Rightarrow> False
      | Some ip \<Rightarrow>
          if ip = [] then False
          else (case ip_to_24_network ip of
             None \<Rightarrow> False
           | Some net \<Rightarrow>
               let since = dt_plus now (- days R3_LOOKBACK_DAYS);
                   rows = filter (\<lambda>r. al_action r = ''auth.signup'' \<and> al_ip r \<noteq> None \<and> since \<le> al_created r \<and>
                                      al_user r \<noteq> None \<and> al_user r \<noteq> Some user) (ad_audit db);
                   prior = remdups (map al_user (filter (\<lambda>r. Option.bind (al_ip r) ip_to_24_network = Some net) rows))
               in R3_MIN_PRIOR_USERS \<le> length prior))"

definition enabled_rule_codes :: "auth_db \<Rightarrow> string list" where
  "enabled_rule_codes db = map rk_code (filter rk_enabled (ad_rules db))"

definition evaluate_signup :: "datetime \<Rightarrow> nat \<Rightarrow> string option \<Rightarrow> auth_db \<Rightarrow> string list" where
  "evaluate_signup now user signup_ip db =
     (if R3_CODE \<in> set (enabled_rule_codes db) \<and> evaluate_ip_24_share now user signup_ip db then [R3_CODE] else [])"

section \<open>Flags and the freeze\<close>

definition add_flag :: "nat \<Rightarrow> datetime \<Rightarrow> string \<times> string \<times> json \<Rightarrow> auth_db \<Rightarrow> auth_db" where
  "add_flag user now flag db =
     (case flag of (rule_code, source, meta) \<Rightarrow>
        db\<lparr>ad_flags := ad_flags db @ [\<lparr>rf_id = ad_next db, rf_user = user, rf_rule = rule_code, rf_source = source,
              rf_meta = meta, rf_created = now\<rparr>],
           ad_next := Suc (ad_next db)\<rparr>)"

definition distinct_enabled_triggers :: "nat \<Rightarrow> auth_db \<Rightarrow> string list" where
  "distinct_enabled_triggers user db =
     remdups (map rf_rule (filter (\<lambda>f. rf_user f = user \<and> rf_rule f \<in> set (enabled_rule_codes db)) (ad_flags db)))"

text \<open>\<^verbatim>\<open>apply_flags_and_maybe_freeze\<close>: whether this call froze the user.\<close>

definition apply_flags_and_maybe_freeze ::
  "datetime \<Rightarrow> nat \<Rightarrow> (string \<times> string \<times> json) list \<Rightarrow> auth_db \<Rightarrow> bool \<times> auth_db" where
  "apply_flags_and_maybe_freeze now user new_flags db =
     (let db1 = fold (add_flag user now) new_flags db;
          distinct_enabled = distinct_enabled_triggers user db1
      in if length distinct_enabled < FREEZE_THRESHOLD then (False, db1)
         else if map_option ac_frozen (account_get user db1) = Some True then (False, db1)
         else (True, add_audit (Some user) ''system'' ''user.freeze'' ''user'' (Some user) None now
                 (update_accounts (\<lambda>a. ac_id a = user) (\<lambda>a. a\<lparr>ac_frozen := True\<rparr>) db1)))"

section \<open>Admin routes\<close>

definition require_admin_secret :: "auth_settings \<Rightarrow> string option \<Rightarrow> int option" where
  "require_admin_secret cfg header =
     (if as_admin_secret cfg = [] then Some 403
      else if header \<noteq> Some (as_admin_secret cfg) then Some 401 else None)"

definition as_admin ::
  "auth_settings \<Rightarrow> string option \<Rightarrow> auth_db \<Rightarrow> 'a outcome \<times> auth_db \<Rightarrow> 'a outcome \<times> auth_db" where
  "as_admin cfg header db handled =
     (case require_admin_secret cfg header of Some st \<Rightarrow> (HttpError st, db) | None \<Rightarrow> handled)"

record flag_response =
  fl_id :: nat
  fl_frozen :: bool
  fl_triggers :: nat

definition admin_add_risk_flag ::
  "auth_settings \<Rightarrow> datetime \<Rightarrow> string option \<Rightarrow> nat \<Rightarrow> string \<Rightarrow> json \<Rightarrow> auth_db \<Rightarrow> flag_response outcome \<times> auth_db" where
  "admin_add_risk_flag cfg now header user rule_code meta db =
     as_admin cfg header db
       (if find (\<lambda>r. rk_code r = rule_code) (ad_rules db) = None then (HttpError 404, db)
        else if account_get user db = None then (HttpError 404, db)
        else
          let flag_id = ad_next db;
              db1 = add_audit (Some user) ''admin'' ''risk.flag.add'' ''user'' (Some user) None now
                      (add_flag user now (rule_code, ''admin'', meta) db);
              triggers = distinct_enabled_triggers user db1;
              (froze, db2) = (if FREEZE_THRESHOLD \<le> length triggers
                              then apply_flags_and_maybe_freeze now user [] db1 else (False, db1));
              frozen_now = (if FREEZE_THRESHOLD \<le> length triggers \<and> \<not> froze
                            then map_option ac_frozen (account_get user db2) = Some True else froze)
          in (Returned \<lparr>fl_id = flag_id, fl_frozen = frozen_now, fl_triggers = length triggers\<rparr>, db2))"

definition admin_unfreeze_user ::
  "auth_settings \<Rightarrow> datetime \<Rightarrow> string option \<Rightarrow> nat \<Rightarrow> auth_db \<Rightarrow> nat outcome \<times> auth_db" where
  "admin_unfreeze_user cfg now header user db =
     as_admin cfg header db
       (if account_get user db = None then (HttpError 404, db)
        else (Returned user,
              add_audit (Some user) ''admin'' ''user.unfreeze'' ''user'' (Some user) None now
                (update_accounts (\<lambda>a. ac_id a = user) (\<lambda>a. a\<lparr>ac_frozen := False\<rparr>) db)))"

text \<open>Newest first; flags of one time in the order of the table, which SQL leaves open.\<close>

definition admin_list_risk_flags ::
  "auth_settings \<Rightarrow> string option \<Rightarrow> nat \<Rightarrow> auth_db \<Rightarrow> risk_flag list outcome \<times> auth_db" where
  "admin_list_risk_flags cfg header user db =
     as_admin cfg header db
       (if account_get user db = None then (HttpError 404, db)
        else (Returned (rev (sort_key rf_created (filter (\<lambda>f. rf_user f = user) (ad_flags db)))), db))"

definition admin_list_risk_rules ::
  "auth_settings \<Rightarrow> string option \<Rightarrow> auth_db \<Rightarrow> risk_rule list outcome \<times> auth_db" where
  "admin_list_risk_rules cfg header db = as_admin cfg header db (Returned (sort_key rk_code (ad_rules db)), db)"

section \<open>What the freeze does\<close>

lemma account_get_update:
  assumes "\<And>a. ac_id (f a) = ac_id a"
  shows "account_get i (update_accounts P f db) = map_option (\<lambda>a. if P a then f a else a) (account_get i db)"
proof -
  have "row_get ac_id i (map (\<lambda>a. if P a then f a else a) rows)
      = map_option (\<lambda>a. if P a then f a else a) (row_get ac_id i rows)" for rows
    using assms by (induction rows) (auto simp: row_get_Cons)
  then show ?thesis by (simp add: account_get_def update_accounts_def)
qed

lemma account_get_id: "account_get i db = Some a \<Longrightarrow> ac_id a = i"
  by (auto simp: account_get_def dest: row_get_SomeD)

lemma account_get_audit [simp]: "account_get i (add_audit u a b c d e t db) = account_get i db"
  by (simp add: account_get_def add_audit_def)

lemma account_get_flag [simp]: "account_get i (add_flag u t f db) = account_get i db"
  by (cases f) (simp add: account_get_def add_flag_def)

lemma account_get_flags [simp]: "account_get i (fold (add_flag u t) fs db) = account_get i db"
  by (induction fs arbitrary: db) simp_all

lemma triggers_audit [simp]: "distinct_enabled_triggers u (add_audit x a b c d e t db) = distinct_enabled_triggers u db"
  by (simp add: distinct_enabled_triggers_def enabled_rule_codes_def add_audit_def)

lemma triggers_update [simp]: "distinct_enabled_triggers u (update_accounts P f db) = distinct_enabled_triggers u db"
  by (simp add: distinct_enabled_triggers_def enabled_rule_codes_def update_accounts_def)

definition freeze_account :: "bool \<Rightarrow> account \<Rightarrow> account" where
  "freeze_account b a = (if b then a\<lparr>ac_frozen := True\<rparr> else a)"

lemma freeze_account_same: "ac_frozen a \<Longrightarrow> freeze_account b a = a"
  by (simp add: freeze_account_def)

text \<open>The accounts after the call: the user is frozen when the rules are enough, nobody else changes.\<close>

lemma apply_flags_account:
  assumes "apply_flags_and_maybe_freeze now user fs db = (froze, db')"
  shows "account_get i db' =
      map_option (freeze_account (i = user \<and> FREEZE_THRESHOLD \<le> length (distinct_enabled_triggers user db')))
        (account_get i db)"
proof -
  let ?db1 = "fold (add_flag user now) fs db"
  show ?thesis
  proof (cases "length (distinct_enabled_triggers user ?db1) < FREEZE_THRESHOLD")
    case True
    with assms have "db' = ?db1" by (simp add: apply_flags_and_maybe_freeze_def)
    then show ?thesis using True by (cases "account_get i db") (simp_all add: freeze_account_def)
  next
    case enough: False
    show ?thesis
    proof (cases "map_option ac_frozen (account_get user db) = Some True")
      case True
      then have "db' = ?db1" using assms enough by (simp add: apply_flags_and_maybe_freeze_def)
      then show ?thesis using True by (cases "account_get i db") (auto simp: freeze_account_def)
    next
      case False
      then have "db' = add_audit (Some user) ''system'' ''user.freeze'' ''user'' (Some user) None now
          (update_accounts (\<lambda>a. ac_id a = user) (\<lambda>a. a\<lparr>ac_frozen := True\<rparr>) ?db1)"
        using assms enough by (auto simp: apply_flags_and_maybe_freeze_def Let_def split: if_splits)
      then show ?thesis using enough
        by (cases "account_get i db") (auto simp: account_get_update freeze_account_def dest: account_get_id)
    qed
  qed
qed

lemma apply_flags_none_triggers:
  "distinct_enabled_triggers user (snd (apply_flags_and_maybe_freeze now user [] db)) = distinct_enabled_triggers user db"
  by (simp add: apply_flags_and_maybe_freeze_def Let_def)


text \<open>The rules an account has tripped that count: enabled, and with a flag of the user.\<close>

definition tripped :: "nat \<Rightarrow> auth_db \<Rightarrow> string set" where
  "tripped user db = {rf_rule f | f. f \<in> set (ad_flags db) \<and> rf_user f = user} \<inter> set (enabled_rule_codes db)"

lemma length_triggers: "length (distinct_enabled_triggers user db) = card (tripped user db)"
proof -
  have "set (map rf_rule (filter (\<lambda>f. rf_user f = user \<and> rf_rule f \<in> set (enabled_rule_codes db)) (ad_flags db)))
      = tripped user db"
    by (auto simp: tripped_def)
  then show ?thesis unfolding distinct_enabled_triggers_def length_remdups_card_conv by simp
qed

lemma admin_add_risk_flag_run:
  assumes "admin_add_risk_flag cfg now header user rule_code meta db = (Returned r, db')"
  obtains a where "account_get user db = Some a"
    and "account_get i db' = map_option (freeze_account (i = user \<and> FREEZE_THRESHOLD \<le> card (tripped user db')))
           (account_get i db)"
    and "fl_frozen r \<longleftrightarrow> FREEZE_THRESHOLD \<le> card (tripped user db')"
proof -
  let ?db1 = "add_audit (Some user) ''admin'' ''risk.flag.add'' ''user'' (Some user) None now
                (add_flag user now (rule_code, ''admin'', meta) db)"
  let ?n = "length (distinct_enabled_triggers user ?db1)"
  obtain a where a: "account_get user db = Some a"
    using assms by (auto simp: admin_add_risk_flag_def as_admin_def split: option.splits if_splits)
  obtain froze db2 where ap: "apply_flags_and_maybe_freeze now user [] ?db1 = (froze, db2)" by fastforce
  have t: "distinct_enabled_triggers user db2 = distinct_enabled_triggers user ?db1"
    using apply_flags_none_triggers [of user now ?db1] by (simp add: ap)
  have acc: "account_get j db2 = map_option (freeze_account (j = user \<and> FREEZE_THRESHOLD \<le> ?n)) (account_get j db)" for j
    using apply_flags_account [OF ap, of j] by (simp add: t)
  have db': "db' = (if FREEZE_THRESHOLD \<le> ?n then db2 else ?db1)"
    using assms by (auto simp: admin_add_risk_flag_def as_admin_def Let_def ap split: option.splits if_splits)
  have n: "card (tripped user db') = ?n" by (simp add: db' t flip: length_triggers)
  have "account_get i db' = map_option (freeze_account (i = user \<and> FREEZE_THRESHOLD \<le> card (tripped user db')))
           (account_get i db)"
    unfolding n using acc [of i] by (cases "account_get i db") (auto simp: db' freeze_account_def)
  moreover have "fl_frozen r \<longleftrightarrow> FREEZE_THRESHOLD \<le> card (tripped user db')"
    unfolding n using assms acc [of user] a
    by (auto simp: admin_add_risk_flag_def as_admin_def Let_def ap freeze_account_def split: option.splits if_splits)
  ultimately show thesis using a that by blast
qed

text \<open>
  Freezing takes two enabled rules. A flag an admin adds freezes the flagged account exactly when flags of
  at least two distinct enabled rules now stand against it, changes no other account and no other column,
  and reports that verdict.
\<close>

theorem two_rules_freeze:
  assumes "admin_add_risk_flag cfg now header user rule_code meta db = (Returned r, db')"
  shows "(\<forall>i. account_get i db' =
            map_option (\<lambda>a. if i = user \<and> 2 \<le> card (tripped user db') then a\<lparr>ac_frozen := True\<rparr> else a) (account_get i db)) \<and>
         (fl_frozen r \<longleftrightarrow> 2 \<le> card (tripped user db'))"
  using admin_add_risk_flag_run [OF assms]
  by (simp add: freeze_account_def [abs_def] FREEZE_THRESHOLD_def) metis

end
