(* ===== verification/AuthMerge.thy ===== *)
theory AuthMerge
  imports AuthRisk Requests
begin

text \<open>
  Merging duplicate accounts into a frozen one (apps/auth-service/src/auth_service/account_merge.py, with its
  request bodies in schemas.py and its routes in routes.py and admin_routes.py).
\<close>

section \<open>Signals\<close>

definition AUTO_APPROVE_THRESHOLD :: rat where
  "AUTO_APPROVE_THRESHOLD = 7/10"

text \<open>\<^verbatim>\<open>email.rsplit("@", 1)[-1].lower()\<close>.\<close>

definition email_domain :: "string \<Rightarrow> string" where
  "email_domain email = lower (rev (takeWhile (\<lambda>c. c \<noteq> CHR ''@'') (rev email)))"

definition has_risk_flag :: "nat \<Rightarrow> auth_db \<Rightarrow> bool" where
  "has_risk_flag user db \<longleftrightarrow> list_ex (\<lambda>f. rf_user f = user) (ad_flags db)"

text \<open>
  \<^verbatim>\<open>needle in str(metadata)\<close> for the text of an identifier, hexadecimal digits and dashes: it can stand in
  the text of a key or a string of the document, escapes included, or of an identifier. Numbers, quotes and
  separators cannot hold one. Bytes outside ASCII are shown as they are.
\<close>

definition repr_char :: "char \<Rightarrow> string" where
  "repr_char c =
     (if c = CHR 0x5C then [CHR 0x5C, CHR 0x5C]
      else if c = CHR 0x0A then [CHR 0x5C, CHR ''n''] else if c = CHR 0x0D then [CHR 0x5C, CHR ''r'']
      else if c = CHR 0x09 then [CHR 0x5C, CHR ''t'']
      else if code_of c < 32 \<or> code_of c = 127 then
        [CHR 0x5C, CHR ''x'', hex_digit (code_of c div 16), hex_digit (code_of c mod 16)]
      else [c])"

definition repr_body :: "string \<Rightarrow> string" where
  "repr_body s = concat (map repr_char s)"

fun mentions :: "(nat \<Rightarrow> string) \<Rightarrow> string \<Rightarrow> json \<Rightarrow> bool" where
  "mentions ids needle (JStr s) \<longleftrightarrow> contains needle (repr_body s)"
| "mentions ids needle (JId i) \<longleftrightarrow> contains needle (ids i)"
| "mentions ids needle (JList xs) \<longleftrightarrow> list_ex (mentions ids needle) xs"
| "mentions ids needle (JObj kvs) \<longleftrightarrow> list_ex (\<lambda>(k, v). contains needle (repr_body k) \<or> mentions ids needle v) kvs"
| "mentions ids needle _ \<longleftrightarrow> False"

definition metadata_links_duplicate :: "auth_settings \<Rightarrow> nat \<Rightarrow> nat \<Rightarrow> auth_db \<Rightarrow> bool" where
  "metadata_links_duplicate cfg requester duplicate db \<longleftrightarrow>
     list_ex (\<lambda>f. rf_user f = requester \<and> mentions (as_uuid cfg) (as_uuid cfg duplicate) (rf_meta f)) (ad_flags db)"

definition has_merge_signal :: "auth_settings \<Rightarrow> account \<Rightarrow> account \<Rightarrow> auth_db \<Rightarrow> bool" where
  "has_merge_signal cfg requester duplicate db \<longleftrightarrow>
     email_domain (ac_email requester) = email_domain (ac_email duplicate) \<or>
     (has_risk_flag (ac_id requester) db \<and> has_risk_flag (ac_id duplicate) db) \<or>
     metadata_links_duplicate cfg (ac_id requester) (ac_id duplicate) db"

definition calculate_auto_score :: "account \<Rightarrow> account list \<Rightarrow> string \<Rightarrow> auth_db \<Rightarrow> rat" where
  "calculate_auto_score requester duplicates reason db =
     min (1/2
          + (if duplicates \<noteq> [] \<and> list_all (\<lambda>u. email_domain (ac_email requester) = email_domain (ac_email u)) duplicates
             then 1/5 else 0)
          + (if duplicates \<noteq> [] \<and> has_risk_flag (ac_id requester) db \<and> list_all (\<lambda>u. has_risk_flag (ac_id u) db) duplicates
             then 1/5 else 0)
          + (if 8 \<le> length (strip reason) then 1/10 else 0)) 1"

section \<open>Proposals\<close>

record merge_request =
  mr_primary :: nat
  mr_duplicates :: "nat list"
  mr_evidence :: merge_evidence

definition evidence_ok :: "merge_evidence \<Rightarrow> bool" where
  "evidence_ok e \<longleftrightarrow>
     4 \<le> length (me_reason e) \<and> length (me_reason e) \<le> 500 \<and>
     (case me_note e of None \<Rightarrow> True | Some n \<Rightarrow> length n \<le> 1000) \<and>
     (case me_team e of None \<Rightarrow> True | Some n \<Rightarrow> 1 \<le> n \<and> n \<le> 50)"

definition merge_request_ok :: "merge_request \<Rightarrow> bool" where
  "merge_request_ok body \<longleftrightarrow>
     mr_duplicates body \<noteq> [] \<and> distinct (mr_duplicates body) \<and> mr_primary body \<notin> set (mr_duplicates body) \<and>
     evidence_ok (mr_evidence body)"

text \<open>The duplicates in order, up to the first that is missing or refused.\<close>

fun load_duplicates :: "(account \<Rightarrow> int option) \<Rightarrow> nat list \<Rightarrow> auth_db \<Rightarrow> int + account list" where
  "load_duplicates refuse [] db = Inr []"
| "load_duplicates refuse (d # ds) db =
     (case account_get d db of
        None \<Rightarrow> Inl 404
      | Some a \<Rightarrow>
          (case refuse a of
             Some st \<Rightarrow> Inl st
           | None \<Rightarrow> (case load_duplicates refuse ds db of Inl st \<Rightarrow> Inl st | Inr rest \<Rightarrow> Inr (a # rest))))"

definition proposed_duplicate :: "auth_settings \<Rightarrow> account \<Rightarrow> auth_db \<Rightarrow> account \<Rightarrow> int option" where
  "proposed_duplicate cfg requester db a =
     (if is_tombstoned a then Some 409 else if ac_merged_at a \<noteq> None then Some 409
      else if \<not> has_merge_signal cfg requester a db then Some 422 else None)"

definition review_mode_of :: "merge_evidence \<Rightarrow> string" where
  "review_mode_of e = (if 3 \<le> (case me_team e of None \<Rightarrow> 2 | Some n \<Rightarrow> n) then ''human'' else ''auto'')"

definition create_merge_proposal ::
  "auth_settings \<Rightarrow> datetime \<Rightarrow> nat \<Rightarrow> merge_request \<Rightarrow> auth_db \<Rightarrow> merge_proposal outcome \<times> auth_db" where
  "create_merge_proposal cfg now user body db =
     (case account_get user db of
        None \<Rightarrow> (HttpError 404, db)
      | Some requester \<Rightarrow>
          if is_tombstoned requester then (HttpError 403, db)
          else if ac_merged_at requester \<noteq> None then (HttpError 403, db)
          else if \<not> ac_frozen requester then (HttpError 409, db)
          else if mr_primary body \<noteq> user then (HttpError 403, db)
          else (case load_duplicates (proposed_duplicate cfg requester db) (mr_duplicates body) db of
             Inl st \<Rightarrow> (HttpError st, db)
           | Inr duplicates \<Rightarrow>
               let review_mode = review_mode_of (mr_evidence body);
                   due = dt_plus now (hours (if review_mode = ''human'' then 48 else 24));
                   auto_score = (if review_mode = ''auto''
                     then Some (calculate_auto_score requester duplicates (me_reason (mr_evidence body)) db) else None);
                   proposal_status = (case auto_score of
                       Some s \<Rightarrow> if AUTO_APPROVE_THRESHOLD \<le> s then ''auto_approved'' else ''pending_review''
                     | None \<Rightarrow> ''pending_review'');
                   proposal = \<lparr>mp_id = ad_next db, mp_requester = user, mp_primary = mr_primary body,
                     mp_duplicates = mr_duplicates body, mp_evidence = mr_evidence body, mp_status = proposal_status,
                     mp_mode = review_mode, mp_score = auto_score, mp_due = due, mp_reviewed_at = None,
                     mp_reviewed_by = None, mp_reason = None, mp_accepted = None, mp_created = now, mp_updated = now\<rparr>;
                   db1 = db\<lparr>ad_proposals := ad_proposals db @ [proposal], ad_next := Suc (ad_next db)\<rparr>;
                   db2 = add_audit (Some user) ''user'' ''account_merge.proposed'' ''account_merge_proposal''
                           (Some (mp_id proposal)) None now db1;
                   db3 = (if proposal_status = ''auto_approved''
                          then add_audit (Some user) ''system'' ''account_merge.auto_approved'' ''account_merge_proposal''
                                 (Some (mp_id proposal)) None now db2 else db2)
               in (Returned proposal, db3)))"

definition list_user_merge_proposals :: "nat \<Rightarrow> auth_db \<Rightarrow> merge_proposal list" where
  "list_user_merge_proposals user db =
     rev (sort_key mp_created (filter (\<lambda>p. mp_requester p = user) (ad_proposals db)))"

section \<open>Accepting and reviewing\<close>

definition retired_duplicate :: "account \<Rightarrow> int option" where
  "retired_duplicate a = (if is_tombstoned a \<or> ac_merged_at a \<noteq> None then Some 409 else None)"

definition merge_into :: "nat \<Rightarrow> datetime \<Rightarrow> account \<Rightarrow> account" where
  "merge_into primary now a = a\<lparr>ac_frozen := True, ac_merged_into := Some primary, ac_merged_at := Some now\<rparr>"

definition merge_accounts :: "nat \<Rightarrow> nat list \<Rightarrow> datetime \<Rightarrow> auth_db \<Rightarrow> auth_db" where
  "merge_accounts primary duplicates now db =
     revoke_keys_of (set duplicates) now
       (update_accounts (\<lambda>a. ac_id a \<in> set duplicates) (merge_into primary now)
         (update_accounts (\<lambda>a. ac_id a = primary) (\<lambda>a. a\<lparr>ac_frozen := False\<rparr>) db))"

definition accept_merge_proposal ::
  "datetime \<Rightarrow> nat \<Rightarrow> nat \<Rightarrow> auth_db \<Rightarrow> merge_proposal outcome \<times> auth_db" where
  "accept_merge_proposal now user proposal_id db =
     (case find (\<lambda>p. mp_id p = proposal_id \<and> mp_requester p = user) (ad_proposals db) of
        None \<Rightarrow> (HttpError 404, db)
      | Some proposal \<Rightarrow>
          if mp_status proposal = ''accepted'' then (Returned proposal, db)
          else if mp_status proposal \<notin> {''approved'', ''auto_approved''} then (HttpError 409, db)
          else (case account_get (mp_primary proposal) db of
             None \<Rightarrow> (HttpError 404, db)
           | Some primary \<Rightarrow>
               if is_tombstoned primary \<or> ac_merged_at primary \<noteq> None then (HttpError 409, db)
               else (case load_duplicates retired_duplicate (mp_duplicates proposal) db of
                  Inl st \<Rightarrow> (HttpError st, db)
                | Inr duplicates \<Rightarrow>
                    let accepted = proposal\<lparr>mp_status := ''accepted'', mp_accepted := Some now, mp_updated := now\<rparr>
                    in (Returned accepted,
                        add_audit (Some user) ''user'' ''account_merge.accepted'' ''account_merge_proposal''
                          (Some proposal_id) None now
                          (proposal_put accepted (merge_accounts (mp_primary proposal) (map ac_id duplicates) now db))))))"

text \<open>\<^verbatim>\<open>if proposal_status:\<close> an empty filter is none.\<close>

definition list_admin_merge_proposals :: "string option \<Rightarrow> auth_db \<Rightarrow> merge_proposal list" where
  "list_admin_merge_proposals proposal_status db =
     filter (\<lambda>p. case proposal_status of None \<Rightarrow> True | Some s \<Rightarrow> s = [] \<or> mp_status p = s)
       (sort_key mp_due (sort_key mp_created (ad_proposals db)))"

definition review_merge_proposal ::
  "datetime \<Rightarrow> nat \<Rightarrow> string \<Rightarrow> string \<Rightarrow> string \<Rightarrow> auth_db \<Rightarrow> merge_proposal outcome \<times> auth_db" where
  "review_merge_proposal now proposal_id decision reason reviewed_by db =
     (case proposal_get proposal_id db of
        None \<Rightarrow> (HttpError 404, db)
      | Some proposal \<Rightarrow>
          if mp_status proposal \<noteq> ''pending_review'' then (HttpError 409, db)
          else
            let reviewed = proposal\<lparr>mp_status := (if decision = ''approve'' then ''approved'' else ''rejected''),
                  mp_reviewed_at := Some now, mp_reviewed_by := Some reviewed_by, mp_reason := Some reason,
                  mp_updated := now\<rparr>
            in (Returned reviewed,
                add_audit (Some (mp_requester proposal)) ''admin'' ''account_merge.reviewed'' ''account_merge_proposal''
                  (Some proposal_id) None now (proposal_put reviewed db)))"

section \<open>Answers and routes\<close>

definition next_action :: "string \<Rightarrow> string" where
  "next_action st =
     (if st \<in> {''approved'', ''auto_approved''} then ''accept_merge''
      else if st = ''pending_review'' then ''await_review''
      else if st = ''accepted'' then ''completed''
      else if st = ''rejected'' then ''contact_support'' else ''none'')"

type_synonym proposal_response = "merge_proposal \<times> string"

definition proposal_to_response :: "merge_proposal \<Rightarrow> proposal_response" where
  "proposal_to_response p = (p, next_action (mp_status p))"

text \<open>
  \<^verbatim>\<open>AccountMergeProposalResponse\<close>: the response class admits these statuses and modes; anything else is a
  validation error of the server.
\<close>

definition proposal_response_ok :: "merge_proposal \<Rightarrow> bool" where
  "proposal_response_ok p \<longleftrightarrow>
     mp_status p \<in> {''pending_review'', ''approved'', ''rejected'', ''auto_approved'', ''accepted'', ''cancelled''} \<and>
     mp_mode p \<in> {''human'', ''auto''}"

definition answer_proposal :: "merge_proposal outcome \<times> auth_db \<Rightarrow> proposal_response outcome \<times> auth_db" where
  "answer_proposal handled =
     (case handled of
        (Returned p, db) \<Rightarrow> (if proposal_response_ok p then Returned (proposal_to_response p) else ServerError, db)
      | (Problem p, db) \<Rightarrow> (Problem p, db)
      | (HttpError n, db) \<Rightarrow> (HttpError n, db)
      | (ServerError, db) \<Rightarrow> (ServerError, db))"

definition create_account_merge_proposal ::
  "auth_settings \<Rightarrow> datetime \<Rightarrow> string option \<Rightarrow> merge_request \<Rightarrow> auth_db \<Rightarrow> proposal_response outcome \<times> auth_db" where
  "create_account_merge_proposal cfg now authorization body db =
     (if \<not> merge_request_ok body then (HttpError 422, db)
      else with_jwt cfg now authorization db (\<lambda>user. answer_proposal (create_merge_proposal cfg now user body db)))"

definition list_account_merge_proposals ::
  "auth_settings \<Rightarrow> datetime \<Rightarrow> string option \<Rightarrow> auth_db \<Rightarrow> proposal_response list outcome \<times> auth_db" where
  "list_account_merge_proposals cfg now authorization db =
     with_jwt cfg now authorization db (\<lambda>user.
       let ps = list_user_merge_proposals user db
       in (if list_all proposal_response_ok ps then Returned (map proposal_to_response ps) else ServerError, db))"

definition accept_account_merge_proposal ::
  "auth_settings \<Rightarrow> datetime \<Rightarrow> string option \<Rightarrow> nat \<Rightarrow> auth_db \<Rightarrow> proposal_response outcome \<times> auth_db" where
  "accept_account_merge_proposal cfg now authorization proposal_id db =
     with_jwt cfg now authorization db (\<lambda>user. answer_proposal (accept_merge_proposal now user proposal_id db))"

definition admin_review_account_merge_proposal ::
  "auth_settings \<Rightarrow> datetime \<Rightarrow> string option \<Rightarrow> nat \<Rightarrow> string \<Rightarrow> string \<Rightarrow> auth_db \<Rightarrow> proposal_response outcome \<times> auth_db" where
  "admin_review_account_merge_proposal cfg now header proposal_id decision reason db =
     (if \<not> (decision \<in> {''approve'', ''reject''} \<and> 1 \<le> length reason \<and> length reason \<le> 1000) then (HttpError 422, db)
      else as_admin cfg header db
             (answer_proposal (review_merge_proposal now proposal_id decision reason ''admin-secret'' db)))"

definition admin_list_account_merge_proposals ::
  "auth_settings \<Rightarrow> string option \<Rightarrow> string option \<Rightarrow> string option \<Rightarrow> auth_db \<Rightarrow> proposal_response list outcome \<times> auth_db" where
  "admin_list_account_merge_proposals cfg header status_param status_filter db =
     as_admin cfg header db
       (let ps = list_admin_merge_proposals (if status_param \<noteq> None then status_param else status_filter) db
        in (if list_all proposal_response_ok ps then Returned (map proposal_to_response ps) else ServerError, db))"

lemma load_duplicates_InrD:
  "load_duplicates refuse ds db = Inr as \<Longrightarrow>
     map ac_id as = ds \<and> (\<forall>a\<in>set as. account_get (ac_id a) db = Some a \<and> refuse a = None)"
proof (induction ds arbitrary: as)
  case (Cons d ds)
  then obtain a rest where "account_get d db = Some a" "refuse a = None" "load_duplicates refuse ds db = Inr rest" "as = a # rest"
    by (auto split: option.splits sum.splits)
  with Cons.IH [of rest] show ?case by (auto dest: account_get_id)
qed simp

end
