(* ===== verification/AuthLogin.thy ===== *)
theory AuthLogin
  imports AuthRisk Requests
begin

text \<open>
  Signing up, guardian consent, one-time codes, login and API keys
  (apps/auth-service/src/auth_service/routes.py, request bodies in schemas.py). Random draws (codes, tokens,
  the secret part of a key) are arguments. The framework has checked the addresses (\<^verbatim>\<open>EmailStr\<close>).
  A request reads the clock once.
\<close>

section \<open>Signing up\<close>

text \<open>\<^verbatim>\<open>PHONE_PATTERN\<close>: a plus sign and six to fifteen digits.\<close>

definition phone_ok :: "string \<Rightarrow> bool" where
  "phone_ok v \<longleftrightarrow>
     (case chomp v of [] \<Rightarrow> False | c # digits \<Rightarrow> c = CHR ''+'' \<and> all_digits digits \<and> 6 \<le> length digits \<and> length digits \<le> 15)"

record signup_request =
  su_phone :: string
  su_email :: string
  su_age :: int
  su_guardian :: "string option"
  su_consent_id :: "nat option"
  su_consent_token :: "string option"

definition token_length_ok :: "string \<Rightarrow> bool" where
  "token_length_ok t \<longleftrightarrow> 16 \<le> length t \<and> length t \<le> 255"

text \<open>The body as the handler sees it; \<open>None\<close> is the 422.\<close>

definition validate_signup :: "signup_request \<Rightarrow> signup_request option" where
  "validate_signup body =
     (if phone_ok (su_phone body) \<and> 0 \<le> su_age body \<and> su_age body \<le> 120 \<and>
         (case su_consent_token body of None \<Rightarrow> True | Some t \<Rightarrow> token_length_ok t) \<and>
         \<not> (14 \<le> su_age body \<and> su_age body < 18 \<and> su_guardian body = None)
      then Some (body\<lparr>su_email := lower (su_email body), su_guardian := map_option lower (su_guardian body)\<rparr>)
      else None)"

record signup_response =
  sr_user :: nat
  sr_access :: string
  sr_refresh :: string
  sr_edu :: bool

record consent_pending =
  cp_request :: nat
  cp_expires_in :: int
  cp_guardian :: string
  cp_dev_token :: "string option"

datatype signup_answer = SignedUp signup_response | ConsentPending consent_pending

definition is_edu_email :: "string \<Rightarrow> bool" where
  "is_edu_email email \<longleftrightarrow> ends_with ''.edu'' email \<or> ends_with ''.ac.cn'' email \<or> contains ''.edu.'' email"

definition new_account :: "nat \<Rightarrow> string \<Rightarrow> string \<Rightarrow> datetime \<Rightarrow> account" where
  "new_account i phone email now =
     \<lparr>ac_id = i, ac_phone = phone, ac_email = email, ac_edu = is_edu_email email, ac_verified = True, ac_risk = 0,
      ac_frozen = False, ac_merged_into = None, ac_merged_at = None, ac_created = now, ac_deleted = None\<rparr>"

definition add_account :: "string \<Rightarrow> string \<Rightarrow> datetime \<Rightarrow> auth_db \<Rightarrow> auth_db" where
  "add_account phone email now db =
     db\<lparr>ad_accounts := ad_accounts db @ [new_account (ad_next db) phone email now], ad_next := Suc (ad_next db)\<rparr>"

definition seed_edu_bucket :: "auth_settings \<Rightarrow> nat \<Rightarrow> datetime \<Rightarrow> auth_db \<Rightarrow> auth_db" where
  "seed_edu_bucket cfg user now db =
     db\<lparr>ad_credits := ad_credits db @
          [\<lparr>ct_id = ad_next db, ct_user = user, ct_saga = None, ct_amount = pg_numeric 4 (as_edu_seed cfg),
            ct_kind = ''topup'', ct_bucket = ''edu'', ct_currency = ''CNY'',
            ct_meta = [(''source'', JStr ''edu_tier_signup'')], ct_created = now\<rparr>],
        ad_next := Suc (ad_next db)\<rparr>"

definition create_verified_user_signup ::
  "auth_settings \<Rightarrow> datetime \<Rightarrow> signup_request \<Rightarrow> string option \<Rightarrow> auth_db \<Rightarrow> signup_response outcome \<times> auth_db" where
  "create_verified_user_signup cfg now body signup_ip db =
     (let email = lower (su_email body); edu_tier = is_edu_email email; user = ad_next db in
      if list_ex (\<lambda>a. ac_phone a = su_phone body \<or> ac_email a = email) (ad_accounts db) then (HttpError 409, db)
      else
        let db1 = add_account (su_phone body) email now db;
            db2 = (if edu_tier then seed_edu_bucket cfg user now db1 else db1);
            db3 = add_audit (Some user) ''user'' ''auth.signup'' ''user'' (Some user) signup_ip now db2;
            triggered = evaluate_signup now user signup_ip db3;
            ip_json = (case signup_ip of None \<Rightarrow> JNull | Some ip \<Rightarrow> JStr ip);
            db4 = (if triggered = [] then db3
                   else snd (apply_flags_and_maybe_freeze now user
                          (map (\<lambda>code. (code, ''auto'', JObj [(''signup_ip'', ip_json)])) triggered) db3))
        in (Returned \<lparr>sr_user = user, sr_access = create_access_token cfg now user,
              sr_refresh = create_refresh_token cfg now user, sr_edu = edu_tier\<rparr>, db4))"

definition pending_consent :: "datetime \<Rightarrow> string \<Rightarrow> string \<Rightarrow> string \<Rightarrow> guardian_consent \<Rightarrow> bool" where
  "pending_consent now phone email guardian c \<longleftrightarrow>
     gc_phone c = phone \<and> gc_email c = email \<and> gc_guardian c = guardian \<and> gc_confirmed c = None \<and> now < gc_expires c"

text \<open>The newest pending row, if any (\<^verbatim>\<open>ORDER BY created_at DESC LIMIT 1\<close>).\<close>

definition newest :: "('r \<Rightarrow> datetime) \<Rightarrow> 'r list \<Rightarrow> 'r option" where
  "newest created rows = (if rows = [] then None else Some (last (sort_key created rows)))"

definition create_or_refresh_guardian_consent ::
  "auth_settings \<Rightarrow> datetime \<Rightarrow> signup_request \<Rightarrow> string \<Rightarrow> auth_db \<Rightarrow> signup_answer outcome \<times> auth_db" where
  "create_or_refresh_guardian_consent cfg now body token db =
     (case su_guardian body of None \<Rightarrow> (ServerError, db)
      | Some g \<Rightarrow>
          let expires = dt_plus now (seconds (as_consent_ttl cfg));
              token_hash = as_consent_hash cfg token; email = lower (su_email body); guardian = lower g;
              answer = (\<lambda>i. Returned (ConsentPending \<lparr>cp_request = i, cp_expires_in = as_consent_ttl cfg, cp_guardian = guardian,
                 cp_dev_token = (if as_consent_return cfg then Some token else None)\<rparr>))
          in (case newest gc_created (filter (pending_consent now (su_phone body) email guardian) (ad_consents db)) of
                None \<Rightarrow>
                  (answer (ad_next db),
                   db\<lparr>ad_consents := ad_consents db @
                        [\<lparr>gc_id = ad_next db, gc_phone = su_phone body, gc_email = email, gc_age = su_age body,
                          gc_guardian = guardian, gc_hash = token_hash, gc_expires = expires, gc_confirmed = None,
                          gc_user = None, gc_created = now\<rparr>],
                      ad_next := Suc (ad_next db)\<rparr>)
              | Some c \<Rightarrow>
                  (answer (gc_id c),
                   db\<lparr>ad_consents := row_put gc_id (c\<lparr>gc_age := su_age body, gc_hash := token_hash, gc_expires := expires\<rparr>)
                        (ad_consents db)\<rparr>)))"

definition consent_matches :: "guardian_consent \<Rightarrow> signup_request \<Rightarrow> bool" where
  "consent_matches c body \<longleftrightarrow>
     gc_phone c = su_phone body \<and> gc_email c = lower (su_email body) \<and> gc_age c = su_age body \<and>
     Some (gc_guardian c) = map_option lower (su_guardian body)"

definition complete_guardian_confirmed_signup ::
  "auth_settings \<Rightarrow> datetime \<Rightarrow> signup_request \<Rightarrow> string option \<Rightarrow> auth_db \<Rightarrow> signup_response outcome \<times> auth_db" where
  "complete_guardian_confirmed_signup cfg now body signup_ip db =
     (case (su_guardian body, su_consent_id body, su_consent_token body) of
        (Some g, Some request_id, Some token) \<Rightarrow>
          (case row_get gc_id request_id (ad_consents db) of
             None \<Rightarrow> (HttpError 403, db)
           | Some c \<Rightarrow>
               if gc_confirmed c \<noteq> None then (HttpError 409, db)
               else if gc_expires c \<le> now then (HttpError 403, db)
               else if \<not> consent_matches c body then (HttpError 403, db)
               else if as_consent_hash cfg token \<noteq> gc_hash c then (HttpError 403, db)
               else (case create_verified_user_signup cfg now body signup_ip db of
                       (Returned r, db1) \<Rightarrow>
                         (Returned r, db1\<lparr>ad_consents :=
                            row_put gc_id (c\<lparr>gc_confirmed := Some now, gc_user := Some (sr_user r)\<rparr>) (ad_consents db1)\<rparr>)
                     | (failed, db1) \<Rightarrow> (failed, db)))
      | _ \<Rightarrow> (ServerError, db))"

text \<open>\<^verbatim>\<open>if a and b\<close> of two optional texts: both given and not empty.\<close>

fun given :: "string option \<Rightarrow> bool" where
  "given (Some (c # cs)) = True"
| "given _ = False"

fun map_outcome :: "('a \<Rightarrow> 'b) \<Rightarrow> 'a outcome \<Rightarrow> 'b outcome" where
  "map_outcome f (Returned a) = Returned (f a)"
| "map_outcome f (Problem p) = Problem p"
| "map_outcome f (HttpError n) = HttpError n"
| "map_outcome f ServerError = ServerError"

text \<open>The audit row of the age gate is rolled back with the request that raises.\<close>

definition signup ::
  "auth_settings \<Rightarrow> datetime \<Rightarrow> signup_request \<Rightarrow> string \<Rightarrow> string option \<Rightarrow> auth_db \<Rightarrow> signup_answer outcome \<times> auth_db" where
  "signup cfg now raw token signup_ip db =
     (case validate_signup raw of
        None \<Rightarrow> (HttpError 422, db)
      | Some body \<Rightarrow>
          if su_age body < 14 then (HttpError 403, db)
          else if su_age body < 18 then
            (if given (su_consent_token body) \<and> su_consent_id body \<noteq> None
             then map_prod (map_outcome SignedUp) id (complete_guardian_confirmed_signup cfg now body signup_ip db)
             else create_or_refresh_guardian_consent cfg now body token db)
          else map_prod (map_outcome SignedUp) id (create_verified_user_signup cfg now body signup_ip db))"

section \<open>Codes and login\<close>

definition lookup_user :: "string \<Rightarrow> string \<Rightarrow> auth_db \<Rightarrow> account option" where
  "lookup_user phone email db = find (\<lambda>a. ac_phone a = phone \<and> ac_email a = email) (ad_accounts db)"

definition frozen_auth_error :: problem where
  "frozen_auth_error =
     \<lparr>pr_status = 403, pr_title = [], pr_hints = [''errors.auth_frozen.appeal''],
      pr_next_action = Some ''/auth/frozen-appeal'', pr_type = []\<rparr>"

definition generate_otp :: "int \<Rightarrow> string" where
  "generate_otp n = pad_zeros 6 (show_int n)"

definition invalidate_unused_otps :: "datetime \<Rightarrow> nat \<Rightarrow> auth_db \<Rightarrow> auth_db" where
  "invalidate_unused_otps now user db =
     db\<lparr>ad_otps := map (\<lambda>o'. if ot_user o' = user \<and> ot_used o' = None then o'\<lparr>ot_used := Some now\<rparr> else o') (ad_otps db)\<rparr>"

definition add_otp :: "nat \<Rightarrow> string \<Rightarrow> string \<Rightarrow> datetime \<Rightarrow> datetime \<Rightarrow> auth_db \<Rightarrow> auth_db" where
  "add_otp user factor code expires now db =
     db\<lparr>ad_otps := ad_otps db @ [\<lparr>ot_id = ad_next db, ot_user = user, ot_factor = factor, ot_code = code,
          ot_expires = expires, ot_used = None, ot_created = now\<rparr>],
        ad_next := Suc (ad_next db)\<rparr>"

record otp_response =
  op_expires_in :: int
  op_phone_otp :: "string option"
  op_email_otp :: "string option"

text \<open>\<open>n1\<close> and \<open>n2\<close> are the two draws of \<^verbatim>\<open>secrets.randbelow(1_000_000)\<close>.\<close>

definition request_otp ::
  "auth_settings \<Rightarrow> datetime \<Rightarrow> string \<Rightarrow> string \<Rightarrow> int \<Rightarrow> int \<Rightarrow> auth_db \<Rightarrow> otp_response outcome \<times> auth_db" where
  "request_otp cfg now phone email n1 n2 db =
     (if \<not> phone_ok phone then (HttpError 422, db)
      else case lookup_user phone email db of
        None \<Rightarrow> (HttpError 404, db)
      | Some a \<Rightarrow>
          if ac_deleted a \<noteq> None then (HttpError 403, db)
          else if ac_frozen a then (Problem frozen_auth_error, db)
          else
            let db1 = invalidate_unused_otps now (ac_id a) db;
                expires = dt_plus now (seconds (as_otp_ttl cfg));
                phone_otp = generate_otp n1; email_otp = generate_otp n2;
                dev = (\<lambda>code. if as_otp_return cfg then Some code else None)
            in (Returned \<lparr>op_expires_in = as_otp_ttl cfg, op_phone_otp = dev phone_otp, op_email_otp = dev email_otp\<rparr>,
                add_otp (ac_id a) ''email'' email_otp expires now (add_otp (ac_id a) ''phone'' phone_otp expires now db1)))"

definition live_otp :: "datetime \<Rightarrow> nat \<Rightarrow> string \<Rightarrow> user_otp \<Rightarrow> bool" where
  "live_otp now user factor o' \<longleftrightarrow> ot_user o' = user \<and> ot_factor o' = factor \<and> ot_used o' = None \<and> now < ot_expires o'"

definition verify_otp :: "datetime \<Rightarrow> nat \<Rightarrow> string \<Rightarrow> string \<Rightarrow> auth_db \<Rightarrow> bool" where
  "verify_otp now user factor code db =
     (case newest ot_created (filter (live_otp now user factor) (ad_otps db)) of
        None \<Rightarrow> False | Some row \<Rightarrow> ot_code row = code)"

definition otp_text_ok :: "string \<Rightarrow> bool" where
  "otp_text_ok s \<longleftrightarrow> length s = 6 \<and> all_digits s"

definition login ::
  "auth_settings \<Rightarrow> datetime \<Rightarrow> string \<Rightarrow> string \<Rightarrow> string \<Rightarrow> string \<Rightarrow> auth_db \<Rightarrow> signup_response outcome \<times> auth_db" where
  "login cfg now phone email phone_otp email_otp db =
     (if \<not> (phone_ok phone \<and> otp_text_ok phone_otp \<and> otp_text_ok email_otp) then (HttpError 422, db)
      else case lookup_user phone email db of
        None \<Rightarrow> (HttpError 404, db)
      | Some a \<Rightarrow>
          if ac_deleted a \<noteq> None then (HttpError 403, db)
          else if ac_frozen a then (Problem frozen_auth_error, db)
          else if \<not> (verify_otp now (ac_id a) ''phone'' phone_otp db \<and> verify_otp now (ac_id a) ''email'' email_otp db)
            then (HttpError 401, db)
          else (Returned \<lparr>sr_user = ac_id a, sr_access = create_access_token cfg now (ac_id a),
                  sr_refresh = create_refresh_token cfg now (ac_id a), sr_edu = ac_edu a\<rparr>,
                add_audit (Some (ac_id a)) ''user'' ''auth.login'' ''user'' (Some (ac_id a)) None now
                  (invalidate_unused_otps now (ac_id a) db)))"

section \<open>API keys\<close>

definition VALID_SCOPES :: "string list" where
  "VALID_SCOPES = [''optimize:read'', ''optimize:write'', ''predict:read'', ''predict:write'', ''chat:read'',
     ''chat:write'', ''billing:read'', ''reproduce:read'']"

record key_request =
  kr_label :: string
  kr_description :: "string option"
  kr_scope :: "string list"
  kr_expires :: "datetime option"
  kr_days :: "int option"

definition validate_key_request :: "datetime \<Rightarrow> key_request \<Rightarrow> key_request option" where
  "validate_key_request now body =
     (if 1 \<le> length (kr_label body) \<and> length (kr_label body) \<le> 255 \<and> set (kr_scope body) \<subseteq> set VALID_SCOPES \<and>
         (case kr_days body of None \<Rightarrow> True | Some d \<Rightarrow> 1 \<le> d \<and> d \<le> 3650 \<and> kr_expires body = None)
      then Some (case kr_days body of None \<Rightarrow> body | Some d \<Rightarrow> body\<lparr>kr_expires := Some (dt_plus now (days d))\<rparr>)
      else None)"

record key_response =
  kp_id :: nat
  kp_key :: string
  kp_prefix :: string
  kp_preview :: string
  kp_expires :: "datetime option"

text \<open>\<^verbatim>\<open>generate_api_key\<close>: the full key, its visible prefix and its hash; the pepper's version does not change the hash.\<close>

definition generate_api_key :: "auth_settings \<Rightarrow> string \<Rightarrow> string \<times> string \<times> string" where
  "generate_api_key cfg raw = (let full_key = ''sk-'' @ raw in (full_key, take 6 full_key, as_key_hash cfg full_key))"

definition create_api_key ::
  "auth_settings \<Rightarrow> datetime \<Rightarrow> string option \<Rightarrow> key_request \<Rightarrow> string \<Rightarrow> auth_db \<Rightarrow> key_response outcome \<times> auth_db" where
  "create_api_key cfg now authorization raw_body raw db =
     (case validate_key_request now raw_body of
        None \<Rightarrow> (HttpError 422, db)
      | Some body \<Rightarrow>
          with_active_user cfg now authorization db (\<lambda>user.
            let (full_key, prefix, hmac_hash) = generate_api_key cfg raw; key_id = ad_next db;
                db1 = db\<lparr>ad_keys := ad_keys db @
                       [\<lparr>ak_id = key_id, ak_user = user, ak_hash = hmac_hash, ak_prefix = prefix, ak_pepper = 1,
                         ak_label = kr_label body, ak_description = kr_description body, ak_scope = kr_scope body,
                         ak_expires = kr_expires body, ak_used_at = None, ak_used_ip = None, ak_bucket = None,
                         ak_geo_score = 0, ak_geo_at = None, ak_geo_meta = [], ak_revoked = None, ak_created = now\<rparr>],
                       ad_next := Suc (ad_next db)\<rparr>
            in (Returned \<lparr>kp_id = key_id, kp_key = full_key, kp_prefix = prefix, kp_preview = take 16 hmac_hash @ ''...'',
                  kp_expires = kr_expires body\<rparr>,
                add_audit (Some user) ''user'' ''api_keys.create'' ''api_key'' (Some key_id) None now db1)))"

text \<open>The rows a user sees, newest first; the geo warning only of a key that is not revoked.\<close>

definition list_api_keys ::
  "auth_settings \<Rightarrow> datetime \<Rightarrow> string option \<Rightarrow> auth_db \<Rightarrow> (api_key \<times> jdict option) list outcome \<times> auth_db" where
  "list_api_keys cfg now authorization db =
     with_active_user cfg now authorization db (\<lambda>user.
       (Returned (map (\<lambda>k. (k, if ak_geo_at k \<noteq> None \<and> ak_revoked k = None then Some (ak_geo_meta k) else None))
          (rev (sort_key ak_created (filter (\<lambda>k. ak_user k = user) (ad_keys db))))), db))"

definition revoke_api_key ::
  "auth_settings \<Rightarrow> datetime \<Rightarrow> string option \<Rightarrow> nat \<Rightarrow> auth_db \<Rightarrow> unit outcome \<times> auth_db" where
  "revoke_api_key cfg now authorization key_id db =
     with_active_user cfg now authorization db (\<lambda>user.
       if find (\<lambda>k. ak_id k = key_id \<and> ak_user k = user) (ad_keys db) = None then (HttpError 404, db)
       else (Returned (),
             add_audit (Some user) ''user'' ''api_keys.revoke'' ''api_key'' (Some key_id) None now
               (update_keys (\<lambda>k. ak_id k = key_id \<and> ak_user k = user) (\<lambda>k. k\<lparr>ak_revoked := Some now\<rparr>) db)))"

end
