(* ===== verification/AuthAppeals.thy ===== *)
theory AuthAppeals
  imports AuthMerge AuthLogin
begin

text \<open>
  Appeals of frozen accounts (apps/auth-service/src/auth_service/frozen_appeals.py): without a token of
  the auth service, a tracking token lets the owner see the state of the appeal, propose a merge and accept
  an approved one.
\<close>

definition APPEAL_TTL_HOURS :: int where
  "APPEAL_TTL_HOURS = 24"

text \<open>\<^verbatim>\<open>_appeal_status\<close>; \<open>None\<close> is its 500.\<close>

definition appeal_status :: "string \<Rightarrow> string option" where
  "appeal_status v = (if v \<in> {''started'', ''proposal_submitted'', ''accepted'', ''expired''} then Some v else None)"

definition next_action_for_proposal :: "merge_proposal option \<Rightarrow> string" where
  "next_action_for_proposal proposal =
     (case proposal of
        None \<Rightarrow> ''submit_proposal''
      | Some p \<Rightarrow>
          if mp_status p \<in> {''approved'', ''auto_approved''} then ''accept_merge''
          else if mp_status p = ''pending_review'' then ''await_review''
          else if mp_status p = ''accepted'' then ''completed'' else ''contact_support'')"

record risk_summary =
  rs_flags :: nat
  rs_latest_codes :: "string list"
  rs_latest_at :: "datetime option"
  rs_score :: rat

definition safe_risk_summary :: "account \<Rightarrow> risk_flag list \<Rightarrow> risk_summary" where
  "safe_risk_summary user flags =
     (let latest = (if flags = [] then None else Some (Max (set (map rf_created flags)))) in
      \<lparr>rs_flags = length flags,
       rs_latest_codes = sort (remdups (map rf_rule (filter (\<lambda>f. Some (rf_created f) = latest) flags))),
       rs_latest_at = latest, rs_score = ac_risk user\<rparr>)"

definition user_risk_flags :: "nat \<Rightarrow> auth_db \<Rightarrow> risk_flag list" where
  "user_risk_flags user db = sort_key rf_created (filter (\<lambda>f. rf_user f = user) (ad_flags db))"

definition lookup_appeal_by_token :: "auth_settings \<Rightarrow> nat \<Rightarrow> string \<Rightarrow> auth_db \<Rightarrow> freeze_appeal option" where
  "lookup_appeal_by_token cfg appeal_id token db =
     (case appeal_get appeal_id db of
        None \<Rightarrow> None | Some a \<Rightarrow> if fa_hash a = as_appeal_hash cfg token then Some a else None)"

text \<open>\<^verbatim>\<open>_fetch_proposal_response\<close>; a response class that refuses the row is a server error.\<close>

definition fetch_proposal :: "nat option \<Rightarrow> auth_db \<Rightarrow> merge_proposal option outcome" where
  "fetch_proposal proposal_id db =
     (case Option.bind proposal_id (\<lambda>i. proposal_get i db) of
        None \<Rightarrow> Returned None
      | Some p \<Rightarrow> if proposal_response_ok p then Returned (Some p) else ServerError)"

definition latest_non_terminal_proposal :: "nat \<Rightarrow> auth_db \<Rightarrow> merge_proposal option" where
  "latest_non_terminal_proposal user db =
     newest mp_created (filter (\<lambda>p. mp_requester p = user \<and>
       mp_status p \<in> {''pending_review'', ''approved'', ''auto_approved''}) (ad_proposals db))"

section \<open>Starting\<close>

record appeal_started =
  as_appeal :: nat
  as_user :: nat
  as_token :: string
  as_expires :: datetime
  as_summary :: risk_summary
  as_proposal :: "merge_proposal option"
  as_next :: string

text \<open>The token's hash is unique, so a repeated draw of a token is a server error.\<close>

definition start_frozen_appeal ::
  "auth_settings \<Rightarrow> datetime \<Rightarrow> string \<Rightarrow> string \<Rightarrow> string \<Rightarrow> auth_db \<Rightarrow> appeal_started outcome \<times> auth_db" where
  "start_frozen_appeal cfg now phone raw_email token db =
     (let email = lower raw_email in
      if \<not> phone_ok phone then (HttpError 422, db)
      else case lookup_user phone email db of
        None \<Rightarrow> (HttpError 404, db)
      | Some user \<Rightarrow>
          if ac_deleted user \<noteq> None then (HttpError 403, db)
          else if ac_merged_at user \<noteq> None then (HttpError 403, db)
          else if \<not> ac_frozen user then (HttpError 409, db)
          else if list_ex (\<lambda>a. fa_hash a = as_appeal_hash cfg token) (ad_appeals db) then (ServerError, db)
          else
            let proposal = latest_non_terminal_proposal (ac_id user) db;
                expires = dt_plus now (hours APPEAL_TTL_HOURS);
                appeal = \<lparr>fa_id = ad_next db, fa_user = ac_id user, fa_proposal = map_option mp_id proposal,
                  fa_hash = as_appeal_hash cfg token, fa_status = ''started'', fa_contact = email, fa_expires = expires,
                  fa_viewed = None, fa_created = now, fa_updated = now\<rparr>;
                db1 = db\<lparr>ad_appeals := ad_appeals db @ [appeal], ad_next := Suc (ad_next db)\<rparr>
            in (case fetch_proposal (map_option mp_id proposal) db1 of
                  Returned p \<Rightarrow>
                    (Returned \<lparr>as_appeal = fa_id appeal, as_user = ac_id user, as_token = token, as_expires = expires,
                       as_summary = safe_risk_summary user (user_risk_flags (ac_id user) db1), as_proposal = p,
                       as_next = next_action_for_proposal p\<rparr>,
                     add_audit (Some (ac_id user)) ''user'' ''freeze_appeal.started'' ''account_freeze_appeal''
                       (Some (fa_id appeal)) None now db1)
                | _ \<Rightarrow> (ServerError, db)))"

section \<open>Following an appeal\<close>

text \<open>
  \<^verbatim>\<open>_load_appeal_or_404\<close>: on expiry the status is committed before the 403, so it survives the
  request that is refused.
\<close>

definition load_appeal ::
  "auth_settings \<Rightarrow> datetime \<Rightarrow> nat \<Rightarrow> string \<Rightarrow> auth_db \<Rightarrow> (int \<times> auth_db) + freeze_appeal" where
  "load_appeal cfg now appeal_id token db =
     (case lookup_appeal_by_token cfg appeal_id token db of
        None \<Rightarrow> Inl (403, db)
      | Some a \<Rightarrow>
          if fa_expires a \<le> now then
            Inl (403, if fa_status a \<noteq> ''expired'' then appeal_put (a\<lparr>fa_status := ''expired'', fa_updated := now\<rparr>) db else db)
          else Inr a)"

definition with_appeal ::
  "auth_settings \<Rightarrow> datetime \<Rightarrow> nat \<Rightarrow> string \<Rightarrow> auth_db \<Rightarrow> (freeze_appeal \<Rightarrow> 'a outcome \<times> auth_db) \<Rightarrow> 'a outcome \<times> auth_db" where
  "with_appeal cfg now appeal_id token db k =
     (if \<not> token_length_ok token then (HttpError 422, db)
      else case load_appeal cfg now appeal_id token db of Inl (st, db') \<Rightarrow> (HttpError st, db') | Inr a \<Rightarrow> k a)"

record appeal_view =
  av_appeal :: nat
  av_status :: string
  av_expires :: datetime
  av_viewed :: "datetime option"
  av_summary :: "risk_summary option"
  av_proposal :: "merge_proposal option"
  av_next :: string

definition get_frozen_appeal_status ::
  "auth_settings \<Rightarrow> datetime \<Rightarrow> nat \<Rightarrow> string \<Rightarrow> auth_db \<Rightarrow> appeal_view outcome \<times> auth_db" where
  "get_frozen_appeal_status cfg now appeal_id token db =
     with_appeal cfg now appeal_id token db (\<lambda>a.
       case account_get (fa_user a) db of
         None \<Rightarrow> (HttpError 404, db)
       | Some user \<Rightarrow>
           (case (fetch_proposal (fa_proposal a) db, appeal_status (fa_status a)) of
              (Returned p, Some st) \<Rightarrow>
                (Returned \<lparr>av_appeal = fa_id a, av_status = st, av_expires = fa_expires a, av_viewed = Some now,
                   av_summary = Some (safe_risk_summary user (user_risk_flags (ac_id user) db)), av_proposal = p,
                   av_next = next_action_for_proposal p\<rparr>,
                 appeal_put (a\<lparr>fa_viewed := Some now, fa_updated := now\<rparr>) db)
            | _ \<Rightarrow> (ServerError, db)))"

record appeal_proposal_request =
  aq_duplicates :: "nat list"
  aq_evidence :: merge_evidence

definition appeal_proposal_ok :: "appeal_proposal_request \<Rightarrow> bool" where
  "appeal_proposal_ok body \<longleftrightarrow> aq_duplicates body \<noteq> [] \<and> distinct (aq_duplicates body) \<and> evidence_ok (aq_evidence body)"

text \<open>
  The request that is built inside the handler is validated again: the owner's own identifier among the
  duplicates raises there, outside the framework's validation, and is a server error.
\<close>

definition submit_frozen_appeal_proposal ::
  "auth_settings \<Rightarrow> datetime \<Rightarrow> nat \<Rightarrow> string \<Rightarrow> appeal_proposal_request \<Rightarrow> auth_db \<Rightarrow> appeal_view outcome \<times> auth_db" where
  "submit_frozen_appeal_proposal cfg now appeal_id token body db =
     (if \<not> appeal_proposal_ok body then (HttpError 422, db)
      else with_appeal cfg now appeal_id token db (\<lambda>a.
        if fa_proposal a \<noteq> None then (HttpError 409, db)
        else case account_get (fa_user a) db of
          None \<Rightarrow> (HttpError 404, db)
        | Some user \<Rightarrow>
            let request = \<lparr>mr_primary = ac_id user, mr_duplicates = aq_duplicates body, mr_evidence = aq_evidence body\<rparr> in
            if \<not> merge_request_ok request then (ServerError, db)
            else (case create_merge_proposal cfg now (ac_id user) request db of
               (Returned proposal, db1) \<Rightarrow>
                 let a' = a\<lparr>fa_proposal := Some (mp_id proposal), fa_status := ''proposal_submitted'',
                            fa_contact := me_contact (aq_evidence body), fa_updated := now\<rparr>;
                     db2 = add_audit (Some (ac_id user)) ''user'' ''freeze_appeal.proposal_submitted'' ''account_freeze_appeal''
                             (Some (fa_id a)) None now (appeal_put a' db1)
                 in if \<not> proposal_response_ok proposal then (ServerError, db)
                    else (Returned \<lparr>av_appeal = fa_id a, av_status = fa_status a', av_expires = fa_expires a,
                            av_viewed = fa_viewed a,
                            av_summary = Some (safe_risk_summary user (user_risk_flags (ac_id user) db2)),
                            av_proposal = Some proposal, av_next = next_action_for_proposal (Some proposal)\<rparr>, db2)
             | (Problem p, _) \<Rightarrow> (Problem p, db)
             | (HttpError n, _) \<Rightarrow> (HttpError n, db)
             | (ServerError, _) \<Rightarrow> (ServerError, db))))"

definition accept_frozen_appeal ::
  "auth_settings \<Rightarrow> datetime \<Rightarrow> nat \<Rightarrow> string \<Rightarrow> auth_db \<Rightarrow> appeal_view outcome \<times> auth_db" where
  "accept_frozen_appeal cfg now appeal_id token db =
     with_appeal cfg now appeal_id token db (\<lambda>a.
       case fa_proposal a of
         None \<Rightarrow> (HttpError 409, db)
       | Some proposal_id \<Rightarrow>
           (case proposal_get proposal_id db of
              None \<Rightarrow> (HttpError 404, db)
            | Some p \<Rightarrow>
                if mp_status p \<notin> {''approved'', ''auto_approved'', ''accepted''} then (HttpError 409, db)
                else (case accept_merge_proposal now (fa_user a) (mp_id p) db of
                   (Returned proposal, db1) \<Rightarrow>
                     let a' = a\<lparr>fa_status := ''accepted'', fa_updated := now\<rparr>;
                         db2 = appeal_put a' db1;
                         db3 = (if fa_status a \<noteq> ''accepted''
                                then add_audit (Some (fa_user a)) ''user'' ''freeze_appeal.accepted'' ''account_freeze_appeal''
                                       (Some (fa_id a)) None now db2 else db2)
                     in if \<not> proposal_response_ok proposal then (ServerError, db)
                        else (Returned \<lparr>av_appeal = fa_id a, av_status = fa_status a', av_expires = fa_expires a,
                                av_viewed = fa_viewed a, av_summary = None, av_proposal = Some proposal,
                                av_next = ''completed''\<rparr>, db3)
                 | (Problem q, _) \<Rightarrow> (Problem q, db)
                 | (HttpError n, _) \<Rightarrow> (HttpError n, db)
                 | (ServerError, _) \<Rightarrow> (ServerError, db))))"

end
