(* ===== verification/AuthDeletion.thy ===== *)
theory AuthDeletion
  imports AuthRisk
begin

text \<open>
  Deleting an account (apps/auth-service/src/auth_service/account_deletion.py, its routes in routes.py and
  its worker account_deletion_cli.py): a request takes the account out of use at once; the worker erases it
  after the grace period.
\<close>

definition DELETE_GRACE_PERIOD_DAYS :: int where
  "DELETE_GRACE_PERIOD_DAYS = 7"

definition get_deletion_request_by_user :: "nat \<Rightarrow> auth_db \<Rightarrow> deletion_request option" where
  "get_deletion_request_by_user user db = row_get dr_snapshot user (ad_deletions db)"

text \<open>\<open>None\<close> is the \<^verbatim>\<open>LookupError\<close>.\<close>

definition request_account_deletion :: "datetime \<Rightarrow> nat \<Rightarrow> auth_db \<Rightarrow> (deletion_request \<times> auth_db) option" where
  "request_account_deletion now user db =
     (case get_active_user user db of
        None \<Rightarrow>
          (case get_deletion_request_by_user user db of None \<Rightarrow> None | Some existing \<Rightarrow> Some (existing, db))
      | Some a \<Rightarrow>
          (case get_deletion_request_by_user user db of
             Some existing \<Rightarrow> Some (existing, db)
           | None \<Rightarrow>
               let request = \<lparr>dr_id = ad_next db, dr_snapshot = user, dr_user = Some user, dr_status = ''scheduled'',
                     dr_requested = now, dr_hard_at = dt_plus now (days DELETE_GRACE_PERIOD_DAYS), dr_completed = None\<rparr>;
                   db1 = update_accounts (\<lambda>a. ac_id a = user) (\<lambda>a. a\<lparr>ac_deleted := Some now\<rparr>) db;
                   db2 = db1\<lparr>ad_deletions := ad_deletions db1 @ [request], ad_next := Suc (ad_next db1)\<rparr>
               in Some (request, add_audit (Some user) ''user'' ''account_deletion.requested'' ''user'' (Some user) None now
                    (revoke_keys_of {user} now db2))))"

section \<open>The worker\<close>

text \<open>\<^verbatim>\<open>user_id.hex[:12]\<close>.\<close>

definition hex_prefix :: "auth_settings \<Rightarrow> nat \<Rightarrow> string" where
  "hex_prefix cfg i = take 12 (filter (\<lambda>c. c \<noteq> CHR ''-'') (as_uuid cfg i))"

definition erase_account :: "auth_settings \<Rightarrow> datetime \<Rightarrow> account \<Rightarrow> account" where
  "erase_account cfg now a =
     a\<lparr>ac_phone := ''deleted-'' @ hex_prefix cfg (ac_id a), ac_email := ''deleted-'' @ hex_prefix cfg (ac_id a) @ ''@invalid.local'',
       ac_edu := False, ac_verified := False, ac_risk := 0, ac_frozen := False, ac_deleted := Some now\<rparr>"

text \<open>
  One due request. \<open>None\<close> is the \<^verbatim>\<open>IntegrityError\<close> of the unique phone and email columns, which ends the
  run and rolls all of it back.
\<close>

definition complete_deletion ::
  "auth_settings \<Rightarrow> datetime \<Rightarrow> deletion_request \<Rightarrow> auth_db \<Rightarrow> auth_db option" where
  "complete_deletion cfg now request db =
     (let user = dr_snapshot request;
          done' = request\<lparr>dr_user := None, dr_status := ''completed'', dr_completed := Some now\<rparr>;
          clash = list_ex (\<lambda>a. ac_id a \<noteq> user \<and> (ac_phone a = ''deleted-'' @ hex_prefix cfg user \<or>
                     ac_email a = ''deleted-'' @ hex_prefix cfg user @ ''@invalid.local'')) (ad_accounts db)
                  \<and> account_get user db \<noteq> None
      in if clash then None
         else Some (add_audit None ''system'' ''account_deletion.completed'' ''user'' (Some user) None now
           (update_accounts (\<lambda>a. ac_id a = user) (erase_account cfg now)
             (db\<lparr>ad_deletions := row_put dr_snapshot done' (ad_deletions db),
                 ad_keys := filter (\<lambda>k. ak_user k \<noteq> user) (ad_keys db),
                 ad_otps := filter (\<lambda>o'. ot_user o' \<noteq> user) (ad_otps db)\<rparr>))))"

definition due_requests :: "datetime \<Rightarrow> auth_db \<Rightarrow> deletion_request list" where
  "due_requests now db = filter (\<lambda>r. dr_status r = ''scheduled'' \<and> dr_hard_at r \<le> now) (ad_deletions db)"

fun complete_all :: "auth_settings \<Rightarrow> datetime \<Rightarrow> deletion_request list \<Rightarrow> auth_db \<Rightarrow> auth_db option" where
  "complete_all cfg now [] db = Some db"
| "complete_all cfg now (r # rs) db = Option.bind (complete_deletion cfg now r db) (complete_all cfg now rs)"

definition complete_due_deletion_requests ::
  "auth_settings \<Rightarrow> datetime \<Rightarrow> auth_db \<Rightarrow> (nat list \<times> auth_db) option" where
  "complete_due_deletion_requests cfg now db =
     map_option (Pair (map dr_snapshot (due_requests now db))) (complete_all cfg now (due_requests now db) db)"

section \<open>Routes\<close>

text \<open>The status a user reads: \<open>None\<close> when there is no request.\<close>

definition deletion_status_value :: "string \<Rightarrow> string" where
  "deletion_status_value st = (if st = ''completed'' then ''completed'' else ''scheduled'')"

definition get_account_deletion_status ::
  "auth_settings \<Rightarrow> datetime \<Rightarrow> string option \<Rightarrow> auth_db \<Rightarrow> (string \<times> deletion_request option) outcome \<times> auth_db" where
  "get_account_deletion_status cfg now authorization db =
     with_jwt cfg now authorization db (\<lambda>user.
       (Returned (case get_deletion_request_by_user user db of
          None \<Rightarrow> (''none'', None) | Some r \<Rightarrow> (deletion_status_value (dr_status r), Some r)), db))"

definition post_account_deletion ::
  "auth_settings \<Rightarrow> datetime \<Rightarrow> string option \<Rightarrow> auth_db \<Rightarrow> (string \<times> deletion_request option) outcome \<times> auth_db" where
  "post_account_deletion cfg now authorization db =
     with_jwt cfg now authorization db (\<lambda>user.
       case request_account_deletion now user db of
         None \<Rightarrow> (HttpError 404, db)
       | Some (r, db') \<Rightarrow> (Returned (deletion_status_value (dr_status r), Some r), db'))"

end
