(* ===== verification/ApiKeyAuth.thy ===== *)
theory ApiKeyAuth
  imports AuthLogin Decimals
begin

text \<open>
  How the solver orchestrator authenticates a call with an API key of the auth service's table
  (apps/solver-orchestrator/src/solver_orchestrator/auth.py) and scores its use from unexpected places
  (geo_risk.py). Both services read one database and hash with one pepper. The Chinese labels of the places
  are left out.
\<close>

section \<open>Places\<close>

definition GEO_RISK_DELTA :: rat where
  "GEO_RISK_DELTA = 35/100"

definition MAX_RISK_SCORE :: rat where
  "MAX_RISK_SCORE = 1"

text \<open>The known networks, each given by its first two octets (\<^verbatim>\<open>/16\<close>).\<close>

definition KNOWN_BUCKETS :: "((int \<times> int) \<times> string) list" where
  "KNOWN_BUCKETS = [((101, 6), ''CN-BJ''), ((139, 59), ''SG-SG'')]"

definition normalize_ip :: "auth_settings \<Rightarrow> string option \<Rightarrow> string option" where
  "normalize_ip cfg ip_str =
     (case ip_str of
        None \<Rightarrow> None
      | Some s \<Rightarrow> if s = [] then None
                  else (case parse_ipv4 s of Some ip \<Rightarrow> Some (show_ipv4 ip) | None \<Rightarrow> as_ipv6 cfg s))"

text \<open>An IPv6 address is in none of the known networks.\<close>

definition bucket_for_ip :: "auth_settings \<Rightarrow> string option \<Rightarrow> string option" where
  "bucket_for_ip cfg ip_str =
     (case normalize_ip cfg ip_str of
        None \<Rightarrow> None
      | Some s \<Rightarrow>
          (case parse_ipv4 s of
             None \<Rightarrow> None
           | Some (a, b, c, d) \<Rightarrow> if special_ipv4 (a, b, c, d) then None else map_of KNOWN_BUCKETS (a, b)))"

definition is_geo_anomaly :: "string option \<Rightarrow> string option \<Rightarrow> bool" where
  "is_geo_anomaly previous current \<longleftrightarrow> given previous \<and> given current \<and> previous \<noteq> current"

definition next_risk_score :: "rat \<Rightarrow> rat" where
  "next_risk_score score = quantize_half_even 2 (min MAX_RISK_SCORE (score + GEO_RISK_DELTA))"

section \<open>Using a key\<close>

definition anomaly_metadata ::
  "nat \<Rightarrow> string option \<Rightarrow> string option \<Rightarrow> string option \<Rightarrow> string option \<Rightarrow> rat \<Rightarrow> jdict" where
  "anomaly_metadata key_id previous_bucket current_bucket previous_ip current_ip new_score =
     (let text = (\<lambda>t. case t of None \<Rightarrow> JNull | Some s \<Rightarrow> JStr s) in
      [(''event_kind'', JStr ''geo_anomaly''), (''api_key_id'', JId key_id), (''previous_geo_bucket'', text previous_bucket),
       (''current_geo_bucket'', text current_bucket), (''previous_ip'', text previous_ip), (''current_ip'', text current_ip),
       (''risk_delta'', JStr ''0.35''), (''geo_risk_score'', JStr (fmt 2 new_score)),
       (''detector_version'', JStr ''geo-risk-v1'')])"

definition touch_key :: "datetime \<Rightarrow> string option \<Rightarrow> string option \<Rightarrow> (rat \<times> jdict) option \<Rightarrow> api_key \<Rightarrow> api_key" where
  "touch_key now ip bucket anomaly k =
     k\<lparr>ak_used_at := Some now,
       ak_used_ip := (if ip = None then ak_used_ip k else ip),
       ak_bucket := (if bucket = None then ak_bucket k else bucket),
       ak_geo_score := (case anomaly of None \<Rightarrow> ak_geo_score k | Some (s, _) \<Rightarrow> s),
       ak_geo_at := (case anomaly of None \<Rightarrow> ak_geo_at k | Some _ \<Rightarrow> Some now),
       ak_geo_meta := (case anomaly of None \<Rightarrow> ak_geo_meta k | Some (_, m) \<Rightarrow> m)\<rparr>"

text \<open>
  \<^verbatim>\<open>_record_api_key_use\<close>. \<open>None\<close> is the violated foreign key when the rule of the flag is not seeded.
\<close>

definition record_api_key_use :: "auth_settings \<Rightarrow> datetime \<Rightarrow> api_key \<Rightarrow> string option \<Rightarrow> auth_db \<Rightarrow> auth_db option" where
  "record_api_key_use cfg now key client_ip db =
     (let ip = normalize_ip cfg client_ip; bucket = bucket_for_ip cfg ip in
      if is_geo_anomaly (ak_bucket key) bucket then
        (if ''geo_anomaly'' \<notin> set (map rk_code (ad_rules db)) then None
         else
           let new_score = next_risk_score (ak_geo_score key);
               meta = anomaly_metadata (ak_id key) (ak_bucket key) bucket (ak_used_ip key) ip new_score;
               db1 = add_flag (ak_user key) now (''geo_anomaly'', ''auto'', JObj meta) db;
               db2 = add_audit (Some (ak_user key)) ''system'' ''api_keys.geo_anomaly'' ''api_key'' (Some (ak_id key)) ip now db1;
               db3 = update_accounts (\<lambda>a. ac_id a = ak_user key) (\<lambda>a. a\<lparr>ac_risk := max (ac_risk a) new_score\<rparr>) db2
           in Some (update_keys (\<lambda>k. ak_id k = ak_id key) (touch_key now ip bucket (Some (new_score, meta))) db3))
      else Some (update_keys (\<lambda>k. ak_id k = ak_id key) (touch_key now ip bucket None) db))"

text \<open>The key a call presents, of those with its prefix: not revoked, not expired, with the hash.\<close>

definition presented_key :: "auth_settings \<Rightarrow> string option \<Rightarrow> string option" where
  "presented_key cfg authorization =
     (case authorization of
        None \<Rightarrow> None
      | Some header \<Rightarrow>
          if \<not> starts_with ''Bearer '' header then None
          else (let full_key = strip (drop 7 header) in if starts_with ''sk-'' full_key then Some full_key else None))"

definition key_accepted :: "auth_settings \<Rightarrow> datetime \<Rightarrow> string \<Rightarrow> api_key \<Rightarrow> bool" where
  "key_accepted cfg now full_key k \<longleftrightarrow>
     ak_prefix k = take 6 full_key \<and> ak_revoked k = None \<and> \<not> (case ak_expires k of None \<Rightarrow> False | Some e \<Rightarrow> e < now) \<and>
     as_key_hash cfg full_key = ak_hash k"

definition verify_api_key ::
  "auth_settings \<Rightarrow> datetime \<Rightarrow> string option \<Rightarrow> string option \<Rightarrow> auth_db \<Rightarrow> (nat \<times> nat \<times> string list) outcome \<times> auth_db" where
  "verify_api_key cfg now authorization client_ip db =
     (case presented_key cfg authorization of
        None \<Rightarrow> (HttpError 401, db)
      | Some full_key \<Rightarrow>
          (case find (key_accepted cfg now full_key) (ad_keys db) of
             None \<Rightarrow> (HttpError 401, db)
           | Some k \<Rightarrow>
               (case record_api_key_use cfg now k client_ip db of
                  None \<Rightarrow> (ServerError, db)
                | Some db' \<Rightarrow> (Returned (ak_user k, ak_id k, ak_scope k), db'))))"

text \<open>\<^verbatim>\<open>require_scope\<close>.\<close>

definition require_scope :: "string \<Rightarrow> string list \<Rightarrow> int option" where
  "require_scope required scopes = (if required \<in> set scopes then None else Some 403)"

end
