(* ===== verification/AuthFrame.thy ===== *)
theory AuthFrame
  imports AuthAppeals AuthDeletion ApiKeyAuth
begin

text \<open>
  What a relation of databases must respect so that every request of the auth service, and every call that
  presents an API key to the solver, respects it: the locale \<open>auth_order\<close> lists the elementary writes,
  and its lemmas carry the relation through every handler once. AuthSystem interprets it with the
  invariant of the tables and with the history of accounts and proposals.
\<close>

section \<open>Tables that count\<close>

text \<open>
  Audit rows, flags, credits, codes and consents do not matter to the relations, nor which risk rules are
  enabled, as long as no rule disappears.
\<close>

definition same_core :: "auth_db \<Rightarrow> auth_db \<Rightarrow> bool" where
  "same_core db db' \<longleftrightarrow>
     ad_accounts db' = ad_accounts db \<and> ad_keys db' = ad_keys db \<and> ad_deletions db' = ad_deletions db \<and>
     ad_proposals db' = ad_proposals db \<and> ad_appeals db' = ad_appeals db \<and>
     set (map rk_code (ad_rules db)) \<subseteq> set (map rk_code (ad_rules db')) \<and>
     ad_next db \<le> ad_next db'"

lemma core_refl: "same_core db db"
  by (simp add: same_core_def)

lemma core_trans: "same_core db db' \<Longrightarrow> same_core db' db'' \<Longrightarrow> same_core db db''"
  by (auto simp: same_core_def)

lemma core_audit: "same_core db (add_audit u a b c d e t db)"
  by (simp add: same_core_def add_audit_def)

lemma core_flag: "same_core db (add_flag u t f db)"
  by (cases f) (simp add: same_core_def add_flag_def)

lemma core_flags: "same_core db (fold (add_flag u t) fs db)"
  by (induction fs arbitrary: db) (auto intro: core_refl core_trans core_flag)

lemma core_seed: "same_core db (seed_edu_bucket cfg u t db)"
  by (simp add: same_core_def seed_edu_bucket_def)

lemma core_otp: "same_core db (add_otp u f c e t db)"
  by (simp add: same_core_def add_otp_def)

lemma core_invalidate: "same_core db (invalidate_unused_otps t u db)"
  by (simp add: same_core_def invalidate_unused_otps_def)

lemma core_consents: "same_core db (db\<lparr>ad_consents := cs\<rparr>)"
  by (simp add: same_core_def)

lemma core_refresh: "same_core db (snd (create_or_refresh_guardian_consent cfg now body token db))"
  by (auto simp: create_or_refresh_guardian_consent_def same_core_def Let_def split: option.split)

section \<open>Moves of a proposal\<close>

inductive proposal_move :: "string \<Rightarrow> string \<Rightarrow> bool" where
  approve: "proposal_move ''pending_review'' ''approved''"
| reject: "proposal_move ''pending_review'' ''rejected''"
| accept_reviewed: "proposal_move ''approved'' ''accepted''"
| accept_auto: "proposal_move ''auto_approved'' ''accepted''"

inductive_cases proposal_move_from: "proposal_move st st'"

definition proposal_ok :: "merge_proposal \<Rightarrow> bool" where
  "proposal_ok p \<longleftrightarrow>
     mp_requester p = mp_primary p \<and> mp_primary p \<notin> set (mp_duplicates p) \<and>
     mp_status p \<in> {''pending_review'', ''approved'', ''rejected'', ''auto_approved'', ''accepted''} \<and>
     mp_mode p = review_mode_of (mp_evidence p) \<and>
     (mp_status p = ''auto_approved'' \<longrightarrow>
        mp_mode p = ''auto'' \<and> (\<exists>s. mp_score p = Some s \<and> AUTO_APPROVE_THRESHOLD \<le> s))"

definition appeal_ok :: "freeze_appeal \<Rightarrow> bool" where
  "appeal_ok a \<longleftrightarrow> fa_status a \<in> {''started'', ''proposal_submitted'', ''accepted'', ''expired''}"

definition key_kept :: "(api_key \<Rightarrow> api_key) \<Rightarrow> bool" where
  "key_kept f \<longleftrightarrow> (\<forall>k. ak_id (f k) = ak_id k \<and> ak_user (f k) = ak_user k \<and> (ak_revoked k \<noteq> None \<longrightarrow> ak_revoked (f k) \<noteq> None))"

definition contacts_free :: "string \<Rightarrow> string \<Rightarrow> auth_db \<Rightarrow> bool" where
  "contacts_free phone email db \<longleftrightarrow> \<not> list_ex (\<lambda>a. ac_phone a = phone \<or> ac_email a = email) (ad_accounts db)"

definition mergeable :: "nat \<Rightarrow> auth_db \<Rightarrow> bool" where
  "mergeable i db \<longleftrightarrow> (\<exists>a. account_get i db = Some a \<and> \<not> retired a)"

locale auth_order =
  fixes R :: "auth_db \<Rightarrow> auth_db \<Rightarrow> bool"
  assumes trans: "R db db' \<Longrightarrow> R db' db'' \<Longrightarrow> R db db''"
    and quiet: "same_core db db' \<Longrightarrow> R db db'"
    and sign_up: "contacts_free phone email db \<Longrightarrow> R db (add_account phone email now db)"
    and freeze: "R db (update_accounts (\<lambda>a. ac_id a = u) (\<lambda>a. a\<lparr>ac_frozen := b\<rparr>) db)"
    and score: "R db (update_accounts (\<lambda>a. ac_id a = u) (\<lambda>a. a\<lparr>ac_risk := max (ac_risk a) s\<rparr>) db)"
    and new_key: "require_active_user (ak_user k) db = Some a \<Longrightarrow> R db (db\<lparr>ad_keys := ad_keys db @ [k], ad_next := Suc (ad_next db)\<rparr>)"
    and keys: "key_kept f \<Longrightarrow> R db (update_keys P f db)"
    and propose: "mp_id p = ad_next db \<Longrightarrow> proposal_ok p \<Longrightarrow> mp_status p \<in> {''pending_review'', ''auto_approved''} \<Longrightarrow>
      R db (db\<lparr>ad_proposals := ad_proposals db @ [p], ad_next := Suc (ad_next db)\<rparr>)"
    and review: "proposal_get i db = Some p \<Longrightarrow> mp_status p = ''pending_review'' \<Longrightarrow> st \<in> {''approved'', ''rejected''} \<Longrightarrow>
      R db (proposal_put (p\<lparr>mp_status := st, mp_reviewed_at := Some now, mp_reviewed_by := Some by', mp_reason := Some why,
        mp_updated := now\<rparr>) db)"
    and accept: "p \<in> set (ad_proposals db) \<Longrightarrow> mp_status p \<in> {''approved'', ''auto_approved''} \<Longrightarrow>
      mergeable (mp_primary p) db \<Longrightarrow> \<forall>d\<in>set (mp_duplicates p). mergeable d db \<Longrightarrow>
      R db (proposal_put (p\<lparr>mp_status := ''accepted'', mp_accepted := Some now, mp_updated := now\<rparr>)
        (merge_accounts (mp_primary p) (mp_duplicates p) now db))"
    and new_appeal: "appeal_ok ap \<Longrightarrow> R db (db\<lparr>ad_appeals := ad_appeals db @ [ap], ad_next := Suc (ad_next db)\<rparr>)"
    and put_appeal: "appeal_ok ap \<Longrightarrow> R db (appeal_put ap db)"
    and delete: "request_account_deletion now u db = Some (r, db') \<Longrightarrow> R db db'"
    and erase: "get_deletion_request_by_user (dr_snapshot r) db = Some r \<Longrightarrow> dr_status r = ''scheduled'' \<Longrightarrow> dr_hard_at r \<le> now \<Longrightarrow>
      complete_deletion cfg now r db = Some db' \<Longrightarrow> R db db'"
begin

lemma refl: "R db db"
  by (rule quiet) (rule core_refl)

lemma then_quiet: "R db db' \<Longrightarrow> same_core db' db'' \<Longrightarrow> R db db''"
  using quiet trans by blast

lemma then_audit: "R db db' \<Longrightarrow> R db (add_audit u a b c d e t db')"
  by (erule then_quiet) (rule core_audit)

lemma then_flag: "R db db' \<Longrightarrow> R db (add_flag u t f db')"
  by (erule then_quiet) (rule core_flag)

lemma then_freeze: "R db db' \<Longrightarrow> R db (update_accounts (\<lambda>a. ac_id a = u) (\<lambda>a. a\<lparr>ac_frozen := b\<rparr>) db')"
  using freeze trans by blast

lemma then_put_appeal: "R db db' \<Longrightarrow> appeal_ok a \<Longrightarrow> R db (appeal_put a db')"
  using put_appeal trans by blast

lemma flags: "R db (snd (apply_flags_and_maybe_freeze now u fs db))"
proof -
  have "R db (fold (add_flag u now) fs db)" by (rule quiet) (rule core_flags)
  then show ?thesis by (simp add: apply_flags_and_maybe_freeze_def Let_def then_audit then_freeze)
qed

lemma then_flags: "R db db' \<Longrightarrow> R db (snd (apply_flags_and_maybe_freeze now u fs db'))"
  using flags trans by blast

section \<open>Handlers\<close>

lemma signup_verified: "R db (snd (create_verified_user_signup cfg now body ip db))"
proof (cases "contacts_free (su_phone body) (lower (su_email body)) db")
  case True
  have "R db (add_account (su_phone body) (lower (su_email body)) now db)" by (rule sign_up [OF True])
  then show ?thesis using True unfolding contacts_free_def create_verified_user_signup_def
    by (auto simp: Let_def split: option.split intro!: then_flags then_audit intro: then_quiet core_seed)
next
  case False
  then show ?thesis by (simp add: contacts_free_def create_verified_user_signup_def refl)
qed

lemma signup_guarded: "R db (snd (complete_guardian_confirmed_signup cfg now body ip db))"
  using signup_verified [of db cfg now body ip]
  by (auto simp: complete_guardian_confirmed_signup_def refl split: option.split prod.split outcome.split
      intro: then_quiet core_consents)

lemma signing_up: "R db (snd (signup cfg now raw token ip db))"
  using signup_verified [of db cfg now] signup_guarded [of db cfg now] quiet [OF core_refresh, of db cfg now]
  by (simp add: signup_def refl split: option.split)

lemma otp: "R db (snd (request_otp cfg now phone email n1 n2 db))"
  by (auto simp: request_otp_def Let_def refl split: option.split
      intro!: then_quiet [OF _ core_otp] then_quiet [OF _ core_invalidate])

lemma logging_in: "R db (snd (login cfg now phone email c1 c2 db))"
  by (auto simp: login_def refl split: option.split intro!: then_audit then_quiet [OF _ core_invalidate])

lemma with_jwt: "(\<And>u. R db (snd (k u))) \<Longrightarrow> R db (snd (with_jwt cfg now auth db k))"
  by (simp add: with_jwt_def refl split: option.split)

lemma with_active_user:
  "(\<And>u a. require_active_user u db = Some a \<Longrightarrow> R db (snd (k u))) \<Longrightarrow> R db (snd (with_active_user cfg now auth db k))"
  unfolding with_active_user_def by (rule with_jwt) (simp add: refl split: option.split)

lemma creating_key: "R db (snd (create_api_key cfg now auth rb raw db))"
  by (auto simp: create_api_key_def refl generate_api_key_def Let_def split: option.split
      intro!: with_active_user then_audit new_key)

lemma revoking_key: "R db (snd (revoke_api_key cfg now auth i db))"
  by (auto simp: revoke_api_key_def refl key_kept_def intro!: with_active_user then_audit keys)

lemma proposing: "merge_request_ok body \<Longrightarrow> R db (snd (create_merge_proposal cfg now u body db))"
  by (auto simp: create_merge_proposal_def Let_def refl merge_request_ok_def proposal_ok_def
      split: option.split sum.split intro!: then_audit propose)

lemma accepting: "R db (snd (accept_merge_proposal now u i db))"
proof -
  have ok: "\<forall>d\<in>set ds. mergeable d db" if "load_duplicates retired_duplicate ds db = Inr as" for ds as
    using load_duplicates_InrD [OF that]
    by (fastforce simp: mergeable_def retired_duplicate_def retired_def is_tombstoned_def split: if_splits)
  have primary: "mergeable i db" if "account_get i db = Some a" "\<not> is_tombstoned a" "ac_merged_at a = None" for i a
    using that by (auto simp: mergeable_def retired_def is_tombstoned_def)
  have ids: "map ac_id as = ds" if "load_duplicates retired_duplicate ds db = Inr as" for ds as
    using load_duplicates_InrD [OF that] by simp
  have found: "p \<in> set (ad_proposals db)" if "find Q (ad_proposals db) = Some p" for Q p
    using that by (auto simp: find_Some_iff)
  show ?thesis
    by (auto simp: accept_merge_proposal_def Let_def refl ids split: option.split sum.split
        dest: found ok intro!: then_audit accept intro: primary)
qed

lemma reviewing: "R db (snd (review_merge_proposal now i decision why by' db))"
  by (auto simp: review_merge_proposal_def Let_def refl split: option.split intro!: then_audit review)

lemma answering: "R db (snd handled) \<Longrightarrow> R db (snd (answer_proposal handled))"
  by (auto simp: answer_proposal_def split: prod.split outcome.split)

lemma as_admin: "R db (snd handled) \<Longrightarrow> R db (snd (as_admin cfg header db handled))"
  by (simp add: as_admin_def refl split: option.split)

lemma flagging: "R db (snd (admin_add_risk_flag cfg now header u code m db))"
proof -
  let ?db1 = "add_audit (Some u) ''admin'' ''risk.flag.add'' ''user'' (Some u) None now (add_flag u now (code, ''admin'', m) db)"
  have db1: "R db ?db1" by (intro then_audit then_flag refl)
  have "R db db2" if "apply_flags_and_maybe_freeze now u [] ?db1 = (froze, db2)" for froze db2
    using then_flags [OF db1, of now u "[]"] by (simp add: that)
  then show ?thesis unfolding admin_add_risk_flag_def
    by (intro as_admin) (auto simp: Let_def refl db1 split: prod.split)
qed

lemma unfreezing: "R db (snd (admin_unfreeze_user cfg now header u db))"
  unfolding admin_unfreeze_user_def by (rule as_admin) (simp add: refl then_audit freeze)

lemma starting_appeal: "R db (snd (start_frozen_appeal cfg now phone email token db))"
  by (auto simp: start_frozen_appeal_def Let_def refl appeal_ok_def split: option.split outcome.split
      intro!: then_audit new_appeal)

lemma with_appeal: "(\<And>a. R db (snd (k a))) \<Longrightarrow> R db (snd (with_appeal cfg now i token db k))"
  by (auto simp: with_appeal_def load_appeal_def refl appeal_ok_def split: option.split if_split intro!: put_appeal)

lemma viewing_appeal: "R db (snd (get_frozen_appeal_status cfg now i token db))"
  unfolding get_frozen_appeal_status_def
  by (rule with_appeal)
    (auto simp: refl appeal_status_def appeal_ok_def split: option.split outcome.split prod.split if_splits intro!: put_appeal)

lemma submitting_appeal: "R db (snd (submit_frozen_appeal_proposal cfg now i token body db))"
proof -
  have step: "R db db1" if "create_merge_proposal cfg now u request db = (r, db1)" "merge_request_ok request" for u request r db1
    using proposing [OF that(2), of db cfg now u] that(1) by simp
  show ?thesis unfolding submit_frozen_appeal_proposal_def
    by (auto simp: refl Let_def appeal_ok_def split: option.split outcome.split prod.split
        intro!: with_appeal then_audit then_put_appeal dest: step)
qed

lemma accepting_appeal: "R db (snd (accept_frozen_appeal cfg now i token db))"
proof -
  have step: "R db db1" if "accept_merge_proposal now u pid db = (r, db1)" for u pid r db1
    using accepting [of db now u pid] that by simp
  show ?thesis unfolding accept_frozen_appeal_def
    by (auto simp: refl Let_def appeal_ok_def split: option.split outcome.split prod.split
        intro!: with_appeal then_audit then_put_appeal dest: step)
qed

lemma deleting: "R db (snd (post_account_deletion cfg now auth db))"
  by (auto simp: post_account_deletion_def refl split: option.split intro!: with_jwt dest: delete)

text \<open>
  The worker reads the due rows once; completing one leaves the others as they were read, as there is one
  row per user.
\<close>

lemma erasing_all:
  assumes "distinct (map dr_snapshot rs)" "\<forall>r\<in>set rs. dr_status r = ''scheduled'' \<and> dr_hard_at r \<le> now"
    "\<forall>r\<in>set rs. get_deletion_request_by_user (dr_snapshot r) db = Some r" "complete_all cfg now rs db = Some db'"
  shows "R db db'"
  using assms
proof (induction rs arbitrary: db)
  case Nil
  then show ?case by (simp add: refl)
next
  case (Cons r rs)
  then obtain db1 where db1: "complete_deletion cfg now r db = Some db1" and rest: "complete_all cfg now rs db1 = Some db'"
    by (auto simp: bind_eq_Some_conv)
  have del: "ad_deletions db1 = row_put dr_snapshot (r\<lparr>dr_user := None, dr_status := ''completed'', dr_completed := Some now\<rparr>) (ad_deletions db)"
    using db1 by (auto simp: complete_deletion_def Let_def add_audit_def update_accounts_def split: if_splits)
  have "get_deletion_request_by_user (dr_snapshot x) db1 = Some x" if "x \<in> set rs" for x
  proof -
    let ?r = "r\<lparr>dr_user := None, dr_status := ''completed'', dr_completed := Some now\<rparr>"
    have "dr_snapshot x \<noteq> dr_snapshot ?r" using Cons.prems(1) that by simp (metis image_eqI)
    then show ?thesis using Cons.prems(3) that
      by (simp add: get_deletion_request_by_user_def del row_get_put_other [of _ dr_snapshot ?r])
  qed
  then have "R db1 db'" using Cons.IH Cons.prems rest by simp
  moreover have "R db db1" using Cons.prems db1 by (intro erase) simp_all
  ultimately show ?case using trans by blast
qed

lemma erasing:
  assumes "distinct (map dr_snapshot (ad_deletions db))" "complete_due_deletion_requests cfg now db = Some (done', db')"
  shows "R db db'"
proof -
  have "complete_all cfg now (due_requests now db) db = Some db'"
    using assms(2) by (auto simp: complete_due_deletion_requests_def)
  moreover have "get_deletion_request_by_user (dr_snapshot r) db = Some r" if "r \<in> set (due_requests now db)" for r
    using that assms(1) by (auto simp: due_requests_def get_deletion_request_by_user_def intro!: row_get_in_set)
  ultimately show ?thesis
    using assms(1) by (intro erasing_all [of "due_requests now db"]) (auto simp: due_requests_def distinct_map_filter)
qed

lemma using_key: "R db (snd (verify_api_key cfg now auth ip db))"
proof -
  have kept: "key_kept (touch_key now ip' b an)" for ip' b an
    by (simp add: key_kept_def touch_key_def)
  have "R db db'" if "record_api_key_use cfg now k ip db = Some db'" for k db'
    using that trans [OF score keys [OF kept]] keys [OF kept]
    by (auto simp: record_api_key_use_def Let_def split: if_splits
        intro!: trans [OF then_audit [OF then_flag [OF refl]] trans [OF score keys [OF kept]]])
  then show ?thesis by (auto simp: verify_api_key_def refl split: option.split)
qed

end

end
