(* ===== verification/AuthInvariant.thy ===== *)
theory AuthInvariant
  imports AuthFrame
begin

text \<open>
  The invariant of the auth tables, part by part, and what never changes in the history of an account or a
  proposal; each is a relation that the elementary writes respect (interpretations of
  \<open>auth_order\<close>).
\<close>

section \<open>Accounts after a write\<close>

named_theorems auth_writes \<open>tables and accounts after an elementary write\<close>

definition merge_view :: "nat \<Rightarrow> nat list \<Rightarrow> datetime \<Rightarrow> account \<Rightarrow> account" where
  "merge_view primary ds now a =
     (let a' = (if ac_id a = primary then a\<lparr>ac_frozen := False\<rparr> else a) in
      if ac_id a \<in> set ds then merge_into primary now a' else a')"

lemma get_add_account [auth_writes]:
  "account_get i (add_account phone email now db) =
     (case account_get i db of
        None \<Rightarrow> if i = ad_next db then Some (new_account i phone email now) else None
      | Some a \<Rightarrow> Some a)"
  by (auto simp: account_get_def add_account_def row_get_append row_get_Cons new_account_def split: option.split)

lemma get_merge_accounts [auth_writes]:
  "account_get i (merge_accounts primary ds now db) = map_option (merge_view primary ds now) (account_get i db)"
proof -
  have "account_get i (revoke_keys_of users now d) = account_get i d" for users d
    by (simp add: revoke_keys_of_def update_keys_def account_get_def)
  then show ?thesis
    by (simp add: merge_accounts_def account_get_update merge_into_def merge_view_def option.map_comp comp_def Let_def)
      (auto simp: merge_into_def merge_view_def Let_def intro!: option.map_cong)
qed

lemma get_unfreeze [auth_writes]:
  "account_get i (update_accounts (\<lambda>a. ac_id a = u) (\<lambda>a. a\<lparr>ac_frozen := b\<rparr>) db)
     = map_option (\<lambda>a. if ac_id a = u then a\<lparr>ac_frozen := b\<rparr> else a) (account_get i db)"
  by (simp add: account_get_update)

lemma get_score [auth_writes]:
  "account_get i (update_accounts (\<lambda>a. ac_id a = u) (\<lambda>a. a\<lparr>ac_risk := max (ac_risk a) s\<rparr>) db)
     = map_option (\<lambda>a. if ac_id a = u then a\<lparr>ac_risk := max (ac_risk a) s\<rparr> else a) (account_get i db)"
  by (simp add: account_get_update)

lemma get_other [auth_writes]:
  "account_get i (update_keys P f db) = account_get i db"
  "account_get i (proposal_put p db) = account_get i db"
  "account_get i (appeal_put a db) = account_get i db"
  "account_get i (db\<lparr>ad_keys := ks, ad_next := n\<rparr>) = account_get i db"
  "account_get i (db\<lparr>ad_proposals := ps, ad_next := n\<rparr>) = account_get i db"
  "account_get i (db\<lparr>ad_appeals := as, ad_next := n\<rparr>) = account_get i db"
  by (simp_all add: account_get_def update_keys_def proposal_put_def appeal_put_def)

lemma core_get: "same_core db db' \<Longrightarrow> account_get i db' = account_get i db"
  by (simp add: same_core_def account_get_def)

lemma tables_after [auth_writes]:
  "ad_keys (add_account phone email now db) = ad_keys db"
  "ad_proposals (add_account phone email now db) = ad_proposals db"
  "ad_deletions (add_account phone email now db) = ad_deletions db"
  "ad_appeals (add_account phone email now db) = ad_appeals db"
  "ad_next (add_account phone email now db) = Suc (ad_next db)"
  "ad_keys (update_accounts P g db) = ad_keys db"
  "ad_proposals (update_accounts P g db) = ad_proposals db"
  "ad_deletions (update_accounts P g db) = ad_deletions db"
  "ad_appeals (update_accounts P g db) = ad_appeals db"
  "ad_next (update_accounts P g db) = ad_next db"
  "ad_keys (update_keys Q f db) = map (\<lambda>k. if Q k then f k else k) (ad_keys db)"
  "ad_accounts (update_keys Q f db) = ad_accounts db"
  "ad_proposals (update_keys Q f db) = ad_proposals db"
  "ad_deletions (update_keys Q f db) = ad_deletions db"
  "ad_appeals (update_keys Q f db) = ad_appeals db"
  "ad_next (update_keys Q f db) = ad_next db"
  "ad_keys (proposal_put p db) = ad_keys db"
  "ad_accounts (proposal_put p db) = ad_accounts db"
  "ad_deletions (proposal_put p db) = ad_deletions db"
  "ad_appeals (proposal_put p db) = ad_appeals db"
  "ad_next (proposal_put p db) = ad_next db"
  "ad_proposals (proposal_put p db) = row_put mp_id p (ad_proposals db)"
  "ad_keys (appeal_put a db) = ad_keys db"
  "ad_accounts (appeal_put a db) = ad_accounts db"
  "ad_deletions (appeal_put a db) = ad_deletions db"
  "ad_proposals (appeal_put a db) = ad_proposals db"
  "ad_next (appeal_put a db) = ad_next db"
  "ad_appeals (appeal_put a db) = row_put fa_id a (ad_appeals db)"
  by (simp_all add: add_account_def update_accounts_def update_keys_def proposal_put_def appeal_put_def)

lemma rules_after [auth_writes]:
  "ad_rules (add_account phone email now db) = ad_rules db"
  "ad_rules (update_accounts P g db) = ad_rules db"
  "ad_rules (update_keys Q f db) = ad_rules db"
  "ad_rules (proposal_put p db) = ad_rules db"
  "ad_rules (appeal_put a db) = ad_rules db"
  "ad_rules (merge_accounts primary ds now db) = ad_rules db"
  by (simp_all add: add_account_def update_accounts_def update_keys_def proposal_put_def appeal_put_def
      merge_accounts_def revoke_keys_of_def)

lemma merge_tables [auth_writes]:
  "ad_keys (merge_accounts primary ds now db)
     = map (\<lambda>k. if ak_user k \<in> set ds \<and> ak_revoked k = None then k\<lparr>ak_revoked := Some now\<rparr> else k) (ad_keys db)"
  "ad_proposals (merge_accounts primary ds now db) = ad_proposals db"
  "ad_deletions (merge_accounts primary ds now db) = ad_deletions db"
  "ad_appeals (merge_accounts primary ds now db) = ad_appeals db"
  "ad_next (merge_accounts primary ds now db) = ad_next db"
  by (simp_all add: merge_accounts_def revoke_keys_of_def auth_writes)

text \<open>A soft deletion: nothing changes, or the account is taken out of use and its keys are revoked.\<close>

lemma request_deletion_cases:
  assumes "request_account_deletion now u db = Some (r, db')"
  obtains "db' = db"
  | a where "account_get u db = Some a" "ac_deleted a = None" "get_deletion_request_by_user u db = None"
      "\<And>i. account_get i db' = map_option (\<lambda>a. if i = u then a\<lparr>ac_deleted := Some now\<rparr> else a) (account_get i db)"
      "ad_accounts db' = map (\<lambda>a. if ac_id a = u then a\<lparr>ac_deleted := Some now\<rparr> else a) (ad_accounts db)"
      "ad_keys db' = map (\<lambda>k. if ak_user k = u \<and> ak_revoked k = None then k\<lparr>ak_revoked := Some now\<rparr> else k) (ad_keys db)"
      "ad_proposals db' = ad_proposals db" "ad_appeals db' = ad_appeals db" "ad_rules db' = ad_rules db"
      "ad_next db \<le> ad_next db'"
      "ad_deletions db' = ad_deletions db @ [r]" "dr_snapshot r = u" "dr_status r = ''scheduled''"
      "dr_hard_at r = dt_plus now (days 7)" "dr_requested r = now"
proof (cases "get_active_user u db")
  case None
  then show thesis using assms that(1) by (auto simp: request_account_deletion_def split: option.splits)
next
  case (Some a)
  show thesis
  proof (cases "get_deletion_request_by_user u db")
    case (Some x)
    with \<open>get_active_user u db = Some a\<close> show thesis using assms that(1)
      by (auto simp: request_account_deletion_def)
  next
    case None
    have a: "account_get u db = Some a" "ac_deleted a = None"
      using Some by (auto simp: get_active_user_def split: option.splits if_splits)
    let ?db1 = "update_accounts (\<lambda>a. ac_id a = u) (\<lambda>a. a\<lparr>ac_deleted := Some now\<rparr>) db"
    have view: "account_get i ?db1 = map_option (\<lambda>a. if i = u then a\<lparr>ac_deleted := Some now\<rparr> else a) (account_get i db)" for i
      by (cases "account_get i db") (auto simp: account_get_update dest: account_get_id)
    have get: "account_get i db' = account_get i ?db1" for i
      using assms Some None
      by (auto simp: request_account_deletion_def Let_def account_get_def update_accounts_def revoke_keys_of_def update_keys_def add_audit_def)
    show thesis
      by (rule that(2) [OF a None])
        (use assms Some None view get in \<open>auto simp: request_account_deletion_def Let_def revoke_keys_of_def update_keys_def
           update_accounts_def add_audit_def DELETE_GRACE_PERIOD_DAYS_def\<close>)
  qed
qed

lemma complete_deletion_after:
  assumes "complete_deletion cfg now r db = Some db'"
  shows "account_get i db' = map_option (\<lambda>a. if i = dr_snapshot r then erase_account cfg now a else a) (account_get i db)"
    and "ad_accounts db' = map (\<lambda>a. if ac_id a = dr_snapshot r then erase_account cfg now a else a) (ad_accounts db)"
    and "ad_keys db' = filter (\<lambda>k. ak_user k \<noteq> dr_snapshot r) (ad_keys db)"
    and "ad_otps db' = filter (\<lambda>o'. ot_user o' \<noteq> dr_snapshot r) (ad_otps db)"
    and "ad_proposals db' = ad_proposals db" "ad_appeals db' = ad_appeals db" "ad_rules db' = ad_rules db"
      "ad_next db \<le> ad_next db'"
    and "ad_deletions db' = row_put dr_snapshot (r\<lparr>dr_user := None, dr_status := ''completed'', dr_completed := Some now\<rparr>) (ad_deletions db)"
proof -
  let ?db1 = "update_accounts (\<lambda>a. ac_id a = dr_snapshot r) (erase_account cfg now) db"
  have get: "account_get i db' = account_get i ?db1" for i
    using assms by (auto simp: complete_deletion_def Let_def add_audit_def update_accounts_def account_get_def split: if_splits)
  have "account_get i ?db1 = map_option (\<lambda>a. if i = dr_snapshot r then erase_account cfg now a else a) (account_get i db)" for i
    by (cases "account_get i db") (auto simp: account_get_update erase_account_def dest: account_get_id)
  then show "account_get i db' = map_option (\<lambda>a. if i = dr_snapshot r then erase_account cfg now a else a) (account_get i db)"
    by (simp add: get)
qed (use assms in \<open>auto simp: complete_deletion_def Let_def add_audit_def update_accounts_def split: if_splits\<close>)


section \<open>The parts of the invariant\<close>

definition keeps :: "(auth_db \<Rightarrow> bool) \<Rightarrow> auth_db \<Rightarrow> auth_db \<Rightarrow> bool" where
  "keeps I db db' \<longleftrightarrow> (I db \<longrightarrow> I db')"

lemma keepsI: "(I db \<Longrightarrow> I db') \<Longrightarrow> keeps I db db'"
  by (simp add: keeps_def)

lemma keepsD: "keeps I db db' \<Longrightarrow> I db \<Longrightarrow> I db'"
  by (simp add: keeps_def)

definition contacts_ok :: "auth_db \<Rightarrow> bool" where
  "contacts_ok db \<longleftrightarrow>
     distinct (map ac_id (ad_accounts db)) \<and> (\<forall>a\<in>set (ad_accounts db). ac_id a < ad_next db) \<and>
     distinct (map ac_phone (ad_accounts db)) \<and> distinct (map ac_email (ad_accounts db))"

definition keys_ok :: "auth_db \<Rightarrow> bool" where
  "keys_ok db \<longleftrightarrow>
     (\<forall>k\<in>set (ad_keys db). \<exists>a. account_get (ak_user k) db = Some a \<and> (retired a \<longrightarrow> ak_revoked k \<noteq> None))"

definition merge_edges :: "auth_db \<Rightarrow> (nat \<times> nat) set" where
  "merge_edges db = {(i, p). \<exists>a. account_get i db = Some a \<and> ac_merged_into a = Some p}"

definition merges_ok :: "auth_db \<Rightarrow> bool" where
  "merges_ok db \<longleftrightarrow>
     acyclic (merge_edges db) \<and>
     (\<forall>i a. account_get i db = Some a \<longrightarrow>
        (ac_merged_into a = None \<longleftrightarrow> ac_merged_at a = None) \<and>
        (\<forall>p. ac_merged_into a = Some p \<longrightarrow> account_get p db \<noteq> None))"

definition proposals_ok :: "auth_db \<Rightarrow> bool" where
  "proposals_ok db \<longleftrightarrow>
     distinct (map mp_id (ad_proposals db)) \<and> (\<forall>p\<in>set (ad_proposals db). mp_id p < ad_next db \<and> proposal_ok p)"

definition deleted :: "nat \<Rightarrow> auth_db \<Rightarrow> bool" where
  "deleted i db \<longleftrightarrow> (\<exists>a. account_get i db = Some a \<and> ac_deleted a \<noteq> None)"

definition deletion_ok :: "auth_db \<Rightarrow> deletion_request \<Rightarrow> bool" where
  "deletion_ok db r \<longleftrightarrow>
     deleted (dr_snapshot r) db \<and>
     dr_hard_at r = dt_plus (dr_requested r) (days 7) \<and>
     (dr_status r = ''scheduled'' \<and> dr_completed r = None \<or>
      dr_status r = ''completed'' \<and> (\<exists>t. dr_completed r = Some t \<and> dr_hard_at r \<le> t))"

definition deletions_ok :: "auth_db \<Rightarrow> bool" where
  "deletions_ok db \<longleftrightarrow> distinct (map dr_snapshot (ad_deletions db)) \<and> (\<forall>r\<in>set (ad_deletions db). deletion_ok db r)"

definition appeals_ok :: "auth_db \<Rightarrow> bool" where
  "appeals_ok db \<longleftrightarrow> (\<forall>a\<in>set (ad_appeals db). appeal_ok a) \<and> ''geo_anomaly'' \<in> set (map rk_code (ad_rules db))"

section \<open>One person per phone and email\<close>

lemma distinct_map_update:
  assumes "distinct (map f xs)" "\<And>x. P x \<Longrightarrow> f (g x) = f x"
  shows "distinct (map f (map (\<lambda>x. if P x then g x else x) xs))"
proof -
  have "map f (map (\<lambda>x. if P x then g x else x) xs) = map f xs" using assms(2) by simp
  then show ?thesis using assms(1) by metis
qed

lemma contacts_update:
  assumes "contacts_ok db" "\<And>a. ac_id (g a) = ac_id a \<and> ac_phone (g a) = ac_phone a \<and> ac_email (g a) = ac_email a"
    "ad_accounts db' = map (\<lambda>a. if P a then g a else a) (ad_accounts db)" "ad_next db \<le> ad_next db'"
  shows "contacts_ok db'"
proof -
  have ids: "\<forall>a\<in>set (ad_accounts db'). ac_id a < ad_next db'"
    using assms by (fastforce simp: contacts_ok_def)
  show ?thesis using assms(1) ids assms(2) unfolding contacts_ok_def assms(3)
    by (auto simp only: intro!: distinct_map_update)
qed

lemma contacts_same: "contacts_ok db \<Longrightarrow> ad_accounts db' = ad_accounts db \<Longrightarrow> ad_next db \<le> ad_next db' \<Longrightarrow> contacts_ok db'"
  by (auto simp: contacts_ok_def)

lemma distinct_replace:
  assumes "distinct (map f xs)" "distinct (map key xs)" "\<And>x. key x = k \<Longrightarrow> f (g x) = v"
    "\<And>x. x \<in> set xs \<Longrightarrow> key x \<noteq> k \<Longrightarrow> f x \<noteq> v"
  shows "distinct (map f (map (\<lambda>x. if key x = k then g x else x) xs))"
  using assms
proof (induction xs)
  case (Cons x xs)
  have other: "(if key y = k then g y else y) = y" if "key x = k" "y \<in> set xs" for y
    using Cons.prems(2) that by (metis image_eqI list.set_map list.simps(9) distinct.simps(2))
  have ih: "distinct (map f (map (\<lambda>x. if key x = k then g x else x) xs))" using Cons by simp
  have "f (if key x = k then g x else x) \<noteq> f (if key y = k then g y else y)" if y: "y \<in> set xs" for y
  proof (cases "key x = k")
    case True
    with Cons.prems y other [OF True y] have "key y \<noteq> k" by (metis image_eqI list.set_map list.simps(9) distinct.simps(2))
    with True Cons.prems y show ?thesis by auto
  next
    case False
    with Cons.prems y show ?thesis by (auto simp: image_iff)
  qed
  with ih show ?case by fastforce
qed simp

lemma contacts_erase:
  assumes "contacts_ok db" "complete_deletion cfg now r db = Some db'"
  shows "contacts_ok db'"
proof -
  let ?u = "dr_snapshot r"
  note after = complete_deletion_after [OF assms(2)]
  have free: "ac_phone a \<noteq> ''deleted-'' @ hex_prefix cfg ?u \<and> ac_email a \<noteq> ''deleted-'' @ hex_prefix cfg ?u @ ''@invalid.local''"
    if "a \<in> set (ad_accounts db)" "ac_id a \<noteq> ?u" "account_get ?u db \<noteq> None" for a
    using assms(2) that by (auto simp: complete_deletion_def Let_def list_ex_iff split: if_splits)
  show ?thesis
  proof (cases "account_get ?u db")
    case None
    then have "map (\<lambda>a. if ac_id a = ?u then erase_account cfg now a else a) (ad_accounts db) = ad_accounts db"
      unfolding account_get_def row_get_None_iff by (intro map_idI) (metis image_eqI)
    then show ?thesis using assms(1) after(2,8) by (intro contacts_same [OF assms(1)]) simp_all
  next
    case (Some x)
    have "distinct (map ac_id (ad_accounts db'))"
      unfolding after(2) using assms(1) by (intro distinct_map_update) (auto simp: contacts_ok_def erase_account_def)
    moreover have "distinct (map ac_phone (ad_accounts db'))"
      unfolding after(2) using assms(1) free Some
      by (intro distinct_replace [where v = "''deleted-'' @ hex_prefix cfg ?u"]) (auto simp: contacts_ok_def erase_account_def)
    moreover have "distinct (map ac_email (ad_accounts db'))"
      unfolding after(2) using assms(1) free Some
      by (intro distinct_replace [where v = "''deleted-'' @ hex_prefix cfg ?u @ ''@invalid.local''"])
        (auto simp: contacts_ok_def erase_account_def)
    moreover have "\<forall>a\<in>set (ad_accounts db'). ac_id a < ad_next db'"
      using assms(1) after(8) by (fastforce simp: contacts_ok_def after(2) erase_account_def)
    ultimately show ?thesis by (simp add: contacts_ok_def)
  qed
qed


lemma keys_touch: "keys_ok db \<Longrightarrow> key_kept f \<Longrightarrow> keys_ok (update_keys P f db)"
  by (auto simp: keys_ok_def auth_writes key_kept_def)

lemma keys_live:
  assumes "keys_ok db" "ad_keys db' = ad_keys db"
    "\<And>i a. account_get i db = Some a \<Longrightarrow> \<exists>a'. account_get i db' = Some a' \<and> (retired a' \<longrightarrow> retired a)"
  shows "keys_ok db'"
  using assms unfolding keys_ok_def by metis

lemma keys_retire:
  assumes "keys_ok db"
    "ad_keys db' = map (\<lambda>k. if ak_user k \<in> U \<and> ak_revoked k = None then k\<lparr>ak_revoked := Some now\<rparr> else k) (ad_keys db)"
    "\<And>i a. account_get i db = Some a \<Longrightarrow> \<exists>a'. account_get i db' = Some a' \<and> (i \<notin> U \<longrightarrow> retired a' \<longrightarrow> retired a)"
  shows "keys_ok db'"
  unfolding keys_ok_def
proof
  fix k'
  assume "k' \<in> set (ad_keys db')"
  then obtain k where k: "k \<in> set (ad_keys db)"
    and k': "k' = (if ak_user k \<in> U \<and> ak_revoked k = None then k\<lparr>ak_revoked := Some now\<rparr> else k)"
    unfolding assms(2) by auto
  from k assms(1) obtain a where a: "account_get (ak_user k) db = Some a" "retired a \<longrightarrow> ak_revoked k \<noteq> None"
    by (auto simp: keys_ok_def)
  from assms(3) [OF a(1)] obtain a' where a': "account_get (ak_user k) db' = Some a'" "ak_user k \<notin> U \<longrightarrow> retired a' \<longrightarrow> retired a"
    by blast
  have user: "ak_user k' = ak_user k" by (simp add: k')
  have "ak_revoked k' \<noteq> None" if "retired a'"
  proof (cases "ak_user k \<in> U")
    case True
    then show ?thesis by (simp add: k')
  next
    case False
    with that a(2) a'(2) show ?thesis by (simp add: k')
  qed
  with a'(1) user show "\<exists>a. account_get (ak_user k') db' = Some a \<and> (retired a \<longrightarrow> ak_revoked k' \<noteq> None)" by auto
qed

interpretation contacts: auth_order "keeps contacts_ok"
proof
  show "keeps contacts_ok db db''" if "keeps contacts_ok db db'" "keeps contacts_ok db' db''" for db db' db''
    using that by (simp add: keeps_def)
  show "keeps contacts_ok db db'" if "same_core db db'" for db db'
    using that by (auto simp: keeps_def same_core_def intro: contacts_same)
  show "keeps contacts_ok db (add_account phone email now db)" if "contacts_free phone email db" for phone email now db
    using that by (auto simp: keeps_def contacts_ok_def contacts_free_def add_account_def new_account_def list_ex_iff less_SucI)
  show "keeps contacts_ok db (update_accounts (\<lambda>a. ac_id a = u) (\<lambda>a. a\<lparr>ac_frozen := b\<rparr>) db)" for u b db
    by (rule keepsI, erule contacts_update [where P = "\<lambda>a. ac_id a = u" and g = "\<lambda>a. a\<lparr>ac_frozen := b\<rparr>"])
      (simp_all add: update_accounts_def)
  show "keeps contacts_ok db (update_accounts (\<lambda>a. ac_id a = u) (\<lambda>a. a\<lparr>ac_risk := max (ac_risk a) s\<rparr>) db)" for u s db
    by (rule keepsI, erule contacts_update [where P = "\<lambda>a. ac_id a = u" and g = "\<lambda>a. a\<lparr>ac_risk := max (ac_risk a) s\<rparr>"])
      (simp_all add: update_accounts_def)
  show "keeps contacts_ok db (proposal_put (p\<lparr>mp_status := ''accepted'', mp_accepted := Some now, mp_updated := now\<rparr>)
      (merge_accounts (mp_primary p) (mp_duplicates p) now db))" for p now db
  proof (rule keepsI)
    assume ok: "contacts_ok db"
    let ?db1 = "update_accounts (\<lambda>a. ac_id a = mp_primary p) (\<lambda>a. a\<lparr>ac_frozen := False\<rparr>) db"
    have "contacts_ok ?db1"
      by (rule contacts_update [OF ok, where P = "\<lambda>a. ac_id a = mp_primary p" and g = "\<lambda>a. a\<lparr>ac_frozen := False\<rparr>"])
        (simp_all add: update_accounts_def)
    then show "contacts_ok (proposal_put (p\<lparr>mp_status := ''accepted'', mp_accepted := Some now, mp_updated := now\<rparr>)
      (merge_accounts (mp_primary p) (mp_duplicates p) now db))"
      by (rule contacts_update [where P = "\<lambda>a. ac_id a \<in> set (mp_duplicates p)" and g = "merge_into (mp_primary p) now"])
        (simp_all add: update_accounts_def merge_into_def merge_accounts_def revoke_keys_of_def update_keys_def proposal_put_def)
  qed
  show "keeps contacts_ok db db'" if "request_account_deletion now u db = Some (r, db')" for now u db r db'
    using that
  proof (cases rule: request_deletion_cases)
    case 1
    then show ?thesis by (simp add: keeps_def)
  next
    case (2 a)
    then show ?thesis
      by (intro keepsI, erule_tac contacts_update [where P = "\<lambda>a. ac_id a = u" and g = "\<lambda>a. a\<lparr>ac_deleted := Some now\<rparr>"]) simp_all
  qed
  show "keeps contacts_ok db db'" if "complete_deletion cfg now r db = Some db'" for cfg now r db db'
    using contacts_erase that by (blast intro: keepsI)
qed (auto simp: keeps_def auth_writes intro: contacts_same)

interpretation keys: auth_order "keeps keys_ok"
proof
  show "keeps keys_ok db db''" if "keeps keys_ok db db'" "keeps keys_ok db' db''" for db db' db''
    using that by (simp add: keeps_def)
  show "keeps keys_ok db db'" if "same_core db db'" for db db'
    using that core_get [OF that] by (auto simp: keeps_def same_core_def keys_ok_def)
  show "keeps keys_ok db (add_account phone email now db)" for phone email now db
    by (rule keepsI, erule keys_live) (auto simp: auth_writes)
  show "keeps keys_ok db (update_accounts (\<lambda>a. ac_id a = u) (\<lambda>a. a\<lparr>ac_frozen := b\<rparr>) db)" for u b db
    by (rule keepsI, erule keys_live) (auto simp: auth_writes retired_def)
  show "keeps keys_ok db (update_accounts (\<lambda>a. ac_id a = u) (\<lambda>a. a\<lparr>ac_risk := max (ac_risk a) s\<rparr>) db)" for u s db
    by (rule keepsI, erule keys_live) (auto simp: auth_writes retired_def)
  show "keeps keys_ok db (db\<lparr>ad_keys := ad_keys db @ [k], ad_next := Suc (ad_next db)\<rparr>)"
    if "require_active_user (ak_user k) db = Some a" for k db a
    using that by (auto simp: keeps_def keys_ok_def auth_writes require_active_user_iff)
  show "keeps keys_ok db (update_keys P f db)" if "key_kept f" for P f db
    using that keys_touch by (blast intro: keepsI)
  show "keeps keys_ok db (proposal_put (p\<lparr>mp_status := ''accepted'', mp_accepted := Some now, mp_updated := now\<rparr>)
      (merge_accounts (mp_primary p) (mp_duplicates p) now db))" for p now db
    by (rule keepsI, erule keys_retire [where U = "set (mp_duplicates p)" and now = now])
      (auto simp: auth_writes retired_def merge_view_def Let_def dest: account_get_id)
  show "keeps keys_ok db db'" if "request_account_deletion now u db = Some (r, db')" for now u db r db'
    using that
  proof (cases rule: request_deletion_cases)
    case 1
    then show ?thesis by (simp add: keeps_def)
  next
    case (2 a)
    then show ?thesis by (intro keepsI, erule_tac keys_retire [where U = "{u}" and now = now]) (auto simp: retired_def)
  qed
  show "keeps keys_ok db db'" if "complete_deletion cfg now r db = Some db'" for cfg now r db db'
    using complete_deletion_after [OF that] by (fastforce simp: keeps_def keys_ok_def)
qed (auto simp: keeps_def keys_ok_def auth_writes)


section \<open>Proposals and merges\<close>

lemma proposals_same: "proposals_ok db \<Longrightarrow> ad_proposals db' = ad_proposals db \<Longrightarrow> ad_next db \<le> ad_next db' \<Longrightarrow> proposals_ok db'"
  by (auto simp: proposals_ok_def)

lemma proposals_put:
  assumes "proposals_ok db" "p \<in> set (ad_proposals db)" "mp_id p' = mp_id p" "proposal_ok p'"
    "ad_proposals db' = row_put mp_id p' (ad_proposals db)" "ad_next db' = ad_next db"
  shows "proposals_ok db'"
  using assms by (auto simp: proposals_ok_def dest!: in_set_put)

interpretation proposals: auth_order "keeps proposals_ok"
proof
  show "keeps proposals_ok db db''" if "keeps proposals_ok db db'" "keeps proposals_ok db' db''" for db db' db''
    using that by (simp add: keeps_def)
  show "keeps proposals_ok db db'" if "same_core db db'" for db db'
    using that by (auto simp: keeps_def same_core_def intro: proposals_same)
  show "keeps proposals_ok db (db\<lparr>ad_proposals := ad_proposals db @ [p], ad_next := Suc (ad_next db)\<rparr>)"
    if "mp_id p = ad_next db" "proposal_ok p" for p db
    using that by (auto simp: keeps_def proposals_ok_def)
  show "keeps proposals_ok db (proposal_put (p\<lparr>mp_status := st, mp_reviewed_at := Some now, mp_reviewed_by := Some by',
      mp_reason := Some why, mp_updated := now\<rparr>) db)"
    if "proposal_get i db = Some p" "st \<in> {''approved'', ''rejected''}" for i db p st now by' why
  proof (rule keepsI)
    assume ok: "proposals_ok db"
    have p: "p \<in> set (ad_proposals db)" using that(1) by (auto simp: proposal_get_def dest: row_get_SomeD)
    with ok have "proposal_ok p" by (simp add: proposals_ok_def)
    with that(2) have "proposal_ok (p\<lparr>mp_status := st, mp_reviewed_at := Some now, mp_reviewed_by := Some by',
      mp_reason := Some why, mp_updated := now\<rparr>)" by (auto simp: proposal_ok_def)
    then show "proposals_ok (proposal_put (p\<lparr>mp_status := st, mp_reviewed_at := Some now, mp_reviewed_by := Some by',
      mp_reason := Some why, mp_updated := now\<rparr>) db)"
      by (rule proposals_put [OF ok p, rotated]) (simp_all add: auth_writes)
  qed
  show "keeps proposals_ok db (proposal_put (p\<lparr>mp_status := ''accepted'', mp_accepted := Some now, mp_updated := now\<rparr>)
      (merge_accounts (mp_primary p) (mp_duplicates p) now db))" if "p \<in> set (ad_proposals db)" for p now db
  proof (rule keepsI)
    assume ok: "proposals_ok db"
    then have "proposal_ok p" using that by (simp add: proposals_ok_def)
    then have "proposal_ok (p\<lparr>mp_status := ''accepted'', mp_accepted := Some now, mp_updated := now\<rparr>)"
      by (auto simp: proposal_ok_def)
    then show "proposals_ok (proposal_put (p\<lparr>mp_status := ''accepted'', mp_accepted := Some now, mp_updated := now\<rparr>)
        (merge_accounts (mp_primary p) (mp_duplicates p) now db))"
      by (rule proposals_put [OF ok that, rotated]) (simp_all add: auth_writes)
  qed
  show "keeps proposals_ok db db'" if "request_account_deletion now u db = Some (r, db')" for now u db r db'
    using that by (cases rule: request_deletion_cases) (auto simp: keeps_def intro: proposals_same)
  show "keeps proposals_ok db db'" if "complete_deletion cfg now r db = Some db'" for cfg now r db db'
    using complete_deletion_after [OF that] by (auto simp: keeps_def intro: proposals_same)
qed (auto simp: keeps_def auth_writes intro: proposals_same)

text \<open>Who is merged into whom, and when.\<close>

definition merge_of :: "nat \<Rightarrow> auth_db \<Rightarrow> (nat option \<times> datetime option) option" where
  "merge_of i db = map_option (\<lambda>a. (ac_merged_into a, ac_merged_at a)) (account_get i db)"

lemma merge_edges_of: "merge_edges db = {(i, p). \<exists>t. merge_of i db = Some (Some p, t)}"
  by (auto simp: merge_edges_def merge_of_def)

lemma merges_ok_of:
  "merges_ok db \<longleftrightarrow> acyclic (merge_edges db) \<and>
     (\<forall>i p t. merge_of i db = Some (p, t) \<longrightarrow> (p = None \<longleftrightarrow> t = None) \<and> (\<forall>q. p = Some q \<longrightarrow> merge_of q db \<noteq> None))"
  by (fastforce simp: merges_ok_def merge_of_def)

lemma merges_same: "merges_ok db \<Longrightarrow> (\<And>i. merge_of i db' = merge_of i db) \<Longrightarrow> merges_ok db'"
  by (simp add: merges_ok_of merge_edges_of)

lemma acyclic_extend:
  assumes "acyclic E" "\<And>x y. (x, y) \<in> N \<Longrightarrow> y = p" "p \<notin> Domain E" "p \<notin> Domain N"
  shows "acyclic (E \<union> N)"
proof -
  have path: "b = p \<or> (a, b) \<in> E\<^sup>+" if "(a, b) \<in> (E \<union> N)\<^sup>+" for a b
    using that
  proof (induction rule: trancl_induct)
    case (base b)
    then show ?case using assms(2) by auto
  next
    case (step b c)
    from step.hyps(2) have "b \<noteq> p" using assms(3,4) by auto
    with step.IH have "(a, b) \<in> E\<^sup>+" by blast
    with step.hyps(2) show ?case using assms(2) by (auto intro: trancl_into_trancl)
  qed
  have "(x, x) \<notin> (E \<union> N)\<^sup>+" for x
  proof
    assume x: "(x, x) \<in> (E \<union> N)\<^sup>+"
    then have "x \<in> Domain (E \<union> N)" by (metis Domain.DomainI tranclD)
    then have "x \<noteq> p" using assms(3,4) by auto
    with path [OF x] assms(1) show False by (auto simp: acyclic_def)
  qed
  then show ?thesis by (simp add: acyclic_def)
qed

lemma merge_of_accept:
  "merge_of i (proposal_put q (merge_accounts p ds now db))
     = (if i \<in> set ds then map_option (\<lambda>_. (Some p, Some now)) (merge_of i db) else merge_of i db)"
  by (cases "account_get i db")
    (auto simp: merge_of_def auth_writes merge_view_def merge_into_def Let_def dest: account_get_id)

lemma merges_accept:
  assumes "merges_ok db" "mergeable p db" "\<forall>d\<in>set ds. mergeable d db" "p \<notin> set ds"
  shows "merges_ok (proposal_put q (merge_accounts p ds now db))" (is "merges_ok ?db'")
proof -
  have live: "merge_of x db = Some (None, None)" if "mergeable x db" for x
    using that assms(1) by (auto simp: mergeable_def retired_def merge_of_def merges_ok_def)
  have ds: "merge_of d db = Some (None, None)" if "d \<in> set ds" for d using live assms(3) that by blast
  have edges: "merge_edges ?db' = merge_edges db \<union> {(d, p) | d. d \<in> set ds}"
    using ds by (auto simp: merge_edges_of merge_of_accept split: if_splits)
  have "acyclic (merge_edges ?db')"
    unfolding edges using assms(1,4) live [OF assms(2)]
    by (intro acyclic_extend [where p = p]) (auto simp: merges_ok_def merge_edges_of)
  moreover have "(x = None \<longleftrightarrow> t = None) \<and> (\<forall>q. x = Some q \<longrightarrow> merge_of q ?db' \<noteq> None)"
    if "merge_of i ?db' = Some (x, t)" for i x t
  proof (cases "i \<in> set ds")
    case True
    with that ds have "x = Some p" "t = Some now" by (auto simp: merge_of_accept)
    with live [OF assms(2)] assms(4) show ?thesis by (simp add: merge_of_accept)
  next
    case False
    with that have "merge_of i db = Some (x, t)" by (simp add: merge_of_accept)
    with assms(1) show ?thesis by (auto simp: merges_ok_of merge_of_accept)
  qed
  ultimately show ?thesis by (simp add: merges_ok_of)
qed

definition merging_ok :: "auth_db \<Rightarrow> bool" where
  "merging_ok db \<longleftrightarrow> proposals_ok db \<and> merges_ok db"

lemma keeps_merging: "keeps proposals_ok db db' \<Longrightarrow> (merging_ok db \<Longrightarrow> merges_ok db') \<Longrightarrow> keeps merging_ok db db'"
  by (auto simp: keeps_def merging_ok_def)

lemma merging_same: "keeps proposals_ok db db' \<Longrightarrow> (\<And>i. merge_of i db' = merge_of i db) \<Longrightarrow> keeps merging_ok db db'"
  by (rule keeps_merging) (auto simp: merging_ok_def intro: merges_same)


lemma merge_of_quiet: "same_core db db' \<Longrightarrow> merge_of i db' = merge_of i db"
  by (simp add: merge_of_def core_get)

lemma merges_sign_up:
  assumes "merges_ok db"
  shows "merges_ok (add_account phone email now db)"
proof -
  have view: "merge_of i (add_account phone email now db) = merge_of i db \<or>
      merge_of i db = None \<and> merge_of i (add_account phone email now db) = Some (None, None)" for i
    by (cases "account_get i db") (auto simp: merge_of_def auth_writes new_account_def)
  have "merge_edges (add_account phone email now db) = merge_edges db"
    unfolding merge_edges_of using view by (auto) (metis option.distinct(1) option.inject prod.inject)+
  then show ?thesis using assms view unfolding merges_ok_of
    by (metis option.distinct(1) option.inject prod.inject)
qed

lemma merge_of_deletion: "request_account_deletion now u db = Some (r, db') \<Longrightarrow> merge_of i db' = merge_of i db"
  by (cases "account_get i db", cases rule: request_deletion_cases) (auto simp: merge_of_def elim!: request_deletion_cases)

lemma merge_of_erase: "complete_deletion cfg now r db = Some db' \<Longrightarrow> merge_of i db' = merge_of i db"
  using complete_deletion_after(1) [of cfg now r db db' i]
  by (cases "account_get i db") (auto simp: merge_of_def erase_account_def)

interpretation merging: auth_order "keeps merging_ok"
proof
  show "keeps merging_ok db db''" if "keeps merging_ok db db'" "keeps merging_ok db' db''" for db db' db''
    using that by (simp add: keeps_def)
  show "keeps merging_ok db db'" if "same_core db db'" for db db'
    by (rule merging_same [OF proposals.quiet [OF that] merge_of_quiet [OF that]])
  show "keeps merging_ok db (add_account phone email now db)" if "contacts_free phone email db" for phone email now db
    by (rule keeps_merging [OF proposals.sign_up [OF that]]) (simp add: merging_ok_def merges_sign_up)
  show "keeps merging_ok db (update_accounts (\<lambda>a. ac_id a = u) (\<lambda>a. a\<lparr>ac_frozen := b\<rparr>) db)" for u b db
    by (rule merging_same [OF proposals.freeze]) (simp add: merge_of_def auth_writes option.map_comp comp_def if_distrib cong: if_cong)
  show "keeps merging_ok db (update_accounts (\<lambda>a. ac_id a = u) (\<lambda>a. a\<lparr>ac_risk := max (ac_risk a) s\<rparr>) db)" for u s db
    by (rule merging_same [OF proposals.score]) (simp add: merge_of_def auth_writes option.map_comp comp_def if_distrib cong: if_cong)
  show "keeps merging_ok db (db\<lparr>ad_keys := ad_keys db @ [k], ad_next := Suc (ad_next db)\<rparr>)"
    if "require_active_user (ak_user k) db = Some a" for k db a
    by (rule merging_same [OF proposals.new_key [OF that]]) (simp add: merge_of_def auth_writes)
  show "keeps merging_ok db (update_keys P f db)" if "key_kept f" for P f db
    by (rule merging_same [OF proposals.keys [OF that]]) (simp add: merge_of_def auth_writes)
  show "keeps merging_ok db (db\<lparr>ad_proposals := ad_proposals db @ [p], ad_next := Suc (ad_next db)\<rparr>)"
    if "mp_id p = ad_next db" "proposal_ok p" "mp_status p \<in> {''pending_review'', ''auto_approved''}" for p db
    by (rule merging_same [OF proposals.propose [OF that]]) (simp add: merge_of_def auth_writes)
  show "keeps merging_ok db (proposal_put (p\<lparr>mp_status := st, mp_reviewed_at := Some now, mp_reviewed_by := Some by',
      mp_reason := Some why, mp_updated := now\<rparr>) db)"
    if "proposal_get i db = Some p" "mp_status p = ''pending_review''" "st \<in> {''approved'', ''rejected''}" for i db p st now by' why
    by (rule merging_same [OF proposals.review [OF that]]) (simp add: merge_of_def auth_writes)
  show "keeps merging_ok db (proposal_put (p\<lparr>mp_status := ''accepted'', mp_accepted := Some now, mp_updated := now\<rparr>)
      (merge_accounts (mp_primary p) (mp_duplicates p) now db))"
    if "p \<in> set (ad_proposals db)" "mp_status p \<in> {''approved'', ''auto_approved''}" "mergeable (mp_primary p) db"
      "\<forall>d\<in>set (mp_duplicates p). mergeable d db" for p now db
    by (rule keeps_merging [OF proposals.accept [OF that]], rule merges_accept)
      (use that in \<open>auto simp: merging_ok_def proposals_ok_def proposal_ok_def\<close>)
  show "keeps merging_ok db (db\<lparr>ad_appeals := ad_appeals db @ [ap], ad_next := Suc (ad_next db)\<rparr>)" if "appeal_ok ap" for ap db
    by (rule merging_same [OF proposals.new_appeal [OF that]]) (simp add: merge_of_def auth_writes)
  show "keeps merging_ok db (appeal_put ap db)" if "appeal_ok ap" for ap db
    by (rule merging_same [OF proposals.put_appeal [OF that]]) (simp add: merge_of_def auth_writes)
  show "keeps merging_ok db db'" if "request_account_deletion now u db = Some (r, db')" for now u db r db'
    by (rule merging_same [OF proposals.delete [OF that] merge_of_deletion [OF that]])
  show "keeps merging_ok db db'"
    if "get_deletion_request_by_user (dr_snapshot r) db = Some r" "dr_status r = ''scheduled''" "dr_hard_at r \<le> now"
      "complete_deletion cfg now r db = Some db'" for r db now cfg db'
    by (rule merging_same [OF proposals.erase [OF that] merge_of_erase [OF that(4)]])
qed

section \<open>Deletion requests\<close>

text \<open>The accounts of the requests stay deleted under every write.\<close>

lemma deleted_after:
  "deleted i db \<Longrightarrow> deleted i (add_account phone email now db)"
  "deleted i (update_accounts (\<lambda>a. ac_id a = u) (\<lambda>a. a\<lparr>ac_frozen := b\<rparr>) db) = deleted i db"
  "deleted i (update_accounts (\<lambda>a. ac_id a = u) (\<lambda>a. a\<lparr>ac_risk := max (ac_risk a) s\<rparr>) db) = deleted i db"
  "deleted i (merge_accounts p ds now db) = deleted i db"
  "deleted i (update_keys P f db) = deleted i db"
  "deleted i (proposal_put q db) = deleted i db"
  "deleted i (appeal_put ap db) = deleted i db"
  "deleted i (db\<lparr>ad_keys := ks, ad_next := n\<rparr>) = deleted i db"
  "deleted i (db\<lparr>ad_proposals := ps, ad_next := n\<rparr>) = deleted i db"
  "deleted i (db\<lparr>ad_appeals := as, ad_next := n\<rparr>) = deleted i db"
  by (cases "account_get i db"; auto simp: deleted_def auth_writes merge_view_def merge_into_def Let_def)+

lemma deletions_same:
  assumes "deletions_ok db" "ad_deletions db' = ad_deletions db" "\<And>i. deleted i db \<Longrightarrow> deleted i db'"
  shows "deletions_ok db'"
  using assms by (auto simp: deletions_ok_def deletion_ok_def)

lemma deletions_request:
  assumes "deletions_ok db" "request_account_deletion now u db = Some (r, db')"
  shows "deletions_ok db'"
  using assms(2)
proof (cases rule: request_deletion_cases)
  case 1
  then show ?thesis using assms(1) by simp
next
  case (2 a)
  have new: "u \<notin> dr_snapshot ` set (ad_deletions db)"
    using 2(3) by (simp add: get_deletion_request_by_user_def row_get_None_iff)
  have del: "deleted i db'" if "deleted i db \<or> i = u" for i
    using that 2(1) 2(4) [of i] by (cases "i = u") (auto simp: deleted_def)
  have kept: "deletion_ok db' x" if "x \<in> set (ad_deletions db)" for x
    using assms(1) that del by (auto simp: deletions_ok_def deletion_ok_def)
  have "dr_completed r = None"
    using assms(2) 2(1-3,11) by (auto simp: request_account_deletion_def Let_def get_active_user_def)
  then have "deletion_ok db' r" using 2(12-15) del by (auto simp: deletion_ok_def)
  with new kept assms(1) show ?thesis by (auto simp: deletions_ok_def 2(11,12))
qed

lemma deletions_erase:
  assumes "deletions_ok db" "get_deletion_request_by_user (dr_snapshot r) db = Some r" "dr_hard_at r \<le> now"
    "complete_deletion cfg now r db = Some db'"
  shows "deletions_ok db'"
proof -
  note after = complete_deletion_after [OF assms(4)]
  let ?r = "r\<lparr>dr_user := None, dr_status := ''completed'', dr_completed := Some now\<rparr>"
  have del: "deleted i db'" if "deleted i db" for i
    using that after(1) [of i] by (cases "i = dr_snapshot r") (auto simp: deleted_def erase_account_def)
  have "deletion_ok db r" using assms(1,2) by (auto simp: deletions_ok_def get_deletion_request_by_user_def dest: row_get_SomeD)
  then have r: "deletion_ok db' ?r" using assms(3) del by (auto simp: deletion_ok_def)
  have "deletion_ok db' x" if "x \<in> set (ad_deletions db)" for x
    using assms(1) that del by (auto simp: deletions_ok_def deletion_ok_def)
  with r assms(1) show ?thesis by (auto simp: deletions_ok_def after(9) dest!: in_set_put)
qed

interpretation deletions: auth_order "keeps deletions_ok"
proof
  show "keeps deletions_ok db db''" if "keeps deletions_ok db db'" "keeps deletions_ok db' db''" for db db' db''
    using that by (simp add: keeps_def)
  show "keeps deletions_ok db db'" if "same_core db db'" for db db'
    using that core_get [OF that] by (auto simp: keeps_def same_core_def deleted_def intro: deletions_same)
  show "keeps deletions_ok db db'" if "request_account_deletion now u db = Some (r, db')" for now u db r db'
    using deletions_request that by (blast intro: keepsI)
  show "keeps deletions_ok db db'"
    if "get_deletion_request_by_user (dr_snapshot r) db = Some r" "dr_hard_at r \<le> now"
      "complete_deletion cfg now r db = Some db'" for r db now cfg db'
    using deletions_erase that by (blast intro: keepsI)
qed (auto simp: keeps_def auth_writes deleted_after elim!: deletions_same)

section \<open>Appeals and rules\<close>

interpretation appeals: auth_order "keeps appeals_ok"
proof
  show "keeps appeals_ok db db''" if "keeps appeals_ok db db'" "keeps appeals_ok db' db''" for db db' db''
    using that by (simp add: keeps_def)
  show "keeps appeals_ok db db'" if "request_account_deletion now u db = Some (r, db')" for now u db r db'
    using that by (cases rule: request_deletion_cases) (simp_all add: keeps_def appeals_ok_def)
  show "keeps appeals_ok db db'" if "complete_deletion cfg now r db = Some db'" for cfg now r db db'
    using complete_deletion_after [OF that] by (simp add: keeps_def appeals_ok_def)
qed (auto simp: keeps_def auth_writes appeals_ok_def same_core_def dest!: in_set_put)


section \<open>What never changes\<close>

text \<open>
  Along every run an account keeps its identifier, a merged account its target and date, and a deleted
  account stays deleted; a proposal keeps everything but its verdict, which moves by
  \<open>proposal_move\<close>.
\<close>

definition account_follows :: "account \<Rightarrow> account \<Rightarrow> bool" where
  "account_follows a a' \<longleftrightarrow>
     ac_id a' = ac_id a \<and>
     (ac_merged_at a \<noteq> None \<longrightarrow> ac_merged_into a' = ac_merged_into a \<and> ac_merged_at a' = ac_merged_at a) \<and>
     (ac_deleted a \<noteq> None \<longrightarrow> ac_deleted a' \<noteq> None)"

definition proposal_follows :: "merge_proposal \<Rightarrow> merge_proposal \<Rightarrow> bool" where
  "proposal_follows p p' \<longleftrightarrow>
     mp_requester p' = mp_requester p \<and> mp_primary p' = mp_primary p \<and> mp_duplicates p' = mp_duplicates p \<and>
     mp_evidence p' = mp_evidence p \<and> mp_mode p' = mp_mode p \<and> mp_score p' = mp_score p \<and>
     proposal_move\<^sup>*\<^sup>* (mp_status p) (mp_status p')"

definition accounts_follow :: "auth_db \<Rightarrow> auth_db \<Rightarrow> bool" where
  "accounts_follow db db' \<longleftrightarrow>
     (\<forall>i a. account_get i db = Some a \<longrightarrow> (\<exists>a'. account_get i db' = Some a' \<and> account_follows a a'))"

definition proposals_follow :: "auth_db \<Rightarrow> auth_db \<Rightarrow> bool" where
  "proposals_follow db db' \<longleftrightarrow>
     (\<forall>i p. proposal_get i db = Some p \<longrightarrow> (\<exists>p'. proposal_get i db' = Some p' \<and> proposal_follows p p'))"

definition history :: "auth_db \<Rightarrow> auth_db \<Rightarrow> bool" where
  "history db db' \<longleftrightarrow> (proposals_ok db \<longrightarrow> proposals_ok db' \<and> accounts_follow db db' \<and> proposals_follow db db')"

lemma account_follows_refl: "account_follows a a"
  by (simp add: account_follows_def)

lemma proposal_follows_refl: "proposal_follows p p"
  by (simp add: proposal_follows_def)

lemma account_follows_trans: "account_follows a b \<Longrightarrow> account_follows b c \<Longrightarrow> account_follows a c"
  by (auto simp: account_follows_def)

lemma proposal_follows_trans: "proposal_follows a b \<Longrightarrow> proposal_follows b c \<Longrightarrow> proposal_follows a c"
  by (auto simp: proposal_follows_def)

lemma history_trans:
  assumes "history db db'" "history db' db''"
  shows "history db db''"
proof -
  have "accounts_follow db db''" if "accounts_follow db db'" "accounts_follow db' db''"
    using that account_follows_trans unfolding accounts_follow_def by metis
  moreover have "proposals_follow db db''" if "proposals_follow db db'" "proposals_follow db' db''"
    using that proposal_follows_trans unfolding proposals_follow_def by metis
  ultimately show ?thesis using assms by (auto simp: history_def)
qed

lemma proposals_follow_same: "ad_proposals db' = ad_proposals db \<Longrightarrow> proposals_follow db db'"
  by (auto simp: proposals_follow_def proposal_get_def proposal_follows_refl)

lemma proposals_follow_put:
  assumes "proposals_ok db" "p \<in> set (ad_proposals db)" "mp_id p' = mp_id p" "proposal_follows p p'"
    "ad_proposals db' = row_put mp_id p' (ad_proposals db)"
  shows "proposals_follow db db'"
  unfolding proposals_follow_def
proof (intro allI impI)
  fix i q
  assume q: "proposal_get i db = Some q"
  have p: "proposal_get (mp_id p) db = Some p"
    using assms(1,2) by (simp add: proposals_ok_def proposal_get_def row_get_in_set)
  show "\<exists>q'. proposal_get i db' = Some q' \<and> proposal_follows q q'"
  proof (cases "i = mp_id p")
    case True
    with p q assms(3,4) row_get_put_same [of mp_id p' "ad_proposals db"] show ?thesis
      by (auto simp: proposal_get_def assms(5))
  next
    case False
    with q assms(3) row_get_put_other [of i mp_id p' "ad_proposals db"] show ?thesis
      by (auto simp: proposal_get_def assms(5) proposal_follows_refl)
  qed
qed

lemma accounts_follow_same: "(\<And>i. account_get i db' = account_get i db) \<Longrightarrow> accounts_follow db db'"
  by (auto simp: accounts_follow_def account_follows_refl)

lemma accounts_follow_map:
  assumes "\<And>i. account_get i db' = map_option (f i) (account_get i db)"
    "\<And>i a. account_get i db = Some a \<Longrightarrow> account_follows a (f i a)"
  shows "accounts_follow db db'"
  using assms by (simp add: accounts_follow_def)

lemma historyI:
  assumes "keeps proposals_ok db db'" "accounts_follow db db'" "proposals_ok db \<Longrightarrow> proposals_follow db db'"
  shows "history db db'"
  using assms by (simp add: history_def keeps_def)

lemmas proposal_moved =
  proposal_move.intros [THEN r_into_rtranclp [of proposal_move]]

interpretation history: auth_order history
proof
  show "history db db''" if "history db db'" "history db' db''" for db db' db''
    using history_trans that by blast
  show "history db db'" if "same_core db db'" for db db'
    using that core_get [OF that] proposals.quiet [OF that]
    by (intro historyI accounts_follow_same proposals_follow_same) (simp_all add: same_core_def)
  show "history db (add_account phone email now db)" if "contacts_free phone email db" for phone email now db
    using proposals.sign_up [OF that]
    by (intro historyI proposals_follow_same) (auto simp: accounts_follow_def auth_writes account_follows_refl)
  show "history db (update_accounts (\<lambda>a. ac_id a = u) (\<lambda>a. a\<lparr>ac_frozen := b\<rparr>) db)" for u b db
    by (rule historyI [OF proposals.freeze accounts_follow_map proposals_follow_same])
      (auto simp: auth_writes account_follows_def)
  show "history db (update_accounts (\<lambda>a. ac_id a = u) (\<lambda>a. a\<lparr>ac_risk := max (ac_risk a) s\<rparr>) db)" for u s db
    by (rule historyI [OF proposals.score accounts_follow_map proposals_follow_same])
      (auto simp: auth_writes account_follows_def)
  show "history db (db\<lparr>ad_keys := ad_keys db @ [k], ad_next := Suc (ad_next db)\<rparr>)"
    if "require_active_user (ak_user k) db = Some a" for k db a
    using proposals.new_key [OF that] by (intro historyI accounts_follow_same proposals_follow_same) (simp_all add: auth_writes)
  show "history db (update_keys P f db)" if "key_kept f" for P f db
    using proposals.keys [OF that] by (intro historyI accounts_follow_same proposals_follow_same) (simp_all add: auth_writes)
  show "history db (db\<lparr>ad_proposals := ad_proposals db @ [p], ad_next := Suc (ad_next db)\<rparr>)"
    if "mp_id p = ad_next db" "proposal_ok p" "mp_status p \<in> {''pending_review'', ''auto_approved''}" for p db
    using proposals.propose [OF that]
    by (intro historyI accounts_follow_same)
      (auto simp: auth_writes proposals_follow_def proposal_get_def row_get_append proposal_follows_refl)
  show "history db (proposal_put (p\<lparr>mp_status := st, mp_reviewed_at := Some now, mp_reviewed_by := Some by',
      mp_reason := Some why, mp_updated := now\<rparr>) db)"
    if "proposal_get i db = Some p" "mp_status p = ''pending_review''" "st \<in> {''approved'', ''rejected''}" for i db p st now by' why
  proof (rule historyI [OF proposals.review [OF that]])
    show "accounts_follow db (proposal_put (p\<lparr>mp_status := st, mp_reviewed_at := Some now, mp_reviewed_by := Some by',
        mp_reason := Some why, mp_updated := now\<rparr>) db)" by (intro accounts_follow_same) (simp add: auth_writes)
    have p: "p \<in> set (ad_proposals db)" using that(1) by (auto simp: proposal_get_def dest: row_get_SomeD)
    show "proposals_follow db (proposal_put (p\<lparr>mp_status := st, mp_reviewed_at := Some now, mp_reviewed_by := Some by',
        mp_reason := Some why, mp_updated := now\<rparr>) db)" if "proposals_ok db"
      by (rule proposals_follow_put [OF that p])
        (use \<open>mp_status p = _\<close> \<open>st \<in> _\<close> in \<open>auto simp: auth_writes proposal_follows_def intro: proposal_moved\<close>)
  qed
  show "history db (proposal_put (p\<lparr>mp_status := ''accepted'', mp_accepted := Some now, mp_updated := now\<rparr>)
      (merge_accounts (mp_primary p) (mp_duplicates p) now db))"
    if "p \<in> set (ad_proposals db)" "mp_status p \<in> {''approved'', ''auto_approved''}" "mergeable (mp_primary p) db"
      "\<forall>d\<in>set (mp_duplicates p). mergeable d db" for p now db
  proof (rule historyI [OF proposals.accept [OF that]])
    show "accounts_follow db (proposal_put (p\<lparr>mp_status := ''accepted'', mp_accepted := Some now, mp_updated := now\<rparr>)
        (merge_accounts (mp_primary p) (mp_duplicates p) now db))"
    proof (rule accounts_follow_map [where f = "\<lambda>i. merge_view (mp_primary p) (mp_duplicates p) now"])
      fix i a
      assume a: "account_get i db = Some a"
      have "\<not> retired a" if "ac_id a \<in> set (mp_duplicates p)"
        using bspec [OF \<open>\<forall>d\<in>set (mp_duplicates p). mergeable d db\<close> that] a account_get_id [OF a]
        by (simp add: mergeable_def)
      then show "account_follows a (merge_view (mp_primary p) (mp_duplicates p) now a)"
        by (auto simp: account_follows_def merge_view_def merge_into_def Let_def retired_def)
    qed (simp add: auth_writes)
    show "proposals_follow db (proposal_put (p\<lparr>mp_status := ''accepted'', mp_accepted := Some now, mp_updated := now\<rparr>)
        (merge_accounts (mp_primary p) (mp_duplicates p) now db))" if "proposals_ok db"
      by (rule proposals_follow_put [OF that \<open>p \<in> _\<close>])
        (use \<open>mp_status p \<in> _\<close> in \<open>auto simp: auth_writes proposal_follows_def intro: proposal_moved\<close>)
  qed
  show "history db (db\<lparr>ad_appeals := ad_appeals db @ [ap], ad_next := Suc (ad_next db)\<rparr>)" if "appeal_ok ap" for ap db
    using proposals.new_appeal [OF that] by (intro historyI accounts_follow_same proposals_follow_same) (simp_all add: auth_writes)
  show "history db (appeal_put ap db)" if "appeal_ok ap" for ap db
    using proposals.put_appeal [OF that] by (intro historyI accounts_follow_same proposals_follow_same) (simp_all add: auth_writes)
  show "history db db'" if "request_account_deletion now u db = Some (r, db')" for now u db r db'
    using that
  proof (cases rule: request_deletion_cases)
    case 1
    then show ?thesis by (simp add: history_def accounts_follow_same proposals_follow_same)
  next
    case (2 a)
    then show ?thesis
      by (intro historyI [OF proposals.delete [OF that]] proposals_follow_same
          accounts_follow_map [where f = "\<lambda>i a. if i = u then a\<lparr>ac_deleted := Some now\<rparr> else a"])
        (simp_all add: account_follows_def)
  qed
  show "history db db'"
    if "get_deletion_request_by_user (dr_snapshot r) db = Some r" "dr_status r = ''scheduled''" "dr_hard_at r \<le> now"
      "complete_deletion cfg now r db = Some db'" for r db now cfg db'
    using complete_deletion_after [OF that(4)]
    by (intro historyI [OF proposals.erase [OF that]] proposals_follow_same
        accounts_follow_map [where f = "\<lambda>i a. if i = dr_snapshot r then erase_account cfg now a else a"])
      (simp_all add: account_follows_def erase_account_def)
qed

end
