(* ===== verification/AuthSystem.thy ===== *)
theory AuthSystem
  imports AuthInvariant
begin

text \<open>
  The auth service as a whole: any interleaving of its requests, the runs of its deletion worker and the
  calls that present API keys to the solver, each in a transaction of its own, from the seeded database.
  The properties hold in every database that can arise.
\<close>

section \<open>Requests and runs\<close>

text \<open>Each with the random draws of its handler; requests that only read are left out.\<close>

datatype auth_request =
    Signup signup_request string "string option"
  | RequestOtp string string int int
  | Login string string string string
  | CreateKey "string option" key_request string
  | RevokeKey "string option" nat
  | DeleteAccount "string option"
  | EraseDue
  | ProposeMerge "string option" merge_request
  | AcceptMerge "string option" nat
  | ReviewMerge "string option" nat string string
  | AddRiskFlag "string option" nat string json
  | Unfreeze "string option" nat
  | StartAppeal string string string
  | ViewAppeal nat string
  | SubmitAppeal nat string appeal_proposal_request
  | AcceptAppeal nat string
  | UseKey "string option" "string option"

definition answered :: "'a outcome \<times> auth_db \<Rightarrow> unit outcome \<times> auth_db" where
  "answered handled = map_prod (map_outcome (\<lambda>_. ())) id handled"

fun handle_auth :: "auth_settings \<Rightarrow> datetime \<Rightarrow> auth_request \<Rightarrow> auth_db \<Rightarrow> unit outcome \<times> auth_db" where
  "handle_auth cfg now (Signup body token ip) db = answered (signup cfg now body token ip db)"
| "handle_auth cfg now (RequestOtp phone email n1 n2) db = answered (request_otp cfg now phone email n1 n2 db)"
| "handle_auth cfg now (Login phone email c1 c2) db = answered (login cfg now phone email c1 c2 db)"
| "handle_auth cfg now (CreateKey h body raw) db = answered (create_api_key cfg now h body raw db)"
| "handle_auth cfg now (RevokeKey h i) db = answered (revoke_api_key cfg now h i db)"
| "handle_auth cfg now (DeleteAccount h) db = answered (post_account_deletion cfg now h db)"
| "handle_auth cfg now EraseDue db =
     (case complete_due_deletion_requests cfg now db of None \<Rightarrow> (ServerError, db) | Some (_, db') \<Rightarrow> (Returned (), db'))"
| "handle_auth cfg now (ProposeMerge h body) db = answered (create_account_merge_proposal cfg now h body db)"
| "handle_auth cfg now (AcceptMerge h i) db = answered (accept_account_merge_proposal cfg now h i db)"
| "handle_auth cfg now (ReviewMerge h i d why) db = answered (admin_review_account_merge_proposal cfg now h i d why db)"
| "handle_auth cfg now (AddRiskFlag h u code m) db = answered (admin_add_risk_flag cfg now h u code m db)"
| "handle_auth cfg now (Unfreeze h u) db = answered (admin_unfreeze_user cfg now h u db)"
| "handle_auth cfg now (StartAppeal phone email token) db = answered (start_frozen_appeal cfg now phone email token db)"
| "handle_auth cfg now (ViewAppeal i token) db = answered (get_frozen_appeal_status cfg now i token db)"
| "handle_auth cfg now (SubmitAppeal i token body) db = answered (submit_frozen_appeal_proposal cfg now i token body db)"
| "handle_auth cfg now (AcceptAppeal i token) db = answered (accept_frozen_appeal cfg now i token db)"
| "handle_auth cfg now (UseKey h ip) db = answered (verify_api_key cfg now h ip db)"

text \<open>Migrations enable rules and add new ones.\<close>

inductive auth_served :: "auth_settings \<Rightarrow> auth_db \<Rightarrow> auth_db \<Rightarrow> bool" for cfg where
  request: "auth_served cfg db (snd (handle_auth cfg now r db))"
| migrate: "rk_code ` set (ad_rules db) \<subseteq> rk_code ` set rules \<Longrightarrow> auth_served cfg db (db\<lparr>ad_rules := rules\<rparr>)"

definition auth_serves :: "auth_settings \<Rightarrow> auth_db \<Rightarrow> auth_db \<Rightarrow> bool" where
  "auth_serves cfg = (auth_served cfg)\<^sup>*\<^sup>*"

definition auth_reachable :: "auth_settings \<Rightarrow> auth_db \<Rightarrow> bool" where
  "auth_reachable cfg db \<longleftrightarrow> auth_serves cfg seeded_db db"

fun run_auth :: "auth_settings \<Rightarrow> (datetime \<times> auth_request) list \<Rightarrow> auth_db \<Rightarrow> auth_db" where
  "run_auth cfg [] db = db"
| "run_auth cfg ((now, r) # rs) db = run_auth cfg rs (snd (handle_auth cfg now r db))"

lemma run_auth_serves: "auth_serves cfg db (run_auth cfg rs db)"
proof (induction rs arbitrary: db)
  case Nil
  then show ?case by (simp add: auth_serves_def)
next
  case (Cons x rs)
  obtain now r where x: "x = (now, r)" by (cases x)
  have "auth_served cfg db (snd (handle_auth cfg now r db))" by (rule auth_served.request)
  then show ?case using Cons by (simp add: x auth_serves_def converse_rtranclp_into_rtranclp)
qed

lemma run_auth_reachable: "auth_reachable cfg (run_auth cfg rs seeded_db)"
  by (simp add: auth_reachable_def run_auth_serves)

lemma snd_answered [simp]: "snd (answered handled) = snd handled"
  by (simp add: answered_def)

context auth_order
begin

lemma handled:
  assumes "deletions_ok db"
  shows "R db (snd (handle_auth cfg now r db))"
proof (cases r)
  case EraseDue
  have "R db db'" if "complete_due_deletion_requests cfg now db = Some (ids, db')" for ids db'
    using erasing [OF _ that] assms by (simp add: deletions_ok_def)
  then show ?thesis using EraseDue by (auto simp: refl split: option.split)
next
  case (ProposeMerge h body)
  then show ?thesis
    by (auto simp: create_account_merge_proposal_def refl intro!: with_jwt answering proposing)
next
  case (AcceptMerge h i)
  then show ?thesis by (auto simp: accept_account_merge_proposal_def intro!: with_jwt answering accepting)
next
  case (ReviewMerge h i d why)
  then show ?thesis
    by (auto simp: admin_review_account_merge_proposal_def refl intro!: as_admin answering reviewing)
qed (simp_all add: signing_up otp logging_in creating_key revoking_key deleting flagging unfreezing starting_appeal
    viewing_appeal submitting_appeal accepting_appeal using_key)

end

section \<open>The invariant\<close>

definition auth_ok :: "auth_db \<Rightarrow> bool" where
  "auth_ok db \<longleftrightarrow> contacts_ok db \<and> keys_ok db \<and> merging_ok db \<and> deletions_ok db \<and> appeals_ok db"

lemma seeded_ok: "auth_ok seeded_db"
  by (simp add: auth_ok_def seeded_db_def contacts_ok_def keys_ok_def merging_ok_def proposals_ok_def merges_ok_def
      merge_edges_def account_get_def deletions_ok_def appeals_ok_def acyclic_def seeded_rules_def)

lemma core_migrate: "rk_code ` set (ad_rules db) \<subseteq> rk_code ` set rules \<Longrightarrow> same_core db (db\<lparr>ad_rules := rules\<rparr>)"
  by (simp add: same_core_def)

lemma served_ok: "auth_served cfg db db' \<Longrightarrow> auth_ok db \<Longrightarrow> auth_ok db'"
  by (induction rule: auth_served.induct)
    (auto dest!: core_migrate simp: auth_ok_def intro: keepsD [OF contacts.handled] keepsD [OF keys.handled] keepsD [OF merging.handled]
      keepsD [OF deletions.handled] keepsD [OF appeals.handled]
      keepsD [OF contacts.quiet] keepsD [OF keys.quiet] keepsD [OF merging.quiet] keepsD [OF deletions.quiet] keepsD [OF appeals.quiet])

lemma serves_ok: "auth_serves cfg db db' \<Longrightarrow> auth_ok db \<Longrightarrow> auth_ok db'"
  unfolding auth_serves_def by (induction rule: rtranclp_induct) (auto intro: served_ok)

lemma reachable_ok: "auth_reachable cfg db \<Longrightarrow> auth_ok db"
  unfolding auth_reachable_def using serves_ok seeded_ok by blast

lemma served_history: "auth_served cfg db db' \<Longrightarrow> auth_ok db \<Longrightarrow> history db db'"
  by (induction rule: auth_served.induct) (auto simp: auth_ok_def intro: history.handled history.quiet dest!: core_migrate)

lemma serves_history: "auth_serves cfg db db' \<Longrightarrow> auth_ok db \<Longrightarrow> history db db'"
  unfolding auth_serves_def
proof (induction rule: rtranclp_induct)
  case base
  show ?case by (rule history.refl)
next
  case (step db' db'')
  then have "auth_ok db'" using serves_ok by (simp add: auth_serves_def)
  with step show ?case using served_history history_trans by blast
qed

lemma serves_reachable: "auth_reachable cfg db \<Longrightarrow> auth_serves cfg db db' \<Longrightarrow> auth_reachable cfg db'"
  unfolding auth_reachable_def auth_serves_def by simp

end
