(* ===== verification/AuthProperties.thy ===== *)
theory AuthProperties
  imports AuthSystem
begin

text \<open>
  What the auth service promises in every database it can reach: who is still let in, what a merge and a
  deletion leave behind, and when a request can fail.
\<close>

section \<open>A run to evaluate\<close>

text \<open>Two people of one university sign up, all rules are enabled, and the first is flagged twice.\<close>

definition day1 :: datetime where
  "day1 = DateTime 2026 5 1 0"

definition adult :: "string \<Rightarrow> string \<Rightarrow> auth_request" where
  "adult phone email = Signup \<lparr>su_phone = phone, su_email = email, su_age = 30, su_guardian = None, su_consent_id = None,
     su_consent_token = None\<rparr> ''unused-unused-unused'' (Some ''101.6.1.7'')"

definition all_enabled :: "risk_rule list" where
  "all_enabled = map (rk_enabled_update (\<lambda>_. True)) seeded_rules"

definition key_body :: key_request where
  "key_body = \<lparr>kr_label = ''ci'', kr_description = None, kr_scope = [''optimize:write''], kr_expires = None, kr_days = Some 30\<rparr>"

definition two_people :: auth_db where
  "two_people = run_auth plain_settings
     [(day1, adult ''+8613800138000'' ''a@uni.example''), (day1, CreateKey (Some ''Bearer a'') key_body ''Q0123456789''),
      (day1, adult ''+8613800138001'' ''b@uni.example''), (day1, CreateKey (Some ''Bearer a1111'') key_body ''R0123456789'')]
     seeded_db"

definition flagged_twice :: auth_db where
  "flagged_twice = run_auth plain_settings
     [(day1, AddRiskFlag (Some ''secret'') 0 ''ip_24_share'' JNull), (day1, AddRiskFlag (Some ''secret'') 0 ''phone_reused'' JNull)]
     (two_people\<lparr>ad_rules := all_enabled\<rparr>)"

definition merge_body :: merge_request where
  "merge_body = \<lparr>mr_primary = 0, mr_duplicates = [4],
     mr_evidence = \<lparr>me_reason = ''both are mine'', me_contact = ''a@uni.example'', me_note = None, me_team = None\<rparr>\<rparr>"

definition proposed :: auth_db where
  "proposed = run_auth plain_settings [(day1, ProposeMerge (Some ''Bearer a'') merge_body)] flagged_twice"

definition merged :: auth_db where
  "merged = run_auth plain_settings [(day1, AcceptMerge (Some ''Bearer a'') 13)] proposed"

lemma flagged_run:
  "map ac_frozen (ad_accounts flagged_twice) = [True, False]" "map ak_revoked (ad_keys flagged_twice) = [None, None]"
  by code_simp+

lemma merged_run:
  "map mp_status (ad_proposals proposed) = [''auto_approved'']" "map mp_status (ad_proposals merged) = [''accepted'']"
  by code_simp+


lemma example_reachable:
  "auth_reachable plain_settings two_people" "auth_reachable plain_settings flagged_twice"
  "auth_reachable plain_settings proposed" "auth_reachable plain_settings merged"
  "auth_serves plain_settings proposed merged"
proof -
  show two: "auth_reachable plain_settings two_people" unfolding two_people_def by (rule run_auth_reachable)
  have rules: "ad_rules two_people = seeded_rules" by code_simp
  have "auth_served plain_settings two_people (two_people\<lparr>ad_rules := all_enabled\<rparr>)"
    by (rule auth_served.migrate) (simp add: rules all_enabled_def image_image)
  then have "auth_serves plain_settings two_people (two_people\<lparr>ad_rules := all_enabled\<rparr>)" by (simp add: auth_serves_def)
  with two have "auth_reachable plain_settings (two_people\<lparr>ad_rules := all_enabled\<rparr>)" by (rule serves_reachable)
  then show flagged: "auth_reachable plain_settings flagged_twice"
    unfolding flagged_twice_def using run_auth_serves by (rule serves_reachable)
  show p: "auth_reachable plain_settings proposed"
    unfolding proposed_def using run_auth_serves by (rule serves_reachable [OF flagged])
  show m: "auth_serves plain_settings proposed merged" unfolding merged_def by (rule run_auth_serves)
  show "auth_reachable plain_settings merged" by (rule serves_reachable [OF p m])
qed

section \<open>Who is let in\<close>

lemma accepted_key:
  assumes "verify_api_key cfg now h ip db = (Returned (u, i, scopes), db')"
  obtains k where "k \<in> set (ad_keys db)" "ak_revoked k = None" "ak_user k = u" "ak_id k = i" "ak_scope k = scopes"
proof -
  obtain full k where k: "find (key_accepted cfg now full) (ad_keys db) = Some k"
    and r: "ak_user k = u" "ak_id k = i" "ak_scope k = scopes"
    using assms by (auto simp: verify_api_key_def split: option.splits)
  from k have "k \<in> set (ad_keys db)" "key_accepted cfg now full k" by (auto simp: find_Some_iff)
  with r show thesis using that by (simp add: key_accepted_def)
qed

text \<open>
  C30. A retired account has no way in with a key. In every reachable database the solver accepts an API key only
  of an existing account that is neither deleted nor merged into another.
\<close>

theorem retired_accounts_have_no_key:
  assumes "auth_reachable cfg db" "verify_api_key cfg now h ip db = (Returned (u, i, scopes), db')"
  shows "\<exists>a. account_get u db = Some a \<and> ac_deleted a = None \<and> ac_merged_at a = None"
proof -
  obtain k where "k \<in> set (ad_keys db)" "ak_revoked k = None" "ak_user k = u" using accepted_key [OF assms(2)] by metis
  moreover have "keys_ok db" using reachable_ok [OF assms(1)] by (simp add: auth_ok_def)
  ultimately show ?thesis by (fastforce simp: keys_ok_def retired_def)
qed

lemma first_key_works:
  "fst (verify_api_key plain_settings day1 (Some ''Bearer sk-Q0123456789'') None flagged_twice) = Returned (0, 2, [''optimize:write''])"
  by code_simp

theorem retired_accounts_have_no_key_witness:
  "\<exists>a. account_get 0 flagged_twice = Some a \<and> ac_deleted a = None \<and> ac_merged_at a = None"
proof (rule retired_accounts_have_no_key [OF example_reachable(2)])
  let ?v = "verify_api_key plain_settings day1 (Some ''Bearer sk-Q0123456789'') None flagged_twice"
  show "?v = (Returned (0, 2, [''optimize:write'']), snd ?v)" by (rule prod_eqI) (simp_all only: first_key_works fst_conv snd_conv)
qed

text \<open>
  A freeze does not reach the keys: the flagged account above cannot log in any more, and its API key is
  still accepted.
\<close>

theorem frozen_account_keeps_its_key:
  "auth_reachable plain_settings flagged_twice \<and> map_option ac_frozen (account_get 0 flagged_twice) = Some True \<and>
   fst (request_otp plain_settings day1 ''+8613800138000'' ''a@uni.example'' 1 2 flagged_twice) = Problem frozen_auth_error \<and>
   fst (verify_api_key plain_settings day1 (Some ''Bearer sk-Q0123456789'') None flagged_twice) = Returned (0, 2, [''optimize:write''])"
proof -
  have "map_option ac_frozen (account_get 0 flagged_twice) = Some True" by code_simp
  moreover have "fst (request_otp plain_settings day1 ''+8613800138000'' ''a@uni.example'' 1 2 flagged_twice) = Problem frozen_auth_error"
    by code_simp
  ultimately show ?thesis using example_reachable(2) first_key_works by blast
qed

text \<open>
  A merged account that an admin unfreezes logs in again: the two codes are checked, the merge is not.
\<close>

definition unfrozen_duplicate :: auth_db where
  "unfrozen_duplicate = run_auth plain_settings
     [(day1, Unfreeze (Some ''secret'') 4), (day1, RequestOtp ''+8613800138001'' ''b@uni.example'' 123456 654321)] merged"

theorem merged_account_logs_in_again:
  "auth_reachable plain_settings unfrozen_duplicate \<and>
   map_option ac_merged_into (account_get 4 unfrozen_duplicate) = Some (Some 0) \<and>
   map_outcome sr_user (fst (login plain_settings day1 ''+8613800138001'' ''b@uni.example'' ''123456'' ''654321'' unfrozen_duplicate))
     = Returned 4"
proof -
  have "auth_reachable plain_settings unfrozen_duplicate"
    unfolding unfrozen_duplicate_def by (rule serves_reachable [OF example_reachable(4) run_auth_serves])
  moreover have "map_option ac_merged_into (account_get 4 unfrozen_duplicate) = Some (Some 0)" by code_simp
  moreover have "map_outcome sr_user (fst (login plain_settings day1 ''+8613800138001'' ''b@uni.example'' ''123456'' ''654321''
      unfrozen_duplicate)) = Returned 4" by code_simp
  ultimately show ?thesis by blast
qed

section \<open>Merges and proposals\<close>

text \<open>
  C31. Merging is final and goes one way. From every reachable database, whatever is requested afterwards, a
  merged account stays merged into the same account with the same date, and no chain of merges ever comes
  back to where it started.
\<close>

theorem merges_are_final:
  assumes "auth_reachable cfg db" "auth_serves cfg db db'"
  shows "acyclic (merge_edges db') \<and>
    (\<forall>i a. account_get i db = Some a \<and> ac_merged_at a \<noteq> None \<longrightarrow>
       (\<exists>a'. account_get i db' = Some a' \<and> ac_merged_into a' = ac_merged_into a \<and> ac_merged_at a' = ac_merged_at a))"
proof -
  have ok: "auth_ok db" "auth_ok db'" using assms reachable_ok serves_reachable by blast+
  then have "accounts_follow db db'"
    using serves_history [OF assms(2)] by (simp add: history_def auth_ok_def merging_ok_def)
  then have "\<exists>a'. account_get i db' = Some a' \<and> ac_merged_into a' = ac_merged_into a \<and> ac_merged_at a' = ac_merged_at a"
    if "account_get i db = Some a" "ac_merged_at a \<noteq> None" for i a
    using that unfolding accounts_follow_def account_follows_def by metis
  moreover have "acyclic (merge_edges db')" using ok(2) by (simp add: auth_ok_def merging_ok_def merges_ok_def)
  ultimately show ?thesis by blast
qed

theorem merges_are_final_witness:
  "\<exists>a. account_get 4 unfrozen_duplicate = Some a \<and> ac_merged_into a = Some 0 \<and> ac_merged_at a = Some day1"
proof -
  have "map_option (\<lambda>a. (ac_merged_into a, ac_merged_at a)) (account_get 4 merged) = Some (Some 0, Some day1)" by code_simp
  then obtain a where a: "account_get 4 merged = Some a" "ac_merged_into a = Some 0" "ac_merged_at a = Some day1" by auto
  have "auth_serves plain_settings merged unfrozen_duplicate" unfolding unfrozen_duplicate_def by (rule run_auth_serves)
  then show ?thesis using merges_are_final [OF example_reachable(4)] a by fastforce
qed

text \<open>
  C32. A merge proposal follows its machine. From every reachable database, whatever is requested afterwards, a
  proposal keeps its owner, its duplicates, its evidence, its review mode and its score, and its status
  moves only from pending review to approved or rejected and from an approval to accepted; one that was
  approved automatically had no team of three behind it and a score of at least 0.70.
\<close>

theorem proposals_follow_the_machine:
  assumes "auth_reachable cfg db" "auth_serves cfg db db'" "proposal_get i db = Some p"
  shows "\<exists>p'. proposal_get i db' = Some p' \<and> proposal_follows p p' \<and>
    (mp_status p = ''auto_approved'' \<longrightarrow>
       review_mode_of (mp_evidence p) = ''auto'' \<and> (\<exists>s. mp_score p = Some s \<and> 7/10 \<le> s))"
proof -
  have ok: "auth_ok db" using assms(1) by (rule reachable_ok)
  then have "proposals_follow db db'"
    using serves_history [OF assms(2)] by (simp add: history_def auth_ok_def merging_ok_def)
  then obtain p' where p': "proposal_get i db' = Some p'" "proposal_follows p p'"
    using assms(3) by (auto simp: proposals_follow_def)
  have "p \<in> set (ad_proposals db)" using assms(3) by (auto simp: proposal_get_def dest: row_get_SomeD)
  then have "proposal_ok p" using ok by (simp add: auth_ok_def merging_ok_def proposals_ok_def)
  then have "mp_status p = ''auto_approved'' \<longrightarrow>
       review_mode_of (mp_evidence p) = ''auto'' \<and> (\<exists>s. mp_score p = Some s \<and> 7/10 \<le> s)"
    by (auto simp: proposal_ok_def AUTO_APPROVE_THRESHOLD_def)
  with p' show ?thesis by blast
qed

theorem proposals_follow_the_machine_witness:
  "\<exists>p p'. proposal_get 13 proposed = Some p \<and> proposal_get 13 merged = Some p' \<and> proposal_follows p p'"
proof -
  have "proposal_get 13 proposed \<noteq> None" by code_simp
  then obtain p where p: "proposal_get 13 proposed = Some p" by blast
  then show ?thesis using proposals_follow_the_machine [OF example_reachable(3,5) p] by blast
qed

section \<open>Flags and freezing\<close>

definition flagged_once :: auth_db where
  "flagged_once = run_auth plain_settings [(day1, AddRiskFlag (Some ''secret'') 0 ''ip_24_share'' JNull)]
     (two_people\<lparr>ad_rules := all_enabled\<rparr>)"

definition second_flag :: "flag_response outcome \<times> auth_db" where
  "second_flag = admin_add_risk_flag plain_settings day1 (Some ''secret'') 0 ''phone_reused'' JNull flagged_once"

theorem two_rules_freeze_witness:
  "map_option ac_frozen (account_get 0 (snd second_flag)) = Some True \<and>
   account_get 4 (snd second_flag) = account_get 4 flagged_once"
proof -
  have "map_outcome fl_frozen (fst second_flag) = Returned True" by code_simp
  then obtain r where r: "fst second_flag = Returned r" "fl_frozen r" by (cases "fst second_flag") simp_all
  then have pair: "second_flag = (Returned r, snd second_flag)" by (metis prod.collapse)
  have run: "admin_add_risk_flag plain_settings day1 (Some ''secret'') 0 ''phone_reused'' JNull flagged_once
      = (Returned r, snd second_flag)" by (rule HOL.trans [OF second_flag_def [symmetric] pair])
  note accounts = two_rules_freeze [OF run]
  then have two: "2 \<le> card (tripped 0 (snd second_flag))" using r(2) by simp
  moreover have "account_get 0 flagged_once \<noteq> None" by code_simp
  ultimately show ?thesis using accounts by (cases "account_get 0 flagged_once"; cases "account_get 4 flagged_once") auto
qed

text \<open>
  As seeded, only one rule is enabled, and then no flag of an admin freezes anybody: the count asks for two
  distinct enabled rules.
\<close>

theorem one_enabled_rule_freezes_nobody:
  assumes "enabled_rule_codes db = [c]" "apply_flags_and_maybe_freeze now user fs db = (froze, db')"
  shows "\<not> froze \<and> account_get i db' = account_get i db"
proof -
  let ?db1 = "fold (add_flag user now) fs db"
  have rules: "ad_rules (fold (add_flag user now) gs db) = ad_rules db" for gs
    by (induction gs rule: rev_induct) (auto simp: add_flag_def split: prod.split)
  then have "enabled_rule_codes ?db1 = [c]" using assms(1) by (simp add: enabled_rule_codes_def)
  then have "tripped user ?db1 \<subseteq> {c}" by (auto simp: tripped_def)
  then have "card (tripped user ?db1) \<le> card {c}" by (intro card_mono) auto
  then have "length (distinct_enabled_triggers user ?db1) < FREEZE_THRESHOLD"
    by (simp add: length_triggers FREEZE_THRESHOLD_def)
  then show ?thesis using assms(2) by (auto simp: apply_flags_and_maybe_freeze_def)
qed

theorem one_enabled_rule_freezes_nobody_witness:
  "account_get 0 (snd (apply_flags_and_maybe_freeze day1 0 [(''ip_24_share'', ''rule'', JNull), (''phone_reused'', ''rule'', JNull)] two_people))
     = account_get 0 two_people"
proof -
  have one: "enabled_rule_codes two_people = [''ip_24_share'']" by code_simp
  show ?thesis by (rule conjunct2 [OF one_enabled_rule_freezes_nobody [OF one prod.collapse [symmetric]]])
qed

section \<open>Types of the tables\<close>

text \<open>
  C38. The tables stay well typed. In every reachable database no two accounts share an identifier, a phone or an
  email, every API key and every merge points to an account that exists, a merge has a target exactly when it has
  a date, and the status columns of proposals, appeals and deletion requests hold only their documented values.
\<close>

theorem auth_tables_stay_typed:
  assumes "auth_reachable cfg db"
  shows "distinct (map ac_id (ad_accounts db)) \<and> distinct (map ac_phone (ad_accounts db)) \<and>
    distinct (map ac_email (ad_accounts db)) \<and>
    (\<forall>k\<in>set (ad_keys db). account_get (ak_user k) db \<noteq> None) \<and>
    (\<forall>i a. account_get i db = Some a \<longrightarrow>
       (ac_merged_into a = None \<longleftrightarrow> ac_merged_at a = None) \<and>
       (\<forall>p. ac_merged_into a = Some p \<longrightarrow> account_get p db \<noteq> None)) \<and>
    (\<forall>p\<in>set (ad_proposals db).
       mp_status p \<in> {''pending_review'', ''approved'', ''rejected'', ''auto_approved'', ''accepted''}) \<and>
    (\<forall>a\<in>set (ad_appeals db). fa_status a \<in> {''started'', ''proposal_submitted'', ''accepted'', ''expired''}) \<and>
    (\<forall>r\<in>set (ad_deletions db). dr_status r \<in> {''scheduled'', ''completed''})"
proof -
  have ok: "contacts_ok db" "keys_ok db" "proposals_ok db" "merges_ok db" "deletions_ok db" "appeals_ok db"
    using reachable_ok [OF assms] by (simp_all add: auth_ok_def merging_ok_def)
  have "\<forall>k\<in>set (ad_keys db). account_get (ak_user k) db \<noteq> None" using ok(2) by (fastforce simp: keys_ok_def)
  moreover have "\<forall>p\<in>set (ad_proposals db).
       mp_status p \<in> {''pending_review'', ''approved'', ''rejected'', ''auto_approved'', ''accepted''}"
    using ok(3) by (simp add: proposals_ok_def proposal_ok_def)
  moreover have "\<forall>r\<in>set (ad_deletions db). dr_status r \<in> {''scheduled'', ''completed''}"
    using ok(5) by (fastforce simp: deletions_ok_def deletion_ok_def)
  moreover have "\<forall>a\<in>set (ad_appeals db). fa_status a \<in> {''started'', ''proposal_submitted'', ''accepted'', ''expired''}"
    using ok(6) by (simp add: appeals_ok_def appeal_ok_def)
  ultimately show ?thesis using ok(1,4) unfolding contacts_ok_def merges_ok_def by blast
qed

theorem auth_tables_stay_typed_witness: "distinct (map ac_phone (ad_accounts merged)) \<and> length (ad_accounts merged) = 2"
proof -
  have "length (ad_accounts merged) = 2" by code_simp
  then show ?thesis using auth_tables_stay_typed [OF example_reachable(4)] by blast
qed

end
