(* ===== verification/AuthErrors.thy ===== *)
theory AuthErrors
  imports AuthProperties
begin

text \<open>The server errors of the modelled requests, and what the deletion worker does.\<close>

section \<open>Answers that are no server error\<close>

definition no_crash :: "'a outcome \<times> auth_db \<Rightarrow> bool" where
  "no_crash handled \<longleftrightarrow> fst handled \<noteq> ServerError"

lemma map_outcome_crash [simp]: "map_outcome f x = ServerError \<longleftrightarrow> x = ServerError"
  by (cases x) simp_all

lemma answered_crash: "fst (answered handled) = ServerError \<longleftrightarrow> \<not> no_crash handled"
  by (simp add: answered_def no_crash_def)

lemma proposal_ok_response: "proposal_ok p \<Longrightarrow> proposal_response_ok p"
  by (auto simp: proposal_ok_def proposal_response_ok_def review_mode_of_def)

lemma no_crash_jwt: "(\<And>u. no_crash (k u)) \<Longrightarrow> no_crash (with_jwt cfg now auth db k)"
  by (simp add: with_jwt_def no_crash_def split: option.split)

lemma no_crash_active: "(\<And>u. no_crash (k u)) \<Longrightarrow> no_crash (with_active_user cfg now auth db k)"
  unfolding with_active_user_def by (rule no_crash_jwt) (auto simp: no_crash_def split: option.split)

lemma no_crash_admin: "no_crash handled \<Longrightarrow> no_crash (as_admin cfg header db handled)"
  by (simp add: as_admin_def no_crash_def split: option.split)

lemma no_crash_verified: "no_crash (create_verified_user_signup cfg now body ip db)"
  by (simp add: create_verified_user_signup_def no_crash_def Let_def)

lemma no_crash_signup: "no_crash (signup cfg now raw token ip db)"
proof (cases "validate_signup raw")
  case None
  then show ?thesis by (simp add: signup_def no_crash_def)
next
  case (Some body)
  then have minor: "su_guardian body \<noteq> None" if "14 \<le> su_age body" "su_age body < 18"
    using that by (auto simp: validate_signup_def split: if_splits)
  have "no_crash (complete_guardian_confirmed_signup cfg now body ip db)"
    if "su_guardian body \<noteq> None" "given (su_consent_token body)" "su_consent_id body \<noteq> None"
    using that no_crash_verified [of cfg now body ip db]
    by (auto simp: complete_guardian_confirmed_signup_def no_crash_def split: option.split prod.split outcome.split)
  moreover have "no_crash (create_or_refresh_guardian_consent cfg now body token db)" if "su_guardian body \<noteq> None"
    using that by (auto simp: create_or_refresh_guardian_consent_def no_crash_def Let_def split: option.split)
  ultimately show ?thesis
    using minor no_crash_verified [of cfg now body ip db] by (auto simp: signup_def Some no_crash_def)
qed

lemma answering_ok:
  "no_crash handled \<Longrightarrow> (\<And>p. fst handled = Returned p \<Longrightarrow> proposal_response_ok p) \<Longrightarrow> no_crash (answer_proposal handled)"
  by (cases handled) (auto simp: answer_proposal_def no_crash_def split: outcome.split)

lemma create_proposal_ok:
  "no_crash (create_merge_proposal cfg now u body db)"
  "fst (create_merge_proposal cfg now u body db) = Returned p \<Longrightarrow> proposal_response_ok p"
  by (auto simp: create_merge_proposal_def no_crash_def Let_def proposal_response_ok_def review_mode_of_def
      split: option.splits sum.splits if_splits)

lemma accept_proposal_ok:
  assumes "proposals_ok db"
  shows "no_crash (accept_merge_proposal now u i db)"
    and "fst (accept_merge_proposal now u i db) = Returned p \<Longrightarrow> proposal_response_ok p"
proof -
  show "no_crash (accept_merge_proposal now u i db)"
    by (simp add: accept_merge_proposal_def no_crash_def Let_def split: option.split sum.split)
  assume r: "fst (accept_merge_proposal now u i db) = Returned p"
  then obtain q where q: "find (\<lambda>p. mp_id p = i \<and> mp_requester p = u) (ad_proposals db) = Some q"
    and p: "p = q \<or> p = q\<lparr>mp_status := ''accepted'', mp_accepted := Some now, mp_updated := now\<rparr>"
    by (auto simp: accept_merge_proposal_def Let_def split: option.splits sum.splits if_splits)
  from q have "q \<in> set (ad_proposals db)" by (auto simp: find_Some_iff)
  then have "proposal_response_ok q" using assms proposal_ok_response by (simp add: proposals_ok_def)
  with p show "proposal_response_ok p" by (auto simp: proposal_response_ok_def)
qed

lemma review_proposal_ok:
  assumes "proposals_ok db"
  shows "no_crash (review_merge_proposal now i d why by' db)"
    and "fst (review_merge_proposal now i d why by' db) = Returned p \<Longrightarrow> proposal_response_ok p"
proof -
  show "no_crash (review_merge_proposal now i d why by' db)"
    by (simp add: review_merge_proposal_def no_crash_def Let_def split: option.split)
  assume r: "fst (review_merge_proposal now i d why by' db) = Returned p"
  then obtain q where q: "proposal_get i db = Some q" and p: "mp_mode p = mp_mode q" "mp_status p \<in> {''approved'', ''rejected''}"
    by (auto simp: review_merge_proposal_def Let_def split: option.splits if_splits)
  from q have "q \<in> set (ad_proposals db)" by (auto simp: proposal_get_def dest: row_get_SomeD)
  then have "proposal_response_ok q" using assms proposal_ok_response by (simp add: proposals_ok_def)
  with p show "proposal_response_ok p" by (auto simp: proposal_response_ok_def)
qed

lemma no_crash_fetch:
  assumes "proposals_ok db"
  shows "fetch_proposal i db = Returned (Option.bind i (\<lambda>i. proposal_get i db))"
proof -
  have "proposal_response_ok p" if "proposal_get i db = Some p" for i p
    using that assms proposal_ok_response by (auto simp: proposals_ok_def proposal_get_def dest: row_get_SomeD)
  then show ?thesis by (auto simp: fetch_proposal_def bind_eq_Some_conv split: option.split)
qed

lemma no_crash_appeal: "(\<And>a. lookup_appeal_by_token cfg i token db = Some a \<Longrightarrow> no_crash (k a)) \<Longrightarrow> no_crash (with_appeal cfg now i token db k)"
  by (auto simp: with_appeal_def load_appeal_def no_crash_def split: option.splits sum.splits if_splits)

lemma lookup_appeal_in: "lookup_appeal_by_token cfg i token db = Some a \<Longrightarrow> appeal_get i db = Some a \<and> a \<in> set (ad_appeals db)"
  by (auto simp: lookup_appeal_by_token_def appeal_get_def dest: row_get_SomeD split: option.splits if_splits)

lemma no_crash_start:
  assumes "proposals_ok db" "\<not> list_ex (\<lambda>a. fa_hash a = as_appeal_hash cfg token) (ad_appeals db)"
  shows "no_crash (start_frozen_appeal cfg now phone email token db)"
proof -
  have "proposals_ok (db\<lparr>ad_appeals := as, ad_next := Suc (ad_next db)\<rparr>)" for as
    using assms(1) by (rule proposals_same) simp_all
  then show ?thesis
    using assms(2) by (simp add: start_frozen_appeal_def no_crash_def Let_def no_crash_fetch split: option.split)
qed

lemma no_crash_view:
  assumes "proposals_ok db" "appeals_ok db"
  shows "no_crash (get_frozen_appeal_status cfg now i token db)"
  unfolding get_frozen_appeal_status_def
  by (rule no_crash_appeal)
    (use assms in \<open>auto simp: no_crash_def no_crash_fetch appeals_ok_def appeal_ok_def appeal_status_def
       dest!: lookup_appeal_in split: option.split\<close>)

lemma no_crash_submit:
  assumes "\<And>a. appeal_get i db = Some a \<Longrightarrow> fa_user a \<notin> set (aq_duplicates body)"
  shows "no_crash (submit_frozen_appeal_proposal cfg now i token body db)"
proof (cases "appeal_proposal_ok body")
  case False
  then show ?thesis by (simp add: submit_frozen_appeal_proposal_def no_crash_def)
next
  case ok: True
  have good: "proposal_response_ok p" if "create_merge_proposal cfg now u request db = (Returned p, db1)" for u request p db1
    using create_proposal_ok(2) [of cfg now u request db p] that by simp
  have fine: False if "create_merge_proposal cfg now u request db = (ServerError, db1)" for u request db1
    using create_proposal_ok(1) [of cfg now u request db] that by (auto simp: no_crash_def)
  have request: "merge_request_ok \<lparr>mr_primary = ac_id u, mr_duplicates = aq_duplicates body, mr_evidence = aq_evidence body\<rparr>"
    if "lookup_appeal_by_token cfg i token db = Some a" "account_get (fa_user a) db = Some u" for a u
    using ok assms lookup_appeal_in [OF that(1)] account_get_id [OF that(2)]
    by (auto simp: merge_request_ok_def appeal_proposal_ok_def)
  show ?thesis unfolding submit_frozen_appeal_proposal_def 
    by (simp add: ok, rule no_crash_appeal)
      (auto simp: no_crash_def Let_def request dest: good fine split: option.split outcome.split prod.split)
qed

lemma no_crash_accept:
  assumes "proposals_ok db"
  shows "no_crash (accept_frozen_appeal cfg now i token db)"
proof -
  have good: "proposal_response_ok p" if "accept_merge_proposal now u j db = (Returned p, db1)" for u j p db1
    using accept_proposal_ok(2) [OF assms, of now u j p] that by simp
  have fine: False if "accept_merge_proposal now u j db = (ServerError, db1)" for u j db1
    using accept_proposal_ok(1) [OF assms, of now u j] that by (auto simp: no_crash_def)
  show ?thesis unfolding accept_frozen_appeal_def
    by (rule no_crash_appeal)
      (auto simp: no_crash_def Let_def dest: good fine split: option.split outcome.split prod.split)
qed

lemma no_crash_key:
  assumes "appeals_ok db"
  shows "no_crash (verify_api_key cfg now h ip db)"
  using assms by (auto simp: verify_api_key_def no_crash_def record_api_key_use_def appeals_ok_def Let_def split: option.split)

text \<open>
  The server errors the model has. Beside the deletion worker, a request of a reachable database is answered with
  one only when a drawn tracking token repeats one in the table, or when the owner of an appeal names the own
  account among its duplicates. This is a statement about the modelled errors: the texts of the model hold no
  NUL character, which PostgreSQL refuses, and its digits are ASCII.
\<close>

theorem modelled_server_errors:
  assumes "auth_reachable cfg db" "fst (handle_auth cfg now r db) = ServerError" "r \<noteq> EraseDue"
  shows "(\<exists>phone email token. r = StartAppeal phone email token \<and>
            list_ex (\<lambda>a. fa_hash a = as_appeal_hash cfg token) (ad_appeals db)) \<or>
    (\<exists>i token body a. r = SubmitAppeal i token body \<and> appeal_get i db = Some a \<and> fa_user a \<in> set (aq_duplicates body))"
proof -
  have ok: "proposals_ok db" "appeals_ok db" using reachable_ok [OF assms(1)] by (auto simp: auth_ok_def merging_ok_def)
  have crash: "\<not> no_crash handled" if "handle_auth cfg now r db = answered handled" for handled :: "'a outcome \<times> auth_db"
    using assms(2) that by (simp add: answered_crash)
  show ?thesis
  proof (cases r)
    case (Signup b t ip)
    then show ?thesis using assms(2) no_crash_signup by (simp add: answered_crash)
  next
    case (RequestOtp p e n1 n2)
    then show ?thesis using assms(2) by (simp add: answered_crash no_crash_def request_otp_def Let_def split: option.splits if_splits)
  next
    case (Login p e c1 c2)
    then show ?thesis using assms(2) by (simp add: answered_crash no_crash_def login_def split: option.splits if_splits)
  next
    case (CreateKey h b raw)
    have "no_crash (create_api_key cfg now h b raw db)"
      by (auto simp: create_api_key_def no_crash_def Let_def generate_api_key_def split: option.split
          intro!: no_crash_active [unfolded no_crash_def])
    then show ?thesis using assms(2) CreateKey by (simp add: answered_crash)
  next
    case (RevokeKey h i)
    have "no_crash (revoke_api_key cfg now h i db)" unfolding revoke_api_key_def
      by (intro no_crash_active) (simp add: no_crash_def)
    then show ?thesis using assms(2) RevokeKey by (simp add: answered_crash)
  next
    case (DeleteAccount h)
    have "no_crash (post_account_deletion cfg now h db)" unfolding post_account_deletion_def
      by (intro no_crash_jwt) (auto simp: no_crash_def split: option.split)
    then show ?thesis using assms(2) DeleteAccount by (simp add: answered_crash)
  next
    case EraseDue
    then show ?thesis using assms(3) by simp
  next
    case (ProposeMerge h b)
    have "no_crash (create_account_merge_proposal cfg now h b db)" unfolding create_account_merge_proposal_def
      by (auto intro!: no_crash_jwt answering_ok create_proposal_ok) (simp add: no_crash_def)
    then show ?thesis using assms(2) ProposeMerge by (simp add: answered_crash)
  next
    case (AcceptMerge h i)
    have "no_crash (accept_account_merge_proposal cfg now h i db)" unfolding accept_account_merge_proposal_def
      by (intro no_crash_jwt answering_ok accept_proposal_ok [OF ok(1)])
    then show ?thesis using assms(2) AcceptMerge by (simp add: answered_crash)
  next
    case (ReviewMerge h i d why)
    have "no_crash (answer_proposal (review_merge_proposal now i d why ''admin-secret'' db))"
      by (rule answering_ok) (auto intro: review_proposal_ok [OF ok(1)])
    then have "no_crash (as_admin cfg h db (answer_proposal (review_merge_proposal now i d why ''admin-secret'' db)))"
      by (rule no_crash_admin)
    then have "no_crash (admin_review_account_merge_proposal cfg now h i d why db)"
      by (simp add: admin_review_account_merge_proposal_def no_crash_def)
    then show ?thesis using assms(2) ReviewMerge by (simp add: answered_crash)
  next
    case (AddRiskFlag h u code m)
    have "no_crash (admin_add_risk_flag cfg now h u code m db)" unfolding admin_add_risk_flag_def
      by (intro no_crash_admin) (auto simp: no_crash_def Let_def split: prod.split)
    then show ?thesis using assms(2) AddRiskFlag by (simp add: answered_crash)
  next
    case (Unfreeze h u)
    have "no_crash (admin_unfreeze_user cfg now h u db)" unfolding admin_unfreeze_user_def
      by (intro no_crash_admin) (simp add: no_crash_def)
    then show ?thesis using assms(2) Unfreeze by (simp add: answered_crash)
  next
    case (StartAppeal p e t)
    then show ?thesis using assms(2) no_crash_start [OF ok(1), of cfg t now p e] by (auto simp: answered_crash)
  next
    case (ViewAppeal i t)
    then show ?thesis using assms(2) no_crash_view [OF ok] by (simp add: answered_crash)
  next
    case (SubmitAppeal i t b)
    then show ?thesis using assms(2) no_crash_submit [of i db b cfg now t] by (auto simp: answered_crash)
  next
    case (AcceptAppeal i t)
    then show ?thesis using assms(2) no_crash_accept [OF ok(1)] by (simp add: answered_crash)
  next
    case (UseKey h ip)
    then show ?thesis using assms(2) no_crash_key [OF ok(2)] by (simp add: answered_crash)
  qed
qed


definition appealed :: auth_db where
  "appealed = run_auth plain_settings [(day1, StartAppeal ''+8613800138000'' ''a@uni.example'' ''0123456789abcdef'')] flagged_twice"

definition own_account :: appeal_proposal_request where
  "own_account = \<lparr>aq_duplicates = [0],
     aq_evidence = \<lparr>me_reason = ''both are mine'', me_contact = ''a@uni.example'', me_note = None, me_team = None\<rparr>\<rparr>"

lemma own_account_crashes:
  "fst (handle_auth plain_settings day1 (SubmitAppeal 13 ''0123456789abcdef'' own_account) appealed) = ServerError"
  by code_simp

lemma appealed_reachable: "auth_reachable plain_settings appealed"
  unfolding appealed_def by (rule serves_reachable [OF example_reachable(2) run_auth_serves])

theorem modelled_server_errors_witness:
  "\<exists>a. appeal_get 13 appealed = Some a \<and> fa_user a \<in> set (aq_duplicates own_account)"
  using modelled_server_errors [OF appealed_reachable own_account_crashes] by auto

section \<open>Deletion\<close>

lemma complete_all_after:
  assumes "complete_all cfg now rs db = Some db'" "distinct (map dr_snapshot rs)"
  shows "account_get i db' = (if i \<in> dr_snapshot ` set rs then map_option (erase_account cfg now) (account_get i db) else account_get i db)
    \<and> ad_keys db' = filter (\<lambda>k. ak_user k \<notin> dr_snapshot ` set rs) (ad_keys db)
    \<and> ad_otps db' = filter (\<lambda>o'. ot_user o' \<notin> dr_snapshot ` set rs) (ad_otps db)
    \<and> ad_consents db' = ad_consents db"
  using assms
proof (induction rs arbitrary: db)
  case (Cons r rs)
  then obtain db1 where db1: "complete_deletion cfg now r db = Some db1" and rest: "complete_all cfg now rs db1 = Some db'"
    by (auto simp: bind_eq_Some_conv)
  note after = complete_deletion_after [OF db1]
  have ih: "account_get i db' = (if i \<in> dr_snapshot ` set rs then map_option (erase_account cfg now) (account_get i db1) else account_get i db1)
    \<and> ad_keys db' = filter (\<lambda>k. ak_user k \<notin> dr_snapshot ` set rs) (ad_keys db1)
    \<and> ad_otps db' = filter (\<lambda>o'. ot_user o' \<notin> dr_snapshot ` set rs) (ad_otps db1)
    \<and> ad_consents db' = ad_consents db1"
    using Cons.IH [OF rest] Cons.prems(2) by simp
  have "ad_consents db1 = ad_consents db"
    using db1 by (auto simp: complete_deletion_def Let_def add_audit_def update_accounts_def split: if_splits)
  moreover have apart: "dr_snapshot r \<notin> dr_snapshot ` set rs" using Cons.prems(2) by simp
  ultimately show ?case using ih after(1) [of i]
    by (cases "account_get i db") (auto simp: after(3,4) conj_commute intro!: filter_cong)
qed simp

definition completed_at :: "datetime \<Rightarrow> deletion_request \<Rightarrow> deletion_request" where
  "completed_at now r = r\<lparr>dr_user := None, dr_status := ''completed'', dr_completed := Some now\<rparr>"

lemma complete_all_requests:
  assumes "complete_all cfg now rs db = Some db'" "set rs \<subseteq> set (ad_deletions db)" "distinct (map dr_snapshot rs)"
    and "distinct (map dr_snapshot (ad_deletions db))"
  shows "ad_deletions db' = map (\<lambda>r. if r \<in> set rs then completed_at now r else r) (ad_deletions db)"
  using assms
proof (induction rs arbitrary: db)
  case (Cons r rs)
  then obtain db1 where db1: "complete_deletion cfg now r db = Some db1" and rest: "complete_all cfg now rs db1 = Some db'"
    by (auto simp: bind_eq_Some_conv)
  have one: "ad_deletions db1 = map (\<lambda>x. if dr_snapshot x = dr_snapshot r then completed_at now r else x) (ad_deletions db)"
    unfolding complete_deletion_after(9) [OF db1] by (simp add: row_put_def completed_at_def)
  have same: "x = r" if "x \<in> set (ad_deletions db)" "dr_snapshot x = dr_snapshot r" for x
    using that Cons.prems(2,4) by (auto simp: distinct_map inj_on_def)
  have mine: "dr_snapshot (completed_at now x) = dr_snapshot x" for x by (simp add: completed_at_def)
  have apart: "x \<noteq> r" "dr_snapshot x \<noteq> dr_snapshot r" if "x \<in> set rs" for x
    using that Cons.prems(3) by (auto simp: rev_image_eqI)
  have "set rs \<subseteq> set (ad_deletions db1)" using Cons.prems(2) apart by (force simp: one)
  moreover have "map dr_snapshot (ad_deletions db1) = map dr_snapshot (ad_deletions db)" by (auto simp: one mine)
  ultimately have "ad_deletions db' = map (\<lambda>x. if x \<in> set rs then completed_at now x else x) (ad_deletions db1)"
    using Cons.prems(3,4) by (intro Cons.IH [OF rest]) simp_all
  also have "\<dots> = map (\<lambda>x. if x \<in> set (r # rs) then completed_at now x else x) (ad_deletions db)"
    using same apart mine by (auto simp: one)
  finally show ?case .
qed simp

definition erased :: "auth_settings \<Rightarrow> datetime \<Rightarrow> account \<Rightarrow> bool" where
  "erased cfg now a \<longleftrightarrow>
     ac_phone a = ''deleted-'' @ hex_prefix cfg (ac_id a) \<and> ac_email a = ''deleted-'' @ hex_prefix cfg (ac_id a) @ ''@invalid.local'' \<and>
     \<not> ac_edu a \<and> \<not> ac_verified a \<and> ac_risk a = 0 \<and> \<not> ac_frozen a \<and> ac_deleted a = Some now"

text \<open>
  C36. Deletion waits, and then it is done once. In every reachable database, a run of the worker completes exactly
  the scheduled requests made at least seven days before: those and no others are marked completed at that
  time and lose their link to the user. The account row of each holds no phone, mail address or entitlement
  any more, its keys and codes are gone, and no other account, key or code changes. The guardian consents
  are left as they are, with the phone and the address of the minor in them.
\<close>

theorem deletion_waits_and_erases:
  assumes "auth_reachable cfg db" "complete_due_deletion_requests cfg now db = Some (ids, db')"
  shows "set ids = dr_snapshot ` {r \<in> set (ad_deletions db). dr_status r = ''scheduled'' \<and> dt_plus (dr_requested r) (days 7) \<le> now} \<and>
    ad_deletions db' = map (\<lambda>r. if dr_status r = ''scheduled'' \<and> dt_plus (dr_requested r) (days 7) \<le> now
      then r\<lparr>dr_user := None, dr_status := ''completed'', dr_completed := Some now\<rparr> else r) (ad_deletions db) \<and>
    (\<forall>i\<in>set ids. (\<exists>a. account_get i db' = Some a \<and> erased cfg now a) \<and>
       (\<forall>k\<in>set (ad_keys db'). ak_user k \<noteq> i) \<and> (\<forall>o'\<in>set (ad_otps db'). ot_user o' \<noteq> i)) \<and>
    (\<forall>i. i \<notin> set ids \<longrightarrow> account_get i db' = account_get i db) \<and>
    filter (\<lambda>k. ak_user k \<notin> set ids) (ad_keys db) = ad_keys db' \<and>
    filter (\<lambda>o'. ot_user o' \<notin> set ids) (ad_otps db) = ad_otps db' \<and>
    ad_consents db' = ad_consents db"
proof -
  have ok: "deletions_ok db" using reachable_ok [OF assms(1)] by (simp add: auth_ok_def)
  have ids: "ids = map dr_snapshot (due_requests now db)"
    and all: "complete_all cfg now (due_requests now db) db = Some db'"
    using assms(2) by (auto simp: complete_due_deletion_requests_def)
  have keys: "distinct (map dr_snapshot (due_requests now db))" "distinct (map dr_snapshot (ad_deletions db))"
    using ok by (simp_all add: deletions_ok_def due_requests_def distinct_map_filter)
  note after = complete_all_after [OF all keys(1)]
  have "set (due_requests now db) \<subseteq> set (ad_deletions db)" by (auto simp: due_requests_def)
  note marked = complete_all_requests [OF all this keys]
  have hard: "dr_hard_at r = dt_plus (dr_requested r) (days 7)" "deleted (dr_snapshot r) db" if "r \<in> set (ad_deletions db)" for r
    using ok that by (auto simp: deletions_ok_def deletion_ok_def)
  then have "set ids = dr_snapshot ` {r \<in> set (ad_deletions db). dr_status r = ''scheduled'' \<and> dt_plus (dr_requested r) (days 7) \<le> now}"
    by (auto simp: ids due_requests_def)
  moreover have "\<exists>a. account_get i db' = Some a \<and> erased cfg now a" if i: "i \<in> set ids" for i
  proof -
    obtain r where "r \<in> set (ad_deletions db)" "i = dr_snapshot r" using i by (auto simp: ids due_requests_def)
    then obtain a where "account_get i db = Some a" using hard(2) by (auto simp: deleted_def)
    then show ?thesis using after [of i] i by (auto simp: ids erased_def erase_account_def)
  qed
  moreover have "ad_deletions db' = map (\<lambda>r. if dr_status r = ''scheduled'' \<and> dt_plus (dr_requested r) (days 7) \<le> now
      then r\<lparr>dr_user := None, dr_status := ''completed'', dr_completed := Some now\<rparr> else r) (ad_deletions db)"
    unfolding marked using hard(1) by (auto simp: due_requests_def completed_at_def)
  ultimately show ?thesis using after by (auto simp: ids)
qed

definition deletion_due :: auth_db where
  "deletion_due = run_auth plain_settings [(day1, DeleteAccount (Some ''Bearer a''))] two_people"

lemma deletion_due_run:
  "map_option fst (complete_due_deletion_requests plain_settings (DateTime 2026 5 8 0) deletion_due) = Some [0]"
  "map_option fst (complete_due_deletion_requests plain_settings (DateTime 2026 5 7 0) deletion_due) = Some []"
  by code_simp+

theorem deletion_waits_and_erases_witness:
  "\<exists>a db'. complete_due_deletion_requests plain_settings (DateTime 2026 5 8 0) deletion_due = Some ([0], db') \<and>
     account_get 0 db' = Some a \<and> erased plain_settings (DateTime 2026 5 8 0) a \<and>
     map dr_status (ad_deletions db') = [''completed'']"
proof -
  have reach: "auth_reachable plain_settings deletion_due"
    unfolding deletion_due_def by (rule serves_reachable [OF example_reachable(1) run_auth_serves])
  obtain db' where run: "complete_due_deletion_requests plain_settings (DateTime 2026 5 8 0) deletion_due = Some ([0], db')"
    using deletion_due_run(1) by (auto simp: map_option_case split: option.splits)
  note facts = deletion_waits_and_erases [OF reach run]
  have "map (\<lambda>r. (dr_status r, dt_plus (dr_requested r) (days 7) \<le> DateTime 2026 5 8 0)) (ad_deletions deletion_due) = [(''scheduled'', True)]"
    by code_simp
  then have "map dr_status (ad_deletions db') = [''completed'']" using facts by (auto simp: map_eq_Cons_conv)
  then show ?thesis using facts run by auto
qed

end
