(* ===== verification/AuthLoginProperties.thy ===== *)
theory AuthLoginProperties
  imports ApiKeyAuth
begin

text \<open>
  What signing up, one-time codes and API keys guarantee: consent is used once and only by the person it
  was given for, a pair of codes logs in once, and a created key authenticates its owner.
\<close>

section \<open>Codes\<close>

lemma generate_otp_ok:
  assumes "0 \<le> n" "n < 1000000"
  shows "otp_text_ok (generate_otp n)"
proof -
  have len: "length (show_int n) \<le> 6" using length_show_int [of n 6] assms(2) by simp
  have "all_digits (replicate k CHR ''0'')" for k by (simp add: all_digits_def list_all_iff is_digit_def code_of_def)
  then show ?thesis using len show_int_value [OF assms(1)]
    by (simp add: otp_text_ok_def generate_otp_def length_pad_zeros pad_zeros_def all_digits_def)
qed

lemma newest_single [simp]: "newest created [r] = Some r"
  by (simp add: newest_def)

lemma newest_None [simp]: "newest created [] = None"
  by (simp add: newest_def)

lemma invalidated_none: "filter (live_otp t u f) (ad_otps (invalidate_unused_otps now u db)) = []"
proof -
  have "\<not> live_otp t u f (if ot_user x = u \<and> ot_used x = None then x\<lparr>ot_used := Some now\<rparr> else x)" for x
    by (simp add: live_otp_def)
  then show ?thesis by (simp add: invalidate_unused_otps_def filter_map comp_def)
qed

lemma verify_invalidated [simp]: "\<not> verify_otp t u f c (invalidate_unused_otps now u db)"
  by (simp add: verify_otp_def invalidated_none)

lemma verify_audit [simp]: "verify_otp t u f c (add_audit a b d e g h i db) = verify_otp t u f c db"
  by (simp add: verify_otp_def add_audit_def)

lemma lookup_same [simp]:
  "lookup_user phone email (add_audit a b d e g h i db) = lookup_user phone email db"
  "lookup_user phone email (invalidate_unused_otps now u db) = lookup_user phone email db"
  "lookup_user phone email (add_otp u f c x t db) = lookup_user phone email db"
  by (simp_all add: lookup_user_def add_audit_def invalidate_unused_otps_def add_otp_def)

lemma verify_fresh:
  "verify_otp t u ''phone'' c (add_otp u ''email'' c2 x2 now (add_otp u ''phone'' c1 x1 now (invalidate_unused_otps now u db)))
     \<longleftrightarrow> t < x1 \<and> c1 = c"
  "verify_otp t u ''email'' c (add_otp u ''email'' c2 x2 now (add_otp u ''phone'' c1 x1 now (invalidate_unused_otps now u db)))
     \<longleftrightarrow> t < x2 \<and> c2 = c"
  by (simp_all add: verify_otp_def add_otp_def invalidated_none) (simp_all add: live_otp_def)

text \<open>
  C33. A pair of codes logs in once. After codes were sent, until they expire the login succeeds with exactly
  the two codes that were drawn, as the account they were sent to; and once it has succeeded, no login of
  that account succeeds with any codes until new ones are sent.
\<close>

theorem codes_log_in_once:
  assumes "request_otp cfg now phone email n1 n2 db = (Returned sent, db1)"
    "0 \<le> n1" "n1 < 1000000" "0 \<le> n2" "n2 < 1000000" "t < dt_plus now (seconds (as_otp_ttl cfg))"
  shows "\<exists>a r db2. lookup_user phone email db = Some a \<and> \<not> ac_frozen a \<and> ac_deleted a = None \<and>
    login cfg t phone email (generate_otp n1) (generate_otp n2) db1 = (Returned r, db2) \<and> sr_user r = ac_id a \<and>
    (\<forall>d1 d2. is_returned (fst (login cfg t phone email d1 d2 db1)) \<longrightarrow> d1 = generate_otp n1 \<and> d2 = generate_otp n2) \<and>
    (\<forall>t' d1 d2. \<not> is_returned (fst (login cfg t' phone email d1 d2 db2)))"
proof -
  obtain a where phone: "phone_ok phone" and a: "lookup_user phone email db = Some a" "ac_deleted a = None" "\<not> ac_frozen a"
    and db1: "db1 = add_otp (ac_id a) ''email'' (generate_otp n2) (dt_plus now (seconds (as_otp_ttl cfg))) now
        (add_otp (ac_id a) ''phone'' (generate_otp n1) (dt_plus now (seconds (as_otp_ttl cfg))) now
          (invalidate_unused_otps now (ac_id a) db))"
    using assms(1) by (auto simp: request_otp_def Let_def split: option.splits if_splits)
  let ?c1 = "generate_otp n1" and ?c2 = "generate_otp n2"
  let ?db2 = "add_audit (Some (ac_id a)) ''user'' ''auth.login'' ''user'' (Some (ac_id a)) None t (invalidate_unused_otps t (ac_id a) db1)"
  let ?r = "\<lparr>sr_user = ac_id a, sr_access = create_access_token cfg t (ac_id a),
              sr_refresh = create_refresh_token cfg t (ac_id a), sr_edu = ac_edu a\<rparr>"
  have look: "lookup_user phone email db1 = Some a" by (simp add: db1 a)
  have codes: "verify_otp t (ac_id a) ''phone'' d db1 \<longleftrightarrow> d = ?c1" "verify_otp t (ac_id a) ''email'' d db1 \<longleftrightarrow> d = ?c2" for d
    using assms(6) by (auto simp: db1 verify_fresh)
  have "login cfg t phone email ?c1 ?c2 db1 = (Returned ?r, ?db2)"
    using phone look a codes generate_otp_ok assms(2-5) by (simp add: login_def)
  moreover have "is_returned (fst (login cfg t phone email d1 d2 db1)) \<longrightarrow> d1 = ?c1 \<and> d2 = ?c2" for d1 d2
    using look a codes by (simp add: login_def)
  moreover have "\<not> is_returned (fst (login cfg t' phone email d1 d2 ?db2))" for t' d1 d2
    using look a by (simp add: login_def)
  moreover have "sr_user ?r = ac_id a" by simp
  ultimately show ?thesis using a by blast
qed

text \<open>A database with one person, to evaluate.\<close>

definition noon :: datetime where
  "noon = DateTime 2026 5 1 0"

definition one_person :: auth_db where
  "one_person = add_account ''+8613800138000'' ''a@uni.example'' noon seeded_db"

lemma codes_sent:
  "fst (request_otp plain_settings noon ''+8613800138000'' ''a@uni.example'' 123456 42 one_person)
     = Returned \<lparr>op_expires_in = 300, op_phone_otp = Some ''123456'', op_email_otp = Some ''000042''\<rparr>"
  "noon < dt_plus noon (seconds (as_otp_ttl plain_settings))"
  by code_simp+

theorem codes_log_in_once_witness:
  "\<exists>r db1 db2. login plain_settings noon ''+8613800138000'' ''a@uni.example'' (generate_otp 123456) (generate_otp 42) db1 = (Returned r, db2) \<and>
     \<not> is_returned (fst (login plain_settings noon ''+8613800138000'' ''a@uni.example'' (generate_otp 123456) (generate_otp 42) db2))"
proof -
  let ?q = "request_otp plain_settings noon ''+8613800138000'' ''a@uni.example'' 123456 42 one_person"
  have "?q = (Returned \<lparr>op_expires_in = 300, op_phone_otp = Some ''123456'', op_email_otp = Some ''000042''\<rparr>, snd ?q)"
    by (rule prod_eqI) (simp_all only: codes_sent fst_conv snd_conv)
  from codes_log_in_once [OF this _ _ _ _ codes_sent(2)] show ?thesis by simp metis
qed

section \<open>Consent\<close>

text \<open>
  C34. A minor joins with a guardian's consent, once. When a signup below eighteen creates an account, the
  applicant is at least fourteen and a consent row that was not used and not expired names this phone,
  address, age and guardian and carries the hash of the presented token; the row is marked with the new
  account, and no later signup of a minor under that row creates another.
\<close>

theorem minors_join_with_consent_once:
  assumes "signup cfg now raw token ip db = (Returned (SignedUp r), db')" "su_age raw < 18"
  shows "14 \<le> su_age raw \<and>
    (\<exists>c t body. c \<in> set (ad_consents db) \<and> validate_signup raw = Some body \<and> su_consent_id raw = Some (gc_id c) \<and>
       su_consent_token raw = Some t \<and> gc_confirmed c = None \<and> now < gc_expires c \<and> consent_matches c body \<and>
       as_consent_hash cfg t = gc_hash c \<and>
       row_get gc_id (gc_id c) (ad_consents db') = Some (c\<lparr>gc_confirmed := Some now, gc_user := Some (sr_user r)\<rparr>) \<and>
       (\<forall>now2 raw2 token2 ip2 r2 db2. su_consent_id raw2 = Some (gc_id c) \<and> su_age raw2 < 18 \<longrightarrow>
          signup cfg now2 raw2 token2 ip2 db' \<noteq> (Returned (SignedUp r2), db2)))"
proof -
  obtain body where body: "validate_signup raw = Some body"
    using assms(1) by (auto simp: signup_def split: option.splits)
  have same: "su_age body = su_age raw" "su_consent_id body = su_consent_id raw" "su_consent_token body = su_consent_token raw"
    using body by (auto simp: validate_signup_def split: if_splits)
  have refresh: "fst (create_or_refresh_guardian_consent cfg now b tok d) \<noteq> Returned (SignedUp r)" for now b tok d r
    by (auto simp: create_or_refresh_guardian_consent_def Let_def split: option.split)
  have age: "14 \<le> su_age body" and given: "given (su_consent_token body)" "su_consent_id body \<noteq> None"
    and done': "complete_guardian_confirmed_signup cfg now body ip db = (Returned r, db')"
    using assms refresh [of now body token db r] same(1)
    by (auto simp: signup_def body map_prod_def split: if_splits prod.splits elim: map_outcome.elims)
  obtain g i t c where parts: "su_guardian body = Some g" "su_consent_id body = Some i" "su_consent_token body = Some t"
      and c: "row_get gc_id i (ad_consents db) = Some c"
    using done' by (auto simp: complete_guardian_confirmed_signup_def split: option.splits)
  have checks: "gc_confirmed c = None" "now < gc_expires c" "consent_matches c body" "as_consent_hash cfg t = gc_hash c"
    using done' by (auto simp: complete_guardian_confirmed_signup_def parts c split: if_splits)
  obtain db1 where db1: "create_verified_user_signup cfg now body ip db = (Returned r, db1)"
    and db': "db' = db1\<lparr>ad_consents := row_put gc_id (c\<lparr>gc_confirmed := Some now, gc_user := Some (sr_user r)\<rparr>) (ad_consents db1)\<rparr>"
    using done' checks by (auto simp: complete_guardian_confirmed_signup_def parts c split: prod.splits outcome.splits if_splits)
  have "ad_consents (fold (add_flag u tm) fs d) = ad_consents d" for u tm fs d
    by (induction fs arbitrary: d) (auto simp: add_flag_def split: prod.split)
  then have keep: "ad_consents (snd (apply_flags_and_maybe_freeze tm u fs d)) = ad_consents d" for tm u fs d
    by (simp add: apply_flags_and_maybe_freeze_def Let_def add_audit_def update_accounts_def)
  have "ad_consents db1 = ad_consents db"
    using db1 by (auto simp: create_verified_user_signup_def Let_def keep add_audit_def add_account_def seed_edu_bucket_def
        split: if_splits)
  moreover have i: "gc_id c = i" "c \<in> set (ad_consents db)" using c by (auto dest: row_get_SomeD)
  ultimately have row: "row_get gc_id i (ad_consents db') = Some (c\<lparr>gc_confirmed := Some now, gc_user := Some (sr_user r)\<rparr>)"
    using row_get_put_same [of gc_id "c\<lparr>gc_confirmed := Some now, gc_user := Some (sr_user r)\<rparr>" "ad_consents db" c] c
    by (simp add: db')
  have "signup cfg now2 raw2 token2 ip2 db' \<noteq> (Returned (SignedUp r2), db2)"
    if "su_consent_id raw2 = Some i" "su_age raw2 < 18" for now2 raw2 token2 ip2 r2 db2
  proof
    assume s: "signup cfg now2 raw2 token2 ip2 db' = (Returned (SignedUp r2), db2)"
    then obtain b2 where b2: "validate_signup raw2 = Some b2" by (auto simp: signup_def split: option.splits)
    then have same2: "su_age b2 = su_age raw2" "su_consent_id b2 = su_consent_id raw2"
      by (auto simp: validate_signup_def split: if_splits)
    have "fst (complete_guardian_confirmed_signup cfg now2 b2 ip2 db') \<noteq> Returned r2"
      using that(1) same2(2) row by (auto simp: complete_guardian_confirmed_signup_def split: option.split)
    then show False using s that(2) same2(1) refresh [of now2 b2 token2 db' r2]
      by (auto simp: signup_def b2 map_prod_def split: if_splits prod.splits elim: map_outcome.elims)
  qed
  with row i checks c parts body same age show ?thesis by auto
qed


definition minor :: "string option \<Rightarrow> nat option \<Rightarrow> signup_request" where
  "minor token i = \<lparr>su_phone = ''+8613800138009'', su_email = ''Kid@School.example'', su_age = 15, su_guardian = Some ''mum@home.example'',
     su_consent_id = i, su_consent_token = token\<rparr>"

definition awaiting_consent :: auth_db where
  "awaiting_consent = snd (signup plain_settings noon (minor None None) ''0123456789abcdef'' None seeded_db)"

lemma consent_given:
  "fst (signup plain_settings noon (minor (Some ''0123456789abcdef'') (Some 0)) [] None awaiting_consent)
     = Returned (SignedUp \<lparr>sr_user = 1, sr_access = ''a1'', sr_refresh = ''r1'', sr_edu = False\<rparr>)"
  by code_simp

theorem minors_join_with_consent_once_witness:
  "\<exists>c. c \<in> set (ad_consents awaiting_consent) \<and> gc_id c = 0 \<and> gc_confirmed c = None \<and> noon < gc_expires c"
proof -
  let ?s = "signup plain_settings noon (minor (Some ''0123456789abcdef'') (Some 0)) [] None awaiting_consent"
  have run: "?s = (Returned (SignedUp \<lparr>sr_user = 1, sr_access = ''a1'', sr_refresh = ''r1'', sr_edu = False\<rparr>), snd ?s)"
    by (rule prod_eqI) (simp_all only: consent_given fst_conv snd_conv)
  have "su_age (minor (Some ''0123456789abcdef'') (Some 0)) < 18" by (simp add: minor_def)
  from minors_join_with_consent_once [OF run this] show ?thesis by (auto simp: minor_def)
qed

section \<open>Keys\<close>

lemma find_snoc: "find P xs = None \<Longrightarrow> find P (xs @ [x]) = (if P x then Some x else None)"
  by (induction xs) (auto split: if_splits)

lemma presented_created: "strip (''sk-'' @ raw) = ''sk-'' @ raw \<Longrightarrow> presented_key cfg (Some (''Bearer '' @ ''sk-'' @ raw)) = Some (''sk-'' @ raw)"
  by (simp add: presented_key_def starts_with_def)

text \<open>
  C35. A created key reads back as its owner. The key that is returned, presented before it expires, authenticates
  the user who created it with the scopes asked for, when its hash is new to the table; and once that user
  has revoked it, it is refused.
\<close>

theorem created_key_authenticates:
  assumes "create_api_key cfg now h body raw db = (Returned r, db1)" "strip (''sk-'' @ raw) = ''sk-'' @ raw"
    "\<forall>k\<in>set (ad_keys db). ak_id k < ad_next db \<and> ak_hash k \<noteq> as_key_hash cfg (kp_key r)" "\<forall>e. kp_expires r = Some e \<longrightarrow> t \<le> e"
  shows "\<exists>u db2. resolve_user_from_jwt cfg now h = Some u \<and>
    verify_api_key cfg t (Some (''Bearer '' @ kp_key r)) ip db1 = (Returned (u, kp_id r, kr_scope body), db2) \<and>
    (\<forall>t2 h2 db3 t3 ip3. revoke_api_key cfg t2 h2 (kp_id r) db2 = (Returned (), db3) \<longrightarrow>
       verify_api_key cfg t3 (Some (''Bearer '' @ kp_key r)) ip3 db3 = (HttpError 401, db3))"
proof -
  define F where F: "F = ''sk-'' @ raw"
  obtain body' u a where body': "validate_key_request now body = Some body'" and u: "resolve_user_from_jwt cfg now h = Some u"
    and act: "require_active_user u db = Some a"
    using assms(1) by (auto simp: create_api_key_def with_active_user_def with_jwt_def split: option.splits)
  have scope: "kr_scope body' = kr_scope body"
    using body' by (auto simp: validate_key_request_def split: if_splits option.splits)
  have i: "kp_id r = ad_next db"
    using assms(1) by (auto simp: create_api_key_def with_active_user_def with_jwt_def body' u act generate_api_key_def Let_def)
  obtain k where keys: "ad_keys db1 = ad_keys db @ [k]" and k: "ak_id k = kp_id r" "ak_user k = u" "ak_hash k = as_key_hash cfg F"
      "ak_prefix k = take 6 F" "ak_scope k = kr_scope body" "ak_expires k = kp_expires r" "ak_revoked k = None" "ak_bucket k = None"
    and r: "kp_key r = F"
    using assms(1) scope
    by (auto simp: create_api_key_def with_active_user_def with_jwt_def body' u act generate_api_key_def Let_def add_audit_def F)
  have none: "find (key_accepted cfg t' F) (ad_keys db) = None" for t'
    using assms(3) by (auto simp: find_None_iff key_accepted_def r)
  have "find (key_accepted cfg t F) (ad_keys db1) = Some k"
    using k assms(4) by (simp add: keys find_snoc none) (simp add: key_accepted_def not_less split: option.split)
  moreover have pres: "presented_key cfg (Some (''Bearer '' @ kp_key r)) = Some F"
    unfolding r F by (rule presented_created [OF assms(2)])
  ultimately obtain db2 where v: "verify_api_key cfg t (Some (''Bearer '' @ kp_key r)) ip db1 = (Returned (u, kp_id r, kr_scope body), db2)"
    and rec: "record_api_key_use cfg t k ip db1 = Some db2"
    using k by (simp add: verify_api_key_def record_api_key_use_def is_geo_anomaly_def Let_def)
  let ?f = "\<lambda>x. if ak_id x = kp_id r then touch_key t (normalize_ip cfg ip) (bucket_for_ip cfg (normalize_ip cfg ip)) None x else x"
  have keys2: "ad_keys db2 = map ?f (ad_keys db @ [k])"
    using rec k by (auto simp: record_api_key_use_def is_geo_anomaly_def Let_def update_keys_def keys)
  have "verify_api_key cfg t3 (Some (''Bearer '' @ kp_key r)) ip3 db3 = (HttpError 401, db3)"
    if rev: "revoke_api_key cfg t2 h2 (kp_id r) db2 = (Returned (), db3)" for t2 h2 db3 t3 ip3
  proof -
    obtain w where w: "resolve_user_from_jwt cfg t2 h2 = Some w"
      using rev by (auto simp: revoke_api_key_def with_active_user_def with_jwt_def split: option.splits)
    have found: "find (\<lambda>x. ak_id x = kp_id r \<and> ak_user x = w) (ad_keys db2) \<noteq> None"
      and keys3: "ad_keys db3 = map (\<lambda>x. if ak_id x = kp_id r \<and> ak_user x = w then x\<lparr>ak_revoked := Some t2\<rparr> else x) (ad_keys db2)"
      using rev w by (auto simp: revoke_api_key_def with_active_user_def with_jwt_def add_audit_def update_keys_def
          split: option.splits if_splits)
    have old: "ak_id x \<noteq> kp_id r" "ak_hash x \<noteq> as_key_hash cfg F" if "x \<in> set (ad_keys db)" for x
      using assms(3) that by (auto simp: i r)
    have "ad_keys db2 = ad_keys db @ [?f k]" using old(1) by (auto simp: keys2 intro!: map_idI)
    moreover have "w = u" using found old(1) k(1,2) unfolding calculation by (auto simp: find_None_iff touch_key_def)
    ultimately have "ad_keys db3 = ad_keys db @ [(?f k)\<lparr>ak_revoked := Some t2\<rparr>]"
      using old(1) k(1,2) by (auto simp: keys3 touch_key_def intro!: map_idI)
    then have "find (key_accepted cfg t3 F) (ad_keys db3) = None"
      using none by (simp add: find_snoc) (simp add: key_accepted_def)
    then show ?thesis using pres by (simp add: verify_api_key_def)
  qed
  with u v show ?thesis by blast
qed


definition ci_key :: key_request where
  "ci_key = \<lparr>kr_label = ''ci'', kr_description = None, kr_scope = [''optimize:write''], kr_expires = None, kr_days = Some 30\<rparr>"

lemma ci_key_created:
  "fst (create_api_key plain_settings noon (Some ''Bearer a'') ci_key ''Q0123456789'' one_person)
     = Returned \<lparr>kp_id = 1, kp_key = ''sk-Q0123456789'', kp_prefix = ''sk-Q01'', kp_preview = ''sk-Q0123456789...'',
         kp_expires = Some (DateTime 2026 5 31 0)\<rparr>"
  "ad_keys one_person = []" "strip (''sk-'' @ ''Q0123456789'') = ''sk-'' @ ''Q0123456789''" "noon \<le> DateTime 2026 5 31 0"
  by code_simp+

theorem created_key_authenticates_witness:
  "\<exists>db1 db2. verify_api_key plain_settings noon (Some (''Bearer '' @ ''sk-Q0123456789'')) None db1
     = (Returned (0, 1, [''optimize:write'']), db2)"
proof -
  let ?c = "create_api_key plain_settings noon (Some ''Bearer a'') ci_key ''Q0123456789'' one_person"
  have run: "?c = (Returned \<lparr>kp_id = 1, kp_key = ''sk-Q0123456789'', kp_prefix = ''sk-Q01'', kp_preview = ''sk-Q0123456789...'',
         kp_expires = Some (DateTime 2026 5 31 0)\<rparr>, snd ?c)"
    by (rule prod_eqI) (simp_all only: ci_key_created fst_conv snd_conv)
  have who: "resolve_user_from_jwt plain_settings noon (Some ''Bearer a'') = Some 0" by code_simp
  from created_key_authenticates [OF run ci_key_created(3), where t = noon and ip = None] show ?thesis
    using ci_key_created(2,4) who by (auto simp: ci_key_def)
qed

end
