(* ===== verification/AuditPages.thy ===== *)
theory AuditPages
  imports AuthModels "HOL-Library.Product_Lexorder"
begin

text \<open>
  A user's own audit log, page by page (apps/auth-service/src/auth_service/routes.py, the routes under
  \<^verbatim>\<open>/v1/me/audit-logs\<close>). A cursor is the payload its token carries; its signature, JSON text and base64
  are left out, and so are the redaction of metadata and the parsing of times. Rows of one time are ordered
  by identifier.
\<close>

definition AUDIT_LOG_DEFAULT_WINDOW_DAYS :: int where
  "AUDIT_LOG_DEFAULT_WINDOW_DAYS = 30"

definition AUDIT_LOG_DEFAULT_LIMIT :: nat where
  "AUDIT_LOG_DEFAULT_LIMIT = 50"

definition AUDIT_LOG_MAX_LIMIT :: nat where
  "AUDIT_LOG_MAX_LIMIT = 100"

record audit_cursor =
  cu_user :: nat
  cu_created :: datetime
  cu_id :: nat
  cu_from :: datetime
  cu_to :: datetime
  cu_limit :: nat

text \<open>\<^verbatim>\<open>v if v is not None else default\<close>.\<close>

definition or_default :: "'a option \<Rightarrow> 'a \<Rightarrow> 'a" where
  "or_default v d = (case v of None \<Rightarrow> d | Some x \<Rightarrow> x)"

text \<open>\<^verbatim>\<open>_resolve_audit_log_window_and_cursor\<close>; \<open>None\<close> is the 422.\<close>

definition resolve_audit_log_window_and_cursor ::
  "nat \<Rightarrow> datetime option \<Rightarrow> datetime option \<Rightarrow> nat option \<Rightarrow> audit_cursor option \<Rightarrow> datetime \<Rightarrow>
   (datetime \<times> datetime \<times> nat \<times> (datetime \<times> nat) option) option" where
  "resolve_audit_log_window_and_cursor user from_param to_param limit_param cursor now =
     (let resolved =
            (case cursor of
               Some c \<Rightarrow>
                 if cu_user c \<noteq> user then None
                 else if or_default from_param (cu_from c) \<noteq> cu_from c \<or> or_default to_param (cu_to c) \<noteq> cu_to c \<or>
                         or_default limit_param (cu_limit c) \<noteq> cu_limit c then None
                 else Some (cu_from c, cu_to c, cu_limit c, Some (cu_created c, cu_id c))
             | None \<Rightarrow>
                 let to_dt = or_default to_param now
                 in Some (or_default from_param (dt_plus to_dt (- days AUDIT_LOG_DEFAULT_WINDOW_DAYS)), to_dt,
                          or_default limit_param AUDIT_LOG_DEFAULT_LIMIT, None))
      in case resolved of
           None \<Rightarrow> None
         | Some (from_dt, to_dt, limit, anchor) \<Rightarrow>
             if limit < 1 \<or> AUDIT_LOG_MAX_LIMIT < limit then None
             else if to_dt < from_dt then None else Some (from_dt, to_dt, limit, anchor))"

record audit_page =
  pg_items :: "audit_row list"
  pg_next :: "audit_cursor option"

definition log_key :: "audit_row \<Rightarrow> datetime \<times> nat" where
  "log_key r = (al_created r, al_id r)"

definition before_anchor :: "(datetime \<times> nat) option \<Rightarrow> audit_row \<Rightarrow> bool" where
  "before_anchor anchor r \<longleftrightarrow>
     (case anchor of
        None \<Rightarrow> True
      | Some (created, i) \<Rightarrow> al_created r < created \<or> al_created r = created \<and> al_id r < i)"

definition in_window :: "nat \<Rightarrow> datetime \<Rightarrow> datetime \<Rightarrow> audit_row \<Rightarrow> bool" where
  "in_window user from_dt to_dt r \<longleftrightarrow> al_user r = Some user \<and> from_dt \<le> al_created r \<and> al_created r \<le> to_dt"

definition newest_first :: "audit_row list \<Rightarrow> audit_row list" where
  "newest_first rows = rev (sort_key log_key rows)"

definition list_my_audit_logs ::
  "nat \<Rightarrow> datetime option \<Rightarrow> datetime option \<Rightarrow> nat option \<Rightarrow> audit_cursor option \<Rightarrow> datetime \<Rightarrow> audit_row list \<Rightarrow>
   audit_page option" where
  "list_my_audit_logs user from_param to_param limit_param cursor now table =
     (case resolve_audit_log_window_and_cursor user from_param to_param limit_param cursor now of
        None \<Rightarrow> None
      | Some (from_dt, to_dt, limit, anchor) \<Rightarrow>
          let rows = take (limit + 1)
                (newest_first (filter (\<lambda>r. in_window user from_dt to_dt r \<and> before_anchor anchor r) table));
              visible_rows = take limit rows
          in Some \<lparr>pg_items = visible_rows,
               pg_next = (if limit < length rows \<and> visible_rows \<noteq> [] then
                   (let l = last visible_rows in
                    Some \<lparr>cu_user = user, cu_created = al_created l, cu_id = al_id l, cu_from = from_dt, cu_to = to_dt,
                          cu_limit = limit\<rparr>)
                 else None)\<rparr>)"

text \<open>The route: the access token names the user, whose account must be active.\<close>

definition audit_logs_route ::
  "auth_settings \<Rightarrow> datetime \<Rightarrow> string option \<Rightarrow> datetime option \<Rightarrow> datetime option \<Rightarrow> nat option \<Rightarrow>
   audit_cursor option \<Rightarrow> auth_db \<Rightarrow> audit_page outcome \<times> auth_db" where
  "audit_logs_route cfg now authorization from_param to_param limit_param cursor db =
     with_active_user cfg now authorization db (\<lambda>user.
       case list_my_audit_logs user from_param to_param limit_param cursor now (ad_audit db) of
         None \<Rightarrow> (HttpError 422, db)
       | Some page \<Rightarrow> (Returned page, db))"

section \<open>Following the cursors\<close>

text \<open>A client that follows the cursors; \<open>None\<close> is a refusal, or more pages than \<open>fuel\<close>.\<close>

fun follow_cursors :: "nat \<Rightarrow> nat \<Rightarrow> audit_cursor \<Rightarrow> datetime \<Rightarrow> audit_row list \<Rightarrow> audit_row list list option" where
  "follow_cursors 0 user cursor now table = None"
| "follow_cursors (Suc fuel) user cursor now table =
     (case list_my_audit_logs user None None None (Some cursor) now table of
        None \<Rightarrow> None
      | Some p \<Rightarrow>
          (case pg_next p of
             None \<Rightarrow> Some [pg_items p]
           | Some c \<Rightarrow> map_option ((#) (pg_items p)) (follow_cursors fuel user c now table)))"

definition read_audit_log ::
  "nat \<Rightarrow> nat \<Rightarrow> datetime option \<Rightarrow> datetime option \<Rightarrow> nat option \<Rightarrow> datetime \<Rightarrow> audit_row list \<Rightarrow> audit_row list list option" where
  "read_audit_log fuel user from_param to_param limit_param now table =
     (case list_my_audit_logs user from_param to_param limit_param None now table of
        None \<Rightarrow> None
      | Some p \<Rightarrow>
          (case pg_next p of
             None \<Rightarrow> Some [pg_items p]
           | Some c \<Rightarrow> map_option ((#) (pg_items p)) (follow_cursors fuel user c now table)))"

section \<open>Nothing is skipped or repeated\<close>

lemma before_anchor_key: "before_anchor (Some k) r \<longleftrightarrow> log_key r < k"
  by (cases k) (auto simp: before_anchor_def log_key_def)

lemma strictly_sorted_keys:
  assumes "distinct (map al_id rows)"
  shows "sorted_wrt (\<lambda>x y. log_key y < log_key x) (newest_first rows)"
proof -
  have "distinct (map al_id (sort_key log_key rows))" using assms
    by (metis distinct_map distinct_sort set_sort)
  then have d: "distinct (map log_key (sort_key log_key rows))"
    by (auto simp: distinct_map inj_on_def log_key_def)
  have "sorted (map log_key (sort_key log_key rows))" by simp
  with d have "sorted_wrt (<) (map log_key (sort_key log_key rows))" by (simp add: strict_sorted_iff)
  then show ?thesis by (simp add: newest_first_def sorted_wrt_rev sorted_wrt_map)
qed

lemma sort_filter_commute: "newest_first (filter P rows) = filter P (newest_first rows)"
  by (simp add: newest_first_def rev_filter flip: filter_sort)

lemma filter_below:
  assumes "sorted_wrt (\<lambda>x y. log_key y < log_key x) (xs @ l # ys)"
  shows "filter (\<lambda>r. log_key r < log_key l) (xs @ l # ys) = ys"
  using assms by (auto simp: sorted_wrt_append filter_empty_conv intro: filter_True)

text \<open>The rows that remain below an anchor, and the pages that show them.\<close>

definition remaining :: "nat \<Rightarrow> datetime \<Rightarrow> datetime \<Rightarrow> (datetime \<times> nat) option \<Rightarrow> audit_row list \<Rightarrow> audit_row list" where
  "remaining user from_dt to_dt anchor table =
     newest_first (filter (\<lambda>r. in_window user from_dt to_dt r \<and> before_anchor anchor r) table)"

lemma remaining_below:
  assumes "distinct (map al_id table)" "remaining user from_dt to_dt anchor table = xs @ l # ys"
  shows "remaining user from_dt to_dt (Some (al_created l, al_id l)) table = ys"
proof -
  let ?all = "newest_first (filter (in_window user from_dt to_dt) table)"
  have rem: "remaining user from_dt to_dt a table = filter (before_anchor a) ?all" for a
    by (simp add: remaining_def sort_filter_commute conj_commute)
  have "distinct (map al_id (filter (in_window user from_dt to_dt) table))"
    using assms(1) by (simp add: distinct_map_filter)
  then have "sorted_wrt (\<lambda>x y. log_key y < log_key x) ?all" by (rule strictly_sorted_keys)
  then have "sorted_wrt (\<lambda>x y. log_key y < log_key x) (filter (before_anchor anchor) ?all)" by (rule sorted_wrt_filter)
  then have "sorted_wrt (\<lambda>x y. log_key y < log_key x) (xs @ l # ys)" using assms(2) by (simp only: rem)
  then have ys: "filter (\<lambda>r. log_key r < log_key l) (filter (before_anchor anchor) ?all) = ys"
    using assms(2) by (simp only: rem filter_below)
  have below: "before_anchor anchor r" if "log_key r < log_key l" for r
  proof (cases anchor)
    case None
    then show ?thesis by (simp add: before_anchor_def)
  next
    case (Some k)
    have "l \<in> set (remaining user from_dt to_dt anchor table)" using assms(2) by simp
    then have "log_key l < k" by (simp add: rem Some before_anchor_key)
    with that show ?thesis by (simp add: Some before_anchor_key)
  qed
  then have "filter (\<lambda>r. log_key r < log_key l) (filter (before_anchor anchor) ?all) = filter (\<lambda>r. log_key r < log_key l) ?all"
    by (auto intro!: filter_cong)
  with ys show ?thesis by (simp add: rem before_anchor_key [abs_def] log_key_def)
qed


lemma page_shape:
  assumes "resolve_audit_log_window_and_cursor user fp tp lp cursor now = Some (from_dt, to_dt, limit, anchor)"
  shows "list_my_audit_logs user fp tp lp cursor now table =
    (let rest = remaining user from_dt to_dt anchor table in
     Some \<lparr>pg_items = take limit rest,
       pg_next = (if limit < length rest then
           (let l = rest ! (limit - 1) in
            Some \<lparr>cu_user = user, cu_created = al_created l, cu_id = al_id l, cu_from = from_dt, cu_to = to_dt, cu_limit = limit\<rparr>)
         else None)\<rparr>)"
proof -
  have limit: "1 \<le> limit"
    using assms by (auto simp: resolve_audit_log_window_and_cursor_def Let_def split: option.splits if_splits)
  have last: "last (take limit rest) = rest ! (limit - 1)" if "limit < length rest" for rest :: "audit_row list"
  proof -
    have "take limit rest \<noteq> []" using that limit by auto
    then show ?thesis using that limit by (simp add: last_conv_nth min_def)
  qed
  show ?thesis using limit by (auto simp: list_my_audit_logs_def assms remaining_def Let_def last min_def)
qed

lemma resolve_next:
  assumes "1 \<le> limit" "limit \<le> AUDIT_LOG_MAX_LIMIT" "from_dt \<le> to_dt"
  shows "resolve_audit_log_window_and_cursor user None None None
      (Some \<lparr>cu_user = user, cu_created = c, cu_id = i, cu_from = from_dt, cu_to = to_dt, cu_limit = limit\<rparr>) now
    = Some (from_dt, to_dt, limit, Some (c, i))"
  using assms by (simp add: resolve_audit_log_window_and_cursor_def or_default_def)

lemma resolve_sane:
  "resolve_audit_log_window_and_cursor user fp tp lp cursor now = Some (from_dt, to_dt, limit, anchor) \<Longrightarrow>
     1 \<le> limit \<and> limit \<le> AUDIT_LOG_MAX_LIMIT \<and> from_dt \<le> to_dt"
  by (auto simp: resolve_audit_log_window_and_cursor_def Let_def split: option.splits if_splits)

lemma pages_from:
  assumes "distinct (map al_id table)" "1 \<le> limit" "limit \<le> AUDIT_LOG_MAX_LIMIT" "from_dt \<le> to_dt"
    "length (remaining user from_dt to_dt (Some (c, i)) table) < fuel"
  shows "\<exists>pages. follow_cursors fuel user
      \<lparr>cu_user = user, cu_created = c, cu_id = i, cu_from = from_dt, cu_to = to_dt, cu_limit = limit\<rparr> now table = Some pages \<and>
    concat pages = remaining user from_dt to_dt (Some (c, i)) table \<and> list_all (\<lambda>p. length p \<le> limit) pages"
  using assms(5)
proof (induction fuel arbitrary: c i)
  case (Suc fuel)
  let ?rest = "remaining user from_dt to_dt (Some (c, i)) table"
  note page = page_shape [OF resolve_next [OF assms(2-4)], of user c i now table]
  show ?case
  proof (cases "limit < length ?rest")
    case False
    then show ?thesis by (simp add: page Let_def)
  next
    case True
    let ?l = "?rest ! (limit - 1)"
    have split: "?rest = take (limit - 1) ?rest @ ?l # drop limit ?rest"
      using True assms(2) by (metis Suc_diff_1 id_take_nth_drop less_imp_diff_less less_le_trans zero_less_one)
    have rest: "remaining user from_dt to_dt (Some (al_created ?l, al_id ?l)) table = drop limit ?rest"
      by (rule remaining_below [OF assms(1) split])
    moreover have "length (drop limit ?rest) < fuel" using Suc.prems assms(2) True by simp
    ultimately obtain pages where pages: "follow_cursors fuel user
        \<lparr>cu_user = user, cu_created = al_created ?l, cu_id = al_id ?l, cu_from = from_dt, cu_to = to_dt, cu_limit = limit\<rparr> now table = Some pages"
      "concat pages = drop limit ?rest" "list_all (\<lambda>p. length p \<le> limit) pages"
      using Suc.IH [of "al_created ?l" "al_id ?l"] by auto
    then show ?thesis using True by (simp add: page Let_def)
  qed
qed simp

text \<open>
  C39. Reading page by page misses nothing. A client that asks for its audit log and follows the cursors reaches the
  last page, and the pages together are exactly the user's rows of the window, newest first, each once; no
  page is longer than the limit. As many pages as rows are enough.
\<close>

theorem audit_pages_are_complete:
  assumes "distinct (map al_id table)" "length table \<le> fuel"
    "resolve_audit_log_window_and_cursor user fp tp lp None now = Some (from_dt, to_dt, limit, anchor)"
  shows "\<exists>pages. read_audit_log fuel user fp tp lp now table = Some pages \<and>
    concat pages = newest_first (filter (in_window user from_dt to_dt) table) \<and> list_all (\<lambda>p. length p \<le> limit) pages"
proof -
  have anchor: "anchor = None"
    using assms(3) by (auto simp: resolve_audit_log_window_and_cursor_def Let_def split: if_splits)
  note sane = resolve_sane [OF assms(3)]
  let ?rest = "remaining user from_dt to_dt None table"
  have all: "?rest = newest_first (filter (in_window user from_dt to_dt) table)"
    by (simp add: remaining_def before_anchor_def)
  note page = page_shape [OF assms(3), of table, unfolded anchor]
  show ?thesis
  proof (cases "limit < length ?rest")
    case False
    then show ?thesis by (simp add: read_audit_log_def page Let_def all)
  next
    case True
    let ?l = "?rest ! (limit - 1)"
    have split: "?rest = take (limit - 1) ?rest @ ?l # drop limit ?rest"
      using True sane by (metis Suc_diff_1 id_take_nth_drop less_imp_diff_less less_le_trans zero_less_one)
    have rest: "remaining user from_dt to_dt (Some (al_created ?l, al_id ?l)) table = drop limit ?rest"
      by (rule remaining_below [OF assms(1) split])
    have "length ?rest \<le> length table" by (simp add: all newest_first_def)
    moreover have "1 \<le> limit" using sane by simp
    ultimately have "length (drop limit ?rest) < fuel" using assms(2) True unfolding length_drop by linarith
    then have "length (remaining user from_dt to_dt (Some (al_created ?l, al_id ?l)) table) < fuel" by (simp only: rest)
    from pages_from [OF assms(1) conjunct1 [OF sane] conjunct1 [OF conjunct2 [OF sane]] conjunct2 [OF conjunct2 [OF sane]] this]
    obtain pages where pages: "follow_cursors fuel user
        \<lparr>cu_user = user, cu_created = al_created ?l, cu_id = al_id ?l, cu_from = from_dt, cu_to = to_dt, cu_limit = limit\<rparr> now table = Some pages"
      "concat pages = drop limit ?rest" "list_all (\<lambda>p. length p \<le> limit) pages"
      unfolding rest by blast
    then show ?thesis using True by (simp add: read_audit_log_def page Let_def flip: all)
  qed
qed

definition three_rows :: "audit_row list" where
  "three_rows = map (\<lambda>i. \<lparr>al_id = i, al_user = Some 0, al_actor = ''user'', al_action = ''auth.login'', al_type = Some ''user'',
     al_resource = Some 0, al_ip = None, al_created = DateTime 2026 5 1 0\<rparr>) [1, 2, 3]"

theorem audit_pages_are_complete_witness:
  "\<exists>pages. read_audit_log 3 0 None None (Some 2) (DateTime 2026 5 1 0) three_rows = Some pages \<and>
     concat pages = newest_first three_rows"
proof -
  have "distinct (map al_id three_rows)" "length three_rows \<le> 3" by (simp_all add: three_rows_def)
  moreover have "resolve_audit_log_window_and_cursor 0 None None (Some 2) None (DateTime 2026 5 1 0)
      = Some (dt_plus (DateTime 2026 5 1 0) (- days 30), DateTime 2026 5 1 0, 2, None)"
    by code_simp
  moreover have "filter (in_window 0 (dt_plus (DateTime 2026 5 1 0) (- days 30)) (DateTime 2026 5 1 0)) three_rows = three_rows"
    by code_simp
  ultimately show ?thesis
    using audit_pages_are_complete [of three_rows 3 0 None None "Some 2" "DateTime 2026 5 1 0"] by metis
qed

end
