(* ===== verification/RegistryText.thy ===== *)
theory RegistryText
  imports IpText Requests
begin

text \<open>
  What the request bodies of the capability registry may contain
  (apps/capability-registry/src/capability_registry/schemas.py): identifiers, references, digests and the search for
  credential or raw payload fields in the objects a client attaches. In a \<^verbatim>\<open>Field(pattern=..)\<close> the final
  \<^verbatim>\<open>$\<close> is the end of the text; in Python's own patterns it also matches before one trailing newline.
\<close>

section \<open>Identifiers and references\<close>

definition is_lower_alnum :: "char \<Rightarrow> bool" where
  "is_lower_alnum c \<longleftrightarrow> is_digit c \<or> (97 \<le> code_of c \<and> code_of c \<le> 122)"

text \<open>\<^verbatim>\<open>^[a-z0-9][a-z0-9-]{0,63}$\<close>, and the same with underscores.\<close>

definition id_ok :: "string \<Rightarrow> bool" where
  "id_ok s \<longleftrightarrow> s \<noteq> [] \<and> length s \<le> 64 \<and> is_lower_alnum (hd s) \<and> list_all (\<lambda>c. is_lower_alnum c \<or> c = CHR ''-'') s"

definition benchmark_suite_ok :: "string \<Rightarrow> bool" where
  "benchmark_suite_ok s \<longleftrightarrow> s \<noteq> [] \<and> length s \<le> 64 \<and> is_lower_alnum (hd s) \<and>
     list_all (\<lambda>c. is_lower_alnum c \<or> c = CHR ''-'' \<or> c = CHR ''_'') s"

definition optional :: "('a \<Rightarrow> bool) \<Rightarrow> 'a option \<Rightarrow> bool" where
  "optional P v \<longleftrightarrow> (case v of None \<Rightarrow> True | Some x \<Rightarrow> P x)"

definition http_url_ok :: "string \<Rightarrow> bool" where
  "http_url_ok s \<longleftrightarrow> starts_with ''http://'' s \<or> starts_with ''https://'' s"

definition sha256_ok :: "string \<Rightarrow> bool" where
  "sha256_ok s \<longleftrightarrow> length s = 64 \<and> list_all is_hex s"

text \<open>\<^verbatim>\<open>_DIGEST_PATTERN.search\<close>.\<close>

fun digest_found :: "string \<Rightarrow> bool" where
  "digest_found [] = False"
| "digest_found (c # s) \<longleftrightarrow>
     (starts_with ''sha256:'' (c # s) \<and> 64 \<le> length (drop 6 s) \<and> list_all is_hex (take 64 (drop 6 s))) \<or> digest_found s"

text \<open>\<^verbatim>\<open>_EMAIL_PATTERN\<close>: one at sign, no whitespace, and a dot inside the domain.\<close>

definition email_ok :: "string \<Rightarrow> bool" where
  "email_ok s \<longleftrightarrow> \<not> list_ex is_space (chomp s) \<and>
     (case split_on CHR ''@'' (chomp s) of
        [local_part, domain] \<Rightarrow> local_part \<noteq> [] \<and> CHR ''.'' \<in> set (butlast (tl domain))
      | _ \<Rightarrow> False)"

definition REFERENCE_PREFIXES :: "string list" where
  "REFERENCE_PREFIXES = [''s3://'', ''oss://'', ''fixture://'', ''benchmark://'', ''repro://'']"

text \<open>\<^verbatim>\<open>_validate_reference\<close>: the stripped reference, or the \<^verbatim>\<open>ValueError\<close>.\<close>

definition validate_reference :: "string \<Rightarrow> string option" where
  "validate_reference value =
     (let stripped = strip value in
      if stripped = [] then None else if 256 < length stripped then None
      else if \<not> list_ex (\<lambda>p. starts_with p stripped) REFERENCE_PREFIXES then None else Some stripped)"

text \<open>The list of references without repetitions, in order of first occurrence.\<close>

fun collect_refs :: "string list \<Rightarrow> string list \<Rightarrow> string list option" where
  "collect_refs refs [] = Some refs"
| "collect_refs refs (item # rest) =
     (case validate_reference item of
        None \<Rightarrow> None
      | Some r \<Rightarrow> collect_refs (if r \<in> set refs then refs else refs @ [r]) rest)"

definition validate_refs :: "string list \<Rightarrow> string list option" where
  "validate_refs items = collect_refs [] items"

section \<open>Fields that may not be stored\<close>

definition REFERENCE_MARKERS :: "string list" where
  "REFERENCE_MARKERS =
     [''apikey'', ''password'', ''clientsecret'', ''accesstoken'', ''refreshtoken'', ''registrypassword'',
      ''dockerpassword'', ''bankaccount'', ''taxid'', ''email'', ''phone'', ''rawdataset'', ''rawrequest'',
      ''rawresponse'', ''providerrequest'', ''providerresponse'', ''routingpayload'', ''customerpayload'',
      ''rawbody'', ''jwt'', ''secret'', ''token'']"

definition FORBIDDEN_REFERENCE_FIELDS :: "string list" where
  "FORBIDDEN_REFERENCE_FIELDS =
     [''api_key'', ''bank_account'', ''access_token'', ''client_secret'', ''docker_password'', ''email'',
      ''email_body'', ''jwt'', ''password'', ''phone'', ''provider_secret'', ''provider_request'',
      ''provider_response'', ''raw_body'', ''raw_dataset'', ''raw_request'', ''raw_response'', ''refresh_token'',
      ''registry_password'', ''routing_payload'', ''secret'', ''tax_id'', ''token'', ''customer_payload'']"

definition FORBIDDEN_REVENUE_SHARE_FIELDS :: "string list" where
  "FORBIDDEN_REVENUE_SHARE_FIELDS = FORBIDDEN_REFERENCE_FIELDS @
     [''provider_amount'', ''platform_amount'', ''payout_status'', ''provider_revenue_amount'', ''paid_at'',
      ''pending_payout_amount'', ''platform_revenue_amount'', ''settlement_id'', ''payment_account'',
      ''payment_ref'', ''raw_billing_payload'', ''calculated_at'', ''calculation_checksum'', ''record_version'',
      ''currency_totals'', ''provider_summaries'', ''policy_ratio_summaries'', ''excluded_entries'',
      ''source_entry_ids'', ''approved_by'']"

text \<open>\<^verbatim>\<open>re.sub(r"[^a-z0-9]+", "_", s)\<close>; the flag says that the character before was replaced.\<close>

fun squash :: "bool \<Rightarrow> string \<Rightarrow> string" where
  "squash after [] = []"
| "squash after (c # s) =
     (if is_lower_alnum c then c # squash False s else if after then squash True s else CHR ''_'' # squash True s)"

definition normalized_key :: "string \<Rightarrow> string" where
  "normalized_key key = strip_chars ''_'' (squash False (lower (strip key)))"

definition compact_key :: "string \<Rightarrow> string" where
  "compact_key key = remove_all ''_'' (normalized_key key)"

definition is_forbidden_reference_key :: "string \<Rightarrow> bool" where
  "is_forbidden_reference_key key \<longleftrightarrow>
     normalized_key key \<in> set FORBIDDEN_REFERENCE_FIELDS \<or>
     list_ex (\<lambda>marker. contains marker (compact_key key)) REFERENCE_MARKERS"

definition is_forbidden_revenue_share_key :: "string \<Rightarrow> bool" where
  "is_forbidden_revenue_share_key key \<longleftrightarrow>
     normalized_key key \<in> set FORBIDDEN_REVENUE_SHARE_FIELDS \<or>
     compact_key key \<in> set (map (remove_all ''_'') FORBIDDEN_REVENUE_SHARE_FIELDS) \<or>
     is_forbidden_reference_key key"

text \<open>\<^verbatim>\<open>_reject_forbidden_..._fields\<close> raises: a key of the object, or of one inside it, is forbidden.\<close>

fun has_forbidden_field :: "(string \<Rightarrow> bool) \<Rightarrow> json \<Rightarrow> bool" where
  "has_forbidden_field forbidden (JObj kvs) \<longleftrightarrow>
     list_ex (\<lambda>(k, v). forbidden k) kvs \<or> list_ex (\<lambda>(k, v). has_forbidden_field forbidden v) kvs"
| "has_forbidden_field forbidden (JList xs) \<longleftrightarrow> list_ex (has_forbidden_field forbidden) xs"
| "has_forbidden_field forbidden _ = False"

definition reference_metadata_ok :: "jdict \<Rightarrow> bool" where
  "reference_metadata_ok d \<longleftrightarrow> \<not> has_forbidden_field is_forbidden_reference_key (JObj d)"

definition revenue_metadata_ok :: "jdict \<Rightarrow> bool" where
  "revenue_metadata_ok d \<longleftrightarrow> \<not> has_forbidden_field is_forbidden_revenue_share_key (JObj d)"

section \<open>What the search finds\<close>

text \<open>A key of a value, at any depth.\<close>

inductive holds_key :: "json \<Rightarrow> string \<Rightarrow> bool" where
  here: "(k, v) \<in> set kvs \<Longrightarrow> holds_key (JObj kvs) k"
| in_object: "(k', v) \<in> set kvs \<Longrightarrow> holds_key v k \<Longrightarrow> holds_key (JObj kvs) k"
| in_list: "x \<in> set xs \<Longrightarrow> holds_key x k \<Longrightarrow> holds_key (JList xs) k"

inductive_simps holds_key_simps [simp]:
  "holds_key JNull k" "holds_key (JBool b) k" "holds_key (JNum n) k" "holds_key (JStr s) k" "holds_key (JId i) k"
  "holds_key (JTime t) k" "holds_key (JList xs) k" "holds_key (JObj kvs) k"

lemma has_forbidden_field_iff: "has_forbidden_field forbidden j \<longleftrightarrow> (\<exists>k. holds_key j k \<and> forbidden k)"
proof (induction forbidden j rule: has_forbidden_field.induct)
  case (1 forbidden kvs)
  then show ?case unfolding has_forbidden_field.simps holds_key_simps list_ex_iff by fast
next
  case (2 forbidden xs)
  then show ?case unfolding has_forbidden_field.simps holds_key_simps list_ex_iff by fast
qed simp_all

lemma squash_letters: "remove_all ''_'' (squash b s) = filter is_lower_alnum s"
  by (induction b s rule: squash.induct)
    (auto simp: remove_all.simps starts_with_def is_lower_alnum_def is_digit_def code_of_def)

lemma remove_all_char: "remove_all [c] s = filter (\<lambda>x. x \<noteq> c) s"
  by (induction s) (auto simp: remove_all.simps starts_with_def)

lemma filter_dropWhile: "(\<And>x. P x \<Longrightarrow> \<not> Q x) \<Longrightarrow> filter Q (dropWhile P xs) = filter Q xs"
  by (induction xs) auto

lemma filter_strip:
  assumes "\<And>x. x \<in> set cs \<Longrightarrow> \<not> Q x"
  shows "filter Q (strip_chars cs s) = filter Q s"
  using assms by (simp add: strip_chars_def filter_dropWhile flip: rev_filter)

lemma filter_letters_strip: "filter is_lower_alnum (map lower_char (strip s)) = filter is_lower_alnum (map lower_char s)"
proof -
  have no: "\<not> is_lower_alnum (lower_char x)" if "is_space x" for x
    using that by (auto simp: is_space_def is_lower_alnum_def is_digit_def lower_char_def)
  have "filter (\<lambda>x. is_lower_alnum (lower_char x)) (strip s) = filter (\<lambda>x. is_lower_alnum (lower_char x)) s"
    by (simp add: strip_def filter_dropWhile no flip: rev_filter)
  then show ?thesis by (simp add: filter_map comp_def)
qed

text \<open>
  Case, blanks and punctuation do not hide a field: only the letters and digits of a key count, and one of the
  markers among them is enough. The explicit list of field names adds nothing.
\<close>

lemma compact_key_letters: "compact_key key = filter is_lower_alnum (lower key)"
proof -
  have "compact_key key = filter (\<lambda>x. x \<noteq> CHR ''_'') (squash False (lower (strip key)))"
    unfolding compact_key_def normalized_key_def remove_all_char by (rule filter_strip) simp
  also have "\<dots> = filter is_lower_alnum (lower (strip key))"
    using squash_letters [of False "lower (strip key)"] by (simp add: remove_all_char)
  finally show ?thesis by (simp add: lower_def filter_letters_strip)
qed

lemma forbidden_key_iff:
  "is_forbidden_reference_key key \<longleftrightarrow> list_ex (\<lambda>marker. contains marker (filter is_lower_alnum (lower key))) REFERENCE_MARKERS"
proof -
  have all: "list_all (\<lambda>f. list_ex (\<lambda>marker. contains marker (remove_all ''_'' f)) REFERENCE_MARKERS) FORBIDDEN_REFERENCE_FIELDS"
    by code_simp
  show ?thesis using all unfolding is_forbidden_reference_key_def compact_key_letters [symmetric] list_all_iff
    by (auto simp: compact_key_def)
qed

end
