(* ===== verification/RegistryModels.thy ===== *)
theory RegistryModels
  imports RegistryText Decimals Responses "HOL-Library.List_Lexorder"
begin

text \<open>
  The provider marketplace tables of the capability registry
  (apps/capability-registry/src/capability_registry/models.py, infra/local-init/14-capability-registry.sql): the
  application of a provider, the evaluation it asks for, the shadow run that observes it beside a baseline, its
  samples, and the staged rollout that gives it traffic. A row belongs to one tenant or is global
  (\<open>None\<close>). Identifiers are counted as in Models. An object of a column that a client fills is a dictionary;
  the summary of a run and the entries of a rollout's history, which only the service writes, are records.
\<close>

record provider_application =
  pa_id :: nat
  pa_tenant :: "nat option"
  pa_application :: string
  pa_provider :: string
  pa_kind :: string
  pa_display :: string
  pa_organization :: string
  pa_contact :: string
  pa_homepage :: "string option"
  pa_openapi_url :: string
  pa_openapi_sha :: string
  pa_image :: string
  pa_cosign :: jdict
  pa_profile :: jdict
  pa_status :: string
  pa_submitted :: "datetime option"
  pa_meta :: jdict
  pa_created :: datetime
  pa_updated :: datetime

record provider_evaluation =
  pe_id :: nat
  pe_tenant :: "nat option"
  pe_application_row :: nat
  pe_application :: string
  pe_evaluation :: string
  pe_provider :: string
  pe_suite :: string
  pe_samples :: int
  pe_timeout :: int
  pe_status :: string
  pe_datasets :: "string list"
  pe_report :: "string option"
  pe_meta :: jdict
  pe_created :: datetime
  pe_updated :: datetime

record shadow_summary =
  ss_samples :: int
  ss_required :: int
  ss_days :: int
  ss_classes :: "string list"
  ss_counts :: "(string \<times> int) list"
  ss_successes :: int
  ss_success_rate :: rat
  ss_deviation :: rat
  ss_provider_p95 :: int
  ss_baseline_p95 :: int
  ss_p95_ratio :: rat
  ss_failed :: "string list"

record shadow_run =
  vr_id :: nat
  vr_tenant :: "nat option"
  vr_application_row :: nat
  vr_evaluation_row :: nat
  vr_application :: string
  vr_evaluation :: string
  vr_run :: string
  vr_provider :: string
  vr_suite :: string
  vr_required :: int
  vr_baseline :: string
  vr_status :: string
  vr_started :: "datetime option"
  vr_ended :: "datetime option"
  vr_summary :: "shadow_summary option"
  vr_evidence :: "string list"
  vr_meta :: jdict
  vr_created :: datetime
  vr_updated :: datetime

record shadow_sample =
  vs_id :: nat
  vs_tenant :: "nat option"
  vs_run_row :: nat
  vs_sample :: string
  vs_class :: string
  vs_dataset :: string
  vs_case :: string
  vs_observed :: datetime
  vs_code :: int
  vs_latency :: int
  vs_baseline :: int
  vs_deviation :: rat
  vs_timed_out :: bool
  vs_meta :: jdict
  vs_created :: datetime
  vs_updated :: datetime

text \<open>The entry has a metadata field only when it is not empty.\<close>

record stage_entry =
  se_action :: string
  se_stage :: int
  se_at :: datetime
  se_from :: string
  se_to :: string
  se_reason :: string
  se_meta :: jdict

record rollout =
  ro_id :: nat
  ro_tenant :: "nat option"
  ro_application_row :: nat
  ro_evaluation_row :: nat
  ro_run_row :: nat
  ro_application :: string
  ro_evaluation :: string
  ro_run :: string
  ro_rollout :: string
  ro_provider :: string
  ro_baseline :: string
  ro_suite :: string
  ro_status :: string
  ro_stage :: int
  ro_history :: "stage_entry list"
  ro_snapshot :: shadow_summary
  ro_started :: "datetime option"
  ro_completed :: "datetime option"
  ro_paused :: "datetime option"
  ro_cancelled :: "datetime option"
  ro_evidence :: "string list"
  ro_meta :: jdict
  ro_created :: datetime
  ro_updated :: datetime

record registry_db =
  rg_applications :: "provider_application list"
  rg_evaluations :: "provider_evaluation list"
  rg_runs :: "shadow_run list"
  rg_samples :: "shadow_sample list"
  rg_rollouts :: "rollout list"
  rg_next :: nat

definition empty_registry :: registry_db where
  "empty_registry = \<lparr>rg_applications = [], rg_evaluations = [], rg_runs = [], rg_samples = [], rg_rollouts = [], rg_next = 0\<rparr>"

section \<open>Shared by the routes\<close>

text \<open>\<^verbatim>\<open>_require_write_auth\<close>: without a configured secret every write is let through.\<close>

definition with_write_auth :: "string \<Rightarrow> string option \<Rightarrow> 'db \<Rightarrow> 'a outcome \<times> 'db \<Rightarrow> 'a outcome \<times> 'db" where
  "with_write_auth secret header db k = (if secret = [] \<or> header = Some secret then k else (HttpError 401, db))"

text \<open>\<^verbatim>\<open>_assert_path_id\<close> passes.\<close>

definition path_id_ok :: "string option \<Rightarrow> string \<Rightarrow> bool" where
  "path_id_ok body_value path_value \<longleftrightarrow> (case body_value of None \<Rightarrow> True | Some b \<Rightarrow> b = path_value)"

definition scope_source :: "nat option \<Rightarrow> nat option \<Rightarrow> string" where
  "scope_source row_tenant requested_tenant =
     (if row_tenant = None \<and> requested_tenant \<noteq> None then ''global_fallback''
      else if row_tenant = None then ''global'' else ''tenant'')"

definition or_else :: "'a option \<Rightarrow> 'a option \<Rightarrow> 'a option" where
  "or_else a b = (case a of None \<Rightarrow> b | Some x \<Rightarrow> Some x)"

text \<open>\<^verbatim>\<open>==\<close> of two dictionaries: the order of keys does not count.\<close>

definition same_dict :: "jdict \<Rightarrow> jdict \<Rightarrow> bool" where
  "same_dict a b \<longleftrightarrow> sort_keys (JObj a) = sort_keys (JObj b)"

lemma same_dict_refl [simp]: "same_dict d d"
  by (simp add: same_dict_def)

lemma with_write_auth_Returned:
  "with_write_auth secret header db k = (Returned r, db') \<Longrightarrow> k = (Returned r, db')"
  by (simp add: with_write_auth_def split: if_splits)

end
