(* ===== verification/ProviderApplications.thy ===== *)
theory ProviderApplications
  imports RegistryModels
begin

text \<open>
  Provider applications and their evaluation requests (apps/capability-registry/src/capability_registry/routes.py,
  bodies in schemas.py). The checks of a route precede its writes, and a request is atomic, so that no unique index
  is left to be violated at the flush.
\<close>

section \<open>Applications\<close>

record application_body =
  ab_tenant :: "nat option"
  ab_application :: "string option"
  ab_provider :: string
  ab_kind :: string
  ab_display :: string
  ab_organization :: string
  ab_contact :: string
  ab_homepage :: "string option"
  ab_openapi_url :: string
  ab_openapi_sha :: string
  ab_image :: string
  ab_cosign :: jdict
  ab_profile :: jdict
  ab_status :: string
  ab_submitted :: "datetime option"
  ab_meta :: jdict

definition application_body_ok :: "application_body \<Rightarrow> bool" where
  "application_body_ok b \<longleftrightarrow>
     optional id_ok (ab_application b) \<and> id_ok (ab_provider b) \<and> ab_kind b \<in> {''external'', ''commercial''} \<and>
     1 \<le> length (ab_display b) \<and> length (ab_display b) \<le> 120 \<and>
     1 \<le> length (ab_organization b) \<and> length (ab_organization b) \<le> 160 \<and>
     3 \<le> length (ab_contact b) \<and> length (ab_contact b) \<le> 254 \<and> email_ok (ab_contact b) \<and>
     optional http_url_ok (ab_homepage b) \<and> http_url_ok (ab_openapi_url b) \<and> sha256_ok (ab_openapi_sha b) \<and>
     digest_found (ab_image b) \<and> reference_metadata_ok (ab_cosign b) \<and> reference_metadata_ok (ab_profile b) \<and>
     reference_metadata_ok (ab_meta b) \<and> ab_status b \<in> {''draft'', ''submitted''}"

definition load_provider_application_row ::
  "string \<Rightarrow> nat option \<Rightarrow> bool \<Rightarrow> registry_db \<Rightarrow> provider_application option" where
  "load_provider_application_row application_id tenant allow_global_fallback db =
     (let row_of = (\<lambda>t. find (\<lambda>r. pa_application r = application_id \<and> pa_tenant r = t) (rg_applications db)) in
      if tenant \<noteq> None \<and> (row_of tenant \<noteq> None \<or> \<not> allow_global_fallback) then row_of tenant else row_of None)"

definition load_provider_application_by_requested_provider ::
  "string \<Rightarrow> nat option \<Rightarrow> registry_db \<Rightarrow> provider_application option" where
  "load_provider_application_by_requested_provider provider tenant db =
     find (\<lambda>r. pa_provider r = provider \<and> pa_tenant r = tenant) (rg_applications db)"

text \<open>\<^verbatim>\<open>_assert_submitted_application_immutable\<close> passes.\<close>

definition submitted_application_unchanged :: "provider_application \<Rightarrow> application_body \<Rightarrow> bool" where
  "submitted_application_unchanged row b \<longleftrightarrow>
     pa_provider row = ab_provider b \<and> pa_kind row = ab_kind b \<and> pa_openapi_url row = ab_openapi_url b \<and>
     pa_openapi_sha row = ab_openapi_sha b \<and> pa_image row = ab_image b \<and>
     same_dict (pa_cosign row) (ab_cosign b) \<and> same_dict (pa_profile row) (ab_profile b)"

definition write_application :: "datetime \<Rightarrow> application_body \<Rightarrow> datetime option \<Rightarrow> provider_application \<Rightarrow> provider_application" where
  "write_application now b submitted row =
     row\<lparr>pa_provider := ab_provider b, pa_kind := ab_kind b, pa_display := ab_display b,
         pa_organization := ab_organization b, pa_contact := ab_contact b, pa_homepage := ab_homepage b,
         pa_openapi_url := ab_openapi_url b, pa_openapi_sha := ab_openapi_sha b, pa_image := ab_image b,
         pa_cosign := ab_cosign b, pa_profile := ab_profile b, pa_status := ab_status b, pa_submitted := submitted,
         pa_meta := ab_meta b, pa_updated := now\<rparr>"

definition new_application :: "nat \<Rightarrow> string \<Rightarrow> datetime \<Rightarrow> application_body \<Rightarrow> datetime option \<Rightarrow> provider_application" where
  "new_application i application_id now b submitted =
     \<lparr>pa_id = i, pa_tenant = ab_tenant b, pa_application = application_id, pa_provider = ab_provider b,
      pa_kind = ab_kind b, pa_display = ab_display b, pa_organization = ab_organization b, pa_contact = ab_contact b,
      pa_homepage = ab_homepage b, pa_openapi_url = ab_openapi_url b, pa_openapi_sha = ab_openapi_sha b,
      pa_image = ab_image b, pa_cosign = ab_cosign b, pa_profile = ab_profile b, pa_status = ab_status b,
      pa_submitted = submitted, pa_meta = ab_meta b, pa_created = now, pa_updated = now\<rparr>"

text \<open>A row is answered with the scope it was found in.\<close>

definition application_response :: "nat option \<Rightarrow> provider_application \<Rightarrow> provider_application \<times> string" where
  "application_response requested row = (row, scope_source (pa_tenant row) requested)"

definition upsert_provider_application ::
  "string \<Rightarrow> string option \<Rightarrow> datetime \<Rightarrow> string \<Rightarrow> application_body \<Rightarrow> registry_db \<Rightarrow>
   (provider_application \<times> string) outcome \<times> registry_db" where
  "upsert_provider_application secret header now application_id body db =
     (if \<not> (id_ok application_id \<and> application_body_ok body) then (HttpError 422, db)
      else with_write_auth secret header db
        (if \<not> path_id_ok (ab_application body) application_id then (HttpError 422, db)
         else
           let row = load_provider_application_row application_id (ab_tenant body) False db;
               provider_conflict = load_provider_application_by_requested_provider (ab_provider body) (ab_tenant body) db;
               submitted = (if ab_status body = ''submitted'' \<and> ab_submitted body = None then Some now else ab_submitted body)
           in if provider_conflict \<noteq> None \<and> (row = None \<or> pa_id (the provider_conflict) \<noteq> pa_id (the row))
              then (HttpError 422, db)
              else case row of
                None \<Rightarrow>
                  let new = new_application (rg_next db) application_id now body submitted
                  in (Returned (application_response (ab_tenant body) new),
                      db\<lparr>rg_applications := rg_applications db @ [new], rg_next := Suc (rg_next db)\<rparr>)
              | Some r \<Rightarrow>
                  if ab_tenant body \<noteq> pa_tenant r then (HttpError 422, db)
                  else if pa_status r = ''submitted'' \<and> ab_status body = ''draft'' then (HttpError 422, db)
                  else if pa_status r = ''submitted'' \<and> \<not> submitted_application_unchanged r body then (HttpError 422, db)
                  else
                    let since = (if pa_status r = ''submitted'' then or_else (pa_submitted r) (or_else submitted (Some now))
                              else submitted);
                        written = write_application now body since r
                    in (Returned (application_response (ab_tenant body) written),
                        db\<lparr>rg_applications := row_put pa_id written (rg_applications db)\<rparr>)))"

definition get_provider_application ::
  "string \<Rightarrow> nat option \<Rightarrow> registry_db \<Rightarrow> (provider_application \<times> string) outcome" where
  "get_provider_application application_id tenant db =
     (if \<not> id_ok application_id then HttpError 422
      else case load_provider_application_row application_id tenant (tenant \<noteq> None) db of
        None \<Rightarrow> HttpError 404
      | Some row \<Rightarrow> Returned (application_response tenant row))"

text \<open>The rows by identifier: those of the tenant replace the global ones, each filtered on its own.\<close>

definition list_provider_applications ::
  "nat option \<Rightarrow> string option \<Rightarrow> string option \<Rightarrow> registry_db \<Rightarrow> (provider_application \<times> string) list" where
  "list_provider_applications tenant provider status db =
     (let matching = (\<lambda>r. optional (\<lambda>p. pa_provider r = p) provider \<and> optional (\<lambda>s. pa_status r = s) status);
          global_rows = filter (\<lambda>r. pa_tenant r = None \<and> matching r) (rg_applications db);
          tenant_rows = (if tenant = None then [] else filter (\<lambda>r. pa_tenant r = tenant \<and> matching r) (rg_applications db));
          kept = filter (\<lambda>r. \<not> list_ex (\<lambda>t. pa_application t = pa_application r) tenant_rows) global_rows
      in map (application_response tenant) (sort_key (\<lambda>r. map code_of (pa_application r)) (kept @ tenant_rows)))"

definition submit_provider_application ::
  "string \<Rightarrow> string option \<Rightarrow> datetime \<Rightarrow> string \<Rightarrow> nat option \<Rightarrow> registry_db \<Rightarrow>
   (provider_application \<times> string) outcome \<times> registry_db" where
  "submit_provider_application secret header now application_id tenant db =
     (if \<not> id_ok application_id then (HttpError 422, db)
      else with_write_auth secret header db
        (case load_provider_application_row application_id tenant False db of
           None \<Rightarrow> (HttpError 404, db)
         | Some row \<Rightarrow>
             if pa_status row = ''submitted'' then (Returned (application_response tenant row), db)
             else
               let written = row\<lparr>pa_status := ''submitted'', pa_submitted := or_else (pa_submitted row) (Some now),
                                 pa_updated := now\<rparr>
               in (Returned (application_response tenant written),
                   db\<lparr>rg_applications := row_put pa_id written (rg_applications db)\<rparr>)))"

section \<open>Evaluation requests\<close>

record evaluation_body =
  eb_tenant :: "nat option"
  eb_application :: "string option"
  eb_evaluation :: "string option"
  eb_suite :: string
  eb_samples :: int
  eb_timeout :: int
  eb_status :: string
  eb_datasets :: "string list"
  eb_report :: "string option"
  eb_meta :: jdict

text \<open>The body with its references stripped and without repetitions.\<close>

definition validate_evaluation :: "evaluation_body \<Rightarrow> evaluation_body option" where
  "validate_evaluation b =
     (if \<not> (optional id_ok (eb_application b) \<and> optional id_ok (eb_evaluation b) \<and> benchmark_suite_ok (eb_suite b) \<and>
            1 \<le> eb_samples b \<and> eb_samples b \<le> 500 \<and> 1 \<le> eb_timeout b \<and> eb_timeout b \<le> 60 \<and>
            eb_status b \<in> {''requested'', ''queued'', ''cancelled''} \<and> eb_datasets b \<noteq> [] \<and>
            reference_metadata_ok (eb_meta b)) then None
      else case (validate_refs (eb_datasets b), map_option validate_reference (eb_report b)) of
        (Some refs, None) \<Rightarrow> Some (b\<lparr>eb_datasets := refs\<rparr>)
      | (Some refs, Some (Some report)) \<Rightarrow> Some (b\<lparr>eb_datasets := refs, eb_report := Some report\<rparr>)
      | _ \<Rightarrow> None)"

definition load_provider_evaluation_row ::
  "nat \<Rightarrow> string \<Rightarrow> nat option \<Rightarrow> registry_db \<Rightarrow> provider_evaluation option" where
  "load_provider_evaluation_row application_row evaluation_id tenant db =
     find (\<lambda>r. pe_application_row r = application_row \<and> pe_evaluation r = evaluation_id \<and> pe_tenant r = tenant) (rg_evaluations db)"

text \<open>\<^verbatim>\<open>_assert_locked_evaluation_unchanged\<close> passes.\<close>

definition locked_evaluation_unchanged :: "provider_evaluation \<Rightarrow> evaluation_body \<Rightarrow> bool" where
  "locked_evaluation_unchanged row b \<longleftrightarrow>
     pe_status row = ''requested'' \<or>
     pe_suite row = eb_suite b \<and> pe_samples row = eb_samples b \<and> pe_timeout row = eb_timeout b \<and>
     pe_status row = eb_status b \<and> pe_datasets row = eb_datasets b \<and> pe_report row = eb_report b \<and>
     same_dict (pe_meta row) (eb_meta b)"

definition evaluation_response :: "nat option \<Rightarrow> provider_evaluation \<Rightarrow> provider_evaluation \<times> string" where
  "evaluation_response requested row = (row, scope_source (pe_tenant row) requested)"

definition new_evaluation :: "nat \<Rightarrow> provider_application \<Rightarrow> string \<Rightarrow> datetime \<Rightarrow> evaluation_body \<Rightarrow> provider_evaluation" where
  "new_evaluation i application evaluation_id now b =
     \<lparr>pe_id = i, pe_tenant = eb_tenant b, pe_application_row = pa_id application,
      pe_application = pa_application application, pe_evaluation = evaluation_id, pe_provider = pa_provider application,
      pe_suite = eb_suite b, pe_samples = eb_samples b, pe_timeout = eb_timeout b, pe_status = eb_status b,
      pe_datasets = eb_datasets b, pe_report = eb_report b, pe_meta = eb_meta b, pe_created = now, pe_updated = now\<rparr>"

definition write_evaluation :: "datetime \<Rightarrow> evaluation_body \<Rightarrow> provider_evaluation \<Rightarrow> provider_evaluation" where
  "write_evaluation now b row =
     row\<lparr>pe_suite := eb_suite b, pe_samples := eb_samples b, pe_timeout := eb_timeout b, pe_status := eb_status b,
         pe_datasets := eb_datasets b, pe_report := eb_report b, pe_meta := eb_meta b, pe_updated := now\<rparr>"

definition upsert_provider_application_evaluation ::
  "string \<Rightarrow> string option \<Rightarrow> datetime \<Rightarrow> string \<Rightarrow> string \<Rightarrow> evaluation_body \<Rightarrow> registry_db \<Rightarrow>
   (provider_evaluation \<times> string) outcome \<times> registry_db" where
  "upsert_provider_application_evaluation secret header now application_id evaluation_id raw db =
     (case validate_evaluation raw of
        None \<Rightarrow> (HttpError 422, db)
      | Some body \<Rightarrow>
          if \<not> (id_ok application_id \<and> id_ok evaluation_id) then (HttpError 422, db)
          else with_write_auth secret header db
            (if \<not> (path_id_ok (eb_application body) application_id \<and> path_id_ok (eb_evaluation body) evaluation_id)
             then (HttpError 422, db)
             else case load_provider_application_row application_id (eb_tenant body) (eb_tenant body \<noteq> None) db of
               None \<Rightarrow> (HttpError 404, db)
             | Some application \<Rightarrow>
                 if pa_status application \<noteq> ''submitted'' then (HttpError 422, db)
                 else case load_provider_evaluation_row (pa_id application) evaluation_id (eb_tenant body) db of
                   None \<Rightarrow>
                     let new = new_evaluation (rg_next db) application evaluation_id now body
                     in (Returned (evaluation_response (eb_tenant body) new),
                         db\<lparr>rg_evaluations := rg_evaluations db @ [new], rg_next := Suc (rg_next db)\<rparr>)
                 | Some row \<Rightarrow>
                     if \<not> locked_evaluation_unchanged row body then (HttpError 422, db)
                     else
                       let written = write_evaluation now body row
                       in (Returned (evaluation_response (eb_tenant body) written),
                           db\<lparr>rg_evaluations := row_put pe_id written (rg_evaluations db)\<rparr>)))"

definition get_provider_application_evaluation ::
  "string \<Rightarrow> string \<Rightarrow> nat option \<Rightarrow> registry_db \<Rightarrow> (provider_evaluation \<times> string) outcome" where
  "get_provider_application_evaluation application_id evaluation_id tenant db =
     (if \<not> (id_ok application_id \<and> id_ok evaluation_id) then HttpError 422
      else case load_provider_application_row application_id tenant (tenant \<noteq> None) db of
        None \<Rightarrow> HttpError 404
      | Some application \<Rightarrow>
          (case load_provider_evaluation_row (pa_id application) evaluation_id tenant db of
             None \<Rightarrow> HttpError 404
           | Some row \<Rightarrow> Returned (evaluation_response tenant row)))"

definition list_provider_application_evaluations ::
  "string \<Rightarrow> nat option \<Rightarrow> string option \<Rightarrow> registry_db \<Rightarrow> (provider_evaluation \<times> string) list outcome" where
  "list_provider_application_evaluations application_id tenant status db =
     (if \<not> id_ok application_id then HttpError 422
      else case load_provider_application_row application_id tenant (tenant \<noteq> None) db of
        None \<Rightarrow> HttpError 404
      | Some application \<Rightarrow>
          Returned (map (evaluation_response tenant)
            (sort_key (\<lambda>r. map code_of (pe_evaluation r))
              (filter (\<lambda>r. pe_application_row r = pa_id application \<and> pe_tenant r = tenant \<and>
                 optional (\<lambda>s. pe_status r = s) status) (rg_evaluations db)))))"

end
