(* ===== verification/ShadowValidation.thy ===== *)
theory ShadowValidation
  imports ProviderApplications
begin

text \<open>
  Shadow validation (apps/capability-registry/src/capability_registry/routes.py, the routes under
  \<^verbatim>\<open>shadow-runs\<close>): a run observes a provider beside its baseline, collects samples while it is running, and is
  finalized to passed or failed by the summary of its samples. \<open>decided\<close> are the states a run does not leave.
  Latencies are whole milliseconds; 0.95 times a number of samples is exact enough in binary floating point that
  rounding it up gives the same rank as the rational.
\<close>

section \<open>The thresholds and the summary\<close>

definition SHADOW_REQUIRED_COVERAGE_CLASSES :: "string list" where
  "SHADOW_REQUIRED_COVERAGE_CLASSES = [''platform_standard'', ''provider_supplied'', ''adversarial'', ''desensitized_real'']"

definition SHADOW_MIN_OBSERVED_DAYS :: int where
  "SHADOW_MIN_OBSERVED_DAYS = 14"

definition SHADOW_MIN_SAMPLE_COUNT :: int where
  "SHADOW_MIN_SAMPLE_COUNT = 500"

definition SHADOW_MIN_SAMPLES_PER_COVERAGE_CLASS :: int where
  "SHADOW_MIN_SAMPLES_PER_COVERAGE_CLASS = 1"

definition SHADOW_MIN_SUCCESS_RATE :: rat where
  "SHADOW_MIN_SUCCESS_RATE = 98/100"

definition SHADOW_MAX_AVERAGE_DEVIATION :: rat where
  "SHADOW_MAX_AVERAGE_DEVIATION = 2/100"

definition SHADOW_MAX_P95_LATENCY_RATIO :: rat where
  "SHADOW_MAX_P95_LATENCY_RATIO = 3/2"

definition sample_passed :: "shadow_sample \<Rightarrow> bool" where
  "sample_passed r \<longleftrightarrow> 200 \<le> vs_code r \<and> vs_code r \<le> 299 \<and> \<not> vs_timed_out r \<and> vs_deviation r \<le> SHADOW_MAX_AVERAGE_DEVIATION"

definition nearest_rank_p95 :: "int list \<Rightarrow> int" where
  "nearest_rank_p95 values =
     (if values = [] then 0
      else sort values ! nat (max 0 (\<lceil>95/100 * (of_nat (length values) :: rat)\<rceil> - 1)))"

definition decimal_ratio :: "int \<Rightarrow> int \<Rightarrow> rat" where
  "decimal_ratio numerator denominator =
     (if denominator \<le> 0 then 0 else quantize_half_even 6 (of_int numerator / of_int denominator))"

text \<open>\<^verbatim>\<open>timedelta.days\<close>.\<close>

definition whole_days :: "int \<Rightarrow> int" where
  "whole_days us = us div day_us"

definition observed_span :: "shadow_sample list \<Rightarrow> int" where
  "observed_span samples =
     (if samples = [] then 0
      else whole_days (dt_minus (Max (set (map vs_observed samples))) (Min (set (map vs_observed samples)))))"

definition class_count :: "shadow_sample list \<Rightarrow> string \<Rightarrow> int" where
  "class_count samples c = int (length (filter (\<lambda>s. vs_class s = c) samples))"

definition average_deviation :: "shadow_sample list \<Rightarrow> rat" where
  "average_deviation samples =
     (if samples = [] then 0 else quantize_half_even 6 (sum_list (map vs_deviation samples) / of_nat (length samples)))"

definition p95_ratio :: "int \<Rightarrow> int \<Rightarrow> rat" where
  "p95_ratio provider_p95 baseline_p95 =
     (if 0 < baseline_p95 then quantize_half_even 6 (of_int provider_p95 / of_int baseline_p95) else 999999999999/1000000)"

text \<open>\<^verbatim>\<open>_shadow_summary_from_samples\<close>; of the run it reads the number of samples its evaluation asks for.\<close>

definition shadow_summary_from_samples :: "int \<Rightarrow> shadow_sample list \<Rightarrow> shadow_summary" where
  "shadow_summary_from_samples required samples =
     (let sample_count = int (length samples);
          covered = (\<lambda>c. SHADOW_MIN_SAMPLES_PER_COVERAGE_CLASS \<le> class_count samples c);
          success_count = int (length (filter sample_passed samples));
          success_rate = decimal_ratio success_count sample_count;
          deviation = average_deviation samples;
          provider_p95 = nearest_rank_p95 (map vs_latency samples);
          baseline_p95 = nearest_rank_p95 (map vs_baseline samples);
          ratio = p95_ratio provider_p95 baseline_p95;
          reason = (\<lambda>b r. if b then [r] else [])
      in \<lparr>ss_samples = sample_count, ss_required = required, ss_days = observed_span samples,
          ss_classes = filter covered SHADOW_REQUIRED_COVERAGE_CLASSES,
          ss_counts = map (\<lambda>c. (c, class_count samples c)) SHADOW_REQUIRED_COVERAGE_CLASSES,
          ss_successes = success_count, ss_success_rate = success_rate, ss_deviation = deviation,
          ss_provider_p95 = provider_p95, ss_baseline_p95 = baseline_p95, ss_p95_ratio = ratio,
          ss_failed =
            reason (required \<noteq> SHADOW_MIN_SAMPLE_COUNT) ''evaluation_sample_count_below_required'' @
            reason (sample_count \<noteq> required \<or> sample_count \<noteq> SHADOW_MIN_SAMPLE_COUNT) ''sample_count_mismatch'' @
            reason (observed_span samples < SHADOW_MIN_OBSERVED_DAYS) ''observed_day_span_below_threshold'' @
            reason (\<not> list_all covered SHADOW_REQUIRED_COVERAGE_CLASSES) ''coverage_class_missing'' @
            reason (success_rate < SHADOW_MIN_SUCCESS_RATE) ''success_rate_below_threshold'' @
            reason (SHADOW_MAX_AVERAGE_DEVIATION < deviation) ''average_deviation_above_threshold'' @
            reason (baseline_p95 \<le> 0 \<or> SHADOW_MAX_P95_LATENCY_RATIO < ratio) ''p95_latency_ratio_above_threshold''\<rparr>)"

section \<open>Runs\<close>

text \<open>The application must be submitted and the evaluation not cancelled.\<close>

definition resolve_shadow_evaluation ::
  "string \<Rightarrow> string \<Rightarrow> nat option \<Rightarrow> registry_db \<Rightarrow> int + provider_application \<times> provider_evaluation" where
  "resolve_shadow_evaluation application_id evaluation_id tenant db =
     (case load_provider_application_row application_id tenant (tenant \<noteq> None) db of
        None \<Rightarrow> Inl 404
      | Some application \<Rightarrow>
          if pa_status application \<noteq> ''submitted'' then Inl 422
          else case load_provider_evaluation_row (pa_id application) evaluation_id tenant db of
            None \<Rightarrow> Inl 404
          | Some evaluation \<Rightarrow>
              if pe_status evaluation = ''cancelled'' then Inl 422 else Inr (application, evaluation))"

definition load_shadow_run_row :: "nat \<Rightarrow> string \<Rightarrow> nat option \<Rightarrow> registry_db \<Rightarrow> shadow_run option" where
  "load_shadow_run_row evaluation_row run_id tenant db =
     find (\<lambda>r. vr_evaluation_row r = evaluation_row \<and> vr_run r = run_id \<and> vr_tenant r = tenant) (rg_runs db)"

definition load_shadow_sample_row :: "nat \<Rightarrow> string \<Rightarrow> nat option \<Rightarrow> registry_db \<Rightarrow> shadow_sample option" where
  "load_shadow_sample_row run_row sample_id tenant db =
     find (\<lambda>r. vs_run_row r = run_row \<and> vs_sample r = sample_id \<and> vs_tenant r = tenant) (rg_samples db)"

text \<open>The run of a request under its evaluation; a missing one is 404.\<close>

definition resolve_shadow_run ::
  "string \<Rightarrow> string \<Rightarrow> string \<Rightarrow> nat option \<Rightarrow> registry_db \<Rightarrow> int + provider_application \<times> provider_evaluation \<times> shadow_run" where
  "resolve_shadow_run application_id evaluation_id run_id tenant db =
     (case resolve_shadow_evaluation application_id evaluation_id tenant db of
        Inl st \<Rightarrow> Inl st
      | Inr (application, evaluation) \<Rightarrow>
          (case load_shadow_run_row (pe_id evaluation) run_id tenant db of
             None \<Rightarrow> Inl 404
           | Some run \<Rightarrow> Inr (application, evaluation, run)))"

record run_body =
  rb_tenant :: "nat option"
  rb_application :: "string option"
  rb_evaluation :: "string option"
  rb_run :: "string option"
  rb_baseline :: string
  rb_status :: "string option"
  rb_started :: "datetime option"
  rb_evidence :: "string list"
  rb_meta :: jdict

definition validate_run :: "run_body \<Rightarrow> run_body option" where
  "validate_run b =
     (if \<not> (optional id_ok (rb_application b) \<and> optional id_ok (rb_evaluation b) \<and> optional id_ok (rb_run b) \<and>
            id_ok (rb_baseline b) \<and> optional (\<lambda>s. s \<in> {''draft'', ''running'', ''cancelled''}) (rb_status b) \<and>
            reference_metadata_ok (rb_meta b)) then None
      else map_option (\<lambda>refs. b\<lparr>rb_evidence := refs\<rparr>) (validate_refs (rb_evidence b)))"

definition decided :: "string \<Rightarrow> bool" where
  "decided st \<longleftrightarrow> st \<in> {''passed'', ''failed'', ''cancelled''}"

text \<open>\<^verbatim>\<open>_assert_locked_shadow_run_unchanged\<close> passes.\<close>

definition locked_run_unchanged :: "shadow_run \<Rightarrow> run_body \<Rightarrow> bool" where
  "locked_run_unchanged row b \<longleftrightarrow>
     vr_baseline row = rb_baseline b \<and> vr_started row = rb_started b \<and> vr_evidence row = rb_evidence b \<and>
     same_dict (vr_meta row) (rb_meta b) \<and> optional (\<lambda>s. s = vr_status row) (rb_status b)"

definition shadow_run_response :: "nat option \<Rightarrow> shadow_run \<Rightarrow> shadow_run \<times> string" where
  "shadow_run_response requested row = (row, scope_source (vr_tenant row) requested)"

definition new_run ::
  "nat \<Rightarrow> provider_application \<Rightarrow> provider_evaluation \<Rightarrow> string \<Rightarrow> datetime \<Rightarrow> run_body \<Rightarrow> string \<Rightarrow> datetime option \<Rightarrow> shadow_run" where
  "new_run i application evaluation run_id now b st started =
     \<lparr>vr_id = i, vr_tenant = rb_tenant b, vr_application_row = pa_id application, vr_evaluation_row = pe_id evaluation,
      vr_application = pa_application application, vr_evaluation = pe_evaluation evaluation, vr_run = run_id,
      vr_provider = pe_provider evaluation, vr_suite = pe_suite evaluation, vr_required = pe_samples evaluation,
      vr_baseline = rb_baseline b, vr_status = st, vr_started = started, vr_ended = None, vr_summary = None,
      vr_evidence = rb_evidence b, vr_meta = rb_meta b, vr_created = now, vr_updated = now\<rparr>"

definition write_run :: "datetime \<Rightarrow> run_body \<Rightarrow> string \<Rightarrow> datetime option \<Rightarrow> shadow_run \<Rightarrow> shadow_run" where
  "write_run now b st started row =
     row\<lparr>vr_baseline := rb_baseline b, vr_status := st, vr_started := or_else (vr_started row) started,
         vr_evidence := rb_evidence b, vr_meta := rb_meta b, vr_updated := now\<rparr>"

definition upsert_provider_shadow_run ::
  "string \<Rightarrow> string option \<Rightarrow> datetime \<Rightarrow> string \<Rightarrow> string \<Rightarrow> string \<Rightarrow> run_body \<Rightarrow> registry_db \<Rightarrow>
   (shadow_run \<times> string) outcome \<times> registry_db" where
  "upsert_provider_shadow_run secret header now application_id evaluation_id run_id raw db =
     (case validate_run raw of
        None \<Rightarrow> (HttpError 422, db)
      | Some body \<Rightarrow>
          if \<not> (id_ok application_id \<and> id_ok evaluation_id \<and> id_ok run_id) then (HttpError 422, db)
          else with_write_auth secret header db
            (if \<not> (path_id_ok (rb_application body) application_id \<and> path_id_ok (rb_evaluation body) evaluation_id \<and>
                   path_id_ok (rb_run body) run_id) then (HttpError 422, db)
             else case resolve_shadow_evaluation application_id evaluation_id (rb_tenant body) db of
               Inl st \<Rightarrow> (HttpError st, db)
             | Inr (application, evaluation) \<Rightarrow>
                 let row = load_shadow_run_row (pe_id evaluation) run_id (rb_tenant body) db;
                     requested = (case rb_status body of
                         Some s \<Rightarrow> s | None \<Rightarrow> (case row of Some r \<Rightarrow> vr_status r | None \<Rightarrow> ''draft''));
                     started = (if requested = ''running'' \<and> rb_started body = None then Some now else rb_started body)
                 in case row of
                      None \<Rightarrow>
                        let new = new_run (rg_next db) application evaluation run_id now body requested started
                        in (Returned (shadow_run_response (rb_tenant body) new),
                            db\<lparr>rg_runs := rg_runs db @ [new], rg_next := Suc (rg_next db)\<rparr>)
                    | Some r \<Rightarrow>
                        if rb_tenant body \<noteq> vr_tenant r then (HttpError 422, db)
                        else if decided (vr_status r) then
                          (if locked_run_unchanged r body then (Returned (shadow_run_response (rb_tenant body) r), db)
                           else (HttpError 422, db))
                        else if vr_status r = ''running'' \<and> requested = ''draft'' then (HttpError 422, db)
                        else if vr_status r = ''running'' \<and> rb_baseline body \<noteq> vr_baseline r then (HttpError 422, db)
                        else
                          let written = write_run now body requested started r
                          in (Returned (shadow_run_response (rb_tenant body) written),
                              db\<lparr>rg_runs := row_put vr_id written (rg_runs db)\<rparr>)))"

definition get_provider_shadow_run ::
  "string \<Rightarrow> string \<Rightarrow> string \<Rightarrow> nat option \<Rightarrow> registry_db \<Rightarrow> (shadow_run \<times> string) outcome" where
  "get_provider_shadow_run application_id evaluation_id run_id tenant db =
     (if \<not> (id_ok application_id \<and> id_ok evaluation_id \<and> id_ok run_id) then HttpError 422
      else case resolve_shadow_run application_id evaluation_id run_id tenant db of
        Inl st \<Rightarrow> HttpError st
      | Inr (_, _, run) \<Rightarrow> Returned (shadow_run_response tenant run))"

definition list_provider_shadow_runs ::
  "string \<Rightarrow> string \<Rightarrow> nat option \<Rightarrow> string option \<Rightarrow> registry_db \<Rightarrow> (shadow_run \<times> string) list outcome" where
  "list_provider_shadow_runs application_id evaluation_id tenant status db =
     (if \<not> (id_ok application_id \<and> id_ok evaluation_id) then HttpError 422
      else case resolve_shadow_evaluation application_id evaluation_id tenant db of
        Inl st \<Rightarrow> HttpError st
      | Inr (_, evaluation) \<Rightarrow>
          Returned (map (shadow_run_response tenant)
            (sort_key (\<lambda>r. map code_of (vr_run r))
              (filter (\<lambda>r. vr_evaluation_row r = pe_id evaluation \<and> vr_tenant r = tenant \<and>
                 optional (\<lambda>s. vr_status r = s) status) (rg_runs db)))))"

section \<open>Samples\<close>

record sample_body =
  sb_tenant :: "nat option"
  sb_sample :: "string option"
  sb_class :: string
  sb_dataset :: string
  sb_case :: string
  sb_observed :: datetime
  sb_code :: int
  sb_latency :: int
  sb_baseline :: int
  sb_deviation :: rat
  sb_timed_out :: bool
  sb_meta :: jdict

definition validate_sample :: "sample_body \<Rightarrow> sample_body option" where
  "validate_sample b =
     (if \<not> (optional id_ok (sb_sample b) \<and> sb_class b \<in> set SHADOW_REQUIRED_COVERAGE_CLASSES \<and>
            100 \<le> sb_code b \<and> sb_code b \<le> 599 \<and> 1 \<le> sb_latency b \<and> 1 \<le> sb_baseline b \<and>
            0 \<le> sb_deviation b \<and> sb_deviation b \<le> 999999999/1000000 \<and> reference_metadata_ok (sb_meta b)) then None
      else case (validate_reference (sb_dataset b), validate_reference (sb_case b)) of
        (Some d, Some c) \<Rightarrow>
          Some (b\<lparr>sb_dataset := d, sb_case := c, sb_deviation := quantize_half_even 6 (sb_deviation b)\<rparr>)
      | _ \<Rightarrow> None)"

definition write_sample :: "datetime \<Rightarrow> sample_body \<Rightarrow> shadow_sample \<Rightarrow> shadow_sample" where
  "write_sample now b row =
     row\<lparr>vs_class := sb_class b, vs_dataset := sb_dataset b, vs_case := sb_case b, vs_observed := sb_observed b,
         vs_code := sb_code b, vs_latency := sb_latency b, vs_baseline := sb_baseline b,
         vs_deviation := sb_deviation b, vs_timed_out := sb_timed_out b, vs_meta := sb_meta b, vs_updated := now\<rparr>"

definition new_sample :: "nat \<Rightarrow> nat \<Rightarrow> string \<Rightarrow> datetime \<Rightarrow> sample_body \<Rightarrow> shadow_sample" where
  "new_sample i run_row sample_id now b =
     \<lparr>vs_id = i, vs_tenant = sb_tenant b, vs_run_row = run_row, vs_sample = sample_id, vs_class = sb_class b,
      vs_dataset = sb_dataset b, vs_case = sb_case b, vs_observed = sb_observed b, vs_code = sb_code b,
      vs_latency = sb_latency b, vs_baseline = sb_baseline b, vs_deviation = sb_deviation b,
      vs_timed_out = sb_timed_out b, vs_meta = sb_meta b, vs_created = now, vs_updated = now\<rparr>"

definition sample_response :: "nat option \<Rightarrow> shadow_sample \<Rightarrow> shadow_sample \<times> bool \<times> string" where
  "sample_response requested row = (row, sample_passed row, scope_source (vs_tenant row) requested)"

definition upsert_provider_shadow_sample ::
  "string \<Rightarrow> string option \<Rightarrow> datetime \<Rightarrow> string \<Rightarrow> string \<Rightarrow> string \<Rightarrow> string \<Rightarrow> sample_body \<Rightarrow> registry_db \<Rightarrow>
   (shadow_sample \<times> bool \<times> string) outcome \<times> registry_db" where
  "upsert_provider_shadow_sample secret header now application_id evaluation_id run_id sample_id raw db =
     (case validate_sample raw of
        None \<Rightarrow> (HttpError 422, db)
      | Some body \<Rightarrow>
          if \<not> (id_ok application_id \<and> id_ok evaluation_id \<and> id_ok run_id \<and> id_ok sample_id) then (HttpError 422, db)
          else with_write_auth secret header db
            (if \<not> path_id_ok (sb_sample body) sample_id then (HttpError 422, db)
             else case resolve_shadow_run application_id evaluation_id run_id (sb_tenant body) db of
               Inl st \<Rightarrow> (HttpError st, db)
             | Inr (_, _, run) \<Rightarrow>
                 if vr_status run \<noteq> ''running'' then (HttpError 422, db)
                 else if sb_tenant body \<noteq> vr_tenant run then (HttpError 422, db)
                 else case load_shadow_sample_row (vr_id run) sample_id (sb_tenant body) db of
                   None \<Rightarrow>
                     if vr_required run \<le> int (length (filter (\<lambda>r. vs_run_row r = vr_id run \<and> vs_tenant r = sb_tenant body)
                                                  (rg_samples db))) then (HttpError 422, db)
                     else
                       let new = new_sample (rg_next db) (vr_id run) sample_id now body
                       in (Returned (sample_response (sb_tenant body) new),
                           db\<lparr>rg_samples := rg_samples db @ [new], rg_next := Suc (rg_next db)\<rparr>)
                 | Some row \<Rightarrow>
                     let written = write_sample now body row
                     in (Returned (sample_response (sb_tenant body) written),
                         db\<lparr>rg_samples := row_put vs_id written (rg_samples db)\<rparr>)))"

definition get_provider_shadow_sample ::
  "string \<Rightarrow> string \<Rightarrow> string \<Rightarrow> string \<Rightarrow> nat option \<Rightarrow> registry_db \<Rightarrow> (shadow_sample \<times> bool \<times> string) outcome" where
  "get_provider_shadow_sample application_id evaluation_id run_id sample_id tenant db =
     (if \<not> (id_ok application_id \<and> id_ok evaluation_id \<and> id_ok run_id \<and> id_ok sample_id) then HttpError 422
      else case resolve_shadow_run application_id evaluation_id run_id tenant db of
        Inl st \<Rightarrow> HttpError st
      | Inr (_, _, run) \<Rightarrow>
          (case load_shadow_sample_row (vr_id run) sample_id tenant db of
             None \<Rightarrow> HttpError 404
           | Some row \<Rightarrow> Returned (sample_response tenant row)))"

definition list_provider_shadow_samples ::
  "string \<Rightarrow> string \<Rightarrow> string \<Rightarrow> nat option \<Rightarrow> string option \<Rightarrow> bool option \<Rightarrow> registry_db \<Rightarrow>
   (shadow_sample \<times> bool \<times> string) list outcome" where
  "list_provider_shadow_samples application_id evaluation_id run_id tenant coverage_class passed db =
     (if \<not> (id_ok application_id \<and> id_ok evaluation_id \<and> id_ok run_id) then HttpError 422
      else case resolve_shadow_run application_id evaluation_id run_id tenant db of
        Inl st \<Rightarrow> HttpError st
      | Inr (_, _, run) \<Rightarrow>
          Returned (map (sample_response tenant)
            (filter (\<lambda>r. optional (\<lambda>p. sample_passed r = p) passed)
              (sort_key (\<lambda>r. map code_of (vs_sample r))
                (filter (\<lambda>r. vs_run_row r = vr_id run \<and> vs_tenant r = tenant \<and> optional (\<lambda>c. vs_class r = c) coverage_class)
                  (rg_samples db))))))"

section \<open>The decision\<close>

definition samples_of_run :: "nat \<Rightarrow> registry_db \<Rightarrow> shadow_sample list" where
  "samples_of_run run_row db =
     sort_key (\<lambda>r. map code_of (vs_sample r)) (filter (\<lambda>r. vs_run_row r = run_row) (rg_samples db))"

definition decide_run :: "datetime \<Rightarrow> shadow_summary \<Rightarrow> shadow_run \<Rightarrow> shadow_run" where
  "decide_run now summary run =
     run\<lparr>vr_summary := Some summary, vr_status := (if ss_failed summary = [] then ''passed'' else ''failed''),
         vr_ended := or_else (vr_ended run) (Some now), vr_updated := now\<rparr>"

definition finalize_provider_shadow_run ::
  "string \<Rightarrow> string option \<Rightarrow> datetime \<Rightarrow> string \<Rightarrow> string \<Rightarrow> string \<Rightarrow> nat option \<Rightarrow> registry_db \<Rightarrow>
   (shadow_run \<times> string) outcome \<times> registry_db" where
  "finalize_provider_shadow_run secret header now application_id evaluation_id run_id tenant db =
     (if \<not> (id_ok application_id \<and> id_ok evaluation_id \<and> id_ok run_id) then (HttpError 422, db)
      else with_write_auth secret header db
        (case resolve_shadow_run application_id evaluation_id run_id tenant db of
           Inl st \<Rightarrow> (HttpError st, db)
         | Inr (_, _, run) \<Rightarrow>
             if vr_status run \<in> {''passed'', ''failed''} then (Returned (shadow_run_response tenant run), db)
             else if vr_status run \<noteq> ''running'' then (HttpError 422, db)
             else
               let written = decide_run now (shadow_summary_from_samples (vr_required run) (samples_of_run (vr_id run) db)) run
               in (Returned (shadow_run_response tenant written), db\<lparr>rg_runs := row_put vr_id written (rg_runs db)\<rparr>)))"

end
