(* ===== verification/Rollouts.thy ===== *)
theory Rollouts
  imports ShadowValidation
begin

text \<open>
  Staged rollouts of a provider (apps/capability-registry/src/capability_registry/routes.py, the routes under
  \<^verbatim>\<open>rollouts\<close>): created from a passed shadow run as a draft at 0 percent, advanced to 5, 50 and 100 percent,
  paused on the way, or cancelled. Each action appends an entry to the history.
\<close>

definition ROLLOUT_STAGES :: "int list" where
  "ROLLOUT_STAGES = [0, 5, 50, 100]"

fun stage_after :: "int \<Rightarrow> int list \<Rightarrow> int option" where
  "stage_after s (x # y # rest) = (if s = x then Some y else stage_after s (y # rest))"
| "stage_after s _ = None"

definition next_rollout_stage :: "int \<Rightarrow> int option" where
  "next_rollout_stage stage = stage_after stage ROLLOUT_STAGES"

definition load_rollout_row :: "nat \<Rightarrow> string \<Rightarrow> nat option \<Rightarrow> registry_db \<Rightarrow> rollout option" where
  "load_rollout_row run_row rollout_id tenant db =
     find (\<lambda>r. ro_run_row r = run_row \<and> ro_rollout r = rollout_id \<and> ro_tenant r = tenant) (rg_rollouts db)"

record rollout_body =
  ob_tenant :: "nat option"
  ob_application :: "string option"
  ob_evaluation :: "string option"
  ob_run :: "string option"
  ob_rollout :: "string option"
  ob_evidence :: "string list"
  ob_meta :: jdict

definition validate_rollout :: "rollout_body \<Rightarrow> rollout_body option" where
  "validate_rollout b =
     (if \<not> (optional id_ok (ob_application b) \<and> optional id_ok (ob_evaluation b) \<and> optional id_ok (ob_run b) \<and>
            optional id_ok (ob_rollout b) \<and> reference_metadata_ok (ob_meta b)) then None
      else map_option (\<lambda>refs. b\<lparr>ob_evidence := refs\<rparr>) (validate_refs (ob_evidence b)))"

definition rollout_body_matches_path :: "rollout_body \<Rightarrow> string \<Rightarrow> string \<Rightarrow> string \<Rightarrow> string \<Rightarrow> bool" where
  "rollout_body_matches_path b application_id evaluation_id run_id rollout_id \<longleftrightarrow>
     path_id_ok (ob_application b) application_id \<and> path_id_ok (ob_evaluation b) evaluation_id \<and>
     path_id_ok (ob_run b) run_id \<and> path_id_ok (ob_rollout b) rollout_id"

record rollout_action =
  oa_target :: "int option"
  oa_reason :: string
  oa_meta :: jdict

definition validate_action :: "rollout_action \<Rightarrow> rollout_action option" where
  "validate_action a =
     (if \<not> (optional (\<lambda>s. s \<in> set ROLLOUT_STAGES) (oa_target a) \<and> reference_metadata_ok (oa_meta a)) then None
      else map_option (\<lambda>r. a\<lparr>oa_reason := r\<rparr>) (validate_reference (oa_reason a)))"

definition append_stage_history ::
  "datetime \<Rightarrow> string \<Rightarrow> string \<Rightarrow> int \<Rightarrow> rollout_action \<Rightarrow> rollout \<Rightarrow> rollout" where
  "append_stage_history now action to_status stage_percent a row =
     row\<lparr>ro_history := ro_history row @
           [\<lparr>se_action = action, se_stage = stage_percent, se_at = now, se_from = ro_status row, se_to = to_status,
             se_reason = oa_reason a, se_meta = oa_meta a\<rparr>]\<rparr>"

definition rollout_response :: "nat option \<Rightarrow> rollout \<Rightarrow> rollout \<times> string" where
  "rollout_response requested row = (row, scope_source (ro_tenant row) requested)"

section \<open>Creation\<close>

definition new_rollout ::
  "nat \<Rightarrow> provider_application \<Rightarrow> provider_evaluation \<Rightarrow> shadow_run \<Rightarrow> shadow_summary \<Rightarrow> string \<Rightarrow> datetime \<Rightarrow> rollout_body \<Rightarrow> rollout" where
  "new_rollout i application evaluation run summary rollout_id now b =
     \<lparr>ro_id = i, ro_tenant = ob_tenant b, ro_application_row = pa_id application, ro_evaluation_row = pe_id evaluation,
      ro_run_row = vr_id run, ro_application = pa_application application, ro_evaluation = pe_evaluation evaluation,
      ro_run = vr_run run, ro_rollout = rollout_id, ro_provider = vr_provider run, ro_baseline = vr_baseline run,
      ro_suite = vr_suite run, ro_status = ''draft'', ro_stage = 0, ro_history = [], ro_snapshot = summary,
      ro_started = None, ro_completed = None, ro_paused = None, ro_cancelled = None, ro_evidence = ob_evidence b,
      ro_meta = ob_meta b, ro_created = now, ro_updated = now\<rparr>"

definition upsert_provider_rollout ::
  "string \<Rightarrow> string option \<Rightarrow> datetime \<Rightarrow> string \<Rightarrow> string \<Rightarrow> string \<Rightarrow> string \<Rightarrow> rollout_body \<Rightarrow> registry_db \<Rightarrow>
   (rollout \<times> string) outcome \<times> registry_db" where
  "upsert_provider_rollout secret header now application_id evaluation_id run_id rollout_id raw db =
     (case validate_rollout raw of
        None \<Rightarrow> (HttpError 422, db)
      | Some body \<Rightarrow>
          if \<not> (id_ok application_id \<and> id_ok evaluation_id \<and> id_ok run_id \<and> id_ok rollout_id) then (HttpError 422, db)
          else with_write_auth secret header db
            (if \<not> rollout_body_matches_path body application_id evaluation_id run_id rollout_id then (HttpError 422, db)
             else case resolve_shadow_run application_id evaluation_id run_id (ob_tenant body) db of
               Inl st \<Rightarrow> (HttpError st, db)
             | Inr (application, evaluation, run) \<Rightarrow>
                 (case vr_summary run of
                    None \<Rightarrow> (HttpError 422, db)
                  | Some summary \<Rightarrow>
                      if vr_status run \<noteq> ''passed'' then (HttpError 422, db)
                      else if ss_failed summary \<noteq> [] then (HttpError 422, db)
                      else case load_rollout_row (vr_id run) rollout_id (ob_tenant body) db of
                        None \<Rightarrow>
                          let new = new_rollout (rg_next db) application evaluation run summary rollout_id now body
                          in (Returned (rollout_response (ob_tenant body) new),
                              db\<lparr>rg_rollouts := rg_rollouts db @ [new], rg_next := Suc (rg_next db)\<rparr>)
                      | Some row \<Rightarrow>
                          if ob_tenant body \<noteq> ro_tenant row then (HttpError 422, db)
                          else if ro_status row \<noteq> ''draft'' then (HttpError 422, db)
                          else
                            let written = row\<lparr>ro_evidence := ob_evidence body, ro_meta := ob_meta body, ro_updated := now\<rparr>
                            in (Returned (rollout_response (ob_tenant body) written),
                                db\<lparr>rg_rollouts := row_put ro_id written (rg_rollouts db)\<rparr>))))"

section \<open>Actions\<close>

text \<open>
  The frame of the three actions: the rollout is found and locked, and the action answers with an error or with the
  row as it leaves it (\<open>None\<close>: unchanged, a replay).
\<close>

definition rollout_action_route ::
  "(rollout_action \<Rightarrow> rollout \<Rightarrow> int + rollout option) \<Rightarrow>
   string \<Rightarrow> string option \<Rightarrow> string \<Rightarrow> string \<Rightarrow> string \<Rightarrow> string \<Rightarrow> rollout_action \<Rightarrow> nat option \<Rightarrow> registry_db \<Rightarrow>
   (rollout \<times> string) outcome \<times> registry_db" where
  "rollout_action_route act secret header application_id evaluation_id run_id rollout_id raw tenant db =
     (case validate_action raw of
        None \<Rightarrow> (HttpError 422, db)
      | Some body \<Rightarrow>
          if \<not> (id_ok application_id \<and> id_ok evaluation_id \<and> id_ok run_id \<and> id_ok rollout_id) then (HttpError 422, db)
          else with_write_auth secret header db
            (case resolve_shadow_run application_id evaluation_id run_id tenant db of
               Inl st \<Rightarrow> (HttpError st, db)
             | Inr (_, _, run) \<Rightarrow>
                 (case load_rollout_row (vr_id run) rollout_id tenant db of
                    None \<Rightarrow> (HttpError 404, db)
                  | Some row \<Rightarrow>
                      (case act body row of
                         Inl st \<Rightarrow> (HttpError st, db)
                       | Inr None \<Rightarrow> (Returned (rollout_response tenant row), db)
                       | Inr (Some written) \<Rightarrow>
                           (Returned (rollout_response tenant written),
                            db\<lparr>rg_rollouts := row_put ro_id written (rg_rollouts db)\<rparr>)))))"

text \<open>The row after each action.\<close>

definition advanced :: "datetime \<Rightarrow> rollout_action \<Rightarrow> int \<Rightarrow> rollout \<Rightarrow> rollout" where
  "advanced now a next_stage row =
     (let to_status = (if next_stage = 100 then ''completed'' else ''active'') in
      (append_stage_history now ''advance'' to_status next_stage a row)
        \<lparr>ro_status := to_status, ro_stage := next_stage, ro_started := or_else (ro_started row) (Some now),
         ro_completed := (if next_stage = 100 then or_else (ro_completed row) (Some now) else ro_completed row),
         ro_paused := (if ro_status row = ''paused'' then or_else (ro_paused row) (Some now) else ro_paused row),
         ro_updated := now\<rparr>)"

definition paused :: "datetime \<Rightarrow> rollout_action \<Rightarrow> rollout \<Rightarrow> rollout" where
  "paused now a row =
     (append_stage_history now ''pause'' ''paused'' (ro_stage row) a row)
       \<lparr>ro_status := ''paused'', ro_paused := or_else (ro_paused row) (Some now), ro_updated := now\<rparr>"

definition cancelled :: "datetime \<Rightarrow> rollout_action \<Rightarrow> rollout \<Rightarrow> rollout" where
  "cancelled now a row =
     (append_stage_history now ''cancel'' ''cancelled'' (ro_stage row) a row)
       \<lparr>ro_status := ''cancelled'', ro_cancelled := or_else (ro_cancelled row) (Some now), ro_updated := now\<rparr>"

definition advance_row :: "datetime \<Rightarrow> rollout_action \<Rightarrow> rollout \<Rightarrow> int + rollout option" where
  "advance_row now a row =
     (if ro_status row = ''completed'' then
        (if oa_target a \<in> {None, Some 100} then Inr None else Inl 422)
      else if ro_status row = ''cancelled'' then Inl 422
      else if ro_status row \<notin> {''draft'', ''active'', ''paused''} then Inl 422
      else case next_rollout_stage (ro_stage row) of
        None \<Rightarrow> Inl 422
      | Some next_stage \<Rightarrow>
          if oa_target a \<noteq> None \<and> oa_target a \<noteq> Some next_stage then Inl 422
          else Inr (Some (advanced now a next_stage row)))"

definition pause_row :: "datetime \<Rightarrow> rollout_action \<Rightarrow> rollout \<Rightarrow> int + rollout option" where
  "pause_row now a row =
     (if oa_target a \<noteq> None then Inl 422
      else if ro_status row \<noteq> ''active'' \<or> ro_stage row \<notin> {5, 50} then Inl 422
      else Inr (Some (paused now a row)))"

definition cancel_row :: "datetime \<Rightarrow> rollout_action \<Rightarrow> rollout \<Rightarrow> int + rollout option" where
  "cancel_row now a row =
     (if oa_target a \<noteq> None then Inl 422
      else if ro_status row = ''cancelled'' then Inr None
      else if ro_status row = ''completed'' then Inl 422
      else Inr (Some (cancelled now a row)))"

definition advance_provider_rollout ::
  "string \<Rightarrow> string option \<Rightarrow> datetime \<Rightarrow> string \<Rightarrow> string \<Rightarrow> string \<Rightarrow> string \<Rightarrow> rollout_action \<Rightarrow> nat option \<Rightarrow> registry_db \<Rightarrow>
   (rollout \<times> string) outcome \<times> registry_db" where
  "advance_provider_rollout secret header now = rollout_action_route (advance_row now) secret header"

definition pause_provider_rollout ::
  "string \<Rightarrow> string option \<Rightarrow> datetime \<Rightarrow> string \<Rightarrow> string \<Rightarrow> string \<Rightarrow> string \<Rightarrow> rollout_action \<Rightarrow> nat option \<Rightarrow> registry_db \<Rightarrow>
   (rollout \<times> string) outcome \<times> registry_db" where
  "pause_provider_rollout secret header now = rollout_action_route (pause_row now) secret header"

definition cancel_provider_rollout ::
  "string \<Rightarrow> string option \<Rightarrow> datetime \<Rightarrow> string \<Rightarrow> string \<Rightarrow> string \<Rightarrow> string \<Rightarrow> rollout_action \<Rightarrow> nat option \<Rightarrow> registry_db \<Rightarrow>
   (rollout \<times> string) outcome \<times> registry_db" where
  "cancel_provider_rollout secret header now = rollout_action_route (cancel_row now) secret header"

section \<open>Reading\<close>

definition get_provider_rollout ::
  "string \<Rightarrow> string \<Rightarrow> string \<Rightarrow> string \<Rightarrow> nat option \<Rightarrow> registry_db \<Rightarrow> (rollout \<times> string) outcome" where
  "get_provider_rollout application_id evaluation_id run_id rollout_id tenant db =
     (if \<not> (id_ok application_id \<and> id_ok evaluation_id \<and> id_ok run_id \<and> id_ok rollout_id) then HttpError 422
      else case resolve_shadow_run application_id evaluation_id run_id tenant db of
        Inl st \<Rightarrow> HttpError st
      | Inr (_, _, run) \<Rightarrow>
          (case load_rollout_row (vr_id run) rollout_id tenant db of
             None \<Rightarrow> HttpError 404
           | Some row \<Rightarrow> Returned (rollout_response tenant row)))"

definition list_provider_rollouts ::
  "string \<Rightarrow> string \<Rightarrow> string \<Rightarrow> nat option \<Rightarrow> string option \<Rightarrow> int option \<Rightarrow> registry_db \<Rightarrow> (rollout \<times> string) list outcome" where
  "list_provider_rollouts application_id evaluation_id run_id tenant status stage db =
     (if \<not> (id_ok application_id \<and> id_ok evaluation_id \<and> id_ok run_id) then HttpError 422
      else if \<not> optional (\<lambda>s. s \<in> set ROLLOUT_STAGES) stage then HttpError 422
      else case resolve_shadow_run application_id evaluation_id run_id tenant db of
        Inl st \<Rightarrow> HttpError st
      | Inr (_, _, run) \<Rightarrow>
          Returned (map (rollout_response tenant)
            (sort_key (\<lambda>r. map code_of (ro_rollout r))
              (filter (\<lambda>r. ro_run_row r = vr_id run \<and> ro_tenant r = tenant \<and> optional (\<lambda>s. ro_status r = s) status \<and>
                 optional (\<lambda>p. ro_stage r = p) stage) (rg_rollouts db)))))"

end
