(* ===== verification/RegistrySystem.thy ===== *)
theory RegistrySystem
  imports Rollouts
begin

text \<open>
  The provider marketplace as a whole: any sequence of its write requests, each in a transaction of its own, from
  empty tables. \<open>registry_write\<close> lists the elementary writes with the conditions under which the routes
  make them; every route makes one of them or none.
\<close>

section \<open>Elementary writes\<close>

definition action_row :: "datetime \<Rightarrow> rollout_action \<Rightarrow> rollout \<Rightarrow> rollout \<Rightarrow> bool" where
  "action_row now a r r' \<longleftrightarrow>
     advance_row now a r = Inr (Some r') \<or> pause_row now a r = Inr (Some r') \<or> cancel_row now a r = Inr (Some r')"

inductive registry_write :: "registry_db \<Rightarrow> registry_db \<Rightarrow> bool" where
  new_application: "application_body_ok b \<Longrightarrow> load_provider_application_row aid (ab_tenant b) False db = None \<Longrightarrow>
    load_provider_application_by_requested_provider (ab_provider b) (ab_tenant b) db = None \<Longrightarrow>
    registry_write db (db\<lparr>rg_applications := rg_applications db @ [new_application (rg_next db) aid now b since],
      rg_next := Suc (rg_next db)\<rparr>)"
| put_application: "application_body_ok b \<Longrightarrow> r \<in> set (rg_applications db) \<Longrightarrow> ab_tenant b = pa_tenant r \<Longrightarrow>
    (pa_status r = ''submitted'' \<Longrightarrow> ab_status b = ''submitted'' \<and> submitted_application_unchanged r b) \<Longrightarrow>
    (\<And>r'. load_provider_application_by_requested_provider (ab_provider b) (ab_tenant b) db = Some r' \<Longrightarrow> pa_id r' = pa_id r) \<Longrightarrow>
    registry_write db (db\<lparr>rg_applications := row_put pa_id (write_application now b since r) (rg_applications db)\<rparr>)"
| submit_application: "r \<in> set (rg_applications db) \<Longrightarrow> pa_status r \<noteq> ''submitted'' \<Longrightarrow>
    registry_write db (db\<lparr>rg_applications := row_put pa_id (r\<lparr>pa_status := ''submitted'',
      pa_submitted := or_else (pa_submitted r) (Some now), pa_updated := now\<rparr>) (rg_applications db)\<rparr>)"
| new_evaluation: "validate_evaluation raw = Some b \<Longrightarrow> a \<in> set (rg_applications db) \<Longrightarrow> pa_status a = ''submitted'' \<Longrightarrow>
    load_provider_evaluation_row (pa_id a) eid (eb_tenant b) db = None \<Longrightarrow>
    registry_write db (db\<lparr>rg_evaluations := rg_evaluations db @ [new_evaluation (rg_next db) a eid now b],
      rg_next := Suc (rg_next db)\<rparr>)"
| put_evaluation: "validate_evaluation raw = Some b \<Longrightarrow> e \<in> set (rg_evaluations db) \<Longrightarrow> locked_evaluation_unchanged e b \<Longrightarrow>
    registry_write db (db\<lparr>rg_evaluations := row_put pe_id (write_evaluation now b e) (rg_evaluations db)\<rparr>)"
| new_run: "validate_run raw = Some b \<Longrightarrow> a \<in> set (rg_applications db) \<Longrightarrow> pa_status a = ''submitted'' \<Longrightarrow>
    e \<in> set (rg_evaluations db) \<Longrightarrow> pe_application_row e = pa_id a \<Longrightarrow> st \<in> {''draft'', ''running'', ''cancelled''} \<Longrightarrow>
    load_shadow_run_row (pe_id e) rid (rb_tenant b) db = None \<Longrightarrow>
    registry_write db (db\<lparr>rg_runs := rg_runs db @ [new_run (rg_next db) a e rid now b st since], rg_next := Suc (rg_next db)\<rparr>)"
| put_run: "validate_run raw = Some b \<Longrightarrow> r \<in> set (rg_runs db) \<Longrightarrow> \<not> decided (vr_status r) \<Longrightarrow>
    st \<in> {''draft'', ''running'', ''cancelled'', vr_status r} \<Longrightarrow> (vr_status r = ''running'' \<Longrightarrow> st \<noteq> ''draft'' \<and> rb_baseline b = vr_baseline r) \<Longrightarrow>
    registry_write db (db\<lparr>rg_runs := row_put vr_id (write_run now b st since r) (rg_runs db)\<rparr>)"
| decide: "r \<in> set (rg_runs db) \<Longrightarrow> vr_status r = ''running'' \<Longrightarrow>
    registry_write db (db\<lparr>rg_runs := row_put vr_id
      (decide_run now (shadow_summary_from_samples (vr_required r) (samples_of_run (vr_id r) db)) r) (rg_runs db)\<rparr>)"
| new_sample: "validate_sample raw = Some b \<Longrightarrow> r \<in> set (rg_runs db) \<Longrightarrow> vr_status r = ''running'' \<Longrightarrow>
    vr_tenant r = sb_tenant b \<Longrightarrow> load_shadow_sample_row (vr_id r) sid (sb_tenant b) db = None \<Longrightarrow>
    int (length (filter (\<lambda>s. vs_run_row s = vr_id r \<and> vs_tenant s = sb_tenant b) (rg_samples db))) < vr_required r \<Longrightarrow>
    registry_write db (db\<lparr>rg_samples := rg_samples db @ [new_sample (rg_next db) (vr_id r) sid now b], rg_next := Suc (rg_next db)\<rparr>)"
| put_sample: "validate_sample raw = Some b \<Longrightarrow> r \<in> set (rg_runs db) \<Longrightarrow> vr_status r = ''running'' \<Longrightarrow>
    s \<in> set (rg_samples db) \<Longrightarrow> vs_run_row s = vr_id r \<Longrightarrow>
    registry_write db (db\<lparr>rg_samples := row_put vs_id (write_sample now b s) (rg_samples db)\<rparr>)"
| new_rollout: "validate_rollout raw = Some b \<Longrightarrow> a \<in> set (rg_applications db) \<Longrightarrow> pa_status a = ''submitted'' \<Longrightarrow>
    e \<in> set (rg_evaluations db) \<Longrightarrow> pe_application_row e = pa_id a \<Longrightarrow> r \<in> set (rg_runs db) \<Longrightarrow> vr_evaluation_row r = pe_id e \<Longrightarrow>
    vr_status r = ''passed'' \<Longrightarrow> vr_summary r = Some summary \<Longrightarrow> ss_failed summary = [] \<Longrightarrow>
    load_rollout_row (vr_id r) oid (ob_tenant b) db = None \<Longrightarrow>
    registry_write db (db\<lparr>rg_rollouts := rg_rollouts db @ [new_rollout (rg_next db) a e r summary oid now b],
      rg_next := Suc (rg_next db)\<rparr>)"
| edit_rollout: "validate_rollout raw = Some b \<Longrightarrow> r \<in> set (rg_rollouts db) \<Longrightarrow> ro_status r = ''draft'' \<Longrightarrow>
    registry_write db (db\<lparr>rg_rollouts := row_put ro_id (r\<lparr>ro_evidence := ob_evidence b, ro_meta := ob_meta b, ro_updated := now\<rparr>)
      (rg_rollouts db)\<rparr>)"
| act_rollout: "validate_action raw = Some a \<Longrightarrow> r \<in> set (rg_rollouts db) \<Longrightarrow> action_row now a r r' \<Longrightarrow>
    registry_write db (db\<lparr>rg_rollouts := row_put ro_id r' (rg_rollouts db)\<rparr>)"

section \<open>Requests\<close>

datatype registry_request =
    PutApplication string application_body
  | SubmitApplication string "nat option"
  | PutEvaluation string string evaluation_body
  | PutRun string string string run_body
  | PutSample string string string string sample_body
  | FinalizeRun string string string "nat option"
  | PutRollout string string string string rollout_body
  | Advance string string string string rollout_action "nat option"
  | Pause string string string string rollout_action "nat option"
  | Cancel string string string string rollout_action "nat option"

fun handle_registry :: "string \<Rightarrow> string option \<Rightarrow> datetime \<Rightarrow> registry_request \<Rightarrow> registry_db \<Rightarrow> registry_db" where
  "handle_registry s h now (PutApplication a b) db = snd (upsert_provider_application s h now a b db)"
| "handle_registry s h now (SubmitApplication a t) db = snd (submit_provider_application s h now a t db)"
| "handle_registry s h now (PutEvaluation a e b) db = snd (upsert_provider_application_evaluation s h now a e b db)"
| "handle_registry s h now (PutRun a e r b) db = snd (upsert_provider_shadow_run s h now a e r b db)"
| "handle_registry s h now (PutSample a e r i b) db = snd (upsert_provider_shadow_sample s h now a e r i b db)"
| "handle_registry s h now (FinalizeRun a e r t) db = snd (finalize_provider_shadow_run s h now a e r t db)"
| "handle_registry s h now (PutRollout a e r o' b) db = snd (upsert_provider_rollout s h now a e r o' b db)"
| "handle_registry s h now (Advance a e r o' b t) db = snd (advance_provider_rollout s h now a e r o' b t db)"
| "handle_registry s h now (Pause a e r o' b t) db = snd (pause_provider_rollout s h now a e r o' b t db)"
| "handle_registry s h now (Cancel a e r o' b t) db = snd (cancel_provider_rollout s h now a e r o' b t db)"

inductive registry_served :: "string \<Rightarrow> registry_db \<Rightarrow> registry_db \<Rightarrow> bool" for secret :: string where
  request: "registry_served secret db (handle_registry secret header now r db)"

definition registry_serves :: "string \<Rightarrow> registry_db \<Rightarrow> registry_db \<Rightarrow> bool" where
  "registry_serves secret = (registry_served secret)\<^sup>*\<^sup>*"

definition registry_reachable :: "string \<Rightarrow> registry_db \<Rightarrow> bool" where
  "registry_reachable secret db \<longleftrightarrow> registry_serves secret empty_registry db"

fun run_registry :: "string \<Rightarrow> (datetime \<times> registry_request) list \<Rightarrow> registry_db \<Rightarrow> registry_db" where
  "run_registry secret [] db = db"
| "run_registry secret ((now, r) # rs) db = run_registry secret rs (handle_registry secret (Some secret) now r db)"

lemma run_registry_serves: "registry_serves secret db (run_registry secret rs db)"
proof (induction secret rs db rule: run_registry.induct)
  case (2 secret now r rs db)
  have "registry_served secret db (handle_registry secret (Some secret) now r db)" by (rule registry_served.request)
  with 2 show ?case by (simp add: registry_serves_def converse_rtranclp_into_rtranclp)
qed (simp add: registry_serves_def)

section \<open>Every route writes one of them\<close>

lemma find_in_set: "find P xs = Some x \<Longrightarrow> x \<in> set xs \<and> P x"
  by (auto simp: find_Some_iff)

lemma loaded_application:
  "load_provider_application_row aid t fallback db = Some a \<Longrightarrow> a \<in> set (rg_applications db) \<and> pa_application a = aid"
  by (auto simp: load_provider_application_row_def Let_def split: if_splits dest!: find_in_set)

lemma loaded_own_application:
  "load_provider_application_row aid t False db = Some a \<Longrightarrow> a \<in> set (rg_applications db) \<and> pa_application a = aid \<and> pa_tenant a = t"
  by (cases t) (auto simp: load_provider_application_row_def Let_def split: if_splits dest!: find_in_set)

lemma loaded_evaluation:
  "load_provider_evaluation_row i eid t db = Some e \<Longrightarrow>
   e \<in> set (rg_evaluations db) \<and> pe_application_row e = i \<and> pe_evaluation e = eid \<and> pe_tenant e = t"
  by (auto simp: load_provider_evaluation_row_def dest: find_in_set)

lemma loaded_run:
  "load_shadow_run_row i rid t db = Some r \<Longrightarrow> r \<in> set (rg_runs db) \<and> vr_evaluation_row r = i \<and> vr_run r = rid \<and> vr_tenant r = t"
  by (auto simp: load_shadow_run_row_def dest: find_in_set)

lemma loaded_sample:
  "load_shadow_sample_row i sid t db = Some s \<Longrightarrow> s \<in> set (rg_samples db) \<and> vs_run_row s = i"
  by (auto simp: load_shadow_sample_row_def dest: find_in_set)

lemma loaded_rollout:
  "load_rollout_row i oid t db = Some r \<Longrightarrow> r \<in> set (rg_rollouts db) \<and> ro_run_row r = i \<and> ro_rollout r = oid \<and> ro_tenant r = t"
  by (auto simp: load_rollout_row_def dest: find_in_set)

lemma resolved_evaluation:
  "resolve_shadow_evaluation aid eid t db = Inr (a, e) \<Longrightarrow>
   a \<in> set (rg_applications db) \<and> pa_status a = ''submitted'' \<and> e \<in> set (rg_evaluations db) \<and> pe_application_row e = pa_id a \<and>
   pe_status e \<noteq> ''cancelled''"
  by (auto simp: resolve_shadow_evaluation_def split: option.splits if_splits dest!: loaded_application loaded_evaluation)

lemma resolved_run:
  "resolve_shadow_run aid eid rid t db = Inr (a, e, r) \<Longrightarrow>
   resolve_shadow_evaluation aid eid t db = Inr (a, e) \<and> r \<in> set (rg_runs db) \<and> vr_evaluation_row r = pe_id e \<and> vr_tenant r = t"
  by (auto simp: resolve_shadow_run_def split: option.splits sum.splits dest!: loaded_run)

abbreviation writes :: "registry_db \<Rightarrow> registry_db \<Rightarrow> bool" where
  "writes db db' \<equiv> db' = db \<or> registry_write db db'"

lemma writes_auth: "writes db (snd k) \<Longrightarrow> writes db (snd (with_write_auth s h db k))"
  by (simp add: with_write_auth_def)

lemma writes_application: "writes db (snd (upsert_provider_application s h now aid b db))"
proof -
  let ?row = "load_provider_application_row aid (ab_tenant b) False db"
  let ?conflict = "load_provider_application_by_requested_provider (ab_provider b) (ab_tenant b) db"
  show ?thesis
  proof (cases "id_ok aid \<and> application_body_ok b \<and> path_id_ok (ab_application b) aid \<and>
      \<not> (?conflict \<noteq> None \<and> (?row = None \<or> pa_id (the ?conflict) \<noteq> pa_id (the ?row)))")
    case False
    then show ?thesis by (auto simp: upsert_provider_application_def with_write_auth_def Let_def)
  next
    case True
    show ?thesis
    proof (cases ?row)
      case None
      with True have "?conflict = None" by simp
      then show ?thesis using True None
        by (auto simp: upsert_provider_application_def Let_def intro!: writes_auth intro: registry_write.new_application)
    next
      case (Some r)
      note r = loaded_own_application [OF Some]
      have st: "ab_status b = ''draft'' \<or> ab_status b = ''submitted''" using True by (auto simp: application_body_ok_def)
      have put: "registry_write db (db\<lparr>rg_applications := row_put pa_id (write_application now b since r) (rg_applications db)\<rparr>)"
        if "pa_status r = ''submitted'' \<Longrightarrow> ab_status b = ''submitted'' \<and> submitted_application_unchanged r b" for since
        by (rule registry_write.put_application) (use True Some r that in auto)
      show ?thesis using True Some r st
        by (auto simp: upsert_provider_application_def Let_def put intro!: writes_auth)
    qed
  qed
qed

lemma writes_submit: "writes db (snd (submit_provider_application s h now aid t db))"
  by (auto simp: submit_provider_application_def Let_def split: option.split intro!: writes_auth registry_write.submit_application
      dest: loaded_application)

lemma writes_evaluation: "writes db (snd (upsert_provider_application_evaluation s h now aid eid raw db))"
  by (auto simp: upsert_provider_application_evaluation_def Let_def split: option.split
      intro!: writes_auth registry_write.new_evaluation registry_write.put_evaluation dest: loaded_application loaded_evaluation)

lemma writes_run: "writes db (snd (upsert_provider_shadow_run s h now aid eid rid raw db))"
proof (cases "validate_run raw")
  case None
  then show ?thesis by (simp add: upsert_provider_shadow_run_def)
next
  case b: (Some b)
  then have st: "rb_status b = Some st \<Longrightarrow> st \<in> {''draft'', ''running'', ''cancelled''}" for st
    by (auto simp: validate_run_def optional_def split: if_splits option.splits)
  show ?thesis
  proof (cases "resolve_shadow_evaluation aid eid (rb_tenant b) db")
    case (Inl e)
    then show ?thesis by (auto simp: upsert_provider_shadow_run_def b intro!: writes_auth)
  next
    case (Inr ae)
    obtain a e where ae: "resolve_shadow_evaluation aid eid (rb_tenant b) db = Inr (a, e)" using Inr by (cases ae) simp
    note ev = resolved_evaluation [OF ae]
    show ?thesis
    proof (cases "load_shadow_run_row (pe_id e) rid (rb_tenant b) db")
      case None
      have new: "registry_write db (db\<lparr>rg_runs := rg_runs db @ [new_run (rg_next db) a e rid now b st' since],
          rg_next := Suc (rg_next db)\<rparr>)" if "st' \<in> {''draft'', ''running'', ''cancelled''}" for st' since
        by (rule registry_write.new_run [OF b]) (use ev None that in auto)
      show ?thesis using st None
        by (cases "rb_status b") (auto simp: upsert_provider_shadow_run_def b ae Let_def new intro!: writes_auth)
    next
      case (Some r)
      have put: "registry_write db (db\<lparr>rg_runs := row_put vr_id (write_run now b st' since r) (rg_runs db)\<rparr>)"
        if "\<not> decided (vr_status r)" "st' = vr_status r \<or> rb_status b = Some st'"
          "\<not> (vr_status r = ''running'' \<and> st' = ''draft'')" "\<not> (vr_status r = ''running'' \<and> rb_baseline b \<noteq> vr_baseline r)" for st' since
        by (rule registry_write.put_run [OF b]) (use loaded_run [OF Some] st that in auto)
      have t: "vr_tenant r = rb_tenant b" using loaded_run [OF Some] by simp
      show ?thesis
      proof (cases "decided (vr_status r)")
        case True
        then show ?thesis by (simp add: upsert_provider_shadow_run_def b ae Let_def Some t with_write_auth_def)
      next
        case False
        note put = put [OF False]
        show ?thesis
        proof (cases "rb_status b")
          case None
          then show ?thesis using False
            by (simp add: upsert_provider_shadow_run_def b ae Let_def Some t with_write_auth_def put)
        next
          case st: (Some st')
          then show ?thesis using False
            by (simp add: upsert_provider_shadow_run_def b ae Let_def Some t with_write_auth_def put)
        qed
      qed
    qed
  qed
qed

lemma writes_sample: "writes db (snd (upsert_provider_shadow_sample s h now aid eid rid sid raw db))"
  by (auto simp: upsert_provider_shadow_sample_def Let_def split: option.split sum.split
      intro!: writes_auth registry_write.new_sample registry_write.put_sample dest!: resolved_run loaded_sample simp: not_le)

lemma writes_finalize: "writes db (snd (finalize_provider_shadow_run s h now aid eid rid t db))"
  by (auto simp: finalize_provider_shadow_run_def Let_def split: option.split sum.split
      intro!: writes_auth registry_write.decide dest!: resolved_run)

lemma writes_rollout: "writes db (snd (upsert_provider_rollout s h now aid eid rid oid raw db))"
  by (auto simp: upsert_provider_rollout_def Let_def split: option.split sum.split
      intro!: writes_auth registry_write.new_rollout registry_write.edit_rollout
      dest!: resolved_run resolved_evaluation loaded_rollout)

lemma writes_action:
  assumes "\<And>a r r'. act a r = Inr (Some r') \<Longrightarrow> action_row now a r r'"
  shows "writes db (snd (rollout_action_route act s h aid eid rid oid raw t db))"
  using assms
  by (auto simp: rollout_action_route_def Let_def split: option.split sum.split
      intro!: writes_auth registry_write.act_rollout dest!: resolved_run loaded_rollout)

lemma handled_writes: "writes db (handle_registry s h now r db)"
proof (cases r)
  case (Advance a e r' o' b t)
  have "writes db (snd (rollout_action_route (advance_row now) s h a e r' o' b t db))"
    by (rule writes_action [where now = now]) (simp add: action_row_def)
  then show ?thesis by (simp add: Advance advance_provider_rollout_def)
next
  case (Pause a e r' o' b t)
  have "writes db (snd (rollout_action_route (pause_row now) s h a e r' o' b t db))"
    by (rule writes_action [where now = now]) (simp add: action_row_def)
  then show ?thesis by (simp add: Pause pause_provider_rollout_def)
next
  case (Cancel a e r' o' b t)
  have "writes db (snd (rollout_action_route (cancel_row now) s h a e r' o' b t db))"
    by (rule writes_action [where now = now]) (simp add: action_row_def)
  then show ?thesis by (simp add: Cancel cancel_provider_rollout_def)
qed (use writes_application writes_submit writes_evaluation writes_run writes_sample writes_finalize writes_rollout in simp_all)

lemma serves_induct [consumes 1, case_names base step]:
  assumes "registry_serves secret db db'" "P db" "\<And>x y. registry_serves secret db x \<Longrightarrow> P x \<Longrightarrow> registry_write x y \<Longrightarrow> P y"
  shows "P db'"
  using assms(1) unfolding registry_serves_def
proof (induction rule: rtranclp_induct)
  case base
  show ?case by (rule assms(2))
next
  case (step x y)
  from step(2) have "writes x y" by (cases rule: registry_served.cases) (simp add: handled_writes)
  then show ?case using step assms(3) by (auto simp: registry_serves_def)
qed

end
