(* ===== verification/RegistryInvariant.thy ===== *)
theory RegistryInvariant
  imports RegistrySystem
begin

text \<open>
  What an elementary write leaves of the rows that were there (\<open>follows\<close>), and the invariant of the
  marketplace tables.
\<close>

section \<open>Replacing a row\<close>

lemma set_row_put:
  assumes "distinct (map key rows)" "r \<in> set rows" "key r' = key r"
  shows "set (row_put key r' rows) = insert r' (set rows - {r})"
  using assms
proof (induction rows)
  case (Cons x rows)
  show ?case
  proof (cases "x = r")
    case True
    with Cons.prems have "\<forall>y\<in>set rows. key y \<noteq> key r'" by (metis distinct.simps(2) image_eqI list.set_map list.simps(9))
    then have "row_put key r' rows = rows" by (induction rows) (auto simp: row_put_def)
    then show ?thesis using True Cons.prems by (auto simp: row_put_def)
  next
    case False
    with Cons.prems have "key x \<noteq> key r'" "r \<in> set rows" by auto
    moreover from this Cons have "set (row_put key r' rows) = insert r' (set rows - {r})" by simp
    ultimately show ?thesis using False by (auto simp: row_put_def)
  qed
qed simp

lemma map_row_put:
  assumes "distinct (map key rows)" "r \<in> set rows" "key r' = key r" "f r' = f r"
  shows "map f (row_put key r' rows) = map f rows"
proof -
  have "f (if key x = key r' then r' else x) = f x" if "x \<in> set rows" for x
    using assms that by (metis inj_on_eq_iff distinct_map)
  then show ?thesis by (simp add: row_put_def)
qed

lemma distinct_row_put:
  assumes "distinct (map key rows)" "r \<in> set rows" "key r' = key r" "distinct (map f rows)"
    "\<And>x. x \<in> set rows \<Longrightarrow> f x = f r' \<Longrightarrow> x = r"
  shows "distinct (map f (row_put key r' rows))"
proof -
  have "distinct (map key (row_put key r' rows))" using assms(1) by simp
  then have "distinct (row_put key r' rows)" by (simp only: distinct_map)
  moreover have "inj_on f (insert r' (set rows - {r}))"
    using assms(4,5) by (auto simp: inj_on_def distinct_map)
  ultimately show ?thesis by (simp add: distinct_map set_row_put [OF assms(1-3)])
qed

section \<open>Keys\<close>

definition fresh_ids :: "('r \<Rightarrow> nat) \<Rightarrow> 'r list \<Rightarrow> nat \<Rightarrow> bool" where
  "fresh_ids key rows n \<longleftrightarrow> distinct (map key rows) \<and> (\<forall>r\<in>set rows. key r < n)"

lemma fresh_ids_add: "fresh_ids key rows n \<Longrightarrow> key r = n \<Longrightarrow> fresh_ids key (rows @ [r]) (Suc n)"
  by (auto simp: fresh_ids_def less_Suc_eq)

lemma fresh_ids_Suc: "fresh_ids key rows n \<Longrightarrow> fresh_ids key rows (Suc n)"
  by (auto simp: fresh_ids_def less_Suc_eq)

lemma fresh_ids_put: "fresh_ids key (row_put key r' rows) n \<longleftrightarrow> fresh_ids key rows n"
proof -
  have "(\<forall>r\<in>set rs. key r < n) \<longleftrightarrow> (\<forall>k\<in>key ` set rs. k < n)" for rs by simp
  then show ?thesis unfolding fresh_ids_def by (simp only: keys_put key_image_put)
qed

definition identities_ok :: "registry_db \<Rightarrow> bool" where
  "identities_ok db \<longleftrightarrow>
     fresh_ids pa_id (rg_applications db) (rg_next db) \<and> fresh_ids pe_id (rg_evaluations db) (rg_next db) \<and>
     fresh_ids vr_id (rg_runs db) (rg_next db) \<and> fresh_ids vs_id (rg_samples db) (rg_next db) \<and>
     fresh_ids ro_id (rg_rollouts db) (rg_next db)"

text \<open>The unique indexes of the tables.\<close>

definition indexes_ok :: "registry_db \<Rightarrow> bool" where
  "indexes_ok db \<longleftrightarrow>
     distinct (map (\<lambda>r. (pa_tenant r, pa_application r)) (rg_applications db)) \<and>
     distinct (map (\<lambda>r. (pa_tenant r, pa_provider r)) (rg_applications db)) \<and>
     distinct (map (\<lambda>r. (pe_tenant r, pe_application_row r, pe_evaluation r)) (rg_evaluations db)) \<and>
     distinct (map (\<lambda>r. (vr_tenant r, vr_evaluation_row r, vr_run r)) (rg_runs db)) \<and>
     distinct (map (\<lambda>r. (vs_tenant r, vs_run_row r, vs_sample r)) (rg_samples db)) \<and>
     distinct (map (\<lambda>r. (ro_tenant r, ro_run_row r, ro_rollout r)) (rg_rollouts db))"

lemmas row_writes = new_application_def write_application_def new_evaluation_def write_evaluation_def new_run_def
  write_run_def decide_run_def new_sample_def write_sample_def new_rollout_def

definition rollout_identity :: "rollout \<Rightarrow> nat \<times> nat option \<times> nat \<times> nat \<times> nat \<times> string \<times> string \<times> string \<times> string \<times> string \<times>
    string \<times> string \<times> shadow_summary \<times> datetime" where
  "rollout_identity r = (ro_id r, ro_tenant r, ro_application_row r, ro_evaluation_row r, ro_run_row r, ro_application r,
     ro_evaluation r, ro_run r, ro_rollout r, ro_provider r, ro_baseline r, ro_suite r, ro_snapshot r, ro_created r)"

lemma row_actions:
  "advance_row now a r = Inr (Some r') \<longleftrightarrow>
     (\<exists>n. ro_status r \<in> {''draft'', ''active'', ''paused''} \<and> next_rollout_stage (ro_stage r) = Some n \<and>
        oa_target a \<in> {None, Some n} \<and> r' = advanced now a n r)"
  "pause_row now a r = Inr (Some r') \<longleftrightarrow>
     oa_target a = None \<and> ro_status r = ''active'' \<and> ro_stage r \<in> {5, 50} \<and> r' = paused now a r"
  "cancel_row now a r = Inr (Some r') \<longleftrightarrow>
     oa_target a = None \<and> ro_status r \<notin> {''completed'', ''cancelled''} \<and> r' = cancelled now a r"
  by (auto simp: advance_row_def pause_row_def cancel_row_def split: option.split if_splits)

lemmas acted = advanced_def paused_def cancelled_def append_stage_history_def

lemma action_identity: "action_row now a r r' \<Longrightarrow> rollout_identity r' = rollout_identity r"
  unfolding action_row_def row_actions by (elim disjE exE conjE) (simp_all add: acted rollout_identity_def Let_def)

lemma action_fields:
  assumes "action_row now a r r'"
  shows "ro_id r' = ro_id r" "ro_tenant r' = ro_tenant r" "ro_run_row r' = ro_run_row r" "ro_rollout r' = ro_rollout r"
    "ro_snapshot r' = ro_snapshot r" "ro_provider r' = ro_provider r"
  using action_identity [OF assms] by (simp_all add: rollout_identity_def)

lemma identities_write: "registry_write db db' \<Longrightarrow> identities_ok db \<Longrightarrow> identities_ok db'"
proof (induction rule: registry_write.induct)
  case (put_application b r db now since)
  from put_application.prems show ?case by (simp add: identities_ok_def fresh_ids_put)
qed (simp_all add: identities_ok_def fresh_ids_put fresh_ids_add fresh_ids_Suc row_writes)

lemma find_none: "find P xs = None \<longleftrightarrow> (\<forall>x\<in>set xs. \<not> P x)"
  by (auto simp: find_None_iff)

lemma no_own_application:
  "load_provider_application_row aid t False db = None \<Longrightarrow> r \<in> set (rg_applications db) \<Longrightarrow> \<not> (pa_application r = aid \<and> pa_tenant r = t)"
  by (cases t) (auto simp: load_provider_application_row_def Let_def find_none split: if_splits)

lemma indexes_write: "registry_write db db' \<Longrightarrow> identities_ok db \<Longrightarrow> indexes_ok db \<Longrightarrow> indexes_ok db'"
proof (induction rule: registry_write.induct)
  case (put_application b r db now since)
  have k: "distinct (map pa_id (rg_applications db))" using put_application.prems(1) by (simp add: identities_ok_def fresh_ids_def)
  let ?r = "write_application now b since r"
  have id: "pa_id ?r = pa_id r" by (simp add: row_writes)
  have "map (\<lambda>r. (pa_tenant r, pa_application r)) (row_put pa_id ?r (rg_applications db))
      = map (\<lambda>r. (pa_tenant r, pa_application r)) (rg_applications db)"
    by (rule map_row_put [OF k put_application(2) id]) (simp add: row_writes)
  moreover have "distinct (map (\<lambda>r. (pa_tenant r, pa_provider r)) (row_put pa_id ?r (rg_applications db)))"
  proof (rule distinct_row_put [OF k put_application(2) id])
    show "distinct (map (\<lambda>r. (pa_tenant r, pa_provider r)) (rg_applications db))" using put_application.prems(2) by (simp add: indexes_ok_def)
    fix x assume x: "x \<in> set (rg_applications db)" "(pa_tenant x, pa_provider x) = (pa_tenant ?r, pa_provider ?r)"
    then have P: "pa_provider x = ab_provider b \<and> pa_tenant x = ab_tenant b" using put_application(3) by (simp add: row_writes)
    then obtain y where y: "load_provider_application_by_requested_provider (ab_provider b) (ab_tenant b) db = Some y"
      using x(1) by (cases "load_provider_application_by_requested_provider (ab_provider b) (ab_tenant b) db")
        (auto simp: load_provider_application_by_requested_provider_def find_none)
    then have "y \<in> set (rg_applications db)" "(pa_tenant y, pa_provider y) = (pa_tenant x, pa_provider x)"
      using P by (auto simp: load_provider_application_by_requested_provider_def dest: find_in_set)
    then have "y = x" using x(1) put_application.prems(2) by (auto simp: indexes_ok_def distinct_map inj_on_def)
    then show "x = r" using put_application(5) [OF y] x(1) put_application(2) k by (auto simp: distinct_map inj_on_def)
  qed
  ultimately show ?case using put_application.prems(2) by (simp add: indexes_ok_def)
next
  case (submit_application r db now)
  have k: "distinct (map pa_id (rg_applications db))" using submit_application by (simp add: identities_ok_def fresh_ids_def)
  show ?case using submit_application by (simp add: indexes_ok_def map_row_put [OF k submit_application(1)])
next
  case (put_evaluation raw b e db now)
  have k: "distinct (map pe_id (rg_evaluations db))" using put_evaluation by (simp add: identities_ok_def fresh_ids_def)
  show ?case using put_evaluation by (simp add: indexes_ok_def map_row_put [OF k put_evaluation(2)] row_writes)
next
  case (put_run raw b r db st now since)
  have k: "distinct (map vr_id (rg_runs db))" using put_run by (simp add: identities_ok_def fresh_ids_def)
  show ?case using put_run by (simp add: indexes_ok_def map_row_put [OF k put_run(2)] row_writes)
next
  case (decide r db now)
  have k: "distinct (map vr_id (rg_runs db))" using decide by (simp add: identities_ok_def fresh_ids_def)
  show ?case using decide by (simp add: indexes_ok_def map_row_put [OF k decide(1)] row_writes)
next
  case (put_sample raw b r db s now)
  have k: "distinct (map vs_id (rg_samples db))" using put_sample by (simp add: identities_ok_def fresh_ids_def)
  show ?case using put_sample by (simp add: indexes_ok_def map_row_put [OF k put_sample(4)] row_writes)
next
  case (edit_rollout raw b r db now)
  have k: "distinct (map ro_id (rg_rollouts db))" using edit_rollout by (simp add: identities_ok_def fresh_ids_def)
  show ?case using edit_rollout by (simp add: indexes_ok_def map_row_put [OF k edit_rollout(2)])
next
  case (act_rollout raw a r db now r')
  have k: "distinct (map ro_id (rg_rollouts db))" using act_rollout by (simp add: identities_ok_def fresh_ids_def)
  show ?case using act_rollout by (simp add: indexes_ok_def map_row_put [OF k act_rollout(2)] action_fields)
next
  case (new_application b aid db now since)
  then show ?case
    by (auto simp: indexes_ok_def row_writes load_provider_application_by_requested_provider_def find_none dest: no_own_application)
qed (auto simp: indexes_ok_def row_writes load_provider_evaluation_row_def load_shadow_run_row_def load_shadow_sample_row_def
    load_rollout_row_def find_none)

end
