(* ===== verification/RegistryHistory.thy ===== *)
theory RegistryHistory
  imports RegistryInvariant
begin

text \<open>
  What the requests of the marketplace leave of the rows that were there (\<open>follows\<close>), the abstract machine of
  a rollout, and what every row of a reachable database satisfies (\<open>rows_ok\<close>).
\<close>

section \<open>The machine of a rollout\<close>

inductive rollout_move :: "string \<times> int \<Rightarrow> string \<times> int \<Rightarrow> bool" where
  advance: "st \<in> {''draft'', ''active'', ''paused''} \<Longrightarrow> (s, s') \<in> {(0, 5), (5, 50)} \<Longrightarrow> rollout_move (st, s) (''active'', s')"
| complete: "st \<in> {''draft'', ''active'', ''paused''} \<Longrightarrow> rollout_move (st, 50) (''completed'', 100)"
| pause: "s \<in> {5, 50} \<Longrightarrow> rollout_move (''active'', s) (''paused'', s)"
| cancel: "st \<notin> {''completed'', ''cancelled''} \<Longrightarrow> rollout_move (st, s) (''cancelled'', s)"

inductive_cases rollout_move_from: "rollout_move (st, s) p"

definition place :: "rollout \<Rightarrow> string \<times> int" where
  "place r = (ro_status r, ro_stage r)"

lemma next_stage_cases: "next_rollout_stage s = Some n \<longleftrightarrow> (s, n) \<in> {(0, 5), (5, 50), (50, 100)}"
  by (auto simp: next_rollout_stage_def ROLLOUT_STAGES_def)

lemma action_moves: "action_row now a r r' \<Longrightarrow> rollout_move (place r) (place r')"
  unfolding action_row_def row_actions
proof (elim disjE exE conjE)
  fix n assume n: "ro_status r \<in> {''draft'', ''active'', ''paused''}" "next_rollout_stage (ro_stage r) = Some n" and r': "r' = advanced now a n r"
  have p: "place r' = (if n = 100 then ''completed'' else ''active'', n)" by (simp add: r' place_def acted Let_def)
  have "(s, m) \<in> {(0, 5), (5, 50), (50, 100)} \<Longrightarrow> (m \<noteq> 100 \<and> (s, m) \<in> {(0, 5), (5, 50)}) \<or> (m = 100 \<and> s = 50)" for s m :: int by auto
  from this [OF n(2) [unfolded next_stage_cases]]
  consider "n \<noteq> 100" "(ro_stage r, n) \<in> {(0, 5), (5, 50)}" | "n = 100" "ro_stage r = 50" by blast
  then show ?thesis
  proof cases
    case 1
    then show ?thesis using rollout_move.advance [OF n(1) 1(2)] by (simp add: p) (simp add: place_def)
  next
    case 2
    then show ?thesis using rollout_move.complete [OF n(1)] by (simp add: p) (simp add: place_def)
  qed
next
  assume "ro_status r = ''active''" "ro_stage r \<in> {5, 50}" "r' = paused now a r"
  then show ?thesis using rollout_move.pause [of "ro_stage r"] by (simp add: place_def acted)
next
  assume "ro_status r \<notin> {''completed'', ''cancelled''}" "r' = cancelled now a r"
  then show ?thesis using rollout_move.cancel by (simp add: place_def acted)
qed

text \<open>No move lowers the stage, and the last two states have none.\<close>

lemma move_stage: "rollout_move p q \<Longrightarrow> snd p \<le> snd q"
  by (induction rule: rollout_move.induct) auto

lemma moves_stage: "rollout_move\<^sup>*\<^sup>* p q \<Longrightarrow> snd p \<le> snd q"
  by (induction rule: rtranclp_induct) (auto dest: move_stage)

lemma moves_end: "rollout_move\<^sup>*\<^sup>* p q \<Longrightarrow> fst p \<in> {''completed'', ''cancelled''} \<Longrightarrow> q = p"
  by (induction rule: rtranclp_induct) (auto elim: rollout_move.cases)

definition legal_place :: "string \<times> int \<Rightarrow> bool" where
  "legal_place p \<longleftrightarrow>
     (case p of (st, s) \<Rightarrow> st = ''draft'' \<and> s = 0 \<or> st \<in> {''active'', ''paused''} \<and> s \<in> {5, 50} \<or>
        st = ''completed'' \<and> s = 100 \<or> st = ''cancelled'' \<and> s \<in> {0, 5, 50})"

lemma move_legal: "rollout_move p q \<Longrightarrow> legal_place p \<Longrightarrow> legal_place q"
proof (induction rule: rollout_move.induct)
  case (cancel st s)
  then show ?case by (auto simp: legal_place_def)
qed (auto simp: legal_place_def)

lemma moves_legal: "rollout_move\<^sup>*\<^sup>* p q \<Longrightarrow> legal_place p \<Longrightarrow> legal_place q"
  by (induction rule: rtranclp_induct) (blast intro: move_legal)+

text \<open>Reading a history back: where it ends, if each entry starts where the one before it ended.\<close>

fun replay :: "string \<times> int \<Rightarrow> stage_entry list \<Rightarrow> (string \<times> int) option" where
  "replay p [] = Some p"
| "replay p (e # es) = (if se_from e = fst p then replay (se_to e, se_stage e) es else None)"

lemma replay_append: "replay p es = Some q \<Longrightarrow> replay p (es @ [e]) = (if se_from e = fst q then Some (se_to e, se_stage e) else None)"
  by (induction p es rule: replay.induct) (auto split: if_splits)

lemma action_history:
  assumes "action_row now a r r'"
  shows "\<exists>e. ro_history r' = ro_history r @ [e] \<and> se_from e = ro_status r \<and> (se_to e, se_stage e) = place r' \<and> se_meta e = oa_meta a"
  using assms unfolding action_row_def row_actions by (elim disjE exE conjE) (auto simp: acted place_def Let_def)

section \<open>What is left of a row\<close>

definition application_identity :: "provider_application \<Rightarrow> nat \<times> nat option \<times> string \<times> string \<times> string \<times> string \<times> string \<times> string" where
  "application_identity a = (pa_id a, pa_tenant a, pa_application a, pa_provider a, pa_kind a, pa_openapi_url a,
     pa_openapi_sha a, pa_image a)"

text \<open>A submitted application stays submitted, with the provider and the artefacts it was submitted for.\<close>

definition applications_follow :: "registry_db \<Rightarrow> registry_db \<Rightarrow> bool" where
  "applications_follow db db' \<longleftrightarrow>
     (\<forall>a\<in>set (rg_applications db). pa_status a = ''submitted'' \<longrightarrow>
       (\<exists>a'\<in>set (rg_applications db'). pa_status a' = ''submitted'' \<and> application_identity a' = application_identity a))"

definition evaluation_identity :: "provider_evaluation \<Rightarrow> nat \<times> nat option \<times> nat \<times> string \<times> string \<times> string" where
  "evaluation_identity e = (pe_id e, pe_tenant e, pe_application_row e, pe_application e, pe_evaluation e, pe_provider e)"

definition evaluations_follow :: "registry_db \<Rightarrow> registry_db \<Rightarrow> bool" where
  "evaluations_follow db db' \<longleftrightarrow>
     (\<forall>e\<in>set (rg_evaluations db). \<exists>e'\<in>set (rg_evaluations db'). evaluation_identity e' = evaluation_identity e)"

definition run_identity :: "shadow_run \<Rightarrow> nat \<times> nat option \<times> nat \<times> nat \<times> string \<times> string \<times> string \<times> string \<times> string \<times> int" where
  "run_identity r = (vr_id r, vr_tenant r, vr_application_row r, vr_evaluation_row r, vr_application r, vr_evaluation r,
     vr_run r, vr_provider r, vr_suite r, vr_required r)"

definition runs_follow :: "registry_db \<Rightarrow> registry_db \<Rightarrow> bool" where
  "runs_follow db db' \<longleftrightarrow>
     (\<forall>r\<in>set (rg_runs db). \<exists>r'\<in>set (rg_runs db'). run_identity r' = run_identity r \<and>
        (decided (vr_status r) \<longrightarrow> r' = r \<and> samples_of_run (vr_id r) db' = samples_of_run (vr_id r) db))"

definition rollouts_follow :: "registry_db \<Rightarrow> registry_db \<Rightarrow> bool" where
  "rollouts_follow db db' \<longleftrightarrow>
     (\<forall>r\<in>set (rg_rollouts db). \<exists>r'\<in>set (rg_rollouts db'). rollout_identity r' = rollout_identity r \<and>
        rollout_move\<^sup>*\<^sup>* (place r) (place r') \<and> (\<exists>more. ro_history r' = ro_history r @ more))"

definition follows :: "registry_db \<Rightarrow> registry_db \<Rightarrow> bool" where
  "follows db db' \<longleftrightarrow>
     applications_follow db db' \<and> evaluations_follow db db' \<and> runs_follow db db' \<and> rollouts_follow db db'"

lemma follows_refl: "follows db db"
  by (auto simp: follows_def applications_follow_def evaluations_follow_def runs_follow_def rollouts_follow_def)

lemma runs_follow_trans: "runs_follow a b \<Longrightarrow> runs_follow b c \<Longrightarrow> runs_follow a c"
  unfolding runs_follow_def by metis

lemma rollouts_follow_trans: "rollouts_follow a b \<Longrightarrow> rollouts_follow b c \<Longrightarrow> rollouts_follow a c"
  unfolding rollouts_follow_def by (metis append.assoc rtranclp_trans)

lemma applications_follow_trans: "applications_follow a b \<Longrightarrow> applications_follow b c \<Longrightarrow> applications_follow a c"
  unfolding applications_follow_def by metis

lemma evaluations_follow_trans: "evaluations_follow a b \<Longrightarrow> evaluations_follow b c \<Longrightarrow> evaluations_follow a c"
  unfolding evaluations_follow_def by metis

lemma follows_trans: "follows a b \<Longrightarrow> follows b c \<Longrightarrow> follows a c"
  unfolding follows_def
  using applications_follow_trans evaluations_follow_trans runs_follow_trans rollouts_follow_trans by metis

lemma samples_add:
  "samples_of_run i (db\<lparr>rg_samples := rg_samples db @ [s], rg_next := n\<rparr>) = samples_of_run i db" if "vs_run_row s \<noteq> i"
  using that by (simp add: samples_of_run_def)

lemma filter_put_other:
  assumes "\<not> P r'" "\<And>x. x \<in> set rows \<Longrightarrow> key x = key r' \<Longrightarrow> \<not> P x"
  shows "filter P (row_put key r' rows) = filter P rows"
  using assms by (induction rows) (auto simp: row_put_def)

lemma samples_same: "samples_of_run i (rg_runs_update f db) = samples_of_run i db"
  by (simp add: samples_of_run_def)

lemma same_id: "identities_ok db \<Longrightarrow> r \<in> set (rg_runs db) \<Longrightarrow> r' \<in> set (rg_runs db) \<Longrightarrow> vr_id r = vr_id r' \<Longrightarrow> r = r'"
  by (auto simp: identities_ok_def fresh_ids_def distinct_map inj_on_def)

lemma applications_write: "registry_write db db' \<Longrightarrow> identities_ok db \<Longrightarrow> applications_follow db db'"
proof (induction rule: registry_write.induct)
  case (put_application b r db now since)
  have k: "distinct (map pa_id (rg_applications db))" using put_application.prems by (simp add: identities_ok_def fresh_ids_def)
  let ?w = "write_application now b since r"
  have put: "set (row_put pa_id ?w (rg_applications db)) = insert ?w (set (rg_applications db) - {r})"
    by (rule set_row_put [OF k put_application(2)]) (simp add: row_writes)
  have keep: "application_identity ?w = application_identity r \<and> pa_status ?w = ''submitted''" if "pa_status r = ''submitted''"
    using put_application(4) [OF that] by (simp add: application_identity_def write_application_def submitted_application_unchanged_def)
  show ?case unfolding applications_follow_def
  proof (intro ballI impI)
    fix a assume a: "a \<in> set (rg_applications db)" "pa_status a = ''submitted''"
    show "\<exists>a'\<in>set (rg_applications (db\<lparr>rg_applications := row_put pa_id ?w (rg_applications db)\<rparr>)).
        pa_status a' = ''submitted'' \<and> application_identity a' = application_identity a"
    proof (cases "a = r")
      case True
      then show ?thesis using keep a(2) by (intro bexI [of _ ?w]) (simp_all add: put)
    next
      case False
      then show ?thesis using a by (intro bexI [of _ a]) (simp_all add: put)
    qed
  qed
next
  case (submit_application r db now)
  have k: "distinct (map pa_id (rg_applications db))" using submit_application.prems by (simp add: identities_ok_def fresh_ids_def)
  show ?case using submit_application(2) by (auto simp: applications_follow_def application_identity_def set_row_put [OF k submit_application(1)])
qed (auto simp: applications_follow_def)

lemma evaluations_write: "registry_write db db' \<Longrightarrow> identities_ok db \<Longrightarrow> evaluations_follow db db'"
proof (induction rule: registry_write.induct)
  case (put_evaluation raw b e db now)
  have k: "distinct (map pe_id (rg_evaluations db))" using put_evaluation.prems by (simp add: identities_ok_def fresh_ids_def)
  have put: "set (row_put pe_id (write_evaluation now b e) (rg_evaluations db)) = insert (write_evaluation now b e) (set (rg_evaluations db) - {e})"
    by (rule set_row_put [OF k put_evaluation(2)]) (simp add: row_writes)
  have "evaluation_identity (write_evaluation now b e) = evaluation_identity e" by (simp add: row_writes evaluation_identity_def)
  then show ?case unfolding evaluations_follow_def by (auto simp: put)
qed (auto simp: evaluations_follow_def)

lemma runs_write: "registry_write db db' \<Longrightarrow> identities_ok db \<Longrightarrow> runs_follow db db'"
proof (induction rule: registry_write.induct)
  case (put_run raw b r db st now since)
  have k: "distinct (map vr_id (rg_runs db))" using put_run.prems by (simp add: identities_ok_def fresh_ids_def)
  have put: "set (row_put vr_id (write_run now b st since r) (rg_runs db)) = insert (write_run now b st since r) (set (rg_runs db) - {r})"
    by (rule set_row_put [OF k put_run(2)]) (simp add: row_writes)
  have "run_identity (write_run now b st since r) = run_identity r" by (simp add: row_writes run_identity_def)
  then show ?case using put_run(3) unfolding runs_follow_def by (auto simp: put samples_same)
next
  case (decide r db now)
  have k: "distinct (map vr_id (rg_runs db))" using decide.prems by (simp add: identities_ok_def fresh_ids_def)
  let ?r = "decide_run now (shadow_summary_from_samples (vr_required r) (samples_of_run (vr_id r) db)) r"
  have put: "set (row_put vr_id ?r (rg_runs db)) = insert ?r (set (rg_runs db) - {r})"
    by (rule set_row_put [OF k decide(1)]) (simp add: row_writes)
  have "run_identity ?r = run_identity r" by (simp add: row_writes run_identity_def)
  moreover have "\<not> decided (vr_status r)" using decide(2) by (simp add: decided_def)
  ultimately show ?case unfolding runs_follow_def by (auto simp: put samples_same)
next
  case (new_sample raw b r db sid now)
  have "samples_of_run (vr_id x) (db\<lparr>rg_samples := rg_samples db @ [new_sample (rg_next db) (vr_id r) sid now b], rg_next := Suc (rg_next db)\<rparr>)
      = samples_of_run (vr_id x) db" if "x \<in> set (rg_runs db)" "decided (vr_status x)" for x
  proof (rule samples_add)
    show "vs_run_row (new_sample (rg_next db) (vr_id r) sid now b) \<noteq> vr_id x"
      using that new_sample(3) same_id [OF new_sample.prems that(1) new_sample(2)] by (auto simp: row_writes decided_def)
  qed
  then show ?case unfolding runs_follow_def by auto
next
  case (put_sample raw b r db s now)
  have "samples_of_run (vr_id x) (db\<lparr>rg_samples := row_put vs_id (write_sample now b s) (rg_samples db)\<rparr>) = samples_of_run (vr_id x) db"
    if x: "x \<in> set (rg_runs db)" "decided (vr_status x)" for x
  proof -
    have other: "vs_run_row s \<noteq> vr_id x" using x put_sample(3,5) same_id [OF put_sample.prems x(1) put_sample(2)] by (auto simp: decided_def)
    have "filter (\<lambda>y. vs_run_row y = vr_id x) (row_put vs_id (write_sample now b s) (rg_samples db)) = filter (\<lambda>y. vs_run_row y = vr_id x) (rg_samples db)"
    proof (rule filter_put_other)
      show "\<not> vs_run_row (write_sample now b s) = vr_id x" using other by (simp add: row_writes)
      fix y assume "y \<in> set (rg_samples db)" "vs_id y = vs_id (write_sample now b s)"
      then have "y = s" using put_sample(4) put_sample.prems
        by (auto simp: row_writes identities_ok_def fresh_ids_def distinct_map inj_on_def)
      then show "\<not> vs_run_row y = vr_id x" using other by simp
    qed
    then show ?thesis by (simp add: samples_of_run_def)
  qed
  then show ?case unfolding runs_follow_def by auto
qed (auto simp: runs_follow_def samples_of_run_def)

lemma rollouts_write: "registry_write db db' \<Longrightarrow> identities_ok db \<Longrightarrow> rollouts_follow db db'"
proof (induction rule: registry_write.induct)
  case (edit_rollout raw b r db now)
  have k: "distinct (map ro_id (rg_rollouts db))" using edit_rollout.prems by (simp add: identities_ok_def fresh_ids_def)
  show ?case using edit_rollout(2) unfolding rollouts_follow_def
    by (auto simp: set_row_put [OF k edit_rollout(2)] rollout_identity_def place_def)
next
  case (act_rollout raw a r db now r')
  have k: "distinct (map ro_id (rg_rollouts db))" using act_rollout.prems by (simp add: identities_ok_def fresh_ids_def)
  have put: "set (row_put ro_id r' (rg_rollouts db)) = insert r' (set (rg_rollouts db) - {r})"
    by (rule set_row_put [OF k act_rollout(2)]) (simp add: action_fields [OF act_rollout(3)])
  have "rollout_move\<^sup>*\<^sup>* (place r) (place r')" using action_moves [OF act_rollout(3)] by blast
  moreover obtain e where "ro_history r' = ro_history r @ [e]" using action_history [OF act_rollout(3)] by blast
  ultimately show ?case using action_identity [OF act_rollout(3)] unfolding rollouts_follow_def by (auto simp: put)
qed (auto simp: rollouts_follow_def)

lemma write_follows: "registry_write db db' \<Longrightarrow> identities_ok db \<Longrightarrow> follows db db'"
  by (simp add: follows_def applications_write evaluations_write runs_write rollouts_write)

end
