(* ===== verification/ShadowGate.thy ===== *)
theory ShadowGate
  imports ShadowValidation
begin

text \<open>
  What it takes to pass a shadow run: the rank of the percentile, and the conditions that the seven reasons of the
  summary amount to, with the rounding of the three ratios resolved.
\<close>

section \<open>The percentile\<close>

lemma sorted_rank:
  assumes "sorted xs" "i < length xs"
  shows "Suc i \<le> length (filter (\<lambda>x. x \<le> xs ! i) xs)" "length (filter (\<lambda>x. x < xs ! i) xs) \<le> i"
proof -
  have "filter (\<lambda>x. x \<le> xs ! i) (take (Suc i) xs) = take (Suc i) xs"
    using assms sorted_nth_mono [OF assms(1), of _ i] by (auto simp: filter_id_conv in_set_conv_nth less_Suc_eq_le)
  then have "length (filter (\<lambda>x. x \<le> xs ! i) (take (Suc i) xs @ drop (Suc i) xs)) \<ge> Suc i"
    unfolding filter_append length_append using assms(2) by simp
  then show "Suc i \<le> length (filter (\<lambda>x. x \<le> xs ! i) xs)" by (simp del: filter_append)
  have "filter (\<lambda>x. x < xs ! i) (drop i xs) = []"
    using sorted_nth_mono [OF assms(1)] by (auto simp: filter_empty_conv in_set_conv_nth not_less)
  moreover have "length (filter (\<lambda>x. x < xs ! i) (take i xs)) \<le> i" by (rule order_trans [OF length_filter_le]) simp
  ultimately have "length (filter (\<lambda>x. x < xs ! i) (take i xs @ drop i xs)) \<le> i" unfolding filter_append length_append by simp
  then show "length (filter (\<lambda>x. x < xs ! i) xs) \<le> i" by (simp del: filter_append)
qed

lemma count_sort: "length (filter P (sort xs)) = length (filter P xs)"
  by (simp add: filter_sort)

definition p95_rank :: "nat \<Rightarrow> nat" where
  "p95_rank n = nat (max 0 (\<lceil>95/100 * (of_nat n :: rat)\<rceil> - 1))"

lemma p95_rank:
  assumes "0 < n"
  shows "p95_rank n < n" "95 * n \<le> 100 * Suc (p95_rank n)" "100 * p95_rank n < 95 * n"
proof -
  define y where "y = 95/100 * (of_nat n :: rat)"
  define k where "k = \<lceil>y\<rceil>"
  have k: "1 \<le> k" "k \<le> int n" using assms by (auto simp: k_def y_def one_le_ceiling ceiling_le_iff)
  have c: "of_int k - 1 < y" "y \<le> of_int k" using ceiling_correct [of y] by (auto simp: k_def)
  have "100 * y = of_int (95 * int n)" by (simp add: y_def)
  with c have "(of_int (100 * (k - 1)) :: rat) < of_int (95 * int n)" "(of_int (95 * int n) :: rat) \<le> of_int (100 * k)" by simp_all
  then have "100 * (k - 1) < 95 * int n" "95 * int n \<le> 100 * k" by (simp_all only: of_int_less_iff of_int_le_iff)
  moreover have "p95_rank n = nat (max 0 (k - 1))" by (simp only: p95_rank_def k_def y_def)
  then have "k = int (Suc (p95_rank n))" using k(1) by simp
  ultimately show "p95_rank n < n" "95 * n \<le> 100 * Suc (p95_rank n)" "100 * p95_rank n < 95 * n" using k by auto
qed

text \<open>
  The percentile of a run (nearest_rank_p95) is the nearest rank: one of the observed latencies, at least 95 percent
  of them do not exceed it, and fewer than 95 percent lie below it.
\<close>

theorem p95_is_nearest_rank:
  assumes "values \<noteq> []"
  shows "nearest_rank_p95 values \<in> set values \<and>
    95 * length values \<le> 100 * length (filter (\<lambda>x. x \<le> nearest_rank_p95 values) values) \<and>
    100 * length (filter (\<lambda>x. x < nearest_rank_p95 values) values) < 95 * length values"
proof -
  let ?n = "length values"
  have v: "nearest_rank_p95 values = sort values ! p95_rank ?n" using assms by (simp add: nearest_rank_p95_def p95_rank_def)
  note rank = p95_rank [of ?n]
  have r: "p95_rank ?n < length (sort values)" using rank(1) assms by simp
  have "sort values ! p95_rank ?n \<in> set (sort values)" using r by (rule nth_mem)
  moreover note sorted_rank [OF sorted_sort r, unfolded count_sort]
  ultimately show ?thesis using rank(2,3) assms unfolding v by simp
qed

theorem p95_is_nearest_rank_witness:
  "nearest_rank_p95 [30, 10, 20] = 30 \<and> nearest_rank_p95 [30, 10, 20] \<in> set [30, 10, 20]"
  using p95_is_nearest_rank [of "[30, 10, 20]"] by (intro conjI) (code_simp, simp)

section \<open>The thresholds\<close>

lemma half_even_le: "even k \<Longrightarrow> half_even y \<le> k \<longleftrightarrow> y \<le> of_int k + 1/2"
proof -
  assume k: "even k"
  have f: "of_int \<lfloor>y\<rfloor> \<le> y" "y < of_int \<lfloor>y\<rfloor> + 1" by linarith+
  consider "\<lfloor>y\<rfloor> < k" | "\<lfloor>y\<rfloor> = k" | "k < \<lfloor>y\<rfloor>" by linarith
  then show ?thesis
  proof cases
    case 1
    then have "half_even y \<le> k" by (cases y rule: half_even_cases) auto
    moreover have "of_int (\<lfloor>y\<rfloor> + 1) \<le> (of_int k :: rat)" using 1 by (simp only: of_int_le_iff)
    ultimately show ?thesis using f by simp
  next
    case 2
    then show ?thesis using k f by (auto simp: half_even_def Let_def)
  next
    case 3
    then have "\<not> half_even y \<le> k" by (cases y rule: half_even_cases) auto
    moreover have "of_int (k + 1) \<le> (of_int \<lfloor>y\<rfloor> :: rat)" using 3 by (simp only: of_int_le_iff)
    then have "of_int k + 1/2 < y" using f(1) unfolding of_int_add of_int_1 by linarith
    ultimately show ?thesis by simp
  qed
qed

lemma quantize_even_le:
  assumes "0 \<le> x" "even k"
  shows "quantize_half_even 6 x \<le> of_int k / 10 ^ 6 \<longleftrightarrow> x \<le> (of_int k + 1/2) / 10 ^ 6"
proof -
  have "quantize_half_even 6 x \<le> of_int k / 10 ^ 6 \<longleftrightarrow> half_even (x * 10 ^ 6) \<le> k"
    using assms(1) by (simp add: quantize_half_even_def quantize_def Let_def divide_le_cancel)
  then show ?thesis by (simp add: half_even_le [OF assms(2)] field_simps)
qed

lemma success_rate_at_500: "0 \<le> k \<Longrightarrow> 98/100 \<le> decimal_ratio k 500 \<longleftrightarrow> 490 \<le> k"
proof -
  have "has_scale 6 (of_int k / of_int 500)" by (rule has_scaleI [where n = "2000 * k"]) simp
  then have "decimal_ratio k 500 = of_int k / 500"
    unfolding decimal_ratio_def quantize_half_even_def by (simp add: half_even.quantize_exact)
  moreover have "98/100 \<le> (of_int k :: rat) / 500 \<longleftrightarrow> of_int 490 \<le> (of_int k :: rat)" by (simp add: field_simps)
  ultimately show ?thesis by (simp only: of_int_le_iff)
qed

lemma coverage_met: "1 \<le> class_count samples c \<longleftrightarrow> (\<exists>s\<in>set samples. vs_class s = c)"
proof -
  have "class_count samples c = 0 \<longleftrightarrow> \<not> (\<exists>s\<in>set samples. vs_class s = c)" by (auto simp: class_count_def filter_empty_conv)
  moreover have "0 \<le> class_count samples c" by (simp add: class_count_def)
  ultimately show ?thesis by linarith
qed

lemma deviation_met:
  assumes "length samples = 500" "\<And>s. s \<in> set samples \<Longrightarrow> 0 \<le> vs_deviation s"
  shows "average_deviation samples \<le> 2/100 \<longleftrightarrow> sum_list (map vs_deviation samples) \<le> 10 + 1/4000"
proof -
  let ?sum = "sum_list (map vs_deviation samples)"
  have "samples \<noteq> []" using assms(1) by auto
  then have a: "average_deviation samples = quantize_half_even 6 (?sum / 500)" using assms(1) by (simp add: average_deviation_def)
  have "0 \<le> ?sum" by (rule sum_list_nonneg) (use assms(2) in auto)
  then have "0 \<le> ?sum / 500" by simp
  from quantize_even_le [OF this, of 20000] show ?thesis by (simp add: a field_simps)
qed

lemma ratio_met:
  assumes "0 < b" "0 \<le> p"
  shows "p95_ratio p b \<le> 3/2 \<longleftrightarrow> 2000000 * p \<le> 3000001 * b"
proof -
  have nn: "0 \<le> (of_int p :: rat) / of_int b" using assms by simp
  have "p95_ratio p b \<le> 3/2 \<longleftrightarrow> (of_int p :: rat) / of_int b \<le> 3000001 / 2000000"
    using quantize_even_le [OF nn, of 1500000] assms(1) by (simp add: p95_ratio_def)
  also have "\<dots> \<longleftrightarrow> of_int (2000000 * p) \<le> (of_int (3000001 * b) :: rat)" using assms(1) by (simp add: field_simps)
  finally show ?thesis by (simp only: of_int_le_iff)
qed

lemma span_met:
  "samples \<noteq> [] \<Longrightarrow> 14 \<le> observed_span samples \<longleftrightarrow>
     14 * day_us \<le> dt_minus (Max (set (map vs_observed samples))) (Min (set (map vs_observed samples)))"
proof -
  have "14 \<le> x div d \<longleftrightarrow> 14 * d \<le> x" if d: "0 < d" for x d :: int
  proof
    assume "14 \<le> x div d"
    then have "14 * d \<le> x div d * d" using d by (intro mult_right_mono) simp_all
    then show "14 * d \<le> x" using pos_mod_sign [OF d, of x] div_mult_mod_eq [of x d] by linarith
  next
    assume "14 * d \<le> x"
    then show "14 \<le> x div d" using zdiv_mono1 [of "14 * d" x d] d by simp
  qed
  then show "samples \<noteq> [] \<Longrightarrow> ?thesis" by (simp add: observed_span_def whole_days_def day_us_def)
qed

lemma p95_in: "vs \<noteq> [] \<Longrightarrow> nearest_rank_p95 vs \<in> set vs"
proof -
  assume vs: "vs \<noteq> []"
  then have "p95_rank (length vs) < length (sort vs)" using p95_rank(1) by simp
  then have "sort vs ! p95_rank (length vs) \<in> set (sort vs)" by (rule nth_mem)
  then show ?thesis using vs by (simp add: nearest_rank_p95_def p95_rank_def)
qed

lemma p95_positive: "vs \<noteq> [] \<Longrightarrow> (\<And>v. v \<in> set vs \<Longrightarrow> 1 \<le> v) \<Longrightarrow> 1 \<le> nearest_rank_p95 vs"
  using p95_in by blast

text \<open>A sample as the route stores it.\<close>

definition sample_values_ok :: "shadow_sample \<Rightarrow> bool" where
  "sample_values_ok s \<longleftrightarrow> 1 \<le> vs_latency s \<and> 1 \<le> vs_baseline s \<and> 0 \<le> vs_deviation s"

lemma no_reason: "((if b then [r] else []) @ rest = []) \<longleftrightarrow> \<not> b \<and> rest = []" "((if b then [r] else []) = []) \<longleftrightarrow> \<not> b"
  by simp_all

lemma failed_none:
  "ss_failed (shadow_summary_from_samples required samples) = [] \<longleftrightarrow>
     required = SHADOW_MIN_SAMPLE_COUNT \<and> int (length samples) = required \<and> int (length samples) = SHADOW_MIN_SAMPLE_COUNT \<and>
     \<not> observed_span samples < SHADOW_MIN_OBSERVED_DAYS \<and>
     list_all (\<lambda>c. SHADOW_MIN_SAMPLES_PER_COVERAGE_CLASS \<le> class_count samples c) SHADOW_REQUIRED_COVERAGE_CLASSES \<and>
     \<not> decimal_ratio (int (length (filter sample_passed samples))) (int (length samples)) < SHADOW_MIN_SUCCESS_RATE \<and>
     \<not> SHADOW_MAX_AVERAGE_DEVIATION < average_deviation samples \<and>
     \<not> (nearest_rank_p95 (map vs_baseline samples) \<le> 0 \<or> SHADOW_MAX_P95_LATENCY_RATIO <
        p95_ratio (nearest_rank_p95 (map vs_latency samples)) (nearest_rank_p95 (map vs_baseline samples)))"
  unfolding shadow_summary_from_samples_def Let_def shadow_summary.simps no_reason de_Morgan_disj not_not by blast

text \<open>
  What a run must show, in whole numbers: 500 samples over fourteen days in all four classes, 490 of them passed, an
  average deviation of two percent and one and a half times the latency of the baseline, the last two up to half a
  unit of the sixth digit they are rounded to.
\<close>

definition meets_thresholds :: "int \<Rightarrow> shadow_sample list \<Rightarrow> bool" where
  "meets_thresholds required samples \<longleftrightarrow>
     required = 500 \<and> length samples = 500 \<and>
     14 * day_us \<le> dt_minus (Max (set (map vs_observed samples))) (Min (set (map vs_observed samples))) \<and>
     (\<forall>c\<in>set SHADOW_REQUIRED_COVERAGE_CLASSES. \<exists>s\<in>set samples. vs_class s = c) \<and>
     490 \<le> length (filter sample_passed samples) \<and>
     sum_list (map vs_deviation samples) \<le> 10 + 1/4000 \<and>
     2000000 * nearest_rank_p95 (map vs_latency samples) \<le> 3000001 * nearest_rank_p95 (map vs_baseline samples)"

lemma gate:
  assumes sane: "list_all sample_values_ok samples"
  shows "ss_failed (shadow_summary_from_samples required samples) = [] \<longleftrightarrow> meets_thresholds required samples"
proof (cases "length samples = 500")
  case False
  then show ?thesis by (auto simp: failed_none meets_thresholds_def SHADOW_MIN_SAMPLE_COUNT_def)
next
  case True
  then have ne: "samples \<noteq> []" by auto
  have v: "1 \<le> nearest_rank_p95 (map vs_latency samples)" "1 \<le> nearest_rank_p95 (map vs_baseline samples)"
    using sane by (auto simp: ne list_all_iff sample_values_ok_def intro!: p95_positive)
  have d: "average_deviation samples \<le> 2/100 \<longleftrightarrow> sum_list (map vs_deviation samples) \<le> 10 + 1/4000"
    using sane by (intro deviation_met [OF True]) (simp add: list_all_iff sample_values_ok_def)
  let ?k = "int (length (filter sample_passed samples))"
  have rate: "98/100 \<le> decimal_ratio ?k (int (length samples)) \<longleftrightarrow> 490 \<le> length (filter sample_passed samples)"
    using success_rate_at_500 [of ?k] True by simp
  have ratio: "p95_ratio (nearest_rank_p95 (map vs_latency samples)) (nearest_rank_p95 (map vs_baseline samples)) \<le> 3/2 \<longleftrightarrow>
      2000000 * nearest_rank_p95 (map vs_latency samples) \<le> 3000001 * nearest_rank_p95 (map vs_baseline samples)"
    using v by (intro ratio_met) simp_all
  have "ss_failed (shadow_summary_from_samples required samples) = [] \<longleftrightarrow>
      required = 500 \<and> 14 \<le> observed_span samples \<and> list_all (\<lambda>c. 1 \<le> class_count samples c) SHADOW_REQUIRED_COVERAGE_CLASSES \<and>
      98/100 \<le> decimal_ratio ?k (int (length samples)) \<and> average_deviation samples \<le> 2/100 \<and>
      p95_ratio (nearest_rank_p95 (map vs_latency samples)) (nearest_rank_p95 (map vs_baseline samples)) \<le> 3/2"
    using True v(2) by (simp add: failed_none SHADOW_MIN_SAMPLE_COUNT_def SHADOW_MIN_OBSERVED_DAYS_def
        SHADOW_MIN_SAMPLES_PER_COVERAGE_CLASS_def SHADOW_MIN_SUCCESS_RATE_def SHADOW_MAX_AVERAGE_DEVIATION_def
        SHADOW_MAX_P95_LATENCY_RATIO_def not_less not_le cong: conj_cong)
  then show ?thesis unfolding span_met [OF ne] coverage_met rate d ratio by (simp add: True list_all_iff meets_thresholds_def)
qed

end
