(* ===== verification/RegistryRows.thy ===== *)
theory RegistryRows
  imports RegistryHistory ShadowGate
begin

text \<open>
  What every row of a reachable marketplace database satisfies (\<open>rows_ok\<close>): an evaluation belongs to a submitted
  application, a run to an evaluation, a verdict is the one of the samples the run has now, and a rollout rests on a
  passed run and stands where its history leads.
\<close>

definition application_ok :: "provider_application \<Rightarrow> bool" where
  "application_ok a \<longleftrightarrow>
     reference_metadata_ok (pa_meta a) \<and> reference_metadata_ok (pa_cosign a) \<and> reference_metadata_ok (pa_profile a)"

definition evaluation_ok :: "registry_db \<Rightarrow> provider_evaluation \<Rightarrow> bool" where
  "evaluation_ok db e \<longleftrightarrow>
     reference_metadata_ok (pe_meta e) \<and> 1 \<le> pe_samples e \<and> pe_samples e \<le> 500 \<and>
     (\<exists>a\<in>set (rg_applications db). pa_status a = ''submitted'' \<and> pa_id a = pe_application_row e \<and>
        pa_application a = pe_application e \<and> pa_provider a = pe_provider e)"

definition verdict_ok :: "registry_db \<Rightarrow> shadow_run \<Rightarrow> bool" where
  "verdict_ok db r \<longleftrightarrow>
     (case vr_summary r of
        None \<Rightarrow> vr_status r \<in> {''draft'', ''running'', ''cancelled''}
      | Some s \<Rightarrow> s = shadow_summary_from_samples (vr_required r) (samples_of_run (vr_id r) db) \<and>
          vr_status r = (if ss_failed s = [] then ''passed'' else ''failed''))"

definition run_ok :: "registry_db \<Rightarrow> shadow_run \<Rightarrow> bool" where
  "run_ok db r \<longleftrightarrow>
     reference_metadata_ok (vr_meta r) \<and> verdict_ok db r \<and> 1 \<le> vr_required r \<and> vr_required r \<le> 500 \<and>
     (\<exists>e\<in>set (rg_evaluations db). pe_id e = vr_evaluation_row r \<and> pe_application_row e = vr_application_row r \<and>
        pe_application e = vr_application r \<and> pe_provider e = vr_provider r)"

definition sample_ok :: "registry_db \<Rightarrow> shadow_sample \<Rightarrow> bool" where
  "sample_ok db s \<longleftrightarrow>
     reference_metadata_ok (vs_meta s) \<and> vs_class s \<in> set SHADOW_REQUIRED_COVERAGE_CLASSES \<and>
     sample_values_ok s \<and>
     (\<exists>r\<in>set (rg_runs db). vr_id r = vs_run_row s \<and> vr_tenant r = vs_tenant s)"

definition rollout_ok :: "registry_db \<Rightarrow> rollout \<Rightarrow> bool" where
  "rollout_ok db o' \<longleftrightarrow>
     reference_metadata_ok (ro_meta o') \<and> list_all (\<lambda>e. reference_metadata_ok (se_meta e)) (ro_history o') \<and>
     rollout_move\<^sup>*\<^sup>* (''draft'', 0) (place o') \<and> replay (''draft'', 0) (ro_history o') = Some (place o') \<and>
     (\<exists>r\<in>set (rg_runs db). vr_id r = ro_run_row o' \<and> vr_provider r = ro_provider o' \<and> vr_application r = ro_application o' \<and>
        vr_status r = ''passed'' \<and> vr_summary r = Some (ro_snapshot o'))"

definition rows_ok :: "registry_db \<Rightarrow> bool" where
  "rows_ok db \<longleftrightarrow>
     list_all application_ok (rg_applications db) \<and> list_all (evaluation_ok db) (rg_evaluations db) \<and>
     list_all (run_ok db) (rg_runs db) \<and> list_all (sample_ok db) (rg_samples db) \<and>
     list_all (rollout_ok db) (rg_rollouts db)"

section \<open>Rows that are not written\<close>

lemma list_all_row_put: "list_all P rows \<Longrightarrow> P r' \<Longrightarrow> list_all P (row_put key r' rows)"
  by (auto simp: row_put_def list_all_iff)

lemma evaluation_follow: "follows db db' \<Longrightarrow> evaluation_ok db e \<Longrightarrow> evaluation_ok db' e"
  unfolding follows_def applications_follow_def evaluation_ok_def application_identity_def prod.inject by metis

lemma evaluation_row_follow:
  assumes "follows db db'"
    "\<exists>e\<in>set (rg_evaluations db). pe_id e = i \<and> pe_application_row e = j \<and> pe_application e = a \<and> pe_provider e = p"
  shows "\<exists>e\<in>set (rg_evaluations db'). pe_id e = i \<and> pe_application_row e = j \<and> pe_application e = a \<and> pe_provider e = p"
  using assms unfolding follows_def evaluations_follow_def evaluation_identity_def prod.inject by metis

lemma run_row_follow:
  assumes "follows db db'" "r \<in> set (rg_runs db)" "decided (vr_status r)"
  shows "r \<in> set (rg_runs db') \<and> samples_of_run (vr_id r) db' = samples_of_run (vr_id r) db"
  using assms unfolding follows_def runs_follow_def by metis

lemma verdict_follow:
  assumes "follows db db'" "r \<in> set (rg_runs db)" "verdict_ok db r"
  shows "verdict_ok db' r"
proof (cases "vr_summary r")
  case (Some s)
  then have "decided (vr_status r)" using assms(3) by (auto simp: verdict_ok_def decided_def split: if_splits)
  then show ?thesis using run_row_follow [OF assms(1,2)] assms(3) by (simp add: verdict_ok_def Some)
qed (use assms(3) in \<open>simp add: verdict_ok_def\<close>)

lemma run_follow: "follows db db' \<Longrightarrow> r \<in> set (rg_runs db) \<Longrightarrow> run_ok db r \<Longrightarrow> run_ok db' r"
  by (simp add: run_ok_def verdict_follow evaluation_row_follow)

lemma sample_follow: "follows db db' \<Longrightarrow> sample_ok db s \<Longrightarrow> sample_ok db' s"
  unfolding follows_def runs_follow_def sample_ok_def run_identity_def prod.inject by metis

lemma rollout_follow: "follows db db' \<Longrightarrow> rollout_ok db o' \<Longrightarrow> rollout_ok db' o'"
  unfolding rollout_ok_def using run_row_follow [of db db'] by (auto simp: decided_def)

lemma rows_follow:
  assumes "follows db db'" "rows_ok db"
  shows "list_all (evaluation_ok db') (rg_evaluations db)" "list_all (run_ok db') (rg_runs db)"
    "list_all (sample_ok db') (rg_samples db)" "list_all (rollout_ok db') (rg_rollouts db)"
  using assms(2) unfolding rows_ok_def list_all_iff
  by (blast intro: evaluation_follow [OF assms(1)] run_follow [OF assms(1)] sample_follow [OF assms(1)] rollout_follow [OF assms(1)])+

section \<open>Rows that are written\<close>

lemma in_rows: "rows_ok db \<Longrightarrow> e \<in> set (rg_evaluations db) \<Longrightarrow> evaluation_ok db e"
  "rows_ok db \<Longrightarrow> r \<in> set (rg_runs db) \<Longrightarrow> run_ok db r" "rows_ok db \<Longrightarrow> s \<in> set (rg_samples db) \<Longrightarrow> sample_ok db s"
  "rows_ok db \<Longrightarrow> o' \<in> set (rg_rollouts db) \<Longrightarrow> rollout_ok db o'"
  by (simp_all add: rows_ok_def list_all_iff)

lemmas validated = validate_evaluation_def validate_run_def validate_sample_def validate_rollout_def validate_action_def

lemma validated_meta:
  "validate_evaluation raw = Some eb \<Longrightarrow> reference_metadata_ok (eb_meta eb) \<and> 1 \<le> eb_samples eb \<and> eb_samples eb \<le> 500"
  "validate_run rraw = Some rb \<Longrightarrow> reference_metadata_ok (rb_meta rb)"
  "validate_sample sraw = Some sb \<Longrightarrow> reference_metadata_ok (sb_meta sb) \<and> sb_class sb \<in> set SHADOW_REQUIRED_COVERAGE_CLASSES \<and>
     1 \<le> sb_latency sb \<and> 1 \<le> sb_baseline sb \<and> 0 \<le> sb_deviation sb"
  "validate_rollout oraw = Some ob \<Longrightarrow> reference_metadata_ok (ob_meta ob)"
  "validate_action araw = Some oa \<Longrightarrow> reference_metadata_ok (oa_meta oa)"
  by (auto simp: validated quantize_half_even_def half_even.quantize_nonneg split: if_splits option.splits)

lemma written_run_ok:
  assumes "run_ok db r" "\<not> decided (vr_status r)" "st \<in> {''draft'', ''running'', ''cancelled'', vr_status r}" "reference_metadata_ok (rb_meta b)"
  shows "run_ok db (write_run now b st since r)"
proof -
  have "vr_summary r = None" using assms(1,2) by (auto simp: run_ok_def verdict_ok_def decided_def split: option.splits if_splits)
  then have "vr_status r \<in> {''draft'', ''running'', ''cancelled''}" using assms(1) by (simp add: run_ok_def verdict_ok_def)
  then have "st \<in> {''draft'', ''running'', ''cancelled''}" using assms(3) by blast
  then show ?thesis using assms(1,4) \<open>vr_summary r = None\<close> by (simp add: run_ok_def verdict_ok_def row_writes)
qed

lemma acted_rollout_ok:
  assumes "rollout_ok db r" "action_row now a r r'" "reference_metadata_ok (oa_meta a)"
  shows "rollout_ok db r'"
proof -
  obtain e where e: "ro_history r' = ro_history r @ [e]" "se_from e = ro_status r" "(se_to e, se_stage e) = place r'" "se_meta e = oa_meta a"
    using action_history [OF assms(2)] by blast
  have "replay (''draft'', 0) (ro_history r) = Some (place r)" using assms(1) by (simp add: rollout_ok_def)
  then have "replay (''draft'', 0) (ro_history r') = Some (place r')"
    using replay_append [of "(''draft'', 0)" "ro_history r" "place r" e] e by (simp add: place_def)
  moreover have "rollout_move\<^sup>*\<^sup>* (''draft'', 0) (place r')"
    using assms(1) action_moves [OF assms(2)] by (auto simp: rollout_ok_def)
  moreover have "ro_meta r' = ro_meta r" "ro_application r' = ro_application r"
    using assms(2) unfolding action_row_def row_actions by (auto simp: acted Let_def)
  ultimately show ?thesis using assms(1,3) e(1,4) unfolding rollout_ok_def by (simp add: action_fields [OF assms(2)])
qed

lemma parent_application:
  assumes "identities_ok db" "rows_ok db" "a \<in> set (rg_applications db)" "e \<in> set (rg_evaluations db)" "pe_application_row e = pa_id a"
  shows "pe_application e = pa_application a"
proof -
  obtain a' where "a' \<in> set (rg_applications db)" "pa_id a' = pa_id a" "pa_application a' = pe_application e"
    using in_rows(1) [OF assms(2,4)] assms(5) by (auto simp: evaluation_ok_def)
  moreover have "a' = a" using calculation(1,2) assms(1,3) by (auto simp: identities_ok_def fresh_ids_def distinct_map inj_on_def)
  ultimately show ?thesis by simp
qed

lemma parent_evaluation:
  assumes "identities_ok db" "rows_ok db" "e \<in> set (rg_evaluations db)" "r \<in> set (rg_runs db)" "vr_evaluation_row r = pe_id e"
  shows "vr_application r = pe_application e"
proof -
  obtain e' where "e' \<in> set (rg_evaluations db)" "pe_id e' = pe_id e" "pe_application e' = vr_application r"
    using in_rows(2) [OF assms(2,4)] assms(5) by (auto simp: run_ok_def)
  moreover have "e' = e" using calculation(1,2) assms(1,3) by (auto simp: identities_ok_def fresh_ids_def distinct_map inj_on_def)
  ultimately show ?thesis by simp
qed

lemma rows_write: "registry_write db db' \<Longrightarrow> follows db db' \<Longrightarrow> rows_ok db \<Longrightarrow> identities_ok db \<Longrightarrow> rows_ok db'"
proof (induction rule: registry_write.induct)
  case (new_application b aid db now since)
  from rows_follow [OF new_application.prems(1,2)] new_application show ?case
    by (auto simp: rows_ok_def application_ok_def row_writes application_body_ok_def)
next
  case (put_application b r db now since)
  have "application_ok (write_application now b since r)"
    using put_application(1) by (simp add: application_ok_def row_writes application_body_ok_def)
  with rows_follow [OF put_application.prems(1,2)] put_application.prems(2) show ?case by (simp add: rows_ok_def list_all_row_put)
next
  case (submit_application r db now)
  have "application_ok r" using submit_application by (simp add: rows_ok_def list_all_iff)
  with rows_follow [OF submit_application.prems(1,2)] submit_application.prems(2) show ?case
    by (simp add: rows_ok_def list_all_row_put application_ok_def)
next
  case (new_evaluation raw b a db eid now)
  from rows_follow [OF new_evaluation.prems(1,2)] new_evaluation.prems(2) validated_meta(1) [OF new_evaluation(1)] new_evaluation(2,3)
  show ?case by (auto simp: rows_ok_def evaluation_ok_def row_writes)
next
  case (put_evaluation raw b e db now)
  let ?db = "db\<lparr>rg_evaluations := row_put pe_id (write_evaluation now b e) (rg_evaluations db)\<rparr>"
  have "evaluation_ok db e" using put_evaluation by (simp add: in_rows)
  then have "evaluation_ok ?db (write_evaluation now b e)"
    using validated_meta(1) [OF put_evaluation(1)] by (simp add: evaluation_ok_def row_writes)
  with rows_follow [OF put_evaluation.prems(1,2)] put_evaluation.prems(2) show ?case by (simp add: rows_ok_def list_all_row_put)
next
  case (new_run raw b a db e st rid now since)
  let ?r = "new_run (rg_next db) a e rid now b st since"
  let ?db = "db\<lparr>rg_runs := rg_runs db @ [?r], rg_next := Suc (rg_next db)\<rparr>"
  have e: "evaluation_ok db e" using new_run by (simp add: in_rows)
  have "verdict_ok ?db ?r" using new_run(6) by (simp add: verdict_ok_def row_writes)
  moreover have "pe_application e = pa_application a" using parent_application new_run by blast
  ultimately have "run_ok ?db ?r" using e new_run(4,5) validated_meta(2) [OF new_run(1)] by (auto simp: run_ok_def row_writes evaluation_ok_def)
  with rows_follow [OF new_run.prems(1,2)] new_run.prems(2) show ?case by (simp add: rows_ok_def)
next
  case (put_run raw b r db st now since)
  let ?w = "write_run now b st since r"
  let ?db = "db\<lparr>rg_runs := row_put vr_id ?w (rg_runs db)\<rparr>"
  have "run_ok ?db r" using put_run.prems put_run(2) by (blast intro: run_follow in_rows)
  then have "run_ok ?db ?w" by (rule written_run_ok) (use put_run(3,4) validated_meta(2) [OF put_run(1)] in auto)
  with rows_follow [OF put_run.prems(1,2)] put_run.prems(2) show ?case by (simp add: rows_ok_def list_all_row_put)
next
  case (decide r db now)
  let ?s = "shadow_summary_from_samples (vr_required r) (samples_of_run (vr_id r) db)"
  let ?w = "decide_run now ?s r"
  let ?db = "db\<lparr>rg_runs := row_put vr_id ?w (rg_runs db)\<rparr>"
  have "run_ok ?db r" using decide.prems decide(1) by (blast intro: run_follow in_rows)
  moreover have "verdict_ok ?db ?w" by (simp add: verdict_ok_def decide_run_def samples_same)
  ultimately have "run_ok ?db ?w" by (simp add: run_ok_def decide_run_def)
  with rows_follow [OF decide.prems(1,2)] decide.prems(2) show ?case by (simp add: rows_ok_def list_all_row_put)
next
  case (new_sample raw b r db sid now)
  from rows_follow [OF new_sample.prems(1,2)] new_sample.prems(2) validated_meta(3) [OF new_sample(1)] new_sample(2,4)
  show ?case by (auto simp: rows_ok_def sample_ok_def sample_values_ok_def row_writes)
next
  case (put_sample raw b r db s now)
  let ?db = "db\<lparr>rg_samples := row_put vs_id (write_sample now b s) (rg_samples db)\<rparr>"
  have "sample_ok db s" using put_sample by (simp add: in_rows)
  then have "sample_ok ?db (write_sample now b s)"
    using validated_meta(3) [OF put_sample(1)] by (simp add: sample_ok_def sample_values_ok_def row_writes)
  with rows_follow [OF put_sample.prems(1,2)] put_sample.prems(2) show ?case by (simp add: rows_ok_def list_all_row_put)
next
  case (new_rollout raw b a db e r summary oid now)
  let ?o = "new_rollout (rg_next db) a e r summary oid now b"
  let ?db = "db\<lparr>rg_rollouts := rg_rollouts db @ [?o], rg_next := Suc (rg_next db)\<rparr>"
  have "vr_application r = pa_application a"
    using parent_evaluation [OF new_rollout.prems(3,2) new_rollout(4,6,7)] parent_application [OF new_rollout.prems(3,2) new_rollout(2,4,5)] by simp
  then have "rollout_ok ?db ?o" using new_rollout(6,8,9) validated_meta(4) [OF new_rollout(1)]
    by (simp add: rollout_ok_def row_writes place_def) blast
  with rows_follow [OF new_rollout.prems(1,2)] new_rollout.prems(2) show ?case by (simp add: rows_ok_def)
next
  case (edit_rollout raw b r db now)
  let ?w = "r\<lparr>ro_evidence := ob_evidence b, ro_meta := ob_meta b, ro_updated := now\<rparr>"
  let ?db = "db\<lparr>rg_rollouts := row_put ro_id ?w (rg_rollouts db)\<rparr>"
  have "rollout_ok db r" using edit_rollout by (simp add: in_rows)
  then have "rollout_ok ?db ?w" using validated_meta(4) [OF edit_rollout(1)] by (simp add: rollout_ok_def place_def)
  with rows_follow [OF edit_rollout.prems(1,2)] edit_rollout.prems(2) show ?case by (simp add: rows_ok_def list_all_row_put)
next
  case (act_rollout raw a r db now r')
  let ?db = "db\<lparr>rg_rollouts := row_put ro_id r' (rg_rollouts db)\<rparr>"
  have "rollout_ok ?db r" using act_rollout.prems act_rollout(2) by (blast intro: rollout_follow in_rows)
  then have "rollout_ok ?db r'" using act_rollout(3) validated_meta(5) [OF act_rollout(1)] by (rule acted_rollout_ok)
  with rows_follow [OF act_rollout.prems(1,2)] act_rollout.prems(2) show ?case by (simp add: rows_ok_def list_all_row_put)
qed

section \<open>Every reachable database\<close>

lemma empty_rows: "identities_ok empty_registry \<and> indexes_ok empty_registry \<and> rows_ok empty_registry"
  by (simp add: identities_ok_def indexes_ok_def rows_ok_def fresh_ids_def empty_registry_def)

definition registry_invariant :: "registry_db \<Rightarrow> bool" where
  "registry_invariant db \<longleftrightarrow> identities_ok db \<and> indexes_ok db \<and> rows_ok db"

lemma invariant_write: "registry_write db db' \<Longrightarrow> registry_invariant db \<Longrightarrow> registry_invariant db' \<and> follows db db'"
  by (simp add: registry_invariant_def identities_write indexes_write rows_write write_follows)

lemma serves_invariant: "registry_serves secret db db' \<Longrightarrow> registry_invariant db \<Longrightarrow> registry_invariant db' \<and> follows db db'"
  by (induction rule: serves_induct) (auto simp: follows_refl dest: invariant_write intro: follows_trans)

lemma reachable_invariant: "registry_reachable secret db \<Longrightarrow> registry_invariant db"
  unfolding registry_reachable_def using serves_invariant empty_rows by (auto simp: registry_invariant_def)

lemma samples_sane: "rows_ok db \<Longrightarrow> list_all sample_values_ok (samples_of_run i db)"
  by (auto simp: rows_ok_def list_all_iff sample_ok_def samples_of_run_def)

end
