(* ===== verification/RegistryExample.thy ===== *)
theory RegistryExample
  imports RegistryRows
begin

text \<open>
  A provider on its way to full traffic, used to show that the marketplace reaches every state: it applies, asks for
  an evaluation, shows 500 samples over fourteen days, passes, and gets a rollout.
\<close>

definition day_one :: datetime where "day_one = DateTime 2026 1 1 0"
definition day_fifteen :: datetime where "day_fifteen = DateTime 2026 1 15 0"

definition sha_text :: string where "sha_text = replicate 64 CHR ''a''"

definition example_application :: application_body where
  "example_application = \<lparr>ab_tenant = None, ab_application = None, ab_provider = ''acme'', ab_kind = ''external'',
     ab_display = ''Acme'', ab_organization = ''Acme'', ab_contact = ''a@acme.io'', ab_homepage = None,
     ab_openapi_url = ''https://acme.io'', ab_openapi_sha = sha_text, ab_image = ''acme@sha256:'' @ sha_text, ab_cosign = [],
     ab_profile = [], ab_status = ''submitted'', ab_submitted = None, ab_meta = []\<rparr>"

definition example_evaluation :: evaluation_body where
  "example_evaluation = \<lparr>eb_tenant = None, eb_application = None, eb_evaluation = None, eb_suite = ''core'', eb_samples = 500,
     eb_timeout = 60, eb_status = ''requested'', eb_datasets = [''s3://set''], eb_report = None, eb_meta = []\<rparr>"

definition example_run :: run_body where
  "example_run = \<lparr>rb_tenant = None, rb_application = None, rb_evaluation = None, rb_run = None, rb_baseline = ''base'',
     rb_status = Some ''running'', rb_started = None, rb_evidence = [], rb_meta = []\<rparr>"

text \<open>The first four samples cover the classes; the second one is observed fourteen days later.\<close>

definition example_sample :: "nat \<Rightarrow> sample_body" where
  "example_sample i = \<lparr>sb_tenant = None, sb_sample = None,
     sb_class = (if i = 0 then ''adversarial'' else if i = 1 then ''provider_supplied'' else if i = 2 then ''desensitized_real''
       else ''platform_standard''),
     sb_dataset = ''s3://set'', sb_case = ''s3://case'', sb_observed = (if i = 1 then day_fifteen else day_one), sb_code = 200,
     sb_latency = 120, sb_baseline = 100, sb_deviation = 0, sb_timed_out = False, sb_meta = []\<rparr>"

definition sample_name :: "nat \<Rightarrow> string" where
  "sample_name i = map (\<lambda>d. ''abcdefghij'' ! d) [i div 100, i div 10 mod 10, i mod 10]"

definition example_rollout :: rollout_body where
  "example_rollout = \<lparr>ob_tenant = None, ob_application = None, ob_evaluation = None, ob_run = None, ob_rollout = None,
     ob_evidence = [], ob_meta = []\<rparr>"

definition first_requests :: "(datetime \<times> registry_request) list" where
  "first_requests = [(day_one, PutApplication ''app'' example_application), (day_one, PutEvaluation ''app'' ''eval'' example_evaluation),
     (day_one, PutRun ''app'' ''eval'' ''run'' example_run)]"

definition observations :: "nat \<Rightarrow> (datetime \<times> registry_request) list" where
  "observations n = map (\<lambda>i. (day_fifteen, PutSample ''app'' ''eval'' ''run'' (sample_name i) (example_sample i))) [0..<n]"

definition observed_registry :: registry_db where
  "observed_registry = run_registry ''k'' (first_requests @ observations 500) empty_registry"

definition rollout_registry :: registry_db where
  "rollout_registry = run_registry ''k''
     [(day_fifteen, FinalizeRun ''app'' ''eval'' ''run'' None), (day_fifteen, PutRollout ''app'' ''eval'' ''run'' ''roll'' example_rollout)]
     observed_registry"

section \<open>The first_requests\<close>

definition app_row :: provider_application where
  "app_row = new_application 0 ''app'' day_one example_application (Some day_one)"

definition eval_row :: provider_evaluation where
  "eval_row = new_evaluation 1 app_row ''eval'' day_one example_evaluation"

definition run_row :: shadow_run where
  "run_row = new_run 2 app_row eval_row ''run'' day_one example_run ''running'' (Some day_one)"

lemma opened: "run_registry ''k'' first_requests empty_registry =
    \<lparr>rg_applications = [app_row], rg_evaluations = [eval_row], rg_runs = [run_row], rg_samples = [], rg_rollouts = [], rg_next = 3\<rparr>"
  by code_simp

lemma run_registry_append: "run_registry s (xs @ ys) db = run_registry s ys (run_registry s xs db)"
  by (induction s xs db rule: run_registry.induct) simp_all

lemma resolved:
  assumes "rg_applications db = [app_row]" "rg_evaluations db = [eval_row]" "rg_runs db = [r]"
    "vr_evaluation_row r = 1" "vr_run r = ''run''" "vr_tenant r = None"
  shows "resolve_shadow_run ''app'' ''eval'' ''run'' None db = Inr (app_row, eval_row, r)"
  using assms by (simp add: resolve_shadow_run_def resolve_shadow_evaluation_def load_provider_application_row_def
      load_provider_evaluation_row_def load_shadow_run_row_def app_row_def eval_row_def row_writes
      example_application_def example_evaluation_def Let_def)

section \<open>The samples\<close>

definition fed :: "nat \<Rightarrow> registry_db" where
  "fed n = \<lparr>rg_applications = [app_row], rg_evaluations = [eval_row], rg_runs = [run_row],
     rg_samples = map (\<lambda>i. new_sample (3 + i) 2 (sample_name i) day_fifteen (example_sample i)) [0..<n], rg_rollouts = [],
     rg_next = 3 + n\<rparr>"

lemma digits_letter: "i < 10 \<Longrightarrow> ''abcdefghij'' ! i \<in> set ''abcdefghij''"
  by (rule nth_mem) simp

lemma letters_ok: "list_all (\<lambda>c. is_lower_alnum c \<and> (is_lower_alnum c \<or> c = CHR ''-'')) ''abcdefghij''"
  by code_simp

lemma sample_name_ok: "i < 1000 \<Longrightarrow> id_ok (sample_name i)"
proof -
  assume i: "i < 1000"
  have "is_lower_alnum (''abcdefghij'' ! d)" if "d < 10" for d
    using digits_letter [OF that] letters_ok by (simp only: list_all_iff)
  moreover have "i div 100 < 10" "i div 10 mod 10 < 10" "i mod 10 < 10" using i by auto
  ultimately show ?thesis unfolding id_ok_def sample_name_def list.map list.sel list.pred_inject by simp
qed

lemma sample_name_inj: "i < 1000 \<Longrightarrow> j < 1000 \<Longrightarrow> sample_name i = sample_name j \<Longrightarrow> i = j"
proof -
  assume ij: "i < 1000" "j < 1000" "sample_name i = sample_name j"
  have d: "distinct ''abcdefghij''" by code_simp
  have same: "a = b" if "''abcdefghij'' ! a = ''abcdefghij'' ! b" "a < 10" "b < 10" for a b
    using nth_eq_iff_index_eq [OF d, of a b] that by simp
  have "i div 100 < 10" "i div 10 mod 10 < 10" "i mod 10 < 10" "j div 100 < 10" "j div 10 mod 10 < 10" "j mod 10 < 10"
    using ij(1,2) by auto
  moreover have "''abcdefghij'' ! (i div 100) = ''abcdefghij'' ! (j div 100)" "''abcdefghij'' ! (i div 10 mod 10) = ''abcdefghij'' ! (j div 10 mod 10)"
      "''abcdefghij'' ! (i mod 10) = ''abcdefghij'' ! (j mod 10)"
    using ij(3) by (simp_all only: sample_name_def list.map list.inject)
  ultimately have "i div 100 = j div 100" "i div 10 mod 10 = j div 10 mod 10" "i mod 10 = j mod 10" using same by blast+
  moreover have "k = 100 * (k div 100) + 10 * (k div 10 mod 10) + k mod 10" for k :: nat
  proof -
    have "k div 10 div 10 = k div 100" by (simp flip: div_mult2_eq)
    then show ?thesis using div_mult_mod_eq [of k 10] div_mult_mod_eq [of "k div 10" 10] by linarith
  qed
  from this [of i] this [of j] calculation show "i = j" by simp
qed

lemma sample_valid: "validate_sample (example_sample i) = Some (example_sample i)"
proof -
  have v: "validate_sample (example_sample 0) = Some (example_sample 0)" "validate_sample (example_sample 1) = Some (example_sample 1)"
    "validate_sample (example_sample 2) = Some (example_sample 2)" "validate_sample (example_sample 3) = Some (example_sample 3)"
    by code_simp+
  consider "i = 0" | "i = 1" | "i = 2" | "example_sample i = example_sample 3" by (cases "i = 0"; cases "i = 1"; cases "i = 2") (simp_all add: example_sample_def)
  then show ?thesis by cases (simp_all only: v)
qed

lemma example_sample_simps: "sb_tenant (example_sample i) = None" "sb_sample (example_sample i) = None"
  by (simp_all add: example_sample_def)

lemma run_row_simps: "vr_id run_row = 2" "vr_tenant run_row = None" "vr_status run_row = ''running''" "vr_required run_row = 500"
  "vr_evaluation_row run_row = 1" "vr_run run_row = ''run''"
  by code_simp+

lemma feed: "n < 500 \<Longrightarrow>
    handle_registry ''k'' (Some ''k'') day_fifteen (PutSample ''app'' ''eval'' ''run'' (sample_name n) (example_sample n)) (fed n) = fed (Suc n)"
proof -
  assume n: "n < 500"
  have r: "resolve_shadow_run ''app'' ''eval'' ''run'' None (fed n) = Inr (app_row, eval_row, run_row)"
    by (rule resolved) (simp_all add: fed_def run_row_simps)
  have ids: "id_ok ''app'' \<and> id_ok ''eval'' \<and> id_ok ''run''" by code_simp
  have new: "load_shadow_sample_row 2 (sample_name n) None (fed n) = None"
    unfolding load_shadow_sample_row_def find_none
  proof
    fix s assume "s \<in> set (rg_samples (fed n))"
    then obtain i where "i < n" "s = new_sample (3 + i) 2 (sample_name i) day_fifteen (example_sample i)" by (auto simp: fed_def)
    then show "\<not> (vs_run_row s = 2 \<and> vs_sample s = sample_name n \<and> vs_tenant s = None)"
      using sample_name_inj [of i n] n by (auto simp: row_writes)
  qed
  have room: "length (filter (\<lambda>r. vs_run_row r = 2 \<and> vs_tenant r = None) (rg_samples (fed n))) < 500"
    by (rule le_less_trans [OF length_filter_le]) (simp add: fed_def n)
  have "snd (upsert_provider_shadow_sample ''k'' (Some ''k'') day_fifteen ''app'' ''eval'' ''run'' (sample_name n) (example_sample n) (fed n))
      = (fed n)\<lparr>rg_samples := rg_samples (fed n) @ [new_sample (rg_next (fed n)) 2 (sample_name n) day_fifteen (example_sample n)],
          rg_next := Suc (rg_next (fed n))\<rparr>"
    using room n by (simp add: upsert_provider_shadow_sample_def sample_valid example_sample_simps r ids sample_name_ok
        with_write_auth_def path_id_ok_def run_row_simps new Let_def)
  then show ?thesis by (simp add: fed_def)
qed

lemma observed: "n \<le> 500 \<Longrightarrow> run_registry ''k'' (first_requests @ observations n) empty_registry = fed n"
proof (induction n)
  case 0
  then show ?case by (simp add: observations_def opened fed_def)
next
  case (Suc n)
  have "observations (Suc n) = observations n @ [(day_fifteen, PutSample ''app'' ''eval'' ''run'' (sample_name n) (example_sample n))]"
    by (simp add: observations_def)
  then have "run_registry ''k'' (first_requests @ observations (Suc n)) empty_registry
      = handle_registry ''k'' (Some ''k'') day_fifteen (PutSample ''app'' ''eval'' ''run'' (sample_name n) (example_sample n)) (fed n)"
    using Suc by (simp only: run_registry_append append_assoc [symmetric]) simp
  then show ?case using feed [of n] Suc.prems by simp
qed

section \<open>The verdict and the rollout\<close>

definition example_samples :: "shadow_sample list" where
  "example_samples = samples_of_run 2 (fed 500)"

lemma set_samples: "set example_samples = (\<lambda>i. new_sample (3 + i) 2 (sample_name i) day_fifteen (example_sample i)) ` {..<500}"
  by (auto simp: example_samples_def samples_of_run_def fed_def row_writes)

lemma length_samples: "length example_samples = 500"
  by (simp add: example_samples_def samples_of_run_def fed_def row_writes filter_map comp_def)

lemma in_samples: "i < 500 \<Longrightarrow> new_sample (3 + i) 2 (sample_name i) day_fifteen (example_sample i) \<in> set example_samples"
  by (simp add: set_samples)

lemma all_alike: "s \<in> set example_samples \<Longrightarrow>
    sample_passed s \<and> vs_deviation s = 0 \<and> vs_latency s = 120 \<and> vs_baseline s = 100 \<and> vs_observed s \<in> {day_one, day_fifteen}"
  by (auto simp: set_samples row_writes example_sample_def sample_passed_def SHADOW_MAX_AVERAGE_DEVIATION_def)

lemma observed_days: "set (map vs_observed example_samples) = {day_one, day_fifteen}"
proof -
  have "vs_observed (new_sample 3 2 (sample_name 0) day_fifteen (example_sample 0)) = day_one"
    "vs_observed (new_sample 4 2 (sample_name 1) day_fifteen (example_sample 1)) = day_fifteen"
    by (simp_all add: row_writes example_sample_def)
  then have "day_one \<in> vs_observed ` set example_samples" "day_fifteen \<in> vs_observed ` set example_samples"
    using in_samples [of 0] in_samples [of 1] by (force intro: rev_image_eqI)+
  moreover have "vs_observed ` set example_samples \<subseteq> {day_one, day_fifteen}" using all_alike by blast
  ultimately show ?thesis by (simp only: list.set_map) blast
qed

lemma example_meets: "meets_thresholds 500 example_samples"
proof -
  let ?ss = example_samples
  have ne: "map f ?ss \<noteq> []" for f :: "shadow_sample \<Rightarrow> int" using length_samples by auto
  have p: "nearest_rank_p95 (map vs_latency ?ss) = 120" "nearest_rank_p95 (map vs_baseline ?ss) = 100"
    using p95_in [OF ne, of vs_latency] p95_in [OF ne, of vs_baseline] all_alike by auto
  have max_min: "Max {day_one, day_fifteen} = day_fifteen" "Min {day_one, day_fifteen} = day_one"
    and days: "14 * day_us \<le> dt_minus day_fifteen day_one" by code_simp+
  have "sum_list (map f xs) = 0" if "\<And>x. x \<in> set xs \<Longrightarrow> f x = 0" for f :: "shadow_sample \<Rightarrow> rat" and xs
    using that by (induction xs) simp_all
  then have "sum_list (map vs_deviation ?ss) = 0" using all_alike by blast
  moreover have "filter sample_passed ?ss = ?ss" using all_alike by (simp add: filter_id_conv)
  moreover have "\<exists>s\<in>set ?ss. vs_class s = sb_class (example_sample i)" if "i < 500" for i
    using in_samples [OF that] by (rule bexI [rotated]) (simp add: row_writes)
  from this [of 0] this [of 1] this [of 2] this [of 3]
  have "\<forall>c\<in>set SHADOW_REQUIRED_COVERAGE_CLASSES. \<exists>s\<in>set ?ss. vs_class s = c"
    by (simp add: SHADOW_REQUIRED_COVERAGE_CLASSES_def example_sample_def)
  ultimately show ?thesis using days unfolding meets_thresholds_def observed_days max_min by (simp add: length_samples p)
qed

lemma fed_simps: "rg_runs (fed n) = [run_row]" "rg_applications (fed n) = [app_row]" "rg_evaluations (fed n) = [eval_row]"
  "rg_rollouts (fed n) = []" "rg_next (fed n) = 3 + n"
  by (simp_all add: fed_def)

lemma fed_500: "observed_registry = fed 500"
  by (simp add: observed_registry_def observed)

definition passed_row :: shadow_run where
  "passed_row = decide_run day_fifteen (shadow_summary_from_samples 500 example_samples) run_row"

lemma none_failed: "ss_failed (shadow_summary_from_samples 500 example_samples) = []"
proof -
  have "list_all sample_values_ok example_samples" using all_alike by (simp add: list_all_iff sample_values_ok_def)
  then show ?thesis by (simp add: gate example_meets)
qed

lemma ids_ok: "id_ok ''app''" "id_ok ''eval''" "id_ok ''run''" "id_ok ''roll''"
  by code_simp+

lemma finalized: "handle_registry ''k'' (Some ''k'') day_fifteen (FinalizeRun ''app'' ''eval'' ''run'' None) (fed 500) = (fed 500)\<lparr>rg_runs := [passed_row]\<rparr>"
proof -
  have "resolve_shadow_run ''app'' ''eval'' ''run'' None (fed 500) = Inr (app_row, eval_row, run_row)"
    by (rule resolved) (simp_all add: fed_simps run_row_simps)
  then show ?thesis
    by (simp add: finalize_provider_shadow_run_def ids_ok with_write_auth_def run_row_simps Let_def fed_simps row_put_def
        passed_row_def decide_run_def flip: example_samples_def)
qed

lemma passed_row_simps: "vr_id passed_row = 2" "vr_tenant passed_row = None" "vr_status passed_row = ''passed''" "vr_evaluation_row passed_row = 1"
  "vr_run passed_row = ''run''" "vr_summary passed_row = Some (shadow_summary_from_samples 500 example_samples)"
  by (simp_all add: passed_row_def decide_run_def run_row_simps none_failed)

definition rollout_row :: rollout where
  "rollout_row = new_rollout 503 app_row eval_row passed_row (shadow_summary_from_samples 500 example_samples) ''roll'' day_fifteen example_rollout"

lemma rollout_created: "rollout_registry = (fed 500)\<lparr>rg_runs := [passed_row], rg_rollouts := [rollout_row], rg_next := 504\<rparr>"
proof -
  let ?db = "(fed 500)\<lparr>rg_runs := [passed_row]\<rparr>"
  have r: "resolve_shadow_run ''app'' ''eval'' ''run'' None ?db = Inr (app_row, eval_row, passed_row)"
    by (rule resolved) (simp_all add: fed_simps passed_row_simps)
  have v: "validate_rollout example_rollout = Some example_rollout" by code_simp
  have b: "ob_tenant example_rollout = None" "rollout_body_matches_path example_rollout ''app'' ''eval'' ''run'' ''roll''" by code_simp+
  have "handle_registry ''k'' (Some ''k'') day_fifteen (PutRollout ''app'' ''eval'' ''run'' ''roll'' example_rollout) ?db
      = ?db\<lparr>rg_rollouts := [rollout_row], rg_next := 504\<rparr>"
    by (simp add: upsert_provider_rollout_def v ids_ok with_write_auth_def b r passed_row_simps none_failed load_rollout_row_def
        fed_simps Let_def rollout_row_def)
  then show ?thesis unfolding rollout_registry_def fed_500 run_registry.simps finalized by simp
qed

lemma marketplace_reachable: "registry_reachable ''k'' observed_registry" "registry_reachable ''k'' rollout_registry"
proof -
  show o: "registry_reachable ''k'' observed_registry"
    unfolding registry_reachable_def observed_registry_def by (rule run_registry_serves)
  have "registry_serves ''k'' observed_registry rollout_registry" unfolding rollout_registry_def by (rule run_registry_serves)
  with o show "registry_reachable ''k'' rollout_registry" by (simp add: registry_reachable_def registry_serves_def)
qed

end
