(* ===== verification/RegistryProperties.thy ===== *)
theory RegistryProperties
  imports RegistryExample
begin

text \<open>
  What the provider marketplace promises: traffic is earned, a rollout follows its stages, a verdict is the one the
  thresholds give, and no stored object has a credential field.
\<close>

section \<open>Rollouts are earned\<close>

text \<open>
  C11. In every database the marketplace can reach, a rollout belongs to a provider with a submitted application and
  rests on a passed shadow run of that provider whose samples, as they are stored now, meet every threshold; the
  summary it was created with is the summary of those samples.
\<close>

theorem rollouts_are_earned:
  assumes reach: "registry_reachable secret db" and ro: "ro \<in> set (rg_rollouts db)"
  shows "\<exists>r\<in>set (rg_runs db). \<exists>a\<in>set (rg_applications db).
    vr_id r = ro_run_row ro \<and> vr_provider r = ro_provider ro \<and> pa_provider a = ro_provider ro \<and>
    pa_application a = ro_application ro \<and> pa_status a = ''submitted'' \<and> vr_status r = ''passed'' \<and>
    ro_snapshot ro = shadow_summary_from_samples (vr_required r) (samples_of_run (vr_id r) db) \<and>
    meets_thresholds (vr_required r) (samples_of_run (vr_id r) db)"
proof -
  have rows: "rows_ok db" using reachable_invariant [OF reach] by (simp add: registry_invariant_def)
  obtain r where r: "r \<in> set (rg_runs db)" "vr_id r = ro_run_row ro" "vr_provider r = ro_provider ro" "vr_application r = ro_application ro"
      "vr_status r = ''passed''" "vr_summary r = Some (ro_snapshot ro)"
    using in_rows(4) [OF rows ro] by (auto simp: rollout_ok_def)
  have ok: "run_ok db r" using rows r(1) by (rule in_rows(2))
  then obtain e where e: "e \<in> set (rg_evaluations db)" "pe_application e = vr_application r" "pe_provider e = vr_provider r"
    by (auto simp: run_ok_def)
  obtain a where a: "a \<in> set (rg_applications db)" "pa_status a = ''submitted''" "pa_application a = pe_application e" "pa_provider a = pe_provider e"
    using in_rows(1) [OF rows e(1)] by (auto simp: evaluation_ok_def)
  have "ro_snapshot ro = shadow_summary_from_samples (vr_required r) (samples_of_run (vr_id r) db)" "ss_failed (ro_snapshot ro) = []"
    using ok r(5,6) by (auto simp: run_ok_def verdict_ok_def split: if_splits)
  moreover from this have "meets_thresholds (vr_required r) (samples_of_run (vr_id r) db)"
    using gate [OF samples_sane [OF rows]] by simp
  ultimately show ?thesis using r a e by (intro bexI [of _ r] bexI [of _ a]) simp_all
qed

theorem rollouts_are_earned_witness:
  "\<exists>r\<in>set (rg_runs rollout_registry). vr_id r = ro_run_row rollout_row \<and> vr_status r = ''passed'' \<and>
    meets_thresholds (vr_required r) (samples_of_run (vr_id r) rollout_registry)"
proof -
  have "rollout_row \<in> set (rg_rollouts rollout_registry)" by (simp add: rollout_created)
  from rollouts_are_earned [OF marketplace_reachable(2) this] show ?thesis by blast
qed

section \<open>The stages\<close>

lemma replay_drop: "replay p (es @ added) = Some q \<Longrightarrow> replay p es = Some p' \<Longrightarrow> replay p' added = Some q"
  by (induction p es rule: replay.induct) (auto split: if_splits)

text \<open>
  C12. Along every run of the marketplace a rollout keeps its identity (provider, run, baseline, snapshot), moves only
  along the machine draft, 5, 50, 100 percent with pauses and cancellation, never to a lower stage and never out of
  completed or cancelled, and its history is only appended to: the new entries lead from where it stood to where it
  stands.
\<close>

theorem rollouts_follow_the_machine:
  assumes reach: "registry_reachable secret db" and serves: "registry_serves secret db db'" and r: "r \<in> set (rg_rollouts db)"
  shows "\<exists>r'\<in>set (rg_rollouts db'). \<exists>added.
    rollout_identity r' = rollout_identity r \<and> rollout_move\<^sup>*\<^sup>* (place r) (place r') \<and> ro_stage r \<le> ro_stage r' \<and>
    (ro_status r \<in> {''completed'', ''cancelled''} \<longrightarrow> place r' = place r) \<and>
    ro_history r' = ro_history r @ added \<and> replay (place r) added = Some (place r') \<and> legal_place (place r')"
proof -
  have inv: "registry_invariant db" using reach by (rule reachable_invariant)
  then have "follows db db'" and rows': "rows_ok db'" using serves_invariant [OF serves] by (auto simp: registry_invariant_def)
  then obtain r' added where r': "r' \<in> set (rg_rollouts db')" "rollout_identity r' = rollout_identity r"
      "rollout_move\<^sup>*\<^sup>* (place r) (place r')" "ro_history r' = ro_history r @ added"
    using r by (auto simp: follows_def rollouts_follow_def)
  have ok: "rollout_ok db r" "rollout_ok db' r'" using inv r rows' r'(1) by (auto simp: registry_invariant_def intro: in_rows)
  have "replay (place r) added = Some (place r')" using ok r'(4) by (auto simp: rollout_ok_def intro: replay_drop)
  moreover have "legal_place (place r')"
    by (rule moves_legal [of "(''draft'', 0)"]) (use ok(2) in \<open>simp add: rollout_ok_def\<close>, simp add: legal_place_def)
  ultimately show ?thesis using r' moves_stage [OF r'(3)] moves_end [OF r'(3)]
    by (intro bexI [of _ r'] exI [of _ added]) (auto simp: place_def)
qed

theorem rollouts_follow_the_machine_witness:
  "\<exists>r'\<in>set (rg_rollouts rollout_registry). ro_run_row r' = 2 \<and> rollout_move\<^sup>*\<^sup>* (''draft'', 0) (place r')"
proof -
  have r: "rollout_row \<in> set (rg_rollouts rollout_registry)" by (simp add: rollout_created)
  have refl: "registry_serves ''k'' rollout_registry rollout_registry" by (simp add: registry_serves_def)
  have p: "place rollout_row = (''draft'', 0)" "ro_run_row rollout_row = 2"
    by (simp_all add: place_def rollout_row_def new_rollout_def passed_row_simps)
  from rollouts_follow_the_machine [OF marketplace_reachable(2) refl r] show ?thesis
    unfolding p rollout_identity_def prod.inject by blast
qed

section \<open>The verdict\<close>

text \<open>
  Finalizing a running shadow run stores a verdict in it and changes nothing else: passed exactly when its samples
  meet the thresholds, otherwise failed, with their summary.
\<close>

theorem finalize_decides:
  assumes reach: "registry_reachable secret db" and auth: "secret = [] \<or> header = Some secret"
    and ids: "id_ok aid \<and> id_ok eid \<and> id_ok rid"
    and run: "resolve_shadow_run aid eid rid t db = Inr (a, e, r)" and st: "vr_status r = ''running''"
  shows "\<exists>r'. finalize_provider_shadow_run secret header now aid eid rid t db
      = (Returned (shadow_run_response t r'), db\<lparr>rg_runs := row_put vr_id r' (rg_runs db)\<rparr>) \<and>
    vr_status r' = (if meets_thresholds (vr_required r) (samples_of_run (vr_id r) db) then ''passed'' else ''failed'') \<and>
    vr_summary r' = Some (shadow_summary_from_samples (vr_required r) (samples_of_run (vr_id r) db)) \<and>
    run_identity r' = run_identity r"
proof -
  let ?s = "shadow_summary_from_samples (vr_required r) (samples_of_run (vr_id r) db)"
  have "rows_ok db" using reachable_invariant [OF reach] by (simp add: registry_invariant_def)
  then have g: "ss_failed ?s = [] \<longleftrightarrow> meets_thresholds (vr_required r) (samples_of_run (vr_id r) db)" by (rule gate [OF samples_sane])
  show ?thesis
    by (rule exI [of _ "decide_run now ?s r"])
      (use auth in \<open>auto simp: finalize_provider_shadow_run_def ids run st with_write_auth_def Let_def decide_run_def g run_identity_def\<close>)
qed

theorem finalize_decides_witness:
  "\<exists>r'. finalize_provider_shadow_run ''k'' (Some ''k'') day_fifteen ''app'' ''eval'' ''run'' None (fed 500)
      = (Returned (shadow_run_response None r'), (fed 500)\<lparr>rg_runs := row_put vr_id r' (rg_runs (fed 500))\<rparr>) \<and> vr_status r' = ''passed''"
proof -
  have r: "resolve_shadow_run ''app'' ''eval'' ''run'' None (fed 500) = Inr (app_row, eval_row, run_row)"
    by (rule resolved) (simp_all add: fed_simps run_row_simps)
  have m: "meets_thresholds (vr_required run_row) (samples_of_run (vr_id run_row) (fed 500))"
    unfolding run_row_simps example_samples_def [symmetric] by (rule example_meets)
  have "registry_reachable ''k'' (fed 500)" using marketplace_reachable(1) by (simp only: fed_500)
  from finalize_decides [OF this _ _ r run_row_simps(3), of "Some ''k''" day_fifteen] show ?thesis
    unfolding if_P [OF m] by (auto simp: ids_ok)
qed

section \<open>Actions\<close>

lemma find_row_put:
  assumes "distinct (map key rows)" "find P rows = Some r" "key r' = key r" "P r'"
  shows "find P (row_put key r' rows) = Some r'"
  using assms(1,2)
proof (induction rows)
  case (Cons x rows)
  show ?case
  proof (cases "P x")
    case True
    then show ?thesis using Cons.prems assms(3,4) by (simp add: row_put_def)
  next
    case False
    then have "find P rows = Some r" using Cons.prems by simp
    moreover from this have "key x \<noteq> key r'" using Cons.prems(1) assms(3) by (auto dest!: find_in_set)
    ultimately show ?thesis using Cons False by (simp add: row_put_def)
  qed
qed simp

lemma resolve_rollouts: "resolve_shadow_run aid eid rid t (rg_rollouts_update f db) = resolve_shadow_run aid eid rid t db"
proof -
  have "load_provider_application_row i s g (rg_rollouts_update f db) = load_provider_application_row i s g db"
    "load_provider_evaluation_row j i s (rg_rollouts_update f db) = load_provider_evaluation_row j i s db"
    "load_shadow_run_row j i s (rg_rollouts_update f db) = load_shadow_run_row j i s db" for i j s g
    by (simp_all add: load_provider_application_row_def load_provider_evaluation_row_def load_shadow_run_row_def)
  then show ?thesis by (simp only: resolve_shadow_run_def resolve_shadow_evaluation_def)
qed

text \<open>
  An advance that names its target stage is applied once: the same request again, whatever its time, writes
  nothing. It is answered as the first one when the target was 100 percent, and with 422 otherwise.
\<close>

theorem targeted_advance_applies_once:
  assumes reach: "registry_reachable secret db" and target: "oa_target raw = Some n"
    and first: "advance_provider_rollout secret header now aid eid rid oid raw t db = (Returned answer, db')"
  shows "advance_provider_rollout secret header now' aid eid rid oid raw t db'
    = ((if n = 100 then Returned answer else HttpError 422), db')"
proof -
  have ids: "identities_ok db" using reachable_invariant [OF reach] by (simp add: registry_invariant_def)
  obtain a where a: "validate_action raw = Some a" using first
    by (auto simp: advance_provider_rollout_def rollout_action_route_def split: option.splits)
  then have n: "oa_target a = Some n" using target by (auto simp: validate_action_def split: if_splits)
  have ok: "id_ok aid \<and> id_ok eid \<and> id_ok rid \<and> id_ok oid" "secret = [] \<or> header = Some secret"
    using first a by (auto simp: advance_provider_rollout_def rollout_action_route_def with_write_auth_def split: if_splits)
  obtain ap ev r where r: "resolve_shadow_run aid eid rid t db = Inr (ap, ev, r)" using first a ok
    by (auto simp: advance_provider_rollout_def rollout_action_route_def with_write_auth_def split: sum.splits)
  obtain row where row: "load_rollout_row (vr_id r) oid t db = Some row" using first a ok r
    by (auto simp: advance_provider_rollout_def rollout_action_route_def with_write_auth_def split: option.splits)
  note route = advance_provider_rollout_def rollout_action_route_def with_write_auth_def a ok r row
  from first consider "advance_row now a row = Inr None" "db' = db" "answer = rollout_response t row"
    | w where "advance_row now a row = Inr (Some w)" "db' = db\<lparr>rg_rollouts := row_put ro_id w (rg_rollouts db)\<rparr>" "answer = rollout_response t w"
    using ok by (auto simp: route split: sum.splits option.splits)
  then show ?thesis
  proof cases
    case 1
    then have "advance_row now' a row = Inr None" "n = 100" using n by (auto simp: advance_row_def split: if_splits option.splits)
    then show ?thesis using 1 ok by (auto simp: route)
  next
    case 2
    have w: "next_rollout_stage (ro_stage row) = Some n" "w = advanced now a n row"
      using 2(1) n by (auto simp: row_actions)
    have k: "distinct (map ro_id (rg_rollouts db))" using ids by (simp add: identities_ok_def fresh_ids_def)
    have "find (\<lambda>x. ro_run_row x = vr_id r \<and> ro_rollout x = oid \<and> ro_tenant x = t) (row_put ro_id w (rg_rollouts db)) = Some w"
      by (rule find_row_put [OF k row [unfolded load_rollout_row_def]])
        (use loaded_rollout [OF row] in \<open>simp_all add: w acted Let_def\<close>)
    then have "load_rollout_row (vr_id r) oid t db' = Some w" by (simp add: 2(2) load_rollout_row_def)
    moreover have "resolve_shadow_run aid eid rid t db' = Inr (ap, ev, r)" unfolding 2(2) resolve_rollouts by (rule r)
    moreover have "advance_row now' a w = (if n = 100 then Inr None else Inl 422)"
    proof -
      have place: "ro_status w = (if n = 100 then ''completed'' else ''active'')" "ro_stage w = n" by (simp_all add: w acted Let_def)
      have "next_rollout_stage n \<noteq> Some n" by (auto simp: next_stage_cases)
      then show ?thesis by (simp add: advance_row_def place n split: option.split)
    qed
    ultimately show ?thesis using ok 2(3) by (auto simp: advance_provider_rollout_def rollout_action_route_def with_write_auth_def a)
  qed
qed

theorem targeted_advance_applies_once_witness:
  "\<exists>answer db'. advance_provider_rollout ''k'' (Some ''k'') day_fifteen ''app'' ''eval'' ''run'' ''roll''
      \<lparr>oa_target = Some 5, oa_reason = ''s3://why'', oa_meta = []\<rparr> None rollout_registry = (Returned answer, db') \<and>
    advance_provider_rollout ''k'' (Some ''k'') day_fifteen ''app'' ''eval'' ''run'' ''roll''
      \<lparr>oa_target = Some 5, oa_reason = ''s3://why'', oa_meta = []\<rparr> None db' = (HttpError 422, db')"
proof -
  let ?a = "\<lparr>oa_target = Some 5, oa_reason = ''s3://why'', oa_meta = []\<rparr> :: rollout_action"
  have r: "resolve_shadow_run ''app'' ''eval'' ''run'' None rollout_registry = Inr (app_row, eval_row, passed_row)"
    by (rule resolved) (simp_all add: rollout_created fed_simps passed_row_simps)
  have v: "validate_action ?a = Some ?a" by code_simp
  have l: "load_rollout_row 2 ''roll'' None rollout_registry = Some rollout_row"
    by (simp add: load_rollout_row_def rollout_created rollout_row_def new_rollout_def passed_row_simps example_rollout_def)
  have n: "advance_row day_fifteen ?a rollout_row = Inr (Some (advanced day_fifteen ?a 5 rollout_row))"
    by (simp add: row_actions rollout_row_def new_rollout_def next_stage_cases)
  have "\<exists>answer db'. advance_provider_rollout ''k'' (Some ''k'') day_fifteen ''app'' ''eval'' ''run'' ''roll'' ?a None rollout_registry = (Returned answer, db')"
    by (simp add: advance_provider_rollout_def rollout_action_route_def with_write_auth_def v ids_ok r passed_row_simps l n)
  then show ?thesis using targeted_advance_applies_once [OF marketplace_reachable(2), of ?a 5] by fastforce
qed

section \<open>Nothing confidential is stored\<close>

text \<open>The objects a client attached, of every row.\<close>

definition stored_objects :: "registry_db \<Rightarrow> jdict list" where
  "stored_objects db =
     concat (map (\<lambda>a. [pa_cosign a, pa_profile a, pa_meta a]) (rg_applications db)) @ map pe_meta (rg_evaluations db) @
     map vr_meta (rg_runs db) @ map vs_meta (rg_samples db) @
     concat (map (\<lambda>r. ro_meta r # map se_meta (ro_history r)) (rg_rollouts db))"

text \<open>
  C40. In every database the marketplace can reach, no stored object has at any depth a key whose letters and digits,
  in lower case, contain one of the markers of credentials, contacts and raw payloads.
\<close>

theorem stored_objects_hold_no_credentials:
  assumes reach: "registry_reachable secret db" and d: "d \<in> set (stored_objects db)" and k: "holds_key (JObj d) key" and m: "marker \<in> set REFERENCE_MARKERS"
  shows "\<not> contains marker (filter is_lower_alnum (lower key))"
proof -
  have "rows_ok db" using reachable_invariant [OF reach] by (simp add: registry_invariant_def)
  then have "reference_metadata_ok d" using d
    by (auto simp: stored_objects_def rows_ok_def list_all_iff application_ok_def evaluation_ok_def run_ok_def sample_ok_def rollout_ok_def)
  then have "\<not> is_forbidden_reference_key key" using k by (auto simp: reference_metadata_ok_def has_forbidden_field_iff simp del: holds_key_simps)
  then show ?thesis using m by (auto simp: forbidden_key_iff list_ex_iff)
qed

theorem stored_objects_hold_no_credentials_witness:
  "\<not> contains ''token'' (filter is_lower_alnum (lower ''Home-Region''))"
proof -
  let ?d = "[(''site'', JObj [(''Home-Region'', JStr ''eu'')])] :: jdict"
  let ?db = "run_registry ''k'' [(day_one, PutApplication ''app'' (example_application\<lparr>ab_meta := ?d\<rparr>))] empty_registry"
  have "registry_reachable ''k'' ?db" unfolding registry_reachable_def by (rule run_registry_serves)
  moreover have "list_ex (\<lambda>d. d = ?d) (stored_objects ?db)" by code_simp
  then have "?d \<in> set (stored_objects ?db)" by (auto simp only: list_ex_iff)
  moreover have "holds_key (JObj ?d) ''Home-Region''" by (simp add: disj_commute)
  moreover have "''token'' \<in> set REFERENCE_MARKERS" by code_simp
  ultimately show ?thesis by (rule stored_objects_hold_no_credentials)
qed

section \<open>An evaluation that is cancelled later\<close>

text \<open>
  An evaluation may be cancelled while it is still only requested, also when a rollout of it carries traffic: every
  action on the rollout is then refused, the cancellation of the rollout included.
\<close>

theorem cancelled_evaluation_strands_its_rollouts:
  assumes "load_provider_application_row aid t (t \<noteq> None) db = Some ap" "pa_status ap = ''submitted''"
    "load_provider_evaluation_row (pa_id ap) eid t db = Some ev" "pe_status ev = ''cancelled''"
    "validate_action raw = Some a" "id_ok aid \<and> id_ok eid \<and> id_ok rid \<and> id_ok oid" "secret = [] \<or> header = Some secret"
  shows "rollout_action_route act secret header aid eid rid oid raw t db = (HttpError 422, db)"
  using assms by (auto simp: rollout_action_route_def resolve_shadow_run_def resolve_shadow_evaluation_def with_write_auth_def)

text \<open>An advance that names no target is not safe to repeat: the second one moves to the next stage.\<close>

theorem untargeted_advance_moves_again:
  assumes "oa_target a = None" "ro_status row = ''draft''" "ro_stage row = 0"
  shows "\<exists>r1 r2. advance_row now a row = Inr (Some r1) \<and> place r1 = (''active'', 5) \<and>
    advance_row now a r1 = Inr (Some r2) \<and> place r2 = (''active'', 50)"
  using assms by (simp add: advance_row_def next_rollout_stage_def ROLLOUT_STAGES_def acted place_def Let_def)

end
