(* ===== verification/RevenueModels.thy ===== *)
theory RevenueModels
  imports RegistryModels
begin

text \<open>
  The revenue share tables of the capability registry (models.py, infra/local-init/14-capability-registry.sql): the
  policies that split what a provider's runs earn, the hooks that say a run has earned something, the payout entries
  with their amounts, and the monthly batches. The columns of a batch that hold JSON are read back through the classes
  they were dumped from, so the model keeps them as records; decimals are dumped with the digits they have. Of the
  provider and capability tables the routes read only who owns what. Event identifiers are numbers.
\<close>

record revenue_policy =
  rp_id :: nat
  rp_tenant :: "nat option"
  rp_policy :: string
  rp_kind :: string
  rp_platform :: rat
  rp_provider :: rat
  rp_status :: string
  rp_from :: "datetime option"
  rp_until :: "datetime option"
  rp_meta :: jdict
  rp_created :: datetime
  rp_updated :: datetime

record revenue_hook =
  rh_id :: nat
  rh_tenant :: "nat option"
  rh_provider :: string
  rh_algo :: string
  rh_policy :: string
  rh_service :: string
  rh_event :: nat
  rh_saga :: "nat option"
  rh_ledger :: "nat option"
  rh_period :: string
  rh_gross_ref :: "string option"
  rh_currency :: string
  rh_status :: string
  rh_meta :: jdict
  rh_created :: datetime

record payout_entry =
  py_id :: nat
  py_tenant :: "nat option"
  py_entry :: string
  py_hook :: nat
  py_provider :: string
  py_algo :: string
  py_policy :: string
  py_service :: string
  py_event :: nat
  py_period :: string
  py_currency :: string
  py_gross :: rat
  py_platform_ratio :: rat
  py_provider_ratio :: rat
  py_status :: string
  py_recognized :: datetime
  py_meta :: jdict
  py_created :: datetime
  py_updated :: datetime

text \<open>The amounts of a group of entries.\<close>

record month_amounts =
  ma_gross :: rat
  ma_provider :: rat
  ma_platform :: rat
  ma_pending :: rat
  ma_held :: rat

record provider_summary =
  ms_provider :: string
  ms_currency :: string
  ms_count :: int
  ms_pending_count :: int
  ms_held_count :: int
  ms_amounts :: month_amounts
  ms_entries :: "string list"
  ms_scope :: string

record currency_total =
  mc_currency :: string
  mc_count :: int
  mc_providers :: int
  mc_amounts :: month_amounts

record policy_summary =
  mq_policy :: string
  mq_provider_ratio :: rat
  mq_platform_ratio :: rat
  mq_currency :: string
  mq_count :: int
  mq_gross :: rat
  mq_provider :: rat
  mq_platform :: rat

record excluded_entry =
  xe_entry :: string
  xe_reason :: string

record batch_snapshot =
  bs_count :: int
  bs_providers :: int
  bs_totals :: "currency_total list"
  bs_summaries :: "provider_summary list"
  bs_policies :: "policy_summary list"
  bs_excluded :: "excluded_entry list"
  bs_sources :: "string list"
  bs_checksum :: string

record monthly_batch =
  mb_id :: nat
  mb_tenant :: "nat option"
  mb_batch :: string
  mb_period :: string
  mb_status :: string
  mb_calculated :: datetime
  mb_snapshot :: batch_snapshot
  mb_notes :: "string option"
  mb_approved :: "string option"
  mb_meta :: jdict
  mb_version :: int
  mb_created :: datetime
  mb_updated :: datetime

text \<open>Providers by scope and identifier; capabilities by scope and algorithm, with their provider.\<close>

record revenue_db =
  rv_providers :: "(nat option \<times> string) list"
  rv_capabilities :: "((nat option \<times> string) \<times> string) list"
  rv_policies :: "revenue_policy list"
  rv_hooks :: "revenue_hook list"
  rv_entries :: "payout_entry list"
  rv_batches :: "monthly_batch list"
  rv_next :: nat

definition empty_revenue :: revenue_db where
  "empty_revenue = \<lparr>rv_providers = [], rv_capabilities = [], rv_policies = [], rv_hooks = [], rv_entries = [],
     rv_batches = [], rv_next = 0\<rparr>"

section \<open>Formats and amounts\<close>

definition is_upper :: "char \<Rightarrow> bool" where
  "is_upper c \<longleftrightarrow> 65 \<le> code_of c \<and> code_of c \<le> 90"

text \<open>\<^verbatim>\<open>^[0-9]{4}-(0[1-9]|1[0-2])$\<close> and \<^verbatim>\<open>^[A-Z]{3}$\<close>, the whole text.\<close>

definition period_ok :: "string \<Rightarrow> bool" where
  "period_ok s \<longleftrightarrow> length s = 7 \<and> list_all is_digit (take 4 s) \<and> s ! 4 = CHR ''-'' \<and>
     drop 5 s \<in> {''01'', ''02'', ''03'', ''04'', ''05'', ''06'', ''07'', ''08'', ''09'', ''10'', ''11'', ''12''}"

definition currency_ok :: "string \<Rightarrow> bool" where
  "currency_ok s \<longleftrightarrow> length s = 3 \<and> list_all is_upper s"

text \<open>\<^verbatim>\<open>^[0-9a-f]{64}$\<close> with \<^verbatim>\<open>re.match\<close>.\<close>

definition checksum_text_ok :: "string \<Rightarrow> bool" where
  "checksum_text_ok s \<longleftrightarrow> length (chomp s) = 64 \<and>
     list_all (\<lambda>c. is_digit c \<or> (97 \<le> code_of c \<and> code_of c \<le> 102)) (chomp s)"

text \<open>\<^verbatim>\<open>normalize_money\<close>; \<open>None\<close> is its \<^verbatim>\<open>ValueError\<close>.\<close>

definition normalize_money :: "rat \<Rightarrow> rat option" where
  "normalize_money v = (if v < 0 then None else Some (quantize_half_up 4 v))"

definition provider_revenue_amount :: "rat \<Rightarrow> rat \<Rightarrow> rat option" where
  "provider_revenue_amount gross ratio = normalize_money (gross * ratio)"

definition platform_revenue_amount :: "rat \<Rightarrow> rat \<Rightarrow> rat option" where
  "platform_revenue_amount gross provider_amount = normalize_money (gross - provider_amount)"

text \<open>\<^verbatim>\<open>_normalize_ratio\<close>; \<open>None\<close> is its \<^verbatim>\<open>ValueError\<close>.\<close>

definition normalize_ratio :: "rat \<Rightarrow> rat option" where
  "normalize_ratio v = (if v < 0 \<or> 1 < v then None else Some (quantize_half_even 6 v))"

text \<open>A \<^verbatim>\<open>Decimal\<close> field with \<^verbatim>\<open>max_digits\<close> and \<^verbatim>\<open>decimal_places\<close>.\<close>

definition decimal_field_ok :: "nat \<Rightarrow> nat \<Rightarrow> rat \<Rightarrow> bool" where
  "decimal_field_ok digits places v \<longleftrightarrow> has_scale places v \<and> \<bar>v\<bar> < 10 ^ (digits - places)"

text \<open>
  The rows of a table under their keys as a \<^verbatim>\<open>dict\<close> collects them: the first row of a key starts an item,
  every row is added to the item of its key.
\<close>

definition grouped :: "('r \<Rightarrow> 'k) \<Rightarrow> ('r \<Rightarrow> 't) \<Rightarrow> ('t \<Rightarrow> 'r \<Rightarrow> 't) \<Rightarrow> 'r list \<Rightarrow> ('k \<times> 't) list" where
  "grouped key new add rows =
     foldl (\<lambda>g r. AList.update (key r) (add (case map_of g (key r) of None \<Rightarrow> new r | Some t \<Rightarrow> t) r) g) [] rows"

text \<open>Texts in the order of their code points.\<close>

abbreviation text_order :: "string \<Rightarrow> nat list" where
  "text_order s \<equiv> map code_of s"

end
