(* ===== verification/RevenueShare.thy ===== *)
theory RevenueShare
  imports RevenueModels
begin

text \<open>
  Revenue share policies, hooks and payout entries (apps/capability-registry/src/capability_registry/routes.py, bodies
  in schemas.py). A request is atomic, so the nested insert of a hook or an entry does not meet a row that its checks
  have not seen. A conflict is answered with 409 whatever has drifted.
\<close>

section \<open>Policies\<close>

record policy_body =
  pb_tenant :: "nat option"
  pb_policy :: "string option"
  pb_kind :: string
  pb_platform :: rat
  pb_provider :: rat
  pb_status :: string
  pb_from :: "datetime option"
  pb_until :: "datetime option"
  pb_meta :: jdict

definition validate_policy :: "policy_body \<Rightarrow> policy_body option" where
  "validate_policy b =
     (if \<not> (revenue_metadata_ok (pb_meta b) \<and> optional id_ok (pb_policy b) \<and>
            pb_kind b \<in> {''self'', ''open_source'', ''external'', ''commercial''} \<and>
            pb_status b \<in> {''reserved'', ''active'', ''deprecated''} \<and>
            decimal_field_ok 7 6 (pb_platform b) \<and> decimal_field_ok 7 6 (pb_provider b)) then None
      else case (normalize_ratio (pb_platform b), normalize_ratio (pb_provider b)) of
        (Some platform, Some provider) \<Rightarrow>
          if platform + provider \<noteq> 1 then None
          else if (case (pb_from b, pb_until b) of (Some f, Some u) \<Rightarrow> u \<le> f | _ \<Rightarrow> False) then None
          else Some (b\<lparr>pb_platform := platform, pb_provider := provider\<rparr>)
      | _ \<Rightarrow> None)"

definition load_revenue_policy_row :: "string \<Rightarrow> nat option \<Rightarrow> bool \<Rightarrow> revenue_db \<Rightarrow> revenue_policy option" where
  "load_revenue_policy_row policy_id tenant allow_global_fallback db =
     (let row_of = (\<lambda>t. find (\<lambda>r. rp_policy r = policy_id \<and> rp_tenant r = t) (rv_policies db)) in
      if tenant \<noteq> None \<and> (row_of tenant \<noteq> None \<or> \<not> allow_global_fallback) then row_of tenant else row_of None)"

definition revenue_policy_response :: "nat option \<Rightarrow> revenue_policy \<Rightarrow> revenue_policy \<times> string" where
  "revenue_policy_response requested row = (row, scope_source (rp_tenant row) requested)"

definition new_policy :: "nat \<Rightarrow> string \<Rightarrow> datetime \<Rightarrow> policy_body \<Rightarrow> revenue_policy" where
  "new_policy i policy_id now b =
     \<lparr>rp_id = i, rp_tenant = pb_tenant b, rp_policy = policy_id, rp_kind = pb_kind b, rp_platform = pb_platform b,
      rp_provider = pb_provider b, rp_status = pb_status b, rp_from = pb_from b, rp_until = pb_until b,
      rp_meta = pb_meta b, rp_created = now, rp_updated = now\<rparr>"

definition write_policy :: "datetime \<Rightarrow> policy_body \<Rightarrow> revenue_policy \<Rightarrow> revenue_policy" where
  "write_policy now b row =
     row\<lparr>rp_kind := pb_kind b, rp_platform := pb_platform b, rp_provider := pb_provider b, rp_status := pb_status b,
         rp_from := pb_from b, rp_until := pb_until b, rp_meta := pb_meta b, rp_updated := now\<rparr>"

definition upsert_revenue_share_policy ::
  "string \<Rightarrow> string option \<Rightarrow> datetime \<Rightarrow> string \<Rightarrow> policy_body \<Rightarrow> revenue_db \<Rightarrow>
   (revenue_policy \<times> string) outcome \<times> revenue_db" where
  "upsert_revenue_share_policy secret header now policy_id raw db =
     (case validate_policy raw of
        None \<Rightarrow> (HttpError 422, db)
      | Some body \<Rightarrow>
          if \<not> id_ok policy_id then (HttpError 422, db)
          else with_write_auth secret header db
            (if \<not> path_id_ok (pb_policy body) policy_id then (HttpError 422, db)
             else case load_revenue_policy_row policy_id (pb_tenant body) False db of
               None \<Rightarrow>
                 let new = new_policy (rv_next db) policy_id now body
                 in (Returned (revenue_policy_response (pb_tenant body) new),
                     db\<lparr>rv_policies := rv_policies db @ [new], rv_next := Suc (rv_next db)\<rparr>)
             | Some row \<Rightarrow>
                 let written = write_policy now body row
                 in (Returned (revenue_policy_response (pb_tenant body) written),
                     db\<lparr>rv_policies := row_put rp_id written (rv_policies db)\<rparr>)))"

definition get_revenue_share_policy ::
  "string \<Rightarrow> nat option \<Rightarrow> revenue_db \<Rightarrow> (revenue_policy \<times> string) outcome" where
  "get_revenue_share_policy policy_id tenant db =
     (if \<not> id_ok policy_id then HttpError 422
      else case load_revenue_policy_row policy_id tenant (tenant \<noteq> None) db of
        None \<Rightarrow> HttpError 404
      | Some row \<Rightarrow> Returned (revenue_policy_response tenant row))"

definition list_revenue_share_policies ::
  "nat option \<Rightarrow> string option \<Rightarrow> revenue_db \<Rightarrow> (revenue_policy \<times> string) list" where
  "list_revenue_share_policies tenant kind db =
     (let of_kind = (\<lambda>r. optional (\<lambda>k. rp_kind r = k) kind);
          tenant_rows = (if tenant = None then [] else filter (\<lambda>r. rp_tenant r = tenant) (rv_policies db));
          global_rows = filter (\<lambda>r. rp_tenant r = None \<and> of_kind r) (rv_policies db);
          added = filter (\<lambda>r. \<not> list_ex (\<lambda>t. rp_policy t = rp_policy r) tenant_rows) global_rows
      in map (revenue_policy_response tenant)
           (filter of_kind (sort_key (\<lambda>r. text_order (rp_policy r)) (tenant_rows @ added))))"

section \<open>Hooks\<close>

record hook_body =
  hb_tenant :: "nat option"
  hb_provider :: string
  hb_algo :: string
  hb_policy :: string
  hb_service :: string
  hb_event :: nat
  hb_saga :: "nat option"
  hb_ledger :: "nat option"
  hb_period :: string
  hb_gross_ref :: "string option"
  hb_currency :: string
  hb_status :: string
  hb_meta :: jdict

definition hook_body_ok :: "hook_body \<Rightarrow> bool" where
  "hook_body_ok b \<longleftrightarrow>
     revenue_metadata_ok (hb_meta b) \<and> id_ok (hb_provider b) \<and> id_ok (hb_algo b) \<and> id_ok (hb_policy b) \<and>
     id_ok (hb_service b) \<and> period_ok (hb_period b) \<and> optional (\<lambda>s. length s \<le> 128) (hb_gross_ref b) \<and>
     currency_ok (hb_currency b) \<and> hb_status b \<in> {''reserved'', ''captured'', ''voided''}"

text \<open>The provider and the capability in the scope of the tenant, else in the global one.\<close>

definition provider_exists :: "string \<Rightarrow> nat option \<Rightarrow> revenue_db \<Rightarrow> bool" where
  "provider_exists provider tenant db \<longleftrightarrow>
     (tenant, provider) \<in> set (rv_providers db) \<or> (None, provider) \<in> set (rv_providers db)"

definition capability_provider :: "string \<Rightarrow> nat option \<Rightarrow> revenue_db \<Rightarrow> string option" where
  "capability_provider algo tenant db =
     or_else (map_of (rv_capabilities db) (tenant, algo)) (map_of (rv_capabilities db) (None, algo))"

text \<open>\<^verbatim>\<open>_validate_revenue_share_hook_references\<close> passes.\<close>

definition hook_references_ok :: "hook_body \<Rightarrow> revenue_db \<Rightarrow> bool" where
  "hook_references_ok b db \<longleftrightarrow>
     provider_exists (hb_provider b) (hb_tenant b) db \<and>
     capability_provider (hb_algo b) (hb_tenant b) db = Some (hb_provider b) \<and>
     load_revenue_policy_row (hb_policy b) (hb_tenant b) True db \<noteq> None"

definition load_revenue_hook_by_source_event :: "string \<Rightarrow> nat \<Rightarrow> revenue_db \<Rightarrow> revenue_hook option" where
  "load_revenue_hook_by_source_event service event db =
     find (\<lambda>r. rh_service r = service \<and> rh_event r = event) (rv_hooks db)"

definition revenue_hook_response :: "nat option \<Rightarrow> revenue_hook \<Rightarrow> revenue_hook \<times> string" where
  "revenue_hook_response requested row = (row, scope_source (rh_tenant row) requested)"

definition new_hook :: "nat \<Rightarrow> datetime \<Rightarrow> hook_body \<Rightarrow> revenue_hook" where
  "new_hook i now b =
     \<lparr>rh_id = i, rh_tenant = hb_tenant b, rh_provider = hb_provider b, rh_algo = hb_algo b, rh_policy = hb_policy b,
      rh_service = hb_service b, rh_event = hb_event b, rh_saga = hb_saga b, rh_ledger = hb_ledger b,
      rh_period = hb_period b, rh_gross_ref = hb_gross_ref b, rh_currency = hb_currency b, rh_status = hb_status b,
      rh_meta = hb_meta b, rh_created = now\<rparr>"

definition create_revenue_share_hook ::
  "string \<Rightarrow> string option \<Rightarrow> datetime \<Rightarrow> hook_body \<Rightarrow> revenue_db \<Rightarrow> (revenue_hook \<times> string) outcome \<times> revenue_db" where
  "create_revenue_share_hook secret header now body db =
     (if \<not> hook_body_ok body then (HttpError 422, db)
      else with_write_auth secret header db
        (case load_revenue_hook_by_source_event (hb_service body) (hb_event body) db of
           Some existing \<Rightarrow> (Returned (revenue_hook_response (rh_tenant existing) existing), db)
         | None \<Rightarrow>
             if \<not> hook_references_ok body db then (HttpError 422, db)
             else
               let new = new_hook (rv_next db) now body
               in (Returned (revenue_hook_response (hb_tenant body) new),
                   db\<lparr>rv_hooks := rv_hooks db @ [new], rv_next := Suc (rv_next db)\<rparr>)))"

definition get_revenue_share_hook :: "nat \<Rightarrow> revenue_db \<Rightarrow> (revenue_hook \<times> string) outcome" where
  "get_revenue_share_hook hook_id db =
     (case row_get rh_id hook_id (rv_hooks db) of
        None \<Rightarrow> HttpError 404
      | Some row \<Rightarrow> Returned (revenue_hook_response (rh_tenant row) row))"

text \<open>Newest first.\<close>

definition list_revenue_share_hooks ::
  "nat option \<Rightarrow> string option \<Rightarrow> string option \<Rightarrow> string option \<Rightarrow> revenue_db \<Rightarrow> (revenue_hook \<times> string) list" where
  "list_revenue_share_hooks tenant provider algo period db =
     map (revenue_hook_response tenant)
       (sort_key (\<lambda>r. - to_us (rh_created r))
         (filter (\<lambda>r. rh_tenant r = tenant \<and> optional (\<lambda>p. rh_provider r = p) provider \<and>
            optional (\<lambda>k. rh_algo r = k) algo \<and> optional (\<lambda>m. rh_period r = m) period) (rv_hooks db)))"

section \<open>Payout entries\<close>

record entry_body =
  nb_tenant :: "nat option"
  nb_entry :: "string option"
  nb_hook :: nat
  nb_gross :: rat
  nb_currency :: string
  nb_recognized :: datetime
  nb_status :: string
  nb_meta :: jdict

definition PAYOUT_ENTRY_STATUSES :: "string list" where
  "PAYOUT_ENTRY_STATUSES = [''pending'', ''held'', ''paid'', ''voided'']"

definition validate_entry :: "entry_body \<Rightarrow> entry_body option" where
  "validate_entry b =
     (if \<not> (revenue_metadata_ok (nb_meta b) \<and> optional id_ok (nb_entry b) \<and> decimal_field_ok 12 4 (nb_gross b) \<and>
            currency_ok (nb_currency b) \<and> nb_status b \<in> set PAYOUT_ENTRY_STATUSES) then None
      else map_option (\<lambda>gross. b\<lparr>nb_gross := gross\<rparr>) (normalize_money (nb_gross b)))"

definition load_revenue_hook_by_id_exact_scope :: "nat \<Rightarrow> nat option \<Rightarrow> revenue_db \<Rightarrow> revenue_hook option" where
  "load_revenue_hook_by_id_exact_scope hook_id tenant db =
     find (\<lambda>r. rh_id r = hook_id \<and> rh_tenant r = tenant) (rv_hooks db)"

definition load_payout_entry_row :: "string \<Rightarrow> nat option \<Rightarrow> revenue_db \<Rightarrow> payout_entry option" where
  "load_payout_entry_row entry_id tenant db =
     find (\<lambda>r. py_entry r = entry_id \<and> py_tenant r = tenant) (rv_entries db)"

definition load_payout_entry_by_hook :: "nat \<Rightarrow> revenue_db \<Rightarrow> payout_entry option" where
  "load_payout_entry_by_hook hook_id db = find (\<lambda>r. py_hook r = hook_id) (rv_entries db)"

text \<open>\<^verbatim>\<open>_coerce_ratio\<close>; \<open>None\<close> is the conflict.\<close>

definition coerce_ratio :: "rat \<Rightarrow> rat option" where
  "coerce_ratio v = (if v < 0 \<or> 1 < v then None else Some (quantize_half_even 6 v))"

text \<open>\<^verbatim>\<open>_validate_payout_entry_matches_hook\<close> and \<^verbatim>\<open>_validate_payout_policy_snapshot\<close> pass.\<close>

definition payout_entry_matches_hook :: "payout_entry \<Rightarrow> revenue_hook \<Rightarrow> bool" where
  "payout_entry_matches_hook row hook \<longleftrightarrow>
     py_tenant row = rh_tenant hook \<and> py_provider row = rh_provider hook \<and> py_algo row = rh_algo hook \<and>
     py_policy row = rh_policy hook \<and> py_service row = rh_service hook \<and> py_event row = rh_event hook \<and>
     py_period row = rh_period hook"

definition ratios_ok :: "rat \<Rightarrow> rat \<Rightarrow> bool" where
  "ratios_ok platform provider \<longleftrightarrow>
     (case (coerce_ratio platform, coerce_ratio provider) of (Some a, Some b) \<Rightarrow> a + b = 1 | _ \<Rightarrow> False)"

definition payout_policy_snapshot_ok :: "payout_entry \<Rightarrow> revenue_db \<Rightarrow> bool" where
  "payout_policy_snapshot_ok row db \<longleftrightarrow>
     (case load_revenue_policy_row (py_policy row) (py_tenant row) True db of
        None \<Rightarrow> False
      | Some policy \<Rightarrow>
          ratios_ok (py_platform_ratio row) (py_provider_ratio row) \<and> ratios_ok (rp_platform policy) (rp_provider policy))"

text \<open>\<^verbatim>\<open>_validate_payout_entry\<close> passes; timestamps of a database are aware.\<close>

definition validate_payout_entry :: "payout_entry \<Rightarrow> revenue_db \<Rightarrow> bool" where
  "validate_payout_entry row db \<longleftrightarrow>
     py_status row \<in> set PAYOUT_ENTRY_STATUSES \<and> id_ok (py_entry row) \<and> id_ok (py_provider row) \<and> id_ok (py_algo row) \<and>
     id_ok (py_policy row) \<and> id_ok (py_service row) \<and> period_ok (py_period row) \<and> currency_ok (py_currency row) \<and>
     0 \<le> py_gross row \<and> coerce_ratio (py_platform_ratio row) \<noteq> None \<and> coerce_ratio (py_provider_ratio row) \<noteq> None \<and>
     (case row_get rh_id (py_hook row) (rv_hooks db) of
        None \<Rightarrow> False
      | Some hook \<Rightarrow> payout_entry_matches_hook row hook) \<and>
     payout_policy_snapshot_ok row db"

definition payout_amounts :: "payout_entry \<Rightarrow> (rat \<times> rat) option" where
  "payout_amounts row =
     (case normalize_money (py_gross row) of
        None \<Rightarrow> None
      | Some gross \<Rightarrow>
          (case provider_revenue_amount gross (py_provider_ratio row) of
             None \<Rightarrow> None
           | Some provider \<Rightarrow> map_option (Pair provider) (platform_revenue_amount gross provider)))"

text \<open>The entry as it is answered; \<open>payout_row\<close> is what dashboards and batches keep of it.\<close>

record payout_row =
  pr_entry :: string
  pr_hook :: nat
  pr_provider :: string
  pr_algo :: string
  pr_policy :: string
  pr_service :: string
  pr_event :: nat
  pr_period :: string
  pr_currency :: string
  pr_gross :: rat
  pr_provider_ratio :: rat
  pr_platform_ratio :: rat
  pr_provider_amount :: rat
  pr_platform_amount :: rat
  pr_status :: string
  pr_recognized :: datetime
  pr_scope :: string

record payout_response = payout_row +
  px_id :: nat
  px_tenant :: "nat option"
  px_created :: datetime
  px_updated :: datetime

definition payout_scope_source :: "nat option \<Rightarrow> nat option \<Rightarrow> string option" where
  "payout_scope_source row_tenant requested =
     (if scope_source row_tenant requested = ''global_fallback'' then None else Some (scope_source row_tenant requested))"

definition validated_payout_entry_response :: "nat option \<Rightarrow> revenue_db \<Rightarrow> payout_entry \<Rightarrow> payout_response outcome" where
  "validated_payout_entry_response requested db row =
     (if \<not> validate_payout_entry row db then HttpError 409
      else case (payout_amounts row, normalize_money (py_gross row)) of
        (Some (provider, platform), Some gross) \<Rightarrow>
          (case payout_scope_source (py_tenant row) requested of
             None \<Rightarrow> HttpError 409
           | Some scope \<Rightarrow>
               Returned \<lparr>pr_entry = py_entry row, pr_hook = py_hook row, pr_provider = py_provider row, pr_algo = py_algo row,
                 pr_policy = py_policy row, pr_service = py_service row, pr_event = py_event row, pr_period = py_period row,
                 pr_currency = py_currency row, pr_gross = gross, pr_provider_ratio = py_provider_ratio row,
                 pr_platform_ratio = py_platform_ratio row, pr_provider_amount = provider, pr_platform_amount = platform,
                 pr_status = py_status row, pr_recognized = py_recognized row, pr_scope = scope,
                 px_id = py_id row, px_tenant = py_tenant row, px_created = py_created row, px_updated = py_updated row\<rparr>)
      | _ \<Rightarrow> ServerError)"

definition payout_entry_row_from_response :: "payout_response \<Rightarrow> payout_row" where
  "payout_entry_row_from_response r = payout_row.truncate r"

text \<open>
  The amounts of a row are not negative, so that normalizing them again raises nothing (\<open>renormalize\<close>).
\<close>

definition renormalize :: "rat \<Rightarrow> rat" where
  "renormalize v = (case normalize_money v of None \<Rightarrow> v | Some m \<Rightarrow> m)"

text \<open>The responses of a list of rows: the first one that fails is the answer.\<close>

fun payout_responses :: "nat option \<Rightarrow> revenue_db \<Rightarrow> payout_entry list \<Rightarrow> payout_response list outcome" where
  "payout_responses requested db [] = Returned []"
| "payout_responses requested db (row # rows) =
     (case validated_payout_entry_response requested db row of
        Returned r \<Rightarrow>
          (case payout_responses requested db rows of
             Returned rs \<Rightarrow> Returned (r # rs)
           | Problem p \<Rightarrow> Problem p | HttpError st \<Rightarrow> HttpError st | ServerError \<Rightarrow> ServerError)
      | Problem p \<Rightarrow> Problem p | HttpError st \<Rightarrow> HttpError st | ServerError \<Rightarrow> ServerError)"

text \<open>\<^verbatim>\<open>_assert_payout_entry_material_unchanged\<close> passes.\<close>

definition payout_entry_material_unchanged :: "payout_entry \<Rightarrow> entry_body \<Rightarrow> bool" where
  "payout_entry_material_unchanged row b \<longleftrightarrow>
     py_hook row = nb_hook b \<and> normalize_money (py_gross row) = Some (nb_gross b) \<and> py_currency row = nb_currency b \<and>
     py_recognized row = nb_recognized b"

definition payout_transition_allowed :: "string \<Rightarrow> string \<Rightarrow> bool" where
  "payout_transition_allowed current next_status \<longleftrightarrow>
     current = next_status \<or>
     current = ''pending'' \<and> next_status \<in> {''held'', ''paid'', ''voided''} \<or>
     current = ''held'' \<and> next_status \<in> {''pending'', ''paid'', ''voided''}"

definition new_entry :: "nat \<Rightarrow> string \<Rightarrow> datetime \<Rightarrow> revenue_hook \<Rightarrow> rat \<Rightarrow> rat \<Rightarrow> entry_body \<Rightarrow> payout_entry" where
  "new_entry i entry_id now hook platform provider b =
     \<lparr>py_id = i, py_tenant = nb_tenant b, py_entry = entry_id, py_hook = rh_id hook, py_provider = rh_provider hook,
      py_algo = rh_algo hook, py_policy = rh_policy hook, py_service = rh_service hook, py_event = rh_event hook,
      py_period = rh_period hook, py_currency = nb_currency b, py_gross = nb_gross b, py_platform_ratio = platform,
      py_provider_ratio = provider, py_status = nb_status b, py_recognized = nb_recognized b, py_meta = nb_meta b,
      py_created = now, py_updated = now\<rparr>"

text \<open>An answer other than \<open>Returned\<close> rolls the request back.\<close>

definition answered_with :: "'a outcome \<Rightarrow> 'db \<Rightarrow> 'db \<Rightarrow> 'a outcome \<times> 'db" where
  "answered_with r written db = (r, if is_returned r then written else db)"

definition upsert_provider_revenue_payout_entry ::
  "string \<Rightarrow> string option \<Rightarrow> datetime \<Rightarrow> string \<Rightarrow> entry_body \<Rightarrow> revenue_db \<Rightarrow> payout_response outcome \<times> revenue_db" where
  "upsert_provider_revenue_payout_entry secret header now entry_id raw db =
     (case validate_entry raw of
        None \<Rightarrow> (HttpError 422, db)
      | Some body \<Rightarrow>
          if \<not> id_ok entry_id then (HttpError 422, db)
          else with_write_auth secret header db
            (if \<not> path_id_ok (nb_entry body) entry_id then (HttpError 422, db)
             else case load_payout_entry_row entry_id (nb_tenant body) db of
               Some row \<Rightarrow>
                 if \<not> validate_payout_entry row db then (HttpError 409, db)
                 else if normalize_money (py_gross row) = None then (ServerError, db)
                 else if \<not> payout_entry_material_unchanged row body then (HttpError 422, db)
                 else if \<not> payout_transition_allowed (py_status row) (nb_status body) then (HttpError 422, db)
                 else
                   let written = row\<lparr>py_status := nb_status body, py_meta := nb_meta body, py_updated := now\<rparr>;
                       db1 = db\<lparr>rv_entries := row_put py_id written (rv_entries db)\<rparr>
                   in answered_with (validated_payout_entry_response (nb_tenant body) db1 written) db1 db
             | None \<Rightarrow>
                 (case load_revenue_hook_by_id_exact_scope (nb_hook body) (nb_tenant body) db of
                    None \<Rightarrow> (HttpError 422, db)
                  | Some hook \<Rightarrow>
                      if load_payout_entry_by_hook (nb_hook body) db \<noteq> None then (HttpError 422, db)
                      else case load_revenue_policy_row (rh_policy hook) (rh_tenant hook) (rh_tenant hook \<noteq> None) db of
                        None \<Rightarrow> (HttpError 409, db)
                      | Some policy \<Rightarrow>
                          (case (coerce_ratio (rp_platform policy), coerce_ratio (rp_provider policy)) of
                             (Some platform, Some provider) \<Rightarrow>
                               if platform + provider \<noteq> 1 then (HttpError 409, db)
                               else
                                 let new = new_entry (rv_next db) entry_id now hook platform provider body;
                                     db1 = db\<lparr>rv_entries := rv_entries db @ [new], rv_next := Suc (rv_next db)\<rparr>
                                 in answered_with (validated_payout_entry_response (nb_tenant body) db1 new) db1 db
                           | _ \<Rightarrow> (HttpError 409, db)))))"

definition get_provider_revenue_payout_entry :: "string \<Rightarrow> nat option \<Rightarrow> revenue_db \<Rightarrow> payout_response outcome" where
  "get_provider_revenue_payout_entry entry_id tenant db =
     (if \<not> id_ok entry_id then HttpError 422
      else case load_payout_entry_row entry_id tenant db of
        None \<Rightarrow> HttpError 404
      | Some row \<Rightarrow> validated_payout_entry_response tenant db row)"

text \<open>Newest first, then by identifier.\<close>

definition newest_entries_first :: "payout_entry list \<Rightarrow> payout_entry list" where
  "newest_entries_first rows = sort_key (\<lambda>r. - to_us (py_recognized r)) (sort_key (\<lambda>r. text_order (py_entry r)) rows)"

definition list_provider_revenue_payout_entries ::
  "nat option \<Rightarrow> string option \<Rightarrow> string option \<Rightarrow> string option \<Rightarrow> string option \<Rightarrow> revenue_db \<Rightarrow> payout_response list outcome" where
  "list_provider_revenue_payout_entries tenant provider period status currency db =
     payout_responses tenant db (newest_entries_first
       (filter (\<lambda>r. py_tenant r = tenant \<and> optional (\<lambda>p. py_provider r = p) provider \<and> optional (\<lambda>m. py_period r = m) period \<and>
          optional (\<lambda>s. py_status r = s) status \<and> optional (\<lambda>c. py_currency r = c) currency) (rv_entries db)))"

end
