(* ===== verification/PayoutDashboard.thy ===== *)
theory PayoutDashboard
  imports RevenueShare
begin

text \<open>
  The revenue dashboard of a provider (apps/capability-registry/src/capability_registry/routes.py): the entries of a
  filter with counts by status, totals by currency, and totals by month and currency.
\<close>

record payout_amounts_total =
  pt_gross :: rat
  pt_provider :: rat
  pt_platform :: rat
  pt_pending :: rat
  pt_held :: rat
  pt_paid :: rat
  pt_voided :: rat

definition empty_payout_amounts :: payout_amounts_total where
  "empty_payout_amounts = \<lparr>pt_gross = 0, pt_provider = 0, pt_platform = 0, pt_pending = 0, pt_held = 0, pt_paid = 0, pt_voided = 0\<rparr>"

definition add_payout_amounts :: "payout_amounts_total \<Rightarrow> payout_row \<Rightarrow> payout_amounts_total" where
  "add_payout_amounts t row =
     (let gross = renormalize (pr_gross row); provider = renormalize (pr_provider_amount row);
          platform = renormalize (pr_platform_amount row)
      in if pr_status row = ''voided'' then t\<lparr>pt_voided := pt_voided t + gross\<rparr>
         else
           let t1 = t\<lparr>pt_gross := pt_gross t + gross, pt_provider := pt_provider t + provider,
                      pt_platform := pt_platform t + platform\<rparr>
           in if pr_status row = ''pending'' then t1\<lparr>pt_pending := pt_pending t1 + provider\<rparr>
              else if pr_status row = ''held'' then t1\<lparr>pt_held := pt_held t1 + provider\<rparr>
              else if pr_status row = ''paid'' then t1\<lparr>pt_paid := pt_paid t1 + provider\<rparr>
              else t1)"

definition payout_status_counts :: "payout_row list \<Rightarrow> (string \<times> int) list" where
  "payout_status_counts rows =
     map (\<lambda>s. (s, int (length (filter (\<lambda>r. pr_status r = s) rows)))) PAYOUT_ENTRY_STATUSES"

definition count_and_add :: "int \<times> payout_amounts_total \<Rightarrow> payout_row \<Rightarrow> int \<times> payout_amounts_total" where
  "count_and_add item row = (fst item + 1, add_payout_amounts (snd item) row)"

definition payout_currency_totals :: "payout_row list \<Rightarrow> (string \<times> int \<times> payout_amounts_total) list" where
  "payout_currency_totals rows =
     sort_key (\<lambda>(c, _). text_order c) (grouped pr_currency (\<lambda>_. (0, empty_payout_amounts)) count_and_add rows)"

definition payout_period_summaries :: "payout_row list \<Rightarrow> ((string \<times> string) \<times> int \<times> payout_amounts_total) list" where
  "payout_period_summaries rows =
     sort_key (\<lambda>((m, c), _). [text_order m, text_order c])
       (grouped (\<lambda>r. (pr_period r, pr_currency r)) (\<lambda>_. (0, empty_payout_amounts)) count_and_add rows)"

record dashboard_filter =
  df_from :: "datetime option"
  df_to :: "datetime option"
  df_period :: "string option"
  df_status :: "string option"
  df_algo :: "string option"
  df_currency :: "string option"

record payout_dashboard =
  pd_provider :: string
  pd_tenant :: "nat option"
  pd_filter :: dashboard_filter
  pd_counts :: "(string \<times> int) list"
  pd_total :: int
  pd_currencies :: "(string \<times> int \<times> payout_amounts_total) list"
  pd_periods :: "((string \<times> string) \<times> int \<times> payout_amounts_total) list"
  pd_entries :: "payout_row list"

definition dashboard_rows :: "string \<Rightarrow> nat option \<Rightarrow> dashboard_filter \<Rightarrow> revenue_db \<Rightarrow> payout_entry list" where
  "dashboard_rows provider tenant f db =
     newest_entries_first (filter (\<lambda>r. py_provider r = provider \<and> py_tenant r = tenant \<and>
       optional (\<lambda>m. py_period r = m) (df_period f) \<and> optional (\<lambda>s. py_status r = s) (df_status f) \<and>
       optional (\<lambda>k. py_algo r = k) (df_algo f) \<and> optional (\<lambda>c. py_currency r = c) (df_currency f) \<and>
       optional (\<lambda>a. a \<le> py_recognized r) (df_from f) \<and> optional (\<lambda>b. py_recognized r \<le> b) (df_to f)) (rv_entries db))"

definition get_provider_revenue_payout_dashboard ::
  "string \<Rightarrow> nat option \<Rightarrow> dashboard_filter \<Rightarrow> revenue_db \<Rightarrow> payout_dashboard outcome" where
  "get_provider_revenue_payout_dashboard provider tenant f db =
     (if \<not> (id_ok provider \<and> optional period_ok (df_period f) \<and> optional (\<lambda>s. s \<in> set PAYOUT_ENTRY_STATUSES) (df_status f) \<and>
            optional id_ok (df_algo f) \<and> optional currency_ok (df_currency f)) then HttpError 422
      else if (case (df_from f, df_to f) of (Some a, Some b) \<Rightarrow> b < a | _ \<Rightarrow> False) then HttpError 422
      else case payout_responses tenant db (dashboard_rows provider tenant f db) of
        Returned responses \<Rightarrow>
          let rows = map payout_entry_row_from_response responses
          in Returned \<lparr>pd_provider = provider, pd_tenant = tenant, pd_filter = f, pd_counts = payout_status_counts rows,
               pd_total = int (length rows), pd_currencies = payout_currency_totals rows,
               pd_periods = payout_period_summaries rows, pd_entries = rows\<rparr>
      | Problem p \<Rightarrow> Problem p | HttpError st \<Rightarrow> HttpError st | ServerError \<Rightarrow> ServerError)"

end
