(* ===== verification/MonthlyBatches.thy ===== *)
theory MonthlyBatches
  imports RevenueShare
begin

text \<open>
  Monthly revenue share batches (apps/capability-registry/src/capability_registry/routes.py): the snapshot of a month's
  pending and held entries with its three breakdowns and its checksum, the states of a batch, and the entity tag that
  guards a change of state. \<open>sha\<close> is the SHA-256 of the canonical JSON of what it is applied to.
\<close>

section \<open>The snapshot\<close>

definition monthly_empty_amounts :: month_amounts where
  "monthly_empty_amounts = \<lparr>ma_gross = 0, ma_provider = 0, ma_platform = 0, ma_pending = 0, ma_held = 0\<rparr>"

definition monthly_add_amounts :: "month_amounts \<Rightarrow> payout_row \<Rightarrow> month_amounts" where
  "monthly_add_amounts t row =
     (let gross = renormalize (pr_gross row); provider = renormalize (pr_provider_amount row);
          platform = renormalize (pr_platform_amount row);
          t1 = t\<lparr>ma_gross := ma_gross t + gross, ma_provider := ma_provider t + provider, ma_platform := ma_platform t + platform\<rparr>
      in if pr_status row = ''pending'' then t1\<lparr>ma_pending := ma_pending t1 + provider\<rparr>
         else if pr_status row = ''held'' then t1\<lparr>ma_held := ma_held t1 + provider\<rparr>
         else t1)"

definition new_provider_summary :: "payout_row \<Rightarrow> provider_summary" where
  "new_provider_summary row =
     \<lparr>ms_provider = pr_provider row, ms_currency = pr_currency row, ms_count = 0, ms_pending_count = 0, ms_held_count = 0,
      ms_amounts = monthly_empty_amounts, ms_entries = [], ms_scope = pr_scope row\<rparr>"

definition add_to_provider :: "provider_summary \<Rightarrow> payout_row \<Rightarrow> provider_summary" where
  "add_to_provider t row =
     t\<lparr>ms_count := ms_count t + 1,
       ms_pending_count := (if pr_status row = ''pending'' then ms_pending_count t + 1 else ms_pending_count t),
       ms_held_count := (if pr_status row = ''held'' then ms_held_count t + 1 else ms_held_count t),
       ms_entries := ms_entries t @ [pr_entry row], ms_amounts := monthly_add_amounts (ms_amounts t) row\<rparr>"

definition monthly_provider_summaries :: "payout_row list \<Rightarrow> provider_summary list" where
  "monthly_provider_summaries rows =
     sort_key (\<lambda>t. [text_order (ms_provider t), text_order (ms_currency t)])
       (map (\<lambda>(_, t). t\<lparr>ms_entries := sort_key text_order (ms_entries t)\<rparr>)
         (grouped (\<lambda>r. (pr_provider r, pr_currency r)) new_provider_summary add_to_provider rows))"

definition new_currency_total :: "payout_row \<Rightarrow> currency_total" where
  "new_currency_total row = \<lparr>mc_currency = pr_currency row, mc_count = 0, mc_providers = 0, mc_amounts = monthly_empty_amounts\<rparr>"

definition add_to_currency :: "currency_total \<Rightarrow> payout_row \<Rightarrow> currency_total" where
  "add_to_currency t row = t\<lparr>mc_count := mc_count t + 1, mc_amounts := monthly_add_amounts (mc_amounts t) row\<rparr>"

definition providers_of_currency :: "payout_row list \<Rightarrow> string \<Rightarrow> int" where
  "providers_of_currency rows currency =
     int (length (remdups (map pr_provider (filter (\<lambda>r. pr_currency r = currency) rows))))"

definition monthly_currency_totals :: "payout_row list \<Rightarrow> currency_total list" where
  "monthly_currency_totals rows =
     sort_key (\<lambda>t. text_order (mc_currency t))
       (map (\<lambda>(c, t). t\<lparr>mc_providers := providers_of_currency rows c\<rparr>)
         (grouped pr_currency new_currency_total add_to_currency rows))"

definition ratio_string :: "rat \<Rightarrow> string" where
  "ratio_string v = fmt 6 (quantize_half_even 6 v)"

definition new_policy_summary :: "payout_row \<Rightarrow> policy_summary" where
  "new_policy_summary row =
     \<lparr>mq_policy = pr_policy row, mq_provider_ratio = pr_provider_ratio row, mq_platform_ratio = pr_platform_ratio row,
      mq_currency = pr_currency row, mq_count = 0, mq_gross = 0, mq_provider = 0, mq_platform = 0\<rparr>"

definition add_to_policy :: "policy_summary \<Rightarrow> payout_row \<Rightarrow> policy_summary" where
  "add_to_policy t row =
     t\<lparr>mq_count := mq_count t + 1, mq_gross := mq_gross t + renormalize (pr_gross row),
       mq_provider := mq_provider t + renormalize (pr_provider_amount row),
       mq_platform := mq_platform t + renormalize (pr_platform_amount row)\<rparr>"

definition policy_order :: "policy_summary \<Rightarrow> nat list list" where
  "policy_order t = [text_order (mq_policy t), text_order (mq_currency t), text_order (ratio_string (mq_provider_ratio t)),
     text_order (ratio_string (mq_platform_ratio t))]"

definition monthly_policy_ratio_summaries :: "payout_row list \<Rightarrow> policy_summary list" where
  "monthly_policy_ratio_summaries rows =
     sort_key policy_order
       (map snd (grouped (\<lambda>r. (pr_policy r, ratio_string (pr_provider_ratio r), ratio_string (pr_platform_ratio r), pr_currency r))
         new_policy_summary add_to_policy rows))"

record checksum_payload =
  cp_tenant :: "nat option"
  cp_period :: string
  cp_sources :: "string list"
  cp_summaries :: "provider_summary list"
  cp_totals :: "currency_total list"
  cp_policies :: "policy_summary list"
  cp_excluded :: "excluded_entry list"

definition excluded_order :: "excluded_entry \<Rightarrow> nat list list" where
  "excluded_order e = [text_order (xe_entry e), text_order (xe_reason e)]"

definition MONTHLY_INCLUDED_STATUSES :: "string list" where
  "MONTHLY_INCLUDED_STATUSES = [''pending'', ''held'']"

text \<open>The included rows and the excluded entries; \<open>HttpError\<close> is the conflict of the first drifted entry.\<close>

fun sort_out_entries ::
  "nat option \<Rightarrow> bool \<Rightarrow> revenue_db \<Rightarrow> payout_entry list \<Rightarrow> payout_row list \<Rightarrow> excluded_entry list \<Rightarrow>
   (payout_row list \<times> excluded_entry list) outcome" where
  "sort_out_entries tenant allow_drift db [] included excluded = Returned (included, excluded)"
| "sort_out_entries tenant allow_drift db (row # rows) included excluded =
     (case validated_payout_entry_response tenant db row of
        Returned r \<Rightarrow>
          if pr_status r \<in> set MONTHLY_INCLUDED_STATUSES
          then sort_out_entries tenant allow_drift db rows (included @ [payout_entry_row_from_response r]) excluded
          else sort_out_entries tenant allow_drift db rows included (excluded @
            [\<lparr>xe_entry = pr_entry r,
              xe_reason = (if pr_status r \<in> {''paid'', ''voided''} then pr_status r else ''unsupported_status'')\<rparr>])
      | HttpError st \<Rightarrow>
          if allow_drift
          then sort_out_entries tenant allow_drift db rows included (excluded @ [\<lparr>xe_entry = py_entry row, xe_reason = ''stored_drift''\<rparr>])
          else HttpError st
      | Problem p \<Rightarrow> Problem p
      | ServerError \<Rightarrow> ServerError)"

definition entries_of_month :: "nat option \<Rightarrow> string \<Rightarrow> revenue_db \<Rightarrow> payout_entry list" where
  "entries_of_month tenant period db =
     sort_key (\<lambda>r. text_order (py_entry r)) (filter (\<lambda>r. py_period r = period \<and> py_tenant r = tenant) (rv_entries db))"

definition snapshot_of ::
  "(checksum_payload \<Rightarrow> string) \<Rightarrow> nat option \<Rightarrow> string \<Rightarrow> payout_row list \<Rightarrow> excluded_entry list \<Rightarrow> batch_snapshot" where
  "snapshot_of sha tenant period included excluded =
     (let rows = sort_key (\<lambda>r. text_order (pr_entry r)) included;
          left_out = sort_key excluded_order excluded;
          sources = map pr_entry rows
      in \<lparr>bs_count = int (length rows), bs_providers = int (length (remdups (map pr_provider rows))),
          bs_totals = monthly_currency_totals rows, bs_summaries = monthly_provider_summaries rows,
          bs_policies = monthly_policy_ratio_summaries rows, bs_excluded = left_out, bs_sources = sources,
          bs_checksum = sha \<lparr>cp_tenant = tenant, cp_period = period, cp_sources = sources,
            cp_summaries = monthly_provider_summaries rows, cp_totals = monthly_currency_totals rows,
            cp_policies = monthly_policy_ratio_summaries rows, cp_excluded = left_out\<rparr>\<rparr>)"

definition calculate_monthly_batch_snapshot ::
  "(checksum_payload \<Rightarrow> string) \<Rightarrow> nat option \<Rightarrow> string \<Rightarrow> bool \<Rightarrow> revenue_db \<Rightarrow> batch_snapshot outcome" where
  "calculate_monthly_batch_snapshot sha tenant period allow_drift db =
     (case sort_out_entries tenant allow_drift db (entries_of_month tenant period db) [] [] of
        Returned (included, excluded) \<Rightarrow> Returned (snapshot_of sha tenant period included excluded)
      | HttpError st \<Rightarrow> HttpError st
      | Problem p \<Rightarrow> Problem p
      | ServerError \<Rightarrow> ServerError)"

section \<open>Reading a batch\<close>

definition load_monthly_batch_row :: "string \<Rightarrow> nat option \<Rightarrow> revenue_db \<Rightarrow> monthly_batch option" where
  "load_monthly_batch_row batch_id tenant db = find (\<lambda>r. mb_batch r = batch_id \<and> mb_tenant r = tenant) (rv_batches db)"

definition MONTHLY_BATCH_STATUSES :: "string list" where
  "MONTHLY_BATCH_STATUSES = [''draft'', ''reviewed'', ''approved'', ''exported'', ''cancelled'']"

definition monthly_reference_ok :: "string option \<Rightarrow> bool" where
  "monthly_reference_ok v \<longleftrightarrow> optional (\<lambda>s. list_ex (\<lambda>p. starts_with p s) REFERENCE_PREFIXES) v"

text \<open>\<^verbatim>\<open>_validate_monthly_batch_json\<close> passes; the pattern of the identifier is matched with \<^verbatim>\<open>re.match\<close>.\<close>

definition monthly_batch_json_ok :: "monthly_batch \<Rightarrow> bool" where
  "monthly_batch_json_ok row \<longleftrightarrow>
     id_ok (chomp (mb_batch row)) \<and> period_ok (mb_period row) \<and> mb_status row \<in> set MONTHLY_BATCH_STATUSES \<and>
     1 \<le> mb_version row \<and> checksum_text_ok (bs_checksum (mb_snapshot row)) \<and>
     monthly_reference_ok (mb_notes row) \<and> monthly_reference_ok (mb_approved row)"

text \<open>\<^verbatim>\<open>_monthly_batch_response\<close> raises no conflict: the lists are sorted, the counts and the checksum agree.\<close>

definition monthly_batch_consistent :: "(checksum_payload \<Rightarrow> string) \<Rightarrow> monthly_batch \<Rightarrow> bool" where
  "monthly_batch_consistent sha row \<longleftrightarrow>
     (let s = mb_snapshot row in
      bs_sources s = sort_key text_order (bs_sources s) \<and> distinct (bs_sources s) \<and>
      bs_excluded s = sort_key excluded_order (bs_excluded s) \<and>
      bs_summaries s = sort_key (\<lambda>t. [text_order (ms_provider t), text_order (ms_currency t)]) (bs_summaries s) \<and>
      bs_totals s = sort_key (\<lambda>t. text_order (mc_currency t)) (bs_totals s) \<and>
      bs_policies s = sort_key policy_order (bs_policies s) \<and>
      bs_count s = int (length (bs_sources s)) \<and> bs_providers s = int (length (remdups (map ms_provider (bs_summaries s)))) \<and>
      sha \<lparr>cp_tenant = mb_tenant row, cp_period = mb_period row, cp_sources = bs_sources s, cp_summaries = bs_summaries s,
           cp_totals = bs_totals s, cp_policies = bs_policies s, cp_excluded = bs_excluded s\<rparr> = bs_checksum s)"

text \<open>The parts of a summary that the entries it was made from still determine after they were paid or voided.\<close>

definition without_status :: "month_amounts \<Rightarrow> rat \<times> rat \<times> rat" where
  "without_status a = (ma_gross a, ma_provider a, ma_platform a)"

definition provider_facts :: "provider_summary \<Rightarrow> string \<times> string \<times> int \<times> (rat \<times> rat \<times> rat) \<times> string list \<times> string" where
  "provider_facts t = (ms_provider t, ms_currency t, ms_count t, without_status (ms_amounts t), ms_entries t, ms_scope t)"

definition currency_facts :: "currency_total \<Rightarrow> string \<times> int \<times> int \<times> rat \<times> rat \<times> rat" where
  "currency_facts t = (mc_currency t, mc_count t, mc_providers t, without_status (mc_amounts t))"

text \<open>\<^verbatim>\<open>_validate_monthly_batch_source_entries\<close>: \<open>Returned\<close>, or the conflict.\<close>

definition monthly_sources_ok :: "monthly_batch \<Rightarrow> revenue_db \<Rightarrow> unit outcome" where
  "monthly_sources_ok row db =
     (let s = mb_snapshot row in
      if bs_sources s = [] then
        (if bs_summaries s \<noteq> [] \<or> bs_totals s \<noteq> [] \<or> bs_policies s \<noteq> [] then HttpError 409 else Returned ())
      else if \<not> list_all id_ok (bs_sources s) then HttpError 409
      else
        let found = sort_key (\<lambda>r. text_order (py_entry r))
              (filter (\<lambda>r. py_entry r \<in> set (bs_sources s) \<and> py_tenant r = mb_tenant row) (rv_entries db))
        in if set (map py_entry found) \<noteq> set (bs_sources s) then HttpError 409
           else case payout_responses (mb_tenant row) db found of
             Returned responses \<Rightarrow>
               let rows = sort_key (\<lambda>r. text_order (pr_entry r)) (map payout_entry_row_from_response responses)
               in if \<not> list_all (\<lambda>r. pr_period r = mb_period row) rows then HttpError 409
                  else if map pr_entry rows \<noteq> bs_sources s then HttpError 409
                  else if map provider_facts (monthly_provider_summaries rows) \<noteq> map provider_facts (bs_summaries s) then HttpError 409
                  else if map currency_facts (monthly_currency_totals rows) \<noteq> map currency_facts (bs_totals s) then HttpError 409
                  else if monthly_policy_ratio_summaries rows \<noteq> bs_policies s then HttpError 409
                  else Returned ()
           | HttpError st \<Rightarrow> HttpError st
           | Problem p \<Rightarrow> Problem p
           | ServerError \<Rightarrow> ServerError)"

definition monthly_etag :: "monthly_batch \<Rightarrow> string" where
  "monthly_etag row = [CHR 0x22] @ mb_batch row @ '':'' @ show_int (mb_version row) @ [CHR 0x22]"

text \<open>A batch is answered with its scope and its entity tag.\<close>

definition monthly_batch_response ::
  "(checksum_payload \<Rightarrow> string) \<Rightarrow> nat option \<Rightarrow> revenue_db \<Rightarrow> monthly_batch \<Rightarrow> (monthly_batch \<times> string \<times> string) outcome" where
  "monthly_batch_response sha requested db row =
     (if \<not> (monthly_batch_json_ok row \<and> monthly_batch_consistent sha row) then HttpError 409
      else case payout_scope_source (mb_tenant row) requested of
        None \<Rightarrow> HttpError 409
      | Some scope \<Rightarrow>
          (case monthly_sources_ok row db of
             Returned u \<Rightarrow> Returned (row, scope, monthly_etag row)
           | HttpError st \<Rightarrow> HttpError st
           | Problem p \<Rightarrow> Problem p
           | ServerError \<Rightarrow> ServerError))"

section \<open>Routes\<close>

record batch_body =
  bb_tenant :: "nat option"
  bb_batch :: "string option"
  bb_period :: string
  bb_notes :: "string option"
  bb_meta :: jdict
  bb_allow_drift :: bool

text \<open>An optional reference, stripped; \<open>None\<close> is the \<^verbatim>\<open>ValueError\<close>.\<close>

definition validate_optional_reference :: "string option \<Rightarrow> string option option" where
  "validate_optional_reference v =
     (case v of None \<Rightarrow> Some None | Some s \<Rightarrow> map_option Some (validate_reference s))"

definition validate_batch :: "batch_body \<Rightarrow> batch_body option" where
  "validate_batch b =
     (if \<not> (revenue_metadata_ok (bb_meta b) \<and> optional id_ok (bb_batch b) \<and> period_ok (bb_period b)) then None
      else map_option (\<lambda>notes. b\<lparr>bb_notes := notes\<rparr>) (validate_optional_reference (bb_notes b)))"

definition new_batch :: "nat \<Rightarrow> string \<Rightarrow> datetime \<Rightarrow> batch_body \<Rightarrow> batch_snapshot \<Rightarrow> monthly_batch" where
  "new_batch i batch_id now b snapshot =
     \<lparr>mb_id = i, mb_tenant = bb_tenant b, mb_batch = batch_id, mb_period = bb_period b, mb_status = ''draft'',
      mb_calculated = now, mb_snapshot = snapshot, mb_notes = bb_notes b, mb_approved = None, mb_meta = bb_meta b,
      mb_version = 1, mb_created = now, mb_updated = now\<rparr>"

definition recalculated :: "datetime \<Rightarrow> batch_body \<Rightarrow> batch_snapshot \<Rightarrow> monthly_batch \<Rightarrow> monthly_batch" where
  "recalculated now b snapshot row =
     row\<lparr>mb_snapshot := snapshot, mb_notes := bb_notes b, mb_meta := bb_meta b, mb_calculated := now, mb_updated := now,
         mb_version := mb_version row + 1\<rparr>"

definition upsert_provider_monthly_revenue_share_batch ::
  "(checksum_payload \<Rightarrow> string) \<Rightarrow> string \<Rightarrow> string option \<Rightarrow> datetime \<Rightarrow> string \<Rightarrow> batch_body \<Rightarrow> revenue_db \<Rightarrow>
   (monthly_batch \<times> string \<times> string) outcome \<times> revenue_db" where
  "upsert_provider_monthly_revenue_share_batch sha secret header now batch_id raw db =
     (case validate_batch raw of
        None \<Rightarrow> (HttpError 422, db)
      | Some body \<Rightarrow>
          if \<not> id_ok batch_id then (HttpError 422, db)
          else with_write_auth secret header db
            (if \<not> path_id_ok (bb_batch body) batch_id then (HttpError 422, db)
             else case calculate_monthly_batch_snapshot sha (bb_tenant body) (bb_period body) (bb_allow_drift body) db of
               Returned snapshot \<Rightarrow>
                 (case load_monthly_batch_row batch_id (bb_tenant body) db of
                    None \<Rightarrow>
                      let new = new_batch (rv_next db) batch_id now body snapshot;
                          db1 = db\<lparr>rv_batches := rv_batches db @ [new], rv_next := Suc (rv_next db)\<rparr>
                      in answered_with (monthly_batch_response sha (bb_tenant body) db1 new) db1 db
                  | Some row \<Rightarrow>
                      if \<not> monthly_batch_json_ok row then (HttpError 409, db)
                      else if mb_period row \<noteq> bb_period body then (HttpError 422, db)
                      else
                        let changed_snapshot = bs_checksum (mb_snapshot row) \<noteq> bs_checksum snapshot;
                            changed_body = mb_notes row \<noteq> bb_notes body \<or> \<not> same_dict (mb_meta row) (bb_meta body)
                        in if mb_status row \<noteq> ''draft'' then
                             (if changed_snapshot \<or> changed_body then (HttpError 422, db)
                              else (monthly_batch_response sha (bb_tenant body) db row, db))
                           else if changed_snapshot \<or> changed_body then
                             let written = recalculated now body snapshot row;
                                 db1 = db\<lparr>rv_batches := row_put mb_id written (rv_batches db)\<rparr>
                             in answered_with (monthly_batch_response sha (bb_tenant body) db1 written) db1 db
                           else (monthly_batch_response sha (bb_tenant body) db row, db))
             | HttpError st \<Rightarrow> (HttpError st, db)
             | Problem p \<Rightarrow> (Problem p, db)
             | ServerError \<Rightarrow> (ServerError, db)))"

definition get_provider_monthly_revenue_share_batch ::
  "(checksum_payload \<Rightarrow> string) \<Rightarrow> string \<Rightarrow> nat option \<Rightarrow> revenue_db \<Rightarrow> (monthly_batch \<times> string \<times> string) outcome" where
  "get_provider_monthly_revenue_share_batch sha batch_id tenant db =
     (if \<not> id_ok batch_id then HttpError 422
      else case load_monthly_batch_row batch_id tenant db of
        None \<Rightarrow> HttpError 404
      | Some row \<Rightarrow> monthly_batch_response sha tenant db row)"

text \<open>The first batch that cannot be read is the answer of the list.\<close>

fun batch_responses ::
  "(checksum_payload \<Rightarrow> string) \<Rightarrow> nat option \<Rightarrow> revenue_db \<Rightarrow> monthly_batch list \<Rightarrow> (monthly_batch \<times> string) list outcome" where
  "batch_responses sha requested db [] = Returned []"
| "batch_responses sha requested db (row # rows) =
     (case monthly_batch_response sha requested db row of
        Returned (r, scope, etag) \<Rightarrow>
          (case batch_responses sha requested db rows of
             Returned rs \<Rightarrow> Returned ((r, scope) # rs)
           | Problem p \<Rightarrow> Problem p | HttpError st \<Rightarrow> HttpError st | ServerError \<Rightarrow> ServerError)
      | Problem p \<Rightarrow> Problem p | HttpError st \<Rightarrow> HttpError st | ServerError \<Rightarrow> ServerError)"

text \<open>The latest month first, then the latest calculation, then by identifier.\<close>

definition latest_batches_first :: "monthly_batch list \<Rightarrow> monthly_batch list" where
  "latest_batches_first rows =
     rev (sort_key (\<lambda>r. text_order (mb_period r))
       (rev (sort_key (\<lambda>r. - to_us (mb_calculated r)) (sort_key (\<lambda>r. text_order (mb_batch r)) rows))))"

definition list_provider_monthly_revenue_share_batches ::
  "(checksum_payload \<Rightarrow> string) \<Rightarrow> nat option \<Rightarrow> string option \<Rightarrow> string option \<Rightarrow> string option \<Rightarrow> revenue_db \<Rightarrow>
   (monthly_batch \<times> string) list outcome" where
  "list_provider_monthly_revenue_share_batches sha tenant period status currency db =
     (case batch_responses sha tenant db (latest_batches_first
         (filter (\<lambda>r. mb_tenant r = tenant \<and> optional (\<lambda>m. mb_period r = m) period \<and> optional (\<lambda>s. mb_status r = s) status)
           (rv_batches db))) of
        Returned rs \<Rightarrow>
          Returned (filter (\<lambda>(r, _). optional (\<lambda>c. list_ex (\<lambda>t. mc_currency t = c) (bs_totals (mb_snapshot r))) currency) rs)
      | Problem p \<Rightarrow> Problem p | HttpError st \<Rightarrow> HttpError st | ServerError \<Rightarrow> ServerError)"

record batch_patch =
  bp_status :: string
  bp_approved :: "string option"
  bp_notes :: "string option"
  bp_meta :: "jdict option"

definition validate_patch :: "batch_patch \<Rightarrow> batch_patch option" where
  "validate_patch b =
     (if \<not> (optional revenue_metadata_ok (bp_meta b) \<and> bp_status b \<in> set MONTHLY_BATCH_STATUSES) then None
      else case (validate_optional_reference (bp_approved b), validate_optional_reference (bp_notes b)) of
        (Some approved, Some notes) \<Rightarrow> Some (b\<lparr>bp_approved := approved, bp_notes := notes\<rparr>)
      | _ \<Rightarrow> None)"

definition monthly_transition_allowed :: "string \<Rightarrow> string \<Rightarrow> bool" where
  "monthly_transition_allowed current next_status \<longleftrightarrow>
     current = ''draft'' \<and> next_status \<in> {''reviewed'', ''cancelled''} \<or>
     current = ''reviewed'' \<and> next_status \<in> {''approved'', ''cancelled''} \<or>
     current = ''approved'' \<and> next_status \<in> {''exported'', ''cancelled''}"

text \<open>\<^verbatim>\<open>_assert_monthly_status_transition\<close>: whether the status changes, or the error.\<close>

definition monthly_status_transition :: "string \<Rightarrow> string \<Rightarrow> string option \<Rightarrow> int + bool" where
  "monthly_status_transition current next_status approved =
     (if current \<notin> set MONTHLY_BATCH_STATUSES then Inl 409
      else if current = next_status then Inr False
      else if \<not> monthly_transition_allowed current next_status then Inl 422
      else if next_status \<in> {''approved'', ''exported''} \<and> approved = None then Inl 422
      else Inr True)"

definition patch_changes :: "batch_patch \<Rightarrow> monthly_batch \<Rightarrow> bool" where
  "patch_changes b row \<longleftrightarrow>
     (bp_notes b \<noteq> None \<and> bp_notes b \<noteq> mb_notes row) \<or> (bp_approved b \<noteq> None \<and> bp_approved b \<noteq> mb_approved row) \<or>
     (\<exists>m\<in>set_option (bp_meta b). \<not> same_dict m (mb_meta row))"

text \<open>\<^verbatim>\<open>_assert_terminal_monthly_patch_idempotent\<close> passes.\<close>

definition terminal_patch_ok :: "monthly_batch \<Rightarrow> batch_patch \<Rightarrow> bool" where
  "terminal_patch_ok row b \<longleftrightarrow>
     mb_status row \<notin> {''exported'', ''cancelled''} \<or> (bp_status b = mb_status row \<and> \<not> patch_changes b row)"

definition patched :: "datetime \<Rightarrow> batch_patch \<Rightarrow> monthly_batch \<Rightarrow> monthly_batch" where
  "patched now b row =
     row\<lparr>mb_status := bp_status b, mb_notes := or_else (bp_notes b) (mb_notes row),
         mb_approved := or_else (bp_approved b) (mb_approved row),
         mb_meta := (case bp_meta b of None \<Rightarrow> mb_meta row | Some m \<Rightarrow> m), mb_updated := now,
         mb_version := mb_version row + 1\<rparr>"

definition patch_provider_monthly_revenue_share_batch_status ::
  "(checksum_payload \<Rightarrow> string) \<Rightarrow> string \<Rightarrow> string option \<Rightarrow> datetime \<Rightarrow> string \<Rightarrow> nat option \<Rightarrow> string option \<Rightarrow> batch_patch \<Rightarrow>
   revenue_db \<Rightarrow> (monthly_batch \<times> string \<times> string) outcome \<times> revenue_db" where
  "patch_provider_monthly_revenue_share_batch_status sha secret header now batch_id tenant if_match raw db =
     (case validate_patch raw of
        None \<Rightarrow> (HttpError 422, db)
      | Some body \<Rightarrow>
          if \<not> id_ok batch_id then (HttpError 422, db)
          else with_write_auth secret header db
            (case load_monthly_batch_row batch_id tenant db of
               None \<Rightarrow> (HttpError 404, db)
             | Some row \<Rightarrow>
                 (case if_match of
                    None \<Rightarrow> (HttpError 428, db)
                  | Some tag \<Rightarrow>
                      if tag \<noteq> monthly_etag row then (HttpError 412, db)
                      else if \<not> terminal_patch_ok row body then (HttpError 422, db)
                      else case monthly_status_transition (mb_status row) (bp_status body) (or_else (bp_approved body) (mb_approved row)) of
                        Inl st \<Rightarrow> (HttpError st, db)
                      | Inr transitioned \<Rightarrow>
                          if transitioned \<or> patch_changes body row then
                            let written = patched now body row;
                                db1 = db\<lparr>rv_batches := row_put mb_id written (rv_batches db)\<rparr>
                            in answered_with (monthly_batch_response sha tenant db1 written) db1 db
                          else (monthly_batch_response sha tenant db row, db))))"

end
