(* ===== verification/RevenueSystem.thy ===== *)
theory RevenueSystem
  imports PayoutDashboard MonthlyBatches
begin

text \<open>
  The revenue share service: any sequence of its write requests and of changes to the provider and capability tables
  by the other routes, each in a transaction of its own. \<open>revenue_write\<close> lists the elementary writes; every route
  makes one of them or none. \<open>sha\<close> gives texts of 64 hexadecimal digits (\<open>hex_digest\<close>).
\<close>

definition hex_digest :: "(checksum_payload \<Rightarrow> string) \<Rightarrow> bool" where
  "hex_digest sha \<longleftrightarrow> (\<forall>p. checksum_text_ok (sha p))"

definition policy_ratios :: "rat \<Rightarrow> rat \<Rightarrow> bool" where
  "policy_ratios platform provider \<longleftrightarrow>
     0 \<le> platform \<and> 0 \<le> provider \<and> platform + provider = 1 \<and> has_scale 6 platform \<and> has_scale 6 provider"

inductive revenue_write :: "(checksum_payload \<Rightarrow> string) \<Rightarrow> revenue_db \<Rightarrow> revenue_db \<Rightarrow> bool" for sha where
  catalog: "revenue_write sha db (db\<lparr>rv_providers := ps, rv_capabilities := cs\<rparr>)"
| new_policy: "validate_policy raw = Some b \<Longrightarrow> load_revenue_policy_row pid (pb_tenant b) False db = None \<Longrightarrow>
    revenue_write sha db (db\<lparr>rv_policies := rv_policies db @ [new_policy (rv_next db) pid now b], rv_next := Suc (rv_next db)\<rparr>)"
| put_policy: "validate_policy raw = Some b \<Longrightarrow> r \<in> set (rv_policies db) \<Longrightarrow>
    revenue_write sha db (db\<lparr>rv_policies := row_put rp_id (write_policy now b r) (rv_policies db)\<rparr>)"
| new_hook: "hook_body_ok b \<Longrightarrow> load_revenue_hook_by_source_event (hb_service b) (hb_event b) db = None \<Longrightarrow>
    load_revenue_policy_row (hb_policy b) (hb_tenant b) True db \<noteq> None \<Longrightarrow>
    revenue_write sha db (db\<lparr>rv_hooks := rv_hooks db @ [new_hook (rv_next db) now b], rv_next := Suc (rv_next db)\<rparr>)"
| new_entry: "validate_entry raw = Some b \<Longrightarrow> id_ok eid \<Longrightarrow> load_payout_entry_row eid (nb_tenant b) db = None \<Longrightarrow>
    h \<in> set (rv_hooks db) \<Longrightarrow> rh_id h = nb_hook b \<Longrightarrow> rh_tenant h = nb_tenant b \<Longrightarrow> load_payout_entry_by_hook (nb_hook b) db = None \<Longrightarrow>
    p \<in> set (rv_policies db) \<Longrightarrow> coerce_ratio (rp_platform p) = Some x \<Longrightarrow> coerce_ratio (rp_provider p) = Some y \<Longrightarrow> x + y = 1 \<Longrightarrow>
    revenue_write sha db (db\<lparr>rv_entries := rv_entries db @ [new_entry (rv_next db) eid now h x y b], rv_next := Suc (rv_next db)\<rparr>)"
| put_entry: "validate_entry raw = Some b \<Longrightarrow> r \<in> set (rv_entries db) \<Longrightarrow> payout_transition_allowed (py_status r) (nb_status b) \<Longrightarrow>
    revenue_write sha db (db\<lparr>rv_entries := row_put py_id (r\<lparr>py_status := nb_status b, py_meta := nb_meta b, py_updated := now\<rparr>) (rv_entries db)\<rparr>)"
| new_batch: "validate_batch raw = Some b \<Longrightarrow> id_ok bid \<Longrightarrow> load_monthly_batch_row bid (bb_tenant b) db = None \<Longrightarrow>
    calculate_monthly_batch_snapshot sha (bb_tenant b) (bb_period b) (bb_allow_drift b) db = Returned snapshot \<Longrightarrow>
    revenue_write sha db (db\<lparr>rv_batches := rv_batches db @ [new_batch (rv_next db) bid now b snapshot], rv_next := Suc (rv_next db)\<rparr>)"
| put_batch: "validate_batch raw = Some b \<Longrightarrow> r \<in> set (rv_batches db) \<Longrightarrow> mb_status r = ''draft'' \<Longrightarrow> mb_period r = bb_period b \<Longrightarrow>
    mb_tenant r = bb_tenant b \<Longrightarrow>
    calculate_monthly_batch_snapshot sha (bb_tenant b) (bb_period b) (bb_allow_drift b) db = Returned snapshot \<Longrightarrow>
    revenue_write sha db (db\<lparr>rv_batches := row_put mb_id (recalculated now b snapshot r) (rv_batches db)\<rparr>)"
| patch_batch: "validate_patch raw = Some b \<Longrightarrow> r \<in> set (rv_batches db) \<Longrightarrow> terminal_patch_ok r b \<Longrightarrow>
    monthly_status_transition (mb_status r) (bp_status b) (or_else (bp_approved b) (mb_approved r)) = Inr changed \<Longrightarrow>
    changed \<or> patch_changes b r \<Longrightarrow>
    revenue_write sha db (db\<lparr>rv_batches := row_put mb_id (patched now b r) (rv_batches db)\<rparr>)"

section \<open>Requests\<close>

datatype revenue_request =
    PutPolicy string policy_body
  | CreateHook hook_body
  | PutEntry string entry_body
  | PutBatch string batch_body
  | PatchBatch string "nat option" "string option" batch_patch
  | CatalogChanged "(nat option \<times> string) list" "((nat option \<times> string) \<times> string) list"

fun handle_revenue ::
  "(checksum_payload \<Rightarrow> string) \<Rightarrow> string \<Rightarrow> string option \<Rightarrow> datetime \<Rightarrow> revenue_request \<Rightarrow> revenue_db \<Rightarrow> revenue_db" where
  "handle_revenue sha s h now (PutPolicy p b) db = snd (upsert_revenue_share_policy s h now p b db)"
| "handle_revenue sha s h now (CreateHook b) db = snd (create_revenue_share_hook s h now b db)"
| "handle_revenue sha s h now (PutEntry e b) db = snd (upsert_provider_revenue_payout_entry s h now e b db)"
| "handle_revenue sha s h now (PutBatch m b) db = snd (upsert_provider_monthly_revenue_share_batch sha s h now m b db)"
| "handle_revenue sha s h now (PatchBatch m t tag b) db =
     snd (patch_provider_monthly_revenue_share_batch_status sha s h now m t tag b db)"
| "handle_revenue sha s h now (CatalogChanged ps cs) db = db\<lparr>rv_providers := ps, rv_capabilities := cs\<rparr>"

inductive revenue_served :: "(checksum_payload \<Rightarrow> string) \<Rightarrow> string \<Rightarrow> revenue_db \<Rightarrow> revenue_db \<Rightarrow> bool" for sha secret where
  request: "revenue_served sha secret db (handle_revenue sha secret header now r db)"

definition revenue_serves :: "(checksum_payload \<Rightarrow> string) \<Rightarrow> string \<Rightarrow> revenue_db \<Rightarrow> revenue_db \<Rightarrow> bool" where
  "revenue_serves sha secret = (revenue_served sha secret)\<^sup>*\<^sup>*"

definition revenue_reachable :: "(checksum_payload \<Rightarrow> string) \<Rightarrow> string \<Rightarrow> revenue_db \<Rightarrow> bool" where
  "revenue_reachable sha secret db \<longleftrightarrow> revenue_serves sha secret empty_revenue db"

fun run_revenue ::
  "(checksum_payload \<Rightarrow> string) \<Rightarrow> string \<Rightarrow> (datetime \<times> revenue_request) list \<Rightarrow> revenue_db \<Rightarrow> revenue_db" where
  "run_revenue sha secret [] db = db"
| "run_revenue sha secret ((now, r) # rs) db = run_revenue sha secret rs (handle_revenue sha secret (Some secret) now r db)"

lemma run_revenue_serves: "revenue_serves sha secret db (run_revenue sha secret rs db)"
proof (induction sha secret rs db rule: run_revenue.induct)
  case (2 sha secret now r rs db)
  have "revenue_served sha secret db (handle_revenue sha secret (Some secret) now r db)" by (rule revenue_served.request)
  with 2 show ?case by (simp add: revenue_serves_def converse_rtranclp_into_rtranclp)
qed (simp add: revenue_serves_def)

section \<open>Every route writes one of them\<close>

abbreviation makes_write :: "(checksum_payload \<Rightarrow> string) \<Rightarrow> revenue_db \<Rightarrow> revenue_db \<Rightarrow> bool" where
  "makes_write sha db db' \<equiv> db' = db \<or> revenue_write sha db db'"

lemma found: "find P xs = Some x \<Longrightarrow> x \<in> set xs \<and> P x"
  by (auto simp: find_Some_iff)

lemma loaded_policy: "load_revenue_policy_row pid t g db = Some r \<Longrightarrow> r \<in> set (rv_policies db) \<and> rp_policy r = pid"
  by (auto simp: load_revenue_policy_row_def Let_def split: if_splits dest!: found)

lemma makes_write_auth: "makes_write sha db (snd k) \<Longrightarrow> makes_write sha db (snd (with_write_auth s h db k))"
  by (simp add: with_write_auth_def)

lemma makes_write_answered: "makes_write sha db db1 \<Longrightarrow> makes_write sha db (snd (answered_with r db1 db))"
  by (simp add: answered_with_def)

lemma writes_policy: "makes_write sha db (snd (upsert_revenue_share_policy s h now pid raw db))"
  by (auto simp: upsert_revenue_share_policy_def Let_def split: option.split
      intro!: makes_write_auth revenue_write.new_policy revenue_write.put_policy dest!: loaded_policy)

lemma writes_hook: "makes_write sha db (snd (create_revenue_share_hook s h now b db))"
  by (auto simp: create_revenue_share_hook_def Let_def hook_references_ok_def split: option.split
      intro!: makes_write_auth revenue_write.new_hook)

lemma writes_entry: "makes_write sha db (snd (upsert_provider_revenue_payout_entry s h now eid raw db))"
proof (cases "validate_entry raw")
  case b: (Some b)
  note def = upsert_provider_revenue_payout_entry_def b option.simps Let_def
  show ?thesis
  proof (cases "load_payout_entry_row eid (nb_tenant b) db")
    case (Some r)
    then have r: "r \<in> set (rv_entries db)" by (auto simp: load_payout_entry_row_def dest: found)
    show ?thesis using revenue_write.put_entry [OF b r]
      by (auto simp: def Some intro!: makes_write_auth makes_write_answered)
  next
    case None
    show ?thesis
    proof (cases "load_revenue_hook_by_id_exact_scope (nb_hook b) (nb_tenant b) db")
      case hook: (Some hk)
      then have hk: "hk \<in> set (rv_hooks db)" "rh_id hk = nb_hook b" "rh_tenant hk = nb_tenant b"
        by (auto simp: load_revenue_hook_by_id_exact_scope_def dest: found)
      have new: "revenue_write sha db (db\<lparr>rv_entries := rv_entries db @ [new_entry (rv_next db) eid now hk x y b], rv_next := Suc (rv_next db)\<rparr>)"
        if "id_ok eid" "load_payout_entry_by_hook (nb_hook b) db = None" "load_revenue_policy_row (rh_policy hk) (rh_tenant hk) g db = Some p"
          "coerce_ratio (rp_platform p) = Some x" "coerce_ratio (rp_provider p) = Some y" "x + y = 1" for g p x y
        using revenue_write.new_entry [OF b that(1) None hk that(2) _ that(4-6)] loaded_policy [OF that(3)] by blast
      show ?thesis
        by (auto simp: def None hook new split: option.split intro!: makes_write_auth makes_write_answered)
    qed (auto simp: def None intro!: makes_write_auth)
  qed
qed (simp add: upsert_provider_revenue_payout_entry_def)

lemma writes_batch: "makes_write sha db (snd (upsert_provider_monthly_revenue_share_batch sha s h now bid raw db))"
proof (cases "validate_batch raw")
  case b: (Some b)
  note def = upsert_provider_monthly_revenue_share_batch_def b option.simps Let_def
  show ?thesis
  proof (cases "load_monthly_batch_row bid (bb_tenant b) db")
    case (Some r)
    then have r: "r \<in> set (rv_batches db)" "mb_tenant r = bb_tenant b" by (auto simp: load_monthly_batch_row_def dest: found)
    have put: "revenue_write sha db (db\<lparr>rv_batches := row_put mb_id (recalculated now b snapshot r) (rv_batches db)\<rparr>)"
      if "mb_status r = ''draft''" "mb_period r = bb_period b"
        "calculate_monthly_batch_snapshot sha (bb_tenant b) (bb_period b) (bb_allow_drift b) db = Returned snapshot" for snapshot
      by (rule revenue_write.put_batch [OF b r(1) that(1,2) r(2) that(3)])
    show ?thesis by (auto simp: def Some put split: outcome.split intro!: makes_write_auth makes_write_answered)
  next
    case None
    show ?thesis using revenue_write.new_batch [OF b _ None]
      by (auto simp: def None split: outcome.split intro!: makes_write_auth makes_write_answered)
  qed
qed (simp add: upsert_provider_monthly_revenue_share_batch_def)

lemma writes_patch: "makes_write sha db (snd (patch_provider_monthly_revenue_share_batch_status sha s h now bid t tag raw db))"
  by (auto simp: patch_provider_monthly_revenue_share_batch_status_def Let_def split: option.split sum.split
      intro!: makes_write_auth makes_write_answered revenue_write.patch_batch simp: load_monthly_batch_row_def dest!: found)

lemma handled_revenue_writes: "makes_write sha db (handle_revenue sha s h now r db)"
proof (cases r)
  case (CatalogChanged ps cs)
  then show ?thesis by (simp add: revenue_write.catalog)
qed (simp_all only: handle_revenue.simps writes_policy writes_hook writes_entry writes_batch writes_patch)

lemma revenue_induct [consumes 1, case_names base step]:
  assumes "revenue_serves sha secret db db'" "P db"
    "\<And>x y. revenue_serves sha secret db x \<Longrightarrow> P x \<Longrightarrow> revenue_write sha x y \<Longrightarrow> P y"
  shows "P db'"
  using assms(1) unfolding revenue_serves_def
proof (induction rule: rtranclp_induct)
  case base
  show ?case by (rule assms(2))
next
  case (step x y)
  from step(2) have "makes_write sha x y" by (cases rule: revenue_served.cases) (simp add: handled_revenue_writes)
  then show ?case using step assms(3) by (auto simp: revenue_serves_def)
qed

end
