(* ===== verification/GroupedSums.thy ===== *)
theory GroupedSums
  imports RevenueModels
begin

text \<open>
  What collecting rows under their keys gives: each item folds the rows of its key, sums over the items are sums over
  the rows, and a change of the rows that the items do not see changes nothing. And lists sorted by a key.
\<close>

section \<open>Collecting by key\<close>

lemma grouped_snoc:
  "grouped key new add (rows @ [r]) =
     (let g = grouped key new add rows in
      AList.update (key r) (add (case map_of g (key r) of None \<Rightarrow> new r | Some t \<Rightarrow> t) r) g)"
  by (simp add: grouped_def Let_def)

lemma grouped_Nil [simp]: "grouped key new add [] = []"
  by (simp add: grouped_def)

lemma grouped_lookup:
  "map_of (grouped key new add rows) k =
     (case filter (\<lambda>r. key r = k) rows of [] \<Rightarrow> None | r # rs \<Rightarrow> Some (foldl add (new r) (r # rs)))"
proof (induction rows rule: rev_induct)
  case (snoc r rows)
  show ?case
  proof (cases "key r = k")
    case True
    then show ?thesis using snoc.IH
      by (cases "filter (\<lambda>r. key r = k) rows") (auto simp: grouped_snoc Let_def update_conv)
  next
    case False
    then show ?thesis using snoc.IH by (simp add: grouped_snoc Let_def update_conv)
  qed
qed simp

lemma grouped_distinct: "distinct (map fst (grouped key new add rows))"
  by (induction rows rule: rev_induct) (simp_all add: grouped_snoc Let_def distinct_update)

lemma grouped_keys: "fst ` set (grouped key new add rows) = key ` set rows"
proof -
  have "fst ` set (grouped key new add rows) = dom (map_of (grouped key new add rows))" by (simp add: dom_map_of_conv_image_fst)
  also have "\<dots> = {k. filter (\<lambda>r. key r = k) rows \<noteq> []}" by (auto simp: dom_def grouped_lookup split: list.splits)
  also have "\<dots> = key ` set rows" by (auto simp: filter_empty_conv)
  finally show ?thesis .
qed

lemma grouped_in:
  assumes "(k, t) \<in> set (grouped key new add rows)"
  obtains r rs where "filter (\<lambda>r. key r = k) rows = r # rs" "t = foldl add (new r) (r # rs)"
proof -
  have "map_of (grouped key new add rows) k = Some t" by (rule map_of_is_SomeI [OF grouped_distinct assms])
  then show ?thesis using that by (auto simp: grouped_lookup split: list.splits)
qed

lemma foldl_keeps: "(\<And>t r. c (add t r) = c t) \<Longrightarrow> c (foldl add t rs) = c t"
  by (induction rs arbitrary: t) simp_all

lemma foldl_sum:
  fixes m :: "'t \<Rightarrow> 'v::comm_monoid_add"
  shows "(\<And>t r. m (add t r) = m t + w r) \<Longrightarrow> m (foldl add t rs) = m t + sum_list (map w rs)"
  by (induction rs arbitrary: t) (simp_all add: add.assoc)

text \<open>A quantity that every row adds its share to.\<close>

lemma grouped_sum:
  fixes m :: "'t \<Rightarrow> 'v::comm_monoid_add"
  assumes "\<And>t r. m (add t r) = m t + w r" "\<And>r. m (new r) = 0" "(k, t) \<in> set (grouped key new add rows)"
  shows "m t = sum_where (\<lambda>r. key r = k) w rows"
  using assms(3)
proof (rule grouped_in)
  fix r rs assume f: "filter (\<lambda>r. key r = k) rows = r # rs" and t: "t = foldl add (new r) (r # rs)"
  have "m t = m (new r) + sum_list (map w (r # rs))" unfolding t by (rule foldl_sum) (rule assms(1))
  then show ?thesis by (simp add: assms(2) sum_where_def f)
qed

text \<open>The items follow the rows through a map that respects them.\<close>

lemma update_map: "AList.update k (h v) (map (\<lambda>(k, t). (k, h t)) g) = map (\<lambda>(k, t). (k, h t)) (AList.update k v g)"
  by (induction g) auto

lemma grouped_map:
  assumes "\<And>r. r \<in> set rows \<Longrightarrow> key' (f r) = key r" "\<And>r. r \<in> set rows \<Longrightarrow> new' (f r) = h (new r)"
    "\<And>t r. r \<in> set rows \<Longrightarrow> add' (h t) (f r) = h (add t r)"
  shows "grouped key' new' add' (map f rows) = map (\<lambda>(k, t). (k, h t)) (grouped key new add rows)"
  using assms
proof (induction rows rule: rev_induct)
  case (snoc r rows)
  have IH: "grouped key' new' add' (map f rows) = map (\<lambda>(k, t). (k, h t)) (grouped key new add rows)"
    using snoc.prems by (intro snoc.IH) simp_all
  have r: "key' (f r) = key r" "new' (f r) = h (new r)" "\<And>t. add' (h t) (f r) = h (add t r)" using snoc.prems by simp_all
  have m: "map_of (map (\<lambda>(k, t). (k, h t)) g) k = map_option h (map_of g k)" for g k by (induction g) auto
  have step: "add' (case map_of (map (\<lambda>(k, t). (k, h t)) g) k of None \<Rightarrow> new' (f r) | Some t \<Rightarrow> t) (f r)
      = h (add (case map_of g k of None \<Rightarrow> new r | Some t \<Rightarrow> t) r)" for g k
    unfolding m by (simp add: r split: option.split)
  show ?case unfolding map_append list.map grouped_snoc Let_def IH r(1) step update_map ..
qed simp

section \<open>Lists sorted by a key\<close>

lemma insort_key_map: "insort_key k (f x) (map f xs) = map f (insort_key (\<lambda>x. k (f x)) x xs)"
  by (induction xs) simp_all

lemma sort_key_map: "sort_key k (map f xs) = map f (sort_key (\<lambda>x. k (f x)) xs)"
  unfolding sort_key_def by (induction xs) (simp_all add: insort_key_map)

lemma sort_key_idem [simp]: "sort_key k (sort_key k xs) = sort_key k xs"
  by (rule sort_key_id_if_sorted) simp

lemma sort_key_unique:
  assumes "set xs = set ys" "distinct (map k xs)" "distinct (map k ys)"
  shows "sort_key k xs = sort_key k ys"
proof -
  have "map k (sort_key k xs) = map k (sort_key k ys)"
  proof (rule sorted_distinct_set_unique)
    have "distinct (sort_key k zs)" if "distinct (map k zs)" for zs using that by (simp add: distinct_map)
    then show "distinct (map k (sort_key k xs))" "distinct (map k (sort_key k ys))"
      using assms by (simp_all add: distinct_map)
  qed (simp_all add: assms)
  moreover have "inj_on k (set (sort_key k xs) \<union> set (sort_key k ys))" using assms by (auto simp: distinct_map)
  ultimately show ?thesis by (rule map_inj_on)
qed

lemma distinct_sort_map [simp]: "distinct (map k (sort_key c xs)) \<longleftrightarrow> distinct (map k xs)"
  by (simp add: distinct_map)

lemma text_order_inject [simp]: "text_order s = text_order t \<longleftrightarrow> s = t"
proof -
  have "inj code_of" by (auto simp: code_of_def inj_def)
  then show ?thesis using inj_map_eq_map by blast
qed

end
