(* ===== verification/RevenueInvariant.thy ===== *)
theory RevenueInvariant
  imports RevenueSystem GroupedSums RegistryRows
begin

text \<open>
  The invariant of the revenue share tables: keys are unique, policies split everything, an entry belongs to its hook
  and has amounts of four digits, and so every entry reads back (\<open>entry_view\<close>).
\<close>

section \<open>Keys\<close>

definition revenue_keys_ok :: "revenue_db \<Rightarrow> bool" where
  "revenue_keys_ok db \<longleftrightarrow>
     fresh_ids rp_id (rv_policies db) (rv_next db) \<and> fresh_ids rh_id (rv_hooks db) (rv_next db) \<and>
     fresh_ids py_id (rv_entries db) (rv_next db) \<and> fresh_ids mb_id (rv_batches db) (rv_next db) \<and>
     distinct (map (\<lambda>r. (rp_tenant r, rp_policy r)) (rv_policies db)) \<and>
     distinct (map (\<lambda>r. (rh_service r, rh_event r)) (rv_hooks db)) \<and>
     distinct (map (\<lambda>r. (py_tenant r, py_entry r)) (rv_entries db)) \<and> distinct (map py_hook (rv_entries db)) \<and>
     distinct (map (\<lambda>r. (mb_tenant r, mb_batch r)) (rv_batches db))"

lemmas revenue_writes = new_policy_def write_policy_def new_hook_def new_entry_def new_batch_def recalculated_def patched_def

lemma no_own_policy:
  "load_revenue_policy_row pid t False db = None \<Longrightarrow> r \<in> set (rv_policies db) \<Longrightarrow> \<not> (rp_policy r = pid \<and> rp_tenant r = t)"
  by (cases t) (auto simp: load_revenue_policy_row_def Let_def find_none split: if_splits)

lemma revenue_keys_write: "revenue_write sha db db' \<Longrightarrow> revenue_keys_ok db \<Longrightarrow> revenue_keys_ok db'"
proof (induction rule: revenue_write.induct)
  case (new_policy raw b pid db now)
  then show ?case by (auto simp: revenue_keys_ok_def fresh_ids_add fresh_ids_Suc revenue_writes dest: no_own_policy)
next
  case (put_policy raw b r db now)
  have k: "distinct (map rp_id (rv_policies db))" using put_policy by (simp add: revenue_keys_ok_def fresh_ids_def)
  show ?case using put_policy by (simp add: revenue_keys_ok_def fresh_ids_put map_row_put [OF k put_policy(2)] revenue_writes)
next
  case (put_entry raw b r db now)
  have k: "distinct (map py_id (rv_entries db))" using put_entry by (simp add: revenue_keys_ok_def fresh_ids_def)
  show ?case using put_entry by (simp add: revenue_keys_ok_def fresh_ids_put map_row_put [OF k put_entry(2)])
next
  case (put_batch raw b r db snapshot now)
  have k: "distinct (map mb_id (rv_batches db))" using put_batch by (simp add: revenue_keys_ok_def fresh_ids_def)
  show ?case using put_batch by (simp add: revenue_keys_ok_def fresh_ids_put map_row_put [OF k put_batch(2)] revenue_writes)
next
  case (patch_batch raw b r db changed now)
  have k: "distinct (map mb_id (rv_batches db))" using patch_batch by (simp add: revenue_keys_ok_def fresh_ids_def)
  show ?case using patch_batch by (simp add: revenue_keys_ok_def fresh_ids_put map_row_put [OF k patch_batch(2)] revenue_writes)
qed (auto simp: revenue_keys_ok_def fresh_ids_add fresh_ids_Suc revenue_writes load_revenue_hook_by_source_event_def
    load_payout_entry_row_def load_payout_entry_by_hook_def load_monthly_batch_row_def find_none)

section \<open>Policies, hooks and entries\<close>

definition policy_keys :: "revenue_db \<Rightarrow> (nat option \<times> string) set" where
  "policy_keys db = set (map (\<lambda>r. (rp_tenant r, rp_policy r)) (rv_policies db))"

lemma policy_loads:
  "load_revenue_policy_row pid t True db \<noteq> None \<longleftrightarrow> (t, pid) \<in> policy_keys db \<or> (None, pid) \<in> policy_keys db"
proof -
  have f: "find (\<lambda>r. rp_policy r = pid \<and> rp_tenant r = s) rows \<noteq> None \<longleftrightarrow> (s, pid) \<in> set (map (\<lambda>r. (rp_tenant r, rp_policy r)) rows)" for s rows
    by (induction rows) auto
  show ?thesis unfolding load_revenue_policy_row_def Let_def policy_keys_def f [symmetric] by auto
qed

definition hook_ok :: "revenue_db \<Rightarrow> revenue_hook \<Rightarrow> bool" where
  "hook_ok db h \<longleftrightarrow>
     id_ok (rh_provider h) \<and> id_ok (rh_algo h) \<and> id_ok (rh_policy h) \<and> id_ok (rh_service h) \<and> period_ok (rh_period h) \<and>
     ((rh_tenant h, rh_policy h) \<in> policy_keys db \<or> (None, rh_policy h) \<in> policy_keys db)"

definition entry_ok :: "revenue_db \<Rightarrow> payout_entry \<Rightarrow> bool" where
  "entry_ok db e \<longleftrightarrow>
     py_status e \<in> set PAYOUT_ENTRY_STATUSES \<and> id_ok (py_entry e) \<and> currency_ok (py_currency e) \<and>
     0 \<le> py_gross e \<and> has_scale 4 (py_gross e) \<and> policy_ratios (py_platform_ratio e) (py_provider_ratio e) \<and>
     (\<exists>h\<in>set (rv_hooks db). rh_id h = py_hook e \<and> payout_entry_matches_hook e h)"

definition revenue_rows_ok :: "revenue_db \<Rightarrow> bool" where
  "revenue_rows_ok db \<longleftrightarrow>
     list_all (\<lambda>p. policy_ratios (rp_platform p) (rp_provider p)) (rv_policies db) \<and>
     list_all (hook_ok db) (rv_hooks db) \<and> list_all (entry_ok db) (rv_entries db)"

lemma policy_keys_write: "revenue_write sha db db' \<Longrightarrow> revenue_keys_ok db \<Longrightarrow> policy_keys db \<subseteq> policy_keys db'"
proof (induction rule: revenue_write.induct)
  case (put_policy raw b r db now)
  have k: "distinct (map rp_id (rv_policies db))" using put_policy by (simp add: revenue_keys_ok_def fresh_ids_def)
  show ?case by (simp add: policy_keys_def map_row_put [OF k put_policy(2)] revenue_writes)
qed (auto simp: policy_keys_def)

lemma hooks_write: "revenue_write sha db db' \<Longrightarrow> set (rv_hooks db) \<subseteq> set (rv_hooks db')"
  by (induction rule: revenue_write.induct) auto

lemma hook_kept: "policy_keys db \<subseteq> policy_keys db' \<Longrightarrow> hook_ok db h \<Longrightarrow> hook_ok db' h"
  by (auto simp: hook_ok_def)

lemma entry_kept: "set (rv_hooks db) \<subseteq> set (rv_hooks db') \<Longrightarrow> entry_ok db e \<Longrightarrow> entry_ok db' e"
  by (auto simp: entry_ok_def)

lemma validated_policy: "validate_policy raw = Some b \<Longrightarrow> policy_ratios (pb_platform b) (pb_provider b)"
proof -
  assume v: "validate_policy raw = Some b"
  have n: "normalize_ratio v = Some r \<Longrightarrow> 0 \<le> r \<and> has_scale 6 r" for v r
    by (auto simp: normalize_ratio_def quantize_half_even_def half_even.quantize_nonneg half_even.quantize_scale split: if_splits)
  obtain p q where "normalize_ratio (pb_platform raw) = Some p" "normalize_ratio (pb_provider raw) = Some q"
      "p + q = 1" "pb_platform b = p" "pb_provider b = q"
    using v by (auto simp: validate_policy_def split: if_splits option.splits)
  then show ?thesis using n by (simp add: policy_ratios_def)
qed

lemma validated_entry:
  "validate_entry raw = Some b \<Longrightarrow>
     nb_status b \<in> set PAYOUT_ENTRY_STATUSES \<and> currency_ok (nb_currency b) \<and> 0 \<le> nb_gross b \<and> has_scale 4 (nb_gross b)"
  by (auto simp: validate_entry_def normalize_money_def quantize_half_up_def half_up.quantize_nonneg half_up.quantize_scale
      split: if_splits)

lemma policy_ratios_exact:
  "policy_ratios a b \<Longrightarrow> coerce_ratio a = Some a \<and> coerce_ratio b = Some b"
  by (auto simp: policy_ratios_def coerce_ratio_def quantize_half_even_def half_even.quantize_exact)

lemma revenue_rows_write: "revenue_write sha db db' \<Longrightarrow> revenue_keys_ok db \<Longrightarrow> revenue_rows_ok db \<Longrightarrow> revenue_rows_ok db'"
proof -
  assume w: "revenue_write sha db db'" and k: "revenue_keys_ok db" and ok: "revenue_rows_ok db"
  have hooks: "list_all (hook_ok db') (rv_hooks db)"
    using ok hook_kept [OF policy_keys_write [OF w k]] by (simp add: revenue_rows_ok_def list_all_iff)
  have entries: "list_all (entry_ok db') (rv_entries db)"
    using ok entry_kept [OF hooks_write [OF w]] by (simp add: revenue_rows_ok_def list_all_iff)
  have policies: "list_all (\<lambda>p. policy_ratios (rp_platform p) (rp_provider p)) (rv_policies db)" using ok by (simp add: revenue_rows_ok_def)
  show ?thesis using w hooks entries policies
  proof (induction rule: revenue_write.induct)
    case (new_policy raw b pid db now)
    then show ?case using validated_policy [OF new_policy(1)] by (simp add: revenue_rows_ok_def revenue_writes)
  next
    case (put_policy raw b r db now)
    then show ?case using validated_policy [OF put_policy(1)] by (simp add: revenue_rows_ok_def revenue_writes list_all_row_put)
  next
    case (new_hook b db now)
    let ?db = "db\<lparr>rv_hooks := rv_hooks db @ [new_hook (rv_next db) now b], rv_next := Suc (rv_next db)\<rparr>"
    have "policy_keys ?db = policy_keys db" by (simp add: policy_keys_def)
    then have "hook_ok ?db (new_hook (rv_next db) now b)"
      using new_hook(1,3) unfolding policy_loads by (simp add: revenue_writes hook_ok_def hook_body_ok_def)
    with new_hook show ?case by (simp add: revenue_rows_ok_def)
  next
    case (new_entry raw b eid db h p x y now)
    have "policy_ratios (rp_platform p) (rp_provider p)" using new_entry by (simp add: list_all_iff)
    then have "policy_ratios x y" using policy_ratios_exact new_entry(9,10) by fastforce
    then have "entry_ok (db\<lparr>rv_entries := rv_entries db @ [new_entry (rv_next db) eid now h x y b], rv_next := Suc (rv_next db)\<rparr>)
        (new_entry (rv_next db) eid now h x y b)"
      using new_entry(2,4,6) validated_entry [OF new_entry(1)]
      by (auto simp: entry_ok_def revenue_writes payout_entry_matches_hook_def)
    then show ?case using new_entry by (simp add: revenue_rows_ok_def)
  next
    case (put_entry raw b r db now)
    let ?w = "r\<lparr>py_status := nb_status b, py_meta := nb_meta b, py_updated := now\<rparr>"
    let ?db = "db\<lparr>rv_entries := row_put py_id ?w (rv_entries db)\<rparr>"
    have "entry_ok ?db r" using put_entry by (simp add: list_all_iff)
    then have "entry_ok ?db ?w" using validated_entry [OF put_entry(1)] by (simp add: entry_ok_def payout_entry_matches_hook_def)
    then show ?case using put_entry by (simp add: revenue_rows_ok_def list_all_row_put)
  qed (simp_all add: revenue_rows_ok_def)
qed

section \<open>Reading an entry back\<close>

definition provider_part :: "payout_entry \<Rightarrow> rat" where
  "provider_part e = quantize_half_up 4 (py_gross e * py_provider_ratio e)"

definition entry_view :: "payout_entry \<Rightarrow> payout_row" where
  "entry_view e =
     \<lparr>pr_entry = py_entry e, pr_hook = py_hook e, pr_provider = py_provider e, pr_algo = py_algo e, pr_policy = py_policy e,
      pr_service = py_service e, pr_event = py_event e, pr_period = py_period e, pr_currency = py_currency e,
      pr_gross = py_gross e, pr_provider_ratio = py_provider_ratio e, pr_platform_ratio = py_platform_ratio e,
      pr_provider_amount = provider_part e, pr_platform_amount = py_gross e - provider_part e,
      pr_status = py_status e, pr_recognized = py_recognized e,
      pr_scope = (if py_tenant e = None then ''global'' else ''tenant'')\<rparr>"

lemma entry_view_simps [simp]:
  "pr_entry (entry_view e) = py_entry e" "pr_status (entry_view e) = py_status e" "pr_period (entry_view e) = py_period e"
  "pr_currency (entry_view e) = py_currency e" "pr_gross (entry_view e) = py_gross e" "pr_provider (entry_view e) = py_provider e"
  "pr_provider_amount (entry_view e) = provider_part e" "pr_platform_amount (entry_view e) = py_gross e - provider_part e"
  by (simp_all add: entry_view_def)

lemma split_amounts:
  assumes "0 \<le> py_gross e" "has_scale 4 (py_gross e)" "policy_ratios (py_platform_ratio e) (py_provider_ratio e)"
  shows "0 \<le> provider_part e" "provider_part e \<le> py_gross e" "has_scale 4 (provider_part e)"
    "payout_amounts e = Some (provider_part e, py_gross e - provider_part e)" "normalize_money (py_gross e) = Some (py_gross e)"
proof -
  let ?x = "py_gross e * py_provider_ratio e"
  have r: "0 \<le> py_provider_ratio e" "py_provider_ratio e \<le> 1" using assms(3) by (auto simp: policy_ratios_def)
  have x: "0 \<le> ?x" "?x \<le> py_gross e" using assms(1) r by (simp_all add: mult_left_le)
  show nn: "0 \<le> provider_part e" unfolding provider_part_def quantize_half_up_def by (rule half_up.quantize_nonneg [OF x(1)])
  show le: "provider_part e \<le> py_gross e" unfolding provider_part_def quantize_half_up_def by (rule half_up.quantize_le [OF x assms(2)])
  show sc: "has_scale 4 (provider_part e)" unfolding provider_part_def quantize_half_up_def by (rule half_up.quantize_scale)
  have "quantize_half_up 4 (py_gross e - provider_part e) = py_gross e - provider_part e"
    unfolding quantize_half_up_def by (rule half_up.quantize_exact) (rule has_scale_diff [OF assms(2) sc])
  then have d: "normalize_money (py_gross e - provider_part e) = Some (py_gross e - provider_part e)" using le by (simp add: normalize_money_def)
  show g: "normalize_money (py_gross e) = Some (py_gross e)"
    using assms(1,2) by (simp add: normalize_money_def quantize_half_up_def half_up.quantize_exact)
  have "normalize_money ?x = Some (provider_part e)" using x(1) by (simp add: normalize_money_def provider_part_def)
  then show "payout_amounts e = Some (provider_part e, py_gross e - provider_part e)"
    by (simp add: payout_amounts_def g provider_revenue_amount_def platform_revenue_amount_def d)
qed

lemma entry_valid:
  assumes "revenue_keys_ok db" "revenue_rows_ok db" "e \<in> set (rv_entries db)"
  shows "validate_payout_entry e db"
proof -
  have e: "entry_ok db e" using assms(2,3) by (simp add: revenue_rows_ok_def list_all_iff)
  then obtain h where h: "h \<in> set (rv_hooks db)" "rh_id h = py_hook e" "payout_entry_matches_hook e h" by (auto simp: entry_ok_def)
  have ho: "hook_ok db h" using assms(2) h(1) by (simp add: revenue_rows_ok_def list_all_iff)
  have "row_get rh_id (rh_id h) (rv_hooks db) = Some h"
    using assms(1) h(1) by (intro row_get_in_set) (simp_all add: revenue_keys_ok_def fresh_ids_def)
  then have "row_get rh_id (py_hook e) (rv_hooks db) = Some h" by (simp add: h(2))
  moreover obtain p where "load_revenue_policy_row (py_policy e) (py_tenant e) True db = Some p"
    using ho h(3) policy_loads [of "py_policy e" "py_tenant e" db] by (auto simp: hook_ok_def payout_entry_matches_hook_def)
  moreover from loaded_policy [OF this] have "policy_ratios (rp_platform p) (rp_provider p)"
    using assms(2) by (simp add: revenue_rows_ok_def list_all_iff)
  moreover have "ratios_ok x y" if "policy_ratios x y" for x y
    using policy_ratios_exact [OF that] that by (simp add: ratios_ok_def policy_ratios_def)
  ultimately show ?thesis
    using e ho h(3) policy_ratios_exact
    by (auto simp: validate_payout_entry_def payout_policy_snapshot_ok_def entry_ok_def hook_ok_def payout_entry_matches_hook_def)
qed

lemma entry_response:
  assumes "revenue_keys_ok db" "revenue_rows_ok db" "e \<in> set (rv_entries db)"
  shows "\<exists>r. validated_payout_entry_response (py_tenant e) db e = Returned r \<and> payout_entry_row_from_response r = entry_view e \<and>
    pr_status r = py_status e \<and> pr_entry r = py_entry e \<and> px_id r = py_id e"
proof -
  have e: "entry_ok db e" using assms(2,3) by (simp add: revenue_rows_ok_def list_all_iff)
  have "0 \<le> py_gross e" "has_scale 4 (py_gross e)" "policy_ratios (py_platform_ratio e) (py_provider_ratio e)" using e by (simp_all add: entry_ok_def)
  note split = split_amounts [OF this]
  have "payout_scope_source (py_tenant e) (py_tenant e) = Some (if py_tenant e = None then ''global'' else ''tenant'')"
    by (simp add: payout_scope_source_def scope_source_def)
  then show ?thesis
    by (simp add: validated_payout_entry_response_def entry_valid [OF assms] split payout_entry_row_from_response_def
        payout_row.truncate_def entry_view_def)
qed

lemma entry_responses:
  assumes "revenue_keys_ok db" "revenue_rows_ok db" "set rows \<subseteq> set (rv_entries db)" "\<And>e. e \<in> set rows \<Longrightarrow> py_tenant e = t"
  shows "\<exists>rs. payout_responses t db rows = Returned rs \<and> map payout_entry_row_from_response rs = map entry_view rows"
  using assms(3,4)
proof (induction rows)
  case (Cons e rows)
  obtain r where "validated_payout_entry_response t db e = Returned r" "payout_entry_row_from_response r = entry_view e"
    using entry_response [OF assms(1,2), of e] Cons.prems by auto
  moreover obtain rs where "payout_responses t db rows = Returned rs" "map payout_entry_row_from_response rs = map entry_view rows"
    using Cons.IH Cons.prems by auto
  ultimately show ?case by simp
qed simp

end
