(* ===== verification/BatchInvariant.thy ===== *)
theory BatchInvariant
  imports RevenueInvariant
begin

text \<open>
  Monthly batches: what a snapshot holds (\<open>snapshot_exact\<close>), that its lists agree with each other
  (\<open>snapshot_consistent\<close>), and that it still agrees with the entries it was made from after they were paid or
  voided (\<open>sources_agree\<close>), so that every stored batch can be read.
\<close>

section \<open>Summaries without the status\<close>

text \<open>Two lists of rows that give items of the same facts.\<close>

lemma grouped_same:
  assumes "\<And>r. r \<in> set rows \<Longrightarrow> key (f r) = key r" "\<And>r. r \<in> set rows \<Longrightarrow> c (new (f r)) = c (new r)"
    "\<And>t t' r. r \<in> set rows \<Longrightarrow> c t = c t' \<Longrightarrow> c (add t (f r)) = c (add t' r)"
  shows "map (\<lambda>(k, t). (k, c t)) (grouped key new add (map f rows)) = map (\<lambda>(k, t). (k, c t)) (grouped key new add rows)"
  using assms
proof (induction rows rule: rev_induct)
  case (snoc r rows)
  let ?c = "\<lambda>g. map (\<lambda>(k, t). (k, c t)) g"
  let ?g = "grouped key new add (map f rows)" and ?h = "grouped key new add rows"
  have IH: "?c ?g = ?c ?h" using snoc.prems by (intro snoc.IH) simp_all
  have m: "map_of (?c g) k = map_option c (map_of g k)" for g k by (induction g) auto
  have "map_option c (map_of ?g (key r)) = map_option c (map_of ?h (key r))" using IH by (metis m)
  then have "c (case map_of ?g (key r) of None \<Rightarrow> new (f r) | Some t \<Rightarrow> t) = c (case map_of ?h (key r) of None \<Rightarrow> new r | Some t \<Rightarrow> t)"
    using snoc.prems(2) by (auto split: option.splits)
  then have "c (add (case map_of ?g (key r) of None \<Rightarrow> new (f r) | Some t \<Rightarrow> t) (f r))
      = c (add (case map_of ?h (key r) of None \<Rightarrow> new r | Some t \<Rightarrow> t) r)"
    using snoc.prems(3) by simp
  then show ?case
    using snoc.prems(1) IH by (simp add: grouped_snoc Let_def update_map [symmetric])
qed simp

lemma grouped_same_items:
  assumes "map (\<lambda>(k, t). (k, c t)) g = map (\<lambda>(k, t). (k, c t)) h" "\<And>k t. c (u k t) = v k (c t)"
  shows "map c (map (\<lambda>(k, t). u k t) g) = map c (map (\<lambda>(k, t). u k t) h)"
proof -
  have "map c (map (\<lambda>(k, t). u k t) g) = map (\<lambda>(k, t). v k t) (map (\<lambda>(k, t). (k, c t)) g)" for g
    by (induction g) (auto simp: assms(2))
  then show ?thesis by (simp only: assms(1))
qed

lemma sort_facts:
  assumes "map c xs = map c ys" "\<And>t. k t = k' (c t)"
  shows "map c (sort_key k xs) = map c (sort_key k ys)"
proof -
  have "k = (\<lambda>t. k' (c t))" using assms(2) by auto
  then show ?thesis using assms(1) by (simp add: sort_key_map [symmetric])
qed

lemma amounts_without_status:
  "without_status t = without_status t' \<Longrightarrow>
     without_status (monthly_add_amounts t (r\<lparr>pr_status := s\<rparr>)) = without_status (monthly_add_amounts t' r)"
  by (simp add: without_status_def monthly_add_amounts_def Let_def)

lemma provider_summaries_facts:
  fixes s :: "payout_row \<Rightarrow> string"
  defines "f \<equiv> \<lambda>r. r\<lparr>pr_status := s r\<rparr>"
  shows "map provider_facts (monthly_provider_summaries (map f rows)) = map provider_facts (monthly_provider_summaries rows)"
  unfolding monthly_provider_summaries_def
proof (rule sort_facts)
  show "[text_order (ms_provider t), text_order (ms_currency t)] = (\<lambda>(p, c, _). [text_order p, text_order c]) (provider_facts t)" for t
    by (simp add: provider_facts_def)
  show "map provider_facts (map (\<lambda>(_, t). t\<lparr>ms_entries := sort_key text_order (ms_entries t)\<rparr>)
        (grouped (\<lambda>r. (pr_provider r, pr_currency r)) new_provider_summary add_to_provider (map f rows))) =
      map provider_facts (map (\<lambda>(_, t). t\<lparr>ms_entries := sort_key text_order (ms_entries t)\<rparr>)
        (grouped (\<lambda>r. (pr_provider r, pr_currency r)) new_provider_summary add_to_provider rows))"
  proof (rule grouped_same_items [OF grouped_same])
    show "provider_facts (t\<lparr>ms_entries := sort_key text_order (ms_entries t)\<rparr>) =
        (\<lambda>_ (p, c, n, a, es, sc). (p, c, n, a, sort_key text_order es, sc)) k (provider_facts t)" for k t
      by (simp add: provider_facts_def)
    show "provider_facts (add_to_provider t (f r)) = provider_facts (add_to_provider t' r)"
      if "provider_facts t = provider_facts t'" for t t' r
      using that by (simp add: provider_facts_def add_to_provider_def f_def amounts_without_status)
  qed (simp_all add: f_def new_provider_summary_def)
qed

lemma currency_totals_facts:
  fixes s :: "payout_row \<Rightarrow> string"
  defines "f \<equiv> \<lambda>r. r\<lparr>pr_status := s r\<rparr>"
  shows "map currency_facts (monthly_currency_totals (map f rows)) = map currency_facts (monthly_currency_totals rows)"
  unfolding monthly_currency_totals_def
proof (rule sort_facts)
  show "text_order (mc_currency t) = (\<lambda>(c, _). text_order c) (currency_facts t)" for t by (simp add: currency_facts_def)
  have p: "providers_of_currency (map f rows) = providers_of_currency rows"
    by (rule ext) (simp add: providers_of_currency_def filter_map o_def f_def)
  show "map currency_facts (map (\<lambda>(c, t). t\<lparr>mc_providers := providers_of_currency (map f rows) c\<rparr>)
        (grouped pr_currency new_currency_total add_to_currency (map f rows))) =
      map currency_facts (map (\<lambda>(c, t). t\<lparr>mc_providers := providers_of_currency rows c\<rparr>)
        (grouped pr_currency new_currency_total add_to_currency rows))"
    unfolding p
  proof (rule grouped_same_items [OF grouped_same])
    show "currency_facts (t\<lparr>mc_providers := providers_of_currency rows k\<rparr>) =
        (\<lambda>k (c, n, _, a). (c, n, providers_of_currency rows k, a)) k (currency_facts t)" for k t
      by (simp add: currency_facts_def)
    show "currency_facts (add_to_currency t (f r)) = currency_facts (add_to_currency t' r)"
      if "currency_facts t = currency_facts t'" for t t' r
      using that by (simp add: currency_facts_def add_to_currency_def f_def amounts_without_status)
  qed (simp_all add: f_def new_currency_total_def)
qed

lemma policy_summaries_same:
  fixes s :: "payout_row \<Rightarrow> string"
  shows "monthly_policy_ratio_summaries (map (\<lambda>r. r\<lparr>pr_status := s r\<rparr>) rows) = monthly_policy_ratio_summaries rows"
proof -
  let ?key = "\<lambda>r. (pr_policy r, ratio_string (pr_provider_ratio r), ratio_string (pr_platform_ratio r), pr_currency r)"
  have "grouped ?key new_policy_summary add_to_policy (map (\<lambda>r. r\<lparr>pr_status := s r\<rparr>) rows)
      = map (\<lambda>(k, t). (k, (\<lambda>t. t) t)) (grouped ?key new_policy_summary add_to_policy rows)"
    by (rule grouped_map) (simp_all add: new_policy_summary_def add_to_policy_def)
  then show ?thesis by (simp add: monthly_policy_ratio_summaries_def)
qed

section \<open>What a snapshot holds\<close>

abbreviation is_open_entry :: "payout_entry \<Rightarrow> bool" where
  "is_open_entry e \<equiv> py_status e \<in> set MONTHLY_INCLUDED_STATUSES"

definition left_out :: "payout_entry \<Rightarrow> excluded_entry" where
  "left_out e = \<lparr>xe_entry = py_entry e, xe_reason = py_status e\<rparr>"

lemma sort_out_exact:
  assumes "revenue_keys_ok db" "revenue_rows_ok db" "set rows \<subseteq> set (rv_entries db)" "\<And>e. e \<in> set rows \<Longrightarrow> py_tenant e = t"
  shows "sort_out_entries t drift db rows inc exc =
    Returned (inc @ map entry_view (filter is_open_entry rows), exc @ map left_out (filter (\<lambda>e. \<not> is_open_entry e) rows))"
  using assms(3,4)
proof (induction rows arbitrary: inc exc)
  case (Cons e rows)
  have IH: "sort_out_entries t drift db rows inc exc =
    Returned (inc @ map entry_view (filter is_open_entry rows), exc @ map left_out (filter (\<lambda>e. \<not> is_open_entry e) rows))" for inc exc
    using Cons.prems by (intro Cons.IH) auto
  obtain r where r: "validated_payout_entry_response t db e = Returned r" "payout_entry_row_from_response r = entry_view e"
      "pr_status r = py_status e" "pr_entry r = py_entry e"
    using entry_response [OF assms(1,2), of e] Cons.prems by auto
  have "entry_ok db e" using assms(2) Cons.prems(1) by (auto simp: revenue_rows_ok_def list_all_iff)
  then have "\<not> is_open_entry e \<Longrightarrow> py_status e \<in> {''paid'', ''voided''}"
    by (auto simp: entry_ok_def PAYOUT_ENTRY_STATUSES_def MONTHLY_INCLUDED_STATUSES_def)
  then have "\<not> is_open_entry e \<Longrightarrow>
      \<lparr>xe_entry = pr_entry r, xe_reason = (if pr_status r \<in> {''paid'', ''voided''} then pr_status r else ''unsupported_status'')\<rparr> = left_out e"
    by (simp add: left_out_def r)
  then show ?case by (cases "is_open_entry e") (simp_all add: r IH)
qed simp

lemma in_month: "e \<in> set (entries_of_month t m db) \<longleftrightarrow> e \<in> set (rv_entries db) \<and> py_period e = m \<and> py_tenant e = t"
  by (auto simp: entries_of_month_def)

lemma snapshot_exact:
  assumes "revenue_keys_ok db" "revenue_rows_ok db"
  shows "calculate_monthly_batch_snapshot sha t m drift db = Returned (snapshot_of sha t m
    (map entry_view (filter is_open_entry (entries_of_month t m db)))
    (map left_out (filter (\<lambda>e. \<not> is_open_entry e) (entries_of_month t m db))))"
proof -
  have "sort_out_entries t drift db (entries_of_month t m db) [] [] = Returned
      ([] @ map entry_view (filter is_open_entry (entries_of_month t m db)),
       [] @ map left_out (filter (\<lambda>e. \<not> is_open_entry e) (entries_of_month t m db)))"
    by (rule sort_out_exact [OF assms]) (auto simp: in_month)
  then show ?thesis by (simp add: calculate_monthly_batch_snapshot_def)
qed

lemma month_distinct: "revenue_keys_ok db \<Longrightarrow> distinct (map py_entry (entries_of_month t m db))"
proof -
  assume "revenue_keys_ok db"
  then have "distinct (map (\<lambda>e. (py_tenant e, py_entry e)) (rv_entries db))" by (simp add: revenue_keys_ok_def)
  then have "distinct (map py_entry (filter (\<lambda>r. py_period r = m \<and> py_tenant r = t) (rv_entries db)))"
    by (auto simp: distinct_map inj_on_def)
  then show ?thesis by (simp add: entries_of_month_def)
qed

section \<open>Batches\<close>

text \<open>A row of a batch is an entry of its month as it was, which is as it is but for the status.\<close>

definition row_of_month :: "revenue_db \<Rightarrow> nat option \<Rightarrow> string \<Rightarrow> payout_row \<Rightarrow> bool" where
  "row_of_month db t m v \<longleftrightarrow>
     (\<exists>e\<in>set (rv_entries db). py_tenant e = t \<and> py_period e = m \<and> v = (entry_view e)\<lparr>pr_status := pr_status v\<rparr>)"

definition batch_ok :: "(checksum_payload \<Rightarrow> string) \<Rightarrow> revenue_db \<Rightarrow> monthly_batch \<Rightarrow> bool" where
  "batch_ok sha db b \<longleftrightarrow> monthly_batch_json_ok b \<and>
     (\<exists>included excluded. mb_snapshot b = snapshot_of sha (mb_tenant b) (mb_period b) included excluded \<and>
        distinct (map pr_entry included) \<and>
        (\<forall>v\<in>set included. pr_status v \<in> set MONTHLY_INCLUDED_STATUSES \<and> row_of_month db (mb_tenant b) (mb_period b) v))"

lemma fresh_snapshot:
  assumes "revenue_keys_ok db" "revenue_rows_ok db" "calculate_monthly_batch_snapshot sha t m drift db = Returned s"
  shows "\<exists>included excluded. s = snapshot_of sha t m included excluded \<and> distinct (map pr_entry included) \<and>
    (\<forall>v\<in>set included. pr_status v \<in> set MONTHLY_INCLUDED_STATUSES \<and> row_of_month db t m v)"
proof (intro exI conjI)
  let ?in = "map entry_view (filter is_open_entry (entries_of_month t m db))"
  show "s = snapshot_of sha t m ?in (map left_out (filter (\<lambda>e. \<not> is_open_entry e) (entries_of_month t m db)))"
    using assms(3) by (simp add: snapshot_exact [OF assms(1,2)])
  show "distinct (map pr_entry ?in)" using month_distinct [OF assms(1), of t m] by (simp add: o_def distinct_map_filter)
  have "entry_view e = (entry_view e)\<lparr>pr_status := pr_status (entry_view e)\<rparr>" for e by simp
  then show "\<forall>v\<in>set ?in. pr_status v \<in> set MONTHLY_INCLUDED_STATUSES \<and> row_of_month db t m v"
    by (auto simp: row_of_month_def in_month)
qed

lemma reference_kept: "validate_optional_reference v = Some r \<Longrightarrow> monthly_reference_ok r"
  by (auto simp: validate_optional_reference_def monthly_reference_ok_def validate_reference_def Let_def optional_def
      split: option.splits if_splits)

lemma id_ok_chomp: "id_ok s \<Longrightarrow> id_ok (chomp s)"
proof -
  assume s: "id_ok s"
  then have "s \<noteq> []" "is_lower_alnum (last s) \<or> last s = CHR ''-''" by (auto simp: id_ok_def list_all_iff)
  then have "last s \<noteq> CHR 0x0A" by (auto simp: is_lower_alnum_def is_digit_def code_of_def)
  with s show ?thesis by (simp add: chomp_def)
qed

lemma row_of_month_write:
  "revenue_write sha db db' \<Longrightarrow> revenue_keys_ok db \<Longrightarrow> row_of_month db t m v \<Longrightarrow> row_of_month db' t m v"
proof (induction rule: revenue_write.induct)
  case (put_entry raw b r db now)
  let ?w = "r\<lparr>py_status := nb_status b, py_meta := nb_meta b, py_updated := now\<rparr>"
  have k: "distinct (map py_id (rv_entries db))" using put_entry by (simp add: revenue_keys_ok_def fresh_ids_def)
  obtain e where e: "e \<in> set (rv_entries db)" "py_tenant e = t" "py_period e = m" "v = (entry_view e)\<lparr>pr_status := pr_status v\<rparr>"
    using put_entry by (auto simp: row_of_month_def)
  have v: "entry_view ?w = (entry_view r)\<lparr>pr_status := nb_status b\<rparr>" by (simp add: entry_view_def provider_part_def)
  show ?case
  proof (cases "e = r")
    case True
    have "?w \<in> set (row_put py_id ?w (rv_entries db))" using put_entry(2) by (auto simp: row_put_def)
    moreover have "(entry_view ?w)\<lparr>pr_status := pr_status v\<rparr> = (entry_view e)\<lparr>pr_status := pr_status v\<rparr>" by (simp add: v True)
    then have "v = (entry_view ?w)\<lparr>pr_status := pr_status v\<rparr>" using e(4) by argo
    moreover have "py_tenant ?w = t" "py_period ?w = m" using e(2,3) True by simp_all
    moreover have "rv_entries (db\<lparr>rv_entries := row_put py_id ?w (rv_entries db)\<rparr>) = row_put py_id ?w (rv_entries db)" by simp
    ultimately show ?thesis unfolding row_of_month_def by metis
  next
    case False
    then have "py_id e \<noteq> py_id r" using k e(1) put_entry(2) by (auto simp: distinct_map inj_on_def)
    then have "e \<in> set (row_put py_id ?w (rv_entries db))" using e(1) by (force simp: row_put_def)
    then show ?thesis using e by (auto simp: row_of_month_def)
  qed
qed (auto simp: row_of_month_def)

lemma batch_kept:
  "revenue_write sha db db' \<Longrightarrow> revenue_keys_ok db \<Longrightarrow> batch_ok s db b \<Longrightarrow> batch_ok s db' b"
  unfolding batch_ok_def using row_of_month_write by blast

lemma batches_write:
  assumes sha: "hex_digest sha" and w: "revenue_write sha db db'" and k: "revenue_keys_ok db" and rows: "revenue_rows_ok db"
    and ok: "list_all (batch_ok sha db) (rv_batches db)"
  shows "list_all (batch_ok sha db') (rv_batches db')"
proof -
  have sum: "checksum_text_ok (bs_checksum (snapshot_of sha t m i x))" for t m i x
    using sha by (simp add: hex_digest_def snapshot_of_def Let_def)
  have old: "list_all (batch_ok sha db') (rv_batches db)" using ok batch_kept [OF w k] by (simp add: list_all_iff)
  show ?thesis using w old k rows
  proof (induction rule: revenue_write.induct)
    case (new_batch raw b bid db snapshot now)
    let ?b = "new_batch (rv_next db) bid now b snapshot"
    let ?db = "db\<lparr>rv_batches := rv_batches db @ [?b], rv_next := Suc (rv_next db)\<rparr>"
    obtain i x where s: "snapshot = snapshot_of sha (bb_tenant b) (bb_period b) i x" "distinct (map pr_entry i)"
        "\<forall>v\<in>set i. pr_status v \<in> set MONTHLY_INCLUDED_STATUSES \<and> row_of_month db (bb_tenant b) (bb_period b) v"
      using fresh_snapshot [OF new_batch(6,7,4)] by blast
    have "period_ok (bb_period b)" "monthly_reference_ok (bb_notes b)"
      using new_batch(1) by (auto simp: validate_batch_def reference_kept split: if_splits)
    then have "monthly_batch_json_ok ?b"
      using id_ok_chomp [OF new_batch(2)] by (simp add: monthly_batch_json_ok_def revenue_writes s(1) sum MONTHLY_BATCH_STATUSES_def monthly_reference_ok_def optional_def)
    then have "batch_ok sha ?db ?b"
      using s by (auto simp: batch_ok_def revenue_writes row_of_month_def)
    with new_batch show ?case by simp
  next
    case (put_batch raw b r db snapshot now)
    let ?b = "recalculated now b snapshot r"
    let ?db = "db\<lparr>rv_batches := row_put mb_id ?b (rv_batches db)\<rparr>"
    obtain i x where s: "snapshot = snapshot_of sha (bb_tenant b) (bb_period b) i x" "distinct (map pr_entry i)"
        "\<forall>v\<in>set i. pr_status v \<in> set MONTHLY_INCLUDED_STATUSES \<and> row_of_month db (bb_tenant b) (bb_period b) v"
      using fresh_snapshot [OF put_batch(8,9,6)] by blast
    have "monthly_batch_json_ok r" using put_batch by (simp add: list_all_iff batch_ok_def)
    moreover have "monthly_reference_ok (bb_notes b)" using put_batch(1) by (auto simp: validate_batch_def reference_kept split: if_splits)
    ultimately have "monthly_batch_json_ok ?b" by (simp add: monthly_batch_json_ok_def revenue_writes s(1) sum)
    then have "batch_ok sha ?db ?b"
      using s put_batch(4,5) by (auto simp: batch_ok_def revenue_writes row_of_month_def)
    with put_batch show ?case by (simp add: list_all_row_put)
  next
    case (patch_batch raw b r db changed now)
    let ?b = "patched now b r"
    let ?db = "db\<lparr>rv_batches := row_put mb_id ?b (rv_batches db)\<rparr>"
    have r: "batch_ok sha ?db r" using patch_batch by (simp add: list_all_iff)
    have b: "bp_status b \<in> set MONTHLY_BATCH_STATUSES" "monthly_reference_ok (bp_notes b)" "monthly_reference_ok (bp_approved b)"
      using patch_batch(1) by (auto simp: validate_patch_def reference_kept split: if_splits option.splits)
    have "monthly_reference_ok (or_else x y)" if "monthly_reference_ok x" "monthly_reference_ok y" for x y
      using that by (cases x) (simp_all add: or_else_def)
    then have "monthly_batch_json_ok ?b" using r b by (simp add: batch_ok_def monthly_batch_json_ok_def revenue_writes)
    then have "batch_ok sha ?db ?b" using r by (simp add: batch_ok_def revenue_writes)
    with patch_batch show ?case by (simp add: list_all_row_put)
  qed simp_all
qed

section \<open>Reading a batch\<close>

lemma summary_providers: "ms_provider ` set (monthly_provider_summaries rows) = pr_provider ` set rows"
proof -
  let ?g = "grouped (\<lambda>r. (pr_provider r, pr_currency r)) new_provider_summary add_to_provider rows"
  have k: "ms_provider t = fst k" if "(k, t) \<in> set ?g" for k t
    using that
  proof (rule grouped_in)
    fix r rs assume f: "filter (\<lambda>r. (pr_provider r, pr_currency r) = k) rows = r # rs" and t: "t = foldl add_to_provider (new_provider_summary r) (r # rs)"
    have "ms_provider t = ms_provider (new_provider_summary r)" unfolding t by (rule foldl_keeps) (simp add: add_to_provider_def)
    moreover from f have "(pr_provider r, pr_currency r) = k" by (auto simp: filter_eq_Cons_iff)
    ultimately show ?thesis by (auto simp: new_provider_summary_def)
  qed
  have "ms_provider ` set (monthly_provider_summaries rows) = (\<lambda>(k, t). ms_provider t) ` set ?g"
    by (auto simp: monthly_provider_summaries_def image_image case_prod_beta)
  also have "\<dots> = fst ` fst ` set ?g" unfolding image_image by (rule image_cong) (auto dest: k)
  also have "\<dots> = pr_provider ` set rows" unfolding grouped_keys image_image by simp
  finally show ?thesis .
qed

lemma sources_sorted:
  "map pr_entry (sort_key (\<lambda>r. text_order (pr_entry r)) included) = sort_key text_order (map pr_entry included)"
  by (simp add: sort_key_map)

lemma snapshot_consistent:
  assumes "mb_snapshot b = snapshot_of sha (mb_tenant b) (mb_period b) included excluded" "distinct (map pr_entry included)"
  shows "monthly_batch_consistent sha b"
proof -
  let ?rows = "sort_key (\<lambda>r. text_order (pr_entry r)) included"
  have n: "length (remdups (map ms_provider (monthly_provider_summaries ?rows))) = length (remdups (map pr_provider ?rows))"
    by (simp add: length_remdups_card_conv summary_providers)
  show ?thesis
    using assms(2) n
    by (simp add: monthly_batch_consistent_def assms(1) snapshot_of_def Let_def sources_sorted
        monthly_provider_summaries_def [of ?rows] monthly_currency_totals_def [of ?rows] monthly_policy_ratio_summaries_def [of ?rows])
qed

text \<open>The entries of a batch, found by their identifiers, give its rows again but for the status.\<close>

lemma found_rows:
  assumes keys: "distinct (map (\<lambda>e. (py_tenant e, py_entry e)) entries)"
    and rows: "\<And>v. v \<in> set included \<Longrightarrow> \<exists>e\<in>set entries. py_tenant e = t \<and> v = (entry_view e)\<lparr>pr_status := pr_status v\<rparr>"
    and dist: "distinct (map pr_entry included)"
  shows "\<exists>s. sort_key (\<lambda>r. text_order (pr_entry r)) (map entry_view (filter (\<lambda>e. py_entry e \<in> pr_entry ` set included \<and> py_tenant e = t) entries))
    = map (\<lambda>v. v\<lparr>pr_status := s v\<rparr>) (sort_key (\<lambda>r. text_order (pr_entry r)) included)"
proof -
  let ?found = "filter (\<lambda>e. py_entry e \<in> pr_entry ` set included \<and> py_tenant e = t) entries"
  obtain entry where e: "\<And>v. v \<in> set included \<Longrightarrow> entry v \<in> set entries \<and> py_tenant (entry v) = t \<and> v = (entry_view (entry v))\<lparr>pr_status := pr_status v\<rparr>"
    using bchoice [of "set included" "\<lambda>v e. e \<in> set entries \<and> py_tenant e = t \<and> v = (entry_view e)\<lparr>pr_status := pr_status v\<rparr>"] rows
    by blast
  let ?f = "\<lambda>v. v\<lparr>pr_status := py_status (entry v)\<rparr>"
  have id: "pr_entry v = py_entry (entry v)" if "v \<in> set included" for v
  proof -
    have "pr_entry v = pr_entry ((entry_view (entry v))\<lparr>pr_status := pr_status v\<rparr>)" using e [OF that] by argo
    then show ?thesis by simp
  qed
  have view: "entry_view (entry v) = ?f v" if "v \<in> set included" for v
  proof -
    have "?f v = ((entry_view (entry v))\<lparr>pr_status := pr_status v\<rparr>)\<lparr>pr_status := py_status (entry v)\<rparr>" using e [OF that] by argo
    also have "\<dots> = (entry_view (entry v))\<lparr>pr_status := pr_status (entry_view (entry v))\<rparr>" unfolding entry_view_simps by simp
    finally show ?thesis by simp
  qed
  have "set (map entry_view ?found) = set (map ?f included)"
  proof -
    have "e' = entry v" if "e' \<in> set ?found" "v \<in> set included" "py_entry e' = pr_entry v" for e' v
      using keys that e [OF that(2)] id [OF that(2)] by (auto simp: distinct_map inj_on_def)
    then have "set ?found = entry ` set included" using e id by (auto simp: image_iff)
    then have "set (map entry_view ?found) = (\<lambda>v. entry_view (entry v)) ` set included" by (simp add: image_image)
    also have "\<dots> = ?f ` set included" by (rule image_cong) (simp_all add: view)
    finally show ?thesis by simp
  qed
  moreover have "distinct (map (\<lambda>r. text_order (pr_entry r)) (map entry_view ?found))"
    using keys by (auto simp: distinct_map inj_on_def)
  moreover have "distinct (map (\<lambda>r. text_order (pr_entry r)) (map ?f included))"
    using dist by (auto simp: distinct_map inj_on_def)
  ultimately have "sort_key (\<lambda>r. text_order (pr_entry r)) (map entry_view ?found) = sort_key (\<lambda>r. text_order (pr_entry r)) (map ?f included)"
    by (rule sort_key_unique)
  also have "\<dots> = map ?f (sort_key (\<lambda>r. text_order (pr_entry r)) included)" by (simp add: sort_key_map)
  finally show ?thesis by (rule exI [of _ "\<lambda>v. py_status (entry v)"])
qed

lemma row_of_month_entry:
  assumes "row_of_month db t m v"
  shows "\<exists>e\<in>set (rv_entries db). py_tenant e = t \<and> py_period e = m \<and> py_entry e = pr_entry v \<and> pr_period v = m \<and>
    v = (entry_view e)\<lparr>pr_status := pr_status v\<rparr>"
  using assms unfolding row_of_month_def
proof (elim bexE conjE)
  fix e assume e: "e \<in> set (rv_entries db)" "py_tenant e = t" "py_period e = m" and v: "v = (entry_view e)\<lparr>pr_status := pr_status v\<rparr>"
  have "pr_entry ((entry_view e)\<lparr>pr_status := pr_status v\<rparr>) = py_entry e" "pr_period ((entry_view e)\<lparr>pr_status := pr_status v\<rparr>) = py_period e"
    by simp_all
  then have "py_entry e = pr_entry v" "pr_period v = m" using v e(3) by argo+
  with e v show ?thesis by blast
qed

lemma sources_agree:
  assumes k: "revenue_keys_ok db" and rows: "revenue_rows_ok db"
    and snap: "mb_snapshot b = snapshot_of sha (mb_tenant b) (mb_period b) included excluded" and dist: "distinct (map pr_entry included)"
    and inc: "\<forall>v\<in>set included. row_of_month db (mb_tenant b) (mb_period b) v"
  shows "monthly_sources_ok b db = Returned ()"
proof (cases "included = []")
  case True
  have "monthly_provider_summaries [] = []" "monthly_currency_totals [] = []" "monthly_policy_ratio_summaries [] = []"
    by (simp_all add: monthly_provider_summaries_def monthly_currency_totals_def monthly_policy_ratio_summaries_def)
  then show ?thesis by (simp add: monthly_sources_ok_def snap snapshot_of_def Let_def True)
next
  case False
  let ?key = "\<lambda>r. text_order (pr_entry r)"
  let ?rows = "sort_key ?key included"
  let ?in = "\<lambda>e. py_entry e \<in> pr_entry ` set included \<and> py_tenant e = mb_tenant b"
  let ?found = "sort_key (\<lambda>r. text_order (py_entry r)) (filter ?in (rv_entries db))"
  have row: "\<exists>e\<in>set (rv_entries db). py_tenant e = mb_tenant b \<and> py_period e = mb_period b \<and> py_entry e = pr_entry v \<and>
      pr_period v = mb_period b \<and> v = (entry_view e)\<lparr>pr_status := pr_status v\<rparr>" if "v \<in> set included" for v
    by (rule row_of_month_entry) (rule bspec [OF inc that])
  have ne: "?rows \<noteq> []" using False by (metis set_empty set_sort)
  have ids: "list_all id_ok (map pr_entry included)"
    using row rows by (fastforce simp: list_all_iff revenue_rows_ok_def entry_ok_def)
  have all: "py_entry ` set ?found = pr_entry ` set included"
  proof (intro equalityI subsetI)
    fix x assume "x \<in> pr_entry ` set included"
    then obtain v where v: "v \<in> set included" "x = pr_entry v" by blast
    obtain e where e: "e \<in> set (rv_entries db)" "py_tenant e = mb_tenant b" "py_entry e = x" using row [OF v(1)] v(2) by blast
    then have "e \<in> set ?found" using v by auto
    then show "x \<in> py_entry ` set ?found" using e(3) by blast
  qed auto
  have keys: "distinct (map (\<lambda>e. (py_tenant e, py_entry e)) (rv_entries db))" using k by (simp add: revenue_keys_ok_def)
  have ex: "\<exists>e\<in>set (rv_entries db). py_tenant e = mb_tenant b \<and> v = (entry_view e)\<lparr>pr_status := pr_status v\<rparr>"
    if "v \<in> set included" for v using row [OF that] by blast
  obtain s where s: "sort_key ?key (map entry_view (filter ?in (rv_entries db))) = map (\<lambda>v. v\<lparr>pr_status := s v\<rparr>) ?rows"
    by (rule exE [OF found_rows [OF keys ex dist]]) (assumption, rule that)
  obtain rs where rs: "payout_responses (mb_tenant b) db ?found = Returned rs" "map payout_entry_row_from_response rs = map entry_view ?found"
    by (rule exE [OF entry_responses [OF k rows, of ?found "mb_tenant b"]]) (simp, simp, elim conjE, rule that)
  have again: "sort_key ?key (map payout_entry_row_from_response rs) = map (\<lambda>v. v\<lparr>pr_status := s v\<rparr>) ?rows"
    unfolding rs(2) s [symmetric] by (simp add: sort_key_map)
  have period: "list_all (\<lambda>r. pr_period r = mb_period b) (map (\<lambda>v. v\<lparr>pr_status := s v\<rparr>) ?rows)"
    unfolding list_all_iff using row by fastforce
  show ?thesis
    unfolding monthly_sources_ok_def snap snapshot_of_def Let_def batch_snapshot.simps
    using ne ids all period
    by (simp add: rs(1) again provider_summaries_facts currency_totals_facts policy_summaries_same o_def list_all_iff)
qed

lemma batch_read:
  assumes "revenue_keys_ok db" "revenue_rows_ok db" "batch_ok sha db b"
  shows "monthly_batch_response sha (mb_tenant b) db b =
    Returned (b, if mb_tenant b = None then ''global'' else ''tenant'', monthly_etag b)"
proof -
  obtain i x where "mb_snapshot b = snapshot_of sha (mb_tenant b) (mb_period b) i x" "distinct (map pr_entry i)"
      "\<forall>v\<in>set i. row_of_month db (mb_tenant b) (mb_period b) v"
    using assms(3) by (auto simp: batch_ok_def)
  then have "monthly_batch_consistent sha b" "monthly_sources_ok b db = Returned ()"
    using snapshot_consistent sources_agree [OF assms(1,2)] by blast+
  then show ?thesis using assms(3)
    by (simp add: monthly_batch_response_def batch_ok_def payout_scope_source_def scope_source_def)
qed

section \<open>Reachable tables\<close>

definition revenue_ok :: "(checksum_payload \<Rightarrow> string) \<Rightarrow> revenue_db \<Rightarrow> bool" where
  "revenue_ok sha db \<longleftrightarrow> revenue_keys_ok db \<and> revenue_rows_ok db \<and> (hex_digest sha \<longrightarrow> list_all (batch_ok sha db) (rv_batches db))"

lemma revenue_ok_write: "revenue_write sha db db' \<Longrightarrow> revenue_ok sha db \<Longrightarrow> revenue_ok sha db'"
  using revenue_keys_write revenue_rows_write batches_write unfolding revenue_ok_def by blast

lemma revenue_served_ok: "revenue_serves sha secret db db' \<Longrightarrow> revenue_ok sha db \<Longrightarrow> revenue_ok sha db'"
  by (induction rule: revenue_induct) (auto dest: revenue_ok_write)

lemma revenue_reachable_ok:
  assumes "revenue_reachable sha secret db"
  shows "revenue_keys_ok db" "revenue_rows_ok db" "hex_digest sha \<Longrightarrow> list_all (batch_ok sha db) (rv_batches db)"
proof -
  have "revenue_ok sha empty_revenue" by (simp add: revenue_ok_def revenue_keys_ok_def revenue_rows_ok_def fresh_ids_def empty_revenue_def)
  then have "revenue_ok sha db" using assms revenue_served_ok unfolding revenue_reachable_def by blast
  then show "revenue_keys_ok db" "revenue_rows_ok db" "hex_digest sha \<Longrightarrow> list_all (batch_ok sha db) (rv_batches db)"
    by (simp_all add: revenue_ok_def)
qed

end
