(* ===== verification/RevenueTotals.thy ===== *)
theory RevenueTotals
  imports "HOL-Library.Multiset" BatchInvariant PayoutDashboard
begin

text \<open>
  What the breakdowns of a dashboard and of a monthly batch add up to. Every quantity of an item (a count, an amount)
  starts at zero and grows by what a row adds to it: the contract \<open>additive\<close>, interpreted for each of them.
\<close>

section \<open>Quantities of collected items\<close>

locale additive =
  fixes new :: "'r \<Rightarrow> 't" and add :: "'t \<Rightarrow> 'r \<Rightarrow> 't" and m :: "'t \<Rightarrow> 'v::ab_group_add" and w :: "'r \<Rightarrow> 'v"
  assumes start: "m (new r) = 0" and grows: "m (add t r) = m t + w r"
begin

lemma item:
  "(k, t) \<in> set (grouped key new add rows) \<Longrightarrow> m t = sum_where (\<lambda>r. key r = k) w rows"
  by (rule grouped_sum) (rule grows, rule start)

lemma all_items: "sum_where (\<lambda>(k, t). Q k) (\<lambda>(k, t). m t) (grouped key new add rows) = sum_where (\<lambda>r. Q (key r)) w rows"
proof (induction rows rule: rev_induct)
  case (snoc r rows)
  have upd: "sum_where (\<lambda>(k, t). Q k) (\<lambda>(k, t). m t) (AList.update k v g) =
      sum_where (\<lambda>(k, t). Q k) (\<lambda>(k, t). m t) g + (if Q k then m v - (case map_of g k of None \<Rightarrow> 0 | Some t \<Rightarrow> m t) else 0)" for k v g
    by (induction g) (auto simp: sum_where_def split: option.splits)
  show ?case
    by (simp add: grouped_snoc Let_def upd snoc.IH grows start sum_where_Cons split: option.split)
qed simp

end

lemma sum_where_sort_key [simp]: "sum_where P f (sort_key k xs) = sum_where P f xs"
proof -
  have "mset (map f (filter P (sort_key k xs))) = mset (map f (filter P xs))" by simp
  then show ?thesis by (simp add: sum_where_def flip: sum_mset_sum_list)
qed

lemma sum_where_map: "sum_where P f (map g xs) = sum_where (\<lambda>x. P (g x)) (\<lambda>x. f (g x)) xs"
  by (simp add: sum_where_def filter_map o_def)

section \<open>Monthly batches\<close>

lemmas month_adds = monthly_empty_amounts_def monthly_add_amounts_def new_provider_summary_def add_to_provider_def
  new_currency_total_def add_to_currency_def new_policy_summary_def add_to_policy_def

text \<open>What a row adds to the amounts of a month.\<close>

definition row_amounts :: "payout_row \<Rightarrow> month_amounts" where
  "row_amounts r =
     \<lparr>ma_gross = renormalize (pr_gross r), ma_provider = renormalize (pr_provider_amount r),
      ma_platform = renormalize (pr_platform_amount r),
      ma_pending = (if pr_status r = ''pending'' then renormalize (pr_provider_amount r) else 0),
      ma_held = (if pr_status r = ''held'' then renormalize (pr_provider_amount r) else 0)\<rparr>"

definition MONTH_QUANTITIES :: "(month_amounts \<Rightarrow> rat) list" where
  "MONTH_QUANTITIES = [ma_gross, ma_provider, ma_platform, ma_pending, ma_held]"

interpretation provider_count: additive new_provider_summary add_to_provider ms_count "\<lambda>_. 1"
  by unfold_locales (simp_all add: month_adds)
interpretation currency_count: additive new_currency_total add_to_currency mc_count "\<lambda>_. 1"
  by unfold_locales (simp_all add: month_adds)
interpretation policy_count: additive new_policy_summary add_to_policy mq_count "\<lambda>_. 1"
  by unfold_locales (simp_all add: month_adds)
interpretation policy_gross: additive new_policy_summary add_to_policy mq_gross "\<lambda>r. ma_gross (row_amounts r)"
  by unfold_locales (simp_all add: month_adds row_amounts_def)
interpretation policy_provider: additive new_policy_summary add_to_policy mq_provider "\<lambda>r. ma_provider (row_amounts r)"
  by unfold_locales (simp_all add: month_adds row_amounts_def)
interpretation policy_platform: additive new_policy_summary add_to_policy mq_platform "\<lambda>r. ma_platform (row_amounts r)"
  by unfold_locales (simp_all add: month_adds row_amounts_def)

lemma month_quantity:
  assumes "q \<in> set MONTH_QUANTITIES"
  shows "q monthly_empty_amounts = 0" "q (monthly_add_amounts a r) = q a + q (row_amounts r)"
  using assms by (auto simp: MONTH_QUANTITIES_def month_adds row_amounts_def Let_def)

lemma provider_quantity:
  "q \<in> set MONTH_QUANTITIES \<Longrightarrow> additive new_provider_summary add_to_provider (\<lambda>t. q (ms_amounts t)) (\<lambda>r. q (row_amounts r))"
  by unfold_locales (simp_all add: new_provider_summary_def add_to_provider_def month_quantity)

lemma currency_quantity:
  "q \<in> set MONTH_QUANTITIES \<Longrightarrow> additive new_currency_total add_to_currency (\<lambda>t. q (mc_amounts t)) (\<lambda>r. q (row_amounts r))"
  by unfold_locales (simp_all add: new_currency_total_def add_to_currency_def month_quantity)

text \<open>The summaries of one currency.\<close>

lemma collected_where:
  assumes "additive new add m w" "\<And>r. c (new r) = d (key r)" "\<And>t r. c (add t r) = c t" "\<And>k t. m (u k t) = m t" "\<And>k t. c (u k t) = c t"
  shows "sum_where (\<lambda>t. c t = x) m (map (\<lambda>(k, t). u k t) (grouped key new add rows)) = sum_where (\<lambda>r. d (key r) = x) w rows"
proof -
  let ?g = "grouped key new add rows"
  have c: "c t = d k" if "(k, t) \<in> set ?g" for k t
    using that
  proof (rule grouped_in)
    fix r rs assume f: "filter (\<lambda>r. key r = k) rows = r # rs" and t: "t = foldl add (new r) (r # rs)"
    have "c t = c (new r)" unfolding t by (rule foldl_keeps) (rule assms(3))
    moreover from f have "key r = k" by (auto simp: filter_eq_Cons_iff)
    ultimately show ?thesis by (simp add: assms(2))
  qed
  have "sum_where (\<lambda>t. c t = x) m (map (\<lambda>(k, t). u k t) g) = sum_where (\<lambda>(k, t). c t = x) (\<lambda>(k, t). m t) g" for g
    by (simp add: sum_where_def filter_map o_def case_prod_unfold assms(4,5))
  then have "sum_where (\<lambda>t. c t = x) m (map (\<lambda>(k, t). u k t) ?g) = sum_where (\<lambda>(k, t). c t = x) (\<lambda>(k, t). m t) ?g" .
  also have "\<dots> = sum_where (\<lambda>(k, t). d k = x) (\<lambda>(k, t). m t) ?g"
    unfolding sum_where_def by (rule arg_cong [where f = "\<lambda>xs. sum_list (map _ xs)"], rule filter_cong) (auto dest: c)
  also have "\<dots> = sum_where (\<lambda>r. d (key r) = x) w rows" by (rule additive.all_items [OF assms(1)])
  finally show ?thesis .
qed

lemma provider_summaries_of_currency:
  assumes "additive new_provider_summary add_to_provider m w" "\<And>t es. m (t\<lparr>ms_entries := es\<rparr>) = m t"
  shows "sum_where (\<lambda>t. ms_currency t = c) m (monthly_provider_summaries rows) = sum_where (\<lambda>r. pr_currency r = c) w rows"
proof -
  have "sum_where (\<lambda>t. ms_currency t = c) m (map (\<lambda>(_, t). t\<lparr>ms_entries := sort_key text_order (ms_entries t)\<rparr>)
      (grouped (\<lambda>r. (pr_provider r, pr_currency r)) new_provider_summary add_to_provider rows))
      = sum_where (\<lambda>r. snd (pr_provider r, pr_currency r) = c) w rows"
    by (rule collected_where [OF assms(1), where d = snd and u = "\<lambda>_ t. t\<lparr>ms_entries := sort_key text_order (ms_entries t)\<rparr>"])
      (simp_all add: month_adds assms(2))
  then show ?thesis by (simp add: monthly_provider_summaries_def)
qed

lemma currency_totals_of_currency:
  assumes "additive new_currency_total add_to_currency m w" "\<And>t n. m (t\<lparr>mc_providers := n\<rparr>) = m t"
  shows "sum_where (\<lambda>t. mc_currency t = c) m (monthly_currency_totals rows) = sum_where (\<lambda>r. pr_currency r = c) w rows"
proof -
  have "sum_where (\<lambda>t. mc_currency t = c) m (map (\<lambda>(c, t). t\<lparr>mc_providers := providers_of_currency rows c\<rparr>)
      (grouped pr_currency new_currency_total add_to_currency rows))
      = sum_where (\<lambda>r. (\<lambda>c. c) (pr_currency r) = c) w rows"
    by (rule collected_where [OF assms(1), where u = "\<lambda>c t. t\<lparr>mc_providers := providers_of_currency rows c\<rparr>"])
      (simp_all add: month_adds assms(2))
  then show ?thesis by (simp add: monthly_currency_totals_def)
qed

lemma map_second: "map snd g = map (\<lambda>(k, t). t) g"
  by (induction g) auto

lemma policy_summaries_of_currency:
  assumes "additive new_policy_summary add_to_policy m w"
  shows "sum_where (\<lambda>t. mq_currency t = c) m (monthly_policy_ratio_summaries rows) = sum_where (\<lambda>r. pr_currency r = c) w rows"
proof -
  let ?key = "\<lambda>r. (pr_policy r, ratio_string (pr_provider_ratio r), ratio_string (pr_platform_ratio r), pr_currency r)"
  have total: "sum_where (\<lambda>t. mq_currency t = c) m (map (\<lambda>(k, t). t) (grouped ?key new_policy_summary add_to_policy rows))
      = sum_where (\<lambda>r. (\<lambda>(_, _, _, c). c) (?key r) = c) w rows"
    by (rule collected_where [OF assms, where u = "\<lambda>_ t. t"]) (simp_all add: month_adds)
  show ?thesis unfolding monthly_policy_ratio_summaries_def sum_where_sort_key map_second total by simp
qed

lemma total_of_currency:
  assumes "t \<in> set (monthly_currency_totals rows)"
  shows "mc_count t = sum_where (\<lambda>r. pr_currency r = mc_currency t) (\<lambda>_. 1) rows"
    "q \<in> set MONTH_QUANTITIES \<Longrightarrow> q (mc_amounts t) = sum_where (\<lambda>r. pr_currency r = mc_currency t) (\<lambda>r. q (row_amounts r)) rows"
proof -
  let ?g = "grouped pr_currency new_currency_total add_to_currency rows"
  obtain k u where u: "(k, u) \<in> set ?g" "t = u\<lparr>mc_providers := providers_of_currency rows k\<rparr>"
    using assms by (auto simp: monthly_currency_totals_def)
  have k: "mc_currency u = k"
    using u(1)
  proof (rule grouped_in)
    fix r rs assume f: "filter (\<lambda>r. pr_currency r = k) rows = r # rs" and u: "u = foldl add_to_currency (new_currency_total r) (r # rs)"
    have "mc_currency u = mc_currency (new_currency_total r)" unfolding u by (rule foldl_keeps) (simp add: add_to_currency_def)
    moreover from f have "pr_currency r = k" by (auto simp: filter_eq_Cons_iff)
    ultimately show ?thesis by (simp add: new_currency_total_def)
  qed
  show "mc_count t = sum_where (\<lambda>r. pr_currency r = mc_currency t) (\<lambda>_. 1) rows"
    using currency_count.item [OF u(1)] by (simp add: u(2) k)
  show "q (mc_amounts t) = sum_where (\<lambda>r. pr_currency r = mc_currency t) (\<lambda>r. q (row_amounts r)) rows"
    if "q \<in> set MONTH_QUANTITIES"
    using additive.item [OF currency_quantity [OF that] u(1)] by (simp add: u(2) k)
qed

lemma currency_counts_total: "sum_list (map mc_count (monthly_currency_totals rows)) = int (length rows)"
proof -
  have "sum_list (map mc_count (monthly_currency_totals rows)) = sum_where (\<lambda>_. True) mc_count (monthly_currency_totals rows)"
    by (simp add: sum_where_def)
  also have "\<dots> = sum_where (\<lambda>(k, t). True) (\<lambda>(k, t). mc_count t) (grouped pr_currency new_currency_total add_to_currency rows)"
    unfolding monthly_currency_totals_def sum_where_sort_key by (simp add: sum_where_def o_def case_prod_unfold)
  also have "\<dots> = sum_where (\<lambda>r. True) (\<lambda>_. 1) rows"
    using currency_count.all_items [of "\<lambda>_. True" pr_currency rows] by (simp add: case_prod_unfold)
  also have "\<dots> = int (length rows)" by (induction rows) (simp_all add: sum_where_def)
  finally show ?thesis .
qed

text \<open>The amounts of a row split up.\<close>

lemma renormalize_exact: "0 \<le> x \<Longrightarrow> has_scale 4 x \<Longrightarrow> renormalize x = x"
  by (simp add: renormalize_def normalize_money_def quantize_half_up_def half_up.quantize_exact)

lemma view_amounts:
  assumes "entry_ok db e"
  shows "renormalize (pr_gross (entry_view e)) = py_gross e" "renormalize (pr_provider_amount (entry_view e)) = provider_part e"
    "renormalize (pr_platform_amount (entry_view e)) = py_gross e - provider_part e"
proof -
  have "0 \<le> py_gross e" "has_scale 4 (py_gross e)" "policy_ratios (py_platform_ratio e) (py_provider_ratio e)"
    using assms by (simp_all add: entry_ok_def)
  note split = split_amounts [OF this]
  show "renormalize (pr_gross (entry_view e)) = py_gross e" "renormalize (pr_provider_amount (entry_view e)) = provider_part e"
      "renormalize (pr_platform_amount (entry_view e)) = py_gross e - provider_part e"
    using assms split by (simp_all add: renormalize_exact entry_ok_def has_scale_diff)
qed

lemma row_splits:
  assumes "revenue_rows_ok db" "row_of_month db t m v" "pr_status v \<in> set MONTHLY_INCLUDED_STATUSES"
  shows "ma_provider (row_amounts v) + ma_platform (row_amounts v) = ma_gross (row_amounts v)"
    "ma_pending (row_amounts v) + ma_held (row_amounts v) = ma_provider (row_amounts v)"
proof -
  obtain e where e: "e \<in> set (rv_entries db)" "v = (entry_view e)\<lparr>pr_status := pr_status v\<rparr>"
    using assms(2) unfolding row_of_month_def by blast
  have "entry_ok db e" using assms(1) e(1) by (simp add: revenue_rows_ok_def list_all_iff)
  note amounts = view_amounts [OF this]
  have "row_amounts v = row_amounts ((entry_view e)\<lparr>pr_status := pr_status v\<rparr>)" using e(2) by argo
  then show "ma_provider (row_amounts v) + ma_platform (row_amounts v) = ma_gross (row_amounts v)"
    using amounts by (simp add: row_amounts_def)
  show "ma_pending (row_amounts v) + ma_held (row_amounts v) = ma_provider (row_amounts v)"
    using assms(3) by (auto simp: row_amounts_def MONTHLY_INCLUDED_STATUSES_def)
qed

lemma sum_where_same: "(\<And>r. r \<in> set rows \<Longrightarrow> f r = g r) \<Longrightarrow> sum_where P f rows = sum_where P g rows"
  unfolding sum_where_def by (rule arg_cong [where f = sum_list]) auto

lemma sum_where_add: "sum_where P (\<lambda>r. f r + g r) rows = sum_where P f rows + sum_where P g rows"
  by (simp add: sum_where_def sum_list_addf)

section \<open>Dashboards\<close>

definition row_totals :: "payout_row \<Rightarrow> payout_amounts_total" where
  "row_totals r = add_payout_amounts empty_payout_amounts r"

definition DASHBOARD_QUANTITIES :: "(payout_amounts_total \<Rightarrow> rat) list" where
  "DASHBOARD_QUANTITIES = [pt_gross, pt_provider, pt_platform, pt_pending, pt_held, pt_paid, pt_voided]"

lemma dashboard_quantity:
  assumes "q \<in> set DASHBOARD_QUANTITIES"
  shows "additive (\<lambda>_. (0, empty_payout_amounts)) count_and_add (\<lambda>t. q (snd t)) (\<lambda>r. q (row_totals r))"
  using assms
  by unfold_locales (auto simp: DASHBOARD_QUANTITIES_def count_and_add_def row_totals_def empty_payout_amounts_def add_payout_amounts_def Let_def)

interpretation dashboard_count: additive "\<lambda>_. (0, empty_payout_amounts)" count_and_add fst "\<lambda>_. 1"
  by unfold_locales (simp_all add: count_and_add_def)

lemma collected_dashboard:
  assumes "(k, n, t) \<in> set (grouped key (\<lambda>_. (0, empty_payout_amounts)) count_and_add rows)"
  shows "n = sum_where (\<lambda>r. key r = k) (\<lambda>_. 1) rows"
    "q \<in> set DASHBOARD_QUANTITIES \<Longrightarrow> q t = sum_where (\<lambda>r. key r = k) (\<lambda>r. q (row_totals r)) rows"
  using dashboard_count.item [OF assms] additive.item [OF dashboard_quantity assms] by simp_all

lemma status_counts_total:
  assumes "\<And>v. v \<in> set rows \<Longrightarrow> pr_status v \<in> set PAYOUT_ENTRY_STATUSES"
  shows "sum_list (map snd (payout_status_counts rows)) = int (length rows)"
  using assms
  by (induction rows) (auto simp: payout_status_counts_def PAYOUT_ENTRY_STATUSES_def)

text \<open>What a row adds, and its months.\<close>

lemma view_totals:
  assumes "entry_ok db e" "v = entry_view e"
  shows "pt_provider (row_totals v) + pt_platform (row_totals v) = pt_gross (row_totals v)"
    "pt_pending (row_totals v) + pt_held (row_totals v) + pt_paid (row_totals v) = pt_provider (row_totals v)"
    "pt_gross (row_totals v) + pt_voided (row_totals v) = pr_gross v"
  using assms(1) view_amounts [OF assms(1)]
  by (auto simp: assms(2) row_totals_def add_payout_amounts_def empty_payout_amounts_def entry_ok_def PAYOUT_ENTRY_STATUSES_def Let_def)

lemma months_of_currency:
  assumes "q \<in> set DASHBOARD_QUANTITIES"
  shows "sum_where (\<lambda>((m, c'), _). c' = c) (\<lambda>(_, _, u). q u) (payout_period_summaries rows) = sum_where (\<lambda>r. pr_currency r = c) (\<lambda>r. q (row_totals r)) rows"
proof -
  have "sum_where (\<lambda>(k, t). snd k = c) (\<lambda>(k, t). q (snd t)) (grouped (\<lambda>r. (pr_period r, pr_currency r)) (\<lambda>_. (0, empty_payout_amounts)) count_and_add rows)
      = sum_where (\<lambda>r. snd (pr_period r, pr_currency r) = c) (\<lambda>r. q (row_totals r)) rows"
    by (rule additive.all_items [OF dashboard_quantity [OF assms]])
  then show ?thesis by (simp add: payout_period_summaries_def case_prod_unfold)
qed

lemma currency_item:
  assumes item: "(c, n, t) \<in> set (payout_currency_totals rows)" and rows: "\<And>v. v \<in> set rows \<Longrightarrow> \<exists>e. entry_ok db e \<and> v = entry_view e"
  shows "n = sum_where (\<lambda>e. pr_currency e = c) (\<lambda>_. 1) rows" "pt_provider t + pt_platform t = pt_gross t"
    "pt_pending t + pt_held t + pt_paid t = pt_provider t" "pt_gross t + pt_voided t = sum_where (\<lambda>e. pr_currency e = c) pr_gross rows"
    "q \<in> set DASHBOARD_QUANTITIES \<Longrightarrow> sum_where (\<lambda>((m, c'), _). c' = c) (\<lambda>(_, _, u). q u) (payout_period_summaries rows) = q t"
proof -
  have i: "(c, n, t) \<in> set (grouped pr_currency (\<lambda>_. (0, empty_payout_amounts)) count_and_add rows)"
    using item by (simp add: payout_currency_totals_def)
  note c = collected_dashboard [OF i]
  have q: "pt_gross \<in> set DASHBOARD_QUANTITIES" "pt_provider \<in> set DASHBOARD_QUANTITIES" "pt_platform \<in> set DASHBOARD_QUANTITIES"
    "pt_pending \<in> set DASHBOARD_QUANTITIES" "pt_held \<in> set DASHBOARD_QUANTITIES" "pt_paid \<in> set DASHBOARD_QUANTITIES" "pt_voided \<in> set DASHBOARD_QUANTITIES"
    by (simp_all add: DASHBOARD_QUANTITIES_def)
  have v: "pt_provider (row_totals v) + pt_platform (row_totals v) = pt_gross (row_totals v)"
    "pt_pending (row_totals v) + pt_held (row_totals v) + pt_paid (row_totals v) = pt_provider (row_totals v)"
    "pt_gross (row_totals v) + pt_voided (row_totals v) = pr_gross v" if "v \<in> set rows" for v
    using rows [OF that] view_totals by blast+
  show "n = sum_where (\<lambda>e. pr_currency e = c) (\<lambda>_. 1) rows" by (rule c(1))
  show "pt_provider t + pt_platform t = pt_gross t"
    unfolding c(2) [OF q(1)] c(2) [OF q(2)] c(2) [OF q(3)] sum_where_add [symmetric] by (rule sum_where_same) (rule v)
  show "pt_pending t + pt_held t + pt_paid t = pt_provider t"
    unfolding c(2) [OF q(2)] c(2) [OF q(4)] c(2) [OF q(5)] c(2) [OF q(6)] sum_where_add [symmetric] by (rule sum_where_same) (rule v)
  show "pt_gross t + pt_voided t = sum_where (\<lambda>e. pr_currency e = c) pr_gross rows"
    unfolding c(2) [OF q(1)] c(2) [OF q(7)] sum_where_add [symmetric] by (rule sum_where_same) (rule v)
  show "sum_where (\<lambda>((m, c'), _). c' = c) (\<lambda>(_, _, u). q u) (payout_period_summaries rows) = q t" if "q \<in> set DASHBOARD_QUANTITIES"
    unfolding months_of_currency [OF that] c(2) [OF that] ..
qed

end
