(* ===== verification/RevenueHistory.thy ===== *)
theory RevenueHistory
  imports BatchInvariant
begin

text \<open>
  What becomes of an entry and of a batch along a run: an entry keeps its material and is settled once
  (\<open>entry_follows\<close>), a batch moves along its states, is written once per version and is frozen when it leaves the
  draft (\<open>batch_follows\<close>).
\<close>

section \<open>Rows that are written in place\<close>

lemma put_follows:
  assumes "distinct (map k rows)" "r \<in> set rows" "k w = k r" "x \<in> set rows" "R r w" "\<And>y. R y y"
  shows "\<exists>y\<in>set (row_put k w rows). R x y"
proof (cases "x = r")
  case True
  then show ?thesis using assms(2,3,5) by (force simp: row_put_def)
next
  case False
  then have "k x \<noteq> k w" using assms(1-4) by (auto simp: distinct_map inj_on_def)
  then have "x \<in> set (row_put k w rows)" using assms(4) by (force simp: row_put_def)
  then show ?thesis using assms(6) by blast
qed

section \<open>Entries\<close>

definition payout_machine :: "string \<Rightarrow> string \<Rightarrow> bool" where
  "payout_machine = payout_transition_allowed\<^sup>*\<^sup>*"

definition entry_follows :: "payout_entry \<Rightarrow> payout_entry \<Rightarrow> bool" where
  "entry_follows e e' \<longleftrightarrow>
     e' = e\<lparr>py_status := py_status e', py_meta := py_meta e', py_updated := py_updated e'\<rparr> \<and> payout_machine (py_status e) (py_status e')"

lemma entry_follows_refl: "entry_follows e e"
  by (simp add: entry_follows_def payout_machine_def)

lemma entry_follows_trans: "entry_follows a b \<Longrightarrow> entry_follows b c \<Longrightarrow> entry_follows a c"
proof -
  assume a: "entry_follows a b" and b: "entry_follows b c"
  have "b\<lparr>py_status := py_status c, py_meta := py_meta c, py_updated := py_updated c\<rparr>
      = a\<lparr>py_status := py_status c, py_meta := py_meta c, py_updated := py_updated c\<rparr>"
    using a unfolding entry_follows_def by (cases a; cases b) simp
  moreover have "payout_machine (py_status a) (py_status c)" using a b by (auto simp: entry_follows_def payout_machine_def)
  ultimately show ?thesis using b unfolding entry_follows_def by argo
qed

lemma entry_write:
  "revenue_write sha db db' \<Longrightarrow> revenue_keys_ok db \<Longrightarrow> e \<in> set (rv_entries db) \<Longrightarrow> \<exists>e'\<in>set (rv_entries db'). entry_follows e e'"
proof (induction rule: revenue_write.induct)
  case (put_entry raw b r db now)
  have "distinct (map py_id (rv_entries db))" using put_entry by (simp add: revenue_keys_ok_def fresh_ids_def)
  moreover have "entry_follows r (r\<lparr>py_status := nb_status b, py_meta := nb_meta b, py_updated := now\<rparr>)"
    using put_entry(3) by (simp add: entry_follows_def payout_machine_def)
  ultimately show ?case using put_follows [of py_id "rv_entries db" r _ e entry_follows] put_entry(2,5) entry_follows_refl by simp
qed (auto intro: entry_follows_refl)

lemma settled: "payout_machine s s' \<Longrightarrow> s \<in> {''paid'', ''voided''} \<Longrightarrow> s' = s"
  unfolding payout_machine_def
  by (induction rule: converse_rtranclp_induct) (auto simp: payout_transition_allowed_def)

section \<open>Batches\<close>

definition monthly_machine :: "string \<Rightarrow> string \<Rightarrow> bool" where
  "monthly_machine = monthly_transition_allowed\<^sup>*\<^sup>*"

definition batch_follows :: "monthly_batch \<Rightarrow> monthly_batch \<Rightarrow> bool" where
  "batch_follows b b' \<longleftrightarrow>
     (mb_id b', mb_tenant b', mb_batch b', mb_period b', mb_created b') = (mb_id b, mb_tenant b, mb_batch b, mb_period b, mb_created b) \<and>
     monthly_machine (mb_status b) (mb_status b') \<and>
     mb_version b \<le> mb_version b' \<and> (mb_version b' = mb_version b \<longrightarrow> b' = b) \<and>
     (mb_status b \<noteq> ''draft'' \<longrightarrow> mb_snapshot b' = mb_snapshot b \<and> mb_calculated b' = mb_calculated b) \<and>
     (mb_status b \<in> {''exported'', ''cancelled''} \<longrightarrow> b' = b)"

lemma batch_follows_refl: "batch_follows b b"
  by (simp add: batch_follows_def monthly_machine_def)

lemma leaves_draft: "monthly_machine s s' \<Longrightarrow> s \<noteq> ''draft'' \<Longrightarrow> s' \<noteq> ''draft''"
  unfolding monthly_machine_def by (induction rule: rtranclp_induct) (auto simp: monthly_transition_allowed_def)

lemma batch_follows_trans: "batch_follows a b \<Longrightarrow> batch_follows b c \<Longrightarrow> batch_follows a c"
  using leaves_draft [of "mb_status a" "mb_status b"] unfolding batch_follows_def monthly_machine_def
  by (auto intro: rtranclp_trans)

lemma patched_follows:
  assumes "terminal_patch_ok r b" "monthly_status_transition (mb_status r) (bp_status b) ref = Inr changed" "changed \<or> patch_changes b r"
  shows "batch_follows r (patched now b r)"
proof -
  have "bp_status b = mb_status r \<and> \<not> changed \<or> monthly_transition_allowed (mb_status r) (bp_status b)"
    using assms(2) by (auto simp: monthly_status_transition_def split: if_splits)
  moreover from this have "mb_status r \<notin> {''exported'', ''cancelled''}"
    using assms(1,3) by (auto simp: terminal_patch_ok_def monthly_transition_allowed_def)
  ultimately show ?thesis by (auto simp: batch_follows_def monthly_machine_def patched_def)
qed

lemma batch_write:
  "revenue_write sha db db' \<Longrightarrow> revenue_keys_ok db \<Longrightarrow> b \<in> set (rv_batches db) \<Longrightarrow> \<exists>b'\<in>set (rv_batches db'). batch_follows b b'"
proof (induction rule: revenue_write.induct)
  case (put_batch raw bd r db snapshot now)
  have "distinct (map mb_id (rv_batches db))" using put_batch by (simp add: revenue_keys_ok_def fresh_ids_def)
  moreover have "batch_follows r (recalculated now bd snapshot r)"
    using put_batch(3) by (simp add: batch_follows_def monthly_machine_def recalculated_def)
  ultimately show ?case
    using put_follows [of mb_id "rv_batches db" r _ b batch_follows] put_batch(2,8) batch_follows_refl by (simp add: recalculated_def)
next
  case (patch_batch raw bd r db changed now)
  have "distinct (map mb_id (rv_batches db))" using patch_batch by (simp add: revenue_keys_ok_def fresh_ids_def)
  moreover have "batch_follows r (patched now bd r)" by (rule patched_follows) (rule patch_batch)+
  ultimately show ?case
    using put_follows [of mb_id "rv_batches db" r _ b batch_follows] patch_batch(2,7) batch_follows_refl by (simp add: patched_def)
qed (auto intro: batch_follows_refl)

text \<open>Versions count from one; only with a reference is a batch approved.\<close>

definition batch_marked :: "monthly_batch \<Rightarrow> bool" where
  "batch_marked b \<longleftrightarrow> id_ok (mb_batch b) \<and> 1 \<le> mb_version b \<and> (mb_status b \<in> {''approved'', ''exported''} \<longrightarrow> mb_approved b \<noteq> None)"

lemma marks_write:
  "revenue_write sha db db' \<Longrightarrow> list_all batch_marked (rv_batches db) \<Longrightarrow> list_all batch_marked (rv_batches db')"
proof (induction rule: revenue_write.induct)
  case (put_batch raw b r db snapshot now)
  then have "batch_marked (recalculated now b snapshot r)" by (auto simp: list_all_iff batch_marked_def recalculated_def)
  with put_batch show ?case by (simp add: list_all_row_put)
next
  case (patch_batch raw b r db changed now)
  then have r: "batch_marked r" by (simp add: list_all_iff)
  have "bp_status b = mb_status r \<or> bp_status b \<notin> {''approved'', ''exported''} \<or> or_else (bp_approved b) (mb_approved r) \<noteq> None"
    using patch_batch(4) by (auto simp: monthly_status_transition_def split: if_splits)
  moreover have "mb_approved r \<noteq> None \<Longrightarrow> or_else (bp_approved b) (mb_approved r) \<noteq> None" by (auto simp: or_else_def split: option.split)
  ultimately have "batch_marked (patched now b r)" using r by (auto simp: batch_marked_def patched_def)
  with patch_batch show ?case by (simp add: list_all_row_put)
qed (simp_all add: new_batch_def batch_marked_def)

section \<open>Runs\<close>

lemma run_follows:
  assumes "revenue_serves sha secret db db'" "revenue_keys_ok db"
  shows "revenue_keys_ok db' \<and> (\<forall>e\<in>set (rv_entries db). \<exists>e'\<in>set (rv_entries db'). entry_follows e e') \<and>
    (\<forall>b\<in>set (rv_batches db). \<exists>b'\<in>set (rv_batches db'). batch_follows b b')"
  using assms(1)
proof (induction rule: revenue_induct)
  case base
  then show ?case using assms(2) entry_follows_refl batch_follows_refl by blast
next
  case (step x y)
  have "revenue_keys_ok y" using step(2) step(3) revenue_keys_write by blast
  then show ?case
    using step(3) entry_write [OF step(2)] batch_write [OF step(2)] entry_follows_trans batch_follows_trans by meson
qed

lemma reachable_marks: "revenue_reachable sha secret db \<Longrightarrow> list_all batch_marked (rv_batches db)"
  unfolding revenue_reachable_def by (induction rule: revenue_induct) (auto simp: empty_revenue_def dest: marks_write)

lemma reachable_serves: "revenue_reachable sha secret db \<Longrightarrow> revenue_serves sha secret db db' \<Longrightarrow> revenue_reachable sha secret db'"
  by (auto simp: revenue_reachable_def revenue_serves_def)

section \<open>Entity tags\<close>

lemma etag_version:
  assumes "monthly_etag b = monthly_etag b'" "mb_batch b = mb_batch b'" "batch_marked b" "batch_marked b'"
  shows "mb_version b = mb_version b'"
  using assms by (simp add: monthly_etag_def batch_marked_def show_int_inject)

lemma entry_by_key:
  assumes "revenue_keys_ok db" "e \<in> set (rv_entries db)"
  shows "load_payout_entry_row (py_entry e) (py_tenant e) db = Some e"
proof -
  have d: "distinct (map (\<lambda>r. (py_tenant r, py_entry r)) (rv_entries db))" using assms(1) by (simp add: revenue_keys_ok_def)
  have "load_payout_entry_row (py_entry e) (py_tenant e) db \<noteq> None"
    using assms(2) by (auto simp: load_payout_entry_row_def find_None_iff)
  then obtain c where c: "load_payout_entry_row (py_entry e) (py_tenant e) db = Some c" by blast
  then have "c \<in> set (rv_entries db) \<and> py_entry c = py_entry e \<and> py_tenant c = py_tenant e"
    by (auto simp: load_payout_entry_row_def dest: found)
  then have "c = e" using d assms(2) by (auto simp: distinct_map inj_on_def)
  then show ?thesis using c by simp
qed

lemma batch_by_key:
  assumes "revenue_keys_ok db" "b \<in> set (rv_batches db)"
  shows "load_monthly_batch_row (mb_batch b) (mb_tenant b) db = Some b"
proof -
  have d: "distinct (map (\<lambda>r. (mb_tenant r, mb_batch r)) (rv_batches db))" using assms(1) by (simp add: revenue_keys_ok_def)
  have "load_monthly_batch_row (mb_batch b) (mb_tenant b) db \<noteq> None"
    using assms(2) by (auto simp: load_monthly_batch_row_def find_None_iff)
  then obtain c where c: "load_monthly_batch_row (mb_batch b) (mb_tenant b) db = Some c" by blast
  then have "c \<in> set (rv_batches db) \<and> mb_batch c = mb_batch b \<and> mb_tenant c = mb_tenant b"
    by (auto simp: load_monthly_batch_row_def dest: found)
  then have "c = b" using d assms(2) by (auto simp: distinct_map inj_on_def)
  then show ?thesis using c by simp
qed

end
