(* ===== verification/RevenueProperties.thy ===== *)
theory RevenueProperties
  imports RevenueTotals RevenueHistory
begin

text \<open>The properties of the revenue share service, over every run of its routes.\<close>

section \<open>A month of one provider\<close>

definition digest_zero :: "checksum_payload \<Rightarrow> string" where
  "digest_zero p = replicate 64 CHR ''0''"

lemma digest_zero_hex: "hex_digest digest_zero"
proof -
  have "checksum_text_ok (replicate 64 CHR ''0'')" by code_simp
  then show ?thesis by (simp add: hex_digest_def digest_zero_def)
qed

definition march :: datetime where "march = DateTime 2026 3 9 0"

definition march_policy :: policy_body where
  "march_policy = \<lparr>pb_tenant = None, pb_policy = None, pb_kind = ''external'', pb_platform = 3 / 10, pb_provider = 7 / 10,
     pb_status = ''active'', pb_from = None, pb_until = None, pb_meta = []\<rparr>"

definition march_hook :: hook_body where
  "march_hook = \<lparr>hb_tenant = None, hb_provider = ''acme'', hb_algo = ''tsp'', hb_policy = ''split'', hb_service = ''billing'',
     hb_event = 7, hb_saga = None, hb_ledger = None, hb_period = ''2026-03'', hb_gross_ref = None, hb_currency = ''CNY'',
     hb_status = ''captured'', hb_meta = []\<rparr>"

definition march_entry :: "string \<Rightarrow> entry_body" where
  "march_entry status = \<lparr>nb_tenant = None, nb_entry = None, nb_hook = 1, nb_gross = 123457 / 10000, nb_currency = ''CNY'',
     nb_recognized = march, nb_status = status, nb_meta = []\<rparr>"

definition march_batch :: batch_body where
  "march_batch = \<lparr>bb_tenant = None, bb_batch = None, bb_period = ''2026-03'', bb_notes = None, bb_meta = [], bb_allow_drift = False\<rparr>"

definition review :: batch_patch where
  "review = \<lparr>bp_status = ''reviewed'', bp_approved = None, bp_notes = None, bp_meta = None\<rparr>"

text \<open>A run earns 12.3457, of which the provider gets seven tenths.\<close>

definition march_requests :: "(datetime \<times> revenue_request) list" where
  "march_requests = map (Pair march)
     [CatalogChanged [(None, ''acme'')] [((None, ''tsp''), ''acme'')], PutPolicy ''split'' march_policy,
      CreateHook march_hook, PutEntry ''e1'' (march_entry ''pending'')]"

definition march_payout :: payout_entry where
  "march_payout = \<lparr>py_id = 2, py_tenant = None, py_entry = ''e1'', py_hook = 1, py_provider = ''acme'', py_algo = ''tsp'',
     py_policy = ''split'', py_service = ''billing'', py_event = 7, py_period = ''2026-03'', py_currency = ''CNY'',
     py_gross = 123457 / 10000, py_platform_ratio = 3 / 10, py_provider_ratio = 7 / 10, py_status = ''pending'',
     py_recognized = march, py_meta = [], py_created = march, py_updated = march\<rparr>"

definition march_db :: revenue_db where
  "march_db = run_revenue digest_zero ''k'' march_requests empty_revenue"

lemma march_reachable: "revenue_reachable digest_zero ''k'' march_db"
  unfolding revenue_reachable_def march_db_def by (rule run_revenue_serves)

lemma march_evaluated: "rv_entries march_db = [march_payout] \<and> rv_batches march_db = []"
  unfolding march_db_def by code_simp

section \<open>Drawing up and moving a batch\<close>

text \<open>The snapshot of a month as the tables have it.\<close>

definition month_snapshot :: "(checksum_payload \<Rightarrow> string) \<Rightarrow> nat option \<Rightarrow> string \<Rightarrow> revenue_db \<Rightarrow> batch_snapshot" where
  "month_snapshot sha t m db = snapshot_of sha t m (map entry_view (filter is_open_entry (entries_of_month t m db)))
     (map left_out (filter (\<lambda>e. \<not> is_open_entry e) (entries_of_month t m db)))"

lemma batch_drawn_up:
  assumes ok: "revenue_ok sha db" and sha: "hex_digest sha" and b: "validate_batch raw = Some b" and bid: "id_ok bid"
    and path: "path_id_ok (bb_batch b) bid" and auth: "secret = [] \<or> header = Some secret"
    and new: "load_monthly_batch_row bid (bb_tenant b) db = None"
  shows "snd (upsert_provider_monthly_revenue_share_batch sha secret header now bid raw db) =
    db\<lparr>rv_batches := rv_batches db @ [new_batch (rv_next db) bid now b (month_snapshot sha (bb_tenant b) (bb_period b) db)], rv_next := Suc (rv_next db)\<rparr>"
proof -
  let ?s = "month_snapshot sha (bb_tenant b) (bb_period b) db"
  let ?n = "new_batch (rv_next db) bid now b ?s"
  let ?db = "db\<lparr>rv_batches := rv_batches db @ [?n], rv_next := Suc (rv_next db)\<rparr>"
  have s: "calculate_monthly_batch_snapshot sha (bb_tenant b) (bb_period b) (bb_allow_drift b) db = Returned ?s"
    using ok snapshot_exact unfolding revenue_ok_def month_snapshot_def by blast
  have "revenue_ok sha ?db" by (rule revenue_ok_write [OF revenue_write.new_batch [OF b bid new s] ok])
  then have "monthly_batch_response sha (mb_tenant ?n) ?db ?n = Returned (?n, if mb_tenant ?n = None then ''global'' else ''tenant'', monthly_etag ?n)"
    using sha by (intro batch_read) (simp_all add: revenue_ok_def)
  then have r: "is_returned (monthly_batch_response sha (bb_tenant b) ?db ?n)" by (simp add: new_batch_def)
  show ?thesis
    using auth by (simp add: upsert_provider_monthly_revenue_share_batch_def b bid with_write_auth_def path s new Let_def answered_with_def r)
qed

lemma batch_moved:
  assumes ok: "revenue_ok sha db" and sha: "hex_digest sha" and b: "validate_patch raw = Some p" and r: "r \<in> set (rv_batches db)"
    and bid: "id_ok (mb_batch r)" and auth: "secret = [] \<or> header = Some secret" and terminal: "terminal_patch_ok r p"
    and moves: "monthly_status_transition (mb_status r) (bp_status p) (or_else (bp_approved p) (mb_approved r)) = Inr True"
  shows "\<exists>scope. patch_provider_monthly_revenue_share_batch_status sha secret header now (mb_batch r) (mb_tenant r) (Some (monthly_etag r)) raw db =
    (Returned (patched now p r, scope, monthly_etag (patched now p r)), db\<lparr>rv_batches := row_put mb_id (patched now p r) (rv_batches db)\<rparr>)"
proof -
  let ?n = "patched now p r"
  let ?db = "db\<lparr>rv_batches := row_put mb_id ?n (rv_batches db)\<rparr>"
  have load: "load_monthly_batch_row (mb_batch r) (mb_tenant r) db = Some r" using ok r by (simp add: revenue_ok_def batch_by_key)
  have ok': "revenue_ok sha ?db" by (rule revenue_ok_write [OF revenue_write.patch_batch [OF b r terminal moves] ok]) simp
  have "?n \<in> set (row_put mb_id ?n (rv_batches db))" using r by (force simp: row_put_def patched_def)
  then have "monthly_batch_response sha (mb_tenant ?n) ?db ?n = Returned (?n, if mb_tenant ?n = None then ''global'' else ''tenant'', monthly_etag ?n)"
    using sha ok' by (intro batch_read) (simp_all add: revenue_ok_def list_all_iff)
  then have resp: "monthly_batch_response sha (mb_tenant r) ?db ?n = Returned (?n, if mb_tenant r = None then ''global'' else ''tenant'', monthly_etag ?n)"
    by (simp add: patched_def)
  show ?thesis
    using auth by (simp add: patch_provider_monthly_revenue_share_batch_status_def b bid with_write_auth_def load terminal moves Let_def answered_with_def resp)
qed

section \<open>Properties\<close>

text \<open>
  C13. In every database the revenue share service can reach, every payout entry can be read, splits its gross amount
  exactly into a provider amount, which is the gross amount times the provider ratio rounded half up to four digits,
  and a platform amount, neither of them negative, belongs to a hook with its provider, algorithm, policy, source event
  and month, and is the only entry of that hook.
\<close>

theorem payouts_split_the_gross:
  assumes reach: "revenue_reachable sha secret db" and e: "e \<in> set (rv_entries db)"
  shows "(\<exists>r. get_provider_revenue_payout_entry (py_entry e) (py_tenant e) db = Returned r \<and> pr_gross r = py_gross e \<and>
      pr_provider_amount r = quantize_half_up 4 (py_gross e * py_provider_ratio e) \<and>
      pr_provider_amount r + pr_platform_amount r = pr_gross r \<and> 0 \<le> pr_provider_amount r \<and> 0 \<le> pr_platform_amount r) \<and>
    (\<exists>h\<in>set (rv_hooks db). rh_id h = py_hook e \<and> payout_entry_matches_hook e h \<and>
      (\<forall>e'\<in>set (rv_entries db). py_hook e' = rh_id h \<longrightarrow> e' = e))"
proof
  note ok = revenue_reachable_ok(1,2) [OF reach]
  have eo: "entry_ok db e" using ok(2) e by (simp add: revenue_rows_ok_def list_all_iff)
  then have "0 \<le> py_gross e" "has_scale 4 (py_gross e)" "policy_ratios (py_platform_ratio e) (py_provider_ratio e)" by (simp_all add: entry_ok_def)
  note split = split_amounts [OF this]
  obtain r where r: "validated_payout_entry_response (py_tenant e) db e = Returned r" "payout_entry_row_from_response r = entry_view e"
    using entry_response [OF ok e] by blast
  have view: "pr_gross r = py_gross e" "pr_provider_amount r = provider_part e" "pr_platform_amount r = py_gross e - provider_part e"
    using r(2) by (simp_all add: payout_entry_row_from_response_def entry_view_def payout_row.truncate_def)
  have "load_payout_entry_row (py_entry e) (py_tenant e) db = Some e" using ok(1) e by (rule entry_by_key)
  then have "get_provider_revenue_payout_entry (py_entry e) (py_tenant e) db = Returned r"
    using eo r(1) by (simp add: get_provider_revenue_payout_entry_def entry_ok_def)
  then show "\<exists>r. get_provider_revenue_payout_entry (py_entry e) (py_tenant e) db = Returned r \<and> pr_gross r = py_gross e \<and>
      pr_provider_amount r = quantize_half_up 4 (py_gross e * py_provider_ratio e) \<and>
      pr_provider_amount r + pr_platform_amount r = pr_gross r \<and> 0 \<le> pr_provider_amount r \<and> 0 \<le> pr_platform_amount r"
    using view split(1,2) by (auto simp: provider_part_def)
  have "e' = e" if "e' \<in> set (rv_entries db)" "py_hook e' = py_hook e" for e'
    using ok(1) e that by (auto simp: revenue_keys_ok_def distinct_map inj_on_def)
  then show "\<exists>h\<in>set (rv_hooks db). rh_id h = py_hook e \<and> payout_entry_matches_hook e h \<and>
      (\<forall>e'\<in>set (rv_entries db). py_hook e' = rh_id h \<longrightarrow> e' = e)"
    using eo by (auto simp: entry_ok_def)
qed

theorem payouts_split_the_gross_witness:
  "\<exists>r. get_provider_revenue_payout_entry ''e1'' None march_db = Returned r \<and> pr_provider_amount r + pr_platform_amount r = 123457 / 10000"
  using payouts_split_the_gross [OF march_reachable, of march_payout] march_evaluated by (auto simp: march_payout_def)

text \<open>
  Along every run of the service a payout entry keeps everything but its status, metadata and modification time, its
  status moves only along the settlement machine, and a paid or voided entry keeps its status.
\<close>

theorem payouts_are_settled_once:
  assumes "revenue_reachable sha secret db" "revenue_serves sha secret db db'" "e \<in> set (rv_entries db)"
  shows "\<exists>e'\<in>set (rv_entries db'). e' = e\<lparr>py_status := py_status e', py_meta := py_meta e', py_updated := py_updated e'\<rparr> \<and>
    payout_transition_allowed\<^sup>*\<^sup>* (py_status e) (py_status e') \<and> (py_status e \<in> {''paid'', ''voided''} \<longrightarrow> py_status e' = py_status e)"
  using run_follows [OF assms(2) revenue_reachable_ok(1) [OF assms(1)]] assms(3) settled
  unfolding entry_follows_def payout_machine_def by blast

theorem payouts_are_settled_once_witness:
  "\<exists>e'\<in>set (rv_entries (run_revenue digest_zero ''k'' [(march, PutEntry ''e1'' (march_entry ''paid''))] march_db)). py_gross e' = 123457 / 10000"
proof -
  have "march_payout \<in> set (rv_entries march_db)" by (simp add: march_evaluated)
  from payouts_are_settled_once [OF march_reachable run_revenue_serves [of digest_zero "''k''"] this]
  obtain e' where e': "e' \<in> set (rv_entries (run_revenue digest_zero ''k'' [(march, PutEntry ''e1'' (march_entry ''paid''))] march_db))"
      "e' = march_payout\<lparr>py_status := py_status e', py_meta := py_meta e', py_updated := py_updated e'\<rparr>"
    by blast
  have "py_gross (march_payout\<lparr>py_status := py_status e', py_meta := py_meta e', py_updated := py_updated e'\<rparr>) = 123457 / 10000"
    by (simp add: march_payout_def)
  then have "py_gross e' = 123457 / 10000" using e'(2) by argo
  then show ?thesis using e'(1) by blast
qed

text \<open>
  C14. In every reachable database every monthly batch can be read, alone and in the list, whatever has been paid, held
  or voided since it was drawn up: its lists are sorted, its counts, checksum and breakdowns agree, and the entries it
  names still give its breakdowns but for their status.
\<close>

theorem batches_stay_readable:
  assumes "revenue_reachable sha secret db" "hex_digest sha"
  shows "(\<forall>b\<in>set (rv_batches db). get_provider_monthly_revenue_share_batch sha (mb_batch b) (mb_tenant b) db =
      Returned (b, if mb_tenant b = None then ''global'' else ''tenant'', monthly_etag b)) \<and>
    (\<exists>rs. list_provider_monthly_revenue_share_batches sha tenant period status None db = Returned rs \<and>
      set (map fst rs) = {b \<in> set (rv_batches db). mb_tenant b = tenant \<and> optional (\<lambda>m. mb_period b = m) period \<and> optional (\<lambda>s. mb_status b = s) status})"
proof
  note ok = revenue_reachable_ok(1,2) [OF assms(1)] and batches = revenue_reachable_ok(3) [OF assms]
  have read: "monthly_batch_response sha (mb_tenant b) db b = Returned (b, if mb_tenant b = None then ''global'' else ''tenant'', monthly_etag b)"
    if "b \<in> set (rv_batches db)" for b
    using batches that by (intro batch_read ok) (simp add: list_all_iff)
  have "id_ok (mb_batch b)" if "b \<in> set (rv_batches db)" for b
    using reachable_marks [OF assms(1)] that by (simp add: list_all_iff batch_marked_def)
  then show "\<forall>b\<in>set (rv_batches db). get_provider_monthly_revenue_share_batch sha (mb_batch b) (mb_tenant b) db =
      Returned (b, if mb_tenant b = None then ''global'' else ''tenant'', monthly_etag b)"
    using read ok(1) by (simp add: get_provider_monthly_revenue_share_batch_def batch_by_key)
  have all: "\<exists>rs. batch_responses sha tenant db rows = Returned rs \<and> map fst rs = rows"
    if "set rows \<subseteq> set (rv_batches db)" "\<And>b. b \<in> set rows \<Longrightarrow> mb_tenant b = tenant" for rows
    using that
  proof (induction rows)
    case (Cons b rows)
    have "monthly_batch_response sha tenant db b = Returned (b, if tenant = None then ''global'' else ''tenant'', monthly_etag b)"
      using read [of b] Cons.prems by simp
    moreover obtain rs where "batch_responses sha tenant db rows = Returned rs" "map fst rs = rows"
      using Cons.IH Cons.prems by auto
    ultimately show ?case by simp
  qed simp
  let ?rows = "latest_batches_first (filter (\<lambda>r. mb_tenant r = tenant \<and> optional (\<lambda>m. mb_period r = m) period \<and> optional (\<lambda>s. mb_status r = s) status) (rv_batches db))"
  have rows: "set ?rows = {b \<in> set (rv_batches db). mb_tenant b = tenant \<and> optional (\<lambda>m. mb_period b = m) period \<and> optional (\<lambda>s. mb_status b = s) status}"
    by (simp add: latest_batches_first_def)
  obtain rs where rs: "batch_responses sha tenant db ?rows = Returned rs" "map fst rs = ?rows"
    using all [of ?rows] rows by blast
  have "optional P None" for P :: "string \<Rightarrow> bool" by (simp add: optional_def)
  then have "list_provider_monthly_revenue_share_batches sha tenant period status None db = Returned rs"
    by (simp add: list_provider_monthly_revenue_share_batches_def rs(1) case_prod_unfold)
  then show "\<exists>rs. list_provider_monthly_revenue_share_batches sha tenant period status None db = Returned rs \<and>
      set (map fst rs) = {b \<in> set (rv_batches db). mb_tenant b = tenant \<and> optional (\<lambda>m. mb_period b = m) period \<and> optional (\<lambda>s. mb_status b = s) status}"
    unfolding rs(2) [symmetric] rows [symmetric] by blast
qed

text \<open>The batch of March, and the month after the payout was settled.\<close>

definition march_drawn_up :: revenue_db where
  "march_drawn_up = handle_revenue digest_zero ''k'' (Some ''k'') march (PutBatch ''march'' march_batch) march_db"

lemma march_drawn_up: "revenue_reachable digest_zero ''k'' march_drawn_up"
  unfolding march_drawn_up_def
  by (rule reachable_serves [OF march_reachable]) (unfold revenue_serves_def, rule r_into_rtranclp, rule revenue_served.request)

lemma march_batches:
  "rv_batches march_drawn_up = [new_batch (rv_next march_db) ''march'' march march_batch (month_snapshot digest_zero None ''2026-03'' march_db)]"
proof -
  have "validate_batch march_batch = Some march_batch" "id_ok ''march''" "path_id_ok (bb_batch march_batch) ''march''" by code_simp+
  from batch_drawn_up [OF _ digest_zero_hex this, where header = "Some ''k''"]
  show ?thesis using revenue_reachable_ok [OF march_reachable] march_evaluated
    by (simp add: march_drawn_up_def revenue_ok_def march_batch_def load_monthly_batch_row_def)
qed

theorem batches_stay_readable_witness:
  "\<exists>scope. get_provider_monthly_revenue_share_batch digest_zero ''march'' None march_drawn_up =
    Returned (hd (rv_batches march_drawn_up), scope, [CHR 0x22] @ ''march:1'' @ [CHR 0x22])"
  using batches_stay_readable [OF march_drawn_up digest_zero_hex] by (simp add: march_batches new_batch_def march_batch_def monthly_etag_def show_int.simps digit_char_def)

text \<open>
  C15. The three breakdowns of a stored batch say the same: for every currency, the gross, provider, platform, pending
  and held amounts of the provider summaries add up to the currency total, as do the counts and the amounts of the
  policy summaries; the parts of a total add up to it, and the counts of the totals to the number of entries.
\<close>

theorem monthly_breakdowns_agree:
  assumes reach: "revenue_reachable sha secret db" and sha: "hex_digest sha" and b: "b \<in> set (rv_batches db)"
    and t: "t \<in> set (bs_totals (mb_snapshot b))"
  shows "(\<forall>q\<in>set [ma_gross, ma_provider, ma_platform, ma_pending, ma_held].
      sum_where (\<lambda>s. ms_currency s = mc_currency t) (\<lambda>s. q (ms_amounts s)) (bs_summaries (mb_snapshot b)) = q (mc_amounts t)) \<and>
    sum_where (\<lambda>s. ms_currency s = mc_currency t) ms_count (bs_summaries (mb_snapshot b)) = mc_count t \<and>
    sum_where (\<lambda>s. mq_currency s = mc_currency t) mq_gross (bs_policies (mb_snapshot b)) = ma_gross (mc_amounts t) \<and>
    sum_where (\<lambda>s. mq_currency s = mc_currency t) mq_provider (bs_policies (mb_snapshot b)) = ma_provider (mc_amounts t) \<and>
    sum_where (\<lambda>s. mq_currency s = mc_currency t) mq_platform (bs_policies (mb_snapshot b)) = ma_platform (mc_amounts t) \<and>
    ma_provider (mc_amounts t) + ma_platform (mc_amounts t) = ma_gross (mc_amounts t) \<and>
    ma_pending (mc_amounts t) + ma_held (mc_amounts t) = ma_provider (mc_amounts t) \<and>
    sum_list (map mc_count (bs_totals (mb_snapshot b))) = bs_count (mb_snapshot b)"
proof -
  have "batch_ok sha db b" using revenue_reachable_ok(3) [OF reach sha] b by (simp add: list_all_iff)
  then obtain included excluded where s: "mb_snapshot b = snapshot_of sha (mb_tenant b) (mb_period b) included excluded"
      and inc: "\<forall>v\<in>set included. pr_status v \<in> set MONTHLY_INCLUDED_STATUSES \<and> row_of_month db (mb_tenant b) (mb_period b) v"
    by (auto simp: batch_ok_def)
  define rows where "rows = sort_key (\<lambda>r. text_order (pr_entry r)) included"
  have lists: "bs_totals (mb_snapshot b) = monthly_currency_totals rows" "bs_summaries (mb_snapshot b) = monthly_provider_summaries rows"
    "bs_policies (mb_snapshot b) = monthly_policy_ratio_summaries rows" "bs_count (mb_snapshot b) = int (length rows)"
    by (simp_all add: s snapshot_of_def Let_def rows_def)
  have rows: "ma_provider (row_amounts v) + ma_platform (row_amounts v) = ma_gross (row_amounts v)"
      "ma_pending (row_amounts v) + ma_held (row_amounts v) = ma_provider (row_amounts v)" if "v \<in> set rows" for v
    using row_splits [OF revenue_reachable_ok(2) [OF reach]] inc that by (auto simp: rows_def)
  note total = total_of_currency [OF t [unfolded lists(1)]]
  have q: "q \<in> set MONTH_QUANTITIES" if "q \<in> set [ma_gross, ma_provider, ma_platform, ma_pending, ma_held]" for q
    using that unfolding MONTH_QUANTITIES_def .
  have gross: "ma_gross \<in> set MONTH_QUANTITIES" and provider: "ma_provider \<in> set MONTH_QUANTITIES" and platform: "ma_platform \<in> set MONTH_QUANTITIES"
    and pending: "ma_pending \<in> set MONTH_QUANTITIES" and held: "ma_held \<in> set MONTH_QUANTITIES" by (simp_all add: MONTH_QUANTITIES_def)
  show ?thesis unfolding lists
  proof (intro conjI ballI)
    show "sum_where (\<lambda>s. ms_currency s = mc_currency t) (\<lambda>s. q (ms_amounts s)) (monthly_provider_summaries rows) = q (mc_amounts t)"
      if "q \<in> set [ma_gross, ma_provider, ma_platform, ma_pending, ma_held]" for q
      using provider_summaries_of_currency [OF provider_quantity [OF q [OF that]]] total(2) [OF q [OF that]] by simp
    show "sum_where (\<lambda>s. ms_currency s = mc_currency t) ms_count (monthly_provider_summaries rows) = mc_count t"
      using provider_summaries_of_currency [OF provider_count.additive_axioms] total(1) by simp
    show "ma_provider (mc_amounts t) + ma_platform (mc_amounts t) = ma_gross (mc_amounts t)"
      unfolding total(2) [OF provider] total(2) [OF platform] total(2) [OF gross] sum_where_add [symmetric]
      by (rule sum_where_same) (rule rows)
    show "ma_pending (mc_amounts t) + ma_held (mc_amounts t) = ma_provider (mc_amounts t)"
      unfolding total(2) [OF provider] total(2) [OF pending] total(2) [OF held] sum_where_add [symmetric]
      by (rule sum_where_same) (rule rows)
  qed (simp_all add: policy_summaries_of_currency [OF policy_gross.additive_axioms] policy_summaries_of_currency [OF policy_provider.additive_axioms]
      policy_summaries_of_currency [OF policy_platform.additive_axioms] total(2) [OF gross] total(2) [OF provider] total(2) [OF platform] currency_counts_total)
qed

theorem monthly_breakdowns_agree_witness:
  "\<exists>t\<in>set (bs_totals (mb_snapshot (hd (rv_batches march_drawn_up)))). ma_provider (mc_amounts t) + ma_platform (mc_amounts t) = ma_gross (mc_amounts t)"
proof -
  let ?b = "hd (rv_batches march_drawn_up)"
  have "bs_totals (mb_snapshot ?b) = monthly_currency_totals [entry_view march_payout]"
    by (simp add: march_batches new_batch_def month_snapshot_def snapshot_of_def entries_of_month_def march_evaluated Let_def)
      (simp add: march_payout_def MONTHLY_INCLUDED_STATUSES_def)
  moreover have "monthly_currency_totals [entry_view march_payout] \<noteq> []" by (simp add: monthly_currency_totals_def grouped_def march_payout_def)
  ultimately obtain t where t: "t \<in> set (bs_totals (mb_snapshot ?b))" by (metis list.set_intros(1) neq_Nil_conv)
  have "?b \<in> set (rv_batches march_drawn_up)" by (simp add: march_batches)
  from monthly_breakdowns_agree [OF march_drawn_up digest_zero_hex this t] show ?thesis using t by blast
qed

text \<open>
  C16. Along every run of the service a batch keeps its identity, its status moves only along the machine of monthly
  batches, every write of it raises its version, its figures are frozen once it is not a draft, nothing of an exported
  or cancelled batch changes, and an approved or exported batch has an approval reference.
\<close>

theorem batches_follow_the_machine:
  assumes "revenue_reachable sha secret db" "revenue_serves sha secret db db'" "b \<in> set (rv_batches db)"
  shows "\<exists>b'\<in>set (rv_batches db').
    (mb_id b', mb_tenant b', mb_batch b', mb_period b', mb_created b') = (mb_id b, mb_tenant b, mb_batch b, mb_period b, mb_created b) \<and>
    monthly_transition_allowed\<^sup>*\<^sup>* (mb_status b) (mb_status b') \<and>
    mb_version b \<le> mb_version b' \<and> (mb_version b' = mb_version b \<longrightarrow> b' = b) \<and>
    (mb_status b \<noteq> ''draft'' \<longrightarrow> mb_snapshot b' = mb_snapshot b \<and> mb_calculated b' = mb_calculated b) \<and>
    (mb_status b \<in> {''exported'', ''cancelled''} \<longrightarrow> b' = b) \<and>
    (mb_status b' \<in> {''approved'', ''exported''} \<longrightarrow> mb_approved b' \<noteq> None)"
proof -
  obtain b' where b': "b' \<in> set (rv_batches db')" "batch_follows b b'"
    using run_follows [OF assms(2) revenue_reachable_ok(1) [OF assms(1)]] assms(3) by blast
  moreover have "batch_marked b'" using reachable_marks [OF reachable_serves [OF assms(1,2)]] b'(1) by (simp add: list_all_iff)
  ultimately show ?thesis unfolding batch_follows_def monthly_machine_def batch_marked_def by blast
qed

text \<open>
  C17. A batch is changed of state with the tag of its current version or not at all: once a batch was written again, a
  request with the tag of what it was before writes nothing and is not answered with the batch, whatever it asks for.
\<close>

theorem stale_tags_lose:
  assumes "revenue_reachable sha secret db" "revenue_serves sha secret db db'" "b \<in> set (rv_batches db)" "b \<notin> set (rv_batches db')"
  shows "snd (patch_provider_monthly_revenue_share_batch_status sha secret header now (mb_batch b) (mb_tenant b) (Some (monthly_etag b)) raw db') = db' \<and>
    \<not> is_returned (fst (patch_provider_monthly_revenue_share_batch_status sha secret header now (mb_batch b) (mb_tenant b) (Some (monthly_etag b)) raw db'))"
proof -
  note reach' = reachable_serves [OF assms(1,2)]
  obtain b' where b': "b' \<in> set (rv_batches db')" "batch_follows b b'"
    using run_follows [OF assms(2) revenue_reachable_ok(1) [OF assms(1)]] assms(3) by blast
  have key: "mb_batch b' = mb_batch b" "mb_tenant b' = mb_tenant b" using b'(2) by (simp_all add: batch_follows_def)
  have load: "load_monthly_batch_row (mb_batch b) (mb_tenant b) db' = Some b'"
    using batch_by_key [OF revenue_reachable_ok(1) [OF reach'] b'(1)] by (simp add: key)
  have "batch_marked b" "batch_marked b'"
    using reachable_marks [OF assms(1)] reachable_marks [OF reach'] assms(3) b'(1) by (simp_all add: list_all_iff)
  moreover have "mb_version b' \<noteq> mb_version b" using b' assms(4) by (auto simp: batch_follows_def)
  ultimately have "monthly_etag b \<noteq> monthly_etag b'" using etag_version [of b b'] key by auto
  then show ?thesis
    by (simp add: patch_provider_monthly_revenue_share_batch_status_def with_write_auth_def load split: option.split)
qed

text \<open>The batch of March is reviewed with the tag of its first version, which is stale then.\<close>

definition march_reviewed :: revenue_db where
  "march_reviewed = handle_revenue digest_zero ''k'' (Some ''k'') march
     (PatchBatch ''march'' None (Some ([CHR 0x22] @ ''march:1'' @ [CHR 0x22])) review) march_drawn_up"

lemma march_reviewed:
  "revenue_serves digest_zero ''k'' march_drawn_up march_reviewed" "map mb_version (rv_batches march_reviewed) = [2]"
proof -
  show "revenue_serves digest_zero ''k'' march_drawn_up march_reviewed"
    unfolding march_reviewed_def revenue_serves_def by (rule r_into_rtranclp) (rule revenue_served.request)
  let ?b = "hd (rv_batches march_drawn_up)"
  have b: "?b \<in> set (rv_batches march_drawn_up)" "mb_batch ?b = ''march''" "mb_tenant ?b = None" "mb_status ?b = ''draft''" "mb_version ?b = 1"
    "monthly_etag ?b = [CHR 0x22] @ ''march:1'' @ [CHR 0x22]"
    by (simp_all add: march_batches new_batch_def march_batch_def monthly_etag_def show_int.simps digit_char_def)
  have ok: "revenue_ok digest_zero march_drawn_up" using revenue_reachable_ok [OF march_drawn_up] by (simp add: revenue_ok_def)
  have v: "validate_patch review = Some review" "id_ok ''march''" by code_simp+
  have "\<exists>scope. patch_provider_monthly_revenue_share_batch_status digest_zero ''k'' (Some ''k'') march (mb_batch ?b) (mb_tenant ?b) (Some (monthly_etag ?b)) review march_drawn_up =
      (Returned (patched march review ?b, scope, monthly_etag (patched march review ?b)),
       march_drawn_up\<lparr>rv_batches := row_put mb_id (patched march review ?b) (rv_batches march_drawn_up)\<rparr>)"
    by (rule batch_moved [OF ok digest_zero_hex v(1) b(1)])
      (simp_all add: b v terminal_patch_ok_def review_def monthly_status_transition_def MONTHLY_BATCH_STATUSES_def monthly_transition_allowed_def)
  then have "rv_batches march_reviewed = row_put mb_id (patched march review ?b) (rv_batches march_drawn_up)"
    unfolding march_reviewed_def b by auto
  then show "map mb_version (rv_batches march_reviewed) = [2]" by (simp add: march_batches row_put_def patched_def new_batch_def)
qed

theorem batches_follow_the_machine_witness:
  "\<exists>b'\<in>set (rv_batches march_reviewed). mb_period b' = ''2026-03''"
proof -
  have "hd (rv_batches march_drawn_up) \<in> set (rv_batches march_drawn_up)" by (simp add: march_batches)
  from batches_follow_the_machine [OF march_drawn_up march_reviewed(1) this]
  obtain b' where b': "b' \<in> set (rv_batches march_reviewed)" "mb_period b' = mb_period (hd (rv_batches march_drawn_up))" by auto
  have "mb_period (hd (rv_batches march_drawn_up)) = ''2026-03''" by (simp add: march_batches new_batch_def march_batch_def)
  then show ?thesis using b' by (intro bexI [of _ b']) simp_all
qed

theorem stale_tags_lose_witness:
  "snd (patch_provider_monthly_revenue_share_batch_status digest_zero ''k'' (Some ''k'') march ''march'' None
     (Some ([CHR 0x22] @ ''march:1'' @ [CHR 0x22])) review march_reviewed) = march_reviewed"
proof -
  let ?b = "hd (rv_batches march_drawn_up)"
  have b: "?b \<in> set (rv_batches march_drawn_up)" "mb_batch ?b = ''march''" "mb_tenant ?b = None" "mb_version ?b = 1"
    "monthly_etag ?b = [CHR 0x22] @ ''march:1'' @ [CHR 0x22]"
    by (simp_all add: march_batches new_batch_def march_batch_def monthly_etag_def show_int.simps digit_char_def)
  have "?b \<notin> set (rv_batches march_reviewed)"
  proof
    assume "?b \<in> set (rv_batches march_reviewed)"
    then have "mb_version ?b \<in> set (map mb_version (rv_batches march_reviewed))" by simp
    then show False by (simp add: march_reviewed(2) b(4))
  qed
  from stale_tags_lose [OF march_drawn_up march_reviewed(1) b(1) this] show ?thesis unfolding b by blast
qed

text \<open>Sorted by one key and then, stably, by another: the rows of the dashboard.\<close>

lemma insort_sorted_pair:
  fixes f :: "'r \<Rightarrow> 'k::linorder" and g :: "'r \<Rightarrow> 'l::linorder"
  assumes "sorted_wrt (\<lambda>x y. f x < f y \<or> f x = f y \<and> g x \<le> g y) zs" "\<forall>z\<in>set zs. g y \<le> g z"
  shows "sorted_wrt (\<lambda>x y. f x < f y \<or> f x = f y \<and> g x \<le> g y) (insort_key f y zs)"
  using assms by (induction zs) (auto simp: set_insort_key)

lemma sorted_pair:
  fixes f :: "'r \<Rightarrow> 'k::linorder" and g :: "'r \<Rightarrow> 'l::linorder"
  shows "sorted_wrt (\<lambda>x y. f x < f y \<or> f x = f y \<and> g x \<le> g y) (sort_key f (sort_key g xs))"
proof -
  have "sorted (map g ys) \<Longrightarrow> sorted_wrt (\<lambda>x y. f x < f y \<or> f x = f y \<and> g x \<le> g y) (sort_key f ys)" for ys
    by (induction ys) (auto intro: insort_sorted_pair)
  then show ?thesis by simp
qed

text \<open>The rows a dashboard is made of: those of the filter, each once, newest first and by identifier.\<close>

definition shown_by :: "string \<Rightarrow> nat option \<Rightarrow> dashboard_filter \<Rightarrow> payout_entry \<Rightarrow> bool" where
  "shown_by provider tenant f e \<longleftrightarrow>
     py_provider e = provider \<and> py_tenant e = tenant \<and>
     df_period f \<in> {None, Some (py_period e)} \<and> df_status f \<in> {None, Some (py_status e)} \<and>
     df_algo f \<in> {None, Some (py_algo e)} \<and> df_currency f \<in> {None, Some (py_currency e)} \<and>
     (\<forall>a. df_from f = Some a \<longrightarrow> a \<le> py_recognized e) \<and> (\<forall>b. df_to f = Some b \<longrightarrow> py_recognized e \<le> b)"

lemma dashboard_rows_shown:
  assumes "revenue_keys_ok db"
  shows "set (dashboard_rows provider tenant f db) = {e \<in> set (rv_entries db). shown_by provider tenant f e}"
    and "distinct (map py_entry (dashboard_rows provider tenant f db))"
    and "sorted_wrt (\<lambda>u v. to_us (py_recognized v) < to_us (py_recognized u) \<or>
           to_us (py_recognized v) = to_us (py_recognized u) \<and> text_order (py_entry u) \<le> text_order (py_entry v))
         (dashboard_rows provider tenant f db)"
proof -
  let ?rows = "dashboard_rows provider tenant f db"
  show in_rows: "set ?rows = {e \<in> set (rv_entries db). shown_by provider tenant f e}"
    by (cases "df_period f"; cases "df_status f"; cases "df_algo f"; cases "df_currency f"; cases "df_from f"; cases "df_to f";
        simp add: dashboard_rows_def newest_entries_first_def shown_by_def optional_def; blast)
  have keys: "distinct (map (\<lambda>r. (py_tenant r, py_entry r)) (rv_entries db))" using assms by (simp add: revenue_keys_ok_def)
  then have "distinct ?rows" by (simp add: dashboard_rows_def newest_entries_first_def distinct_map)
  moreover have "inj_on py_entry (set ?rows)"
    using keys unfolding in_rows by (auto simp: distinct_map inj_on_def shown_by_def)
  ultimately show "distinct (map py_entry ?rows)" by (simp add: distinct_map)
  show "sorted_wrt (\<lambda>u v. to_us (py_recognized v) < to_us (py_recognized u) \<or>
           to_us (py_recognized v) = to_us (py_recognized u) \<and> text_order (py_entry u) \<le> text_order (py_entry v)) ?rows"
    unfolding dashboard_rows_def newest_entries_first_def
    by (rule sorted_wrt_mono_rel [OF _ sorted_pair]) auto
qed

text \<open>
  C18. The dashboard of a provider shows exactly the stored entries of that provider and tenant that match every
  condition of the filter that is set (month, status, algorithm, currency, recognized from and to), each once, with the
  entry's amounts, newest recognized first and by identifier among equal times; its status counts add up to their number; in
  every currency total the provider and platform amounts add up to the gross, the pending, held and paid ones to the
  provider amount, the gross and the voided amounts to the gross amounts of the entries; and the months of a currency
  add up to its total.
\<close>

theorem dashboards_add_up:
  assumes reach: "revenue_reachable sha secret db" and d: "get_provider_revenue_payout_dashboard provider tenant f db = Returned d"
  shows "set (pd_entries d) = entry_view ` {e \<in> set (rv_entries db).
       py_provider e = provider \<and> py_tenant e = tenant \<and>
       df_period f \<in> {None, Some (py_period e)} \<and> df_status f \<in> {None, Some (py_status e)} \<and>
       df_algo f \<in> {None, Some (py_algo e)} \<and> df_currency f \<in> {None, Some (py_currency e)} \<and>
       (\<forall>a. df_from f = Some a \<longrightarrow> a \<le> py_recognized e) \<and> (\<forall>b. df_to f = Some b \<longrightarrow> py_recognized e \<le> b)} \<and>
    distinct (map pr_entry (pd_entries d)) \<and>
    sorted_wrt (\<lambda>u v. to_us (pr_recognized v) < to_us (pr_recognized u) \<or>
       to_us (pr_recognized v) = to_us (pr_recognized u) \<and> text_order (pr_entry u) \<le> text_order (pr_entry v)) (pd_entries d) \<and>
    sum_list (map snd (pd_counts d)) = pd_total d \<and>
    (\<forall>(c, n, t)\<in>set (pd_currencies d).
       n = sum_where (\<lambda>e. pr_currency e = c) (\<lambda>_. 1) (pd_entries d) \<and> pt_provider t + pt_platform t = pt_gross t \<and>
       pt_pending t + pt_held t + pt_paid t = pt_provider t \<and>
       pt_gross t + pt_voided t = sum_where (\<lambda>e. pr_currency e = c) pr_gross (pd_entries d) \<and>
       (\<forall>q\<in>set [pt_gross, pt_provider, pt_platform, pt_pending, pt_held, pt_paid, pt_voided].
          sum_where (\<lambda>((m, c'), _). c' = c) (\<lambda>(_, _, u). q u) (pd_periods d) = q t))"
proof (intro conjI)
  let ?rows = "dashboard_rows provider tenant f db"
  have in_rows: "set ?rows \<subseteq> set (rv_entries db)" "\<And>e. e \<in> set ?rows \<Longrightarrow> py_tenant e = tenant"
    by (auto simp: dashboard_rows_def newest_entries_first_def)
  obtain rs where rs: "payout_responses tenant db ?rows = Returned rs" "map payout_entry_row_from_response rs = map entry_view ?rows"
    using entry_responses [OF revenue_reachable_ok(1,2) [OF reach] in_rows] by blast
  have d_def: "pd_entries d = map entry_view ?rows" "pd_counts d = payout_status_counts (pd_entries d)" "pd_total d = int (length (pd_entries d))"
      "pd_currencies d = payout_currency_totals (pd_entries d)" "pd_periods d = payout_period_summaries (pd_entries d)"
    using d rs by (auto simp: get_provider_revenue_payout_dashboard_def Let_def split: if_splits)
  have "revenue_keys_ok db" by (rule revenue_reachable_ok(1) [OF reach])
  note rows = dashboard_rows_shown [OF this, of provider tenant f]
  show "set (pd_entries d) = entry_view ` {e \<in> set (rv_entries db).
       py_provider e = provider \<and> py_tenant e = tenant \<and>
       df_period f \<in> {None, Some (py_period e)} \<and> df_status f \<in> {None, Some (py_status e)} \<and>
       df_algo f \<in> {None, Some (py_algo e)} \<and> df_currency f \<in> {None, Some (py_currency e)} \<and>
       (\<forall>a. df_from f = Some a \<longrightarrow> a \<le> py_recognized e) \<and> (\<forall>b. df_to f = Some b \<longrightarrow> py_recognized e \<le> b)}"
    unfolding d_def(1) set_map rows(1) shown_by_def ..
  show "distinct (map pr_entry (pd_entries d))" using rows(2) by (simp add: d_def(1) comp_def)
  show "sorted_wrt (\<lambda>u v. to_us (pr_recognized v) < to_us (pr_recognized u) \<or>
       to_us (pr_recognized v) = to_us (pr_recognized u) \<and> text_order (pr_entry u) \<le> text_order (pr_entry v)) (pd_entries d)"
    using rows(3) by (simp add: d_def(1) sorted_wrt_map entry_view_def)
  have row: "\<exists>e. entry_ok db e \<and> v = entry_view e" if "v \<in> set (pd_entries d)" for v
    using that revenue_reachable_ok(2) [OF reach] in_rows(1) by (auto simp: d_def(1) revenue_rows_ok_def list_all_iff)
  then have statuses: "pr_status v \<in> set PAYOUT_ENTRY_STATUSES" if "v \<in> set (pd_entries d)" for v
    using that by (fastforce simp: entry_ok_def)
  show "sum_list (map snd (pd_counts d)) = pd_total d"
    unfolding d_def(2,3) by (rule status_counts_total) (rule statuses)
  show "\<forall>(c, n, t)\<in>set (pd_currencies d).
       n = sum_where (\<lambda>e. pr_currency e = c) (\<lambda>_. 1) (pd_entries d) \<and> pt_provider t + pt_platform t = pt_gross t \<and>
       pt_pending t + pt_held t + pt_paid t = pt_provider t \<and>
       pt_gross t + pt_voided t = sum_where (\<lambda>e. pr_currency e = c) pr_gross (pd_entries d) \<and>
       (\<forall>q\<in>set [pt_gross, pt_provider, pt_platform, pt_pending, pt_held, pt_paid, pt_voided].
          sum_where (\<lambda>((m, c'), _). c' = c) (\<lambda>(_, _, u). q u) (pd_periods d) = q t)"
  proof (intro ballI, clarify, intro conjI ballI)
    fix c n t assume "(c, n, t) \<in> set (pd_currencies d)"
    note item = currency_item [OF this [unfolded d_def(4)]]
    show "n = sum_where (\<lambda>e. pr_currency e = c) (\<lambda>_. 1) (pd_entries d)" "pt_provider t + pt_platform t = pt_gross t"
      "pt_pending t + pt_held t + pt_paid t = pt_provider t" "pt_gross t + pt_voided t = sum_where (\<lambda>e. pr_currency e = c) pr_gross (pd_entries d)"
      by (rule item, rule row, assumption)+
    fix q :: "payout_amounts_total \<Rightarrow> rat" assume "q \<in> set [pt_gross, pt_provider, pt_platform, pt_pending, pt_held, pt_paid, pt_voided]"
    then show "sum_where (\<lambda>((m, c'), _). c' = c) (\<lambda>(_, _, u). q u) (pd_periods d) = q t"
      unfolding d_def(5) DASHBOARD_QUANTITIES_def [symmetric] by (intro item(5)) (rule row)
  qed
qed

theorem dashboards_add_up_witness:
  "\<exists>d. get_provider_revenue_payout_dashboard ''acme'' None \<lparr>df_from = None, df_to = None, df_period = None, df_status = None, df_algo = None, df_currency = None\<rparr> march_db =
    Returned d \<and> set (pd_entries d) = {entry_view march_payout} \<and> sum_list (map snd (pd_counts d)) = pd_total d"
proof -
  let ?f = "\<lparr>df_from = None, df_to = None, df_period = None, df_status = None, df_algo = None, df_currency = None\<rparr>"
  have rows: "dashboard_rows ''acme'' None ?f march_db = [march_payout]"
    by (simp add: dashboard_rows_def newest_entries_first_def march_evaluated optional_def) (simp add: march_payout_def)
  have "march_payout \<in> set (rv_entries march_db)" "py_tenant march_payout = None" by (simp_all add: march_evaluated) (simp add: march_payout_def)
  then obtain r where "payout_responses None march_db [march_payout] = Returned r"
    using entry_response [OF revenue_reachable_ok(1,2) [OF march_reachable], of march_payout] by auto
  moreover have "id_ok ''acme''" by code_simp
  ultimately obtain d where d: "get_provider_revenue_payout_dashboard ''acme'' None ?f march_db = Returned d"
    by (simp add: get_provider_revenue_payout_dashboard_def rows optional_def Let_def)
  note facts = dashboards_add_up [OF march_reachable d]
  have "{e \<in> set (rv_entries march_db). py_provider e = ''acme'' \<and> py_tenant e = None} = {march_payout}"
    by (auto simp: march_evaluated) (simp_all add: march_payout_def)
  with conjunct1 [OF facts] have "set (pd_entries d) = {entry_view march_payout}" by simp
  then show ?thesis using d facts by blast
qed

text \<open>A known source event is answered with its hook whatever the body says, its tenant included.\<close>

theorem hooks_answer_any_body:
  assumes "load_revenue_hook_by_source_event (hb_service b) (hb_event b) db = Some h" "hook_body_ok b" "secret = [] \<or> header = Some secret"
  shows "create_revenue_share_hook secret header now b db = (Returned (revenue_hook_response (rh_tenant h) h), db)"
  using assms by (auto simp: create_revenue_share_hook_def with_write_auth_def)

end
