(* ===== verification/Spec2Isabelle.thy ===== *)
theory Spec2Isabelle
  imports ChargeProperties BillingSystem UsageTrends InvoiceProperties OutboxRelay RateLimitProperties RetryProperties
    AuthErrors AuthLoginProperties AuditPages RegistryProperties
    RevenueProperties
begin

text \<open>
  OptiCloud sells optimization runs. This library models the Python services that carry its money, its accounts
  and its decisions, and proves what makes them correct. One Postgres database is shared by the services; every
  request is one transaction on it, which the model takes as one atomic step: a handler is a function from the
  committed database (a record of tables) and the request to the answer and the database it leaves committed.
\<close>

section \<open>The parts and how they interact\<close>

text \<open>
  The billing service (apps/billing-service/src/billing_service) prices and charges runs. A charge is a Saga: a
  row with a state, driven through a transition table that the shared package defines; each transition writes
  ledger rows, outbox events and the idempotency row that answers a retry. On the ledger rest balances, budgets,
  subscriptions, statements, trends and the daily reconciliation. The solver orchestrator
  (apps/solver-orchestrator) authenticates API keys, limits rates, calls billing over HTTP when a solve ends, and
  repairs lost calls with a retry job. The outbox relayer publishes the events of the outbox table on Redis. The
  auth service (apps/auth-service) owns accounts, codes, keys, risk flags, merges, appeals and deletions, in the
  same database. The capability registry (apps/capability-registry) takes a new solver provider from its application
  through an evaluation and a shadow run to a staged rollout, and splits what its runs earn: a policy gives the ratios,
  a hook says that a run earned something, a payout entry holds the amounts, and a monthly batch draws a month up.

  Every component has a theory of definitions named after its module, which imports the components it calls; its
  properties stand in the same theory when they are few, and in theories of their own otherwise.

  \<^item> Prelude, PyText, Decimals, Calendar, IpText: JSON values, keyed tables, the string operations, decimals, UTC
    datetimes and addresses of Python's standard library, as far as the code uses them.
  \<^item> SagaStateMachine (opticloud_shared/saga/state_machine.py), PayloadSafety (saga/contract_fixtures.py), CostTelemetry
    (cost_telemetry), Responses (errors/rfc7807.py, problem_details.py).
  \<^item> Models (models.py, config.py, the aggregate queries of routes.py), Pricing (pricing.py, spend.py, topups.py), Plans
    (plans.py), SagaOrchestrator (saga_orchestrator.py, compensations.py, exceptions.py), Requests (schemas.py), Budget
    (budget.py and its routes), Charges, Refunds and Subscriptions (routes.py), Invoices (invoices.py), UsageTrends
    (usage_trends.py), Reconciler (reconciler.py).
  \<^item> OutboxRelay (apps/outbox-relayer), RateLimit (solver_orchestrator/rate_limit.py with its Lua script),
    SolverBilling (billing_client.py and the billing part of routes.py), FinalizeRetry (billing_reconciler.py), ApiKeyAuth
    (auth.py, geo_risk.py).
  \<^item> AuthModels (auth_service/models.py, config.py, security.py), AuthRisk (risk.py, admin_routes.py), AuthLogin and
    AuditPages (routes.py, schemas.py), AuthMerge (account_merge.py), AuthAppeals (frozen_appeals.py), AuthDeletion
    (account_deletion.py).
  \<^item> RegistryText (capability_registry/schemas.py), RegistryModels (models.py), ProviderApplications, ShadowValidation and
    Rollouts (routes.py, schemas.py), RegistrySystem (any sequence of their requests).
  \<^item> RevenueModels (capability_registry/models.py, schemas.py), RevenueShare (policies, hooks and payout entries),
    PayoutDashboard and MonthlyBatches (routes.py, schemas.py), RevenueSystem (any sequence of their requests).

  A record field stands for the column or attribute of the same name behind a short prefix; an operation keeps the
  name of its function, less a leading underscore. Errors are values: a handler answers \<open>Returned\<close>, a
  \<open>Problem\<close> document, an \<open>HttpError\<close> with its status, or the \<open>ServerError\<close> of an
  exception nobody catches; an exception of a called function is \<open>Inl\<close> of its class.
\<close>

section \<open>What the lemmas show\<close>

text \<open>
  \<^item> The abstract machine of Sagas (SagaStateMachine) is refined by the stored ones (SagaOrchestrator,
    BillingSystem): states move only along its table, terminal states are final, retries write nothing.
  \<^item> ChargeLedger states what the rows of a Saga sum to in each state; ChargeSafety shows that every charge, refund and
    top-up keeps it; ChargeProperties gives the functional behaviour of each route, with retries, replays and owners.
  \<^item> SubscriptionSafety and SubscriptionProperties do the same for subscriptions: the refill loop ends and pays each
    period once, an upgrade pays the prorated difference, and every route keeps the ledger row that paid for the
    current period of each active row. PayloadSafety resolves the check on stored payloads, its two regular
    expressions included, to what a payload may not contain. Budget, Invoices, UsageTrends and Reconciler compare what
    they report with the ledger itself.
  \<^item> BillingSystem closes the money requests under any interleaving. The contract of its elementary writes is the
    locale of RequestFrame, whose lemmas carry any relation of databases that respects those writes through every
    handler; it is interpreted with the invariants and with the history relations, and gives the properties of every
    reachable database. The rows the auth service writes into the tables of billing, the users and the credits of an
    education signup, are steps of the run too.
  \<^item> OutboxRelay runs several relayers as a step relation, with publishes that raise before or after Redis took the
    event and cut transactions: delivery is at least once, and the number of repetitions is bounded by the failures
    of the run. RateLimitProperties relates the sorted
    sets to the admitted requests; RetryProperties composes the retry job with billing over a network that loses
    requests or answers, behind the locale of operations that take effect at most once: a solve is paid at most once,
    a cancelled one is free and is refunded as soon as billing is reached.
  \<^item> AuthFrame, AuthInvariant and AuthSystem close the auth service under any interleaving in the same way as
    RequestFrame and BillingSystem do for billing; AuthProperties, AuthErrors and AuthLoginProperties draw the
    consequences. AuditPages shows that following the cursors reads everything once.
  \<^item> RegistrySystem shows that every route of the marketplace makes one of thirteen elementary writes or none;
    RegistryInvariant, RegistryHistory and RegistryRows carry keys, indexes, the history of rows and the conditions of a
    row through them; ShadowGate resolves the thresholds of a shadow run to conditions on whole numbers;
    RegistryProperties draws the consequences, and RegistryExample drives a provider with 500 samples to a rollout.
  \<^item> RevenueSystem shows the same of the revenue share routes with nine elementary writes; RevenueInvariant and
    BatchInvariant carry keys, the amounts of an entry and the rows of a batch, which agree with the entries but for
    their status; RevenueHistory says what an entry and a batch keep. GroupedSums and RevenueTotals treat the breakdowns
    as sums by key, every quantity through the locale of what starts at zero and grows by rows; RevenueProperties draws
    the consequences.
\<close>

section \<open>Bounds and fuel\<close>

text \<open>
  Loops over tables are structural recursion. The refill loop and the walk over months are
  \<^verbatim>\<open>while\<close> loops over the calendar and are partial functions with an option: that they return is proved
  (every request of a reachable database returns; the list of statements is found). Batches of the relayer and runs of
  the retry job are explicit lists of steps of any length. A client that follows audit cursors has fuel; as much as
  there are rows is proved enough.
\<close>

section \<open>Not modelled\<close>

text \<open>
  \<^item> Row locks and what happens inside a transaction that interleaves with others: a request is atomic, and one
    clock reading serves a request. Whether the second reading of a batch row under its lock sees what another
    transaction committed meanwhile is therefore not part of the model. Redis and the rate limiter share one clock.
  \<^item> Texts are strings of characters without NUL, which PostgreSQL refuses in a text or in JSON, and the digits of the
    patterns are ASCII: a label of a key with a NUL and a code in digits of another script, which the service answers
    with 500, are outside the model.
  \<^item> Free texts: details of problem documents, log lines, tracing, Chinese labels, the PDF of a statement.
  \<^item> Cryptography: HMACs, JWT signatures, the signature of a cursor. They are parameters with what the code relies on
    as hypotheses (hashes do not collide where that matters). The normal form of an IPv6 address is a parameter too.
  \<^item> Decimals are exact rationals: the context of 28 digits is not reached by the amounts the database can hold. Binary
    floats appear only in answers and are rationals as well. Datetimes are UTC between the years 1 and 9999.
  \<^item> Identifiers are numbers counted by the database instead of random UUIDs; where the code uses the text of a UUID,
    that text is a parameter.
  \<^item> Metadata of audit rows, metrics, sleeps of the poll loops, command line wrappers, application start-up.
  \<^item> The rest of the capability registry: providers, capabilities and their vocabulary, OAuth flows, version updates and
    the dashboards of routing and of providers. The SHA-256 of the canonical JSON of a monthly batch is a parameter.
  \<^item> Data exports, notification preferences and the fan-out of incidents; the language models, the sandbox and the
    solvers are services or libraries; the web front end, the SDKs and the scripts that check documents are no part of
    the running services.
\<close>

end
